(* ===== verification/Ipu4_Prelude.thy ===== *)
theory Ipu4_Prelude
  imports "HOL-Library.Word" "HOL-Library.State_Monad"
begin

unbundle bit_operations_syntax

text \<open>
  The shared vocabulary of the development: the C integer types at their width, the
  kernel's error numbers, memory-mapped I/O as a state monad over an arbitrary device, and
  the generic lemmas on words, lists and the monad that the component theories use.
\<close>

section \<open>Machine types\<close>

type_synonym u8 = "8 word"
type_synonym u16 = "16 word"
type_synonym u32 = "32 word"
type_synonym u64 = "64 word"

text \<open>
  The error numbers the driver returns. A C function that returns \<open>0\<close> or a negative
  error number is a function into \<open>errno + unit\<close>; one that returns a pointer or NULL is a
  function into an option type.
\<close>

datatype errno = EPERM | EIO | EAGAIN | ENOMEM | EFAULT | EBUSY | ENODEV | EINVAL | ENOTTY
  | ENOSPC | EPIPE | ENODATA | ETIMEDOUT | EPROBE_DEFER | EREMOTEIO | ENOIOCTLCMD | ENOENT
  | ENOLINK | EDOM | ENOTCONN | EEXIST | ENOTUNIQ

text \<open>The values of \<^verbatim>\<open>errno.h\<close>, for code that stores an error number in an integer.\<close>

fun errno_val :: "errno \<Rightarrow> int" where
  "errno_val EPERM = 1"
| "errno_val ENOENT = 2"
| "errno_val EIO = 5"
| "errno_val EAGAIN = 11"
| "errno_val ENOMEM = 12"
| "errno_val EFAULT = 14"
| "errno_val EBUSY = 16"
| "errno_val ENODEV = 19"
| "errno_val EINVAL = 22"
| "errno_val ENOTTY = 25"
| "errno_val ENOSPC = 28"
| "errno_val EPIPE = 32"
| "errno_val EDOM = 33"
| "errno_val ENODATA = 61"
| "errno_val ENOLINK = 67"
| "errno_val ENOTCONN = 107"
| "errno_val ETIMEDOUT = 110"
| "errno_val EREMOTEIO = 121"
| "errno_val EPROBE_DEFER = 517"
| "errno_val ENOIOCTLCMD = 515"
| "errno_val EEXIST = 17"
| "errno_val ENOTUNIQ = 76"

type_synonym 'a res = "errno + 'a"

abbreviation ok :: "unit res" where
  "ok \<equiv> Inr ()"

section \<open>Memory-mapped I/O\<close>

text \<open>
  A device is what a 32-bit read and a 32-bit write at an address do to its state. Reads
  may change the state, as reading a hardware register can. The driver's functions are
  written once, over any device.
\<close>

record 'd mmio_dev =
  dev_read :: "u64 \<Rightarrow> 'd \<Rightarrow> u32 \<times> 'd"
  dev_write :: "u32 \<Rightarrow> u64 \<Rightarrow> 'd \<Rightarrow> 'd"

definition readl :: "'d mmio_dev \<Rightarrow> u64 \<Rightarrow> ('d, u32) state" where
  "readl dv a = State (dev_read dv a)"

definition writel :: "'d mmio_dev \<Rightarrow> u32 \<Rightarrow> u64 \<Rightarrow> ('d, unit) state" where
  "writel dv v a = State (\<lambda>s. ((), dev_write dv v a s))"

lemma run_state_bind [simp]:
  "run_state (State_Monad.bind m f) s = (case run_state m s of (a, s') \<Rightarrow> run_state (f a) s')"
  by (simp add: State_Monad.bind_def)

lemma run_state_return [simp]: "run_state (State_Monad.return a) s = (a, s)"
  by (simp add: State_Monad.return_def)

lemma run_state_readl [simp]: "run_state (readl dv a) s = dev_read dv a s"
  by (simp add: readl_def)

lemma run_state_writel [simp]: "run_state (writel dv v a) s = ((), dev_write dv v a s)"
  by (simp add: writel_def)

text \<open>A sequence of register writes, in order.\<close>

fun write_all :: "'d mmio_dev \<Rightarrow> (u32 \<times> u64) list \<Rightarrow> ('d, unit) state" where
  "write_all dv [] = State_Monad.return ()"
| "write_all dv ((v, a) # ws) = do { writel dv v a; write_all dv ws }"

text \<open>
  A recording device: every access is appended to a log and reads are answered by an
  oracle that may depend on everything logged so far. A theorem about the accesses a
  driver function makes is a theorem about its run on this device, for every oracle.
\<close>

datatype access = Rd u64 | Wr u32 u64

definition trace_dev :: "(access list \<Rightarrow> u64 \<Rightarrow> u32) \<Rightarrow> access list mmio_dev" where
  "trace_dev orc = \<lparr>dev_read = (\<lambda>a l. (orc l a, l @ [Rd a])),
                    dev_write = (\<lambda>v a l. l @ [Wr v a])\<rparr>"

lemma trace_dev_read [simp]: "dev_read (trace_dev orc) a l = (orc l a, l @ [Rd a])"
  by (simp add: trace_dev_def)

lemma trace_dev_write [simp]: "dev_write (trace_dev orc) v a l = l @ [Wr v a]"
  by (simp add: trace_dev_def)

lemma write_all_trace:
  "run_state (write_all (trace_dev orc) ws) l = ((), l @ map (\<lambda>(v, a). Wr v a) ws)"
  by (induction ws arbitrary: l) auto

section \<open>Words\<close>

named_theorems ipu4_consts \<open>the numeric constants of the register headers\<close>

lemma unat_add_no_wrap:
  "unat (a :: 'a::len word) + unat b < 2 ^ LENGTH('a) \<Longrightarrow> unat (a + b) = unat a + unat b"
  by (simp add: unat_word_ariths)

lemma unat_mult_no_wrap:
  "unat (a :: 'a::len word) * unat b < 2 ^ LENGTH('a) \<Longrightarrow> unat (a * b) = unat a * unat b"
  by (simp add: unat_word_ariths)

lemma unat_sub_le: "b \<le> a \<Longrightarrow> unat (a - b) = unat a - unat (b :: 'a::len word)"
  by (simp add: unat_sub)

lemma unat_lt_two_p [simp]: "unat (a :: 'a::len word) < 2 ^ LENGTH('a)"
  by simp

lemma unat_push_bit_no_wrap:
  assumes "unat (a :: 'a::len word) * 2 ^ n < 2 ^ LENGTH('a)"
  shows "unat (push_bit n a) = unat a * 2 ^ n"
proof -
  have "unat (push_bit n a) = take_bit LENGTH('a) (push_bit n (unat a))"
    by (rule unsigned_push_bit_eq)
  then show ?thesis
    using assms by (simp only: push_bit_eq_mult take_bit_nat_eq_self)
qed

lemma unat_drop_bit: "unat (drop_bit n (a :: 'a::len word)) = unat a div 2 ^ n"
  by (subst unat_drop_bit_eq) (simp add: drop_bit_eq_div)

lemma unat_of_nat_less:
  "n < 2 ^ LENGTH('a) \<Longrightarrow> unat (word_of_nat n :: 'a::len word) = n"
  by (simp add: unat_of_nat)

lemma unat_and_mask: "unat ((w :: 'a::len word) AND mask n) = unat w mod 2 ^ n"
  by (simp add: unsigned_take_bit_eq flip: take_bit_eq_mask take_bit_eq_mod)

lemma eq_of_unat: "unat (w :: 'a::len word) = n \<Longrightarrow> w = word_of_nat n"
  by auto

lemma ucast_of_nat_less:
  "n < 2 ^ LENGTH('a) \<Longrightarrow> ucast (word_of_nat n :: 'a::len word) = (word_of_nat n :: 'b::len word)"
  by (simp add: unsigned_of_nat take_bit_nat_eq_self)

lemma ucast_of_nat_u32: "n < 2 ^ 32 \<Longrightarrow> ucast (word_of_nat n :: u32) = (word_of_nat n :: u64)"
  by (simp add: ucast_of_nat_less)

lemma unat_of_nat_u32: "n < 2 ^ 32 \<Longrightarrow> unat (word_of_nat n :: u32) = n"
  by (simp add: unat_of_nat_less)

lemma unat_of_nat_u64: "n < 2 ^ 64 \<Longrightarrow> unat (word_of_nat n :: u64) = n"
  by (simp add: unat_of_nat_less)

lemma unat_u32_less: "unat (w :: u32) < 2 ^ 32"
  using unat_lt_two_p [of w] by simp

lemma unat_ucast_up:
  assumes "LENGTH('a) \<le> LENGTH('b)"
  shows "unat (ucast (w :: 'a::len word) :: 'b::len word) = unat w"
proof -
  have "unat w < 2 ^ LENGTH('a)" by simp
  also have "(2::nat) ^ LENGTH('a) \<le> 2 ^ LENGTH('b)" using assms by simp
  finally show ?thesis by (simp add: unsigned_ucast_eq take_bit_nat_eq_self)
qed

lemma ucast_u32_u64_inject: "(ucast (a :: u32) :: u64) = ucast b \<longleftrightarrow> a = b"
proof
  assume "(ucast a :: u64) = ucast b"
  then have "unat (ucast a :: u64) = unat (ucast b :: u64)" by simp
  then show "a = b" by (simp add: unat_ucast_up word_unat_eq_iff)
qed simp

lemma ucast_add_down:
  "LENGTH('b) \<le> LENGTH('a) \<Longrightarrow> (ucast ((a::'a::len word) + b) :: 'b::len word) = ucast a + ucast b"
  by transfer (metis min_def take_bit_add take_bit_take_bit)

lemma ucast_mult_down:
  "LENGTH('b) \<le> LENGTH('a) \<Longrightarrow> (ucast ((a::'a::len word) * b) :: 'b::len word) = ucast a * ucast b"
  by transfer (metis min_def take_bit_mult take_bit_take_bit)

lemma ucast_sub_down:
  "LENGTH('b) \<le> LENGTH('a) \<Longrightarrow> (ucast ((a::'a::len word) - b) :: 'b::len word) = ucast a - ucast b"
  by transfer (metis min_def take_bit_diff take_bit_take_bit)

lemma ucast_of_nat_down:
  "LENGTH('b) \<le> LENGTH('a) \<Longrightarrow> (ucast (word_of_nat n :: 'a::len word) :: 'b::len word) = word_of_nat n"
  by transfer (simp add: take_bit_take_bit min_def)

lemmas ucast_down = ucast_add_down ucast_mult_down ucast_sub_down ucast_of_nat_down

section \<open>Ring indices\<close>

text \<open>
  A ring of \<open>n\<close> slots with a write and a read index. One slot always stays free, so equal
  indices mean an empty ring.
\<close>

definition ring_count :: "nat \<Rightarrow> nat \<Rightarrow> nat \<Rightarrow> nat" where
  "ring_count n wr rd = (wr + n - rd) mod n"

definition ring_next :: "nat \<Rightarrow> nat \<Rightarrow> nat" where
  "ring_next n i = (if i + 1 \<ge> n then 0 else i + 1)"

definition ring_idxs :: "nat \<Rightarrow> nat \<Rightarrow> nat \<Rightarrow> nat list" where
  "ring_idxs n wr rd = map (\<lambda>i. (rd + i) mod n) [0..<ring_count n wr rd]"

lemma ring_next_mod: "i < n \<Longrightarrow> ring_next n i = (i + 1) mod n"
  by (auto simp: ring_next_def le_less mod_if)

lemma ring_next_less: "0 < n \<Longrightarrow> ring_next n i < n"
  by (simp add: ring_next_def)

lemma ring_count_less: "0 < n \<Longrightarrow> ring_count n wr rd < n"
  by (simp add: ring_count_def)

lemma ring_count_if:
  "wr < n \<Longrightarrow> rd < n \<Longrightarrow> ring_count n wr rd = (if wr < rd then wr + n - rd else wr - rd)"
  by (auto simp: ring_count_def mod_if)

lemma ring_count_0: "wr < n \<Longrightarrow> rd < n \<Longrightarrow> ring_count n wr rd = 0 \<longleftrightarrow> wr = rd"
  by (auto simp: ring_count_if)

lemma ring_count_put:
  "wr < n \<Longrightarrow> rd < n \<Longrightarrow> ring_count n wr rd < n - 1 \<Longrightarrow>
   ring_count n (ring_next n wr) rd = Suc (ring_count n wr rd)"
  by (auto simp: ring_count_if ring_next_def split: if_splits)

lemma ring_count_get:
  "wr < n \<Longrightarrow> rd < n \<Longrightarrow> 0 < ring_count n wr rd \<Longrightarrow>
   ring_count n wr rd = Suc (ring_count n wr (ring_next n rd))"
  by (auto simp: ring_count_if ring_next_def split: if_splits)

lemma ring_last_idx: "wr < n \<Longrightarrow> rd < n \<Longrightarrow> (rd + ring_count n wr rd) mod n = wr"
  by (auto simp: ring_count_if mod_if)

lemma ring_idxs_put:
  assumes "wr < n" "rd < n" "ring_count n wr rd < n - 1"
  shows "ring_idxs n (ring_next n wr) rd = ring_idxs n wr rd @ [wr]"
  using assms by (simp add: ring_idxs_def ring_count_put ring_last_idx)

lemma ring_idxs_get:
  assumes "wr < n" "rd < n" "0 < ring_count n wr rd"
  shows "ring_idxs n wr rd = rd # ring_idxs n wr (ring_next n rd)"
proof -
  let ?c = "ring_count n wr (ring_next n rd)"
  have "[0..<Suc ?c] = 0 # map Suc [0..<?c]"
    using map_Suc_upt upt_conv_Cons by (metis zero_less_Suc)
  moreover have "(ring_next n rd + i) mod n = (rd + Suc i) mod n" for i
    using assms(2) by (simp add: ring_next_mod mod_simps)
  ultimately show ?thesis
    using assms ring_count_get [OF assms] by (simp add: ring_idxs_def o_def)
qed

lemma ring_idxs_wr_fresh:
  assumes "wr < n" "rd < n"
  shows "wr \<notin> set (ring_idxs n wr rd)"
proof
  assume "wr \<in> set (ring_idxs n wr rd)"
  then obtain i where "i < ring_count n wr rd" "wr = (rd + i) mod n"
    by (auto simp: ring_idxs_def)
  moreover from this assms have "i < n"
    using ring_count_less [of n wr rd] by linarith
  moreover have "(rd + i) mod n = (if rd + i < n then rd + i else rd + i - n)"
    using \<open>i < n\<close> assms(2) by (simp add: mod_if)
  ultimately show False
    using assms by (simp add: ring_count_if split: if_splits)
qed

lemma ring_idxs_less: "0 < n \<Longrightarrow> i \<in> set (ring_idxs n wr rd) \<Longrightarrow> i < n"
  by (auto simp: ring_idxs_def)

lemma length_ring_idxs [simp]: "length (ring_idxs n wr rd) = ring_count n wr rd"
  by (simp add: ring_idxs_def)

section \<open>Little-endian structures in memory\<close>

fun le_val :: "u8 list \<Rightarrow> nat" where
  "le_val [] = 0"
| "le_val (b # bs) = unat b + 256 * le_val bs"

fun le_bytes :: "nat \<Rightarrow> nat \<Rightarrow> u8 list" where
  "le_bytes 0 v = []"
| "le_bytes (Suc n) v = word_of_nat v # le_bytes n (v div 256)"

text \<open>The unsigned field of \<open>n\<close> bytes at offset \<open>i\<close> of a structure.\<close>

definition field_at :: "nat \<Rightarrow> nat \<Rightarrow> u8 list \<Rightarrow> 'a::len word" where
  "field_at i n bs = word_of_nat (le_val (take n (drop i bs)))"

lemma le_bytes_4:
  "le_bytes 4 v = [word_of_nat v, word_of_nat (v div 256), word_of_nat (v div 256 div 256),
                   word_of_nat (v div 256 div 256 div 256)]"
proof -
  have "(4 :: nat) = Suc (Suc (Suc (Suc 0)))" by simp
  then show ?thesis by (simp only: le_bytes.simps)
qed

lemma length_le_bytes [simp]: "length (le_bytes n v) = n"
  by (induction n arbitrary: v) auto

lemma le_val_bytes: "le_val (le_bytes n v) = v mod 256 ^ n"
proof (induction n arbitrary: v)
  case 0
  then show ?case by simp
next
  case (Suc n)
  have "unat (word_of_nat v :: u8) = v mod 256"
    by (simp add: unat_of_nat)
  with Suc show ?case
    by (simp add: mod_mult2_eq [of v 256] mult.commute)
qed

lemma le_val_less: "le_val bs < 256 ^ length bs"
proof (induction bs)
  case Nil
  then show ?case by simp
next
  case (Cons b bs)
  have "unat b < 256"
    using unat_lt_two_p [of b] by simp
  with Cons show ?case by simp
qed

lemma le_bytes_val: "le_bytes (length bs) (le_val bs) = bs"
proof (induction bs)
  case Nil
  then show ?case by simp
next
  case (Cons b bs)
  have "unat b < 256"
    using unat_lt_two_p [of b] by simp
  moreover from this have "word_of_nat (unat b + 256 * le_val bs) = b"
    by (simp add: word_unat_eq_iff unat_of_nat del: of_nat_add of_nat_mult)
  ultimately show ?case using Cons by (simp del: of_nat_add of_nat_mult)
qed

text \<open>An encoded field is read back wherever it sits in a structure.\<close>

lemma field_at_bytes:
  assumes "length pre = i" "n * 8 = LENGTH('a)"
  shows "field_at i n (pre @ le_bytes n (unat (w :: 'a::len word)) @ post) = w"
proof -
  have "(256::nat) ^ n = (2 ^ 8) ^ n" by simp
  also have "\<dots> = 2 ^ LENGTH('a)"
    using assms(2) by (simp only: power_mult [symmetric] mult.commute)
  finally have "(256::nat) ^ n = 2 ^ LENGTH('a)" .
  then have "unat w mod 256 ^ n = unat w"
    by simp
  then show ?thesis
    using assms(1) by (simp add: field_at_def le_val_bytes)
qed

end
