(* ===== verification/Fw_Com.thy ===== *)
theory Fw_Com
  imports Ipu4_Prelude
begin

unbundle bit_operations_syntax

text \<open>
  The firmware communication layer, \<^verbatim>\<open>kernel/ipu4/ipu6-fw-com.c\<close>: the shared structures,
  the layout of the one DMA buffer that holds the configuration, the queue descriptors and
  the token storage, the open / close handshake, and the token queues whose read and write
  indices live in device registers. The queue operations are proved against a ring of
  tokens, over any device whose index registers behave as memory (locale \<open>regmem\<close>).
\<close>

section \<open>Shared structures\<close>

record ipu6_fw_sys_queue =
  q_host_address :: u64
  q_vied_address :: u32
  q_size :: u32
  q_token_size :: u32
  q_wr_reg :: u32
  q_rd_reg :: u32
  q_align :: u32

record ipu6_fw_sys_queue_res =
  res_host_address :: u64
  res_vied_address :: u32
  res_reg :: u32

definition SYSCOM_STATE_UNINIT :: u32 where [ipu4_consts]: "SYSCOM_STATE_UNINIT = 0x57A7E000"
definition SYSCOM_STATE_READY :: u32 where [ipu4_consts]: "SYSCOM_STATE_READY = 0x57A7E001"
definition SYSCOM_STATE_INACTIVE :: u32 where [ipu4_consts]: "SYSCOM_STATE_INACTIVE = 0x57A7E002"
definition SYSCOM_COMMAND_UNINIT :: u32 where [ipu4_consts]: "SYSCOM_COMMAND_UNINIT = 0x57A7F000"
definition SYSCOM_COMMAND_INACTIVE :: u32 where [ipu4_consts]: "SYSCOM_COMMAND_INACTIVE = 0x57A7F001"

definition FW_COM_WR_REG :: u64 where [ipu4_consts]: "FW_COM_WR_REG = 0"
definition FW_COM_RD_REG :: u64 where [ipu4_consts]: "FW_COM_RD_REG = 4"

definition SYSCOM_CONFIG_REG :: u64 where [ipu4_consts]: "SYSCOM_CONFIG_REG = 1"
definition SYSCOM_STATE_REG :: u64 where [ipu4_consts]: "SYSCOM_STATE_REG = 2"
definition SYSCOM_COMMAND_REG :: u64 where [ipu4_consts]: "SYSCOM_COMMAND_REG = 3"
definition SYSCOM_QPR_BASE_REG :: u32 where [ipu4_consts]: "SYSCOM_QPR_BASE_REG = 6"

record ipu6_fw_syscom_config =
  firmware_address :: u32
  num_input_queues :: u32
  num_output_queues :: u32
  cfg_input_queue :: u32
  cfg_output_queue :: u32
  specific_addr :: u32
  specific_size :: u32

record ipu6_fw_syscom_queue_config =
  queue_size :: u32
  token_size :: u32

text \<open>
  The client's configuration. The two callbacks are operations on the device; a NULL
  callback is \<open>None\<close>. The client's private data is a byte list, \<open>None\<close> for a NULL pointer.
\<close>

record 'd ipu6_fw_com_cfg =
  cfg_num_input_queues :: u32
  cfg_num_output_queues :: u32
  cfg_input :: "ipu6_fw_syscom_queue_config list"
  cfg_output :: "ipu6_fw_syscom_queue_config list"
  cfg_dmem_addr :: u32
  cfg_specific_addr :: "u8 list option"
  cfg_specific_size :: u32
  cfg_cell_ready :: "('d, bool) state option"
  cfg_cell_start :: "('d, unit) state option"
  cfg_buttress_boot_offset :: u32

text \<open>
  The context. The configuration structure, the two descriptor arrays and the private data
  live in the DMA buffer; they are fields here, next to the addresses they live at.
\<close>

record 'd ipu6_fw_com_context =
  dmem_addr :: u64
  cell_ready :: "('d, bool) state"
  cell_start :: "('d, unit) state"
  dma_buffer :: u64
  dma_addr :: u64
  dma_size :: u32
  input_queue :: "ipu6_fw_sys_queue list"
  output_queue :: "ipu6_fw_sys_queue list"
  config_vied_addr :: u32
  buttress_boot_offset :: u32
  base_addr :: u64
  config_host :: ipu6_fw_syscom_config
  specific_host :: "u8 list"

section \<open>Laying out the shared buffer\<close>

definition ipu6_sys_queue_init ::
  "ipu6_fw_sys_queue \<Rightarrow> u32 \<Rightarrow> u32 \<Rightarrow> ipu6_fw_sys_queue_res
   \<Rightarrow> ipu6_fw_sys_queue \<times> ipu6_fw_sys_queue_res" where
  "ipu6_sys_queue_init q qsize tsize res =
     (let buf_size = (qsize + 1) * tsize in
      (q\<lparr>q_size := qsize + 1,
         q_token_size := tsize,
         q_host_address := res_host_address res,
         q_vied_address := res_vied_address res,
         q_wr_reg := res_reg res,
         q_rd_reg := res_reg res + 1\<rparr>,
       res\<lparr>res_host_address := res_host_address res + ucast buf_size,
           res_vied_address := res_vied_address res + buf_size,
           res_reg := res_reg res + 1 + 1\<rparr>))"

text \<open>The zeroed descriptor that freshly allocated DMA memory holds.\<close>

definition zero_queue :: ipu6_fw_sys_queue where
  "zero_queue = \<lparr>q_host_address = 0, q_vied_address = 0, q_size = 0, q_token_size = 0,
                 q_wr_reg = 0, q_rd_reg = 0, q_align = 0\<rparr>"

text \<open>The loop that initialises the descriptors of one direction.\<close>

fun sys_queues_init ::
  "ipu6_fw_syscom_queue_config list \<Rightarrow> ipu6_fw_sys_queue_res
   \<Rightarrow> ipu6_fw_sys_queue list \<times> ipu6_fw_sys_queue_res" where
  "sys_queues_init [] res = ([], res)"
| "sys_queues_init (c # cs) res =
     (let (q, res1) = ipu6_sys_queue_init zero_queue (queue_size c) (token_size c) res;
          (qs, res2) = sys_queues_init cs res1
      in (q # qs, res2))"

text \<open>\<^verbatim>\<open>size_mul\<close> saturates at the largest \<^verbatim>\<open>size_t\<close>; \<^verbatim>\<open>roundup\<close> works in \<^verbatim>\<open>unsigned int\<close>.\<close>

definition size_mul :: "u64 \<Rightarrow> u64 \<Rightarrow> u64" where
  "size_mul a b = (if unat a * unat b < 2 ^ 64 then a * b else - 1)"

definition roundup8 :: "u32 \<Rightarrow> u32" where
  "roundup8 x = ((x + 7) div 8) * 8"

text \<open>The two loops that add up the token storage, in \<^verbatim>\<open>unsigned int\<close>.\<close>

definition queues_bytes :: "ipu6_fw_syscom_queue_config list \<Rightarrow> u32" where
  "queues_bytes cs =
     foldl (\<lambda>acc c. acc + ucast (size_mul (ucast (queue_size c + 1)) (ucast (token_size c)))) 0 cs"

definition conf_size :: u64 where "conf_size = 32"
definition sizeof_sys_queue :: u64 where "sizeof_sys_queue = 32"

definition prepare_sizeall :: "'d ipu6_fw_com_cfg \<Rightarrow> u64" where
  "prepare_sizeall cfg =
     conf_size + size_mul (ucast (cfg_num_input_queues cfg)) sizeof_sys_queue
       + size_mul (ucast (cfg_num_output_queues cfg)) sizeof_sys_queue
       + ucast (roundup8 (cfg_specific_size cfg))
       + ucast (queues_bytes (take (unat (cfg_num_input_queues cfg)) (cfg_input cfg))
              + queues_bytes (take (unat (cfg_num_output_queues cfg)) (cfg_output cfg)))"

text \<open>
  The part of \<open>ipu6_fw_com_prepare\<close> after the allocation: the addresses in the
  configuration structure, the private data and the queue descriptors.
\<close>

definition fw_com_ctx_init ::
  "'d ipu6_fw_com_cfg \<Rightarrow> ('d, bool) state \<Rightarrow> ('d, unit) state \<Rightarrow> u64 \<Rightarrow> u64 \<Rightarrow> u64
   \<Rightarrow> 'd ipu6_fw_com_context" where
  "fw_com_ctx_init cfg ready start base vaddr handle =
     (let inq_size = size_mul (ucast (cfg_num_input_queues cfg)) sizeof_sys_queue;
          outq_size = size_mul (ucast (cfg_num_output_queues cfg)) sizeof_sys_queue;
          spec_size = ucast (roundup8 (cfg_specific_size cfg));
          ins = take (unat (cfg_num_input_queues cfg)) (cfg_input cfg);
          outs = take (unat (cfg_num_output_queues cfg)) (cfg_output cfg);
          off_in = conf_size;
          off_out = off_in + inq_size;
          off_spec = off_out + outq_size;
          off_q = off_spec + spec_size;
          (inqs, res1) = sys_queues_init ins
             \<lparr>res_host_address = vaddr + off_q, res_vied_address = ucast (handle + off_q),
              res_reg = SYSCOM_QPR_BASE_REG\<rparr>;
          off_q2 = off_q + ucast (queues_bytes ins);
          (outqs, res2) = sys_queues_init outs
             \<lparr>res_host_address = vaddr + off_q2, res_vied_address = ucast (handle + off_q2),
              res_reg = res_reg res1\<rparr>
      in \<lparr>dmem_addr = base + ucast (cfg_dmem_addr cfg),
          cell_ready = ready, cell_start = start,
          dma_buffer = vaddr, dma_addr = handle, dma_size = ucast (prepare_sizeall cfg),
          input_queue = inqs, output_queue = outqs,
          config_vied_addr = ucast handle,
          buttress_boot_offset = cfg_buttress_boot_offset cfg,
          base_addr = base,
          config_host =
            \<lparr>firmware_address = 0,
             num_input_queues = cfg_num_input_queues cfg,
             num_output_queues = cfg_num_output_queues cfg,
             cfg_input_queue = ucast (handle + off_in),
             cfg_output_queue = ucast (handle + off_out),
             specific_addr = ucast (handle + off_spec),
             specific_size = cfg_specific_size cfg\<rparr>,
          specific_host =
            (case cfg_specific_addr cfg of
               Some bs \<Rightarrow> take (unat (cfg_specific_size cfg)) bs
             | None \<Rightarrow> [])\<rparr>)"

text \<open>
  \<open>ipu6_fw_com_prepare\<close>. \<open>kzalloc_ok\<close> is whether the context could be allocated,
  \<open>dma_alloc\<close> the DMA allocator (the buffer's CPU address and device address, or a failure)
  and \<open>dma_sync\<close> the cache synchronisation, both over the allocator's state.
\<close>

definition ipu6_fw_com_prepare ::
  "bool \<Rightarrow> (u64 \<Rightarrow> ('s, (u64 \<times> u64) option) state) \<Rightarrow> (u64 \<Rightarrow> u64 \<Rightarrow> ('s, unit) state)
   \<Rightarrow> 'd ipu6_fw_com_cfg option \<Rightarrow> u64 \<Rightarrow> ('s, 'd ipu6_fw_com_context option) state" where
  "ipu6_fw_com_prepare kzalloc_ok dma_alloc dma_sync cfgo base =
     (case cfgo of
        None \<Rightarrow> State_Monad.return None
      | Some cfg \<Rightarrow>
        (case (cfg_cell_start cfg, cfg_cell_ready cfg) of
           (Some start, Some ready) \<Rightarrow>
             (if \<not> kzalloc_ok then State_Monad.return None
              else do {
                buf \<leftarrow> dma_alloc (prepare_sizeall cfg);
                (case buf of
                   None \<Rightarrow> State_Monad.return None
                 | Some (vaddr, handle) \<Rightarrow> do {
                     dma_sync (ucast (ucast handle :: u32)) (prepare_sizeall cfg);
                     State_Monad.return (Some (fw_com_ctx_init cfg ready start base vaddr handle)) }) })
         | _ \<Rightarrow> State_Monad.return None))"

section \<open>The handshake with the firmware\<close>

definition ipu6_fw_com_open :: "'d mmio_dev \<Rightarrow> 'd ipu6_fw_com_context \<Rightarrow> ('d, unit res) state" where
  "ipu6_fw_com_open dv ctx = do {
     rdy \<leftarrow> cell_ready ctx;
     if \<not> rdy then State_Monad.return (Inl EIO)
     else do {
       writel dv SYSCOM_STATE_UNINIT (dmem_addr ctx + SYSCOM_STATE_REG * 4);
       writel dv SYSCOM_COMMAND_UNINIT (dmem_addr ctx + SYSCOM_COMMAND_REG * 4);
       writel dv (config_vied_addr ctx) (dmem_addr ctx + SYSCOM_CONFIG_REG * 4);
       cell_start ctx;
       State_Monad.return ok } }"

definition ipu6_fw_com_close :: "'d mmio_dev \<Rightarrow> 'd ipu6_fw_com_context \<Rightarrow> ('d, unit res) state" where
  "ipu6_fw_com_close dv ctx = do {
     st \<leftarrow> readl dv (dmem_addr ctx + SYSCOM_STATE_REG * 4);
     if st \<noteq> SYSCOM_STATE_READY then State_Monad.return (Inl EBUSY)
     else do {
       writel dv SYSCOM_COMMAND_INACTIVE (dmem_addr ctx + SYSCOM_COMMAND_REG * 4);
       State_Monad.return ok } }"

text \<open>
  \<open>ipu6_fw_com_release\<close> frees the buffer and the context; the freed range is handed to
  \<open>dma_free\<close> (size, CPU address, device address).
\<close>

definition ipu6_fw_com_release ::
  "(u64 \<Rightarrow> u64 \<Rightarrow> u64 \<Rightarrow> ('d, unit) state) \<Rightarrow> 'd ipu6_fw_com_context \<Rightarrow> bool
   \<Rightarrow> ('d, unit res) state" where
  "ipu6_fw_com_release dma_free ctx force = do {
     rdy \<leftarrow> (if force then State_Monad.return True else cell_ready ctx);
     if \<not> rdy then State_Monad.return (Inl EBUSY)
     else do {
       dma_free (ucast (dma_size ctx)) (dma_buffer ctx) (dma_addr ctx);
       State_Monad.return ok } }"

definition ipu6_fw_com_ready :: "'d mmio_dev \<Rightarrow> 'd ipu6_fw_com_context \<Rightarrow> ('d, bool) state" where
  "ipu6_fw_com_ready dv ctx = do {
     st \<leftarrow> readl dv (dmem_addr ctx + SYSCOM_STATE_REG * 4);
     State_Monad.return (st = SYSCOM_STATE_READY) }"

section \<open>The token queues\<close>

definition q_dmem :: "'d ipu6_fw_com_context \<Rightarrow> ipu6_fw_sys_queue \<Rightarrow> u64" where
  "q_dmem ctx q = dmem_addr ctx + ucast (q_wr_reg q * 4)"

text \<open>The address of a token: the index times the token size in \<^verbatim>\<open>unsigned int\<close>.\<close>

definition token_addr :: "ipu6_fw_sys_queue \<Rightarrow> u32 \<Rightarrow> u64" where
  "token_addr q i = q_host_address q + ucast (i * q_token_size q)"

definition ipu6_send_get_token ::
  "'d mmio_dev \<Rightarrow> 'd ipu6_fw_com_context \<Rightarrow> nat \<Rightarrow> ('d, u64 option) state" where
  "ipu6_send_get_token dv ctx q_nbr = do {
     let q = input_queue ctx ! q_nbr;
     wr \<leftarrow> readl dv (q_dmem ctx q + FW_COM_WR_REG);
     rd \<leftarrow> readl dv (q_dmem ctx q + FW_COM_RD_REG);
     if wr \<ge> q_size q \<or> rd \<ge> q_size q then State_Monad.return None
     else do {
       let packets = (if wr < rd then rd - wr - 1 else q_size q - (wr - rd + 1));
       if packets = 0 then State_Monad.return None
       else do {
         index \<leftarrow> readl dv (q_dmem ctx q + FW_COM_WR_REG);
         State_Monad.return (Some (token_addr q index)) } } }"

definition ipu6_send_put_token ::
  "'d mmio_dev \<Rightarrow> 'd ipu6_fw_com_context \<Rightarrow> nat \<Rightarrow> ('d, unit) state" where
  "ipu6_send_put_token dv ctx q_nbr = do {
     let q = input_queue ctx ! q_nbr;
     wr0 \<leftarrow> readl dv (q_dmem ctx q + FW_COM_WR_REG);
     let wr = wr0 + 1;
     writel dv (if wr \<ge> q_size q then 0 else wr) (q_dmem ctx q + FW_COM_WR_REG) }"

definition ipu6_recv_get_token ::
  "'d mmio_dev \<Rightarrow> 'd ipu6_fw_com_context \<Rightarrow> nat \<Rightarrow> ('d, u64 option) state" where
  "ipu6_recv_get_token dv ctx q_nbr = do {
     let q = output_queue ctx ! q_nbr;
     wr \<leftarrow> readl dv (q_dmem ctx q + FW_COM_WR_REG);
     rd \<leftarrow> readl dv (q_dmem ctx q + FW_COM_RD_REG);
     if wr \<ge> q_size q \<or> rd \<ge> q_size q then State_Monad.return None
     else do {
       let wr' = (if wr < rd then wr + q_size q else wr);
       let packets = wr' - rd;
       if packets = 0 then State_Monad.return None
       else State_Monad.return (Some (token_addr q rd)) } }"

definition ipu6_recv_put_token ::
  "'d mmio_dev \<Rightarrow> 'd ipu6_fw_com_context \<Rightarrow> nat \<Rightarrow> ('d, unit) state" where
  "ipu6_recv_put_token dv ctx q_nbr = do {
     let q = output_queue ctx ! q_nbr;
     rd0 \<leftarrow> readl dv (q_dmem ctx q + FW_COM_RD_REG);
     let rd = rd0 + 1;
     writel dv (if rd \<ge> q_size q then 0 else rd) (q_dmem ctx q + FW_COM_RD_REG) }"

section \<open>The layout is a partition of the buffer\<close>

definition queue_bytes :: "ipu6_fw_syscom_queue_config \<Rightarrow> nat" where
  "queue_bytes c = (unat (queue_size c) + 1) * unat (token_size c)"

definition total_bytes :: "ipu6_fw_syscom_queue_config list \<Rightarrow> nat" where
  "total_bytes cs = sum_list (map queue_bytes cs)"

definition sizes_ok :: "ipu6_fw_syscom_queue_config list \<Rightarrow> bool" where
  "sizes_ok cs \<longleftrightarrow> list_all (\<lambda>c. unat (queue_size c) + 1 < 2 ^ 32) cs"

lemma total_bytes_simps [simp]:
  "total_bytes [] = 0"
  "total_bytes (c # cs) = queue_bytes c + total_bytes cs"
  "total_bytes (cs @ ds) = total_bytes cs + total_bytes ds"
  by (simp_all add: total_bytes_def)

lemma total_bytes_take_le: "total_bytes (take i cs) \<le> total_bytes cs"
  by (metis append_take_drop_id le_add1 total_bytes_simps(3))

lemma total_bytes_take_Suc:
  "i < length cs \<Longrightarrow> total_bytes (take (Suc i) cs) = total_bytes (take i cs) + queue_bytes (cs ! i)"
  by (simp add: take_Suc_conv_app_nth)

lemma unat_queue_size_Suc:
  "unat (queue_size c) + 1 < 2 ^ 32 \<Longrightarrow> unat (queue_size c + 1) = unat (queue_size c) + 1"
  by (simp add: unat_word_ariths)

lemma queue_bytes_word:
  assumes "unat (queue_size c) + 1 < 2 ^ 32" "queue_bytes c < 2 ^ 32"
  shows "(queue_size c + 1) * token_size c = word_of_nat (queue_bytes c)"
proof -
  have "unat ((queue_size c + 1) * token_size c) = queue_bytes c"
    using assms by (subst unat_mult_no_wrap) (simp_all add: unat_queue_size_Suc queue_bytes_def)
  then show ?thesis
    by (simp flip: \<open>unat _ = _\<close>)
qed

lemma size_mul_word:
  assumes "unat (queue_size c) + 1 < 2 ^ 32" "queue_bytes c < 2 ^ 32"
  shows "(ucast (size_mul (ucast (queue_size c + 1)) (ucast (token_size c))) :: u32)
         = word_of_nat (queue_bytes c)"
proof -
  have u: "unat (ucast (queue_size c + 1) :: u64) = unat (queue_size c) + 1"
          "unat (ucast (token_size c) :: u64) = unat (token_size c)"
    using assms(1) by (simp_all add: unat_ucast_up unat_queue_size_Suc)
  then have "size_mul (ucast (queue_size c + 1)) (ucast (token_size c))
             = ucast (queue_size c + 1) * ucast (token_size c)"
    using assms(2) by (simp add: size_mul_def queue_bytes_def)
  also have "\<dots> = word_of_nat (queue_bytes c)"
    by (subst word_arith_nat_mult) (simp only: u queue_bytes_def)
  finally show ?thesis
    using assms(2) by (simp add: ucast_of_nat_less)
qed

lemma queues_bytes_acc:
  assumes "sizes_ok cs" "unat acc + total_bytes cs < 2 ^ 32"
  shows "foldl (\<lambda>acc c. acc + ucast (size_mul (ucast (queue_size c + 1)) (ucast (token_size c)))) acc cs
         = acc + (word_of_nat (total_bytes cs) :: u32)"
  using assms
proof (induction cs arbitrary: acc)
  case Nil
  then show ?case by simp
next
  case (Cons c cs)
  let ?w = "word_of_nat (queue_bytes c) :: u32"
  have c: "unat (queue_size c) + 1 < 2 ^ 32" "queue_bytes c < 2 ^ 32" and "sizes_ok cs"
    using Cons.prems by (auto simp: sizes_ok_def)
  have "unat (acc + ?w) + total_bytes cs < 2 ^ 32"
    using Cons.prems(2) c(2) by (simp add: unat_add_no_wrap unat_of_nat_less)
  from Cons.IH [OF \<open>sizes_ok cs\<close> this] show ?case
    by (simp add: size_mul_word [OF c])
qed

lemma queues_bytes_word:
  "sizes_ok cs \<Longrightarrow> total_bytes cs < 2 ^ 32 \<Longrightarrow> queues_bytes cs = word_of_nat (total_bytes cs)"
  by (simp add: queues_bytes_def queues_bytes_acc)

text \<open>Every descriptor the loop writes: its storage starts where the previous one ends.\<close>

lemma sys_queues_init_length [simp]: "length (fst (sys_queues_init cs res)) = length cs"
  by (induction cs arbitrary: res) (auto simp: Let_def case_prod_beta)

lemma sys_queue_init_res:
  assumes "unat (queue_size c) + 1 < 2 ^ 32" "queue_bytes c < 2 ^ 32"
  shows "snd (ipu6_sys_queue_init q (queue_size c) (token_size c) res) =
    res\<lparr>res_host_address := res_host_address res + word_of_nat (queue_bytes c),
        res_vied_address := res_vied_address res + word_of_nat (queue_bytes c),
        res_reg := res_reg res + 2\<rparr>"
  using assms by (simp add: ipu6_sys_queue_init_def Let_def queue_bytes_word ucast_of_nat_less)

lemma sys_queues_init_nth:
  assumes "sizes_ok cs" "total_bytes cs < 2 ^ 32" "i < length cs"
  shows "fst (sys_queues_init cs res) ! i =
    \<lparr>q_host_address = res_host_address res + word_of_nat (total_bytes (take i cs)),
     q_vied_address = res_vied_address res + word_of_nat (total_bytes (take i cs)),
     q_size = queue_size (cs ! i) + 1, q_token_size = token_size (cs ! i),
     q_wr_reg = res_reg res + 2 * word_of_nat i,
     q_rd_reg = res_reg res + 2 * word_of_nat i + 1, q_align = 0\<rparr>"
  using assms
proof (induction cs arbitrary: res i)
  case Nil
  then show ?case by simp
next
  case (Cons c cs)
  have c: "unat (queue_size c) + 1 < 2 ^ 32" "queue_bytes c < 2 ^ 32"
    and cs: "sizes_ok cs" "total_bytes cs < 2 ^ 32"
    using Cons.prems by (auto simp: sizes_ok_def)
  show ?case
  proof (cases i)
    case 0
    then show ?thesis
      by (simp add: ipu6_sys_queue_init_def zero_queue_def Let_def case_prod_beta)
  next
    case (Suc j)
    with Cons.prems(3) have "j < length cs" by simp
    from Cons.IH [OF cs this] show ?thesis
      by (simp add: Suc Let_def case_prod_beta sys_queue_init_res [OF c] add.assoc distrib_left)
  qed
qed

lemma sys_queues_init_res:
  assumes "sizes_ok cs" "total_bytes cs < 2 ^ 32"
  shows "snd (sys_queues_init cs res) =
    res\<lparr>res_host_address := res_host_address res + word_of_nat (total_bytes cs),
        res_vied_address := res_vied_address res + word_of_nat (total_bytes cs),
        res_reg := res_reg res + 2 * word_of_nat (length cs)\<rparr>"
  using assms
proof (induction cs arbitrary: res)
  case Nil
  then show ?case by simp
next
  case (Cons c cs)
  then have "unat (queue_size c) + 1 < 2 ^ 32" "queue_bytes c < 2 ^ 32" "sizes_ok cs"
      "total_bytes cs < 2 ^ 32"
    by (auto simp: sizes_ok_def)
  with Cons.IH show ?case
    by (simp add: Let_def case_prod_beta sys_queue_init_res add.assoc distrib_left)
qed

lemma sys_queues_init_append:
  "sys_queues_init (cs @ ds) res =
    (let (qs, r1) = sys_queues_init cs res; (qs', r2) = sys_queues_init ds r1 in (qs @ qs', r2))"
  by (induction cs arbitrary: res) (auto simp: Let_def split: prod.splits)

text \<open>
  A configuration fits when the two descriptor tables are as long as announced and the
  whole buffer is smaller than 4 GB, so that no size computation of the code wraps.
\<close>

definition cfg_ins :: "'d ipu6_fw_com_cfg \<Rightarrow> ipu6_fw_syscom_queue_config list" where
  "cfg_ins cfg = take (unat (cfg_num_input_queues cfg)) (cfg_input cfg)"

definition cfg_outs :: "'d ipu6_fw_com_cfg \<Rightarrow> ipu6_fw_syscom_queue_config list" where
  "cfg_outs cfg = take (unat (cfg_num_output_queues cfg)) (cfg_output cfg)"

definition header_bytes :: "'d ipu6_fw_com_cfg \<Rightarrow> nat" where
  "header_bytes cfg = 32 + 32 * unat (cfg_num_input_queues cfg)
     + 32 * unat (cfg_num_output_queues cfg) + 8 * ((unat (cfg_specific_size cfg) + 7) div 8)"

definition cfg_fits :: "'d ipu6_fw_com_cfg \<Rightarrow> bool" where
  "cfg_fits cfg \<longleftrightarrow>
     unat (cfg_num_input_queues cfg) \<le> length (cfg_input cfg) \<and>
     unat (cfg_num_output_queues cfg) \<le> length (cfg_output cfg) \<and>
     sizes_ok (cfg_ins cfg @ cfg_outs cfg) \<and>
     unat (cfg_specific_size cfg) + 7 < 2 ^ 32 \<and>
     header_bytes cfg + total_bytes (cfg_ins cfg @ cfg_outs cfg) < 2 ^ 32"

lemma cfg_fitsD:
  assumes "cfg_fits cfg"
  shows "sizes_ok (cfg_ins cfg)" "sizes_ok (cfg_outs cfg)"
    "header_bytes cfg < 2 ^ 32" "total_bytes (cfg_ins cfg) < 2 ^ 32"
    "total_bytes (cfg_outs cfg) < 2 ^ 32" "total_bytes (cfg_ins cfg @ cfg_outs cfg) < 2 ^ 32"
    "length (cfg_ins cfg) = unat (cfg_num_input_queues cfg)"
    "length (cfg_outs cfg) = unat (cfg_num_output_queues cfg)"
    "unat (cfg_specific_size cfg) + 7 < 2 ^ 32"
  using assms by (auto simp: cfg_fits_def sizes_ok_def cfg_ins_def cfg_outs_def)

lemma roundup8_word:
  assumes "unat x + 7 < 2 ^ 32"
  shows "ucast (roundup8 x) = (word_of_nat (8 * ((unat x + 7) div 8)) :: u64)"
proof -
  have "unat ((x + 7) div 8) = (unat x + 7) div 8"
    using assms by (simp add: unat_div unat_word_ariths)
  then have "(x + 7) div 8 = word_of_nat ((unat x + 7) div 8)"
    by (simp flip: \<open>unat _ = _\<close>)
  then have "roundup8 x = word_of_nat (8 * ((unat x + 7) div 8))"
    by (simp add: roundup8_def)
  moreover have "8 * ((unat x + 7) div 8) < 2 ^ 32"
    using assms times_div_less_eq_dividend [of 8 "unat x + 7"] by linarith
  ultimately show ?thesis
    by (simp only: ucast_of_nat_u32)
qed

lemma size_mul_descriptors:
  "size_mul (ucast (n :: u32)) sizeof_sys_queue = word_of_nat (32 * unat n)"
proof -
  show ?thesis
    using unat_u32_less [of n] by (simp add: size_mul_def sizeof_sys_queue_def unat_ucast_up)
qed

lemma prepare_sizeall_word:
  assumes "cfg_fits cfg"
  shows "prepare_sizeall cfg = word_of_nat (header_bytes cfg + total_bytes (cfg_ins cfg @ cfg_outs cfg))"
proof -
  note f = cfg_fitsD [OF assms]
  have "queues_bytes (cfg_ins cfg) + queues_bytes (cfg_outs cfg)
        = word_of_nat (total_bytes (cfg_ins cfg @ cfg_outs cfg))"
    using f by (simp add: queues_bytes_word)
  then have "(ucast (queues_bytes (cfg_ins cfg) + queues_bytes (cfg_outs cfg)) :: u64)
        = word_of_nat (total_bytes (cfg_ins cfg @ cfg_outs cfg))"
    using f(6) by (simp only: ucast_of_nat_u32)
  then show ?thesis
    using f(9) by (simp add: prepare_sizeall_def size_mul_descriptors roundup8_word conf_size_def
        header_bytes_def flip: cfg_ins_def cfg_outs_def)
qed

text \<open>What a successful preparation returns, with the offsets as natural numbers.\<close>

lemma prepare_SomeE:
  assumes "run_state (ipu6_fw_com_prepare kz da ds (Some cfg) base) s = (Some ctx, s')"
  obtains ready start vaddr handle where "ctx = fw_com_ctx_init cfg ready start base vaddr handle"
  using assms that by (auto simp: ipu6_fw_com_prepare_def split: option.splits if_splits prod.splits)

lemma ctx_init_queues:
  assumes "cfg_fits cfg"
  shows "input_queue (fw_com_ctx_init cfg ready start base vaddr handle)
         @ output_queue (fw_com_ctx_init cfg ready start base vaddr handle) =
      fst (sys_queues_init (cfg_ins cfg @ cfg_outs cfg)
        \<lparr>res_host_address = vaddr + word_of_nat (header_bytes cfg),
         res_vied_address = ucast handle + word_of_nat (header_bytes cfg),
         res_reg = SYSCOM_QPR_BASE_REG\<rparr>)"
proof -
  note f = cfg_fitsD [OF assms]
  have q: "(ucast (queues_bytes (cfg_ins cfg)) :: u64) = word_of_nat (total_bytes (cfg_ins cfg))"
    using f by (simp add: queues_bytes_word ucast_of_nat_u32)
  have h: "conf_size + size_mul (ucast (cfg_num_input_queues cfg)) sizeof_sys_queue
      + size_mul (ucast (cfg_num_output_queues cfg)) sizeof_sys_queue
      + ucast (roundup8 (cfg_specific_size cfg)) = word_of_nat (header_bytes cfg)"
    using f(9) by (simp add: size_mul_descriptors roundup8_word conf_size_def header_bytes_def)
  from arg_cong [OF h, of "ucast :: u64 \<Rightarrow> u32"]
  have h32: "(ucast conf_size :: u32)
      + ucast (size_mul (ucast (cfg_num_input_queues cfg)) sizeof_sys_queue)
      + ucast (size_mul (ucast (cfg_num_output_queues cfg)) sizeof_sys_queue)
      + ucast (ucast (roundup8 (cfg_specific_size cfg)) :: u64) = word_of_nat (header_bytes cfg)"
    by (simp add: ucast_add_down ucast_of_nat_down)
  have r: "snd (sys_queues_init (cfg_ins cfg) r) = r\<lparr>
      res_host_address := res_host_address r + word_of_nat (total_bytes (cfg_ins cfg)),
      res_vied_address := res_vied_address r + word_of_nat (total_bytes (cfg_ins cfg)),
      res_reg := res_reg r + 2 * word_of_nat (length (cfg_ins cfg))\<rparr>" for r
    using f(1,4) by (rule sys_queues_init_res)
  show ?thesis
    by (simp add: fw_com_ctx_init_def Let_def case_prod_beta h h32 q r sys_queues_init_append
        ucast_add_down ucast_of_nat_down add.assoc [of vaddr] add.assoc [of "ucast handle"]
        flip: cfg_ins_def cfg_outs_def)
qed

lemma ctx_init_simps [simp]:
  "dma_buffer (fw_com_ctx_init cfg ready start base vaddr handle) = vaddr"
  "dma_addr (fw_com_ctx_init cfg ready start base vaddr handle) = handle"
  "dma_size (fw_com_ctx_init cfg ready start base vaddr handle) = ucast (prepare_sizeall cfg)"
  "config_vied_addr (fw_com_ctx_init cfg ready start base vaddr handle) = ucast handle"
  "length (input_queue (fw_com_ctx_init cfg ready start base vaddr handle)) = length (cfg_ins cfg)"
  "length (output_queue (fw_com_ctx_init cfg ready start base vaddr handle)) = length (cfg_outs cfg)"
  by (simp_all add: fw_com_ctx_init_def Let_def case_prod_beta cfg_ins_def cfg_outs_def)

text \<open>The bytes of a queue's token storage, as an interval of CPU addresses.\<close>

definition storage_start :: "ipu6_fw_sys_queue \<Rightarrow> nat" where
  "storage_start q = unat (q_host_address q)"

definition storage_end :: "ipu6_fw_sys_queue \<Rightarrow> nat" where
  "storage_end q = storage_start q + unat (q_size q) * unat (q_token_size q)"

lemma ctx_init_queue_nth:
  assumes "cfg_fits cfg" "i < length cs" "cs = cfg_ins cfg @ cfg_outs cfg"
    and "qs = input_queue ctx @ output_queue ctx"
    and "ctx = fw_com_ctx_init cfg ready start base vaddr handle"
    and "unat vaddr + unat (dma_size ctx) < 2 ^ 64"
  shows "storage_start (qs ! i) = unat vaddr + header_bytes cfg + total_bytes (take i cs)"
    and "storage_end (qs ! i) = unat vaddr + header_bytes cfg + total_bytes (take (Suc i) cs)"
    and "q_wr_reg (qs ! i) = 6 + 2 * word_of_nat i"
    and "q_rd_reg (qs ! i) = q_wr_reg (qs ! i) + 1"
proof -
  note f = cfg_fitsD [OF assms(1)]
  have ok: "sizes_ok cs" "total_bytes cs < 2 ^ 32" "header_bytes cfg + total_bytes cs < 2 ^ 32"
    using assms(1,3) by (auto simp: cfg_fits_def)
  have sz: "unat (dma_size ctx) = header_bytes cfg + total_bytes cs"
    using ok(3) by (simp add: assms(3,5) prepare_sizeall_word [OF assms(1)] ucast_of_nat_down
        unat_of_nat_u32 del: total_bytes_simps of_nat_add)
  have q: "qs ! i = fst (sys_queues_init cs
        \<lparr>res_host_address = vaddr + word_of_nat (header_bytes cfg),
         res_vied_address = ucast handle + word_of_nat (header_bytes cfg),
         res_reg = SYSCOM_QPR_BASE_REG\<rparr>) ! i"
    using ctx_init_queues [OF assms(1)] by (simp add: assms(3-5))
  note n = sys_queues_init_nth [OF ok(1,2) assms(2)]
  have le_i: "total_bytes (take i cs) \<le> total_bytes cs"
    by (rule total_bytes_take_le)
  let ?off = "header_bytes cfg + total_bytes (take i cs)"
  have "q_host_address (qs ! i) = vaddr + word_of_nat ?off"
    by (simp add: q n add.assoc)
  moreover have "unat (word_of_nat ?off :: u64) = ?off"
    using ok(3) le_i by (intro unat_of_nat_u64) simp
  moreover have "unat vaddr + ?off < 2 ^ 64"
    using sz assms(6) le_i by linarith
  ultimately show start: "storage_start (qs ! i) = unat vaddr + header_bytes cfg + total_bytes (take i cs)"
    by (simp add: storage_start_def unat_add_no_wrap)
  have "unat (q_size (qs ! i)) * unat (q_token_size (qs ! i)) = queue_bytes (cs ! i)"
    using ok(1) assms(2) by (simp add: q n queue_bytes_def unat_queue_size_Suc sizes_ok_def list_all_length)
  then show "storage_end (qs ! i) = unat vaddr + header_bytes cfg + total_bytes (take (Suc i) cs)"
    using assms(2) by (simp add: storage_end_def start total_bytes_take_Suc)
  show "q_wr_reg (qs ! i) = 6 + 2 * word_of_nat i"
    by (simp add: q n SYSCOM_QPR_BASE_REG_def)
  show "q_rd_reg (qs ! i) = q_wr_reg (qs ! i) + 1"
    by (simp add: q n)
qed

section \<open>The token queues as rings\<close>

definition reg_val :: "'d mmio_dev \<Rightarrow> u64 \<Rightarrow> 'd \<Rightarrow> u32" where
  "reg_val dv a s = fst (dev_read dv a s)"

definition q_wr :: "'d mmio_dev \<Rightarrow> 'd ipu6_fw_com_context \<Rightarrow> ipu6_fw_sys_queue \<Rightarrow> 'd \<Rightarrow> u32" where
  "q_wr dv ctx q s = reg_val dv (q_dmem ctx q + FW_COM_WR_REG) s"

definition q_rd :: "'d mmio_dev \<Rightarrow> 'd ipu6_fw_com_context \<Rightarrow> ipu6_fw_sys_queue \<Rightarrow> 'd \<Rightarrow> u32" where
  "q_rd dv ctx q s = reg_val dv (q_dmem ctx q + FW_COM_RD_REG) s"

text \<open>The indices are in range, and the storage is small enough for \<^verbatim>\<open>unsigned int\<close> offsets.\<close>

definition ring_inv :: "'d mmio_dev \<Rightarrow> 'd ipu6_fw_com_context \<Rightarrow> ipu6_fw_sys_queue \<Rightarrow> 'd \<Rightarrow> bool" where
  "ring_inv dv ctx q s \<longleftrightarrow> q_wr dv ctx q s < q_size q \<and> q_rd dv ctx q s < q_size q"

definition storage_ok :: "ipu6_fw_sys_queue \<Rightarrow> bool" where
  "storage_ok q \<longleftrightarrow> 0 < unat (q_token_size q) \<and> unat (q_size q) * unat (q_token_size q) < 2 ^ 32"

text \<open>The tokens between the read and the write index, oldest first.\<close>

definition ring_tokens ::
  "'d mmio_dev \<Rightarrow> 'd ipu6_fw_com_context \<Rightarrow> ipu6_fw_sys_queue \<Rightarrow> (u64 \<Rightarrow> 't) \<Rightarrow> 'd \<Rightarrow> 't list" where
  "ring_tokens dv ctx q mem s =
     map (\<lambda>i. mem (token_addr q (word_of_nat i)))
       (ring_idxs (unat (q_size q)) (unat (q_wr dv ctx q s)) (unat (q_rd dv ctx q s)))"

lemma token_addr_inj:
  assumes "storage_ok q" "i < q_size q" "j < q_size q" "token_addr q i = token_addr q j"
  shows "i = j"
proof -
  have bound: "unat k * unat (q_token_size q) < 2 ^ 32" if "k < q_size q" for k
  proof -
    have "unat k * unat (q_token_size q) \<le> unat (q_size q) * unat (q_token_size q)"
      using that by (intro mult_le_mono1) (simp add: word_less_nat_alt)
    also have "\<dots> < 2 ^ 32" using assms(1) by (simp add: storage_ok_def)
    finally show ?thesis .
  qed
  have "(ucast (i * q_token_size q) :: u64) = ucast (j * q_token_size q)"
    using assms(4) by (simp add: token_addr_def)
  then have "i * q_token_size q = j * q_token_size q"
    by (simp only: ucast_u32_u64_inject)
  from arg_cong [OF this, of unat]
  have "unat i * unat (q_token_size q) = unat j * unat (q_token_size q)"
    using bound [OF assms(2)] bound [OF assms(3)] by (simp add: unat_mult_no_wrap)
  then show ?thesis
    using assms(1) by (simp add: storage_ok_def word_unat_eq_iff)
qed

lemma wrap_index:
  "i < n \<Longrightarrow> unat (if i + 1 \<ge> n then 0 else i + 1) = ring_next (unat n) (unat (i :: u32))"
  by (auto simp: ring_next_def word_le_nat_alt word_less_nat_alt) (unat_arith; simp)+

lemma wrap_less: "(i :: u32) < n \<Longrightarrow> (if j + 1 \<ge> n then 0 else j + 1) < n"
  by (simp add: not_le word_less_nat_alt)

lemma wr_reg_neq_rd_reg [simp]: "FW_COM_WR_REG \<noteq> FW_COM_RD_REG" "FW_COM_RD_REG \<noteq> FW_COM_WR_REG"
  by (simp_all add: FW_COM_WR_REG_def FW_COM_RD_REG_def)

text \<open>The free-slot count of the send side is zero exactly when the ring is full.\<close>

lemma packets_zero_iff:
  assumes "wr < n" "rd < (n :: u32)"
  shows "(if wr < rd then rd - wr - 1 else n - (wr - rd + 1)) = 0
         \<longleftrightarrow> ring_count (unat n) (unat wr) (unat rd) = unat n - 1"
proof (cases "wr < rd")
  case True
  then have d: "unat (rd - wr) = unat rd - unat wr" by (simp add: unat_sub_le)
  then have "1 \<le> rd - wr" using True by (simp add: word_le_nat_alt word_less_nat_alt)
  then have "unat (rd - wr - 1) = unat rd - unat wr - 1"
    using d by (simp add: unat_sub_le [of 1])
  then show ?thesis
    using True assms
    by (simp only: unat_eq_0 [symmetric] if_True) (auto simp: ring_count_if word_less_nat_alt)
next
  case False
  then have "unat (wr - rd) = unat wr - unat rd" by (simp add: unat_sub_le)
  then have s: "unat (wr - rd + 1) = unat wr - unat rd + 1"
    using assms unat_u32_less [of n] by (simp add: unat_add_no_wrap word_less_nat_alt)
  then have "wr - rd + 1 \<le> n" using assms by (simp add: word_le_nat_alt word_less_nat_alt)
  then have "unat (n - (wr - rd + 1)) = unat n - (unat wr - unat rd + 1)"
    using s by (simp add: unat_sub_le)
  then show ?thesis
    using False assms
    by (simp only: unat_eq_0 [symmetric] if_False) (auto simp: ring_count_if word_less_nat_alt)
qed

text \<open>Moving an index by one slot, on the tokens of the ring.\<close>

lemma ring_tokens_put:
  assumes "ring_inv dv ctx q s" "storage_ok q"
    and "ring_count (unat (q_size q)) (unat (q_wr dv ctx q s)) (unat (q_rd dv ctx q s)) \<noteq> unat (q_size q) - 1"
    and "unat (q_wr dv ctx q s') = ring_next (unat (q_size q)) (unat (q_wr dv ctx q s))"
    and "q_rd dv ctx q s' = q_rd dv ctx q s"
  shows "ring_tokens dv ctx q (mem(token_addr q (q_wr dv ctx q s) := t)) s'
         = ring_tokens dv ctx q mem s @ [t]"
proof -
  let ?n = "unat (q_size q)" and ?wr = "unat (q_wr dv ctx q s)" and ?rd = "unat (q_rd dv ctx q s)"
  have lt: "?wr < ?n" "?rd < ?n"
    using assms(1) by (simp_all add: ring_inv_def word_less_nat_alt)
  have "ring_count ?n ?wr ?rd < ?n - 1"
    using assms(3) ring_count_less [of ?n ?wr ?rd] lt by linarith
  moreover have "token_addr q (word_of_nat i) \<noteq> token_addr q (q_wr dv ctx q s)"
    if "i \<in> set (ring_idxs ?n ?wr ?rd)" for i
  proof
    assume eq: "token_addr q (word_of_nat i) = token_addr q (q_wr dv ctx q s)"
    have "i < ?n" using lt(1) by (intro ring_idxs_less [OF _ that]) simp
    then have i: "unat (word_of_nat i :: u32) = i"
      using unat_u32_less [of "q_size q"] by (intro unat_of_nat_u32) linarith
    with \<open>i < ?n\<close> have "(word_of_nat i :: u32) < q_size q" by (simp add: word_less_nat_alt)
    from token_addr_inj [OF assms(2) this _ eq] lt(1) have w: "word_of_nat i = q_wr dv ctx q s"
      by (simp add: word_less_nat_alt)
    have "i = ?wr" using i by (simp only: w)
    with that ring_idxs_wr_fresh [OF lt] show False by simp
  qed
  ultimately show ?thesis
    using lt by (simp add: ring_tokens_def assms(4,5) ring_idxs_put)
qed

lemma ring_tokens_get:
  assumes "ring_inv dv ctx q s" "q_wr dv ctx q s \<noteq> q_rd dv ctx q s"
    and "unat (q_rd dv ctx q s') = ring_next (unat (q_size q)) (unat (q_rd dv ctx q s))"
    and "q_wr dv ctx q s' = q_wr dv ctx q s"
  shows "ring_tokens dv ctx q mem s =
         mem (token_addr q (q_rd dv ctx q s)) # ring_tokens dv ctx q mem s'"
proof -
  let ?n = "unat (q_size q)" and ?wr = "unat (q_wr dv ctx q s)" and ?rd = "unat (q_rd dv ctx q s)"
  have lt: "?wr < ?n" "?rd < ?n"
    using assms(1) by (simp_all add: ring_inv_def word_less_nat_alt)
  moreover have "0 < ring_count ?n ?wr ?rd"
    using ring_count_0 [OF lt] assms(2) by (auto simp: word_unat_eq_iff)
  ultimately show ?thesis
    by (simp add: ring_tokens_def assms(3,4) ring_idxs_get)
qed

lemma ring_tokens_Nil:
  "ring_inv dv ctx q s \<Longrightarrow> ring_tokens dv ctx q mem s = [] \<longleftrightarrow> q_wr dv ctx q s = q_rd dv ctx q s"
  by (simp add: ring_tokens_def ring_inv_def ring_count_0 word_less_nat_alt word_unat_eq_iff
      flip: length_0_conv del: length_0_conv)

lemma length_ring_tokens:
  "length (ring_tokens dv ctx q mem s) =
   ring_count (unat (q_size q)) (unat (q_wr dv ctx q s)) (unat (q_rd dv ctx q s))"
  by (simp add: ring_tokens_def)

text \<open>
  What the queue code relies on: a set \<open>R\<close> of registers that reading does not disturb and
  a subset \<open>W\<close> of them that hold what the driver last wrote, in every device state that
  satisfies \<open>I\<close>. The firmware's side may change the other registers at any time.
\<close>

locale regmem =
  fixes dv :: "'d mmio_dev" and R :: "u64 set" and W :: "u64 set" and I :: "'d \<Rightarrow> bool"
  assumes W_subset: "W \<subseteq> R"
    and read_stable: "I s \<Longrightarrow> a \<in> R \<Longrightarrow> snd (dev_read dv a s) = s"
    and write_inv: "I s \<Longrightarrow> a \<in> W \<Longrightarrow> I (dev_write dv v a s)"
    and read_written: "I s \<Longrightarrow> a \<in> W \<Longrightarrow> reg_val dv a (dev_write dv v a s) = v"
    and read_other: "I s \<Longrightarrow> a \<in> W \<Longrightarrow> b \<in> R \<Longrightarrow> a \<noteq> b \<Longrightarrow>
                     reg_val dv b (dev_write dv v a s) = reg_val dv b s"
begin

lemma dev_read_eq: "I s \<Longrightarrow> a \<in> R \<Longrightarrow> dev_read dv a s = (reg_val dv a s, s)"
  by (simp add: reg_val_def prod_eq_iff read_stable)

text \<open>A token to fill is handed out exactly when the ring has room, and nothing changes.\<close>

lemma send_get_token:
  assumes "I s" "q = input_queue ctx ! n"
    and "q_dmem ctx q + FW_COM_WR_REG \<in> R" "q_dmem ctx q + FW_COM_RD_REG \<in> R"
    and "ring_inv dv ctx q s"
  shows "run_state (ipu6_send_get_token dv ctx n) s =
    (if ring_count (unat (q_size q)) (unat (q_wr dv ctx q s)) (unat (q_rd dv ctx q s))
          = unat (q_size q) - 1
     then None else Some (token_addr q (q_wr dv ctx q s)), s)"
proof -
  let ?wr = "q_wr dv ctx q s" and ?rd = "q_rd dv ctx q s" and ?n = "q_size q"
  have in_range: "?wr < ?n" "?rd < ?n"
    using assms(5) by (simp_all add: ring_inv_def)
  note packets_zero_iff [OF in_range]
  then show ?thesis
    using assms in_range
    by (auto simp: ipu6_send_get_token_def Let_def dev_read_eq not_le [symmetric]
        simp flip: q_wr_def q_rd_def)
qed

text \<open>Taking a token out: the oldest one, and none exactly when the ring is empty.\<close>

lemma recv_get_token:
  assumes "I s" "q = output_queue ctx ! n"
    and "q_dmem ctx q + FW_COM_WR_REG \<in> R" "q_dmem ctx q + FW_COM_RD_REG \<in> R"
    and "ring_inv dv ctx q s"
  shows "run_state (ipu6_recv_get_token dv ctx n) s =
    (if q_wr dv ctx q s = q_rd dv ctx q s then None else Some (token_addr q (q_rd dv ctx q s)), s)"
proof -
  let ?wr = "q_wr dv ctx q s" and ?rd = "q_rd dv ctx q s" and ?n = "q_size q"
  have in_range: "?wr < ?n" "?rd < ?n"
    using assms(5) by (simp_all add: ring_inv_def)
  have "?wr + ?n \<noteq> ?rd" if "?wr < ?rd"
  proof
    assume "?wr + ?n = ?rd"
    then have "?n = ?rd - ?wr" by (simp add: eq_diff_eq add.commute)
    then have "unat ?n = unat ?rd - unat ?wr" using that by (simp add: unat_sub_le)
    then show False using in_range by (simp add: word_less_nat_alt)
  qed
  then have "(if ?wr < ?rd then ?wr + ?n else ?wr) - ?rd = 0 \<longleftrightarrow> ?wr = ?rd"
    by auto
  then show ?thesis
    using assms in_range
    by (auto simp: ipu6_recv_get_token_def Let_def dev_read_eq not_le [symmetric]
        simp flip: q_wr_def q_rd_def)
qed

lemma send_put_token:
  assumes "I s" "q = input_queue ctx ! n"
    and "q_dmem ctx q + FW_COM_WR_REG \<in> W" "q_dmem ctx q + FW_COM_RD_REG \<in> R"
    and "ring_inv dv ctx q s"
  shows "\<exists>s'. run_state (ipu6_send_put_token dv ctx n) s = ((), s') \<and> I s' \<and> ring_inv dv ctx q s' \<and>
    unat (q_wr dv ctx q s') = ring_next (unat (q_size q)) (unat (q_wr dv ctx q s)) \<and>
    q_rd dv ctx q s' = q_rd dv ctx q s"
proof -
  let ?a = "q_dmem ctx q + FW_COM_WR_REG" and ?wr = "q_wr dv ctx q s"
  let ?v = "if ?wr + 1 \<ge> q_size q then 0 else ?wr + 1"
  let ?s = "dev_write dv ?v ?a s"
  have in_range: "?wr < q_size q" "q_rd dv ctx q s < q_size q"
    using assms(5) by (simp_all add: ring_inv_def)
  have "run_state (ipu6_send_put_token dv ctx n) s = ((), ?s)"
    using assms(1-3) W_subset
    by (auto simp: ipu6_send_put_token_def Let_def dev_read_eq subset_iff simp flip: q_wr_def)
  moreover have "q_wr dv ctx q ?s = ?v" "q_rd dv ctx q ?s = q_rd dv ctx q s"
    using assms(1,3,4) unfolding q_wr_def q_rd_def by (auto intro!: read_written read_other)
  moreover have "?v < q_size q"
    using in_range(1) by (rule wrap_less)
  ultimately show ?thesis
    using in_range write_inv [OF assms(1,3)] wrap_index [OF in_range(1)] by (auto simp: ring_inv_def)
qed

lemma recv_put_token:
  assumes "I s" "q = output_queue ctx ! n"
    and "q_dmem ctx q + FW_COM_RD_REG \<in> W" "q_dmem ctx q + FW_COM_WR_REG \<in> R"
    and "ring_inv dv ctx q s"
  shows "\<exists>s'. run_state (ipu6_recv_put_token dv ctx n) s = ((), s') \<and> I s' \<and> ring_inv dv ctx q s' \<and>
    unat (q_rd dv ctx q s') = ring_next (unat (q_size q)) (unat (q_rd dv ctx q s)) \<and>
    q_wr dv ctx q s' = q_wr dv ctx q s"
proof -
  let ?a = "q_dmem ctx q + FW_COM_RD_REG" and ?rd = "q_rd dv ctx q s"
  let ?v = "if ?rd + 1 \<ge> q_size q then 0 else ?rd + 1"
  let ?s = "dev_write dv ?v ?a s"
  have in_range: "?rd < q_size q" "q_wr dv ctx q s < q_size q"
    using assms(5) by (simp_all add: ring_inv_def)
  have "run_state (ipu6_recv_put_token dv ctx n) s = ((), ?s)"
    using assms(1-3) W_subset
    by (auto simp: ipu6_recv_put_token_def Let_def dev_read_eq subset_iff simp flip: q_rd_def)
  moreover have "q_rd dv ctx q ?s = ?v" "q_wr dv ctx q ?s = q_wr dv ctx q s"
    using assms(1,3,4) unfolding q_wr_def q_rd_def by (auto intro!: read_written read_other)
  moreover have "?v < q_size q"
    using in_range(1) by (rule wrap_less)
  ultimately show ?thesis
    using in_range write_inv [OF assms(1,3)] wrap_index [OF in_range(1)] by (auto simp: ring_inv_def)
qed

text \<open>
  The two directions as operations on the list of pending tokens: sending appends, and
  fails exactly on a full ring; receiving removes the head, and fails exactly on an empty
  one.
\<close>

lemma send_refines:
  assumes "I s" "q = input_queue ctx ! n"
    and "q_dmem ctx q + FW_COM_WR_REG \<in> W" "q_dmem ctx q + FW_COM_RD_REG \<in> R"
    and "ring_inv dv ctx q s" "storage_ok q"
  shows "case run_state (ipu6_send_get_token dv ctx n) s of
      (None, s1) \<Rightarrow> s1 = s \<and> length (ring_tokens dv ctx q mem s) = unat (q_size q) - 1
    | (Some a, s1) \<Rightarrow> s1 = s \<and> length (ring_tokens dv ctx q mem s) < unat (q_size q) - 1 \<and>
        (let s2 = snd (run_state (ipu6_send_put_token dv ctx n) s)
         in I s2 \<and> ring_inv dv ctx q s2 \<and>
            ring_tokens dv ctx q (mem(a := t)) s2 = ring_tokens dv ctx q mem s @ [t])"
proof -
  have R: "q_dmem ctx q + FW_COM_WR_REG \<in> R" using assms(3) W_subset by auto
  obtain s2 where s2: "run_state (ipu6_send_put_token dv ctx n) s = ((), s2)" "I s2"
      "ring_inv dv ctx q s2" "q_rd dv ctx q s2 = q_rd dv ctx q s"
      "unat (q_wr dv ctx q s2) = ring_next (unat (q_size q)) (unat (q_wr dv ctx q s))"
    using send_put_token [OF assms(1-5)] by blast
  have "0 < unat (q_size q)"
    using assms(5) by (auto simp: ring_inv_def word_less_nat_alt)
  then have "ring_count (unat (q_size q)) (unat (q_wr dv ctx q s)) (unat (q_rd dv ctx q s)) < unat (q_size q)"
    by (rule ring_count_less)
  then show ?thesis
    using s2 send_get_token [OF assms(1,2) R assms(4,5)]
    by (auto simp: length_ring_tokens Let_def intro!: ring_tokens_put assms(5,6))
qed

lemma recv_refines:
  assumes "I s" "q = output_queue ctx ! n"
    and "q_dmem ctx q + FW_COM_RD_REG \<in> W" "q_dmem ctx q + FW_COM_WR_REG \<in> R"
    and "ring_inv dv ctx q s"
  shows "case run_state (ipu6_recv_get_token dv ctx n) s of
      (None, s1) \<Rightarrow> s1 = s \<and> ring_tokens dv ctx q mem s = []
    | (Some a, s1) \<Rightarrow> s1 = s \<and>
        (let s2 = snd (run_state (ipu6_recv_put_token dv ctx n) s)
         in I s2 \<and> ring_inv dv ctx q s2 \<and>
            ring_tokens dv ctx q mem s = mem a # ring_tokens dv ctx q mem s2)"
proof -
  have R: "q_dmem ctx q + FW_COM_RD_REG \<in> R" using assms(3) W_subset by auto
  obtain s2 where s2: "run_state (ipu6_recv_put_token dv ctx n) s = ((), s2)" "I s2"
      "ring_inv dv ctx q s2" "q_wr dv ctx q s2 = q_wr dv ctx q s"
      "unat (q_rd dv ctx q s2) = ring_next (unat (q_size q)) (unat (q_rd dv ctx q s))"
    using recv_put_token [OF assms] by blast
  then show ?thesis
    using recv_get_token [OF assms(1,2,4) R assms(5)]
    by (auto simp: ring_tokens_Nil [OF assms(5)] Let_def intro!: ring_tokens_get [OF assms(5)])
qed

end

section \<open>Properties\<close>

text \<open>
  C3: a successful preparation partitions the DMA buffer. The token storages of the queues,
  inputs first, lie one after the other between the header and the end of the buffer, with
  no gap and no overlap, and queue \<open>i\<close> uses the register pair \<open>6 + 2 * i\<close>, \<open>7 + 2 * i\<close>.
\<close>

theorem fw_com_prepare_partition:
  assumes "cfg_fits cfg"
    and "run_state (ipu6_fw_com_prepare kz da ds (Some cfg) base) s = (Some ctx, s')"
    and "unat (dma_buffer ctx) + unat (dma_size ctx) < 2 ^ 64"
    and "qs = input_queue ctx @ output_queue ctx"
  shows "length qs = unat (cfg_num_input_queues cfg) + unat (cfg_num_output_queues cfg) \<and>
    (\<forall>i < length qs.
       storage_start (qs ! i) = (if i = 0 then unat (dma_buffer ctx) + header_bytes cfg
                                 else storage_end (qs ! (i - 1))) \<and>
       q_wr_reg (qs ! i) = 6 + 2 * word_of_nat i \<and> q_rd_reg (qs ! i) = q_wr_reg (qs ! i) + 1) \<and>
    (qs \<noteq> [] \<longrightarrow> storage_end (last qs) = unat (dma_buffer ctx) + unat (dma_size ctx))"
proof -
  obtain ready start vaddr handle where ctx: "ctx = fw_com_ctx_init cfg ready start base vaddr handle"
    using prepare_SomeE [OF assms(2)] .
  then have buf: "dma_buffer ctx = vaddr" by simp
  define cs where "cs = cfg_ins cfg @ cfg_outs cfg"
  note q = ctx_init_queue_nth [OF assms(1) _ cs_def assms(4) ctx assms(3) [unfolded buf]]
  have len: "length qs = length cs"
    by (simp add: assms(4) ctx cs_def)
  have sz: "unat (dma_size ctx) = header_bytes cfg + total_bytes cs"
    using assms(1) by (simp add: cs_def ctx prepare_sizeall_word ucast_of_nat_down unat_of_nat_u32
        cfg_fits_def del: total_bytes_simps of_nat_add)
  have "storage_start (qs ! i) = (if i = 0 then unat vaddr + header_bytes cfg else storage_end (qs ! (i - 1)))"
    if "i < length qs" for i
    using that q(1) [of i] q(2) [of "i - 1"] by (simp add: len)
  moreover have "storage_end (last qs) = unat vaddr + unat (dma_size ctx)" if "qs \<noteq> []"
    using that q(2) [of "length cs - 1"] by (simp add: len last_conv_nth sz flip: length_greater_0_conv)
  ultimately show ?thesis
    using q(3,4) cfg_fitsD(7,8) [OF assms(1)] by (simp add: len buf) (simp add: cs_def)
qed

definition ex_cfg :: "unit ipu6_fw_com_cfg" where
  "ex_cfg = \<lparr>cfg_num_input_queues = 2, cfg_num_output_queues = 1,
     cfg_input = [\<lparr>queue_size = 5, token_size = 8\<rparr>, \<lparr>queue_size = 1, token_size = 16\<rparr>],
     cfg_output = [\<lparr>queue_size = 40, token_size = 64\<rparr>], cfg_dmem_addr = 0x108000,
     cfg_specific_addr = None, cfg_specific_size = 12, cfg_cell_ready = Some (State_Monad.return True),
     cfg_cell_start = Some (State_Monad.return ()), cfg_buttress_boot_offset = 0\<rparr>"

theorem fw_com_prepare_partition_witness:
  "\<exists>ctx s'. run_state (ipu6_fw_com_prepare True (\<lambda>n. State_Monad.return (Some (0x1000, 0x1000)))
       (\<lambda>a n. State_Monad.return ()) (Some ex_cfg) 0) () = (Some ctx, s') \<and>
     length (input_queue ctx @ output_queue ctx) = 3 \<and>
     storage_end (last (input_queue ctx @ output_queue ctx)) = 0x1000 + unat (dma_size ctx)"
proof -
  let ?run = "run_state (ipu6_fw_com_prepare True (\<lambda>n. State_Monad.return (Some (0x1000, 0x1000)))
       (\<lambda>a n. State_Monad.return ()) (Some ex_cfg) 0) ()"
  let ?ctx = "fw_com_ctx_init ex_cfg (State_Monad.return True) (State_Monad.return ()) 0 0x1000 0x1000"
  have run: "?run = (Some ?ctx, ())"
    by (simp add: ipu6_fw_com_prepare_def ex_cfg_def)
  have fits: "cfg_fits ex_cfg"
    by (simp add: cfg_fits_def ex_cfg_def cfg_ins_def cfg_outs_def sizes_ok_def header_bytes_def
        queue_bytes_def)
  have "unat (dma_buffer ?ctx) + unat (dma_size ?ctx) < 2 ^ 64"
    using unat_u32_less [of "dma_size ?ctx"] by (simp del: ctx_init_simps(3))
  from fw_com_prepare_partition [OF fits run this refl]
  have len: "length (input_queue ?ctx @ output_queue ?ctx) = 3"
    and end_eq: "input_queue ?ctx @ output_queue ?ctx \<noteq> [] \<longrightarrow>
      storage_end (last (input_queue ?ctx @ output_queue ?ctx)) = 0x1000 + unat (dma_size ?ctx)"
    by (simp_all add: ex_cfg_def)
  from len have "input_queue ?ctx @ output_queue ?ctx \<noteq> []" by fastforce
  with end_eq len run show ?thesis by blast
qed

end
