(* ===== verification/Qemu_Ipu4.thy ===== *)
theory Qemu_Ipu4
  imports Fw_Com
begin

unbundle bit_operations_syntax

text \<open>
  The emulated device, \<^verbatim>\<open>tools/qemu-patches/hw/misc/ipu4.c\<close>: the register file, the walk of
  the IPU page tables in guest memory, the syscom command parser that answers the driver's
  messages, and the BAR's read and write handlers. QEMU's own services (guest memory
  access, MSI, the clock) are the operations of an environment record over an arbitrary
  environment state.
\<close>

section \<open>Constants\<close>

definition BTRS_REG_WDT :: u64 where [ipu4_consts]: "BTRS_REG_WDT = 0x008"
definition BTRS_REG_BTRS_CTRL :: u64 where [ipu4_consts]: "BTRS_REG_BTRS_CTRL = 0x00c"
definition BTRS_REG_FW_RESET_CTL :: u64 where [ipu4_consts]: "BTRS_REG_FW_RESET_CTL = 0x030"
definition BTRS_REG_IS_FREQ_CTL :: u64 where [ipu4_consts]: "BTRS_REG_IS_FREQ_CTL = 0x034"
definition BTRS_REG_PS_FREQ_CTL :: u64 where [ipu4_consts]: "BTRS_REG_PS_FREQ_CTL = 0x038"
definition BTRS_REG_PWR_STATE :: u64 where [ipu4_consts]: "BTRS_REG_PWR_STATE = 0x05c"
definition BTRS_REG_FW_SOURCE_BASE_LO :: u64 where [ipu4_consts]: "BTRS_REG_FW_SOURCE_BASE_LO = 0x078"
definition BTRS_REG_FW_SOURCE_BASE_HI :: u64 where [ipu4_consts]: "BTRS_REG_FW_SOURCE_BASE_HI = 0x07c"
definition BTRS_REG_FW_SOURCE_SIZE :: u64 where [ipu4_consts]: "BTRS_REG_FW_SOURCE_SIZE = 0x080"
definition BTRS_REG_FABRIC_CMD :: u64 where [ipu4_consts]: "BTRS_REG_FABRIC_CMD = 0x088"
definition BTRS_REG_ISR_STATUS :: u64 where [ipu4_consts]: "BTRS_REG_ISR_STATUS = 0x090"
definition BTRS_REG_ISR_ENABLED_STATUS :: u64 where [ipu4_consts]: "BTRS_REG_ISR_ENABLED_STATUS = 0x094"
definition BTRS_REG_ISR_ENABLE :: u64 where [ipu4_consts]: "BTRS_REG_ISR_ENABLE = 0x098"
definition BTRS_REG_ISR_CLEAR :: u64 where [ipu4_consts]: "BTRS_REG_ISR_CLEAR = 0x09c"
definition BTRS_REG_IU2CSEDB0 :: u64 where [ipu4_consts]: "BTRS_REG_IU2CSEDB0 = 0x100"
definition BTRS_REG_IU2CSEDATA0 :: u64 where [ipu4_consts]: "BTRS_REG_IU2CSEDATA0 = 0x104"
definition BTRS_REG_IU2CSECSR :: u64 where [ipu4_consts]: "BTRS_REG_IU2CSECSR = 0x108"
definition BTRS_REG_TSC_LO :: u64 where [ipu4_consts]: "BTRS_REG_TSC_LO = 0x164"
definition BTRS_REG_TSC_HI :: u64 where [ipu4_consts]: "BTRS_REG_TSC_HI = 0x168"
definition BTRS_REG_SECURITY_CTL :: u64 where [ipu4_consts]: "BTRS_REG_SECURITY_CTL = 0x300"
definition BTRS_REG_CSE2IUDB0 :: u64 where [ipu4_consts]: "BTRS_REG_CSE2IUDB0 = 0x304"
definition BTRS_REG_CSE2IUDATA0 :: u64 where [ipu4_consts]: "BTRS_REG_CSE2IUDATA0 = 0x308"
definition BTRS_REG_CSE2IUCSR :: u64 where [ipu4_consts]: "BTRS_REG_CSE2IUCSR = 0x30c"
definition BTRS_REG_SKU :: u64 where [ipu4_consts]: "BTRS_REG_SKU = 0x314"
definition IS_UNISPART_BASE :: u64 where [ipu4_consts]: "IS_UNISPART_BASE = 0x17c000"
definition IS_UNISPART_IRQ_EDGE :: u64 where [ipu4_consts]: "IS_UNISPART_IRQ_EDGE = IS_UNISPART_BASE + 0x000"
definition IS_UNISPART_IRQ_MASK :: u64 where [ipu4_consts]: "IS_UNISPART_IRQ_MASK = IS_UNISPART_BASE + 0x004"
definition IS_UNISPART_IRQ_STATUS :: u64 where [ipu4_consts]: "IS_UNISPART_IRQ_STATUS = IS_UNISPART_BASE + 0x008"
definition IS_UNISPART_IRQ_CLEAR :: u64 where [ipu4_consts]: "IS_UNISPART_IRQ_CLEAR = IS_UNISPART_BASE + 0x00c"
definition IS_UNISPART_IRQ_ENABLE :: u64 where [ipu4_consts]: "IS_UNISPART_IRQ_ENABLE = IS_UNISPART_BASE + 0x010"
definition IS_UNISPART_IRQ_LEVEL_NOT_PULSE :: u64 where [ipu4_consts]: "IS_UNISPART_IRQ_LEVEL_NOT_PULSE = IS_UNISPART_BASE + 0x014"
definition IS_UNISPART_SW_IRQ :: u64 where [ipu4_consts]: "IS_UNISPART_SW_IRQ = IS_UNISPART_BASE + 0x414"
definition IS_UNISPART_SW_IRQ_MUX :: u64 where [ipu4_consts]: "IS_UNISPART_SW_IRQ_MUX = IS_UNISPART_BASE + 0x418"
definition CSI2_PORT_REG_RX_ENABLE :: u64 where [ipu4_consts]: "CSI2_PORT_REG_RX_ENABLE = 0x000"
definition CSI2_PORT_REG_RX_NOF_LANES :: u64 where [ipu4_consts]: "CSI2_PORT_REG_RX_NOF_LANES = 0x004"
definition CSI2_PORT_REG_RX_CONFIG :: u64 where [ipu4_consts]: "CSI2_PORT_REG_RX_CONFIG = 0x008"
definition CSI2_PORT_REG_DLY_TERMEN_C :: u64 where [ipu4_consts]: "CSI2_PORT_REG_DLY_TERMEN_C = 0x02c"
definition CSI2_PORT_REG_DLY_SETTLE_C :: u64 where [ipu4_consts]: "CSI2_PORT_REG_DLY_SETTLE_C = 0x030"
definition CSI2_PORT_REG_DLY_TERMEN_D0 :: u64 where [ipu4_consts]: "CSI2_PORT_REG_DLY_TERMEN_D0 = 0x034"
definition CSI2_PORT_REG_DLY_SETTLE_D0 :: u64 where [ipu4_consts]: "CSI2_PORT_REG_DLY_SETTLE_D0 = 0x038"
definition CSI2_PORT_REG_PART_IRQ_EDGE :: u64 where [ipu4_consts]: "CSI2_PORT_REG_PART_IRQ_EDGE = 0x400"
definition CSI2_PORT_REG_PART_IRQ_MASK :: u64 where [ipu4_consts]: "CSI2_PORT_REG_PART_IRQ_MASK = 0x404"
definition CSI2_PORT_REG_PART_IRQ_STATUS :: u64 where [ipu4_consts]: "CSI2_PORT_REG_PART_IRQ_STATUS = 0x408"
definition CSI2_PORT_REG_PART_IRQ_CLEAR :: u64 where [ipu4_consts]: "CSI2_PORT_REG_PART_IRQ_CLEAR = 0x40c"
definition CSI2_PORT_REG_PART_IRQ_ENABLE :: u64 where [ipu4_consts]: "CSI2_PORT_REG_PART_IRQ_ENABLE = 0x410"
definition CSI2_PORT_REG_PART_IRQ_LEVEL_NOT_PULSE :: u64 where [ipu4_consts]: "CSI2_PORT_REG_PART_IRQ_LEVEL_NOT_PULSE = 0x414"
definition CSI2_PORT_REG_RX_IRQ_EDGE :: u64 where [ipu4_consts]: "CSI2_PORT_REG_RX_IRQ_EDGE = 0x500"
definition CSI2_PORT_REG_RX_IRQ_MASK :: u64 where [ipu4_consts]: "CSI2_PORT_REG_RX_IRQ_MASK = 0x504"
definition CSI2_PORT_REG_RX_IRQ_STATUS :: u64 where [ipu4_consts]: "CSI2_PORT_REG_RX_IRQ_STATUS = 0x508"
definition CSI2_PORT_REG_RX_IRQ_CLEAR :: u64 where [ipu4_consts]: "CSI2_PORT_REG_RX_IRQ_CLEAR = 0x50c"
definition CSI2_PORT_REG_RX_IRQ_ENABLE :: u64 where [ipu4_consts]: "CSI2_PORT_REG_RX_IRQ_ENABLE = 0x510"
definition CSI2_PORT_REG_RX_IRQ_LEVEL_NOT_PULSE :: u64 where [ipu4_consts]: "CSI2_PORT_REG_RX_IRQ_LEVEL_NOT_PULSE = 0x514"
definition CSI2_PORT_REG_S2M_IRQ_EDGE :: u64 where [ipu4_consts]: "CSI2_PORT_REG_S2M_IRQ_EDGE = 0x600"
definition CSI2_PORT_REG_S2M_IRQ_MASK :: u64 where [ipu4_consts]: "CSI2_PORT_REG_S2M_IRQ_MASK = 0x604"
definition CSI2_PORT_REG_S2M_IRQ_STATUS :: u64 where [ipu4_consts]: "CSI2_PORT_REG_S2M_IRQ_STATUS = 0x608"
definition CSI2_PORT_REG_S2M_IRQ_CLEAR :: u64 where [ipu4_consts]: "CSI2_PORT_REG_S2M_IRQ_CLEAR = 0x60c"
definition CSI2_PORT_REG_S2M_IRQ_ENABLE :: u64 where [ipu4_consts]: "CSI2_PORT_REG_S2M_IRQ_ENABLE = 0x610"
definition CSI2_PORT_REG_S2M_IRQ_LEVEL_NOT_PULSE :: u64 where [ipu4_consts]: "CSI2_PORT_REG_S2M_IRQ_LEVEL_NOT_PULSE = 0x614"
definition IS_DMEM_BASE :: u64 where [ipu4_consts]: "IS_DMEM_BASE = 0x108000"
definition IS_DMEM_SIZE :: u64 where [ipu4_consts]: "IS_DMEM_SIZE = 0x100"
definition IS_DMEM_SYSCOM_STATE :: u64 where [ipu4_consts]: "IS_DMEM_SYSCOM_STATE = IS_DMEM_BASE + 0x008"
definition IS_DMEM_FW_COM_SEND_WR_POS :: u64 where [ipu4_consts]: "IS_DMEM_FW_COM_SEND_WR_POS = IS_DMEM_BASE + 0x028"
definition IS_DMEM_FW_COM_SEND_RD_POS :: u64 where [ipu4_consts]: "IS_DMEM_FW_COM_SEND_RD_POS = IS_DMEM_BASE + 0x02c"
definition IS_DMEM_FW_COM_RECV_WR_POS :: u64 where [ipu4_consts]: "IS_DMEM_FW_COM_RECV_WR_POS = IS_DMEM_BASE + 0x070"
definition IS_DMEM_FW_COM_RECV_RD_POS :: u64 where [ipu4_consts]: "IS_DMEM_FW_COM_RECV_RD_POS = IS_DMEM_BASE + 0x074"
definition IS_SPC_STATUS_CTRL :: u64 where [ipu4_consts]: "IS_SPC_STATUS_CTRL = 0x100000"
definition PS_SPC_STATUS_CTRL :: u64 where [ipu4_consts]: "PS_SPC_STATUS_CTRL = 0x400000"
definition IS_MMU_BASE :: u64 where [ipu4_consts]: "IS_MMU_BASE = 0x1e0000"
definition IS_MMU_SIZE :: u64 where [ipu4_consts]: "IS_MMU_SIZE = 0x500"
definition PS_MMU_BASE :: u64 where [ipu4_consts]: "PS_MMU_BASE = 0x4b0000"
definition PS_MMU_SIZE :: u64 where [ipu4_consts]: "PS_MMU_SIZE = 0xa00"
definition IS_MMU_SUB0_REG_L1_PHYS :: u64 where [ipu4_consts]: "IS_MMU_SUB0_REG_L1_PHYS = IS_MMU_BASE + 0x004"
definition BTRS_FW_RESET_CTL_START :: u32 where [ipu4_consts]: "BTRS_FW_RESET_CTL_START = 0x1"
definition BTRS_FW_RESET_CTL_DONE :: u32 where [ipu4_consts]: "BTRS_FW_RESET_CTL_DONE = 0x2"
definition SPC_STATUS_START :: u32 where [ipu4_consts]: "SPC_STATUS_START = 0x2"
definition SPC_STATUS_READY :: u32 where [ipu4_consts]: "SPC_STATUS_READY = 0x20"
definition BTRS_PWR_STATE_PWR_RDY :: u32 where [ipu4_consts]: "BTRS_PWR_STATE_PWR_RDY = 0x3"
definition BTRS_PWR_STATE_HH_DONE :: u32 where [ipu4_consts]: "BTRS_PWR_STATE_HH_DONE = 0x2000"
definition BTRS_PWR_STATE_IS_RDY :: u32 where [ipu4_consts]: "BTRS_PWR_STATE_IS_RDY = 0xa00000"
definition BTRS_PWR_STATE_PS_PWR_UP :: u32 where [ipu4_consts]: "BTRS_PWR_STATE_PS_PWR_UP = 0xf000000"
definition BTRS_FREQ_CTL_START :: u32 where [ipu4_consts]: "BTRS_FREQ_CTL_START = 0x80000000"
definition BUTTRESS_IU2CSECSR_ENTRY :: u32 where [ipu4_consts]: "BUTTRESS_IU2CSECSR_ENTRY = 0x1"
definition BUTTRESS_IU2CSECSR_EXIT :: u32 where [ipu4_consts]: "BUTTRESS_IU2CSECSR_EXIT = 0x2"
definition BUTTRESS_IU2CSECSR_ASSERTED_REG_VALID_REQ :: u32 where [ipu4_consts]: "BUTTRESS_IU2CSECSR_ASSERTED_REG_VALID_REQ = 0x8"
definition BUTTRESS_IU2CSECSR_ACKED_REG_VALID :: u32 where [ipu4_consts]: "BUTTRESS_IU2CSECSR_ACKED_REG_VALID = 0x10"
definition BTRS_ISR_IS_IRQ :: u32 where [ipu4_consts]: "BTRS_ISR_IS_IRQ = 0x1"
definition ISYS_UNISPART_IRQ_SW :: u32 where [ipu4_consts]: "ISYS_UNISPART_IRQ_SW = 0x40000000"
definition ISYS_UNISPART_IRQ_CSI2_PORT0 :: u32 where [ipu4_consts]: "ISYS_UNISPART_IRQ_CSI2_PORT0 = 0x8"
definition CSI2_PART_IRQ_FS_VC0 :: u32 where [ipu4_consts]: "CSI2_PART_IRQ_FS_VC0 = 0x1"
definition IPU4_FW_SEND_STREAM_OPEN :: u16 where [ipu4_consts]: "IPU4_FW_SEND_STREAM_OPEN = 0"
definition IPU4_FW_SEND_STREAM_START :: u16 where [ipu4_consts]: "IPU4_FW_SEND_STREAM_START = 1"
definition IPU4_FW_SEND_STREAM_START_AND_CAPTURE :: u16 where [ipu4_consts]: "IPU4_FW_SEND_STREAM_START_AND_CAPTURE = 2"
definition IPU4_FW_SEND_STREAM_CAPTURE :: u16 where [ipu4_consts]: "IPU4_FW_SEND_STREAM_CAPTURE = 3"
definition IPU4_FW_SEND_STREAM_STOP :: u16 where [ipu4_consts]: "IPU4_FW_SEND_STREAM_STOP = 4"
definition IPU4_FW_SEND_STREAM_FLUSH :: u16 where [ipu4_consts]: "IPU4_FW_SEND_STREAM_FLUSH = 5"
definition IPU4_FW_SEND_STREAM_CLOSE :: u16 where [ipu4_consts]: "IPU4_FW_SEND_STREAM_CLOSE = 6"
definition IPU4_FW_RESP_STREAM_OPEN_DONE :: u8 where [ipu4_consts]: "IPU4_FW_RESP_STREAM_OPEN_DONE = 0"
definition IPU4_FW_RESP_STREAM_START_ACK :: u8 where [ipu4_consts]: "IPU4_FW_RESP_STREAM_START_ACK = 1"
definition IPU4_FW_RESP_STREAM_START_AND_CAPTURE_ACK :: u8 where [ipu4_consts]: "IPU4_FW_RESP_STREAM_START_AND_CAPTURE_ACK = 2"
definition IPU4_FW_RESP_STREAM_CAPTURE_ACK :: u8 where [ipu4_consts]: "IPU4_FW_RESP_STREAM_CAPTURE_ACK = 3"
definition IPU4_FW_RESP_STREAM_STOP_ACK :: u8 where [ipu4_consts]: "IPU4_FW_RESP_STREAM_STOP_ACK = 4"
definition IPU4_FW_RESP_STREAM_FLUSH_ACK :: u8 where [ipu4_consts]: "IPU4_FW_RESP_STREAM_FLUSH_ACK = 5"
definition IPU4_FW_RESP_STREAM_CLOSE_ACK :: u8 where [ipu4_consts]: "IPU4_FW_RESP_STREAM_CLOSE_ACK = 6"
definition IPU4_FW_RESP_STREAM_PIN_DATA_READY :: u8 where [ipu4_consts]: "IPU4_FW_RESP_STREAM_PIN_DATA_READY = 7"
definition IPU4_FW_RESP_FRAME_SOF :: u8 where [ipu4_consts]: "IPU4_FW_RESP_FRAME_SOF = 9"

section \<open>Structures\<close>

text \<open>The queue descriptor mirrors the driver's \<open>ipu6_fw_sys_queue\<close>, byte for byte.\<close>

type_synonym Ipu4FwSysQueue = ipu6_fw_sys_queue

record Ipu4FwOutputPin =
  out_buf_id :: u64
  pin_addr :: u32
  compress :: u32

record Ipu4FwIsysRespInfo =
  buf_handle :: u64
  resp_pin :: Ipu4FwOutputPin
  pg_param_buf_id :: u64
  pg_addr :: u32
  err_error :: u32
  err_details :: u32
  timestamp0 :: u32
  timestamp1 :: u32
  stream_handle :: u8
  resp_type :: u8
  pin_id :: u8
  acc_id :: u8
  frame_counter :: u8
  written_direct :: u8

record Ipu4FwSendToken =
  tok_buf_handle :: u64
  tok_payload :: u32
  tok_send_type :: u16
  tok_stream_id :: u16

record Ipu4Csi2Port =
  rx_enable :: u32
  rx_nof_lanes :: u32
  rx_config :: u32
  dly_termen_c :: u32
  dly_settle_c :: u32
  dly_termen_d0 :: u32
  dly_settle_d0 :: u32
  part_edge :: u32
  part_mask :: u32
  part_status :: u32
  part_enable :: u32
  part_level :: u32
  rx_edge :: u32
  rx_mask :: u32
  rx_status :: u32
  rx_enable_irq :: u32
  rx_level :: u32
  s2m_edge :: u32
  s2m_mask :: u32
  s2m_status :: u32
  s2m_enable :: u32
  s2m_level :: u32

record Ipu4State =
  btrs_ctrl :: u32
  fw_reset_ctl :: u32
  is_freq_ctl :: u32
  ps_freq_ctl :: u32
  is_powered :: bool
  ps_powered :: bool
  fabric_cmd :: u32
  pwr_state :: u32
  isr_enable :: u32
  isr_status :: u32
  fw_src_lo :: u32
  fw_src_hi :: u32
  fw_src_size :: u32
  security_ctl :: u32
  iu2cse_csr :: u32
  cse2iu_csr :: u32
  cse2iu_data0 :: u32
  is_unispart_irq_edge :: u32
  is_unispart_irq_mask :: u32
  is_unispart_irq_status :: u32
  is_unispart_irq_enable :: u32
  is_unispart_irq_level_not_pulse :: u32
  is_unispart_sw_irq_mux :: u32
  csi2 :: "Ipu4Csi2Port list"
  is_dmem :: "u32 list"
  is_spc_status_ctrl :: u32
  ps_spc_status_ctrl :: u32
  is_mmu :: "u32 list"
  ps_mmu :: "u32 list"
  is_mmu_l1_pfn :: u32
  syscom_config_iova :: u32
  is_send_q :: "Ipu4FwSysQueue list"
  is_send_q_loaded :: "bool list"
  is_recv_q :: Ipu4FwSysQueue
  is_recv_q_loaded :: bool
  is_send_wr_seen :: "u32 list"

text \<open>
  What the device uses of QEMU: reading and writing guest memory (\<open>None\<close> is a result other
  than \<^verbatim>\<open>MEMTX_OK\<close>), message-signalled interrupts and the virtual clock.
\<close>

record 'm pci_env =
  pci_dma_read :: "u64 \<Rightarrow> nat \<Rightarrow> 'm \<Rightarrow> u8 list option"
  pci_dma_write :: "u64 \<Rightarrow> u8 list \<Rightarrow> 'm \<Rightarrow> 'm option"
  msi_enabled :: "'m \<Rightarrow> bool"
  msi_notify :: "'m \<Rightarrow> 'm"
  clock_ns :: "'m \<Rightarrow> u64"

type_synonym 'm dev = "Ipu4State \<times> 'm"

section \<open>Structures in guest memory\<close>

definition decode_sys_queue :: "u8 list \<Rightarrow> Ipu4FwSysQueue" where
  "decode_sys_queue bs = \<lparr>q_host_address = field_at 0 8 bs, q_vied_address = field_at 8 4 bs,
     q_size = field_at 12 4 bs, q_token_size = field_at 16 4 bs, q_wr_reg = field_at 20 4 bs,
     q_rd_reg = field_at 24 4 bs, q_align = field_at 28 4 bs\<rparr>"

definition decode_send_token :: "u8 list \<Rightarrow> Ipu4FwSendToken" where
  "decode_send_token bs = \<lparr>tok_buf_handle = field_at 0 8 bs, tok_payload = field_at 8 4 bs,
     tok_send_type = field_at 12 2 bs, tok_stream_id = field_at 14 2 bs\<rparr>"

definition decode_output_pin :: "u8 list \<Rightarrow> Ipu4FwOutputPin" where
  "decode_output_pin bs = \<lparr>out_buf_id = field_at 0 8 bs, pin_addr = field_at 8 4 bs,
     compress = field_at 12 4 bs\<rparr>"

definition encode_resp :: "Ipu4FwIsysRespInfo \<Rightarrow> u8 list" where
  "encode_resp r =
     le_bytes 8 (unat (buf_handle r)) @
     le_bytes 8 (unat (out_buf_id (resp_pin r))) @ le_bytes 4 (unat (pin_addr (resp_pin r))) @
     le_bytes 4 (unat (compress (resp_pin r))) @
     le_bytes 8 (unat (pg_param_buf_id r)) @ le_bytes 4 (unat (pg_addr r)) @ le_bytes 4 0 @
     le_bytes 4 (unat (err_error r)) @ le_bytes 4 (unat (err_details r)) @
     le_bytes 4 (unat (timestamp0 r)) @ le_bytes 4 (unat (timestamp1 r)) @
     [stream_handle r, resp_type r, pin_id r, acc_id r, frame_counter r, written_direct r, 0, 0]"

definition zero_resp :: Ipu4FwIsysRespInfo where
  "zero_resp = \<lparr>buf_handle = 0, resp_pin = \<lparr>out_buf_id = 0, pin_addr = 0, compress = 0\<rparr>,
     pg_param_buf_id = 0, pg_addr = 0, err_error = 0, err_details = 0, timestamp0 = 0,
     timestamp1 = 0, stream_handle = 0, resp_type = 0, pin_id = 0, acc_id = 0,
     frame_counter = 0, written_direct = 0\<rparr>"

section \<open>The page-table walk\<close>

definition ipu4_iova_to_phys :: "'m pci_env \<Rightarrow> Ipu4State \<Rightarrow> 'm \<Rightarrow> u32 \<Rightarrow> u64 option" where
  "ipu4_iova_to_phys env s m iova =
     (let l1_idx = drop_bit 22 iova AND 0x3ff;
          l2_idx = drop_bit 12 iova AND 0x3ff;
          offset = iova AND 0xfff
      in if is_mmu_l1_pfn s = 0 then None
         else
           let l1_pt_phys = push_bit 12 (ucast (is_mmu_l1_pfn s)) :: u64 in
           (case pci_dma_read env (l1_pt_phys + ucast l1_idx * 4) 4 m of
              None \<Rightarrow> None
            | Some b1 \<Rightarrow>
              let l2_pt_pfn = field_at 0 4 b1 :: u32 in
              if l2_pt_pfn = 0 then None
              else
                let l2_pt_phys = push_bit 12 (ucast l2_pt_pfn) :: u64 in
                (case pci_dma_read env (l2_pt_phys + ucast l2_idx * 4) 4 m of
                   None \<Rightarrow> None
                 | Some b2 \<Rightarrow>
                   let target_pfn = field_at 0 4 b2 :: u32 in
                   if target_pfn = 0 then None
                   else Some (push_bit 12 (ucast target_pfn) + ucast offset))))"

definition ipu4_dma_read_iova :: "'m pci_env \<Rightarrow> Ipu4State \<Rightarrow> 'm \<Rightarrow> u32 \<Rightarrow> nat \<Rightarrow> u8 list option" where
  "ipu4_dma_read_iova env s m iova len =
     (case ipu4_iova_to_phys env s m iova of
        None \<Rightarrow> None
      | Some phys \<Rightarrow> pci_dma_read env phys len m)"

definition ipu4_dma_write_iova :: "'m pci_env \<Rightarrow> Ipu4State \<Rightarrow> 'm \<Rightarrow> u32 \<Rightarrow> u8 list \<Rightarrow> 'm option" where
  "ipu4_dma_write_iova env s m iova buf =
     (case ipu4_iova_to_phys env s m iova of
        None \<Rightarrow> None
      | Some phys \<Rightarrow> pci_dma_write env phys buf m)"

text \<open>
  The frame pattern, page by page. The byte counts are at most 64 KiB (the only caller's
  total), so they are natural numbers; the device address wraps at 32 bits.
\<close>

definition IPU4_FRAME_PATTERN_BYTES :: nat where "IPU4_FRAME_PATTERN_BYTES = 64 * 1024"

definition pattern_page_off :: "u32 \<Rightarrow> nat \<Rightarrow> nat" where
  "pattern_page_off base_iova off = unat ((base_iova + word_of_nat off) AND 0xfff)"

lemma pattern_page_off_less: "pattern_page_off b off < 4096"
proof -
  have "unat ((b + word_of_nat off) AND 0xfff) \<le> unat (0xfff :: u32)"
    by (rule word_and_le1 [THEN word_le_nat_alt [THEN iffD1]])
  then show ?thesis by (simp add: pattern_page_off_def)
qed

function ipu4_dma_write_iova_pattern ::
  "'m pci_env \<Rightarrow> Ipu4State \<Rightarrow> u32 \<Rightarrow> nat \<Rightarrow> u8 \<Rightarrow> nat \<Rightarrow> 'm \<Rightarrow> 'm" where
  "ipu4_dma_write_iova_pattern env s base_iova tot seq off m =
     (if off < tot then
        let iova = base_iova + word_of_nat off;
            chunk = min (tot - off) (4096 - pattern_page_off base_iova off)
        in (case ipu4_iova_to_phys env s m iova of
              None \<Rightarrow> m
            | Some phys \<Rightarrow>
              (let buf = map (\<lambda>i. word_of_nat (off + i + unat seq)) [0..<chunk] in
               (case pci_dma_write env phys buf m of
                  None \<Rightarrow> m
                | Some m' \<Rightarrow> ipu4_dma_write_iova_pattern env s base_iova tot seq (off + chunk) m')))
      else m)"
  by pat_completeness auto
termination
  by (relation "measure (\<lambda>(env, s, b, tot, seq, off, m). tot - off)")
    (auto simp: min_def pattern_page_off_less intro!: diff_less_mono2)

declare ipu4_dma_write_iova_pattern.simps [simp del]

section \<open>The syscom command parser\<close>

definition ipu4_load_queue_desc ::
  "'m pci_env \<Rightarrow> Ipu4State \<Rightarrow> 'm \<Rightarrow> u32 \<Rightarrow> nat \<Rightarrow> Ipu4FwSysQueue option" where
  "ipu4_load_queue_desc env s m array_iova i =
     map_option decode_sys_queue (ipu4_dma_read_iova env s m (array_iova + word_of_nat i * 32) 32)"

text \<open>The two fields of the configuration structure that the device reads, at 12 and 16.\<close>

definition cfg_queue_array :: "u8 list \<Rightarrow> bool \<Rightarrow> u32" where
  "cfg_queue_array bs input = (if input then field_at 12 4 bs else field_at 16 4 bs)"

definition ipu4_get_send_queue ::
  "'m pci_env \<Rightarrow> nat \<Rightarrow> 'm dev \<Rightarrow> Ipu4FwSysQueue option \<times> 'm dev" where
  "ipu4_get_send_queue env stream d =
     (let (s, m) = d in
      if stream \<ge> 8 then (None, d)
      else if is_send_q_loaded s ! stream then (Some (is_send_q s ! stream), d)
      else if syscom_config_iova s = 0 then (None, d)
      else (case ipu4_dma_read_iova env s m (syscom_config_iova s) 28 of
              None \<Rightarrow> (None, d)
            | Some cfg \<Rightarrow>
              (case ipu4_load_queue_desc env s m (cfg_queue_array cfg True) (2 + stream) of
                 None \<Rightarrow> (None, d)
               | Some q \<Rightarrow>
                 (Some q, (s\<lparr>is_send_q := (is_send_q s)[stream := q],
                             is_send_q_loaded := (is_send_q_loaded s)[stream := True],
                             is_send_wr_seen := (is_send_wr_seen s)[stream := 0]\<rparr>, m)))))"

definition ipu4_get_recv_queue ::
  "'m pci_env \<Rightarrow> 'm dev \<Rightarrow> Ipu4FwSysQueue option \<times> 'm dev" where
  "ipu4_get_recv_queue env d =
     (let (s, m) = d in
      if is_recv_q_loaded s then (Some (is_recv_q s), d)
      else if syscom_config_iova s = 0 then (None, d)
      else (case ipu4_dma_read_iova env s m (syscom_config_iova s) 28 of
              None \<Rightarrow> (None, d)
            | Some cfg \<Rightarrow>
              (case ipu4_load_queue_desc env s m (cfg_queue_array cfg False) 1 of
                 None \<Rightarrow> (None, d)
               | Some q \<Rightarrow> (Some q, (s\<lparr>is_recv_q := q, is_recv_q_loaded := True\<rparr>, m)))))"

definition ipu4_post_response_full ::
  "'m pci_env \<Rightarrow> Ipu4FwIsysRespInfo \<Rightarrow> 'm dev \<Rightarrow> 'm dev" where
  "ipu4_post_response_full env resp d =
     (case ipu4_get_recv_queue env d of
        (None, d1) \<Rightarrow> d1
      | (Some rq, (s, m)) \<Rightarrow>
        (if q_size rq = 0 \<or> q_token_size rq < 64 then (s, m)
         else if q_wr_reg rq \<ge> 64 then (s, m)
         else
           let slot = unat (q_wr_reg rq);
               wr0 = is_dmem s ! slot;
               wr = (if wr0 \<ge> q_size rq then 0 else wr0)
           in (case ipu4_dma_write_iova env s m (q_vied_address rq + wr * q_token_size rq)
                      (encode_resp resp) of
                 None \<Rightarrow> (s, m)
               | Some m1 \<Rightarrow>
                 let s1 = s\<lparr>is_dmem := (is_dmem s)[slot := (wr + 1) mod q_size rq],
                            is_unispart_irq_status := is_unispart_irq_status s OR ISYS_UNISPART_IRQ_SW,
                            isr_status := isr_status s OR BTRS_ISR_IS_IRQ\<rparr>
                 in (s1, if msi_enabled env m1 then msi_notify env m1 else m1))))"

definition ipu4_post_response :: "'m pci_env \<Rightarrow> u8 \<Rightarrow> u8 \<Rightarrow> 'm dev \<Rightarrow> 'm dev" where
  "ipu4_post_response env ty handle =
     ipu4_post_response_full env (zero_resp\<lparr>resp_type := ty, stream_handle := handle\<rparr>)"

definition ipu4_post_pin_data_ready ::
  "'m pci_env \<Rightarrow> u8 \<Rightarrow> u8 \<Rightarrow> u32 \<Rightarrow> u64 \<Rightarrow> 'm dev \<Rightarrow> 'm dev" where
  "ipu4_post_pin_data_ready env handle pid addr buf_id =
     ipu4_post_response_full env
       (zero_resp\<lparr>resp_type := IPU4_FW_RESP_STREAM_PIN_DATA_READY, stream_handle := handle,
                  pin_id := pid,
                  resp_pin := \<lparr>out_buf_id = buf_id, pin_addr = addr, compress = 0\<rparr>\<rparr>)"

text \<open>The loop over the output pins, from pin \<open>i\<close> on.\<close>

fun deliver_pins ::
  "'m pci_env \<Rightarrow> u8 \<Rightarrow> nat \<Rightarrow> Ipu4FwOutputPin list \<Rightarrow> 'm dev \<Rightarrow> 'm dev" where
  "deliver_pins env stream i [] d = d"
| "deliver_pins env stream i (p # ps) d =
     (if pin_addr p = 0 then deliver_pins env stream (Suc i) ps d
      else
        let (s, m) = d;
            m1 = ipu4_dma_write_iova_pattern env s (pin_addr p) IPU4_FRAME_PATTERN_BYTES 0 0 m
        in deliver_pins env stream (Suc i) ps
             (ipu4_post_pin_data_ready env stream (word_of_nat i) (pin_addr p) (out_buf_id p) (s, m1)))"

definition ipu4_deliver_frame :: "'m pci_env \<Rightarrow> u8 \<Rightarrow> u32 \<Rightarrow> 'm dev \<Rightarrow> 'm dev" where
  "ipu4_deliver_frame env stream set_iova d =
     (let (s, m) = d in
      case ipu4_dma_read_iova env s m set_iova 96 of
        None \<Rightarrow> d
      | Some bs \<Rightarrow>
        let pins = map (\<lambda>i. decode_output_pin (take 16 (drop (16 * i) bs))) [0..<6];
            p0 = csi2 s ! 0;
            s1 = s\<lparr>csi2 := (csi2 s)[0 := p0\<lparr>part_status := part_status p0 OR CSI2_PART_IRQ_FS_VC0\<rparr>],
                   is_unispart_irq_status := is_unispart_irq_status s OR ISYS_UNISPART_IRQ_CSI2_PORT0\<rparr>;
            d1 = ipu4_post_response_full env
                   (zero_resp\<lparr>resp_type := IPU4_FW_RESP_FRAME_SOF, stream_handle := stream\<rparr>) (s1, m)
        in deliver_pins env stream 0 pins d1)"

text \<open>The answer to one message, by its type.\<close>

definition handle_send_token :: "'m pci_env \<Rightarrow> u8 \<Rightarrow> Ipu4FwSendToken \<Rightarrow> 'm dev \<Rightarrow> 'm dev" where
  "handle_send_token env stream tok d =
     (let ty = tok_send_type tok in
      if ty = IPU4_FW_SEND_STREAM_OPEN
        then ipu4_post_response env IPU4_FW_RESP_STREAM_OPEN_DONE stream d
      else if ty = IPU4_FW_SEND_STREAM_START
        then ipu4_post_response env IPU4_FW_RESP_STREAM_START_ACK stream d
      else if ty = IPU4_FW_SEND_STREAM_START_AND_CAPTURE
        then ipu4_deliver_frame env stream (tok_payload tok)
               (ipu4_post_response env IPU4_FW_RESP_STREAM_START_AND_CAPTURE_ACK stream d)
      else if ty = IPU4_FW_SEND_STREAM_CAPTURE
        then ipu4_deliver_frame env stream (tok_payload tok) d
      else if ty = IPU4_FW_SEND_STREAM_FLUSH
        then ipu4_post_response env IPU4_FW_RESP_STREAM_FLUSH_ACK stream d
      else if ty = IPU4_FW_SEND_STREAM_CLOSE
        then ipu4_post_response env IPU4_FW_RESP_STREAM_CLOSE_ACK stream d
      else d)"

fun handle_pushed ::
  "'m pci_env \<Rightarrow> nat \<Rightarrow> Ipu4FwSysQueue \<Rightarrow> nat \<Rightarrow> u32 \<Rightarrow> 'm dev \<Rightarrow> 'm dev" where
  "handle_pushed env stream q 0 slot d = d"
| "handle_pushed env stream q (Suc pushed) slot d =
     (let (s, m) = d;
          next = (slot + 1) mod q_size q;
          tok = (if q_token_size q < 16 then None
                 else ipu4_dma_read_iova env s m (q_vied_address q + slot * q_token_size q) 16)
      in (case tok of
            None \<Rightarrow> handle_pushed env stream q pushed next d
          | Some bs \<Rightarrow> handle_pushed env stream q pushed next
                (handle_send_token env (word_of_nat stream) (decode_send_token bs) d)))"

definition ipu4_handle_send_bump :: "'m pci_env \<Rightarrow> nat \<Rightarrow> u32 \<Rightarrow> 'm dev \<Rightarrow> 'm dev" where
  "ipu4_handle_send_bump env stream new_wr d =
     (case ipu4_get_send_queue env stream d of
        (None, (s, m)) \<Rightarrow> (s\<lparr>is_send_wr_seen := (is_send_wr_seen s)[stream := new_wr]\<rparr>, m)
      | (Some q, (s, m)) \<Rightarrow>
        if q_size q = 0
        then (s\<lparr>is_send_wr_seen := (is_send_wr_seen s)[stream := new_wr]\<rparr>, m)
        else
          let prev = is_send_wr_seen s ! stream in
          if new_wr = prev then (s, m)
          else
            let pushed = (new_wr + q_size q - prev) mod q_size q;
                s1 = s\<lparr>is_send_wr_seen := (is_send_wr_seen s)[stream := new_wr]\<rparr>
            in handle_pushed env stream q (unat pushed) prev (s1, m))"

section \<open>The CSI-2 ports\<close>

definition ipu4_csi2_port_window :: "(u64 \<times> u64) list" where
  "ipu4_csi2_port_window =
     [(0x64000, 0x1000), (0x65000, 0x1000), (0x66000, 0x1000), (0x67000, 0x1000),
      (0x6c000, 0x800), (0x6c800, 0x800)]"

fun csi2_resolve_from :: "nat \<Rightarrow> (u64 \<times> u64) list \<Rightarrow> u64 \<Rightarrow> (nat \<times> u64) option" where
  "csi2_resolve_from i [] addr = None"
| "csi2_resolve_from i ((base, sz) # ws) addr =
     (if addr \<ge> base \<and> addr < base + sz then Some (i, addr - base)
      else csi2_resolve_from (Suc i) ws addr)"

definition ipu4_csi2_resolve :: "u64 \<Rightarrow> (nat \<times> u64) option" where
  "ipu4_csi2_resolve = csi2_resolve_from 0 ipu4_csi2_port_window"

definition ipu4_csi2_port_read :: "Ipu4Csi2Port \<Rightarrow> u64 \<Rightarrow> u32 option" where
  "ipu4_csi2_port_read p off =
     (if off = CSI2_PORT_REG_RX_ENABLE then Some (rx_enable p)
      else if off = CSI2_PORT_REG_RX_NOF_LANES then Some (rx_nof_lanes p)
      else if off = CSI2_PORT_REG_RX_CONFIG then Some (rx_config p)
      else if off = CSI2_PORT_REG_DLY_TERMEN_C then Some (dly_termen_c p)
      else if off = CSI2_PORT_REG_DLY_SETTLE_C then Some (dly_settle_c p)
      else if off = CSI2_PORT_REG_DLY_TERMEN_D0 then Some (dly_termen_d0 p)
      else if off = CSI2_PORT_REG_DLY_SETTLE_D0 then Some (dly_settle_d0 p)
      else if off = CSI2_PORT_REG_PART_IRQ_EDGE then Some (part_edge p)
      else if off = CSI2_PORT_REG_PART_IRQ_MASK then Some (part_mask p)
      else if off = CSI2_PORT_REG_PART_IRQ_STATUS then Some (part_status p AND part_enable p)
      else if off = CSI2_PORT_REG_PART_IRQ_ENABLE then Some (part_enable p)
      else if off = CSI2_PORT_REG_PART_IRQ_LEVEL_NOT_PULSE then Some (part_level p)
      else if off = CSI2_PORT_REG_RX_IRQ_EDGE then Some (rx_edge p)
      else if off = CSI2_PORT_REG_RX_IRQ_MASK then Some (rx_mask p)
      else if off = CSI2_PORT_REG_RX_IRQ_STATUS then Some (rx_status p AND rx_enable_irq p)
      else if off = CSI2_PORT_REG_RX_IRQ_ENABLE then Some (rx_enable_irq p)
      else if off = CSI2_PORT_REG_RX_IRQ_LEVEL_NOT_PULSE then Some (rx_level p)
      else if off = CSI2_PORT_REG_S2M_IRQ_EDGE then Some (s2m_edge p)
      else if off = CSI2_PORT_REG_S2M_IRQ_MASK then Some (s2m_mask p)
      else if off = CSI2_PORT_REG_S2M_IRQ_STATUS then Some (s2m_status p AND s2m_enable p)
      else if off = CSI2_PORT_REG_S2M_IRQ_ENABLE then Some (s2m_enable p)
      else if off = CSI2_PORT_REG_S2M_IRQ_LEVEL_NOT_PULSE then Some (s2m_level p)
      else None)"

definition ipu4_csi2_port_write :: "Ipu4Csi2Port \<Rightarrow> u64 \<Rightarrow> u32 \<Rightarrow> Ipu4Csi2Port option" where
  "ipu4_csi2_port_write p off v =
     (if off = CSI2_PORT_REG_RX_ENABLE then Some (p\<lparr>rx_enable := v\<rparr>)
      else if off = CSI2_PORT_REG_RX_NOF_LANES then Some (p\<lparr>rx_nof_lanes := v\<rparr>)
      else if off = CSI2_PORT_REG_RX_CONFIG then Some (p\<lparr>rx_config := v\<rparr>)
      else if off = CSI2_PORT_REG_DLY_TERMEN_C then Some (p\<lparr>dly_termen_c := v\<rparr>)
      else if off = CSI2_PORT_REG_DLY_SETTLE_C then Some (p\<lparr>dly_settle_c := v\<rparr>)
      else if off = CSI2_PORT_REG_DLY_TERMEN_D0 then Some (p\<lparr>dly_termen_d0 := v\<rparr>)
      else if off = CSI2_PORT_REG_DLY_SETTLE_D0 then Some (p\<lparr>dly_settle_d0 := v\<rparr>)
      else if off = CSI2_PORT_REG_PART_IRQ_EDGE then Some (p\<lparr>part_edge := v\<rparr>)
      else if off = CSI2_PORT_REG_PART_IRQ_MASK then Some (p\<lparr>part_mask := v\<rparr>)
      else if off = CSI2_PORT_REG_PART_IRQ_CLEAR then Some (p\<lparr>part_status := part_status p AND NOT v\<rparr>)
      else if off = CSI2_PORT_REG_PART_IRQ_ENABLE then Some (p\<lparr>part_enable := v\<rparr>)
      else if off = CSI2_PORT_REG_PART_IRQ_LEVEL_NOT_PULSE then Some (p\<lparr>part_level := v\<rparr>)
      else if off = CSI2_PORT_REG_RX_IRQ_EDGE then Some (p\<lparr>rx_edge := v\<rparr>)
      else if off = CSI2_PORT_REG_RX_IRQ_MASK then Some (p\<lparr>rx_mask := v\<rparr>)
      else if off = CSI2_PORT_REG_RX_IRQ_CLEAR then Some (p\<lparr>rx_status := rx_status p AND NOT v\<rparr>)
      else if off = CSI2_PORT_REG_RX_IRQ_ENABLE then Some (p\<lparr>rx_enable_irq := v\<rparr>)
      else if off = CSI2_PORT_REG_RX_IRQ_LEVEL_NOT_PULSE then Some (p\<lparr>rx_level := v\<rparr>)
      else if off = CSI2_PORT_REG_S2M_IRQ_EDGE then Some (p\<lparr>s2m_edge := v\<rparr>)
      else if off = CSI2_PORT_REG_S2M_IRQ_MASK then Some (p\<lparr>s2m_mask := v\<rparr>)
      else if off = CSI2_PORT_REG_S2M_IRQ_CLEAR then Some (p\<lparr>s2m_status := s2m_status p AND NOT v\<rparr>)
      else if off = CSI2_PORT_REG_S2M_IRQ_ENABLE then Some (p\<lparr>s2m_enable := v\<rparr>)
      else if off = CSI2_PORT_REG_S2M_IRQ_LEVEL_NOT_PULSE then Some (p\<lparr>s2m_level := v\<rparr>)
      else None)"

section \<open>The BAR's handlers\<close>

text \<open>
  Accesses reach the handlers as 32-bit values (the region's implementation access size).
  The part of the read handler that decodes the address windows:
\<close>

definition window_read :: "Ipu4State \<Rightarrow> u64 \<Rightarrow> u32" where
  "window_read s addr =
     (if addr \<ge> IS_DMEM_BASE \<and> addr < IS_DMEM_BASE + IS_DMEM_SIZE then
        (if addr = IS_DMEM_FW_COM_SEND_RD_POS
           then is_dmem s ! unat ((IS_DMEM_FW_COM_SEND_WR_POS - IS_DMEM_BASE) div 4)
         else if addr = IS_DMEM_SYSCOM_STATE then SYSCOM_STATE_READY
         else is_dmem s ! unat ((addr - IS_DMEM_BASE) div 4))
      else if addr \<ge> IS_MMU_BASE \<and> addr < IS_MMU_BASE + IS_MMU_SIZE
        then is_mmu s ! unat ((addr - IS_MMU_BASE) div 4)
      else if addr \<ge> PS_MMU_BASE \<and> addr < PS_MMU_BASE + PS_MMU_SIZE
        then ps_mmu s ! unat ((addr - PS_MMU_BASE) div 4)
      else (case ipu4_csi2_resolve addr of
              Some (port, off) \<Rightarrow>
                (case ipu4_csi2_port_read (csi2 s ! port) off of Some v \<Rightarrow> v | None \<Rightarrow> 0)
            | None \<Rightarrow> 0))"

definition ipu4_mmio_read :: "'m pci_env \<Rightarrow> u64 \<Rightarrow> 'm dev \<Rightarrow> u32 \<times> 'm dev" where
  "ipu4_mmio_read env addr d =
     (let (s, m) = d in
      if addr = BTRS_REG_WDT then (0xfff0fff, d)
      else if addr = BTRS_REG_BTRS_CTRL then (btrs_ctrl s, d)
      else if addr = BTRS_REG_FW_RESET_CTL then
        (let v = (if fw_reset_ctl s AND BTRS_FW_RESET_CTL_START \<noteq> 0
                  then fw_reset_ctl s OR BTRS_FW_RESET_CTL_DONE else fw_reset_ctl s)
         in (v, (s\<lparr>fw_reset_ctl := v\<rparr>, m)))
      else if addr = BTRS_REG_PWR_STATE then
        (let v0 = BTRS_PWR_STATE_PWR_RDY OR BTRS_PWR_STATE_HH_DONE;
             v1 = (if is_powered s then v0 OR BTRS_PWR_STATE_IS_RDY else v0);
             v2 = (if ps_powered s then v1 OR BTRS_PWR_STATE_PS_PWR_UP else v1)
         in (v2, (s\<lparr>pwr_state := v2\<rparr>, m)))
      else if addr = BTRS_REG_ISR_STATUS \<or> addr = BTRS_REG_ISR_ENABLED_STATUS
        then (isr_status s AND isr_enable s, d)
      else if addr = BTRS_REG_ISR_ENABLE then (isr_enable s, d)
      else if addr = BTRS_REG_SECURITY_CTL then (security_ctl s, d)
      else if addr = BTRS_REG_IU2CSECSR then (iu2cse_csr s, d)
      else if addr = BTRS_REG_CSE2IUCSR then (cse2iu_csr s, d)
      else if addr = BTRS_REG_CSE2IUDATA0 then (cse2iu_data0 s, d)
      else if addr = BTRS_REG_SKU then (0, d)
      else if addr = BTRS_REG_TSC_LO \<or> addr = BTRS_REG_TSC_HI then
        (let tsc = clock_ns env m
         in (if addr = BTRS_REG_TSC_HI then ucast (drop_bit 32 tsc) else ucast tsc, d))
      else if addr = IS_UNISPART_IRQ_EDGE then (is_unispart_irq_edge s, d)
      else if addr = IS_UNISPART_IRQ_MASK then (is_unispart_irq_mask s, d)
      else if addr = IS_UNISPART_IRQ_STATUS then (is_unispart_irq_status s, d)
      else if addr = IS_UNISPART_IRQ_ENABLE then (is_unispart_irq_enable s, d)
      else if addr = IS_UNISPART_IRQ_LEVEL_NOT_PULSE then (is_unispart_irq_level_not_pulse s, d)
      else if addr = IS_UNISPART_SW_IRQ_MUX then (is_unispart_sw_irq_mux s, d)
      else if addr = IS_SPC_STATUS_CTRL
        then ((is_spc_status_ctrl s AND NOT SPC_STATUS_START) OR SPC_STATUS_READY, d)
      else if addr = PS_SPC_STATUS_CTRL
        then ((ps_spc_status_ctrl s AND NOT SPC_STATUS_START) OR SPC_STATUS_READY, d)
      else (window_read s addr, d))"

text \<open>A write into the syscom window of the data memory.\<close>

definition dmem_write :: "'m pci_env \<Rightarrow> u32 \<Rightarrow> u64 \<Rightarrow> 'm dev \<Rightarrow> 'm dev" where
  "dmem_write env v addr d =
     (let (s, m) = d;
          reg = unat ((addr - IS_DMEM_BASE) div 4);
          s1 = (if reg = 1
                then s\<lparr>syscom_config_iova := v,
                       is_send_q_loaded := map (\<lambda>_. False) (is_send_q_loaded s),
                       is_recv_q_loaded := False,
                       is_send_wr_seen := map (\<lambda>_. 0) (is_send_wr_seen s)\<rparr>
                else s);
          s2 = (if reg = 2 \<and> v = SYSCOM_STATE_UNINIT
                then s1\<lparr>is_send_wr_seen := map (\<lambda>_. 0) (is_send_wr_seen s1)\<rparr>
                else s1);
          s3 = s2\<lparr>is_dmem := (is_dmem s2)[reg := v]\<rparr>
      in if reg \<ge> 10 \<and> reg < 10 + 8 * 2 \<and> (reg - 10) mod 2 = 0
         then ipu4_handle_send_bump env ((reg - 10) div 2) v (s3, m)
         else (s3, m))"

definition window_write :: "'m pci_env \<Rightarrow> u32 \<Rightarrow> u64 \<Rightarrow> 'm dev \<Rightarrow> 'm dev" where
  "window_write env v addr d =
     (let (s, m) = d in
      if addr \<ge> IS_DMEM_BASE \<and> addr < IS_DMEM_BASE + IS_DMEM_SIZE then dmem_write env v addr d
      else if addr \<ge> IS_MMU_BASE \<and> addr < IS_MMU_BASE + IS_MMU_SIZE then
        (let s1 = (if addr = IS_MMU_SUB0_REG_L1_PHYS then s\<lparr>is_mmu_l1_pfn := v\<rparr> else s)
         in (s1\<lparr>is_mmu := (is_mmu s1)[unat ((addr - IS_MMU_BASE) div 4) := v]\<rparr>, m))
      else if addr \<ge> PS_MMU_BASE \<and> addr < PS_MMU_BASE + PS_MMU_SIZE
        then (s\<lparr>ps_mmu := (ps_mmu s)[unat ((addr - PS_MMU_BASE) div 4) := v]\<rparr>, m)
      else (case ipu4_csi2_resolve addr of
              Some (port, off) \<Rightarrow>
                (case ipu4_csi2_port_write (csi2 s ! port) off v of
                   Some p \<Rightarrow> (s\<lparr>csi2 := (csi2 s)[port := p]\<rparr>, m)
                 | None \<Rightarrow> d)
            | None \<Rightarrow> d))"

definition ipu4_mmio_write :: "'m pci_env \<Rightarrow> u32 \<Rightarrow> u64 \<Rightarrow> 'm dev \<Rightarrow> 'm dev" where
  "ipu4_mmio_write env v addr d =
     (let (s, m) = d in
      if addr = BTRS_REG_BTRS_CTRL then (s\<lparr>btrs_ctrl := v\<rparr>, m)
      else if addr = BTRS_REG_WDT then d
      else if addr = BTRS_REG_FW_RESET_CTL then (s\<lparr>fw_reset_ctl := v\<rparr>, m)
      else if addr = BTRS_REG_IS_FREQ_CTL
        then (s\<lparr>is_freq_ctl := v, is_powered := (v AND BTRS_FREQ_CTL_START \<noteq> 0)\<rparr>, m)
      else if addr = BTRS_REG_PS_FREQ_CTL
        then (s\<lparr>ps_freq_ctl := v, ps_powered := (v AND BTRS_FREQ_CTL_START \<noteq> 0)\<rparr>, m)
      else if addr = BTRS_REG_FABRIC_CMD then (s\<lparr>fabric_cmd := v\<rparr>, m)
      else if addr = BTRS_REG_FW_SOURCE_BASE_LO then (s\<lparr>fw_src_lo := v\<rparr>, m)
      else if addr = BTRS_REG_FW_SOURCE_BASE_HI then (s\<lparr>fw_src_hi := v\<rparr>, m)
      else if addr = BTRS_REG_FW_SOURCE_SIZE then (s\<lparr>fw_src_size := v\<rparr>, m)
      else if addr = BTRS_REG_ISR_ENABLE then (s\<lparr>isr_enable := v\<rparr>, m)
      else if addr = BTRS_REG_ISR_CLEAR then (s\<lparr>isr_status := isr_status s AND NOT v\<rparr>, m)
      else if addr = BTRS_REG_SECURITY_CTL then (s\<lparr>security_ctl := v\<rparr>, m)
      else if addr = BTRS_REG_IU2CSEDATA0 then (s\<lparr>iu2cse_csr := v\<rparr>, m)
      else if addr = BTRS_REG_IU2CSEDB0 then d
      else if addr = BTRS_REG_IU2CSECSR then
        (let c0 = cse2iu_csr s;
             c1 = (if v AND BUTTRESS_IU2CSECSR_ENTRY \<noteq> 0 then c0 OR BUTTRESS_IU2CSECSR_EXIT else c0);
             c2 = (if v AND BUTTRESS_IU2CSECSR_ASSERTED_REG_VALID_REQ \<noteq> 0
                   then c1 OR BUTTRESS_IU2CSECSR_ACKED_REG_VALID else c1)
         in (s\<lparr>iu2cse_csr := v, cse2iu_csr := c2\<rparr>, m))
      else if addr = BTRS_REG_CSE2IUCSR then (s\<lparr>cse2iu_csr := cse2iu_csr s AND NOT v\<rparr>, m)
      else if addr = BTRS_REG_CSE2IUDB0 then (s\<lparr>cse2iu_data0 := 0\<rparr>, m)
      else if addr = IS_UNISPART_IRQ_EDGE then (s\<lparr>is_unispart_irq_edge := v\<rparr>, m)
      else if addr = IS_UNISPART_IRQ_MASK then (s\<lparr>is_unispart_irq_mask := v\<rparr>, m)
      else if addr = IS_UNISPART_IRQ_CLEAR
        then (s\<lparr>is_unispart_irq_status := is_unispart_irq_status s AND NOT v\<rparr>, m)
      else if addr = IS_UNISPART_IRQ_ENABLE then (s\<lparr>is_unispart_irq_enable := v\<rparr>, m)
      else if addr = IS_UNISPART_IRQ_LEVEL_NOT_PULSE
        then (s\<lparr>is_unispart_irq_level_not_pulse := v\<rparr>, m)
      else if addr = IS_UNISPART_SW_IRQ then d
      else if addr = IS_UNISPART_SW_IRQ_MUX then (s\<lparr>is_unispart_sw_irq_mux := v\<rparr>, m)
      else if addr = IS_SPC_STATUS_CTRL then (s\<lparr>is_spc_status_ctrl := v\<rparr>, m)
      else if addr = PS_SPC_STATUS_CTRL then (s\<lparr>ps_spc_status_ctrl := v\<rparr>, m)
      else window_write env v addr d)"

definition zero_port :: Ipu4Csi2Port where
  "zero_port = \<lparr>rx_enable = 0, rx_nof_lanes = 0, rx_config = 0, dly_termen_c = 0,
     dly_settle_c = 0, dly_termen_d0 = 0, dly_settle_d0 = 0, part_edge = 0, part_mask = 0,
     part_status = 0, part_enable = 0, part_level = 0, rx_edge = 0, rx_mask = 0, rx_status = 0,
     rx_enable_irq = 0, rx_level = 0, s2m_edge = 0, s2m_mask = 0, s2m_status = 0,
     s2m_enable = 0, s2m_level = 0\<rparr>"

text \<open>The state after a reset.\<close>

definition ipu4_reset :: Ipu4State where
  "ipu4_reset = \<lparr>btrs_ctrl = 0x10, fw_reset_ctl = 0, is_freq_ctl = 0, ps_freq_ctl = 0,
     is_powered = False, ps_powered = False, fabric_cmd = 0, pwr_state = 0, isr_enable = 0,
     isr_status = 0, fw_src_lo = 0, fw_src_hi = 0, fw_src_size = 0, security_ctl = 0x37002,
     iu2cse_csr = 0, cse2iu_csr = 0, cse2iu_data0 = 0, is_unispart_irq_edge = 0,
     is_unispart_irq_mask = 0, is_unispart_irq_status = 0, is_unispart_irq_enable = 0,
     is_unispart_irq_level_not_pulse = 0, is_unispart_sw_irq_mux = 0,
     csi2 = replicate 6 zero_port, is_dmem = replicate 64 0, is_spc_status_ctrl = 0,
     ps_spc_status_ctrl = 0, is_mmu = replicate 320 0, ps_mmu = replicate 640 0,
     is_mmu_l1_pfn = 0, syscom_config_iova = 0, is_send_q = replicate 8 zero_queue,
     is_send_q_loaded = replicate 8 False, is_recv_q = zero_queue, is_recv_q_loaded = False,
     is_send_wr_seen = replicate 8 0\<rparr>"

text \<open>
  Loading a saved machine: the fields the migration description lists come from the saved
  state, the others keep what the destination has after its reset.
\<close>

definition vmstate_ipu4 :: "Ipu4State \<Rightarrow> Ipu4State" where
  "vmstate_ipu4 saved = ipu4_reset\<lparr>btrs_ctrl := btrs_ctrl saved, fw_reset_ctl := fw_reset_ctl saved,
     pwr_state := pwr_state saved, isr_enable := isr_enable saved, isr_status := isr_status saved,
     fw_src_lo := fw_src_lo saved, fw_src_hi := fw_src_hi saved, fw_src_size := fw_src_size saved,
     security_ctl := security_ctl saved, iu2cse_csr := iu2cse_csr saved,
     cse2iu_csr := cse2iu_csr saved, cse2iu_data0 := cse2iu_data0 saved,
     is_freq_ctl := is_freq_ctl saved, ps_freq_ctl := ps_freq_ctl saved, fabric_cmd := fabric_cmd saved,
     is_unispart_irq_edge := is_unispart_irq_edge saved,
     is_unispart_irq_mask := is_unispart_irq_mask saved,
     is_unispart_irq_status := is_unispart_irq_status saved,
     is_unispart_irq_enable := is_unispart_irq_enable saved,
     is_unispart_irq_level_not_pulse := is_unispart_irq_level_not_pulse saved,
     is_unispart_sw_irq_mux := is_unispart_sw_irq_mux saved, csi2 := csi2 saved,
     is_dmem := is_dmem saved, is_mmu := is_mmu saved, ps_mmu := ps_mmu saved,
     is_spc_status_ctrl := is_spc_status_ctrl saved, ps_spc_status_ctrl := ps_spc_status_ctrl saved,
     is_mmu_l1_pfn := is_mmu_l1_pfn saved, syscom_config_iova := syscom_config_iova saved,
     is_send_wr_seen := is_send_wr_seen saved, is_powered := is_powered saved,
     ps_powered := ps_powered saved\<rparr>"

text \<open>The device at BAR address \<open>bar\<close>, as the driver reaches it.\<close>

definition qemu_dev :: "'m pci_env \<Rightarrow> u64 \<Rightarrow> 'm dev mmio_dev" where
  "qemu_dev env bar = \<lparr>dev_read = (\<lambda>a. ipu4_mmio_read env (a - bar)),
                       dev_write = (\<lambda>v a. ipu4_mmio_write env v (a - bar))\<rparr>"

section \<open>The register file keeps its shape\<close>

definition wf_ipu4 :: "Ipu4State \<Rightarrow> bool" where
  "wf_ipu4 s \<longleftrightarrow> length (csi2 s) = 6 \<and> length (is_dmem s) = 64 \<and> length (is_mmu s) = 320 \<and>
     length (ps_mmu s) = 640 \<and> length (is_send_q s) = 8 \<and> length (is_send_q_loaded s) = 8 \<and>
     length (is_send_wr_seen s) = 8"

lemma wf_reset: "wf_ipu4 ipu4_reset"
  by (simp add: wf_ipu4_def ipu4_reset_def)

named_theorems wf_intros \<open>preservation of the register file's shape\<close>

lemma wf_scalar [simp]:
  "wf_ipu4 (s\<lparr>btrs_ctrl := x_btrs_ctrl\<rparr>) = wf_ipu4 s"
  "wf_ipu4 (s\<lparr>fw_reset_ctl := x_fw_reset_ctl\<rparr>) = wf_ipu4 s"
  "wf_ipu4 (s\<lparr>is_freq_ctl := x_is_freq_ctl\<rparr>) = wf_ipu4 s"
  "wf_ipu4 (s\<lparr>ps_freq_ctl := x_ps_freq_ctl\<rparr>) = wf_ipu4 s"
  "wf_ipu4 (s\<lparr>is_powered := x_is_powered\<rparr>) = wf_ipu4 s"
  "wf_ipu4 (s\<lparr>ps_powered := x_ps_powered\<rparr>) = wf_ipu4 s"
  "wf_ipu4 (s\<lparr>fabric_cmd := x_fabric_cmd\<rparr>) = wf_ipu4 s"
  "wf_ipu4 (s\<lparr>pwr_state := x_pwr_state\<rparr>) = wf_ipu4 s"
  "wf_ipu4 (s\<lparr>isr_enable := x_isr_enable\<rparr>) = wf_ipu4 s"
  "wf_ipu4 (s\<lparr>isr_status := x_isr_status\<rparr>) = wf_ipu4 s"
  "wf_ipu4 (s\<lparr>fw_src_lo := x_fw_src_lo\<rparr>) = wf_ipu4 s"
  "wf_ipu4 (s\<lparr>fw_src_hi := x_fw_src_hi\<rparr>) = wf_ipu4 s"
  "wf_ipu4 (s\<lparr>fw_src_size := x_fw_src_size\<rparr>) = wf_ipu4 s"
  "wf_ipu4 (s\<lparr>security_ctl := x_security_ctl\<rparr>) = wf_ipu4 s"
  "wf_ipu4 (s\<lparr>iu2cse_csr := x_iu2cse_csr\<rparr>) = wf_ipu4 s"
  "wf_ipu4 (s\<lparr>cse2iu_csr := x_cse2iu_csr\<rparr>) = wf_ipu4 s"
  "wf_ipu4 (s\<lparr>cse2iu_data0 := x_cse2iu_data0\<rparr>) = wf_ipu4 s"
  "wf_ipu4 (s\<lparr>is_unispart_irq_edge := x_is_unispart_irq_edge\<rparr>) = wf_ipu4 s"
  "wf_ipu4 (s\<lparr>is_unispart_irq_mask := x_is_unispart_irq_mask\<rparr>) = wf_ipu4 s"
  "wf_ipu4 (s\<lparr>is_unispart_irq_status := x_is_unispart_irq_status\<rparr>) = wf_ipu4 s"
  "wf_ipu4 (s\<lparr>is_unispart_irq_enable := x_is_unispart_irq_enable\<rparr>) = wf_ipu4 s"
  "wf_ipu4 (s\<lparr>is_unispart_irq_level_not_pulse := x_is_unispart_irq_level_not_pulse\<rparr>) = wf_ipu4 s"
  "wf_ipu4 (s\<lparr>is_unispart_sw_irq_mux := x_is_unispart_sw_irq_mux\<rparr>) = wf_ipu4 s"
  "wf_ipu4 (s\<lparr>is_spc_status_ctrl := x_is_spc_status_ctrl\<rparr>) = wf_ipu4 s"
  "wf_ipu4 (s\<lparr>ps_spc_status_ctrl := x_ps_spc_status_ctrl\<rparr>) = wf_ipu4 s"
  "wf_ipu4 (s\<lparr>is_mmu_l1_pfn := x_is_mmu_l1_pfn\<rparr>) = wf_ipu4 s"
  "wf_ipu4 (s\<lparr>syscom_config_iova := x_syscom_config_iova\<rparr>) = wf_ipu4 s"
  "wf_ipu4 (s\<lparr>is_recv_q := x_is_recv_q\<rparr>) = wf_ipu4 s"
  "wf_ipu4 (s\<lparr>is_recv_q_loaded := x_is_recv_q_loaded\<rparr>) = wf_ipu4 s"
  by (simp_all add: wf_ipu4_def)

lemma wf_array [simp]:
  "length xs = length (is_dmem s) \<Longrightarrow> wf_ipu4 (s\<lparr>is_dmem := xs\<rparr>) = wf_ipu4 s"
  "length ys = length (is_mmu s) \<Longrightarrow> wf_ipu4 (s\<lparr>is_mmu := ys\<rparr>) = wf_ipu4 s"
  "length zs = length (ps_mmu s) \<Longrightarrow> wf_ipu4 (s\<lparr>ps_mmu := zs\<rparr>) = wf_ipu4 s"
  "length ps = length (csi2 s) \<Longrightarrow> wf_ipu4 (s\<lparr>csi2 := ps\<rparr>) = wf_ipu4 s"
  "length qs = length (is_send_q s) \<Longrightarrow> wf_ipu4 (s\<lparr>is_send_q := qs\<rparr>) = wf_ipu4 s"
  "length ls = length (is_send_q_loaded s) \<Longrightarrow> wf_ipu4 (s\<lparr>is_send_q_loaded := ls\<rparr>) = wf_ipu4 s"
  "length vs = length (is_send_wr_seen s) \<Longrightarrow> wf_ipu4 (s\<lparr>is_send_wr_seen := vs\<rparr>) = wf_ipu4 s"
  by (simp_all add: wf_ipu4_def)

lemma wf_get_recv_queue [wf_intros]:
  "wf_ipu4 (fst d) \<Longrightarrow> wf_ipu4 (fst (snd (ipu4_get_recv_queue env d)))"
  by (simp add: ipu4_get_recv_queue_def case_prod_beta split: option.split)

lemma wf_get_send_queue [wf_intros]:
  "wf_ipu4 (fst d) \<Longrightarrow> wf_ipu4 (fst (snd (ipu4_get_send_queue env n d)))"
  by (simp add: ipu4_get_send_queue_def case_prod_beta split: option.split)

lemma wf_post_response_full [wf_intros]:
  assumes "wf_ipu4 (fst d)"
  shows "wf_ipu4 (fst (ipu4_post_response_full env resp d))"
  using wf_get_recv_queue [OF assms, of env]
  by (simp add: ipu4_post_response_full_def Let_def case_prod_beta split: option.split)

lemma wf_deliver_pins [wf_intros]:
  "wf_ipu4 (fst d) \<Longrightarrow> wf_ipu4 (fst (deliver_pins env stream i ps d))"
proof (induction ps arbitrary: i d)
  case Nil
  then show ?case by simp
next
  case (Cons p ps)
  obtain s m where "d = (s, m)" by force
  with Cons.prems show ?case
    by (simp add: Let_def ipu4_post_pin_data_ready_def Cons.IH wf_post_response_full)
qed

lemma wf_deliver_frame [wf_intros]:
  "wf_ipu4 (fst d) \<Longrightarrow> wf_ipu4 (fst (ipu4_deliver_frame env stream a d))"
  by (simp add: ipu4_deliver_frame_def Let_def case_prod_beta wf_deliver_pins wf_post_response_full
      split: option.split)

lemma wf_handle_send_token [wf_intros]:
  "wf_ipu4 (fst d) \<Longrightarrow> wf_ipu4 (fst (handle_send_token env stream tok d))"
  by (auto simp: handle_send_token_def Let_def ipu4_post_response_def
      intro!: wf_deliver_frame wf_post_response_full)

lemma wf_handle_pushed [wf_intros]:
  "wf_ipu4 (fst d) \<Longrightarrow> wf_ipu4 (fst (handle_pushed env stream q n slot d))"
proof (induction n arbitrary: slot d)
  case 0
  then show ?case by simp
next
  case (Suc n)
  then show ?case
    by (simp add: Let_def case_prod_beta wf_handle_send_token split: option.split)
qed

lemma wf_handle_send_bump [wf_intros]:
  assumes "wf_ipu4 (fst d)"
  shows "wf_ipu4 (fst (ipu4_handle_send_bump env stream v d))"
  using wf_get_send_queue [OF assms, of env stream]
  by (simp add: ipu4_handle_send_bump_def Let_def case_prod_beta wf_handle_pushed split: option.split)

lemma wf_dmem_write [wf_intros]:
  "wf_ipu4 (fst d) \<Longrightarrow> wf_ipu4 (fst (dmem_write env v addr d))"
  by (simp add: dmem_write_def Let_def case_prod_beta wf_handle_send_bump)

lemma wf_window_write [wf_intros]:
  "wf_ipu4 (fst d) \<Longrightarrow> wf_ipu4 (fst (window_write env v addr d))"
  by (simp add: window_write_def Let_def case_prod_beta wf_dmem_write split: option.split)

lemma wf_mmio_write: "wf_ipu4 (fst d) \<Longrightarrow> wf_ipu4 (fst (ipu4_mmio_write env v addr d))"
  by (simp add: ipu4_mmio_write_def Let_def case_prod_beta wf_window_write if_distrib [of fst]
      if_distrib [of wf_ipu4] cong: if_cong)

lemma wf_mmio_read: "wf_ipu4 (fst d) \<Longrightarrow> wf_ipu4 (fst (snd (ipu4_mmio_read env addr d)))"
  by (simp add: ipu4_mmio_read_def Let_def case_prod_beta if_distrib [of fst] if_distrib [of snd]
      if_distrib [of wf_ipu4] cong: if_cong)

section \<open>Every array access of the handlers is in range\<close>

lemma csi2_resolve_from_bounds:
  "csi2_resolve_from i ws addr = Some (port, off) \<Longrightarrow> port < i + length ws"
  by (induction i ws addr rule: csi2_resolve_from.induct) (auto split: if_splits)

lemma csi2_resolve_bounds: "ipu4_csi2_resolve addr = Some (port, off) \<Longrightarrow> port < 6"
proof -
  assume "ipu4_csi2_resolve addr = Some (port, off)"
  then have "port < 0 + length ipu4_csi2_port_window"
    unfolding ipu4_csi2_resolve_def by (rule csi2_resolve_from_bounds)
  then show ?thesis by (simp add: ipu4_csi2_port_window_def)
qed

lemma window_index_bound:
  assumes "base \<le> (addr :: u64)" "addr < base + len" "base \<le> base + len" "unat len = 4 * k"
  shows "unat ((addr - base) div 4) < k"
proof -
  have "unat (addr - base) < 4 * k"
    using assms by (simp add: unat_sub_le word_less_nat_alt word_le_nat_alt unat_word_ariths)
  then show ?thesis by (simp add: unat_div)
qed

section \<open>The index registers of the syscom window\<close>

text \<open>The address of a register of the window, and what reading and writing it does.\<close>

definition dmem_reg :: "nat \<Rightarrow> u64" where
  "dmem_reg r = IS_DMEM_BASE + word_of_nat (4 * r)"

lemma unat_dmem_reg: "r < 64 \<Longrightarrow> unat (dmem_reg r) = 0x108000 + 4 * r"
  by (simp add: dmem_reg_def IS_DMEM_BASE_def unat_add_no_wrap unat_of_nat_u64
      del: of_nat_mult)

lemma dmem_reg_neq:
  assumes "r < 64" "unat (c :: u64) < 0x108000 \<or> unat c \<ge> 0x108100"
  shows "dmem_reg r \<noteq> c"
  using assms unat_dmem_reg [OF assms(1)] by auto

lemma dmem_reg_window:
  assumes "r < 64"
  shows "IS_DMEM_BASE \<le> dmem_reg r" "dmem_reg r < IS_DMEM_BASE + IS_DMEM_SIZE"
    "unat ((dmem_reg r - IS_DMEM_BASE) div 4) = r"
proof -
  show "IS_DMEM_BASE \<le> dmem_reg r" "dmem_reg r < IS_DMEM_BASE + IS_DMEM_SIZE"
    using assms by (simp_all add: word_le_nat_alt word_less_nat_alt unat_dmem_reg)
      (simp_all add: ipu4_consts)
  have "unat (word_of_nat (4 * r) :: u64) = 4 * r"
    using assms by (simp add: unat_of_nat_u64 del: of_nat_mult)
  then show "unat ((dmem_reg r - IS_DMEM_BASE) div 4) = r"
    by (simp add: dmem_reg_def unat_div del: of_nat_mult)
qed

lemma dmem_reg_inject: "r < 64 \<Longrightarrow> r' < 64 \<Longrightarrow> dmem_reg r = dmem_reg r' \<longleftrightarrow> r = r'"
  using unat_dmem_reg by (metis add_left_cancel mult_cancel1 zero_neq_numeral)

lemma mmio_read_dmem:
  assumes "r < 64" "r \<noteq> 2" "r \<noteq> 11"
  shows "ipu4_mmio_read env (dmem_reg r) d = (is_dmem (fst d) ! r, d)"
proof -
  have "dmem_reg r \<noteq> IS_DMEM_FW_COM_SEND_RD_POS" "dmem_reg r \<noteq> IS_DMEM_SYSCOM_STATE"
    using assms dmem_reg_inject [of r 2] dmem_reg_inject [of r 11]
    by (auto simp: dmem_reg_def ipu4_consts)
  then have "window_read (fst d) (dmem_reg r) = is_dmem (fst d) ! r"
    using assms by (simp add: window_read_def dmem_reg_window)
  then show ?thesis
    using assms(1)
    by (simp add: ipu4_mmio_read_def Let_def case_prod_beta dmem_reg_neq ipu4_consts)
qed

lemma mmio_write_dmem:
  assumes "r < 64"
  shows "ipu4_mmio_write env v (dmem_reg r) d = dmem_write env v (dmem_reg r) d"
proof -
  have "window_write env v (dmem_reg r) d = dmem_write env v (dmem_reg r) d"
    using assms by (simp add: window_write_def case_prod_beta dmem_reg_window)
  then show ?thesis
    using assms by (simp add: ipu4_mmio_write_def Let_def case_prod_beta dmem_reg_neq ipu4_consts)
qed

lemma dmem_write_plain:
  assumes "r < 64" "r \<notin> {1, 2}" "\<not> (10 \<le> r \<and> r < 26 \<and> even r)"
  shows "dmem_write env v (dmem_reg r) (s, m) = (s\<lparr>is_dmem := (is_dmem s)[r := v]\<rparr>, m)"
  using assms by (auto simp: dmem_write_def Let_def dmem_reg_window)

text \<open>
  The index registers of the message receive queue are memory, as far as the driver can
  tell: it reads both and writes only the read index.
\<close>

definition recv_wr_reg :: nat where "recv_wr_reg = 28"
definition recv_rd_reg :: nat where "recv_rd_reg = 29"

lemma qemu_read_dmem:
  assumes "r < 64" "r \<noteq> 2" "r \<noteq> 11"
  shows "dev_read (qemu_dev env bar) (bar + dmem_reg r) d = (is_dmem (fst d) ! r, d)"
  using mmio_read_dmem [OF assms] by (simp add: qemu_dev_def)

lemma qemu_reg_val:
  assumes "r < 64" "r \<noteq> 2" "r \<noteq> 11"
  shows "reg_val (qemu_dev env bar) (bar + dmem_reg r) d = is_dmem (fst d) ! r"
  by (simp add: reg_val_def qemu_read_dmem [OF assms])

lemma qemu_write_dmem:
  "r < 64 \<Longrightarrow> dev_write (qemu_dev env bar) v (bar + dmem_reg r) d = dmem_write env v (dmem_reg r) d"
  by (simp add: qemu_dev_def mmio_write_dmem)

interpretation qemu_recv: regmem "qemu_dev env bar"
  "{bar + dmem_reg recv_wr_reg, bar + dmem_reg recv_rd_reg}" "{bar + dmem_reg recv_rd_reg}"
  "\<lambda>d. wf_ipu4 (fst d)" for env :: "'m pci_env" and bar
proof unfold_locales
  fix d :: "'m dev" and a b :: u64 and v :: u32
  let ?dv = "qemu_dev env bar"
  note regs = recv_wr_reg_def recv_rd_reg_def
  have wr: "dev_write ?dv v (bar + dmem_reg 29) d
      = ((fst d)\<lparr>is_dmem := (is_dmem (fst d))[29 := v]\<rparr>, snd d)"
    using dmem_write_plain [of 29 env v "fst d" "snd d"] by (simp add: qemu_write_dmem)
  show "{bar + dmem_reg recv_rd_reg} \<subseteq> {bar + dmem_reg recv_wr_reg, bar + dmem_reg recv_rd_reg}"
    by simp
  show "snd (dev_read ?dv a d) = d"
    if "a \<in> {bar + dmem_reg recv_wr_reg, bar + dmem_reg recv_rd_reg}"
    using that by (auto simp: regs qemu_read_dmem)
  assume I: "wf_ipu4 (fst d)" and a: "a \<in> {bar + dmem_reg recv_rd_reg}"
  then have aa: "a = bar + dmem_reg 29" by (simp add: regs)
  show "wf_ipu4 (fst (dev_write ?dv v a d))"
    using I by (simp add: aa wr)
  show "reg_val ?dv a (dev_write ?dv v a d) = v"
    using I by (simp add: aa wr qemu_reg_val wf_ipu4_def)
  show "reg_val ?dv b (dev_write ?dv v a d) = reg_val ?dv b d"
    if "b \<in> {bar + dmem_reg recv_wr_reg, bar + dmem_reg recv_rd_reg}" "a \<noteq> b"
  proof -
    from that aa have "b = bar + dmem_reg 28" by (auto simp: regs)
    then show ?thesis by (simp add: aa wr qemu_reg_val)
  qed
qed

text \<open>
  Once the receive queue's descriptor is loaded, answering messages touches no register of
  the syscom window but that queue's write index.
\<close>

definition recv_bound :: "Ipu4State \<Rightarrow> bool" where
  "recv_bound s \<longleftrightarrow> wf_ipu4 s \<and> is_recv_q_loaded s \<and> unat (q_wr_reg (is_recv_q s)) = recv_wr_reg"

definition dmem_frame :: "Ipu4State \<Rightarrow> Ipu4State \<Rightarrow> bool" where
  "dmem_frame s s' \<longleftrightarrow> (recv_bound s \<longrightarrow> recv_bound s' \<and> is_recv_q s' = is_recv_q s \<and>
     (\<forall>i. i \<noteq> recv_wr_reg \<longrightarrow> is_dmem s' ! i = is_dmem s ! i))"

named_theorems frames \<open>what answering messages leaves alone\<close>

lemma dmem_frame_refl [frames]: "dmem_frame s s"
  by (simp add: dmem_frame_def)

lemma dmem_frame_trans: "dmem_frame s s1 \<Longrightarrow> dmem_frame s1 s2 \<Longrightarrow> dmem_frame s s2"
  by (simp add: dmem_frame_def)

lemma frame_other [frames]:
  "is_dmem s' = is_dmem s \<Longrightarrow> is_recv_q_loaded s' = is_recv_q_loaded s \<Longrightarrow>
   is_recv_q s' = is_recv_q s \<Longrightarrow> wf_ipu4 s' = wf_ipu4 s \<Longrightarrow> dmem_frame s s'"
  by (simp add: dmem_frame_def recv_bound_def)

lemma frame_post_response_full [frames]:
  "dmem_frame (fst d) (fst (ipu4_post_response_full env resp d))"
proof (cases "recv_bound (fst d)")
  case True
  then have "ipu4_get_recv_queue env d = (Some (is_recv_q (fst d)), d)"
    by (simp add: ipu4_get_recv_queue_def case_prod_beta recv_bound_def)
  with True show ?thesis
    by (simp add: ipu4_post_response_full_def Let_def case_prod_beta dmem_frame_def recv_bound_def
        split: option.split)
next
  case False
  then show ?thesis by (simp add: dmem_frame_def)
qed

lemma frame_deliver_pins [frames]:
  "dmem_frame (fst d) (fst (deliver_pins env stream i ps d))"
proof (induction ps arbitrary: i d)
  case Nil
  then show ?case by (simp add: frames)
next
  case (Cons p ps)
  let ?d1 = "\<lambda>r. ipu4_post_response_full env r
      (fst d, ipu4_dma_write_iova_pattern env (fst d) (pin_addr p) IPU4_FRAME_PATTERN_BYTES 0 0 (snd d))"
  have "dmem_frame (fst d) (fst (?d1 r))" for r
    using frame_post_response_full by (metis fst_conv)
  with Cons show ?case
    by (simp add: Let_def case_prod_beta ipu4_post_pin_data_ready_def) (blast intro: dmem_frame_trans)
qed

lemma frame_deliver_frame [frames]:
  "dmem_frame (fst d) (fst (ipu4_deliver_frame env stream a d))"
proof (cases "ipu4_dma_read_iova env (fst d) (snd d) a 96")
  case None
  then show ?thesis by (simp add: ipu4_deliver_frame_def case_prod_beta frames)
next
  case (Some bs)
  let ?p0 = "csi2 (fst d) ! 0"
  let ?s1 = "(fst d)\<lparr>csi2 := (csi2 (fst d))[0 := ?p0\<lparr>part_status := part_status ?p0 OR CSI2_PART_IRQ_FS_VC0\<rparr>],
      is_unispart_irq_status := is_unispart_irq_status (fst d) OR ISYS_UNISPART_IRQ_CSI2_PORT0\<rparr>"
  have "dmem_frame (fst d) ?s1" by (rule frame_other) simp_all
  moreover have "dmem_frame ?s1 (fst (ipu4_post_response_full env r (?s1, snd d)))" for r
    using frame_post_response_full [of "(?s1, snd d)"] by simp
  ultimately show ?thesis
    using Some frame_deliver_pins
    by (simp add: ipu4_deliver_frame_def Let_def case_prod_beta) (blast intro: dmem_frame_trans)
qed

lemma frame_handle_send_token [frames]:
  "dmem_frame (fst d) (fst (handle_send_token env stream tok d))"
  by (auto simp: handle_send_token_def Let_def ipu4_post_response_def
      intro: frames dmem_frame_trans [OF frame_post_response_full frame_deliver_frame])

lemma frame_handle_pushed [frames]:
  "dmem_frame (fst d) (fst (handle_pushed env stream q n slot d))"
proof (induction n arbitrary: slot d)
  case 0
  then show ?case by (simp add: frames)
next
  case (Suc n)
  have "dmem_frame (fst d) (fst (handle_pushed env stream q n k (handle_send_token env u tok d)))" for k u tok
    by (rule dmem_frame_trans [OF frame_handle_send_token Suc.IH])
  with Suc.IH show ?case
    by (simp add: Let_def case_prod_beta split: option.split)
qed

lemma frame_get_send_queue [frames]:
  "dmem_frame (fst d) (fst (snd (ipu4_get_send_queue env n d)))"
  by (auto simp: ipu4_get_send_queue_def case_prod_beta split: option.split intro!: frames)

lemma frame_handle_send_bump [frames]:
  "dmem_frame (fst d) (fst (ipu4_handle_send_bump env stream v d))"
proof -
  let ?s = "fst (snd (ipu4_get_send_queue env stream d))"
  have up: "dmem_frame ?s (?s\<lparr>is_send_wr_seen := (is_send_wr_seen ?s)[stream := v]\<rparr>)"
    by (rule frame_other) simp_all
  have "dmem_frame ?s (fst (handle_pushed env stream q n k
      (?s\<lparr>is_send_wr_seen := (is_send_wr_seen ?s)[stream := v]\<rparr>, m)))" for q n k m
    using dmem_frame_trans [OF up] frame_handle_pushed by (metis fst_conv)
  with up have "dmem_frame ?s (fst (ipu4_handle_send_bump env stream v d))"
    by (simp add: ipu4_handle_send_bump_def Let_def case_prod_beta dmem_frame_refl split: option.split)
  then show ?thesis
    using frame_get_send_queue dmem_frame_trans by blast
qed

text \<open>
  The index registers of the message send queue of stream \<open>k\<close>, one of the streams 1 to 7:
  again memory for the driver, which reads both and writes the write index. The device
  answers the message during that write.
\<close>

definition send_wr_reg :: "nat \<Rightarrow> nat" where "send_wr_reg k = 10 + 2 * k"
definition send_rd_reg :: "nat \<Rightarrow> nat" where "send_rd_reg k = 11 + 2 * k"

lemma dmem_write_send:
  assumes "k < 8"
  shows "dmem_write env v (dmem_reg (send_wr_reg k)) (s, m) =
    ipu4_handle_send_bump env k v (s\<lparr>is_dmem := (is_dmem s)[send_wr_reg k := v]\<rparr>, m)"
  using assms by (auto simp: dmem_write_def Let_def dmem_reg_window send_wr_reg_def)

lemma send_regs_distinct:
  assumes "0 < k" "k < 8"
  shows "send_wr_reg k < 64" "send_rd_reg k < 64" "send_wr_reg k \<noteq> 2" "send_wr_reg k \<noteq> 11"
    "send_rd_reg k \<noteq> 2" "send_rd_reg k \<noteq> 11" "send_wr_reg k \<noteq> recv_wr_reg"
    "send_rd_reg k \<noteq> recv_wr_reg" "send_wr_reg k \<noteq> send_rd_reg k" "send_rd_reg k \<noteq> send_wr_reg k"
  using assms by (auto simp: send_wr_reg_def send_rd_reg_def recv_wr_reg_def)

lemma qemu_send_write:
  assumes "0 < k" "k < 8" "recv_bound (fst d)"
    and d'_def: "d' = dev_write (qemu_dev env bar) v (bar + dmem_reg (send_wr_reg k)) d"
  shows "recv_bound (fst d')"
    and "is_dmem (fst d') ! send_wr_reg k = v"
    and "is_dmem (fst d') ! send_rd_reg k = is_dmem (fst d) ! send_rd_reg k"
proof -
  note r = send_regs_distinct [OF assms(1,2)]
  let ?s1 = "(fst d)\<lparr>is_dmem := (is_dmem (fst d))[send_wr_reg k := v]\<rparr>"
  have d': "d' = ipu4_handle_send_bump env k v (?s1, snd d)"
    using dmem_write_send [OF assms(2), of env v "fst d" "snd d"]
    by (simp add: d'_def qemu_write_dmem [OF r(1)])
  have b1: "recv_bound ?s1"
    using assms(3) by (simp add: recv_bound_def)
  have fr: "dmem_frame ?s1 (fst d')"
    using frame_handle_send_bump [of "(?s1, snd d)" env k v] by (simp add: d')
  show "recv_bound (fst d')"
    using fr b1 by (simp add: dmem_frame_def)
  show "is_dmem (fst d') ! send_wr_reg k = v"
    using fr b1 r assms(3) by (simp add: dmem_frame_def recv_bound_def wf_ipu4_def)
  show "is_dmem (fst d') ! send_rd_reg k = is_dmem (fst d) ! send_rd_reg k"
    using fr b1 r by (simp add: dmem_frame_def)
qed

interpretation qemu_send: regmem "qemu_dev env bar"
  "if k \<in> {1..7} then {bar + dmem_reg (send_wr_reg k), bar + dmem_reg (send_rd_reg k)} else {}"
  "if k \<in> {1..7} then {bar + dmem_reg (send_wr_reg k)} else {}"
  "\<lambda>d. recv_bound (fst d)" for env :: "'m pci_env" and bar and k :: nat
proof unfold_locales
  fix d :: "'m dev" and a b :: u64 and v :: u32
  let ?dv = "qemu_dev env bar"
  let ?R = "if k \<in> {1..7} then {bar + dmem_reg (send_wr_reg k), bar + dmem_reg (send_rd_reg k)} else {}"
  let ?W = "if k \<in> {1..7} then {bar + dmem_reg (send_wr_reg k)} else {}"
  show "?W \<subseteq> ?R" by simp
  show "snd (dev_read ?dv a d) = d" if "a \<in> ?R"
    using that send_regs_distinct [of k] by (auto simp: qemu_read_dmem split: if_splits)
  assume I: "recv_bound (fst d)" and a: "a \<in> ?W"
  then have k: "0 < k" "k < 8" and aa: "a = bar + dmem_reg (send_wr_reg k)"
    by (auto split: if_splits)
  note r = send_regs_distinct [OF k] and w = qemu_send_write [OF k I refl]
  show "recv_bound (fst (dev_write ?dv v a d))"
    by (simp add: aa w)
  show "reg_val ?dv a (dev_write ?dv v a d) = v"
    using r by (simp add: aa qemu_reg_val w)
  show "reg_val ?dv b (dev_write ?dv v a d) = reg_val ?dv b d" if "b \<in> ?R" "a \<noteq> b"
  proof -
    from that aa have "b = bar + dmem_reg (send_rd_reg k)" by (auto split: if_splits)
    then show ?thesis using r by (simp add: aa qemu_reg_val w)
  qed
qed

section \<open>Reachable device states\<close>

text \<open>
  What can happen to the device: a reset, any guest access to the BAR, and any change of
  the environment (the guest writes its memory, time passes).
\<close>

inductive qemu_reach :: "'m pci_env \<Rightarrow> 'm dev \<Rightarrow> bool" for env where
  reach_reset: "qemu_reach env (ipu4_reset, m)"
| reach_read: "qemu_reach env d \<Longrightarrow> qemu_reach env (snd (ipu4_mmio_read env addr d))"
| reach_write: "qemu_reach env d \<Longrightarrow> qemu_reach env (ipu4_mmio_write env v addr d)"
| reach_env: "qemu_reach env (s, m) \<Longrightarrow> qemu_reach env (s, m')"

lemma reach_wf: "qemu_reach env d \<Longrightarrow> wf_ipu4 (fst d)"
  by (induction rule: qemu_reach.induct) (simp_all add: wf_reset wf_mmio_read wf_mmio_write)

text \<open>
  A migrated device has lost its cached send-queue descriptors, and loading a descriptor
  again sets the last-seen write index of the stream back to 0.
\<close>

lemma migrated_send_queue_restarts:
  assumes "wf_ipu4 s" "k < 8" "ipu4_get_send_queue env k (vmstate_ipu4 s, m) = (Some q, d)"
  shows "is_send_wr_seen (fst d) ! k = 0"
  using assms by (auto simp: ipu4_get_send_queue_def vmstate_ipu4_def ipu4_reset_def wf_ipu4_def
      split: if_splits option.splits)

text \<open>
  Writing the data register of the channel to the security engine overwrites the channel's
  control and status register.
\<close>

lemma iu2cse_data_clobbers_csr:
  "iu2cse_csr (fst (ipu4_mmio_write env v BTRS_REG_IU2CSEDATA0 d)) = v"
  by (simp add: ipu4_mmio_write_def Let_def case_prod_beta ipu4_consts)

end
