(* ===== verification/Qemu_Bounds.thy ===== *)
theory Qemu_Bounds
  imports Qemu_Ipu4
begin

unbundle bit_operations_syntax

text \<open>
  The emulated device never leaves the arrays of its state. A list behind an array stands for
  the memory that follows it: the handlers of the BAR give the same results whatever is there, and
  leave it as it is, so that they neither read nor write beyond an array.
\<close>

text \<open>
  The state with \<open>xs\<close>, \<open>ps\<close> and \<open>qs\<close> behind its arrays of registers, ports and queues. The two arrays that a
  write of the configuration address clears as a whole are followed by \<open>n\<close> cleared elements.
\<close>

definition padded :: "u32 list \<Rightarrow> Ipu4Csi2Port list \<Rightarrow> Ipu4FwSysQueue list \<Rightarrow> nat \<Rightarrow> Ipu4State \<Rightarrow> Ipu4State" where
  "padded xs ps qs n s = s\<lparr>csi2 := csi2 s @ ps, is_dmem := is_dmem s @ xs, is_mmu := is_mmu s @ xs, ps_mmu := ps_mmu s @ xs,
     is_send_q := is_send_q s @ qs, is_send_q_loaded := is_send_q_loaded s @ replicate n False,
     is_send_wr_seen := is_send_wr_seen s @ replicate n 0\<rparr>"

text \<open>The fields and their updates.\<close>

lemma pad_fields [simp]:
  "btrs_ctrl (padded xs ps qs n s) = btrs_ctrl s"
  "fw_reset_ctl (padded xs ps qs n s) = fw_reset_ctl s"
  "is_freq_ctl (padded xs ps qs n s) = is_freq_ctl s"
  "ps_freq_ctl (padded xs ps qs n s) = ps_freq_ctl s"
  "is_powered (padded xs ps qs n s) = is_powered s"
  "ps_powered (padded xs ps qs n s) = ps_powered s"
  "fabric_cmd (padded xs ps qs n s) = fabric_cmd s"
  "pwr_state (padded xs ps qs n s) = pwr_state s"
  "isr_enable (padded xs ps qs n s) = isr_enable s"
  "isr_status (padded xs ps qs n s) = isr_status s"
  "fw_src_lo (padded xs ps qs n s) = fw_src_lo s"
  "fw_src_hi (padded xs ps qs n s) = fw_src_hi s"
  "fw_src_size (padded xs ps qs n s) = fw_src_size s"
  "security_ctl (padded xs ps qs n s) = security_ctl s"
  "iu2cse_csr (padded xs ps qs n s) = iu2cse_csr s"
  "cse2iu_csr (padded xs ps qs n s) = cse2iu_csr s"
  "cse2iu_data0 (padded xs ps qs n s) = cse2iu_data0 s"
  "is_unispart_irq_edge (padded xs ps qs n s) = is_unispart_irq_edge s"
  "is_unispart_irq_mask (padded xs ps qs n s) = is_unispart_irq_mask s"
  "is_unispart_irq_status (padded xs ps qs n s) = is_unispart_irq_status s"
  "is_unispart_irq_enable (padded xs ps qs n s) = is_unispart_irq_enable s"
  "is_unispart_irq_level_not_pulse (padded xs ps qs n s) = is_unispart_irq_level_not_pulse s"
  "is_unispart_sw_irq_mux (padded xs ps qs n s) = is_unispart_sw_irq_mux s"
  "is_spc_status_ctrl (padded xs ps qs n s) = is_spc_status_ctrl s"
  "ps_spc_status_ctrl (padded xs ps qs n s) = ps_spc_status_ctrl s"
  "is_mmu_l1_pfn (padded xs ps qs n s) = is_mmu_l1_pfn s"
  "syscom_config_iova (padded xs ps qs n s) = syscom_config_iova s"
  "is_recv_q (padded xs ps qs n s) = is_recv_q s"
  "is_recv_q_loaded (padded xs ps qs n s) = is_recv_q_loaded s"
  "csi2 (padded xs ps qs n s) = csi2 s @ ps"
  "is_dmem (padded xs ps qs n s) = is_dmem s @ xs"
  "is_mmu (padded xs ps qs n s) = is_mmu s @ xs"
  "ps_mmu (padded xs ps qs n s) = ps_mmu s @ xs"
  "is_send_q (padded xs ps qs n s) = is_send_q s @ qs"
  "is_send_q_loaded (padded xs ps qs n s) = is_send_q_loaded s @ replicate n False"
  "is_send_wr_seen (padded xs ps qs n s) = is_send_wr_seen s @ replicate n 0"
  by (simp_all add: padded_def)

lemma pad_updates [simp]:
  "(padded xs ps qs n s)\<lparr>btrs_ctrl := v_btrs_ctrl\<rparr> = padded xs ps qs n (s\<lparr>btrs_ctrl := v_btrs_ctrl\<rparr>)"
  "(padded xs ps qs n s)\<lparr>fw_reset_ctl := v_fw_reset_ctl\<rparr> = padded xs ps qs n (s\<lparr>fw_reset_ctl := v_fw_reset_ctl\<rparr>)"
  "(padded xs ps qs n s)\<lparr>is_freq_ctl := v_is_freq_ctl\<rparr> = padded xs ps qs n (s\<lparr>is_freq_ctl := v_is_freq_ctl\<rparr>)"
  "(padded xs ps qs n s)\<lparr>ps_freq_ctl := v_ps_freq_ctl\<rparr> = padded xs ps qs n (s\<lparr>ps_freq_ctl := v_ps_freq_ctl\<rparr>)"
  "(padded xs ps qs n s)\<lparr>is_powered := v_is_powered\<rparr> = padded xs ps qs n (s\<lparr>is_powered := v_is_powered\<rparr>)"
  "(padded xs ps qs n s)\<lparr>ps_powered := v_ps_powered\<rparr> = padded xs ps qs n (s\<lparr>ps_powered := v_ps_powered\<rparr>)"
  "(padded xs ps qs n s)\<lparr>fabric_cmd := v_fabric_cmd\<rparr> = padded xs ps qs n (s\<lparr>fabric_cmd := v_fabric_cmd\<rparr>)"
  "(padded xs ps qs n s)\<lparr>pwr_state := v_pwr_state\<rparr> = padded xs ps qs n (s\<lparr>pwr_state := v_pwr_state\<rparr>)"
  "(padded xs ps qs n s)\<lparr>isr_enable := v_isr_enable\<rparr> = padded xs ps qs n (s\<lparr>isr_enable := v_isr_enable\<rparr>)"
  "(padded xs ps qs n s)\<lparr>isr_status := v_isr_status\<rparr> = padded xs ps qs n (s\<lparr>isr_status := v_isr_status\<rparr>)"
  "(padded xs ps qs n s)\<lparr>fw_src_lo := v_fw_src_lo\<rparr> = padded xs ps qs n (s\<lparr>fw_src_lo := v_fw_src_lo\<rparr>)"
  "(padded xs ps qs n s)\<lparr>fw_src_hi := v_fw_src_hi\<rparr> = padded xs ps qs n (s\<lparr>fw_src_hi := v_fw_src_hi\<rparr>)"
  "(padded xs ps qs n s)\<lparr>fw_src_size := v_fw_src_size\<rparr> = padded xs ps qs n (s\<lparr>fw_src_size := v_fw_src_size\<rparr>)"
  "(padded xs ps qs n s)\<lparr>security_ctl := v_security_ctl\<rparr> = padded xs ps qs n (s\<lparr>security_ctl := v_security_ctl\<rparr>)"
  "(padded xs ps qs n s)\<lparr>iu2cse_csr := v_iu2cse_csr\<rparr> = padded xs ps qs n (s\<lparr>iu2cse_csr := v_iu2cse_csr\<rparr>)"
  "(padded xs ps qs n s)\<lparr>cse2iu_csr := v_cse2iu_csr\<rparr> = padded xs ps qs n (s\<lparr>cse2iu_csr := v_cse2iu_csr\<rparr>)"
  "(padded xs ps qs n s)\<lparr>cse2iu_data0 := v_cse2iu_data0\<rparr> = padded xs ps qs n (s\<lparr>cse2iu_data0 := v_cse2iu_data0\<rparr>)"
  "(padded xs ps qs n s)\<lparr>is_unispart_irq_edge := v_is_unispart_irq_edge\<rparr> = padded xs ps qs n (s\<lparr>is_unispart_irq_edge := v_is_unispart_irq_edge\<rparr>)"
  "(padded xs ps qs n s)\<lparr>is_unispart_irq_mask := v_is_unispart_irq_mask\<rparr> = padded xs ps qs n (s\<lparr>is_unispart_irq_mask := v_is_unispart_irq_mask\<rparr>)"
  "(padded xs ps qs n s)\<lparr>is_unispart_irq_status := v_is_unispart_irq_status\<rparr> = padded xs ps qs n (s\<lparr>is_unispart_irq_status := v_is_unispart_irq_status\<rparr>)"
  "(padded xs ps qs n s)\<lparr>is_unispart_irq_enable := v_is_unispart_irq_enable\<rparr> = padded xs ps qs n (s\<lparr>is_unispart_irq_enable := v_is_unispart_irq_enable\<rparr>)"
  "(padded xs ps qs n s)\<lparr>is_unispart_irq_level_not_pulse := v_is_unispart_irq_level_not_pulse\<rparr> = padded xs ps qs n (s\<lparr>is_unispart_irq_level_not_pulse := v_is_unispart_irq_level_not_pulse\<rparr>)"
  "(padded xs ps qs n s)\<lparr>is_unispart_sw_irq_mux := v_is_unispart_sw_irq_mux\<rparr> = padded xs ps qs n (s\<lparr>is_unispart_sw_irq_mux := v_is_unispart_sw_irq_mux\<rparr>)"
  "(padded xs ps qs n s)\<lparr>is_spc_status_ctrl := v_is_spc_status_ctrl\<rparr> = padded xs ps qs n (s\<lparr>is_spc_status_ctrl := v_is_spc_status_ctrl\<rparr>)"
  "(padded xs ps qs n s)\<lparr>ps_spc_status_ctrl := v_ps_spc_status_ctrl\<rparr> = padded xs ps qs n (s\<lparr>ps_spc_status_ctrl := v_ps_spc_status_ctrl\<rparr>)"
  "(padded xs ps qs n s)\<lparr>is_mmu_l1_pfn := v_is_mmu_l1_pfn\<rparr> = padded xs ps qs n (s\<lparr>is_mmu_l1_pfn := v_is_mmu_l1_pfn\<rparr>)"
  "(padded xs ps qs n s)\<lparr>syscom_config_iova := v_syscom_config_iova\<rparr> = padded xs ps qs n (s\<lparr>syscom_config_iova := v_syscom_config_iova\<rparr>)"
  "(padded xs ps qs n s)\<lparr>is_recv_q := v_is_recv_q\<rparr> = padded xs ps qs n (s\<lparr>is_recv_q := v_is_recv_q\<rparr>)"
  "(padded xs ps qs n s)\<lparr>is_recv_q_loaded := v_is_recv_q_loaded\<rparr> = padded xs ps qs n (s\<lparr>is_recv_q_loaded := v_is_recv_q_loaded\<rparr>)"
  "(padded xs ps qs n s)\<lparr>csi2 := v_csi2 @ ps\<rparr> = padded xs ps qs n (s\<lparr>csi2 := v_csi2\<rparr>)"
  "(padded xs ps qs n s)\<lparr>is_dmem := v_is_dmem @ xs\<rparr> = padded xs ps qs n (s\<lparr>is_dmem := v_is_dmem\<rparr>)"
  "(padded xs ps qs n s)\<lparr>is_mmu := v_is_mmu @ xs\<rparr> = padded xs ps qs n (s\<lparr>is_mmu := v_is_mmu\<rparr>)"
  "(padded xs ps qs n s)\<lparr>ps_mmu := v_ps_mmu @ xs\<rparr> = padded xs ps qs n (s\<lparr>ps_mmu := v_ps_mmu\<rparr>)"
  "(padded xs ps qs n s)\<lparr>is_send_q := v_is_send_q @ qs\<rparr> = padded xs ps qs n (s\<lparr>is_send_q := v_is_send_q\<rparr>)"
  "(padded xs ps qs n s)\<lparr>is_send_q_loaded := v_is_send_q_loaded @ replicate n False\<rparr> = padded xs ps qs n (s\<lparr>is_send_q_loaded := v_is_send_q_loaded\<rparr>)"
  "(padded xs ps qs n s)\<lparr>is_send_wr_seen := v_is_send_wr_seen @ replicate n 0\<rparr> = padded xs ps qs n (s\<lparr>is_send_wr_seen := v_is_send_wr_seen\<rparr>)"
  by (simp_all add: padded_def)

named_theorems pad_simps \<open>operations of the device with memory behind its arrays\<close>

lemma pad_walk [pad_simps]: "ipu4_iova_to_phys env (padded xs ps qs n s) = ipu4_iova_to_phys env s"
  by (simp add: ipu4_iova_to_phys_def fun_eq_iff)

lemma pad_dma [pad_simps]:
  "ipu4_dma_read_iova env (padded xs ps qs n s) = ipu4_dma_read_iova env s"
  "ipu4_dma_write_iova env (padded xs ps qs n s) = ipu4_dma_write_iova env s"
  "ipu4_load_queue_desc env (padded xs ps qs n s) = ipu4_load_queue_desc env s"
  by (simp_all add: ipu4_dma_read_iova_def ipu4_dma_write_iova_def ipu4_load_queue_desc_def pad_walk fun_eq_iff)

lemma pad_pattern [pad_simps]:
  "ipu4_dma_write_iova_pattern env (padded xs ps qs n s) b tot seq off m = ipu4_dma_write_iova_pattern env s b tot seq off m"
proof (induction env s b tot seq off m rule: ipu4_dma_write_iova_pattern.induct)
  case (1 env s b tot seq off m)
  then show ?case
    by (subst (1 2) ipu4_dma_write_iova_pattern.simps) (simp add: pad_walk Let_def split: option.splits)
qed

lemmas pad_lists = nth_append list_update_append1 wf_ipu4_def

lemma pad_get_send_queue [pad_simps]:
  "wf_ipu4 (fst d) \<Longrightarrow> ipu4_get_send_queue env k (apfst (padded xs ps qs n) d) =
     apsnd (apfst (padded xs ps qs n)) (ipu4_get_send_queue env k d)"
  by (cases d) (auto simp: ipu4_get_send_queue_def pad_dma pad_lists split: option.splits)

lemma pad_get_recv_queue [pad_simps]:
  "ipu4_get_recv_queue env (apfst (padded xs ps qs n) d) = apsnd (apfst (padded xs ps qs n)) (ipu4_get_recv_queue env d)"
  by (cases d) (auto simp: ipu4_get_recv_queue_def pad_dma split: option.splits)

lemma pad_post [pad_simps]:
  assumes "wf_ipu4 (fst d)"
  shows "ipu4_post_response_full env resp (apfst (padded xs ps qs n) d) =
    apfst (padded xs ps qs n) (ipu4_post_response_full env resp d)"
proof -
  obtain q s m where g: "ipu4_get_recv_queue env d = (q, s, m)" by (metis prod_cases3)
  have wf: "wf_ipu4 s" using wf_get_recv_queue [OF assms, of env] g by simp
  have idx: "unat (q_wr_reg rq) < 64" if "\<not> 64 \<le> q_wr_reg rq" for rq :: Ipu4FwSysQueue
    using that by (simp add: word_le_nat_alt)
  show ?thesis
    using g wf idx
    by (auto simp: ipu4_post_response_full_def pad_get_recv_queue pad_dma pad_lists Let_def split: option.splits)
qed

lemma pad_posts [pad_simps]:
  assumes "wf_ipu4 (fst d)"
  shows "ipu4_post_response env ty h (apfst (padded xs ps qs n) d) = apfst (padded xs ps qs n) (ipu4_post_response env ty h d)"
    and "ipu4_post_pin_data_ready env h i a b (apfst (padded xs ps qs n) d) =
      apfst (padded xs ps qs n) (ipu4_post_pin_data_ready env h i a b d)"
  by (simp_all add: ipu4_post_response_def ipu4_post_pin_data_ready_def pad_post [OF assms])

lemma pad_deliver_pins [pad_simps]:
  "wf_ipu4 (fst d) \<Longrightarrow> deliver_pins env stream i pins (apfst (padded xs ps qs n) d) =
     apfst (padded xs ps qs n) (deliver_pins env stream i pins d)"
proof (induction pins arbitrary: i d)
  case (Cons p pins)
  obtain s m where d: "d = (s, m)" by fastforce
  let ?m = "ipu4_dma_write_iova_pattern env s (pin_addr p) IPU4_FRAME_PATTERN_BYTES 0 0 m"
  have wf: "wf_ipu4 (fst (s, ?m))" using Cons.prems d by simp
  have "wf_ipu4 (fst (ipu4_post_pin_data_ready env stream (word_of_nat i) (pin_addr p) (out_buf_id p) (s, ?m)))"
    using wf by (simp add: ipu4_post_pin_data_ready_def wf_post_response_full)
  with Cons.IH Cons.IH [OF Cons.prems, of "Suc i"] show ?case
    using pad_posts(2) [OF wf, of env stream "word_of_nat i" "pin_addr p" "out_buf_id p" xs ps qs n]
    by (simp add: d pad_pattern)
qed simp

lemma pad_deliver_frame [pad_simps]:
  assumes "wf_ipu4 (fst d)"
  shows "ipu4_deliver_frame env stream a (apfst (padded xs ps qs n) d) = apfst (padded xs ps qs n) (ipu4_deliver_frame env stream a d)"
proof -
  obtain s m where d: "d = (s, m)" by fastforce
  define s1 where "s1 = s\<lparr>csi2 := (csi2 s)[0 := (csi2 s ! 0)\<lparr>part_status := part_status (csi2 s ! 0) OR CSI2_PART_IRQ_FS_VC0\<rparr>],
    is_unispart_irq_status := is_unispart_irq_status s OR ISYS_UNISPART_IRQ_CSI2_PORT0\<rparr>"
  have wf: "wf_ipu4 (fst (s1, m))" using assms d by (simp add: s1_def)
  let ?post = "ipu4_post_response_full env (zero_resp\<lparr>resp_type := IPU4_FW_RESP_FRAME_SOF, stream_handle := stream\<rparr>)"
  have post: "?post (padded xs ps qs n s1, m) = apfst (padded xs ps qs n) (?post (s1, m))"
    using pad_post [OF wf] by simp
  have "0 < length (csi2 s)" using assms d by (simp add: wf_ipu4_def)
  then have "(padded xs ps qs n s)\<lparr>csi2 := (csi2 (padded xs ps qs n s))[0 := (csi2 (padded xs ps qs n s) ! 0)
        \<lparr>part_status := part_status (csi2 (padded xs ps qs n s) ! 0) OR CSI2_PART_IRQ_FS_VC0\<rparr>],
      is_unispart_irq_status := is_unispart_irq_status (padded xs ps qs n s) OR ISYS_UNISPART_IRQ_CSI2_PORT0\<rparr> =
    padded xs ps qs n s1"
    by (simp add: s1_def nth_append list_update_append1)
  then show ?thesis
    by (cases "ipu4_dma_read_iova env s m a 96")
      (simp_all only: d apfst_conv ipu4_deliver_frame_def prod.case Let_def pad_dma option.case post s1_def [symmetric]
        pad_deliver_pins [OF wf_post_response_full [OF wf]])
qed

lemma pad_handle_send_token [pad_simps]:
  assumes "wf_ipu4 (fst d)"
  shows "handle_send_token env stream tok (apfst (padded xs ps qs n) d) = apfst (padded xs ps qs n) (handle_send_token env stream tok d)"
proof -
  have "wf_ipu4 (fst (ipu4_post_response env ty h d))" for ty h
    using assms by (simp add: ipu4_post_response_def wf_post_response_full)
  then show ?thesis
    using assms by (simp add: handle_send_token_def Let_def pad_posts pad_deliver_frame)
qed

lemma pad_handle_pushed [pad_simps]:
  "wf_ipu4 (fst d) \<Longrightarrow> handle_pushed env stream q k slot (apfst (padded xs ps qs n) d) =
     apfst (padded xs ps qs n) (handle_pushed env stream q k slot d)"
proof (induction k arbitrary: slot d)
  case (Suc k)
  obtain s m where d: "d = (s, m)" by fastforce
  show ?case
    using Suc.prems Suc.IH [OF Suc.prems] Suc.IH [OF wf_handle_send_token [OF Suc.prems]] pad_handle_send_token [OF Suc.prems]
    by (simp add: d Let_def pad_dma split: option.splits)
qed simp

lemma pad_handle_send_bump [pad_simps]:
  assumes "wf_ipu4 (fst d)" "k < 8"
  shows "ipu4_handle_send_bump env k v (apfst (padded xs ps qs n) d) = apfst (padded xs ps qs n) (ipu4_handle_send_bump env k v d)"
proof -
  obtain q s m where g: "ipu4_get_send_queue env k d = (q, s, m)" by (metis prod_cases3)
  have wf: "wf_ipu4 s" using wf_get_send_queue [OF assms(1), of env k] g by simp
  then have k: "k < length (is_send_wr_seen s)" using assms(2) by (simp add: wf_ipu4_def)
  have "wf_ipu4 (fst (s\<lparr>is_send_wr_seen := (is_send_wr_seen s)[k := v]\<rparr>, m))" using wf by simp
  note pushed = pad_handle_pushed [OF this, of env k _ _ _ xs ps qs n, simplified]
  show ?thesis
    using k by (simp add: ipu4_handle_send_bump_def pad_get_send_queue [OF assms(1)] g nth_append list_update_append1
        Let_def pushed split: option.split)
qed

text \<open>The registers of the three windows.\<close>

lemma window_bounds:
  "IS_DMEM_BASE \<le> addr \<Longrightarrow> addr < IS_DMEM_BASE + IS_DMEM_SIZE \<Longrightarrow> unat ((addr - IS_DMEM_BASE) div 4) < 64"
  "IS_MMU_BASE \<le> addr \<Longrightarrow> addr < IS_MMU_BASE + IS_MMU_SIZE \<Longrightarrow> unat ((addr - IS_MMU_BASE) div 4) < 320"
  "PS_MMU_BASE \<le> addr \<Longrightarrow> addr < PS_MMU_BASE + PS_MMU_SIZE \<Longrightarrow> unat ((addr - PS_MMU_BASE) div 4) < 640"
  using window_index_bound [of IS_DMEM_BASE addr IS_DMEM_SIZE 64] window_index_bound [of IS_MMU_BASE addr IS_MMU_SIZE 320]
    window_index_bound [of PS_MMU_BASE addr PS_MMU_SIZE 640]
  by (simp_all add: ipu4_consts)

lemma pad_dmem_write [pad_simps]:
  assumes "wf_ipu4 (fst d)" "IS_DMEM_BASE \<le> addr" "addr < IS_DMEM_BASE + IS_DMEM_SIZE"
  shows "dmem_write env v addr (apfst (padded xs ps qs n) d) = apfst (padded xs ps qs n) (dmem_write env v addr d)"
proof -
  obtain s m where d: "d = (s, m)" by fastforce
  define reg where "reg = unat ((addr - IS_DMEM_BASE) div 4)"
  have "reg < 64" unfolding reg_def by (rule window_bounds(1) [OF assms(2,3)])
  then have r: "reg < length (is_dmem s)" using assms(1) d by (simp add: wf_ipu4_def)
  define upd :: "Ipu4State \<Rightarrow> Ipu4State" where "upd = (\<lambda>s. let
      s1 = (if reg = 1
                then s\<lparr>syscom_config_iova := v,
                       is_send_q_loaded := map (\<lambda>_. False) (is_send_q_loaded s),
                       is_recv_q_loaded := False,
                       is_send_wr_seen := map (\<lambda>_. 0) (is_send_wr_seen s)\<rparr>
                else s);
          s2 = (if reg = 2 \<and> v = SYSCOM_STATE_UNINIT
                then s1\<lparr>is_send_wr_seen := map (\<lambda>_. 0) (is_send_wr_seen s1)\<rparr>
                else s1) in s2\<lparr>is_dmem := (is_dmem s2)[reg := v]\<rparr>)"
  have u: "upd (padded xs ps qs n s) = padded xs ps qs n (upd s)" "wf_ipu4 (fst (upd s, m))"
    using r assms(1) d by (simp_all add: upd_def Let_def list_update_append1)
  have w: "dmem_write env v addr (s', m) =
      (if reg \<ge> 10 \<and> reg < 10 + 8 * 2 \<and> (reg - 10) mod 2 = 0
       then ipu4_handle_send_bump env ((reg - 10) div 2) v (upd s', m) else (upd s', m))" for s'
    by (simp add: dmem_write_def Let_def reg_def upd_def)
  show ?thesis
    using pad_handle_send_bump [OF u(2), of "(reg - 10) div 2" env v xs ps qs n] by (auto simp: d w u(1))
qed

lemma pad_window_write [pad_simps]:
  assumes "wf_ipu4 (fst d)"
  shows "window_write env v addr (apfst (padded xs ps qs n) d) = apfst (padded xs ps qs n) (window_write env v addr d)"
proof -
  obtain s m where d: "d = (s, m)" by fastforce
  let ?P = "padded xs ps qs n"
  define A where "A \<longleftrightarrow> addr \<ge> IS_DMEM_BASE \<and> addr < IS_DMEM_BASE + IS_DMEM_SIZE"
  define B where "B \<longleftrightarrow> addr \<ge> IS_MMU_BASE \<and> addr < IS_MMU_BASE + IS_MMU_SIZE"
  define C where "C \<longleftrightarrow> addr \<ge> PS_MMU_BASE \<and> addr < PS_MMU_BASE + PS_MMU_SIZE"
  note abc = A_def [symmetric] B_def [symmetric] C_def [symmetric]
  define i where "i = unat ((addr - IS_MMU_BASE) div 4)"
  define j where "j = unat ((addr - PS_MMU_BASE) div 4)"
  have dm: "A \<Longrightarrow> dmem_write env v addr (?P s, m) = apfst ?P (dmem_write env v addr (s, m))"
    using pad_dmem_write [OF assms, of addr env v xs ps qs n] by (simp add: A_def d)
  have "B \<Longrightarrow> i < length (is_mmu s)" "C \<Longrightarrow> j < length (ps_mmu s)" "ipu4_csi2_resolve addr = Some (q, off) \<Longrightarrow> q < length (csi2 s)" for q off
    using window_bounds [of addr] csi2_resolve_bounds [of addr q off] assms d by (simp_all add: B_def C_def i_def j_def wf_ipu4_def)
  then show ?thesis
    using dm
    by (cases A; cases B; cases C)
      (auto simp: d window_write_def abc i_def [symmetric] j_def [symmetric] Let_def nth_append list_update_append1 split: option.splits)
qed

lemma pad_window_read [pad_simps]:
  assumes "wf_ipu4 s"
  shows "window_read (padded xs ps qs n s) addr = window_read s addr"
proof -
  define A where "A \<longleftrightarrow> addr \<ge> IS_DMEM_BASE \<and> addr < IS_DMEM_BASE + IS_DMEM_SIZE"
  define B where "B \<longleftrightarrow> addr \<ge> IS_MMU_BASE \<and> addr < IS_MMU_BASE + IS_MMU_SIZE"
  define C where "C \<longleftrightarrow> addr \<ge> PS_MMU_BASE \<and> addr < PS_MMU_BASE + PS_MMU_SIZE"
  note abc = A_def [symmetric] B_def [symmetric] C_def [symmetric]
  define h where "h = unat ((addr - IS_DMEM_BASE) div 4)"
  define i where "i = unat ((addr - IS_MMU_BASE) div 4)"
  define j where "j = unat ((addr - PS_MMU_BASE) div 4)"
  define w where "w = unat ((IS_DMEM_FW_COM_SEND_WR_POS - IS_DMEM_BASE) div 4)"
  have "w < 64" by (simp add: w_def ipu4_consts)
  moreover have "A \<Longrightarrow> h < 64" "B \<Longrightarrow> i < 320" "C \<Longrightarrow> j < 640"
    using window_bounds [of addr] by (simp_all add: A_def B_def C_def h_def i_def j_def)
  moreover have "length (is_dmem s) = 64" "length (is_mmu s) = 320" "length (ps_mmu s) = 640" "length (csi2 s) = 6"
    using assms by (simp_all add: wf_ipu4_def)
  ultimately show ?thesis
    using csi2_resolve_bounds [of addr]
    by (cases A; cases B; cases C)
      (simp_all add: window_read_def abc h_def [symmetric] i_def [symmetric] j_def [symmetric] w_def [symmetric] nth_append split: option.split)
qed



end
