(* ===== verification/Mmu_Pagetable.thy ===== *)
theory Mmu_Pagetable
  imports Ipu4_Prelude
begin

unbundle bit_operations_syntax

text \<open>
  The page tables of the IPU MMU, \<^verbatim>\<open>kernel/ipu4/ipu6-mmu.c\<close>: a first-level table of 1024
  entries, second-level tables allocated on demand, and a dummy page and dummy table behind
  everything that is not mapped. Mapping, unmapping and translation are the code's loops on
  64-bit words; the lemmas relate them to a function from page numbers to entries.
\<close>

section \<open>Constants and state\<close>

definition ISP_PAGE_SHIFT :: nat where [ipu4_consts]: "ISP_PAGE_SHIFT = 12"
definition ISP_PAGE_SIZE :: u64 where [ipu4_consts]: "ISP_PAGE_SIZE = 0x1000"
definition ISP_PAGE_MASK :: u64 where [ipu4_consts]: "ISP_PAGE_MASK = NOT (ISP_PAGE_SIZE - 1)"
definition ISP_L1PT_SHIFT :: nat where [ipu4_consts]: "ISP_L1PT_SHIFT = 22"
definition ISP_L1PT_MASK :: u32 where [ipu4_consts]: "ISP_L1PT_MASK = NOT ((push_bit ISP_L1PT_SHIFT 1) - 1)"
definition ISP_L2PT_SHIFT :: nat where [ipu4_consts]: "ISP_L2PT_SHIFT = 12"
definition ISP_L2PT_MASK :: u64 where [ipu4_consts]: "ISP_L2PT_MASK = NOT (ucast ISP_L1PT_MASK OR NOT ISP_PAGE_MASK)"
definition ISP_L1PT_PTES :: nat where [ipu4_consts]: "ISP_L1PT_PTES = 1024"
definition ISP_L2PT_PTES :: nat where [ipu4_consts]: "ISP_L2PT_PTES = 1024"
definition ISP_PADDR_SHIFT :: nat where [ipu4_consts]: "ISP_PADDR_SHIFT = 12"

definition TBL_PHYS_ADDR :: "u32 \<Rightarrow> u64" where
  "TBL_PHYS_ADDR a = push_bit ISP_PADDR_SHIFT (ucast a)"

text \<open>
  The tables. A second-level table that was never allocated is \<open>None\<close>, the NULL pointer of
  \<^verbatim>\<open>l2_pts\<close>. The dummy second-level table holds the dummy page's entry everywhere.
\<close>

record ipu6_mmu_info =
  l1_pt :: "u32 list"
  l1_pt_dma :: u32
  l2_pts :: "u32 list option list"
  dummy_l2_pt :: "u32 list"
  dummy_l2_pteval :: u32
  dummy_page_pteval :: u32
  aperture_start :: u64
  aperture_end :: u64
  pgsize_bitmap :: u64

text \<open>
  What the tables need of the kernel: \<^verbatim>\<open>get_zeroed_page\<close> succeeds or fails, and
  \<^verbatim>\<open>map_single\<close> (\<^verbatim>\<open>dma_map_single\<close> with its error check) gives a page's bus address, 0 on
  failure; \<^verbatim>\<open>vzalloc\<close> of the table of pointers succeeds or fails.
\<close>

record 's page_alloc =
  get_zeroed_page :: "'s \<Rightarrow> bool \<times> 's"
  map_single :: "'s \<Rightarrow> u64 \<times> 's"
  vzalloc_ok :: "'s \<Rightarrow> bool \<times> 's"

section \<open>Creating the tables\<close>

definition get_dummy_page :: "'s page_alloc \<Rightarrow> ipu6_mmu_info \<Rightarrow> 's \<Rightarrow> (ipu6_mmu_info res) \<times> 's" where
  "get_dummy_page al info s =
     (let (pt, s1) = get_zeroed_page al s in
      if \<not> pt then (Inl ENOMEM, s1)
      else
        let (dma, s2) = map_single al s1 in
        if dma = 0 then (Inl ENOMEM, s2)
        else (Inr (info\<lparr>dummy_page_pteval := ucast (drop_bit ISP_PAGE_SHIFT dma)\<rparr>), s2))"

definition alloc_dummy_l2_pt :: "'s page_alloc \<Rightarrow> ipu6_mmu_info \<Rightarrow> 's \<Rightarrow> (ipu6_mmu_info res) \<times> 's" where
  "alloc_dummy_l2_pt al info s =
     (let (pt, s1) = get_zeroed_page al s in
      if \<not> pt then (Inl ENOMEM, s1)
      else
        let (dma, s2) = map_single al s1 in
        if dma = 0 then (Inl ENOMEM, s2)
        else (Inr (info\<lparr>dummy_l2_pt := replicate ISP_L2PT_PTES (dummy_page_pteval info),
                        dummy_l2_pteval := ucast (drop_bit ISP_PAGE_SHIFT dma)\<rparr>), s2))"

definition alloc_l1_pt :: "'s page_alloc \<Rightarrow> ipu6_mmu_info \<Rightarrow> 's \<Rightarrow> (ipu6_mmu_info option) \<times> 's" where
  "alloc_l1_pt al info s =
     (let (pt, s1) = get_zeroed_page al s in
      if \<not> pt then (None, s1)
      else
        let (dma, s2) = map_single al s1 in
        if dma = 0 then (None, s2)
        else (Some (info\<lparr>l1_pt := replicate ISP_L1PT_PTES (dummy_l2_pteval info),
                         l1_pt_dma := ucast (drop_bit ISP_PADDR_SHIFT dma)\<rparr>), s2))"

definition alloc_l2_pt :: "'s page_alloc \<Rightarrow> ipu6_mmu_info \<Rightarrow> 's \<Rightarrow> (u32 list option) \<times> 's" where
  "alloc_l2_pt al info s =
     (let (pt, s1) = get_zeroed_page al s in
      (if pt then Some (replicate ISP_L1PT_PTES (dummy_page_pteval info)) else None, s1))"

definition IPU6_MMU_ADDR_BITS :: nat where [ipu4_consts]: "IPU6_MMU_ADDR_BITS = 32"
definition IPU6_MMU_ADDR_BITS_NON_SECURE :: nat where [ipu4_consts]: "IPU6_MMU_ADDR_BITS_NON_SECURE = 31"

text \<open>The zeroed structure, and \<^verbatim>\<open>ipu6_mmu_alloc\<close> with its error ladder.\<close>

definition zero_mmu_info :: ipu6_mmu_info where
  "zero_mmu_info = \<lparr>l1_pt = [], l1_pt_dma = 0, l2_pts = [], dummy_l2_pt = [], dummy_l2_pteval = 0,
     dummy_page_pteval = 0, aperture_start = 0, aperture_end = 0, pgsize_bitmap = 0\<rparr>"

definition ipu6_mmu_alloc :: "'s page_alloc \<Rightarrow> bool \<Rightarrow> bool \<Rightarrow> 's \<Rightarrow> (ipu6_mmu_info option) \<times> 's" where
  "ipu6_mmu_alloc al kzalloc_ok secure_mode s =
     (if \<not> kzalloc_ok then (None, s)
      else
        let info = zero_mmu_info\<lparr>aperture_start := 0,
              aperture_end := mask (if secure_mode then IPU6_MMU_ADDR_BITS
                                    else IPU6_MMU_ADDR_BITS_NON_SECURE),
              pgsize_bitmap := 0x1000\<rparr>
        in (case get_dummy_page al info s of
              (Inl e, s1) \<Rightarrow> (None, s1)
            | (Inr info1, s1) \<Rightarrow>
              (case alloc_dummy_l2_pt al info1 s1 of
                 (Inl e, s2) \<Rightarrow> (None, s2)
               | (Inr info2, s2) \<Rightarrow>
                 let (vz, s3) = vzalloc_ok al s2 in
                 if \<not> vz then (None, s3)
                 else alloc_l1_pt al (info2\<lparr>l2_pts := replicate ISP_L2PT_PTES None\<rparr>) s3)))"

section \<open>Mapping and unmapping\<close>

text \<open>The inner loop of unmapping: the entries from \<open>l2_idx\<close> on.\<close>

function l2_clear :: "u32 \<Rightarrow> u32 list \<Rightarrow> nat \<Rightarrow> u64 \<Rightarrow> u64 \<Rightarrow> u32 list \<times> u64 \<times> u64" where
  "l2_clear dummy pt l2_idx iova sz =
     (if sz > 0 \<and> l2_idx < ISP_L2PT_PTES
      then l2_clear dummy (pt[l2_idx := dummy]) (Suc l2_idx) (iova + ISP_PAGE_SIZE) (sz - ISP_PAGE_SIZE)
      else (pt, iova, sz))"
  by pat_completeness auto
termination
  by (relation "measure (\<lambda>(d, pt, i, iova, sz). ISP_L2PT_PTES - i)") auto

declare l2_clear.simps [simp del]

definition l2_first :: "u64 \<Rightarrow> nat" where
  "l2_first iova = unat (ucast (drop_bit ISP_L2PT_SHIFT (iova AND ISP_L2PT_MASK)) :: u32)"

text \<open>
  The outer loop of unmapping, over the first-level entries. An entry that holds the dummy
  table is skipped without advancing the address or the size, as in the code. A NULL table
  behind any other entry would be a page fault; the model leaves the state alone there.
\<close>

function l2_unmap_loop :: "nat \<Rightarrow> u64 \<Rightarrow> u64 \<Rightarrow> ipu6_mmu_info \<Rightarrow> ipu6_mmu_info" where
  "l2_unmap_loop l1_idx iova sz info =
     (if sz > 0 \<and> l1_idx < ISP_L1PT_PTES
      then
        if l1_pt info ! l1_idx = dummy_l2_pteval info
        then l2_unmap_loop (Suc l1_idx) iova sz info
        else (case l2_pts info ! l1_idx of
                None \<Rightarrow> info
              | Some pt \<Rightarrow>
                (case l2_clear (dummy_page_pteval info) pt (l2_first iova) iova sz of
                   (pt', iova', sz') \<Rightarrow>
                     l2_unmap_loop (Suc l1_idx) iova' sz'
                       (info\<lparr>l2_pts := (l2_pts info)[l1_idx := Some pt']\<rparr>)))
      else info)"
  by pat_completeness auto
termination
  by (relation "measure (\<lambda>(i, iova, sz, info). ISP_L1PT_PTES - i)") auto

declare l2_unmap_loop.simps [simp del]

definition l1_first :: "u64 \<Rightarrow> nat" where
  "l1_first iova = unat (ucast (drop_bit ISP_L1PT_SHIFT iova) :: u32)"

definition l2_unmap :: "ipu6_mmu_info \<Rightarrow> u64 \<Rightarrow> u64 \<Rightarrow> ipu6_mmu_info" where
  "l2_unmap info iova sz = l2_unmap_loop (l1_first iova) iova sz info"

text \<open>The inner loop of mapping.\<close>

function l2_fill ::
  "u32 list \<Rightarrow> nat \<Rightarrow> u64 \<Rightarrow> u64 \<Rightarrow> u64 \<Rightarrow> u64 \<Rightarrow> u32 list \<times> u64 \<times> u64 \<times> u64 \<times> u64" where
  "l2_fill pt l2_idx iova paddr mapped sz =
     (if sz > 0 \<and> l2_idx < ISP_L2PT_PTES
      then l2_fill (pt[l2_idx := ucast (drop_bit ISP_PADDR_SHIFT paddr)]) (Suc l2_idx)
             (iova + ISP_PAGE_SIZE) (paddr + ISP_PAGE_SIZE) (mapped + ISP_PAGE_SIZE) (sz - ISP_PAGE_SIZE)
      else (pt, iova, paddr, mapped, sz))"
  by pat_completeness auto
termination
  by (relation "measure (\<lambda>(pt, i, iova, paddr, mapped, sz). ISP_L2PT_PTES - i)") auto

declare l2_fill.simps [simp del]

text \<open>The second-level table of a first-level entry, allocated and mapped when missing.\<close>

definition l2_table ::
  "'s page_alloc \<Rightarrow> nat \<Rightarrow> ipu6_mmu_info \<Rightarrow> 's \<Rightarrow> errno option \<times> ipu6_mmu_info \<times> 's" where
  "l2_table al l1_idx info s =
     (if l1_pt info ! l1_idx = dummy_l2_pteval info
      then
        (case (case l2_pts info ! l1_idx of
                 Some pt \<Rightarrow> (Some pt, s)
               | None \<Rightarrow> alloc_l2_pt al info s) of
           (None, s1) \<Rightarrow> (Some ENOMEM, info, s1)
         | (Some l2_virt, s1) \<Rightarrow>
           let (dma, s2) = map_single al s1 in
           if dma = 0 then (Some EINVAL, info, s2)
           else (None, info\<lparr>l1_pt := (l1_pt info)[l1_idx := ucast (drop_bit ISP_PADDR_SHIFT dma)],
                            l2_pts := (l2_pts info)[l1_idx := Some l2_virt]\<rparr>, s2))
      else (None, info, s))"

text \<open>
  The outer loop of mapping: the error if any, the address, the physical address and the
  bytes mapped when it stopped, and the state. A NULL table behind a live entry would fault
  (\<open>EFAULT\<close>); the invariant below excludes it.
\<close>

function l2_map_loop ::
  "'s page_alloc \<Rightarrow> nat \<Rightarrow> u64 \<Rightarrow> u64 \<Rightarrow> u64 \<Rightarrow> u64 \<Rightarrow> ipu6_mmu_info \<Rightarrow> 's
   \<Rightarrow> (errno option \<times> u64 \<times> u64 \<times> u64) \<times> ipu6_mmu_info \<times> 's" where
  "l2_map_loop al l1_idx iova paddr mapped sz info s =
     (if sz > 0 \<and> l1_idx < ISP_L1PT_PTES
      then
        (case l2_table al l1_idx info s of
           (Some e, info1, s1) \<Rightarrow> ((Some e, iova, paddr, mapped), info1, s1)
         | (None, info1, s1) \<Rightarrow>
           (case l2_pts info1 ! l1_idx of
              None \<Rightarrow> ((Some EFAULT, iova, paddr, mapped), info1, s1)
            | Some pt \<Rightarrow>
              (case l2_fill pt (l2_first iova) iova paddr mapped sz of
                 (pt', iova', paddr', mapped', sz') \<Rightarrow>
                   l2_map_loop al (Suc l1_idx) iova' paddr' mapped' sz'
                     (info1\<lparr>l2_pts := (l2_pts info1)[l1_idx := Some pt']\<rparr>) s1)))
      else ((None, iova, paddr, mapped), info, s))"
  by pat_completeness auto
termination
  by (relation "measure (\<lambda>(al, i, iova, paddr, mapped, sz, info, s). ISP_L1PT_PTES - i)") auto

declare l2_map_loop.simps [simp del]

definition ALIGN_PAGE :: "u64 \<Rightarrow> u64" where
  "ALIGN_PAGE a = (a + (ISP_PAGE_SIZE - 1)) AND NOT (ISP_PAGE_SIZE - 1)"

definition l2_map ::
  "'s page_alloc \<Rightarrow> ipu6_mmu_info \<Rightarrow> u64 \<Rightarrow> u64 \<Rightarrow> u64 \<Rightarrow> 's \<Rightarrow> unit res \<times> ipu6_mmu_info \<times> 's" where
  "l2_map al info iova paddr sz s =
     (case l2_map_loop al (l1_first iova) iova (ALIGN_PAGE paddr) 0 sz info s of
        ((None, _, _, _), info1, s1) \<Rightarrow> (ok, info1, s1)
      | ((Some e, iova1, paddr1, mapped), info1, s1) \<Rightarrow>
          (Inl e, if mapped \<noteq> 0 then l2_unmap info1 (iova1 - mapped) mapped else info1, s1))"

definition mmu_map_inner ::
  "'s page_alloc \<Rightarrow> ipu6_mmu_info \<Rightarrow> u64 \<Rightarrow> u64 \<Rightarrow> u64 \<Rightarrow> 's \<Rightarrow> unit res \<times> ipu6_mmu_info \<times> 's" where
  "mmu_map_inner al info iova paddr sz s =
     (let iova_start = ucast (iova AND NOT (ISP_PAGE_SIZE - 1)) :: u32
      in l2_map al info (ucast iova_start) paddr sz s)"

definition mmu_unmap_inner :: "ipu6_mmu_info \<Rightarrow> u64 \<Rightarrow> u64 \<Rightarrow> ipu6_mmu_info" where
  "mmu_unmap_inner info iova sz = l2_unmap info iova sz"

text \<open>\<^verbatim>\<open>__ffs\<close> on a nonzero word, and the alignment test of the two entry points.\<close>

definition ffs :: "u64 \<Rightarrow> nat" where
  "ffs w = length (takeWhile (\<lambda>i. \<not> bit w i) [0..<64])"

definition is_aligned :: "u64 \<Rightarrow> u32 \<Rightarrow> bool" where
  "is_aligned x a \<longleftrightarrow> x AND (ucast a - 1) = 0"

definition ipu6_mmu_unmap :: "ipu6_mmu_info \<Rightarrow> u64 \<Rightarrow> u64 \<Rightarrow> ipu6_mmu_info" where
  "ipu6_mmu_unmap info iova sz =
     (let min_pagesz = push_bit (ffs (pgsize_bitmap info)) 1 :: u32 in
      if \<not> is_aligned (iova OR sz) min_pagesz then info
      else mmu_unmap_inner info iova sz)"

definition ipu6_mmu_map ::
  "'s page_alloc \<Rightarrow> ipu6_mmu_info \<Rightarrow> u64 \<Rightarrow> u64 \<Rightarrow> u64 \<Rightarrow> 's \<Rightarrow> unit res \<times> ipu6_mmu_info \<times> 's" where
  "ipu6_mmu_map al info iova paddr sz s =
     (if pgsize_bitmap info = 0 then (Inl ENODEV, info, s)
      else
        let min_pagesz = push_bit (ffs (pgsize_bitmap info)) 1 :: u32 in
        if \<not> is_aligned (iova OR paddr OR sz) min_pagesz then (Inl EINVAL, info, s)
        else mmu_map_inner al info iova paddr sz s)"

text \<open>
  Translation. The code reads through the table pointer without looking at it; \<open>None\<close> is
  the access through a NULL pointer or beyond the table of pointers.
\<close>

definition ipu6_mmu_iova_to_phys :: "ipu6_mmu_info \<Rightarrow> u64 \<Rightarrow> u64 option" where
  "ipu6_mmu_iova_to_phys info iova =
     (let i = unat (drop_bit ISP_L1PT_SHIFT iova);
          j = unat (drop_bit ISP_L2PT_SHIFT (iova AND ISP_L2PT_MASK)) in
      if i < length (l2_pts info)
      then (case l2_pts info ! i of
              None \<Rightarrow> None
            | Some pt \<Rightarrow> if j < length pt then Some (push_bit ISP_PAGE_SHIFT (ucast (pt ! j))) else None)
      else None)"

section \<open>Pages\<close>

text \<open>The byte address of a page number, and the arithmetic the loops do on it.\<close>

definition page :: "nat \<Rightarrow> u64" where
  "page n = word_of_nat (4096 * n)"

lemma page_0 [simp]: "page 0 = 0"
  by (simp add: page_def)

lemma page_add: "page a + page b = page (a + b)"
  by (simp add: page_def distrib_left)

lemma page_Suc: "page a + ISP_PAGE_SIZE = page (Suc a)"
  by (simp add: page_def ISP_PAGE_SIZE_def)

lemma page_diff:
  assumes "b \<le> a"
  shows "page a - page b = page (a - b)"
proof -
  have "page a = page (a - b) + page b" using assms by (simp add: page_add)
  then show ?thesis by simp
qed

lemma page_pred: "page (Suc a) - ISP_PAGE_SIZE = page a"
  by (simp flip: page_Suc)

lemma unat_page: "a < 2 ^ 52 \<Longrightarrow> unat (page a) = 4096 * a"
  unfolding page_def by (rule unat_of_nat_u64) simp

lemma page_pos: "a < 2 ^ 52 \<Longrightarrow> page a > 0 \<longleftrightarrow> a > 0"
  by (simp add: word_less_nat_alt unat_page)

lemma page_eq_0: "a < 2 ^ 52 \<Longrightarrow> page a = 0 \<longleftrightarrow> a = 0"
  using unat_page [of a] by (auto simp: word_unat_eq_iff)

lemma drop_page: "a < 2 ^ 52 \<Longrightarrow> drop_bit 12 (page a) = word_of_nat a"
  by (simp add: word_unat_eq_iff unat_drop_bit unat_page unat_of_nat_u64)

lemma l1_first_page:
  assumes "a < 2 ^ 20"
  shows "l1_first (page a) = a div 1024"
proof -
  have "unat (drop_bit 22 (page a)) = a div 1024"
    using assms by (simp add: unat_drop_bit unat_page)
  then have "drop_bit 22 (page a) = word_of_nat (a div 1024)"
    by (simp flip: \<open>unat _ = _\<close>)
  then show ?thesis
    using assms by (simp add: l1_first_def ISP_L1PT_SHIFT_def ucast_of_nat_down unat_of_nat_u32)
qed

lemma L2PT_MASK_val: "ISP_L2PT_MASK = 0xffffffff003ff000"
  by (simp add: ipu4_consts)

lemma page_bit: "bit (page a) i \<longleftrightarrow> 12 \<le> i \<and> i < 64 \<and> bit a (i - 12)"
proof -
  have "page a = push_bit 12 (word_of_nat a)"
    by (simp add: page_def push_bit_eq_mult mult.commute)
  then show ?thesis by (auto simp: bit_simps)
qed

lemma l2_index_page:
  assumes "a < 2 ^ 20"
  shows "drop_bit 12 (page a AND ISP_L2PT_MASK) = word_of_nat (a mod 1024)"
proof -
  have "bit (0xffffffff003ff :: u64) i \<longleftrightarrow> i < 10 \<or> 20 \<le> i" if "i < 52" for i
  proof -
    have m: "(0xffffffff003ff :: u64) = mask 10 OR push_bit 20 (mask 32)"
      by (simp add: mask_eq_exp_minus_1)
    show ?thesis unfolding m using that by (auto simp: bit_simps)
  qed
  moreover have "\<not> bit a i" if "20 \<le> i" for i
    using assms that by (metis bit_nat_iff bit_take_bit_iff leD take_bit_nat_eq_self)
  moreover have "a mod 1024 = take_bit 10 a"
    by (simp add: take_bit_eq_mod)
  ultimately show ?thesis
    by (intro bit_eqI) (auto simp: L2PT_MASK_val bit_simps page_bit)
qed

lemma l2_first_page:
  assumes "a < 2 ^ 20"
  shows "l2_first (page a) = a mod 1024"
proof -
  have "a mod 1024 < 2 ^ 32" using mod_less_divisor [of 1024 a] by simp
  then show ?thesis
    unfolding l2_first_def ISP_L2PT_SHIFT_def l2_index_page [OF assms]
    by (simp add: ucast_of_nat_down unat_of_nat_u32)
qed

section \<open>The tables as a function\<close>

definition live :: "ipu6_mmu_info \<Rightarrow> nat \<Rightarrow> bool" where
  "live info i \<longleftrightarrow> l1_pt info ! i \<noteq> dummy_l2_pteval info"

text \<open>The invariant: a first-level entry is live exactly when its table exists.\<close>

definition wf_mmu :: "ipu6_mmu_info \<Rightarrow> bool" where
  "wf_mmu info \<longleftrightarrow> length (l1_pt info) = 1024 \<and> length (l2_pts info) = 1024 \<and>
     (\<forall>i < 1024. case l2_pts info ! i of
                   None \<Rightarrow> \<not> live info i
                 | Some pt \<Rightarrow> live info i \<and> length pt = 1024)"

text \<open>The entry the hardware finds for a page number below \<open>2 ^ 20\<close>.\<close>

definition pte :: "ipu6_mmu_info \<Rightarrow> nat \<Rightarrow> u32" where
  "pte info p =
     (case l2_pts info ! (p div 1024) of
        Some pt \<Rightarrow> pt ! (p mod 1024)
      | None \<Rightarrow> dummy_page_pteval info)"

definition same_dummies :: "ipu6_mmu_info \<Rightarrow> ipu6_mmu_info \<Rightarrow> bool" where
  "same_dummies info info' \<longleftrightarrow> dummy_l2_pteval info' = dummy_l2_pteval info \<and>
     dummy_page_pteval info' = dummy_page_pteval info \<and> dummy_l2_pt info' = dummy_l2_pt info \<and>
     l1_pt_dma info' = l1_pt_dma info \<and> pgsize_bitmap info' = pgsize_bitmap info \<and>
     aperture_start info' = aperture_start info \<and> aperture_end info' = aperture_end info"

lemma same_dummies_refl [simp]: "same_dummies info info"
  by (simp add: same_dummies_def)

lemma same_dummies_trans: "same_dummies a b \<Longrightarrow> same_dummies b c \<Longrightarrow> same_dummies a c"
  by (simp add: same_dummies_def)

lemma wf_mmu_Some: "wf_mmu info \<Longrightarrow> i < 1024 \<Longrightarrow> live info i \<Longrightarrow> \<exists>pt. l2_pts info ! i = Some pt \<and> length pt = 1024"
  by (auto simp: wf_mmu_def split: option.splits)

lemma wf_mmu_None: "wf_mmu info \<Longrightarrow> i < 1024 \<Longrightarrow> \<not> live info i \<Longrightarrow> l2_pts info ! i = None"
  by (auto simp: wf_mmu_def split: option.splits)

lemma wf_mmu_update:
  assumes "wf_mmu info" "i < 1024" "live info i" "length pt = 1024"
    and "info' = info\<lparr>l2_pts := (l2_pts info)[i := Some pt]\<rparr>"
  shows "wf_mmu info'" "same_dummies info info'" "live info' j = live info j"
    and "p < 2 ^ 20 \<Longrightarrow> pte info' p = (if p div 1024 = i then pt ! (p mod 1024) else pte info p)"
proof -
  show l: "live info' j = live info j" for j
    by (simp add: assms(5) live_def)
  show "wf_mmu info'"
    using assms(1-4) unfolding wf_mmu_def l by (simp add: assms(5) nth_list_update)
  show "same_dummies info info'"
    by (simp add: assms(5) same_dummies_def)
  show "pte info' p = (if p div 1024 = i then pt ! (p mod 1024) else pte info p)" if "p < 2 ^ 20"
    using assms(1,2) by (simp add: assms(5) pte_def nth_list_update wf_mmu_def split: option.split)
qed

section \<open>The inner loops\<close>

lemma map_nth_range: "length xs = k \<Longrightarrow> (\<And>j. j < k \<Longrightarrow> f j = xs ! j) \<Longrightarrow> map f [0..<k] = xs"
  by (simp add: list_eq_iff_nth_eq)

lemma l2_fill_page:
  assumes "n < 2 ^ 52" "P + n < 2 ^ 52" "length pt = 1024" "i \<le> 1024" "k = min n (1024 - i)"
  shows "l2_fill pt i (page a) (page P) (page m) (page n) =
    (map (\<lambda>j. if i \<le> j \<and> j < i + k then word_of_nat (P + (j - i)) else pt ! j) [0..<1024],
     page (a + k), page (P + k), page (m + k), page (n - k))"
  using assms
proof (induction n arbitrary: pt i a P m k)
  case 0
  then have "map (\<lambda>j. if i \<le> j \<and> j < i + k then word_of_nat (P + (j - i)) else pt ! j) [0..<1024] = pt"
    by (intro map_nth_range) auto
  with 0 show ?case by (subst l2_fill.simps) simp
next
  case (Suc n)
  show ?case
  proof (cases "i < 1024")
    case True
    let ?pt = "pt[i := word_of_nat P]"
    obtain k' where k: "k = Suc k'" "k' = min n (1024 - Suc i)"
      using True Suc.prems(5) by fastforce
    have "(ucast (drop_bit 12 (page P)) :: u32) = word_of_nat P"
      using Suc.prems(2) by (simp add: drop_page ucast_of_nat_down)
    then have "l2_fill pt i (page a) (page P) (page m) (page (Suc n)) =
        l2_fill ?pt (Suc i) (page (Suc a)) (page (Suc P)) (page (Suc m)) (page n)"
      using True Suc.prems(1)
      by (subst l2_fill.simps) (simp add: page_pos ISP_L2PT_PTES_def ISP_PADDR_SHIFT_def page_Suc page_pred)
    moreover have "map (\<lambda>j. if Suc i \<le> j \<and> j < Suc i + k' then word_of_nat (Suc P + (j - Suc i)) else ?pt ! j) [0..<1024]
        = map (\<lambda>j. if i \<le> j \<and> j < i + k then word_of_nat (P + (j - i)) else pt ! j) [0..<1024]"
    proof (intro map_cong refl)
      fix j assume "j \<in> set [0..<1024]"
      moreover have "Suc i \<le> j \<Longrightarrow> Suc P + (j - Suc i) = P + (j - i)" by simp
      ultimately show "(if Suc i \<le> j \<and> j < Suc i + k' then word_of_nat (Suc P + (j - Suc i)) else ?pt ! j)
          = (if i \<le> j \<and> j < i + k then word_of_nat (P + (j - i)) else pt ! j)"
        using Suc.prems(3) True by (cases "j = i") (simp_all add: k(1) le_less_Suc_eq del: of_nat_add of_nat_Suc)
    qed
    moreover note Suc.IH [of "Suc P" ?pt "Suc i" k' "Suc a" "Suc m"]
    ultimately show ?thesis
      using Suc.prems(1-4) True k(2) by (simp add: k(1) del: of_nat_add of_nat_Suc)
  next
    case False
    then have "k = 0" "map (\<lambda>j. if i \<le> j \<and> j < i + k then word_of_nat (P + (j - i)) else pt ! j) [0..<1024] = pt"
      using Suc.prems by (auto intro!: map_nth_range)
    with False show ?thesis
      by (subst l2_fill.simps) (simp add: ISP_L2PT_PTES_def)
  qed
qed

lemma l2_clear_page:
  assumes "n < 2 ^ 52" "length pt = 1024" "i \<le> 1024" "k = min n (1024 - i)"
  shows "l2_clear dummy pt i (page a) (page n) =
    (map (\<lambda>j. if i \<le> j \<and> j < i + k then dummy else pt ! j) [0..<1024], page (a + k), page (n - k))"
  using assms
proof (induction n arbitrary: pt i a k)
  case 0
  then have "map (\<lambda>j. if i \<le> j \<and> j < i + k then dummy else pt ! j) [0..<1024] = pt"
    by (intro map_nth_range) auto
  with 0 show ?case by (subst l2_clear.simps) simp
next
  case (Suc n)
  show ?case
  proof (cases "i < 1024")
    case True
    let ?pt = "pt[i := dummy]"
    obtain k' where k: "k = Suc k'" "k' = min n (1024 - Suc i)"
      using True Suc.prems(4) by fastforce
    have "l2_clear dummy pt i (page a) (page (Suc n)) = l2_clear dummy ?pt (Suc i) (page (Suc a)) (page n)"
      using True Suc.prems(1)
      by (subst l2_clear.simps) (simp add: page_pos ISP_L2PT_PTES_def page_Suc page_pred)
    moreover have "map (\<lambda>j. if Suc i \<le> j \<and> j < Suc i + k' then dummy else ?pt ! j) [0..<1024]
        = map (\<lambda>j. if i \<le> j \<and> j < i + k then dummy else pt ! j) [0..<1024]"
      using Suc.prems(2) by (auto simp: k(1) nth_list_update)
    moreover note Suc.IH [of ?pt "Suc i" k' "Suc a"]
    ultimately show ?thesis
      using Suc.prems(1-3) True k(2) by (simp add: k(1))
  next
    case False
    then have "k = 0" "map (\<lambda>j. if i \<le> j \<and> j < i + k then dummy else pt ! j) [0..<1024] = pt"
      using Suc.prems by (auto intro!: map_nth_range)
    with False show ?thesis
      by (subst l2_clear.simps) (simp add: ISP_L2PT_PTES_def)
  qed
qed

section \<open>The outer loops\<close>

text \<open>
  What the tables rely on of the DMA layer: a page that is mapped while the dummy table is
  mapped does not get the dummy table's bus address. \<open>I\<close> are the allocator states in which
  the dummy table, at page frame \<open>d\<close>, is mapped.
\<close>

definition alloc_fresh :: "'s page_alloc \<Rightarrow> ('s \<Rightarrow> bool) \<Rightarrow> u32 \<Rightarrow> bool" where
  "alloc_fresh al I d \<longleftrightarrow>
     (\<forall>s. I s \<longrightarrow> I (snd (get_zeroed_page al s)) \<and> I (snd (map_single al s)) \<and>
        (fst (map_single al s) \<noteq> 0 \<longrightarrow> ucast (drop_bit 12 (fst (map_single al s))) \<noteq> d))"

text \<open>The pages from \<open>a\<close> on, \<open>k\<close> of them, now lead to the pages from \<open>P\<close> on; nothing else changed.\<close>

definition map_post :: "nat \<Rightarrow> nat \<Rightarrow> nat \<Rightarrow> ipu6_mmu_info \<Rightarrow> ipu6_mmu_info \<Rightarrow> bool" where
  "map_post a k P info info' \<longleftrightarrow> wf_mmu info' \<and> same_dummies info info' \<and>
     (\<forall>p < 2 ^ 20. pte info' p = (if a \<le> p \<and> p < a + k then word_of_nat (P + (p - a)) else pte info p)) \<and>
     (\<forall>i < 1024. live info i \<longrightarrow> live info' i) \<and>
     (\<forall>p. a \<le> p \<and> p < a + k \<longrightarrow> live info' (p div 1024))"

lemma map_post_refl: "wf_mmu info \<Longrightarrow> map_post a 0 P info info"
  by (auto simp: map_post_def)

lemma map_post_trans:
  assumes "map_post a k P info info1" "map_post (a + k) k' (P + k) info1 info2" "a + k \<le> 2 ^ 20"
  shows "map_post a (k + k') P info info2"
proof -
  have "live info2 (p div 1024)" if "a \<le> p" "p < a + (k + k')" for p
  proof (cases "p < a + k")
    case True
    then have "p div 1024 < 1024" using assms(3) by (simp add: less_mult_imp_div_less)
    with True that(1) show ?thesis using assms(1,2) by (simp add: map_post_def)
  next
    case False
    with that show ?thesis using assms(2) by (simp add: map_post_def)
  qed
  moreover have "pte info2 p = (if a \<le> p \<and> p < a + (k + k') then word_of_nat (P + (p - a)) else pte info p)"
    if "p < 2 ^ 20" for p
  proof -
    have "a + k \<le> p \<Longrightarrow> P + k + (p - (a + k)) = P + (p - a)" by simp
    with that show ?thesis
      using assms(1,2) by (auto simp: map_post_def simp del: of_nat_add)
  qed
  ultimately show ?thesis
    using assms(1,2) by (auto simp: map_post_def intro: same_dummies_trans)
qed

lemma l2_table_ok:
  assumes "l2_table al i info s = (None, info', s')" "wf_mmu info" "i < 1024"
    and "alloc_fresh al I (dummy_l2_pteval info)" "I s"
  shows "map_post a 0 P info info'" "live info' i" "I s'"
proof -
  have "map_post a 0 P info info' \<and> live info' i \<and> I s'"
  proof (cases "live info i")
    case True
    with assms show ?thesis by (simp add: l2_table_def live_def map_post_refl)
  next
    case False
    then have None: "l2_pts info ! i = None" using assms(2,3) by (intro wf_mmu_None)
    from assms(1) False None obtain s1 where
      s1: "s1 = snd (get_zeroed_page al s)" "s' = snd (map_single al s1)"
      and dma: "fst (map_single al s1) \<noteq> 0"
      and info': "info' = info\<lparr>l1_pt := (l1_pt info)[i := ucast (drop_bit 12 (fst (map_single al s1)))],
                 l2_pts := (l2_pts info)[i := Some (replicate 1024 (dummy_page_pteval info))]\<rparr>"
      by (auto simp: l2_table_def live_def alloc_l2_pt_def Let_def case_prod_beta ISP_PADDR_SHIFT_def
          ISP_L1PT_PTES_def split: if_splits)
    have len: "length (l1_pt info) = 1024" "length (l2_pts info) = 1024"
      using assms(2) by (simp_all add: wf_mmu_def)
    have I: "I s1" "I s'" using assms(4,5) by (simp_all add: s1 alloc_fresh_def)
    have live': "live info' j = (j = i \<or> live info j)" for j
      using assms(3,4) dma len I(1) by (auto simp: live_def info' alloc_fresh_def nth_list_update)
    have "pte info' p = pte info p" if "p < 2 ^ 20" for p
      using None len assms(3) by (auto simp: pte_def info' nth_list_update split: option.split)
    moreover have "wf_mmu info'"
      using assms(2,3) unfolding wf_mmu_def live' by (auto simp: info' nth_list_update split: option.split)
    ultimately show ?thesis
      using I(2) by (auto simp: map_post_def live' same_dummies_def) (simp_all add: info')
  qed
  then show "map_post a 0 P info info'" "live info' i" "I s'" by blast+
qed

lemma l2_table_err: "l2_table al i info s = (Some e, info', s') \<Longrightarrow> info' = info"
  by (auto simp: l2_table_def Let_def case_prod_beta split: if_splits option.splits)

lemma l2_table_alloc:
  "l2_table al i info s = (e, info', s') \<Longrightarrow> alloc_fresh al I d \<Longrightarrow> I s \<Longrightarrow> I s'"
  by (auto simp: l2_table_def alloc_l2_pt_def alloc_fresh_def Let_def case_prod_beta
      split: if_splits option.splits)

lemma chunk_next:
  assumes "k = min n (1024 - a mod 1024)" "0 < n" "n - k \<noteq> (0::nat)"
  shows "(a + k) div 1024 = Suc (a div 1024)"
proof -
  obtain q r where d: "q = a div 1024" "r = a mod 1024" by blast
  then have "a = 1024 * q + r" "r < 1024" by simp_all
  moreover have "k = 1024 - r" using assms unfolding d by linarith
  ultimately have "a + k = 1024 * Suc (a div 1024)" by (simp flip: d)
  then show ?thesis by simp
qed

lemma chunk_index:
  assumes "k = min n (1024 - a mod 1024)" "p div 1024 = a div 1024"
  shows "a mod 1024 \<le> p mod 1024 \<and> p mod 1024 < a mod 1024 + k \<longleftrightarrow> a \<le> p \<and> p < a + k"
    and "p mod 1024 - a mod 1024 = p - (a::nat)"
proof -
  have "p = 1024 * (a div 1024) + p mod 1024" "a = 1024 * (a div 1024) + a mod 1024"
    using mult_div_mod_eq [of 1024 p] mult_div_mod_eq [of 1024 a] assms(2) by simp_all
  then show "a mod 1024 \<le> p mod 1024 \<and> p mod 1024 < a mod 1024 + k \<longleftrightarrow> a \<le> p \<and> p < a + k"
    and "p mod 1024 - a mod 1024 = p - a"
    by linarith+
qed

lemma chunk_same:
  assumes "k = min n (1024 - a mod 1024)" "a \<le> p" "p < a + (k::nat)"
  shows "p div 1024 = a div 1024"
proof -
  obtain q r where d: "q = a div 1024" "r = a mod 1024" by blast
  then have "a = 1024 * q + r" "r < 1024" by simp_all
  with assms have "p < 1024 * Suc (a div 1024)" by (simp flip: d)
  then have "p div 1024 \<le> a div 1024" using less_mult_imp_div_less [of p "Suc (a div 1024)" 1024] by simp
  moreover have "a div 1024 \<le> p div 1024" using assms(2) by (rule div_le_mono)
  ultimately show ?thesis by (rule antisym)
qed

text \<open>One round of the outer loops, on a live first-level entry.\<close>

lemma fill_post:
  assumes "wf_mmu info" "live info (a div 1024)" "a < 2 ^ 20" "l2_pts info ! (a div 1024) = Some pt"
    and "k = min n (1024 - a mod 1024)" "n < 2 ^ 52" "P + n < 2 ^ 52"
    and "l2_fill pt (l2_first (page a)) (page a) (page P) (page m) (page n) = (pt', r)"
    and "info' = info\<lparr>l2_pts := (l2_pts info)[a div 1024 := Some pt']\<rparr>"
  shows "map_post a k P info info'" "r = (page (a + k), page (P + k), page (m + k), page (n - k))"
proof -
  let ?i = "a div 1024" and ?j = "a mod 1024"
  have i: "?i < 1024" using assms(3) by (simp add: less_mult_imp_div_less)
  have "length pt = 1024" using wf_mmu_Some [OF assms(1) i assms(2)] assms(4) by auto
  moreover have "?j \<le> 1024" using mod_less_divisor [of 1024 a] by simp
  ultimately have r: "(pt', r) = (map (\<lambda>j. if ?j \<le> j \<and> j < ?j + k then word_of_nat (P + (j - ?j)) else pt ! j) [0..<1024],
      page (a + k), page (P + k), page (m + k), page (n - k))"
    using l2_fill_page [OF assms(6,7) _ _ assms(5), of pt a m] assms(8) by (simp add: l2_first_page [OF assms(3)])
  then have pt': "length pt' = 1024"
    "\<And>j. j < 1024 \<Longrightarrow> pt' ! j = (if ?j \<le> j \<and> j < ?j + k then word_of_nat (P + (j - ?j)) else pt ! j)"
    by simp_all
  show "r = (page (a + k), page (P + k), page (m + k), page (n - k))" using r by simp
  note u = wf_mmu_update [OF assms(1) i assms(2) pt'(1) assms(9)]
  have "pte info' p = (if a \<le> p \<and> p < a + k then word_of_nat (P + (p - a)) else pte info p)" if "p < 2 ^ 20" for p
  proof (cases "p div 1024 = ?i")
    case True
    have "pte info p = pt ! (p mod 1024)" by (simp add: pte_def True assms(4))
    with True show ?thesis
      by (simp only: u(4) [OF that] pt'(2) mod_less_divisor chunk_index [OF assms(5) True] if_True) simp
  next
    case False
    then show ?thesis using chunk_same [OF assms(5)] by (auto simp: u(4) [OF that])
  qed
  moreover have "live info' (p div 1024)" if "a \<le> p" "p < a + k" for p
    using chunk_same [OF assms(5) that] assms(2) by (simp add: u(3))
  ultimately show "map_post a k P info info'"
    using u(1-3) by (auto simp: map_post_def)
qed

lemma l2_map_loop_page:
  assumes "wf_mmu info" "alloc_fresh al I (dummy_l2_pteval info)" "n > 0 \<Longrightarrow> i = a div 1024"
    and "a + n \<le> 2 ^ 20" "P + n < 2 ^ 52" "I s"
  shows "\<exists>k err info' s'. l2_map_loop al i (page a) (page P) (page m) (page n) info s =
      ((err, page (a + k), page (P + k), page (m + k)), info', s') \<and> k \<le> n \<and>
      (err = None \<longrightarrow> k = n) \<and> map_post a k P info info' \<and> I s'"
  using assms
proof (induction n arbitrary: i a P m info s rule: less_induct)
  case (less n)
  show ?case
  proof (cases "n = 0")
    case True
    then show ?thesis
      using less.prems(1,6) by (intro exI [of _ 0] exI [of _ None] exI [of _ info] exI [of _ s])
        (subst l2_map_loop.simps, simp add: map_post_refl)
  next
    case False
    then have i: "i = a div 1024" and a: "a < 2 ^ 20" and n: "n < 2 ^ 52"
      using less.prems(3,4) by auto
    have i': "i < 1024" using a by (simp add: i less_mult_imp_div_less)
    obtain e info1 s1 where t: "l2_table al i info s = (e, info1, s1)" by (metis prod_cases3)
    have step: "page n > 0 \<and> i < ISP_L1PT_PTES" using False n i' by (simp add: page_pos ISP_L1PT_PTES_def)
    show ?thesis
    proof (cases e)
      case (Some err)
      then have "l2_map_loop al i (page a) (page P) (page m) (page n) info s
          = ((Some err, page a, page P, page m), info, s1)"
        using t step l2_table_err by (subst l2_map_loop.simps) auto
      then show ?thesis
        using less.prems(1) l2_table_alloc [OF t less.prems(2,6)]
        by (intro exI [of _ 0] exI [of _ "Some err"] exI [of _ info] exI [of _ s1])
          (simp add: map_post_refl)
    next
      case None
      note tab = l2_table_ok [OF t [unfolded None] less.prems(1) i' less.prems(2,6)]
      define k where "k = min n (1024 - a mod 1024)"
      have "0 < k" "k \<le> n" using False mod_less_divisor [of 1024 a] by (simp_all add: k_def)
      have wf1: "wf_mmu info1" and d1: "same_dummies info info1" using tab(1) by (auto simp: map_post_def)
      obtain pt where pt: "l2_pts info1 ! i = Some pt"
        using wf_mmu_Some [OF wf1 i' tab(2)] by auto
      obtain pt' r where f: "l2_fill pt (l2_first (page a)) (page a) (page P) (page m) (page n) = (pt', r)"
        by (metis surj_pair)
      define info2 where "info2 = info1\<lparr>l2_pts := (l2_pts info1)[a div 1024 := Some pt']\<rparr>"
      note fill = fill_post [OF wf1 tab(2) [unfolded i] a pt [unfolded i] k_def n less.prems(5) f info2_def]
      have loop: "l2_map_loop al i (page a) (page P) (page m) (page n) info s
          = l2_map_loop al (Suc i) (page (a + k)) (page (P + k)) (page (m + k)) (page (n - k)) info2 s1"
        using step t None pt f fill(2) by (subst l2_map_loop.simps) (simp add: info2_def i)
      have "map_post a k P info info2"
        using map_post_trans [OF tab(1) [of a P]] fill(1) a by simp
      have "dummy_l2_pteval info2 = dummy_l2_pteval info"
        using d1 by (simp add: info2_def same_dummies_def)
      then obtain k' err info' s' where IH:
        "l2_map_loop al (Suc i) (page (a + k)) (page (P + k)) (page (m + k)) (page (n - k)) info2 s1
           = ((err, page (a + k + k'), page (P + k + k'), page (m + k + k')), info', s')"
        "k' \<le> n - k" "err = None \<longrightarrow> k' = n - k" "map_post (a + k) k' (P + k) info2 info'" "I s'"
        using less.IH [of "n - k" info2 "Suc i" "a + k" "P + k" s1 "m + k"] \<open>0 < k\<close> \<open>k \<le> n\<close> False
          less.prems(2,4,5) fill(1) tab(3) chunk_next [OF k_def] i by (auto simp: map_post_def)
      have "map_post a (k + k') P info info'"
        using map_post_trans [OF \<open>map_post a k P info info2\<close> IH(4)] less.prems(4) \<open>k \<le> n\<close> by simp
      with IH \<open>k \<le> n\<close> show ?thesis
        by (intro exI [of _ "k + k'"] exI [of _ err] exI [of _ info'] exI [of _ s'])
          (auto simp: loop add.assoc)
    qed
  qed
qed

text \<open>Unmapping, over live first-level entries.\<close>

definition unmap_post :: "nat \<Rightarrow> nat \<Rightarrow> ipu6_mmu_info \<Rightarrow> ipu6_mmu_info \<Rightarrow> bool" where
  "unmap_post a k info info' \<longleftrightarrow> wf_mmu info' \<and> same_dummies info info' \<and>
     (\<forall>p < 2 ^ 20. pte info' p = (if a \<le> p \<and> p < a + k then dummy_page_pteval info else pte info p)) \<and>
     (\<forall>i. live info' i = live info i)"

lemma unmap_post_refl: "wf_mmu info \<Longrightarrow> unmap_post a 0 info info"
  by (auto simp: unmap_post_def)

lemma unmap_post_trans:
  "unmap_post a k info info1 \<Longrightarrow> unmap_post (a + k) k' info1 info2 \<Longrightarrow> unmap_post a (k + k') info info2"
  by (auto simp: unmap_post_def same_dummies_def)

lemma clear_post:
  assumes "wf_mmu info" "live info i" "i < 1024" "a < 2 ^ 20" "l2_pts info ! i = Some pt"
    and "k = min n (1024 - a mod 1024)" "n < 2 ^ 52" "b = 1024 * i + a mod 1024"
    and "l2_clear (dummy_page_pteval info) pt (l2_first (page a)) (page a) (page n) = (pt', r)"
    and "info' = info\<lparr>l2_pts := (l2_pts info)[i := Some pt']\<rparr>"
  shows "unmap_post b k info info'" "r = (page (a + k), page (n - k))"
proof -
  let ?j = "a mod 1024"
  have b: "b div 1024 = i" "b mod 1024 = ?j" by (simp_all add: assms(8))
  have kb: "k = min n (1024 - b mod 1024)" by (simp only: b assms(6))
  have "length pt = 1024" using wf_mmu_Some [OF assms(1,3,2)] assms(5) by auto
  moreover have "?j \<le> 1024" using mod_less_divisor [of 1024 a] by simp
  ultimately have r: "(pt', r) = (map (\<lambda>j. if ?j \<le> j \<and> j < ?j + k then dummy_page_pteval info else pt ! j) [0..<1024],
      page (a + k), page (n - k))"
    using l2_clear_page [OF assms(7) _ _ assms(6), of pt "dummy_page_pteval info" a] assms(9)
    by (simp add: l2_first_page [OF assms(4)])
  then have pt': "length pt' = 1024"
    "\<And>j. j < 1024 \<Longrightarrow> pt' ! j = (if ?j \<le> j \<and> j < ?j + k then dummy_page_pteval info else pt ! j)"
    by simp_all
  show "r = (page (a + k), page (n - k))" using r by simp
  note u = wf_mmu_update [OF assms(1,3,2) pt'(1) assms(10)]
  have "pte info' p = (if b \<le> p \<and> p < b + k then dummy_page_pteval info else pte info p)" if "p < 2 ^ 20" for p
  proof (cases "p div 1024 = i")
    case True
    then have "p div 1024 = b div 1024" by (simp only: b)
    note c = chunk_index(1) [OF kb this, unfolded b(2)]
    have "pte info p = pt ! (p mod 1024)" by (simp add: pte_def True assms(5))
    with True c show ?thesis by (simp add: u(4) [OF that] pt'(2))
  next
    case False
    then show ?thesis using chunk_same [OF kb] b(1) by (auto simp: u(4) [OF that])
  qed
  then show "unmap_post b k info info'"
    using u(1-3) by (auto simp: unmap_post_def)
qed

lemma unmap_loop_step:
  assumes "wf_mmu info" "i < 1024" "live info i" "a < 2 ^ 20" "0 < n" "n < 2 ^ 52"
    and "k = min n (1024 - a mod 1024)" "b = 1024 * i + a mod 1024"
  shows "\<exists>info'. l2_unmap_loop i (page a) (page n) info
      = l2_unmap_loop (Suc i) (page (a + k)) (page (n - k)) info' \<and> unmap_post b k info info'"
proof -
  obtain pt where pt: "l2_pts info ! i = Some pt"
    using wf_mmu_Some [OF assms(1-3)] by auto
  obtain pt' r where c: "l2_clear (dummy_page_pteval info) pt (l2_first (page a)) (page a) (page n) = (pt', r)"
    by (metis surj_pair)
  note post = clear_post [OF assms(1,3,2,4) pt assms(7,6,8) c refl]
  have "l2_unmap_loop i (page a) (page n) info = l2_unmap_loop (Suc i) (page (a + k)) (page (n - k))
      (info\<lparr>l2_pts := (l2_pts info)[i := Some pt']\<rparr>)"
    using assms(2,3,5,6) pt c post(2)
    by (subst l2_unmap_loop.simps) (simp add: page_pos ISP_L1PT_PTES_def live_def)
  with post(1) show ?thesis by blast
qed

text \<open>
  The loop takes its table from the running index and the entries within it from the address, which may
  lag behind by \<open>c\<close> tables: then everything happens \<open>c\<close> tables further up.
\<close>

lemma l2_unmap_loop_shifted:
  assumes "wf_mmu info" "n > 0 \<Longrightarrow> i = a div 1024 + c" "a + 1024 * c + n \<le> 2 ^ 20"
    and "\<And>p. a + 1024 * c \<le> p \<Longrightarrow> p < a + 1024 * c + n \<Longrightarrow> live info (p div 1024)"
  shows "unmap_post (a + 1024 * c) n info (l2_unmap_loop i (page a) (page n) info)"
  using assms
proof (induction n arbitrary: i a info rule: less_induct)
  case (less n)
  show ?case
  proof (cases "n = 0")
    case True
    then show ?thesis
      using less.prems(1) by (subst l2_unmap_loop.simps) (simp add: unmap_post_refl)
  next
    case False
    then have i: "i = a div 1024 + c" and a: "a < 2 ^ 20" "a + 1024 * c < 2 ^ 20" and n: "0 < n" "n < 2 ^ 52"
      using less.prems(2,3) by auto
    have ic: "(a + 1024 * c) div 1024 = i" by (simp add: i)
    then have i': "i < 1024" using a(2) by (simp add: div_less_iff_less_mult flip: ic)
    define k where "k = min n (1024 - a mod 1024)"
    have k: "0 < k" "k \<le> n" using False mod_less_divisor [of 1024 a] by (simp_all add: k_def)
    have "live info i" using less.prems(4) [of "a + 1024 * c"] False by (simp add: ic)
    moreover have "a + 1024 * c = 1024 * i + a mod 1024" by (simp add: i)
    ultimately obtain info' where s: "l2_unmap_loop i (page a) (page n) info
        = l2_unmap_loop (Suc i) (page (a + k)) (page (n - k)) info'" "unmap_post (a + 1024 * c) k info info'"
      using unmap_loop_step [OF less.prems(1) i' _ a(1) n k_def] by blast
    have "unmap_post (a + k + 1024 * c) (n - k) info' (l2_unmap_loop (Suc i) (page (a + k)) (page (n - k)) info')"
      using k s(2) less.prems(3,4) chunk_next [OF k_def n(1)] i
      by (intro less.IH) (auto simp: unmap_post_def)
    then have "unmap_post (a + 1024 * c + k) (n - k) info' (l2_unmap_loop (Suc i) (page (a + k)) (page (n - k)) info')"
      by (simp only: add.assoc add.commute add.left_commute)
    from unmap_post_trans [OF s(2) this] show ?thesis
      using k by (simp add: s(1))
  qed
qed

lemma l2_unmap_loop_page:
  assumes "wf_mmu info" "n > 0 \<Longrightarrow> i = a div 1024" "a + n \<le> 2 ^ 20"
    and "\<And>p. a \<le> p \<Longrightarrow> p < a + n \<Longrightarrow> live info (p div 1024)"
  shows "unmap_post a n info (l2_unmap_loop i (page a) (page n) info)"
  using l2_unmap_loop_shifted [of info n i a 0] assms by simp

section \<open>The entry points\<close>

lemma ffs_4K: "ffs 0x1000 = 12"
  by code_simp

lemma mask_page: "(0xfff :: u64) = mask 12"
  by (simp add: mask_eq_exp_minus_1)

lemma page_low: "page a AND 0xfff = 0"
  unfolding mask_page by (rule bit_eqI) (auto simp: bit_simps page_bit)

lemma page_aligned:
  "pgsize_bitmap info = 0x1000 \<Longrightarrow> is_aligned (page a OR page b) (push_bit (ffs (pgsize_bitmap info)) 1)"
  "pgsize_bitmap info = 0x1000 \<Longrightarrow> is_aligned (page a OR page b OR page c) (push_bit (ffs (pgsize_bitmap info)) 1)"
  by (simp_all add: is_aligned_def ffs_4K page_low bit.conj_disj_distrib2)

lemma low_clear: "x AND NOT (0xfff :: u64) = push_bit 12 (drop_bit 12 x)"
  unfolding mask_page by (rule bit_eqI) (auto simp: bit_simps)

lemma page_push: "page a = push_bit 12 (word_of_nat a)"
  by (simp add: page_def push_bit_eq_mult mult.commute)

lemma ALIGN_PAGE_page:
  assumes "P < 2 ^ 52 - 1"
  shows "ALIGN_PAGE (page P) = page P"
proof -
  have "unat (page P + 0xfff) = 4096 * P + 4095"
    using assms by (simp add: unat_add_no_wrap unat_page)
  then have "unat (drop_bit 12 (page P + 0xfff)) = P"
    by (simp add: unat_drop_bit)
  then have d: "drop_bit 12 (page P + 0xfff) = word_of_nat P"
    by (rule eq_of_unat)
  have "ALIGN_PAGE (page P) = (page P + 0xfff) AND NOT 0xfff"
    by (simp add: ALIGN_PAGE_def ISP_PAGE_SIZE_def)
  also have "\<dots> = push_bit 12 (word_of_nat P)" by (simp only: low_clear d)
  finally show ?thesis by (simp only: page_push)
qed

lemma round_down_page:
  assumes "a < 2 ^ 20"
  shows "ucast (ucast (page a AND NOT (ISP_PAGE_SIZE - 1)) :: u32) = page a"
proof -
  have "ISP_PAGE_SIZE - 1 = 0xfff" by (simp add: ISP_PAGE_SIZE_def)
  moreover have "drop_bit 12 (page a) = word_of_nat a" using assms by (intro drop_page) simp
  ultimately have "page a AND NOT (ISP_PAGE_SIZE - 1) = page a"
    by (simp only: low_clear page_push)
  moreover have "ucast (ucast (page a) :: u32) = page a"
  proof -
    have "(ucast (page a) :: u32) = word_of_nat (4096 * a)"
      unfolding page_def by (rule ucast_of_nat_down) simp
    moreover have "4096 * a < 2 ^ 32" using assms by simp
    ultimately show ?thesis
      by (simp only: page_def ucast_of_nat_u32)
  qed
  ultimately show ?thesis by simp
qed

lemma l2_unmap_page:
  assumes "wf_mmu info" "a + n \<le> 2 ^ 20" "0 < n"
    and "\<And>p. a \<le> p \<Longrightarrow> p < a + n \<Longrightarrow> live info (p div 1024)"
  shows "unmap_post a n info (l2_unmap info (page a) (page n))"
proof -
  have "a < 2 ^ 20" using assms(2,3) by linarith
  from l1_first_page [OF this] show ?thesis
    unfolding l2_unmap_def using assms by (intro l2_unmap_loop_page)
qed

lemma mmu_map_page:
  assumes "pgsize_bitmap info = 0x1000" "a < 2 ^ 20"
  shows "ipu6_mmu_map al info (page a) (page P) (page n) s = l2_map al info (page a) (page P) (page n) s"
  using assms page_aligned(2) [OF assms(1), of a P n]
  by (simp only: ipu6_mmu_map_def mmu_map_inner_def Let_def round_down_page) simp

lemma mmu_unmap_page:
  assumes "pgsize_bitmap info = 0x1000"
  shows "ipu6_mmu_unmap info (page a) (page n) = l2_unmap info (page a) (page n)"
  using page_aligned(1) [OF assms, of a n] by (simp add: ipu6_mmu_unmap_def mmu_unmap_inner_def Let_def)

lemma map_page_cases:
  assumes "wf_mmu info" "alloc_fresh al I (dummy_l2_pteval info)" "pgsize_bitmap info = 0x1000"
    and "a + n \<le> 2 ^ 20" "P + n < 2 ^ 52 - 1" "0 < n" "I s"
    and "ipu6_mmu_map al info (page a) (page P) (page n) s = (r, info', s')"
  shows "(r = ok \<and> map_post a n P info info') \<or>
    (\<exists>e k. r = Inl e \<and> k \<le> n \<and> wf_mmu info' \<and> same_dummies info info' \<and>
       (\<forall>p < 2 ^ 20. pte info' p = (if a \<le> p \<and> p < a + k then dummy_page_pteval info else pte info p)) \<and>
       (\<forall>i < 1024. live info i \<longrightarrow> live info' i))"
proof -
  have a: "a < 2 ^ 20" using assms(4,6) by linarith
  have "l1_first (page a) = a div 1024" by (rule l1_first_page [OF a])
  from l2_map_loop_page [OF assms(1,2) this assms(4) _ assms(7), of P 0] assms(5)
  obtain k err info1 s1 where loop:
    "l2_map_loop al (l1_first (page a)) (page a) (page P) 0 (page n) info s
       = ((err, page (a + k), page (P + k), page k), info1, s1)"
    "k \<le> n" "err = None \<longrightarrow> k = n" "map_post a k P info info1"
    by auto
  have "ALIGN_PAGE (page P) = page P" using assms(5) by (intro ALIGN_PAGE_page) linarith
  then have run: "(r, info', s') = (case err of None \<Rightarrow> (ok, info1, s1)
      | Some e \<Rightarrow> (Inl e, if page k \<noteq> 0 then l2_unmap info1 (page (a + k) - page k) (page k) else info1, s1))"
    using assms(8) by (auto simp: mmu_map_page [OF assms(3) a] l2_map_def loop(1) split: option.splits)
  show ?thesis
  proof (cases err)
    case None
    with run loop show ?thesis by simp
  next
    case (Some e)
    have wf1: "wf_mmu info1" "same_dummies info info1" using loop(4) by (simp_all add: map_post_def)
    show ?thesis
    proof (cases "k = 0")
      case True
      with run Some loop(4) show ?thesis
        by (auto simp: map_post_def intro!: exI [of _ 0])
    next
      case False
      then have "page k \<noteq> 0" using loop(2) assms(4) by (simp add: page_eq_0)
      moreover have "page (a + k) - page k = page a" by (simp add: page_diff)
      moreover have "unmap_post a k info1 (l2_unmap info1 (page a) (page k))"
        using wf1(1) loop(2,4) assms(4) False by (intro l2_unmap_page) (auto simp: map_post_def)
      ultimately show ?thesis
        using run Some loop(2,4) wf1(2)
        by (intro disjI2 exI [of _ e] exI [of _ k]) (auto simp: unmap_post_def map_post_def same_dummies_def)
    qed
  qed
qed

section \<open>The invariant over all arguments\<close>

lemma length_l2_fill: "length (fst (l2_fill pt i iova paddr mapped sz)) = length pt"
  by (induction pt i iova paddr mapped sz rule: l2_fill.induct) (subst l2_fill.simps, simp)

lemma length_l2_clear: "length (fst (l2_clear d pt i iova sz)) = length pt"
  by (induction d pt i iova sz rule: l2_clear.induct) (subst l2_clear.simps, simp)

text \<open>An allocator that always succeeds.\<close>

definition alloc_total :: "'s page_alloc \<Rightarrow> ('s \<Rightarrow> bool) \<Rightarrow> bool" where
  "alloc_total al I \<longleftrightarrow> (\<forall>s. I s \<longrightarrow> fst (get_zeroed_page al s) \<and> fst (map_single al s) \<noteq> 0)"

lemma l2_table_total:
  assumes "alloc_total al I" "alloc_fresh al I d" "I s"
  shows "fst (l2_table al i info s) = None"
  using assms by (auto simp: l2_table_def alloc_l2_pt_def alloc_total_def alloc_fresh_def Let_def
      case_prod_beta split: option.split)

lemma wf_l2_map_loop:
  "wf_mmu info \<Longrightarrow> alloc_fresh al I (dummy_l2_pteval info) \<Longrightarrow> I s \<Longrightarrow>
   l2_map_loop al i iova paddr mapped sz info s = (r, info', s') \<Longrightarrow>
   wf_mmu info' \<and> same_dummies info info' \<and> I s' \<and> (alloc_total al I \<longrightarrow> fst r = None)"
proof (induction al i iova paddr mapped sz info s arbitrary: r info' s' rule: l2_map_loop.induct)
  case (1 al i iova paddr mapped sz info s)
  show ?case
  proof (cases "sz > 0 \<and> i < ISP_L1PT_PTES")
    case False
    then show ?thesis using "1.prems" by (subst (asm) l2_map_loop.simps) auto
  next
    case True
    then have i: "i < 1024" by (simp add: ISP_L1PT_PTES_def)
    obtain e info1 s1 where t: "l2_table al i info s = (e, info1, s1)" by (metis prod_cases3)
    show ?thesis
    proof (cases e)
      case (Some err)
      then show ?thesis
        using "1.prems" True t l2_table_err [of al i info s] l2_table_alloc [OF t "1.prems"(2,3)]
          l2_table_total [OF _ "1.prems"(2,3), of i info] by (subst (asm) l2_map_loop.simps) auto
    next
      case None
      note tab = l2_table_ok [OF t [unfolded None] "1.prems"(1) i "1.prems"(2,3)]
      have wf1: "wf_mmu info1" "same_dummies info info1" using tab(1) [of 0 0] by (auto simp: map_post_def)
      obtain pt where pt: "l2_pts info1 ! i = Some pt" "length pt = 1024"
        using wf_mmu_Some [OF wf1(1) i tab(2)] by auto
      obtain pt' iova' paddr' mapped' sz' where f:
        "l2_fill pt (l2_first iova) iova paddr mapped sz = (pt', iova', paddr', mapped', sz')"
        by (metis prod_cases5)
      have "length pt' = 1024"
        using length_l2_fill [of pt "l2_first iova" iova paddr mapped sz] f pt(2) by simp
      note u = wf_mmu_update [OF wf1(1) i tab(2) this refl]
      have "dummy_l2_pteval (info1\<lparr>l2_pts := (l2_pts info1)[i := Some pt']\<rparr>) = dummy_l2_pteval info"
        using wf1(2) by (simp add: same_dummies_def)
      moreover have "l2_map_loop al (Suc i) iova' paddr' mapped' sz'
          (info1\<lparr>l2_pts := (l2_pts info1)[i := Some pt']\<rparr>) s1 = (r, info', s')"
        using "1.prems"(4) True t None pt f by (subst (asm) l2_map_loop.simps) simp
      ultimately have "wf_mmu info' \<and> same_dummies (info1\<lparr>l2_pts := (l2_pts info1)[i := Some pt']\<rparr>) info' \<and> I s' \<and>
          (alloc_total al I \<longrightarrow> fst r = None)"
        using "1.IH" [OF True t [symmetric] None refl pt(1) f [symmetric] refl refl refl] u(1) "1.prems"(2) tab(3)
        by simp
      then show ?thesis
        using wf1(2) u(2) by (blast intro: same_dummies_trans)
    qed
  qed
qed

lemma wf_l2_unmap_loop:
  "wf_mmu info \<Longrightarrow> wf_mmu (l2_unmap_loop i iova sz info) \<and> same_dummies info (l2_unmap_loop i iova sz info)"
proof (induction i iova sz info rule: l2_unmap_loop.induct)
  case (1 i iova sz info)
  show ?case
  proof (cases "sz > 0 \<and> i < ISP_L1PT_PTES")
    case False
    then have "l2_unmap_loop i iova sz info = info" by (subst l2_unmap_loop.simps) auto
    then show ?thesis using "1.prems" by simp
  next
    case True
    then have i: "i < 1024" by (simp add: ISP_L1PT_PTES_def)
    show ?thesis
    proof (cases "live info i")
      case False
      with True have "l2_unmap_loop i iova sz info = l2_unmap_loop (Suc i) iova sz info"
        by (subst l2_unmap_loop.simps) (simp add: live_def)
      with False True "1.prems" "1.IH"(1) show ?thesis by (simp add: live_def)
    next
      case live: True
      obtain pt where pt: "l2_pts info ! i = Some pt" "length pt = 1024"
        using wf_mmu_Some [OF "1.prems" i live] by auto
      obtain pt' iova' sz' where c:
        "l2_clear (dummy_page_pteval info) pt (l2_first iova) iova sz = (pt', iova', sz')"
        by (metis prod_cases3)
      have "length pt' = 1024"
        using length_l2_clear [of "dummy_page_pteval info" pt "l2_first iova" iova sz] c pt(2) by simp
      note u = wf_mmu_update [OF "1.prems" i live this refl]
      have "l2_unmap_loop i iova sz info = l2_unmap_loop (Suc i) iova' sz'
          (info\<lparr>l2_pts := (l2_pts info)[i := Some pt']\<rparr>)"
        using True live pt c by (subst l2_unmap_loop.simps) (simp add: live_def)
      then show ?thesis
        using "1.IH"(2) [OF True _ pt(1) c [symmetric] refl u(1)] live u(2)
        by (auto simp: live_def intro: same_dummies_trans)
    qed
  qed
qed

lemma wf_mmu_map:
  assumes "wf_mmu info" "alloc_fresh al I (dummy_l2_pteval info)" "I s"
    and "ipu6_mmu_map al info iova paddr sz s = (r, info', s')"
  shows "wf_mmu info' \<and> same_dummies info info' \<and> I s'"
    and "alloc_total al I \<Longrightarrow> r \<in> {ok, Inl ENODEV, Inl EINVAL}"
proof -
  have "wf_mmu info' \<and> same_dummies info info' \<and> I s' \<and> (alloc_total al I \<longrightarrow> r = ok)"
    if m: "l2_map al info x paddr sz s = (r, info', s')" for x
  proof -
    obtain e b c d info1 s1 where loop:
      "l2_map_loop al (l1_first x) x (ALIGN_PAGE paddr) 0 sz info s = ((e, b, c, d), info1, s1)"
      by (metis prod.exhaust)
    from wf_l2_map_loop [OF assms(1-3) this] wf_l2_unmap_loop [of info1] show ?thesis
      using m by (auto simp: l2_map_def loop l2_unmap_def intro: same_dummies_trans split: option.splits if_splits)
  qed
  then show "wf_mmu info' \<and> same_dummies info info' \<and> I s'" "alloc_total al I \<Longrightarrow> r \<in> {ok, Inl ENODEV, Inl EINVAL}"
    using assms(1,3,4) by (auto simp: ipu6_mmu_map_def mmu_map_inner_def Let_def split: if_splits)
qed

lemma wf_mmu_unmap:
  "wf_mmu info \<Longrightarrow> wf_mmu (ipu6_mmu_unmap info iova sz) \<and> same_dummies info (ipu6_mmu_unmap info iova sz)"
  by (simp add: ipu6_mmu_unmap_def mmu_unmap_inner_def l2_unmap_def wf_l2_unmap_loop Let_def)

lemma iova_to_phys_page:
  assumes "wf_mmu info" "p < 2 ^ 20" "live info (p div 1024)"
  shows "ipu6_mmu_iova_to_phys info (page p) = Some (page (unat (pte info p)))"
proof -
  have i: "p div 1024 < 1024" using assms(2) by (simp add: less_mult_imp_div_less)
  obtain pt where pt: "l2_pts info ! (p div 1024) = Some pt" "length pt = 1024"
    using wf_mmu_Some [OF assms(1) i assms(3)] by auto
  have "unat (drop_bit 22 (page p)) = p div 1024"
    using assms(2) by (simp add: unat_drop_bit unat_page)
  moreover have "unat (drop_bit 12 (page p AND ISP_L2PT_MASK)) = p mod 1024"
    unfolding l2_index_page [OF assms(2)] using mod_less_divisor [of 1024 p] by (intro unat_of_nat_u64) simp
  moreover have "length (l2_pts info) = 1024" using assms(1) by (simp add: wf_mmu_def)
  moreover have "push_bit 12 (ucast (w :: u32)) = page (unat w)" for w
    using unat_u32_less [of w] by (simp add: page_push)
  ultimately show ?thesis
    using i pt unfolding ipu6_mmu_iova_to_phys_def ISP_L1PT_SHIFT_def ISP_L2PT_SHIFT_def ISP_PAGE_SHIFT_def
    by (simp only: Let_def pte_def) simp
qed

lemma alloc_wf:
  assumes "ipu6_mmu_alloc al kz sec s = (Some info, s')"
  shows "wf_mmu info" "pgsize_bitmap info = 0x1000" "\<And>p. p < 2 ^ 20 \<Longrightarrow> pte info p = dummy_page_pteval info"
    "\<And>i. i < 1024 \<Longrightarrow> \<not> live info i"
proof -
  from assms obtain x1 x2 x3 x4 where info: "info = \<lparr>l1_pt = replicate 1024 x1, l1_pt_dma = x2,
      l2_pts = replicate 1024 None, dummy_l2_pt = replicate 1024 x3, dummy_l2_pteval = x1,
      dummy_page_pteval = x3, aperture_start = 0, aperture_end = x4, pgsize_bitmap = 0x1000\<rparr>"
    by (auto simp: ipu6_mmu_alloc_def get_dummy_page_def alloc_dummy_l2_pt_def alloc_l1_pt_def
        zero_mmu_info_def Let_def case_prod_beta ISP_L1PT_PTES_def ISP_L2PT_PTES_def split: if_splits)
  then show "wf_mmu info" "pgsize_bitmap info = 0x1000" "\<And>i. i < 1024 \<Longrightarrow> \<not> live info i"
    by (simp_all add: wf_mmu_def live_def)
  show "pte info p = dummy_page_pteval info" if "p < 2 ^ 20" for p
    using that by (simp add: pte_def info less_mult_imp_div_less)
qed

section \<open>Reachable tables\<close>

text \<open>Any sequence of mappings and unmappings after a successful allocation.\<close>

inductive mmu_reach :: "'s page_alloc \<Rightarrow> u32 \<Rightarrow> ipu6_mmu_info \<Rightarrow> 's \<Rightarrow> bool" for al d where
  mmu_new: "ipu6_mmu_alloc al kz sec s = (Some info, s') \<Longrightarrow> dummy_l2_pteval info = d \<Longrightarrow> mmu_reach al d info s'"
| mmu_map: "mmu_reach al d info s \<Longrightarrow> ipu6_mmu_map al info iova paddr sz s = (r, info', s') \<Longrightarrow>
            mmu_reach al d info' s'"
| mmu_unmap: "mmu_reach al d info s \<Longrightarrow> mmu_reach al d (ipu6_mmu_unmap info iova sz) s"

lemma mmu_reach_inv:
  assumes "mmu_reach al d info s" "alloc_fresh al I d"
    and "\<And>kz sec s0 info0 s1. ipu6_mmu_alloc al kz sec s0 = (Some info0, s1) \<Longrightarrow> dummy_l2_pteval info0 = d \<Longrightarrow> I s1"
  shows "wf_mmu info \<and> pgsize_bitmap info = 0x1000 \<and> dummy_l2_pteval info = d \<and> I s"
  using assms(1)
proof induction
  case (mmu_new kz sec s info s')
  then show ?case using alloc_wf(1,2) [OF mmu_new(1)] assms(3) [OF mmu_new(1,2)] by simp
next
  case (mmu_map info s iova paddr sz r info' s')
  then show ?case
    using wf_mmu_map(1) [of info al I s iova paddr sz r info' s'] assms(2) by (auto simp: same_dummies_def)
next
  case (mmu_unmap info s iova sz)
  then show ?case using wf_mmu_unmap [of info iova sz] by (auto simp: same_dummies_def)
qed

section \<open>A concrete allocator\<close>

definition ex_alloc :: "nat page_alloc" where
  "ex_alloc = \<lparr>get_zeroed_page = (\<lambda>s. (True, s)),
     map_single = (\<lambda>s. (page (min s 1000 + 1), s + 1)),
     vzalloc_ok = (\<lambda>s. (True, s))\<rparr>"

definition ex_info :: ipu6_mmu_info where
  "ex_info = \<lparr>l1_pt = replicate 1024 2, l1_pt_dma = 3, l2_pts = replicate 1024 None,
     dummy_l2_pt = replicate 1024 1, dummy_l2_pteval = 2, dummy_page_pteval = 1,
     aperture_start = 0, aperture_end = 0xffffffff, pgsize_bitmap = 0x1000\<rparr>"

lemma page_small: "page (Suc 0) = 0x1000" "page 2 = 0x2000" "page 3 = 0x3000"
  by (simp_all add: page_def)

lemma ex_alloc_run: "ipu6_mmu_alloc ex_alloc True True 0 = (Some ex_info, 3)"
  by (simp add: ipu6_mmu_alloc_def get_dummy_page_def alloc_dummy_l2_pt_def alloc_l1_pt_def ex_alloc_def
      zero_mmu_info_def Let_def ISP_L1PT_PTES_def ISP_L2PT_PTES_def ISP_PAGE_SHIFT_def ISP_PADDR_SHIFT_def
      page_small ex_info_def IPU6_MMU_ADDR_BITS_def mask_eq_exp_minus_1 numeral_2_eq_2 [symmetric]
      numeral_3_eq_3 [symmetric])

lemma ex_alloc_fresh: "alloc_fresh ex_alloc (\<lambda>s. 2 \<le> s) 2"
proof -
  have "ucast (drop_bit 12 (page (Suc s))) \<noteq> (2 :: u32)" if "2 \<le> s" "s \<le> 1000" for s
  proof
    assume "ucast (drop_bit 12 (page (Suc s))) = (2 :: u32)"
    then have "(word_of_nat (Suc s) :: u32) = 2"
      using that drop_page [of "Suc s"] by (simp add: ucast_of_nat_down del: of_nat_Suc)
    from arg_cong [OF this, of unat] show False
      using that by (simp add: unat_of_nat_u32 del: of_nat_Suc)
  qed
  then show ?thesis
    by (simp add: alloc_fresh_def ex_alloc_def)
qed

section \<open>Properties\<close>

text \<open>
  C6: a successful mapping of \<open>n\<close> pages at page \<open>a\<close> to the pages from \<open>P\<close> on makes exactly
  those pages lead there, changes the entry of no other page, keeps the tables well formed,
  and the driver's own translation finds the mapped addresses.
\<close>

theorem mmu_map_correct:
  assumes "wf_mmu info" "alloc_fresh al I (dummy_l2_pteval info)" "I s" "pgsize_bitmap info = 0x1000"
    and "0 < n" "a + n \<le> 2 ^ 20" "P + n < 2 ^ 52 - 1"
    and "ipu6_mmu_map al info (page a) (page P) (page n) s = (ok, info', s')"
  shows "wf_mmu info' \<and>
    (\<forall>p < 2 ^ 20. pte info' p = (if a \<le> p \<and> p < a + n then word_of_nat (P + (p - a)) else pte info p)) \<and>
    (\<forall>j < n. P + j < 2 ^ 32 \<longrightarrow> ipu6_mmu_iova_to_phys info' (page (a + j)) = Some (page (P + j)))"
proof -
  have post: "map_post a n P info info'"
    using map_page_cases [OF assms(1,2,4,6,7,5,3,8)] by auto
  have "ipu6_mmu_iova_to_phys info' (page (a + j)) = Some (page (P + j))" if "j < n" "P + j < 2 ^ 32" for j
  proof -
    have "live info' ((a + j) div 1024)" "wf_mmu info'"
      using post that(1) by (simp_all add: map_post_def)
    moreover have "a + j < 2 ^ 20" using that(1) assms(6) by linarith
    moreover from this have "pte info' (a + j) = word_of_nat (P + j)"
      using post that(1) by (simp add: map_post_def)
    moreover have "unat (word_of_nat (P + j) :: u32) = P + j" by (rule unat_of_nat_u32 [OF that(2)])
    ultimately show ?thesis using iova_to_phys_page [of info' "a + j"] by simp
  qed
  then show ?thesis using post by (simp add: map_post_def)
qed

lemma ex_alloc_total: "alloc_total ex_alloc (\<lambda>s. 2 \<le> s)"
  by (simp add: alloc_total_def ex_alloc_def page_eq_0)

text \<open>With an allocator that succeeds, a mapping of whole pages succeeds.\<close>

lemma map_page_total:
  assumes "wf_mmu info" "alloc_fresh al I (dummy_l2_pteval info)" "I s" "pgsize_bitmap info = 0x1000"
    and "a < 2 ^ 20" "alloc_total al I"
  shows "\<exists>info' s'. ipu6_mmu_map al info (page a) (page P) (page n) s = (ok, info', s')"
proof -
  obtain e b c d info1 s1 where loop:
    "l2_map_loop al (l1_first (page a)) (page a) (ALIGN_PAGE (page P)) 0 (page n) info s = ((e, b, c, d), info1, s1)"
    by (metis prod.exhaust)
  from wf_l2_map_loop [OF assms(1-3) this] assms(6) have "e = None" by simp
  then show ?thesis
    by (simp add: mmu_map_page [OF assms(4,5)] l2_map_def loop)
qed

lemma ex_mmu:
  "wf_mmu ex_info" "pgsize_bitmap ex_info = 0x1000" "alloc_fresh ex_alloc (\<lambda>s. 2 \<le> s) (dummy_l2_pteval ex_info)"
  "\<And>p. p < 2 ^ 20 \<Longrightarrow> pte ex_info p = 1"
  using alloc_wf [OF ex_alloc_run] ex_alloc_fresh by (simp_all add: ex_info_def)

lemma ex_map_run:
  "\<exists>info' s'. ipu6_mmu_map ex_alloc ex_info (page 1023) (page 5) (page 2) 3 = (ok, info', s')"
  by (rule map_page_total [OF ex_mmu(1,3) _ ex_mmu(2) _ ex_alloc_total]) simp_all

theorem mmu_map_correct_witness:
  "\<exists>info' s'. ipu6_mmu_map ex_alloc ex_info (page 1023) (page 5) (page 2) 3 = (ok, info', s') \<and>
     ipu6_mmu_iova_to_phys info' (page 1024) = Some (page 6) \<and> pte info' 1025 = 1"
proof -
  obtain info' s' where run: "ipu6_mmu_map ex_alloc ex_info (page 1023) (page 5) (page 2) 3 = (ok, info', s')"
    using ex_map_run by blast
  from mmu_map_correct [OF ex_mmu(1,3) _ ex_mmu(2) _ _ _ run]
  have r: "\<forall>p < 2 ^ 20. pte info' p = (if 1023 \<le> p \<and> p < 1023 + 2 then word_of_nat (5 + (p - 1023)) else pte ex_info p)"
    "\<forall>j < 2. 5 + j < 2 ^ 32 \<longrightarrow> ipu6_mmu_iova_to_phys info' (page (1023 + j)) = Some (page (5 + j))"
    by simp_all
  from r(1) have "pte info' 1025 = 1" by (simp add: ex_mmu(4))
  moreover from r(2) [rule_format, of 1] have "ipu6_mmu_iova_to_phys info' (page 1024) = Some (page 6)" by simp
  ultimately show ?thesis using run by blast
qed

text \<open>
  a mapping that fails is rolled back. When no page of the range was mapped before, the
  entries of all pages are what they were, although tables may have been added.
\<close>

theorem mmu_map_failure_rolls_back:
  assumes "wf_mmu info" "alloc_fresh al I (dummy_l2_pteval info)" "I s" "pgsize_bitmap info = 0x1000"
    and "0 < n" "a + n \<le> 2 ^ 20" "P + n < 2 ^ 52 - 1"
    and "\<And>p. a \<le> p \<Longrightarrow> p < a + n \<Longrightarrow> pte info p = dummy_page_pteval info"
    and "ipu6_mmu_map al info (page a) (page P) (page n) s = (Inl e, info', s')"
  shows "wf_mmu info' \<and> (\<forall>p < 2 ^ 20. pte info' p = pte info p)"
proof -
  obtain k where k: "k \<le> n" "wf_mmu info'"
    "\<forall>p < 2 ^ 20. pte info' p = (if a \<le> p \<and> p < a + k then dummy_page_pteval info else pte info p)"
    using map_page_cases [OF assms(1,2,4,6,7,5,3,9)] by auto
  then show ?thesis using assms(8) by auto
qed

definition ex_no_pages :: "nat page_alloc" where
  "ex_no_pages = ex_alloc\<lparr>get_zeroed_page := (\<lambda>s. (False, s))\<rparr>"

theorem mmu_map_failure_rolls_back_witness:
  "\<exists>info' s'. ipu6_mmu_map ex_no_pages ex_info (page 7) (page 5) (page 2) 3 = (Inl ENOMEM, info', s') \<and>
     (\<forall>p < 2 ^ 20. pte info' p = pte ex_info p)"
proof -
  have fresh: "alloc_fresh ex_no_pages (\<lambda>s. 2 \<le> s) (dummy_l2_pteval ex_info)"
    using ex_mmu(3) by (simp add: alloc_fresh_def ex_no_pages_def ex_alloc_def)
  have "l2_table ex_no_pages 0 ex_info 3 = (Some ENOMEM, ex_info, 3)"
    by (simp add: l2_table_def ex_info_def alloc_l2_pt_def ex_no_pages_def Let_def)
  moreover have "l1_first (page 7) = 0" by (simp add: l1_first_page)
  ultimately have "l2_map ex_no_pages ex_info (page 7) (page 5) (page 2) 3 = (Inl ENOMEM, ex_info, 3)"
    by (simp add: l2_map_def l2_map_loop.simps page_pos ISP_L1PT_PTES_def)
  then have run: "ipu6_mmu_map ex_no_pages ex_info (page 7) (page 5) (page 2) 3 = (Inl ENOMEM, ex_info, 3)"
    by (simp add: mmu_map_page ex_mmu(2))
  from mmu_map_failure_rolls_back [OF ex_mmu(1) fresh _ ex_mmu(2) _ _ _ _ run] run
  show ?thesis by (auto simp: ex_mmu(4))
qed

text \<open>
  C37: unmapping what was mapped. After a successful mapping and the unmapping of the same
  range, every page of the range leads to the dummy page and no other page has changed.
\<close>

theorem mmu_map_unmap:
  assumes "wf_mmu info" "alloc_fresh al I (dummy_l2_pteval info)" "I s" "pgsize_bitmap info = 0x1000"
    and "0 < n" "a + n \<le> 2 ^ 20" "P + n < 2 ^ 52 - 1"
    and "ipu6_mmu_map al info (page a) (page P) (page n) s = (ok, info1, s')"
    and "info2 = ipu6_mmu_unmap info1 (page a) (page n)"
  shows "wf_mmu info2 \<and>
    (\<forall>p < 2 ^ 20. pte info2 p = (if a \<le> p \<and> p < a + n then dummy_page_pteval info else pte info p))"
proof -
  have post: "map_post a n P info info1"
    using map_page_cases [OF assms(1,2,4,6,7,5,3,8)] by auto
  then have "pgsize_bitmap info1 = 0x1000"
    using assms(4) by (simp add: map_post_def same_dummies_def)
  then have "unmap_post a n info1 info2"
    using post assms(5,6) by (simp add: assms(9) mmu_unmap_page l2_unmap_page map_post_def)
  then show ?thesis
    using post by (auto simp: unmap_post_def map_post_def same_dummies_def)
qed

theorem mmu_map_unmap_witness:
  "\<exists>info1 s'. ipu6_mmu_map ex_alloc ex_info (page 1023) (page 5) (page 2) 3 = (ok, info1, s') \<and>
     (\<forall>p < 2 ^ 20. pte (ipu6_mmu_unmap info1 (page 1023) (page 2)) p = 1)"
proof -
  obtain info1 s' where run: "ipu6_mmu_map ex_alloc ex_info (page 1023) (page 5) (page 2) 3 = (ok, info1, s')"
    using ex_map_run by blast
  have "dummy_page_pteval ex_info = 1" by (simp add: ex_info_def)
  with mmu_map_unmap [OF ex_mmu(1,3) _ ex_mmu(2) _ _ _ run refl] ex_mmu(4)
  have "\<forall>p < 2 ^ 20. pte (ipu6_mmu_unmap info1 (page 1023) (page 2)) p = 1" by simp
  with run show ?thesis by blast
qed

text \<open>The loop skips first-level entries without a table and leaves the address as it is.\<close>

lemma unmap_loop_skips:
  assumes "i + m \<le> 1024" "\<And>j. i \<le> j \<Longrightarrow> j < i + m \<Longrightarrow> \<not> live info j" "0 < n" "n < 2 ^ 52"
  shows "l2_unmap_loop i (page a) (page n) info = l2_unmap_loop (i + m) (page a) (page n) info"
  using assms
proof (induction m)
  case (Suc m)
  then have "l2_unmap_loop i (page a) (page n) info = l2_unmap_loop (i + m) (page a) (page n) info" by simp
  also have "\<dots> = l2_unmap_loop (i + Suc m) (page a) (page n) info"
    using Suc.prems by (subst l2_unmap_loop.simps) (simp add: live_def page_pos ISP_L1PT_PTES_def)
  finally show ?case .
qed simp

text \<open>
  C40: unmapping over a hole. When the first \<open>m\<close> first-level entries of a range have no table, and the
  entries behind them, as many as the range is long, have one, the loop goes on to the next
  entries without advancing the address: the pages \<open>m\<close> times 4 MB above the range are unmapped, and the range
  itself stays as it is where the two do not overlap.
\<close>

theorem mmu_unmap_hole:
  assumes "wf_mmu info" "pgsize_bitmap info = 0x1000" "0 < n" "a + 1024 * m + n \<le> 2 ^ 20"
    and "\<And>j. a div 1024 \<le> j \<Longrightarrow> j < a div 1024 + m \<Longrightarrow> \<not> live info j"
    and "\<And>p. a + 1024 * m \<le> p \<Longrightarrow> p < a + 1024 * m + n \<Longrightarrow> live info (p div 1024)"
  shows "\<forall>p < 2 ^ 20. pte (ipu6_mmu_unmap info (page a) (page n)) p =
    (if a + 1024 * m \<le> p \<and> p < a + 1024 * m + n then dummy_page_pteval info else pte info p)"
proof -
  have a: "a < 2 ^ 20" and n: "n < 2 ^ 52" using assms(3,4) by simp_all
  have "(a + 1024 * m) div 1024 < 1024" using assms(3,4) by (simp add: div_less_iff_less_mult)
  then have "a div 1024 + m \<le> 1024" by simp
  from unmap_loop_skips [OF this assms(5,3) n, of a]
  have "l2_unmap info (page a) (page n) = l2_unmap_loop (a div 1024 + m) (page a) (page n) info"
    by (simp add: l2_unmap_def l1_first_page [OF a])
  with l2_unmap_loop_shifted [OF assms(1) refl assms(4,6)]
  have "unmap_post (a + 1024 * m) n info (l2_unmap info (page a) (page n))" by simp
  then show ?thesis
    by (simp add: mmu_unmap_page [OF assms(2)] unmap_post_def)
qed

theorem mmu_unmap_hole_witness:
  "\<exists>info. wf_mmu info \<and> pte info 1024 = 5 \<and> pte (ipu6_mmu_unmap info (page 0) (page 1)) 1024 = 1"
proof -
  define info where "info = ex_info\<lparr>l1_pt := (l1_pt ex_info)[1 := 9],
    l2_pts := (l2_pts ex_info)[1 := Some (replicate 1024 5)]\<rparr>"
  have info: "live info j = (j = 1)" if "j < 1024" for j
    using that by (cases "j = 1") (simp_all add: live_def info_def ex_info_def)
  have wf: "wf_mmu info"
    using info by (auto simp: wf_mmu_def) (auto simp: info_def ex_info_def nth_list_update split: option.splits)
  have p: "pte info 1024 = 5" "pgsize_bitmap info = 0x1000" "dummy_page_pteval info = 1"
    by (simp_all add: pte_def info_def ex_info_def)
  from mmu_unmap_hole [OF wf p(2), of 1 0 1]
  have "pte (ipu6_mmu_unmap info (page 0) (page 1)) 1024 = 1"
    by (simp add: info p(3))
  with wf p(1) show ?thesis by blast
qed

text \<open>
  C36: after a successful allocation of the tables, every sequence of mappings and
  unmappings, with any arguments and any allocation failures, keeps the tables well formed:
  a first-level entry leads away from the dummy table exactly when its second-level table
  exists, and that table has 1024 entries.
\<close>

theorem mmu_reach_wf:
  assumes "mmu_reach al d info s" "alloc_fresh al I d"
    and "\<And>kz sec s0 info0 s1. ipu6_mmu_alloc al kz sec s0 = (Some info0, s1) \<Longrightarrow>
           dummy_l2_pteval info0 = d \<Longrightarrow> I s1"
  shows "wf_mmu info"
  using mmu_reach_inv [OF assms(1,2)] assms(3) by blast

theorem mmu_reach_wf_witness: "wf_mmu (ipu6_mmu_unmap ex_info 0x1000 0x3000)"
proof -
  have reach: "mmu_reach ex_alloc 2 (ipu6_mmu_unmap ex_info 0x1000 0x3000) 3"
    by (intro mmu_unmap mmu_new [OF ex_alloc_run]) (simp add: ex_info_def)
  have "2 \<le> s1" if "ipu6_mmu_alloc ex_alloc kz sec s0 = (Some info0, s1)" for kz sec s0 info0 s1
    using that by (auto simp: ipu6_mmu_alloc_def get_dummy_page_def alloc_dummy_l2_pt_def alloc_l1_pt_def
        ex_alloc_def Let_def page_eq_0 split: if_splits)
  from mmu_reach_wf [OF reach ex_alloc_fresh] this show ?thesis by blast
qed

end
