(* ===== verification/Syscom_Link.thy ===== *)
theory Syscom_Link
  imports Qemu_Ipu4
begin

unbundle bit_operations_syntax

text \<open>
  The two ends of the message queues together: the driver's queue operations of
  \<open>Fw_Com\<close> on the emulated device of \<open>Qemu_Ipu4\<close>. The driver's receive side and its send
  side on the streams 1 to 7 refine a first-in first-out list, through the two
  interpretations of \<open>regmem\<close>; the device's answer appends to the list the driver reads.
\<close>

section \<open>Guest memory\<close>

text \<open>
  What the device relies on of guest memory: a successful write is read back, leaves
  disjoint ranges alone, and an interrupt changes no memory.
\<close>

definition guest_ram :: "'m pci_env \<Rightarrow> bool" where
  "guest_ram env \<longleftrightarrow>
     (\<forall>p bs m m'. pci_dma_write env p bs m = Some m' \<longrightarrow>
        pci_dma_read env p (length bs) m' = Some bs \<and>
        (\<forall>p' n. unat p + length bs \<le> unat p' \<or> unat p' + n \<le> unat p \<longrightarrow>
           pci_dma_read env p' n m' = pci_dma_read env p' n m)) \<and>
     (\<forall>p n m. pci_dma_read env p n (msi_notify env m) = pci_dma_read env p n m)"

lemma guest_ram_written:
  assumes "guest_ram env" "pci_dma_write env p bs m = Some m'"
  shows "pci_dma_read env p (length bs) m' = Some bs"
    and "unat p + length bs \<le> unat p' \<or> unat p' + n \<le> unat p \<Longrightarrow>
         pci_dma_read env p' n m' = pci_dma_read env p' n m"
  using assms unfolding guest_ram_def by blast+

lemma guest_ram_irq:
  "guest_ram env \<Longrightarrow> pci_dma_read env p n (msi_notify env m) = pci_dma_read env p n m"
  by (simp add: guest_ram_def)

text \<open>
  The driver's view of the token storage: \<open>v2p\<close> is the physical address behind a CPU
  address, and every slot's device address translates to it. The slots do not overlap.
\<close>

definition slots_mapped ::
  "'m pci_env \<Rightarrow> (u64 \<Rightarrow> u64) \<Rightarrow> ipu6_fw_sys_queue \<Rightarrow> 'm dev \<Rightarrow> bool" where
  "slots_mapped env v2p q d \<longleftrightarrow>
     (\<forall>i < q_size q. ipu4_iova_to_phys env (fst d) (snd d) (q_vied_address q + i * q_token_size q)
         = Some (v2p (token_addr q i))) \<and>
     (\<forall>i < q_size q. \<forall>j < q_size q. i \<noteq> j \<longrightarrow>
        unat (v2p (token_addr q i)) + 64 \<le> unat (v2p (token_addr q j)) \<or>
        unat (v2p (token_addr q j)) + 64 \<le> unat (v2p (token_addr q i)))"

definition host_view :: "'m pci_env \<Rightarrow> (u64 \<Rightarrow> u64) \<Rightarrow> 'm \<Rightarrow> u64 \<Rightarrow> u8 list option" where
  "host_view env v2p m a = pci_dma_read env (v2p a) 64 m"

text \<open>The driver's context describes the device's message receive queue.\<close>

definition recv_linked :: "u64 \<Rightarrow> 'm dev ipu6_fw_com_context \<Rightarrow> ipu6_fw_sys_queue \<Rightarrow> 'm dev \<Rightarrow> bool" where
  "recv_linked bar ctx q d \<longleftrightarrow> recv_bound (fst d) \<and> is_recv_q (fst d) = q \<and>
     dmem_addr ctx = bar + IS_DMEM_BASE \<and> q_token_size q \<ge> 64"

lemma length_encode_resp [simp]: "length (encode_resp r) = 64"
  by (simp add: encode_resp_def)

lemma q_dmem_regs:
  assumes "dmem_addr ctx = bar + IS_DMEM_BASE" "unat (q_wr_reg q) = r" "r < 63"
  shows "q_dmem ctx q + FW_COM_WR_REG = bar + dmem_reg r"
    and "q_dmem ctx q + FW_COM_RD_REG = bar + dmem_reg (Suc r)"
proof -
  have off: "unat (q_wr_reg q * 4) = 4 * r"
    using assms(2,3) by (subst unat_mult_no_wrap) simp_all
  have "q_wr_reg q * 4 = word_of_nat (4 * r)"
    by (simp flip: off)
  moreover have "ucast (word_of_nat (4 * r) :: u32) = (word_of_nat (4 * r) :: u64)"
    using assms(3) by (intro ucast_of_nat_u32) simp
  ultimately have "q_dmem ctx q = bar + dmem_reg r"
    by (simp only: q_dmem_def assms(1) dmem_reg_def add.assoc)
  then show "q_dmem ctx q + FW_COM_WR_REG = bar + dmem_reg r"
    "q_dmem ctx q + FW_COM_RD_REG = bar + dmem_reg (Suc r)"
    by (simp_all add: FW_COM_WR_REG_def FW_COM_RD_REG_def dmem_reg_def)
qed

lemma recv_linked_regs:
  assumes "recv_linked bar ctx q d"
  shows "q_dmem ctx q + FW_COM_WR_REG = bar + dmem_reg recv_wr_reg"
    and "q_dmem ctx q + FW_COM_RD_REG = bar + dmem_reg recv_rd_reg"
    and "q_wr (qemu_dev env bar) ctx q d = is_dmem (fst d) ! recv_wr_reg"
    and "q_rd (qemu_dev env bar) ctx q d = is_dmem (fst d) ! recv_rd_reg"
proof -
  have "unat (q_wr_reg q) = recv_wr_reg" and "dmem_addr ctx = bar + IS_DMEM_BASE"
    using assms by (auto simp: recv_linked_def recv_bound_def)
  from q_dmem_regs [OF this(2,1)]
  show regs: "q_dmem ctx q + FW_COM_WR_REG = bar + dmem_reg recv_wr_reg"
    "q_dmem ctx q + FW_COM_RD_REG = bar + dmem_reg recv_rd_reg"
    by (simp_all add: recv_wr_reg_def recv_rd_reg_def)
  show "q_wr (qemu_dev env bar) ctx q d = is_dmem (fst d) ! recv_wr_reg"
    "q_rd (qemu_dev env bar) ctx q d = is_dmem (fst d) ! recv_rd_reg"
    by (simp_all add: q_wr_def q_rd_def regs qemu_reg_val recv_wr_reg_def recv_rd_reg_def)
qed

section \<open>The device's answer on the ring\<close>

lemma get_recv_queue_linked:
  "recv_linked bar ctx q d \<Longrightarrow> ipu4_get_recv_queue env d = (Some q, d)"
  by (auto simp: recv_linked_def recv_bound_def ipu4_get_recv_queue_def case_prod_beta)

text \<open>What posting does once the queue is linked and its indices are in range.\<close>

definition post_done :: "'m pci_env \<Rightarrow> u32 \<Rightarrow> 'm \<Rightarrow> Ipu4State \<Rightarrow> 'm dev" where
  "post_done env wr m s =
     (s\<lparr>is_dmem := (is_dmem s)[recv_wr_reg := wr],
        is_unispart_irq_status := is_unispart_irq_status s OR ISYS_UNISPART_IRQ_SW,
        isr_status := isr_status s OR BTRS_ISR_IS_IRQ\<rparr>,
      if msi_enabled env m then msi_notify env m else m)"

lemma post_response_linked:
  assumes "recv_linked bar ctx q d" "is_dmem (fst d) ! recv_wr_reg < q_size q"
    and "slots_mapped env v2p q d"
  shows "ipu4_post_response_full env resp d =
    (case pci_dma_write env (v2p (token_addr q (is_dmem (fst d) ! recv_wr_reg))) (encode_resp resp) (snd d) of
       None \<Rightarrow> d
     | Some m1 \<Rightarrow> post_done env ((is_dmem (fst d) ! recv_wr_reg + 1) mod q_size q) m1 (fst d))"
proof -
  let ?wr = "is_dmem (fst d) ! recv_wr_reg"
  have q: "unat (q_wr_reg q) = recv_wr_reg" "\<not> q_token_size q < 64"
    using assms(1) by (auto simp: recv_linked_def recv_bound_def)
  then have "\<not> 64 \<le> q_wr_reg q" "q_size q \<noteq> 0" "\<not> q_size q \<le> ?wr"
    using assms(2) by (auto simp: word_le_nat_alt word_less_nat_alt recv_wr_reg_def)
  moreover have "ipu4_iova_to_phys env (fst d) (snd d) (q_vied_address q + ?wr * q_token_size q)
      = Some (v2p (token_addr q ?wr))"
    using assms(2,3) by (simp add: slots_mapped_def)
  ultimately show ?thesis
    using q assms(2) by (simp add: ipu4_post_response_full_def get_recv_queue_linked [OF assms(1)]
        Let_def case_prod_beta ipu4_dma_write_iova_def post_done_def split: option.split)
qed

lemma unat_next_mod:
  assumes "(i :: u32) < n"
  shows "unat ((i + 1) mod n) = ring_next (unat n) (unat i)"
proof -
  have "unat (i + 1) = unat i + 1"
    using assms unat_u32_less [of n] by (simp add: unat_add_no_wrap word_less_nat_alt)
  then show ?thesis
    using assms by (simp add: unat_mod ring_next_mod word_less_nat_alt)
qed

lemma post_done_regs:
  assumes "recv_linked bar ctx q d" "d' = post_done env wr m (fst d)"
  shows "recv_linked bar ctx q d'"
    and "q_wr (qemu_dev env bar) ctx q d' = wr"
    and "q_rd (qemu_dev env bar) ctx q d' = q_rd (qemu_dev env bar) ctx q d"
proof -
  have "recv_bound (fst d)" "is_recv_q (fst d) = q"
    using assms(1) by (simp_all add: recv_linked_def)
  then have b: "recv_bound (fst d')" "is_recv_q (fst d') = q"
    by (simp_all add: assms(2) post_done_def recv_bound_def)
  with assms(1) show l: "recv_linked bar ctx q d'"
    by (simp add: recv_linked_def)
  show "q_wr (qemu_dev env bar) ctx q d' = wr"
    using \<open>recv_bound (fst d)\<close>
    by (simp add: recv_linked_regs [OF l]) (simp add: assms(2) post_done_def recv_bound_def
        wf_ipu4_def recv_wr_reg_def)
  show "q_rd (qemu_dev env bar) ctx q d' = q_rd (qemu_dev env bar) ctx q d"
    by (simp add: recv_linked_regs [OF l] recv_linked_regs [OF assms(1)])
      (simp add: assms(2) post_done_def recv_wr_reg_def recv_rd_reg_def)
qed

text \<open>The tokens the driver sees are the bytes the device wrote, in order.\<close>

lemma host_view_written:
  assumes "guest_ram env" "slots_mapped env v2p q d"
    and "pci_dma_write env (v2p (token_addr q wr)) bs m = Some m1" "length bs = 64"
    and "wr < q_size q" "i < q_size q"
  shows "host_view env v2p (snd (post_done env w m1 s)) (token_addr q i)
         = (if i = wr then Some bs else host_view env v2p m (token_addr q i))"
proof -
  have irq: "pci_dma_read env p n (snd (post_done env w m1 s)) = pci_dma_read env p n m1" for p n
    using assms(1) by (simp add: guest_ram_irq post_done_def)
  note w = guest_ram_written [OF assms(1,3), unfolded assms(4)]
  have "pci_dma_read env (v2p (token_addr q wr)) 64 m1 = Some bs"
    by (rule w)
  moreover have "pci_dma_read env p 64 m1 = pci_dma_read env p 64 m"
    if "unat (v2p (token_addr q wr)) + 64 \<le> unat p \<or> unat p + 64 \<le> unat (v2p (token_addr q wr))" for p
    using that by (rule w)
  ultimately show ?thesis
    using assms(2,5,6) unfolding slots_mapped_def host_view_def irq by metis
qed

lemma ring_tokens_posted:
  assumes "guest_ram env" "recv_linked bar ctx q d" "slots_mapped env v2p q d"
    and "ring_inv (qemu_dev env bar) ctx q d"
    and "length (ring_tokens (qemu_dev env bar) ctx q (host_view env v2p (snd d)) d) < unat (q_size q) - 1"
    and "pci_dma_write env (v2p (token_addr q (q_wr (qemu_dev env bar) ctx q d))) bs (snd d) = Some m1"
    and "length bs = 64"
    and "d' = post_done env ((q_wr (qemu_dev env bar) ctx q d + 1) mod q_size q) m1 (fst d)"
  shows "ring_tokens (qemu_dev env bar) ctx q (host_view env v2p (snd d')) d'
         = ring_tokens (qemu_dev env bar) ctx q (host_view env v2p (snd d)) d @ [Some bs]"
proof -
  let ?dv = "qemu_dev env bar"
  let ?wr = "q_wr ?dv ctx q d" and ?rd = "q_rd ?dv ctx q d" and ?n = "unat (q_size q)"
  have lt: "?wr < q_size q" "?rd < q_size q"
    using assms(4) by (simp_all add: ring_inv_def)
  then have lt': "unat ?wr < ?n" "unat ?rd < ?n"
    by (simp_all add: word_less_nat_alt)
  note regs = post_done_regs [OF assms(2,8)]
  have hv: "host_view env v2p (snd d') (token_addr q i)
      = (if i = ?wr then Some bs else host_view env v2p (snd d) (token_addr q i))" if "i < q_size q" for i
    unfolding assms(8) by (rule host_view_written [OF assms(1,3,6,7) lt(1) that])
  have "host_view env v2p (snd d') (token_addr q (word_of_nat i))
      = host_view env v2p (snd d) (token_addr q (word_of_nat i))"
    if i: "i \<in> set (ring_idxs ?n (unat ?wr) (unat ?rd))" for i
  proof -
    have "i < ?n" using lt'(1) by (intro ring_idxs_less [OF _ i]) simp
    then have u: "unat (word_of_nat i :: u32) = i"
      using unat_u32_less [of "q_size q"] by (intro unat_of_nat_u32) linarith
    moreover have "i \<noteq> unat ?wr" using i ring_idxs_wr_fresh [OF lt'] by metis
    ultimately have "word_of_nat i \<noteq> ?wr" by metis
    with u \<open>i < ?n\<close> show ?thesis by (simp add: hv word_less_nat_alt)
  qed
  then show ?thesis
    using assms(5) lt' by (simp add: ring_tokens_def regs unat_next_mod [OF lt(1)] length_ring_tokens
        ring_idxs_put hv [OF lt(1)])
qed

lemma post_response_ring:
  assumes "guest_ram env" "recv_linked bar ctx q d" "slots_mapped env v2p q d"
    and "ring_inv (qemu_dev env bar) ctx q d"
    and "pci_dma_write env (v2p (token_addr q (q_wr (qemu_dev env bar) ctx q d)))
           (encode_resp resp) (snd d) = Some m1"
    and "d' = ipu4_post_response_full env resp d"
  shows "d' = post_done env ((q_wr (qemu_dev env bar) ctx q d + 1) mod q_size q) m1 (fst d)"
    and "recv_linked bar ctx q d'" "ring_inv (qemu_dev env bar) ctx q d'"
    and "unat (q_wr (qemu_dev env bar) ctx q d') = ring_next (unat (q_size q)) (unat (q_wr (qemu_dev env bar) ctx q d))"
    and "q_rd (qemu_dev env bar) ctx q d' = q_rd (qemu_dev env bar) ctx q d"
proof -
  let ?dv = "qemu_dev env bar"
  note wr = recv_linked_regs(3) [OF assms(2), of env]
  have lt: "q_wr ?dv ctx q d < q_size q" "q_rd ?dv ctx q d < q_size q"
    using assms(4) by (simp_all add: ring_inv_def)
  show d': "d' = post_done env ((q_wr ?dv ctx q d + 1) mod q_size q) m1 (fst d)"
    using post_response_linked [OF assms(2) _ assms(3), of resp] lt(1) assms(5,6) by (simp add: wr)
  note regs = post_done_regs [OF assms(2) d']
  show "recv_linked bar ctx q d'" by (rule regs(1))
  show "unat (q_wr ?dv ctx q d') = ring_next (unat (q_size q)) (unat (q_wr ?dv ctx q d))"
    by (simp add: regs unat_next_mod [OF lt(1)])
  then show "ring_inv ?dv ctx q d'"
    using lt by (simp add: ring_inv_def regs word_less_nat_alt ring_next_less)
  show "q_rd ?dv ctx q d' = q_rd ?dv ctx q d" by (rule regs(3))
qed

section \<open>Interleavings of the two sides\<close>

text \<open>
  Every table entry that the walk to a slot reads lies outside the slots, so that answering
  cannot change the translation of a slot.
\<close>

definition l1_entry_addr :: "Ipu4State \<Rightarrow> u32 \<Rightarrow> u64" where
  "l1_entry_addr s iova = push_bit 12 (ucast (is_mmu_l1_pfn s)) + ucast (drop_bit 22 iova AND 0x3ff) * 4"

definition l2_entry_addr :: "'m pci_env \<Rightarrow> Ipu4State \<Rightarrow> 'm \<Rightarrow> u32 \<Rightarrow> u64" where
  "l2_entry_addr env s m iova =
     (case pci_dma_read env (l1_entry_addr s iova) 4 m of
        Some b1 \<Rightarrow> push_bit 12 (ucast (field_at 0 4 b1 :: u32)) + ucast (drop_bit 12 iova AND 0x3ff) * 4
      | None \<Rightarrow> 0)"

definition off_slots :: "(u64 \<Rightarrow> u64) \<Rightarrow> ipu6_fw_sys_queue \<Rightarrow> u64 \<Rightarrow> bool" where
  "off_slots v2p q p \<longleftrightarrow> (\<forall>j < q_size q.
     unat (v2p (token_addr q j)) + 64 \<le> unat p \<or> unat p + 4 \<le> unat (v2p (token_addr q j)))"

definition tables_apart ::
  "'m pci_env \<Rightarrow> (u64 \<Rightarrow> u64) \<Rightarrow> ipu6_fw_sys_queue \<Rightarrow> 'm dev \<Rightarrow> bool" where
  "tables_apart env v2p q d \<longleftrightarrow> (\<forall>i < q_size q.
     let iova = q_vied_address q + i * q_token_size q
     in off_slots v2p q (l1_entry_addr (fst d) iova) \<and>
        off_slots v2p q (l2_entry_addr env (fst d) (snd d) iova))"

lemma iova_to_phys_cong:
  assumes "is_mmu_l1_pfn s' = is_mmu_l1_pfn s"
    and "pci_dma_read env (l1_entry_addr s iova) 4 m' = pci_dma_read env (l1_entry_addr s iova) 4 m"
    and "pci_dma_read env (l2_entry_addr env s m iova) 4 m' = pci_dma_read env (l2_entry_addr env s m iova) 4 m"
  shows "ipu4_iova_to_phys env s' m' iova = ipu4_iova_to_phys env s m iova"
proof (cases "pci_dma_read env (l1_entry_addr s iova) 4 m")
  case None
  with assms(1,2) show ?thesis
    by (simp add: ipu4_iova_to_phys_def l1_entry_addr_def Let_def)
next
  case (Some b1)
  with assms show ?thesis
    by (simp add: ipu4_iova_to_phys_def l1_entry_addr_def l2_entry_addr_def Let_def)
qed

lemma slots_mapped_post:
  assumes "guest_ram env" "slots_mapped env v2p q d" "tables_apart env v2p q d"
    and "pci_dma_write env (v2p (token_addr q wr)) bs (snd d) = Some m1" "length bs = 64"
    and "wr < q_size q" "d' = post_done env w m1 (fst d)"
  shows "slots_mapped env v2p q d'" "tables_apart env v2p q d'"
proof -
  have keep: "pci_dma_read env p 4 (snd d') = pci_dma_read env p 4 (snd d)" if "off_slots v2p q p" for p
    using guest_ram_written(2) [OF assms(1,4), of p 4] assms(1,5,6) that
    by (simp add: assms(7) post_done_def guest_ram_irq off_slots_def)
  have pfn: "is_mmu_l1_pfn (fst d') = is_mmu_l1_pfn (fst d)"
    by (simp add: assms(7) post_done_def)
  have l1: "l1_entry_addr (fst d') a = l1_entry_addr (fst d) a" for a
    by (simp add: l1_entry_addr_def pfn)
  have apart: "off_slots v2p q (l1_entry_addr (fst d) (q_vied_address q + i * q_token_size q))"
      "off_slots v2p q (l2_entry_addr env (fst d) (snd d) (q_vied_address q + i * q_token_size q))"
    if "i < q_size q" for i
    using assms(3) that by (simp_all add: tables_apart_def Let_def)
  have "ipu4_iova_to_phys env (fst d') (snd d') (q_vied_address q + i * q_token_size q)
      = ipu4_iova_to_phys env (fst d) (snd d) (q_vied_address q + i * q_token_size q)"
    if "i < q_size q" for i
    using apart [OF that] by (intro iova_to_phys_cong pfn keep)
  with assms(2) show "slots_mapped env v2p q d'"
    by (simp add: slots_mapped_def)
  have "l2_entry_addr env (fst d') (snd d') (q_vied_address q + i * q_token_size q)
      = l2_entry_addr env (fst d) (snd d) (q_vied_address q + i * q_token_size q)"
    if "i < q_size q" for i
    using apart(1) [OF that] by (simp add: l2_entry_addr_def l1 keep)
  with apart show "tables_apart env v2p q d'"
    by (simp add: tables_apart_def Let_def l1)
qed

definition link_inv ::
  "'m pci_env \<Rightarrow> u64 \<Rightarrow> (u64 \<Rightarrow> u64) \<Rightarrow> 'm dev ipu6_fw_com_context \<Rightarrow> nat \<Rightarrow> 'm dev \<Rightarrow> bool" where
  "link_inv env bar v2p ctx n d \<longleftrightarrow>
     (let q = output_queue ctx ! n
      in recv_linked bar ctx q d \<and> slots_mapped env v2p q d \<and> tables_apart env v2p q d \<and>
         ring_inv (qemu_dev env bar) ctx q d)"

definition pending ::
  "'m pci_env \<Rightarrow> u64 \<Rightarrow> (u64 \<Rightarrow> u64) \<Rightarrow> 'm dev ipu6_fw_com_context \<Rightarrow> nat \<Rightarrow> 'm dev \<Rightarrow> u8 list option list" where
  "pending env bar v2p ctx n d =
     ring_tokens (qemu_dev env bar) ctx (output_queue ctx ! n) (host_view env v2p (snd d)) d"

text \<open>
  One step of either side: the device posts a response while the ring has room, the write of a
  response to guest memory fails, or the driver fetches the oldest token and frees its slot.
\<close>

datatype link_event = Posted Ipu4FwIsysRespInfo | Lost Ipu4FwIsysRespInfo | Received "u8 list option"

inductive link_step ::
  "'m pci_env \<Rightarrow> u64 \<Rightarrow> (u64 \<Rightarrow> u64) \<Rightarrow> 'm dev ipu6_fw_com_context \<Rightarrow> nat
   \<Rightarrow> 'm dev \<Rightarrow> link_event \<Rightarrow> 'm dev \<Rightarrow> bool"
  for env bar v2p ctx n where
  post: "length (pending env bar v2p ctx n d) < unat (q_size (output_queue ctx ! n)) - 1 \<Longrightarrow>
         pci_dma_write env (v2p (token_addr (output_queue ctx ! n)
             (q_wr (qemu_dev env bar) ctx (output_queue ctx ! n) d))) (encode_resp resp) (snd d) = Some m1 \<Longrightarrow>
         link_step env bar v2p ctx n d (Posted resp) (ipu4_post_response_full env resp d)"
| lost: "pci_dma_write env (v2p (token_addr (output_queue ctx ! n)
             (q_wr (qemu_dev env bar) ctx (output_queue ctx ! n) d))) (encode_resp resp) (snd d) = None \<Longrightarrow>
         link_step env bar v2p ctx n d (Lost resp) (ipu4_post_response_full env resp d)"
| recv: "run_state (ipu6_recv_get_token (qemu_dev env bar) ctx n) d = (Some a, d1) \<Longrightarrow>
         run_state (ipu6_recv_put_token (qemu_dev env bar) ctx n) d1 = ((), d2) \<Longrightarrow>
         link_step env bar v2p ctx n d (Received (host_view env v2p (snd d1) a)) d2"

inductive link_trace ::
  "'m pci_env \<Rightarrow> u64 \<Rightarrow> (u64 \<Rightarrow> u64) \<Rightarrow> 'm dev ipu6_fw_com_context \<Rightarrow> nat
   \<Rightarrow> 'm dev \<Rightarrow> link_event list \<Rightarrow> 'm dev \<Rightarrow> bool"
  for env bar v2p ctx n where
  trace_nil: "link_trace env bar v2p ctx n d [] d"
| trace_step: "link_step env bar v2p ctx n d e d1 \<Longrightarrow> link_trace env bar v2p ctx n d1 es d2 \<Longrightarrow>
               link_trace env bar v2p ctx n d (e # es) d2"

fun posted :: "link_event list \<Rightarrow> u8 list option list" where
  "posted [] = []"
| "posted (Posted r # es) = Some (encode_resp r) # posted es"
| "posted (Lost r # es) = posted es"
| "posted (Received t # es) = posted es"

fun received :: "link_event list \<Rightarrow> u8 list option list" where
  "received [] = []"
| "received (Posted r # es) = received es"
| "received (Lost r # es) = received es"
| "received (Received t # es) = t # received es"

lemma recv_put_frame:
  assumes "recv_linked bar ctx (output_queue ctx ! n) d"
    and "run_state (ipu6_recv_put_token (qemu_dev env bar) ctx n) d = ((), d2)"
  shows "\<exists>v. d2 = ((fst d)\<lparr>is_dmem := (is_dmem (fst d))[recv_rd_reg := v]\<rparr>, snd d)"
proof -
  note regs = recv_linked_regs [OF assms(1)]
  have r: "recv_rd_reg = 29" by (simp add: recv_rd_reg_def)
  have "dev_read (qemu_dev env bar) (bar + dmem_reg 29) d = (is_dmem (fst d) ! 29, d)"
    by (rule qemu_read_dmem) simp_all
  then show ?thesis
    using assms(2) dmem_write_plain [of 29 env _ "fst d" "snd d"]
    by (auto simp: ipu6_recv_put_token_def Let_def regs(2) r qemu_write_dmem)
qed

lemma dmem_update_frame:
  assumes "d2 = ((fst d)\<lparr>is_dmem := (is_dmem (fst d))[r := v]\<rparr>, snd d)"
  shows "recv_linked bar ctx q d2 = recv_linked bar ctx q d"
    and "slots_mapped env v2p q d2 = slots_mapped env v2p q d"
    and "tables_apart env v2p q d2 = tables_apart env v2p q d"
proof -
  have "ipu4_iova_to_phys env (fst d2) (snd d2) a = ipu4_iova_to_phys env (fst d) (snd d) a" for a
    using assms by (simp add: ipu4_iova_to_phys_def)
  then show "slots_mapped env v2p q d2 = slots_mapped env v2p q d"
    by (simp add: slots_mapped_def)
  show "tables_apart env v2p q d2 = tables_apart env v2p q d"
    using assms by (simp add: tables_apart_def l1_entry_addr_def l2_entry_addr_def)
  show "recv_linked bar ctx q d2 = recv_linked bar ctx q d"
    using assms by (simp add: recv_linked_def recv_bound_def)
qed

lemma link_step_post:
  assumes "guest_ram env" "link_inv env bar v2p ctx n d"
    and "length (pending env bar v2p ctx n d) < unat (q_size (output_queue ctx ! n)) - 1"
    and "pci_dma_write env (v2p (token_addr (output_queue ctx ! n)
             (q_wr (qemu_dev env bar) ctx (output_queue ctx ! n) d))) (encode_resp resp) (snd d) = Some m1"
    and d': "d' = ipu4_post_response_full env resp d"
  shows "link_inv env bar v2p ctx n d'"
    and "pending env bar v2p ctx n d' = pending env bar v2p ctx n d @ [Some (encode_resp resp)]"
proof -
  let ?q = "output_queue ctx ! n"
  have inv: "recv_linked bar ctx ?q d" "slots_mapped env v2p ?q d" "tables_apart env v2p ?q d"
      "ring_inv (qemu_dev env bar) ctx ?q d"
    using assms(2) by (simp_all add: link_inv_def Let_def)
  note post = post_response_ring [OF assms(1) inv(1,2,4) assms(4) d']
  have "q_wr (qemu_dev env bar) ctx ?q d < q_size ?q"
    using inv(4) by (simp add: ring_inv_def)
  note keep = slots_mapped_post [OF assms(1) inv(2,3) assms(4) length_encode_resp this post(1)]
  from keep post(2,3) show "link_inv env bar v2p ctx n d'"
    by (simp add: link_inv_def Let_def)
  show "pending env bar v2p ctx n d' = pending env bar v2p ctx n d @ [Some (encode_resp resp)]"
    using ring_tokens_posted [OF assms(1) inv(1,2,4) _ assms(4) length_encode_resp post(1)] assms(3)
    by (simp add: pending_def)
qed

lemma link_step_lost:
  assumes "link_inv env bar v2p ctx n d"
    and "pci_dma_write env (v2p (token_addr (output_queue ctx ! n)
           (q_wr (qemu_dev env bar) ctx (output_queue ctx ! n) d))) (encode_resp resp) (snd d) = None"
  shows "ipu4_post_response_full env resp d = d"
proof -
  let ?q = "output_queue ctx ! n"
  have inv: "recv_linked bar ctx ?q d" "slots_mapped env v2p ?q d" "q_wr (qemu_dev env bar) ctx ?q d < q_size ?q"
    using assms(1) by (simp_all add: link_inv_def Let_def ring_inv_def)
  then show ?thesis
    using post_response_linked [OF inv(1) _ inv(2), of resp] assms(2) by (simp add: recv_linked_regs [OF inv(1)])
qed

lemma link_step_recv:
  assumes "link_inv env bar v2p ctx n d"
    and "run_state (ipu6_recv_get_token (qemu_dev env bar) ctx n) d = (Some a, d1)"
    and "run_state (ipu6_recv_put_token (qemu_dev env bar) ctx n) d1 = ((), d2)"
  shows "d1 = d" "link_inv env bar v2p ctx n d2"
    and "pending env bar v2p ctx n d = host_view env v2p (snd d) a # pending env bar v2p ctx n d2"
proof -
  let ?q = "output_queue ctx ! n"
  have inv: "recv_linked bar ctx ?q d" "slots_mapped env v2p ?q d" "tables_apart env v2p ?q d"
      "ring_inv (qemu_dev env bar) ctx ?q d" "wf_ipu4 (fst d)"
    using assms(1) by (auto simp: link_inv_def Let_def recv_linked_def recv_bound_def)
  note regs = recv_linked_regs [OF inv(1)]
  have r: "d1 = d \<and> ring_inv (qemu_dev env bar) ctx ?q (snd (run_state (ipu6_recv_put_token (qemu_dev env bar) ctx n) d)) \<and>
      ring_tokens (qemu_dev env bar) ctx ?q mem d =
      mem a # ring_tokens (qemu_dev env bar) ctx ?q mem (snd (run_state (ipu6_recv_put_token (qemu_dev env bar) ctx n) d))"
    for mem :: "u64 \<Rightarrow> u8 list option"
    using qemu_recv.recv_refines [OF inv(5) refl _ _ inv(4), of mem] by (simp add: regs assms(2) Let_def)
  then show d1: "d1 = d" by blast
  have put: "run_state (ipu6_recv_put_token (qemu_dev env bar) ctx n) d = ((), d2)"
    using assms(3) by (simp only: d1)
  from recv_put_frame [OF inv(1) put] obtain v
    where d2: "d2 = ((fst d)\<lparr>is_dmem := (is_dmem (fst d))[recv_rd_reg := v]\<rparr>, snd d)" by blast
  have "ring_inv (qemu_dev env bar) ctx ?q d2" using r by (simp add: put)
  with inv(1-3) show "link_inv env bar v2p ctx n d2"
    by (simp add: link_inv_def Let_def dmem_update_frame [OF d2])
  have "snd d2 = snd d" by (simp add: d2)
  with r [of "host_view env v2p (snd d)"]
  show "pending env bar v2p ctx n d = host_view env v2p (snd d) a # pending env bar v2p ctx n d2"
    by (simp add: pending_def put)
qed

section \<open>The messages the device handles\<close>

text \<open>What the device does with the message in one slot of a send queue.\<close>

definition handle_slot ::
  "'m pci_env \<Rightarrow> nat \<Rightarrow> ipu6_fw_sys_queue \<Rightarrow> nat \<Rightarrow> 'm dev \<Rightarrow> 'm dev" where
  "handle_slot env k q i d =
     (if q_token_size q < 16 then d
      else case ipu4_dma_read_iova env (fst d) (snd d) (q_vied_address q + word_of_nat i * q_token_size q) 16 of
             None \<Rightarrow> d
           | Some bs \<Rightarrow> handle_send_token env (word_of_nat k) (decode_send_token bs) d)"

lemma handle_pushed_ring:
  assumes "wr < unat (q_size q)" "slot < q_size q" "c = ring_count (unat (q_size q)) wr (unat slot)"
  shows "handle_pushed env k q c slot d
         = fold (handle_slot env k q) (ring_idxs (unat (q_size q)) wr (unat slot)) d"
  using assms(2,3)
proof (induction c arbitrary: slot d)
  case 0
  then show ?case by (simp add: ring_idxs_def)
next
  case (Suc c)
  let ?n = "unat (q_size q)" and ?next = "(slot + 1) mod q_size q"
  have lt: "unat slot < ?n" using Suc.prems(1) by (simp add: word_less_nat_alt)
  have nx: "unat ?next = ring_next ?n (unat slot)"
    by (rule unat_next_mod [OF Suc.prems(1)])
  then have "?next < q_size q"
    using lt by (simp add: word_less_nat_alt ring_next_less)
  moreover have "c = ring_count ?n wr (unat ?next)"
    using ring_count_get [OF assms(1) lt] Suc.prems(2) by (simp add: nx)
  ultimately have IH: "handle_pushed env k q c ?next d'
      = fold (handle_slot env k q) (ring_idxs ?n wr (ring_next ?n (unat slot))) d'" for d'
    using Suc.IH [of ?next d'] by (simp only: nx simp_thms)
  have "ring_idxs ?n wr (unat slot) = unat slot # ring_idxs ?n wr (ring_next ?n (unat slot))"
    using ring_idxs_get [OF assms(1) lt] Suc.prems(2) by simp
  moreover have "handle_pushed env k q (Suc c) slot d = handle_pushed env k q c ?next (handle_slot env k q (unat slot) d)"
    by (auto simp: handle_slot_def Let_def case_prod_beta split: option.split)
  ultimately show ?case by (simp only: IH fold_simps o_apply)
qed

lemma pushed_count:
  assumes "wr < n" "prev < (n :: u32)" "unat n < 2 ^ 31"
  shows "unat ((wr + n - prev) mod n) = ring_count (unat n) (unat wr) (unat prev)"
proof -
  have s: "unat (wr + n) = unat wr + unat n"
    using assms by (simp add: unat_add_no_wrap word_less_nat_alt)
  moreover from this have "prev \<le> wr + n"
    using assms(2) by (simp add: word_le_nat_alt word_less_nat_alt)
  ultimately show ?thesis
    by (simp add: unat_mod unat_sub_le ring_count_def)
qed

definition send_loaded :: "nat \<Rightarrow> ipu6_fw_sys_queue \<Rightarrow> Ipu4State \<Rightarrow> bool" where
  "send_loaded k q s \<longleftrightarrow> k < 8 \<and> wf_ipu4 s \<and> is_send_q_loaded s ! k \<and> is_send_q s ! k = q"

lemma handle_send_bump_ring:
  assumes "send_loaded k q (fst d)" "wr < q_size q" "is_send_wr_seen (fst d) ! k < q_size q"
    and "unat (q_size q) < 2 ^ 31"
  shows "ipu4_handle_send_bump env k wr d =
    fold (handle_slot env k q)
      (ring_idxs (unat (q_size q)) (unat wr) (unat (is_send_wr_seen (fst d) ! k)))
      ((fst d)\<lparr>is_send_wr_seen := (is_send_wr_seen (fst d))[k := wr]\<rparr>, snd d)"
proof -
  let ?prev = "is_send_wr_seen (fst d) ! k"
  have get: "ipu4_get_send_queue env k d = (Some q, d)"
    using assms(1) by (auto simp: ipu4_get_send_queue_def send_loaded_def case_prod_beta)
  have "q_size q \<noteq> 0" using assms(2) by auto
  moreover have "ring_idxs (unat (q_size q)) (unat ?prev) (unat ?prev) = []"
    by (simp add: ring_idxs_def ring_count_def)
  moreover have "wr = ?prev \<Longrightarrow> (fst d)\<lparr>is_send_wr_seen := (is_send_wr_seen (fst d))[k := wr]\<rparr> = fst d"
    by simp
  moreover have "handle_pushed env k q (unat ((wr + q_size q - ?prev) mod q_size q)) ?prev d'
      = fold (handle_slot env k q) (ring_idxs (unat (q_size q)) (unat wr) (unat ?prev)) d'" for d'
    using assms(2) by (intro handle_pushed_ring [OF _ assms(3) pushed_count [OF assms(2-4)]])
      (simp add: word_less_nat_alt)
  ultimately show ?thesis
    by (simp add: ipu4_handle_send_bump_def get Let_def case_prod_beta)
qed

text \<open>One message: the driver's put makes the device handle exactly the slot it filled.\<close>

lemma send_put_run:
  assumes "dmem_addr ctx = bar + IS_DMEM_BASE" "q = input_queue ctx ! n"
    and "unat (q_wr_reg q) = send_wr_reg k" "k < 8"
    and "v = (if is_dmem (fst d) ! send_wr_reg k + 1 \<ge> q_size q then 0
              else is_dmem (fst d) ! send_wr_reg k + 1)"
  shows "run_state (ipu6_send_put_token (qemu_dev env bar) ctx n) d =
    ((), ipu4_handle_send_bump env k v
           ((fst d)\<lparr>is_dmem := (is_dmem (fst d))[send_wr_reg k := v]\<rparr>, snd d))"
proof -
  have r: "send_wr_reg k < 63" "send_wr_reg k \<noteq> 2" "send_wr_reg k \<noteq> 11"
    using assms(4) by (auto simp: send_wr_reg_def)
  note regs = q_dmem_regs [OF assms(1,3) r(1)]
  have "dev_read (qemu_dev env bar) (bar + dmem_reg (send_wr_reg k)) d = (is_dmem (fst d) ! send_wr_reg k, d)"
    using r by (intro qemu_read_dmem) simp_all
  then show ?thesis
    using r dmem_write_send [OF assms(4), of env v "fst d" "snd d"]
    by (simp add: ipu6_send_put_token_def Let_def regs qemu_write_dmem
        flip: assms(2,5))
qed

lemma send_put_slot:
  assumes "dmem_addr ctx = bar + IS_DMEM_BASE" "q = input_queue ctx ! n"
    and "unat (q_wr_reg q) = send_wr_reg k" "send_loaded k q (fst d)"
    and "wr = is_dmem (fst d) ! send_wr_reg k" "is_send_wr_seen (fst d) ! k = wr"
    and "wr < q_size q" "1 < q_size q" "unat (q_size q) < 2 ^ 31"
  shows "\<exists>v. unat v = ring_next (unat (q_size q)) (unat wr) \<and>
    run_state (ipu6_send_put_token (qemu_dev env bar) ctx n) d =
    ((), handle_slot env k q (unat wr)
       ((fst d)\<lparr>is_dmem := (is_dmem (fst d))[send_wr_reg k := v],
                is_send_wr_seen := (is_send_wr_seen (fst d))[k := v]\<rparr>, snd d))"
proof -
  let ?v = "if wr + 1 \<ge> q_size q then 0 else wr + 1" and ?n = "unat (q_size q)"
  let ?d = "((fst d)\<lparr>is_dmem := (is_dmem (fst d))[send_wr_reg k := ?v]\<rparr>, snd d)"
  have v: "unat ?v = ring_next ?n (unat wr)" "?v < q_size q"
    using assms(7) by (rule wrap_index, rule wrap_less)
  have "k < 8" using assms(4) by (simp add: send_loaded_def)
  from send_put_run [OF assms(1-3) this, where v = ?v and d = d]
  have run: "run_state (ipu6_send_put_token (qemu_dev env bar) ctx n) d = ((), ipu4_handle_send_bump env k ?v ?d)"
    by (simp only: assms(5))
  have "send_loaded k q (fst ?d)" "is_send_wr_seen (fst ?d) ! k = wr"
    using assms(4,6) by (simp_all add: send_loaded_def)
  from handle_send_bump_ring [OF this(1) v(2) _ assms(9)] this(2) assms(7)
  have "ipu4_handle_send_bump env k ?v ?d = fold (handle_slot env k q) (ring_idxs ?n (unat ?v) (unat wr))
      ((fst ?d)\<lparr>is_send_wr_seen := (is_send_wr_seen (fst ?d))[k := ?v]\<rparr>, snd ?d)"
    by simp
  moreover have "ring_idxs ?n (ring_next ?n (unat wr)) (unat wr) = [unat wr]"
    using assms(7,8) by (subst ring_idxs_put) (simp_all add: word_less_nat_alt ring_count_def ring_idxs_def)
  ultimately show ?thesis
    using v(1) run by (intro exI [of _ ?v]) simp
qed

lemma link_cong:
  assumes "link_inv env bar v2p ctx n d" "snd d' = snd d" "recv_bound (fst d')"
    and "is_mmu_l1_pfn (fst d') = is_mmu_l1_pfn (fst d)" "is_recv_q (fst d') = is_recv_q (fst d)"
    and "is_dmem (fst d') ! recv_wr_reg = is_dmem (fst d) ! recv_wr_reg"
    and "is_dmem (fst d') ! recv_rd_reg = is_dmem (fst d) ! recv_rd_reg"
  shows "link_inv env bar v2p ctx n d'" "pending env bar v2p ctx n d' = pending env bar v2p ctx n d"
    and "q_wr (qemu_dev env bar) ctx (output_queue ctx ! n) d' = q_wr (qemu_dev env bar) ctx (output_queue ctx ! n) d"
proof -
  let ?q = "output_queue ctx ! n"
  have inv: "recv_linked bar ctx ?q d" "slots_mapped env v2p ?q d" "tables_apart env v2p ?q d"
      "ring_inv (qemu_dev env bar) ctx ?q d"
    using assms(1) by (simp_all add: link_inv_def Let_def)
  have l: "recv_linked bar ctx ?q d'"
    using inv(1) assms(3,5) by (simp add: recv_linked_def)
  show wr: "q_wr (qemu_dev env bar) ctx ?q d' = q_wr (qemu_dev env bar) ctx ?q d"
    by (simp only: recv_linked_regs [OF l] recv_linked_regs [OF inv(1)] assms(6))
  have rd: "q_rd (qemu_dev env bar) ctx ?q d' = q_rd (qemu_dev env bar) ctx ?q d"
    by (simp only: recv_linked_regs [OF l] recv_linked_regs [OF inv(1)] assms(7))
  have "ipu4_iova_to_phys env (fst d') (snd d') a = ipu4_iova_to_phys env (fst d) (snd d) a" for a
    by (simp add: ipu4_iova_to_phys_def assms(2,4))
  then have "slots_mapped env v2p ?q d'" "tables_apart env v2p ?q d'"
    using inv(2,3) by (simp_all add: slots_mapped_def tables_apart_def l1_entry_addr_def
        l2_entry_addr_def assms(2,4))
  with l inv(4) show "link_inv env bar v2p ctx n d'"
    by (simp add: link_inv_def Let_def ring_inv_def wr rd)
  show "pending env bar v2p ctx n d' = pending env bar v2p ctx n d"
    by (simp add: pending_def ring_tokens_def wr rd assms(2))
qed

section \<open>A concrete link\<close>

text \<open>Guest memory as a function on addresses, with no interrupts.\<close>

definition ram_env :: "(nat \<Rightarrow> u8) pci_env" where
  "ram_env = \<lparr>pci_dma_read = (\<lambda>p n m. Some (map (\<lambda>i. m (unat p + i)) [0..<n])),
     pci_dma_write = (\<lambda>p bs m. Some (\<lambda>a. if unat p \<le> a \<and> a < unat p + length bs
                                          then bs ! (a - unat p) else m a)),
     msi_enabled = (\<lambda>m. False), msi_notify = (\<lambda>m. m), clock_ns = (\<lambda>m. 0)\<rparr>"

lemma ram_env_simps [simp]:
  "pci_dma_read ram_env p n m = Some (map (\<lambda>i. m (unat p + i)) [0..<n])"
  "pci_dma_write ram_env p bs m = Some (\<lambda>a. if unat p \<le> a \<and> a < unat p + length bs
                                          then bs ! (a - unat p) else m a)"
  "msi_enabled ram_env m = False" "msi_notify ram_env m = m"
  by (simp_all add: ram_env_def)

lemma guest_ram_ram_env: "guest_ram ram_env"
  unfolding guest_ram_def by (auto intro!: nth_equalityI)

text \<open>
  A device whose tables map the page at 0x3000 to itself, with a receive queue of three
  64-byte slots there and a send queue of stream 1 after it.
\<close>

definition ex_queue :: ipu6_fw_sys_queue where
  "ex_queue = \<lparr>q_host_address = 0x3000, q_vied_address = 0x3000, q_size = 3, q_token_size = 64,
               q_wr_reg = 28, q_rd_reg = 29, q_align = 0\<rparr>"

definition ex_squeue :: ipu6_fw_sys_queue where
  "ex_squeue = ex_queue\<lparr>q_host_address := 0x3100, q_vied_address := 0x3100, q_wr_reg := 12, q_rd_reg := 13\<rparr>"

text \<open>
  At 0x3200 the configuration, with the arrays of descriptors at 0x31e0 and 0x3240, so that the
  ones of stream 1 and of the responses are at 0x3240 and 0x3260.
\<close>

definition ex_setup :: "u8 list" where
  "ex_setup = replicate 12 0 @ [0xe0, 0x31, 0, 0, 0x40, 0x32, 0, 0] @ replicate 44 0 @
     [0, 0x31, 0, 0, 0, 0, 0, 0, 0, 0x31, 0, 0, 3, 0, 0, 0, 64, 0, 0, 0, 12, 0, 0, 0, 13, 0, 0, 0, 0, 0, 0, 0] @
     [0, 0x30, 0, 0, 0, 0, 0, 0, 0, 0x30, 0, 0, 3, 0, 0, 0, 64, 0, 0, 0, 28, 0, 0, 0, 29, 0, 0, 0, 0, 0, 0, 0]"

definition ex_mem :: "nat \<Rightarrow> u8" where
  "ex_mem a = (if a = 0x1000 then 2 else if a = 0x200c then 3
     else if 0x3200 \<le> a \<and> a < 0x3280 then ex_setup ! (a - 0x3200) else 0)"

definition ex_dev :: "(nat \<Rightarrow> u8) dev" where
  "ex_dev = (ipu4_reset\<lparr>is_mmu_l1_pfn := 1, is_recv_q := ex_queue, is_recv_q_loaded := True,
     is_send_q := (is_send_q ipu4_reset)[1 := ex_squeue],
     is_send_q_loaded := (is_send_q_loaded ipu4_reset)[1 := True]\<rparr>, ex_mem)"

definition ex_ctx :: "(nat \<Rightarrow> u8) dev ipu6_fw_com_context" where
  "ex_ctx = \<lparr>dmem_addr = IS_DMEM_BASE, cell_ready = State_Monad.return True,
     cell_start = State_Monad.return (), dma_buffer = 0, dma_addr = 0, dma_size = 0,
     input_queue = [ex_squeue], output_queue = [ex_queue], config_vied_addr = 0,
     buttress_boot_offset = 0, base_addr = 0,
     config_host = \<lparr>firmware_address = 0, num_input_queues = 0, num_output_queues = 1,
       cfg_input_queue = 0, cfg_output_queue = 0, specific_addr = 0, specific_size = 0\<rparr>,
     specific_host = []\<rparr>"

lemma u32_less_3: "i < (3 :: u32) \<longleftrightarrow> i = 0 \<or> i = 1 \<or> i = 2"
proof -
  have "unat i < 3 \<longleftrightarrow> unat i = 0 \<or> unat i = 1 \<or> unat i = 2" by linarith
  then show ?thesis by (simp add: word_less_nat_alt word_unat_eq_iff)
qed

lemma upt_0_4: "[0..<4] = [0, 1, 2, 3 :: nat]"
  by (simp add: upt_rec)

lemma ex_tables:
  "map (\<lambda>i. ex_mem (0x1000 + i)) [0..<4] = [2, 0, 0, 0]"
  "map (\<lambda>i. ex_mem (0x200c + i)) [0..<4] = [3, 0, 0, 0]"
  "field_at 0 4 [2, 0, 0, 0] = (2 :: u32)" "field_at 0 4 [3, 0, 0, 0] = (3 :: u32)"
  "is_mmu_l1_pfn (fst ex_dev) = 1" "snd ex_dev = ex_mem"
  by (simp_all add: upt_0_4 ex_mem_def field_at_def ex_dev_def)

lemma ex_slots:
  "q_size ex_queue = 3" "q_vied_address ex_queue = 0x3000" "q_token_size ex_queue = 64"
  "token_addr ex_queue 0 = 0x3000" "token_addr ex_queue 1 = 0x3040" "token_addr ex_queue 2 = 0x3080"
  by (simp_all add: ex_queue_def token_addr_def)

lemma ex_slots_mapped: "slots_mapped ram_env (\<lambda>a. a) ex_queue ex_dev"
  by (auto simp: slots_mapped_def u32_less_3 ex_slots ipu4_iova_to_phys_def Let_def ex_tables)

lemma ex_tables_apart: "tables_apart ram_env (\<lambda>a. a) ex_queue ex_dev"
  by (auto simp: tables_apart_def off_slots_def l1_entry_addr_def l2_entry_addr_def u32_less_3
      ex_slots Let_def ex_tables)

lemma ex_wf: "wf_ipu4 (fst ex_dev)"
  using wf_reset by (simp add: ex_dev_def)

lemma ex_recv_linked: "recv_linked 0 ex_ctx ex_queue ex_dev"
  using ex_wf by (simp add: recv_linked_def recv_bound_def ex_ctx_def ex_queue_def ex_dev_def recv_wr_reg_def)

lemma ex_dmem: "r < 64 \<Longrightarrow> is_dmem (fst ex_dev) ! r = 0"
  by (simp add: ex_dev_def ipu4_reset_def)

lemma ex_out: "output_queue ex_ctx ! 0 = ex_queue"
  by (simp add: ex_ctx_def)

lemma ex_regs:
  "q_wr (qemu_dev ram_env 0) ex_ctx ex_queue ex_dev = 0"
  "q_rd (qemu_dev ram_env 0) ex_ctx ex_queue ex_dev = 0"
  by (simp_all add: recv_linked_regs [OF ex_recv_linked] ex_dmem recv_wr_reg_def recv_rd_reg_def)

lemma ex_link_inv: "link_inv ram_env 0 (\<lambda>a. a) ex_ctx 0 ex_dev"
  using ex_recv_linked ex_slots_mapped ex_tables_apart
  by (simp add: link_inv_def Let_def ring_inv_def ex_out ex_regs ex_slots)

lemma ex_pending: "pending ram_env 0 (\<lambda>a. a) ex_ctx 0 ex_dev = []"
  by (simp add: pending_def ring_tokens_def ex_out ex_regs ring_idxs_def ring_count_def)

section \<open>Properties\<close>

text \<open>
  C1: from a state in which the device has loaded the descriptor of the response queue, under
  every interleaving of driver receives and device posts, as long as no response is posted while the
  ring is full, the tokens the driver receives are the responses whose write to guest memory
  succeeded, byte for byte, in order, none lost and none twice; what is still in the ring makes up the rest.
\<close>

theorem response_fifo:
  assumes "guest_ram env" "link_inv env bar v2p ctx n d" "link_trace env bar v2p ctx n d es d'"
  shows "link_inv env bar v2p ctx n d' \<and>
         pending env bar v2p ctx n d @ posted es = received es @ pending env bar v2p ctx n d'"
  using assms(3,2)
proof (induction rule: link_trace.induct)
  case (trace_nil d)
  then show ?case by simp
next
  case (trace_step d e d1 es d2)
  from trace_step.hyps(1) show ?case
  proof cases
    case (post resp m1)
    from link_step_post [OF assms(1) trace_step.prems post(3,4,2)] trace_step.IH post(1)
    show ?thesis by simp
  next
    case (lost resp)
    from link_step_lost [OF trace_step.prems lost(3)] trace_step.IH trace_step.prems lost(1,2)
    show ?thesis by simp
  next
    case (recv a d0)
    from link_step_recv [OF trace_step.prems recv(2,3)] trace_step.IH recv(1)
    show ?thesis by simp
  qed
qed

theorem response_fifo_witness:
  "let d' = ipu4_post_response_full ram_env zero_resp ex_dev
   in pending ram_env 0 (\<lambda>a. a) ex_ctx 0 d' = [Some (encode_resp zero_resp)]"
proof -
  have "link_step ram_env 0 (\<lambda>a. a) ex_ctx 0 ex_dev (Posted zero_resp)
      (ipu4_post_response_full ram_env zero_resp ex_dev)"
    by (rule link_step.post) (simp_all add: ex_pending ex_out ex_slots)
  then have "link_trace ram_env 0 (\<lambda>a. a) ex_ctx 0 ex_dev [Posted zero_resp]
      (ipu4_post_response_full ram_env zero_resp ex_dev)"
    by (blast intro: link_trace.intros)
  from response_fifo [OF guest_ram_ram_env ex_link_inv this] show ?thesis
    by (simp add: ex_pending)
qed

text \<open>
  The driver's view of the ring decides what a receive returns: nothing exactly when no
  token is pending, and otherwise the address of the oldest one; the device is unchanged.
\<close>

theorem recv_get_token_complete:
  assumes "link_inv env bar v2p ctx n d"
  shows "case pending env bar v2p ctx n d of
      [] \<Rightarrow> run_state (ipu6_recv_get_token (qemu_dev env bar) ctx n) d = (None, d)
    | t # ts \<Rightarrow> \<exists>a. run_state (ipu6_recv_get_token (qemu_dev env bar) ctx n) d = (Some a, d) \<and>
                    host_view env v2p (snd d) a = t"
proof -
  let ?q = "output_queue ctx ! n"
  have inv: "recv_linked bar ctx ?q d" "ring_inv (qemu_dev env bar) ctx ?q d" "wf_ipu4 (fst d)"
    using assms by (auto simp: link_inv_def Let_def recv_linked_def recv_bound_def)
  note regs = recv_linked_regs [OF inv(1)]
  show ?thesis
    using qemu_recv.recv_refines [OF inv(3) refl _ _ inv(2), of "host_view env v2p (snd d)"]
    by (auto simp: regs pending_def Let_def split: prod.splits option.splits list.splits)
qed

theorem recv_get_token_complete_witness:
  "run_state (ipu6_recv_get_token (qemu_dev ram_env 0) ex_ctx 0) ex_dev = (None, ex_dev)"
  using recv_get_token_complete [OF ex_link_inv] by (simp add: ex_pending)

text \<open>
  C5: the device does not look at the driver's read index. A response posted while the ring
  is full makes the write index meet the read index, and every pending token disappears
  from the driver's view.
\<close>

theorem response_overrun:
  assumes "guest_ram env" "link_inv env bar v2p ctx n d" "q = output_queue ctx ! n"
    and "length (pending env bar v2p ctx n d) = unat (q_size q) - 1"
    and "pci_dma_write env (v2p (token_addr q (q_wr (qemu_dev env bar) ctx q d)))
           (encode_resp resp) (snd d) = Some m1"
  shows "pending env bar v2p ctx n (ipu4_post_response_full env resp d) = []"
proof -
  have inv: "recv_linked bar ctx q d" "slots_mapped env v2p q d" "ring_inv (qemu_dev env bar) ctx q d"
    using assms(2,3) by (simp_all add: link_inv_def Let_def)
  note post = post_response_ring [OF assms(1) inv assms(5) refl]
  let ?wr = "unat (q_wr (qemu_dev env bar) ctx q d)" and ?rd = "unat (q_rd (qemu_dev env bar) ctx q d)"
  have lt: "?wr < unat (q_size q)" "?rd < unat (q_size q)"
    using inv(3) by (simp_all add: ring_inv_def word_less_nat_alt)
  have "ring_count (unat (q_size q)) ?wr ?rd = unat (q_size q) - 1"
    using assms(3,4) by (simp add: pending_def length_ring_tokens)
  with lt have "ring_next (unat (q_size q)) ?wr = ?rd"
    by (auto simp: ring_count_if ring_next_def split: if_splits)
  then show ?thesis
    using post(3) by (simp add: pending_def ring_tokens_Nil word_unat_eq_iff post(4,5) flip: assms(3))
qed

lemma ex_full_inv:
  assumes "d = ((fst ex_dev)\<lparr>is_dmem := (is_dmem (fst ex_dev))[28 := 2]\<rparr>, snd ex_dev)"
  shows "link_inv ram_env 0 (\<lambda>a. a) ex_ctx 0 d"
    and "length (pending ram_env 0 (\<lambda>a. a) ex_ctx 0 d) = 2"
proof -
  have l: "recv_linked 0 ex_ctx ex_queue d"
    using ex_recv_linked by (simp add: dmem_update_frame [OF assms])
  have r: "q_wr (qemu_dev ram_env 0) ex_ctx ex_queue d = 2"
      "q_rd (qemu_dev ram_env 0) ex_ctx ex_queue d = 0"
    using ex_wf by (simp_all add: recv_linked_regs [OF l]) (simp_all add: assms recv_wr_reg_def
        recv_rd_reg_def ex_dmem wf_ipu4_def)
  then show "link_inv ram_env 0 (\<lambda>a. a) ex_ctx 0 d"
    using l ex_slots_mapped ex_tables_apart
    by (simp add: link_inv_def Let_def ring_inv_def ex_out ex_slots dmem_update_frame [OF assms])
  show "length (pending ram_env 0 (\<lambda>a. a) ex_ctx 0 d) = 2"
    by (simp add: pending_def length_ring_tokens ex_out r ex_slots ring_count_def)
qed

theorem response_overrun_witness:
  "pending ram_env 0 (\<lambda>a. a) ex_ctx 0 (ipu4_post_response_full ram_env zero_resp
     ((fst ex_dev)\<lparr>is_dmem := (is_dmem (fst ex_dev))[28 := 2]\<rparr>, snd ex_dev)) = []"
  by (rule response_overrun [OF guest_ram_ram_env ex_full_inv(1) refl])
    (simp_all add: ex_full_inv(2) ex_out ex_slots)

text \<open>
  filling a slot of a send queue and advancing its write index makes the device handle
  exactly that slot's message, whatever the stream, provided it had seen all earlier ones.
\<close>

theorem send_put_handled:
  assumes "dmem_addr ctx = bar + IS_DMEM_BASE" "q = input_queue ctx ! n"
    and "unat (q_wr_reg q) = send_wr_reg k" "send_loaded k q (fst d)"
    and "wr = is_dmem (fst d) ! send_wr_reg k" "is_send_wr_seen (fst d) ! k = wr"
    and "wr < q_size q" "1 < q_size q" "unat (q_size q) < 2 ^ 31"
  shows "\<exists>v. unat v = ring_next (unat (q_size q)) (unat wr) \<and>
    run_state (ipu6_send_put_token (qemu_dev env bar) ctx n) d =
    ((), handle_slot env k q (unat wr)
       ((fst d)\<lparr>is_dmem := (is_dmem (fst d))[send_wr_reg k := v],
                is_send_wr_seen := (is_send_wr_seen (fst d))[k := v]\<rparr>, snd d))"
  using assms by (rule send_put_slot)

lemma ex_send_loaded: "send_loaded 1 ex_squeue (fst ex_dev)"
  using ex_wf by (simp add: send_loaded_def ex_dev_def ipu4_reset_def)

lemma ex_send:
  "dmem_addr ex_ctx = 0 + IS_DMEM_BASE" "ex_squeue = input_queue ex_ctx ! 0"
  "unat (q_wr_reg ex_squeue) = send_wr_reg 1" "is_send_wr_seen (fst ex_dev) ! 1 = 0"
  "0 = is_dmem (fst ex_dev) ! send_wr_reg 1" "q_size ex_squeue = 3"
  by (simp_all add: ex_ctx_def ex_squeue_def ex_queue_def send_wr_reg_def ex_dmem)
    (simp add: ex_dev_def ipu4_reset_def)

theorem send_put_handled_witness:
  "\<exists>v. unat v = 1 \<and>
    run_state (ipu6_send_put_token (qemu_dev ram_env 0) ex_ctx 0) ex_dev =
    ((), handle_slot ram_env 1 ex_squeue 0
       ((fst ex_dev)\<lparr>is_dmem := (is_dmem (fst ex_dev))[send_wr_reg 1 := v],
                is_send_wr_seen := (is_send_wr_seen (fst ex_dev))[1 := v]\<rparr>, snd ex_dev))"
  using send_put_handled [OF ex_send(1,2,3) ex_send_loaded ex_send(5,4), of ram_env]
  by (simp add: ex_send(6) ring_next_def)

text \<open>The answer on a device that has loaded both queues.\<close>

lemma open_answered_loaded:
  assumes "guest_ram env" "link_inv env bar v2p ctx m d"
    and "length (pending env bar v2p ctx m d) < unat (q_size (output_queue ctx ! m)) - 1"
    and "pci_dma_write env (v2p (token_addr (output_queue ctx ! m)
             (q_wr (qemu_dev env bar) ctx (output_queue ctx ! m) d))) (encode_resp resp) (snd d) = Some m1"
    and "resp = zero_resp\<lparr>resp_type := IPU4_FW_RESP_STREAM_OPEN_DONE, stream_handle := word_of_nat k\<rparr>"
    and "dmem_addr ctx = bar + IS_DMEM_BASE" "q = input_queue ctx ! n"
    and "unat (q_wr_reg q) = send_wr_reg k" "send_loaded k q (fst d)"
    and "wr = is_dmem (fst d) ! send_wr_reg k" "is_send_wr_seen (fst d) ! k = wr"
    and "wr < q_size q" "1 < q_size q" "unat (q_size q) < 2 ^ 31" "16 \<le> q_token_size q"
    and "ipu4_dma_read_iova env (fst d) (snd d) (q_vied_address q + wr * q_token_size q) 16 = Some bs"
    and "tok_send_type (decode_send_token bs) = IPU4_FW_SEND_STREAM_OPEN"
  shows "let d' = snd (run_state (ipu6_send_put_token (qemu_dev env bar) ctx n) d)
         in pending env bar v2p ctx m d' = pending env bar v2p ctx m d @ [Some (encode_resp resp)] \<and>
            link_inv env bar v2p ctx m d' \<and>
            isr_status (fst d') AND BTRS_ISR_IS_IRQ = BTRS_ISR_IS_IRQ"
proof -
  obtain v where v: "run_state (ipu6_send_put_token (qemu_dev env bar) ctx n) d =
    ((), handle_slot env k q (unat wr)
       ((fst d)\<lparr>is_dmem := (is_dmem (fst d))[send_wr_reg k := v],
                is_send_wr_seen := (is_send_wr_seen (fst d))[k := v]\<rparr>, snd d))"
    using send_put_slot [OF assms(6-14)] by blast
  define d0 where "d0 = ((fst d)\<lparr>is_dmem := (is_dmem (fst d))[send_wr_reg k := v],
                is_send_wr_seen := (is_send_wr_seen (fst d))[k := v]\<rparr>, snd d)"
  define d' where "d' = ipu4_post_response_full env resp d0"
  have k: "send_wr_reg k \<noteq> recv_wr_reg" "send_wr_reg k \<noteq> recv_rd_reg"
    using assms(9) by (auto simp: send_loaded_def send_wr_reg_def recv_wr_reg_def recv_rd_reg_def)
  have "recv_bound (fst d)"
    using assms(2) by (simp add: link_inv_def Let_def recv_linked_def)
  then have "recv_bound (fst d0)"
    by (simp add: d0_def recv_bound_def)
  note lc = link_cong [OF assms(2) _ this]
  have d0: "link_inv env bar v2p ctx m d0" "pending env bar v2p ctx m d0 = pending env bar v2p ctx m d"
    "q_wr (qemu_dev env bar) ctx (output_queue ctx ! m) d0 = q_wr (qemu_dev env bar) ctx (output_queue ctx ! m) d"
    "snd d0 = snd d"
    using k by (intro lc; simp add: d0_def)+ (simp add: d0_def)
  have walk: "ipu4_iova_to_phys env (fst d0) m' a = ipu4_iova_to_phys env (fst d) m' a" for m' a
    by (simp add: d0_def ipu4_iova_to_phys_def)
  have "ipu4_dma_read_iova env (fst d0) (snd d0) (q_vied_address q + wr * q_token_size q) 16 = Some bs"
    using assms(16) unfolding ipu4_dma_read_iova_def walk d0(4) .
  then have "handle_slot env k q (unat wr) d0 = d'"
    using assms(17) leD [OF assms(15)] by (simp add: handle_slot_def handle_send_token_def ipu4_post_response_def
        d'_def assms(5))
  then have run: "snd (run_state (ipu6_send_put_token (qemu_dev env bar) ctx n) d) = d'"
    by (simp add: v flip: d0_def)
  note post = link_step_post [OF assms(1) d0(1) _ _ d'_def, unfolded d0, OF assms(3,4)]
  have inv: "recv_linked bar ctx (output_queue ctx ! m) d0" "slots_mapped env v2p (output_queue ctx ! m) d0"
      "ring_inv (qemu_dev env bar) ctx (output_queue ctx ! m) d0"
    using d0(1) by (simp_all add: link_inv_def Let_def)
  have "isr_status (fst d') = isr_status (fst d0) OR BTRS_ISR_IS_IRQ"
    using post_response_ring(1) [OF assms(1) inv _ d'_def, unfolded d0, OF assms(4)]
    by (simp add: post_done_def)
  with post show ?thesis
    by (simp add: run bit_eq_iff bit_simps) blast
qed

text \<open>
  The device loads the descriptors of its queues from guest memory when it needs them first. The
  state with the descriptors of stream \<open>k\<close> and of the responses loaded:
\<close>

definition with_queues :: "'m pci_env \<Rightarrow> nat \<Rightarrow> 'm dev \<Rightarrow> 'm dev" where
  "with_queues env k d = snd (ipu4_get_recv_queue env (snd (ipu4_get_send_queue env k d)))"

lemma get_send_queue_loads:
  assumes "wf_ipu4 (fst d)" "k < 8" "ipu4_get_send_queue env k d = (Some q, d1)"
  shows "ipu4_get_send_queue env k d1 = (Some q, d1)"
  using assms by (cases d) (auto simp: ipu4_get_send_queue_def wf_ipu4_def split: if_splits option.splits)

lemma get_send_queue_dmem:
  "ipu4_get_send_queue env k ((fst d)\<lparr>is_dmem := x\<rparr>, snd d) =
   (fst (ipu4_get_send_queue env k d),
    (fst (snd (ipu4_get_send_queue env k d)))\<lparr>is_dmem := x\<rparr>, snd (snd (ipu4_get_send_queue env k d)))"
  by (cases d) (simp add: ipu4_get_send_queue_def ipu4_load_queue_desc_def ipu4_dma_read_iova_def ipu4_iova_to_phys_def
      Let_def split: option.split)

lemma get_recv_queue_frame:
  "ipu4_get_recv_queue env ((fst d)\<lparr>is_dmem := x, is_send_wr_seen := y\<rparr>, snd d) =
   (fst (ipu4_get_recv_queue env d),
    (fst (snd (ipu4_get_recv_queue env d)))\<lparr>is_dmem := x, is_send_wr_seen := y\<rparr>, snd (snd (ipu4_get_recv_queue env d)))"
  by (cases d) (simp add: ipu4_get_recv_queue_def ipu4_load_queue_desc_def ipu4_dma_read_iova_def ipu4_iova_to_phys_def
      Let_def split: option.split)

lemma get_recv_queue_keeps:
  fixes env :: "'m pci_env" and d :: "'m dev"
  defines "d' \<equiv> snd (ipu4_get_recv_queue env d)"
  shows "is_dmem (fst d') = is_dmem (fst d)" "is_send_wr_seen (fst d') = is_send_wr_seen (fst d)"
    "is_mmu_l1_pfn (fst d') = is_mmu_l1_pfn (fst d)" "send_loaded k q (fst d') = send_loaded k q (fst d)" "snd d' = snd d"
  unfolding d'_def by (cases d; simp add: ipu4_get_recv_queue_def send_loaded_def Let_def split: option.split)+

lemma dma_read_iova_cong:
  "is_mmu_l1_pfn s' = is_mmu_l1_pfn s \<Longrightarrow> ipu4_dma_read_iova env s' m a len = ipu4_dma_read_iova env s m a len"
  by (simp add: ipu4_dma_read_iova_def ipu4_iova_to_phys_def)

lemma get_send_queue_keeps:
  "is_dmem (fst (snd (ipu4_get_send_queue env k d))) = is_dmem (fst d)"
  by (cases d) (simp add: ipu4_get_send_queue_def Let_def split: option.split)

lemma post_response_loads:
  "is_recv_q_loaded (fst (snd (ipu4_get_recv_queue env d))) \<Longrightarrow>
   ipu4_post_response_full env resp d = ipu4_post_response_full env resp (snd (ipu4_get_recv_queue env d))"
  by (cases d) (auto simp: ipu4_post_response_full_def ipu4_get_recv_queue_def split: if_splits option.splits)

text \<open>A put on a device that has not loaded the send queue is one on the device that has.\<close>

lemma send_put_loads:
  assumes "dmem_addr ctx = bar + IS_DMEM_BASE" "q = input_queue ctx ! n"
    and "unat (q_wr_reg q) = send_wr_reg k" "k < 8" "wf_ipu4 (fst d)"
    and "ipu4_get_send_queue env k d = (Some q', d1)"
  shows "run_state (ipu6_send_put_token (qemu_dev env bar) ctx n) d = run_state (ipu6_send_put_token (qemu_dev env bar) ctx n) d1"
proof -
  have dm: "is_dmem (fst d1) = is_dmem (fst d)"
    using get_send_queue_keeps [of env k d] assms(6) by simp
  have "ipu4_get_send_queue env k ((fst d)\<lparr>is_dmem := x\<rparr>, snd d) = (Some q', (fst d1)\<lparr>is_dmem := x\<rparr>, snd d1)"
    "ipu4_get_send_queue env k ((fst d1)\<lparr>is_dmem := x\<rparr>, snd d1) = (Some q', (fst d1)\<lparr>is_dmem := x\<rparr>, snd d1)" for x
    using get_send_queue_dmem [where d = d and x = x and env = env and k = k]
      get_send_queue_dmem [where d = d1 and x = x and env = env and k = k] assms(6)
      get_send_queue_loads [OF assms(5,4,6)] by simp_all
  then have "ipu4_handle_send_bump env k v ((fst d)\<lparr>is_dmem := x\<rparr>, snd d) = ipu4_handle_send_bump env k v ((fst d1)\<lparr>is_dmem := x\<rparr>, snd d1)" for x v
    by (simp add: ipu4_handle_send_bump_def)
  then show ?thesis
    by (simp add: send_put_run [OF assms(1-4) refl] dm)
qed

lemma get_send_queue_some:
  assumes "wf_ipu4 (fst d)" "k < 8" "is_send_q_loaded (fst (snd (ipu4_get_send_queue env k d))) ! k"
  obtains q where "ipu4_get_send_queue env k d = (Some q, snd (ipu4_get_send_queue env k d))"
  using assms by (cases d) (auto simp: ipu4_get_send_queue_def Let_def split: if_splits option.splits)

text \<open>The answer to an open message, which is where the device loads the queue of the responses.\<close>

lemma open_slot:
  assumes "16 \<le> q_token_size q" "tok_send_type (decode_send_token bs) = IPU4_FW_SEND_STREAM_OPEN"
    and "ipu4_dma_read_iova env (fst d) (snd d) (q_vied_address q + wr * q_token_size q) 16 = Some bs"
  shows "handle_slot env k q (unat wr) d =
    ipu4_post_response_full env (zero_resp\<lparr>resp_type := IPU4_FW_RESP_STREAM_OPEN_DONE, stream_handle := word_of_nat k\<rparr>) d"
  using assms(2,3) leD [OF assms(1)] by (simp add: handle_slot_def handle_send_token_def ipu4_post_response_def)

lemma open_put_loads:
  assumes "dmem_addr ctx = bar + IS_DMEM_BASE" "q = input_queue ctx ! n"
    and "unat (q_wr_reg q) = send_wr_reg k" "send_loaded k q (fst d1)"
    and "d0 = snd (ipu4_get_recv_queue env d1)" "is_recv_q_loaded (fst d0)"
    and "wr = is_dmem (fst d1) ! send_wr_reg k" "is_send_wr_seen (fst d1) ! k = wr"
    and "wr < q_size q" "1 < q_size q" "unat (q_size q) < 2 ^ 31" "16 \<le> q_token_size q"
    and "ipu4_dma_read_iova env (fst d1) (snd d1) (q_vied_address q + wr * q_token_size q) 16 = Some bs"
    and "tok_send_type (decode_send_token bs) = IPU4_FW_SEND_STREAM_OPEN"
  shows "run_state (ipu6_send_put_token (qemu_dev env bar) ctx n) d1 = run_state (ipu6_send_put_token (qemu_dev env bar) ctx n) d0"
proof -
  let ?upd = "\<lambda>v d. ((fst d)\<lparr>is_dmem := (is_dmem (fst d))[send_wr_reg k := v], is_send_wr_seen := (is_send_wr_seen (fst d))[k := v]\<rparr>, snd d)"
  let ?resp = "zero_resp\<lparr>resp_type := IPU4_FW_RESP_STREAM_OPEN_DONE, stream_handle := word_of_nat k\<rparr>"
  note r = get_recv_queue_keeps [where env = env and d = d1, folded assms(5)]
  have f: "send_loaded k q (fst d0)" using assms(4) r(4) by simp
  have walk: "ipu4_dma_read_iova env (fst (?upd v d)) (snd (?upd v d)) a n' = ipu4_dma_read_iova env (fst d) (snd d) a n'" for v d a n'
    by simp (rule dma_read_iova_cong, simp)
  have rd0: "ipu4_dma_read_iova env (fst d0) (snd d0) (q_vied_address q + wr * q_token_size q) 16 = Some bs"
    using assms(13) by (simp add: dma_read_iova_cong [OF r(3)] r(5))
  obtain v1 where v1: "unat v1 = ring_next (unat (q_size q)) (unat wr)"
    "run_state (ipu6_send_put_token (qemu_dev env bar) ctx n) d1 = ((), handle_slot env k q (unat wr) (?upd v1 d1))"
    using send_put_slot [OF assms(1-4,7-11)] by blast
  obtain v0 where v0: "unat v0 = ring_next (unat (q_size q)) (unat wr)"
    "run_state (ipu6_send_put_token (qemu_dev env bar) ctx n) d0 = ((), handle_slot env k q (unat wr) (?upd v0 d0))"
    using send_put_slot [OF assms(1-3) f _ _ assms(9-11)] assms(7,8) r(1,2) by metis
  have v: "v0 = v1" using v0(1) v1(1) by (simp add: word_unat_eq_iff)
  have up: "snd (ipu4_get_recv_queue env (?upd v1 d1)) = ?upd v1 d0"
    using get_recv_queue_frame [where env = env and d = d1 and x = "(is_dmem (fst d1))[send_wr_reg k := v1]"
        and y = "(is_send_wr_seen (fst d1))[k := v1]"]
    by (simp add: r(1,2) flip: assms(5))
  have "handle_slot env k q (unat wr) (?upd v1 d1) = ipu4_post_response_full env ?resp (?upd v1 d1)"
    using assms(13) by (intro open_slot [OF assms(12,14)]) (simp only: walk)
  also have "\<dots> = ipu4_post_response_full env ?resp (?upd v1 d0)"
    using post_response_loads [of env "?upd v1 d1" ?resp] assms(6) unfolding up by simp
  also have "\<dots> = handle_slot env k q (unat wr) (?upd v1 d0)"
    using rd0 by (intro open_slot [symmetric, OF assms(12,14)]) (simp only: walk)
  finally show ?thesis using v0(2) v1(2) v by simp
qed


text \<open>The device that has not loaded any queue.\<close>

definition ex_lazy :: "(nat \<Rightarrow> u8) dev" where
  "ex_lazy = (ipu4_reset\<lparr>is_mmu_l1_pfn := 1, syscom_config_iova := 0x3200\<rparr>, ex_mem)"

lemma ex_setup_at:
  assumes "x + n \<le> 128"
  shows "map (\<lambda>i. ex_mem (0x3200 + x + i)) [0..<n] = take n (drop x ex_setup)"
proof -
  have "length ex_setup = 128" by (simp add: ex_setup_def)
  with assms show ?thesis by (intro nth_equalityI) (simp_all add: ex_mem_def add.commute)
qed

lemma ex_reads:
  assumes "is_mmu_l1_pfn s = 1"
  shows "ipu4_dma_read_iova ram_env s ex_mem 0x3200 28 = Some (take 28 ex_setup)"
    "ipu4_dma_read_iova ram_env s ex_mem 0x3240 32 = Some (take 32 (drop 64 ex_setup))"
    "ipu4_dma_read_iova ram_env s ex_mem 0x3260 32 = Some (take 32 (drop 96 ex_setup))"
    "ipu4_dma_read_iova ram_env s ex_mem 0x3100 16 = Some (replicate 16 0)"
proof -
  have walk: "ipu4_iova_to_phys ram_env s ex_mem 0x3200 = Some 0x3200" "ipu4_iova_to_phys ram_env s ex_mem 0x3240 = Some 0x3240"
    "ipu4_iova_to_phys ram_env s ex_mem 0x3260 = Some 0x3260" "ipu4_iova_to_phys ram_env s ex_mem 0x3100 = Some 0x3100"
    by (simp_all add: ipu4_iova_to_phys_def Let_def ex_tables assms)
  have "map (\<lambda>i. ex_mem (0x3100 + i)) [0..<16] = replicate 16 0"
    by (intro nth_equalityI) (simp_all add: ex_mem_def)
  then show "ipu4_dma_read_iova ram_env s ex_mem 0x3200 28 = Some (take 28 ex_setup)"
    "ipu4_dma_read_iova ram_env s ex_mem 0x3240 32 = Some (take 32 (drop 64 ex_setup))"
    "ipu4_dma_read_iova ram_env s ex_mem 0x3260 32 = Some (take 32 (drop 96 ex_setup))"
    "ipu4_dma_read_iova ram_env s ex_mem 0x3100 16 = Some (replicate 16 0)"
    using ex_setup_at [of 0 28] ex_setup_at [of 64 32] ex_setup_at [of 96 32]
    by (simp_all add: ipu4_dma_read_iova_def walk)
qed

lemma ex_descs:
  "cfg_queue_array (take 28 ex_setup) True = 0x31e0" "cfg_queue_array (take 28 ex_setup) False = 0x3240"
  "decode_sys_queue (take 32 (drop 64 ex_setup)) = ex_squeue" "decode_sys_queue (take 32 (drop 96 ex_setup)) = ex_queue"
  by (simp_all add: ex_setup_def cfg_queue_array_def decode_sys_queue_def field_at_def ex_squeue_def ex_queue_def)

lemma ex_with_queues: "with_queues ram_env 1 ex_lazy = ((fst ex_dev)\<lparr>syscom_config_iova := 0x3200\<rparr>, snd ex_dev)"
proof -
  have send: "ipu4_get_send_queue ram_env 1 ex_lazy = (Some ex_squeue,
      ((fst ex_lazy)\<lparr>is_send_q := (is_send_q ipu4_reset)[1 := ex_squeue], is_send_q_loaded := (is_send_q_loaded ipu4_reset)[1 := True],
        is_send_wr_seen := (is_send_wr_seen ipu4_reset)[1 := 0]\<rparr>, ex_mem))" (is "_ = (_, ?s, _)")
    by (simp add: ipu4_get_send_queue_def ex_lazy_def ex_reads ex_descs ipu4_load_queue_desc_def)
      (simp add: ipu4_reset_def)
  have "ipu4_get_recv_queue ram_env (?s, ex_mem) = (Some ex_queue, (?s\<lparr>is_recv_q := ex_queue, is_recv_q_loaded := True\<rparr>, ex_mem))"
    by (simp add: ipu4_get_recv_queue_def ex_lazy_def ex_reads ex_descs ipu4_load_queue_desc_def)
      (simp add: ipu4_reset_def)
  then show ?thesis
    using send by (simp add: with_queues_def) (simp add: ex_lazy_def ex_dev_def ipu4_reset_def list_update_same_conv)
qed


end
