(* ===== verification/Mmu_Link.thy ===== *)
theory Mmu_Link
  imports Mmu_Pagetable Syscom_Link
begin

unbundle bit_operations_syntax

text \<open>
  The page tables the driver writes and the walk the emulated device does over them in guest
  memory: the device's translation of an address is the driver's entry for its page.
\<close>

section \<open>The tables in guest memory\<close>

definition entry_at :: "'m pci_env \<Rightarrow> 'm \<Rightarrow> u32 \<Rightarrow> nat \<Rightarrow> u32 \<Rightarrow> bool" where
  "entry_at env m pfn j v \<longleftrightarrow>
     pci_dma_read env (page (unat pfn) + word_of_nat (4 * j)) 4 m = Some (le_bytes 4 (unat v))"

definition tables_in_ram :: "'m pci_env \<Rightarrow> ipu6_mmu_info \<Rightarrow> 'm \<Rightarrow> bool" where
  "tables_in_ram env info m \<longleftrightarrow>
     (\<forall>i < 1024. entry_at env m (l1_pt_dma info) i (l1_pt info ! i)) \<and>
     (\<forall>j < 1024. entry_at env m (dummy_l2_pteval info) j (dummy_page_pteval info)) \<and>
     (\<forall>i < 1024. \<forall>j < 1024. case l2_pts info ! i of
        None \<Rightarrow> True | Some pt \<Rightarrow> entry_at env m (l1_pt info ! i) j (pt ! j))"

lemma field_u32: "field_at 0 4 (le_bytes 4 (unat (v :: u32))) = v"
  using field_at_bytes [of "[]" 0 4 v "[]"] by simp

lemma table_addr:
  assumes "j < 1024"
  shows "push_bit 12 (ucast (pfn :: u32)) + ucast (word_of_nat j :: u32) * 4 = page (unat pfn) + word_of_nat (4 * j)"
proof -
  have "(ucast (word_of_nat j :: u32) :: u64) = word_of_nat j"
    using assms by (intro ucast_of_nat_u32) simp
  then show ?thesis by (simp add: page_push mult.commute)
qed

lemma walk_index:
  assumes "p = unat (iova :: u32) div 4096"
  shows "drop_bit 22 iova AND 0x3ff = word_of_nat (p div 1024)"
    and "drop_bit 12 iova AND 0x3ff = word_of_nat (p mod 1024)"
    and "iova AND 0xfff = word_of_nat (unat iova mod 4096)"
proof -
  have m: "(0x3ff :: u32) = mask 10" "(0xfff :: u32) = mask 12"
    by (simp_all add: mask_eq_exp_minus_1)
  have b: "unat iova < 2 ^ 32" by (rule unat_u32_less)
  have "unat (drop_bit 22 iova AND 0x3ff) = p div 1024"
    using b unfolding m by (simp add: unat_and_mask unat_drop_bit assms div_mult2_eq less_mult_imp_div_less)
  then show "drop_bit 22 iova AND 0x3ff = word_of_nat (p div 1024)" by (rule eq_of_unat)
  have "unat (drop_bit 12 iova AND 0x3ff) = p mod 1024"
    unfolding m by (simp add: unat_and_mask unat_drop_bit assms)
  then show "drop_bit 12 iova AND 0x3ff = word_of_nat (p mod 1024)" by (rule eq_of_unat)
  have "unat (iova AND 0xfff) = unat iova mod 4096"
    unfolding m by (simp add: unat_and_mask)
  then show "iova AND 0xfff = word_of_nat (unat iova mod 4096)" by (rule eq_of_unat)
qed

text \<open>The second read of the walk finds the entry of the page.\<close>

lemma l2_entry_in_ram:
  assumes "wf_mmu info" "tables_in_ram env info m" "p < 2 ^ 20"
  shows "entry_at env m (l1_pt info ! (p div 1024)) (p mod 1024) (pte info p)"
proof -
  have i: "p div 1024 < 1024" using assms(3) by (simp add: less_mult_imp_div_less)
  show ?thesis
  proof (cases "l2_pts info ! (p div 1024)")
    case None
    then have "\<not> live info (p div 1024)" using assms(1) i by (auto simp: wf_mmu_def split: option.splits)
    with None assms(2) show ?thesis by (simp add: pte_def live_def tables_in_ram_def)
  next
    case (Some pt)
    have "\<forall>i < 1024. \<forall>j < 1024. case l2_pts info ! i of
        None \<Rightarrow> True | Some pt \<Rightarrow> entry_at env m (l1_pt info ! i) j (pt ! j)"
      using assms(2) by (simp add: tables_in_ram_def)
    then have "case l2_pts info ! (p div 1024) of
        None \<Rightarrow> True | Some pt \<Rightarrow> entry_at env m (l1_pt info ! (p div 1024)) (p mod 1024) (pt ! (p mod 1024))"
      using i by simp
    with Some show ?thesis by (simp add: pte_def)
  qed
qed

lemma device_walk:
  assumes "wf_mmu info" "tables_in_ram env info m"
    and "is_mmu_l1_pfn s = l1_pt_dma info" "l1_pt_dma info \<noteq> 0" "\<And>i. i < 1024 \<Longrightarrow> l1_pt info ! i \<noteq> 0"
    and "p = unat iova div 4096"
  shows "ipu4_iova_to_phys env s m iova =
    (if pte info p = 0 then None
     else Some (page (unat (pte info p)) + word_of_nat (unat iova mod 4096)))"
proof -
  have p: "p < 2 ^ 20" using unat_u32_less [of iova] by (simp add: assms(6) less_mult_imp_div_less)
  then have i: "p div 1024 < 1024" "p mod 1024 < 1024" by (simp_all add: less_mult_imp_div_less)
  note e1 = assms(2) [unfolded tables_in_ram_def, THEN conjunct1, rule_format, OF i(1), unfolded entry_at_def]
  note e2 = l2_entry_in_ram [OF assms(1,2) p, unfolded entry_at_def]
  have off: "(ucast (word_of_nat (unat iova mod 4096) :: u32) :: u64) = word_of_nat (unat iova mod 4096)"
    by (rule ucast_of_nat_u32) (simp add: less_trans [OF mod_less_divisor])
  show ?thesis
    using assms(4) assms(5) [OF i(1)]
    by (simp add: ipu4_iova_to_phys_def assms(3) walk_index [OF assms(6)] Let_def table_addr i e1 e2
        field_u32 off del: of_nat_mult) (simp add: page_push)
qed

section \<open>A concrete memory\<close>

text \<open>A memory of 32-bit entries, each below 256: entry \<open>j\<close> of page \<open>k\<close>.\<close>

definition entry_mem :: "(nat \<Rightarrow> nat \<Rightarrow> u8) \<Rightarrow> nat \<Rightarrow> u8" where
  "entry_mem f a = (if a mod 4 = 0 then f (a div 4096) (a mod 4096 div 4) else 0)"

lemma entry_mem_at:
  assumes "j < 1024" "k < 2 ^ 20"
  shows "entry_at ram_env (entry_mem f) (word_of_nat k) j (ucast (f k j))"
proof -
  have addr: "unat (page k + word_of_nat (4 * j)) = 4096 * k + 4 * j"
    using assms by (subst unat_add_no_wrap) (auto simp: unat_page unat_of_nat_u64 simp del: of_nat_mult)
  have byte: "entry_mem f (4096 * k + 4 * j + i) = (if i = 0 then f k j else 0)" if "i < 4" for i
  proof -
    have "(4096 * k + (4 * j + i)) div 4096 = k" "(4096 * k + (4 * j + i)) mod 4096 div 4 = j"
      using assms(1) that by simp_all
    moreover have "(i + 4 * (1024 * k + j)) mod 4 = i" using that by (simp only: mod_mult_self2 mod_less)
    ultimately show ?thesis by (auto simp: entry_mem_def add_ac)
  qed
  have "map (\<lambda>i. entry_mem f (4096 * k + 4 * j + i)) [0..<4] = [f k j, 0, 0, 0]"
    by (simp only: upt_0_4 list.map byte) simp
  moreover have "le_bytes 4 (unat (ucast (f k j) :: u32)) = [f k j, 0, 0, 0]"
    using unat_lt_two_p [of "f k j"] by (simp add: le_bytes_4 unat_ucast_up)
  moreover have "unat (word_of_nat k :: u32) = k" using assms(2) by (intro unat_of_nat_u32) simp
  ultimately show ?thesis
    by (simp only: entry_at_def ram_env_simps addr)
qed

definition ex_tab_mem :: "nat \<Rightarrow> u8" where
  "ex_tab_mem = entry_mem (\<lambda>k j. if k = 3 then 2 else 1)"

lemma ex_tables_in_ram: "tables_in_ram ram_env ex_info ex_tab_mem"
  using entry_mem_at [of _ 3 "\<lambda>k j. if k = 3 then 2 else 1"] entry_mem_at [of _ 2 "\<lambda>k j. if k = 3 then 2 else 1"]
  by (simp add: tables_in_ram_def ex_info_def ex_tab_mem_def)

text \<open>The tables after mapping page 7 to page frame 5, and a memory that holds them.\<close>

definition ex_info7 :: ipu6_mmu_info where
  "ex_info7 = ex_info\<lparr>l1_pt := (l1_pt ex_info)[0 := 4],
     l2_pts := (l2_pts ex_info)[0 := Some (map (\<lambda>j. if j = 7 then 5 else 1) [0..<1024])]\<rparr>"

lemma ex_map7: "ipu6_mmu_map ex_alloc ex_info (page 7) (page 5) (page 1) 3 = (ok, ex_info7, 4)"
proof -
  let ?info = "ex_info\<lparr>l1_pt := (l1_pt ex_info)[0 := 4],
     l2_pts := (l2_pts ex_info)[0 := Some (replicate 1024 1)]\<rparr>"
  have "page 4 = 0x4000" by (simp add: page_def)
  then have t: "l2_table ex_alloc 0 ex_info 3 = (None, ?info, 4)"
    by (simp add: l2_table_def ex_info_def alloc_l2_pt_def ex_alloc_def Let_def ISP_PADDR_SHIFT_def
        ISP_L1PT_PTES_def)
  have first: "l1_first (page 7) = 0" "l2_first (page 7) = 7"
    by (simp_all add: l1_first_page l2_first_page)
  have "(if 7 \<le> j \<and> j < 7 + 1 then word_of_nat (5 + (j - 7)) else (replicate 1024 1 :: u32 list) ! j)
      = (if j = 7 then 5 else 1)" if "j < 1024" for j :: nat
    using that by auto
  then have "map (\<lambda>j. if 7 \<le> j \<and> j < 7 + 1 then word_of_nat (5 + (j - 7)) else (replicate 1024 1 :: u32 list) ! j) [0..<1024]
      = map (\<lambda>j. if j = 7 then 5 else 1) [0..<1024]"
    by (intro map_cong refl) simp
  then have f: "l2_fill (replicate 1024 1) 7 (page 7) (page 5) 0 (page 1) =
      (map (\<lambda>j. if j = 7 then 5 else 1) [0..<1024], page 8, page 6, page 1, 0)"
    using l2_fill_page [of 1 5 "replicate 1024 1" 7 1 7 0] by simp
  have e: "l2_map_loop ex_alloc (Suc 0) iova paddr m 0 info s = ((None, iova, paddr, m), info, s)"
    for iova paddr m info s by (subst l2_map_loop.simps) simp
  have "l2_pts ?info ! 0 = Some (replicate 1024 1)" by (simp add: ex_info_def)
  then have "l2_map_loop ex_alloc 0 (page 7) (page 5) 0 (page 1) ex_info 3 = ((None, page 8, page 6, page 1), ex_info7, 4)"
    by (subst l2_map_loop.simps) (simp add: page_pos ISP_L1PT_PTES_def t first f e ex_info7_def del: One_nat_def)
  then show ?thesis
    by (simp add: mmu_map_page ex_mmu(2) l2_map_def first ALIGN_PAGE_page)
qed

definition ex_mem7 :: "nat \<Rightarrow> u8" where
  "ex_mem7 = entry_mem (\<lambda>k j. if k = 3 then if j = 0 then 4 else 2 else if k = 4 \<and> j = 7 then 5 else 1)"

lemma ex_tables7: "tables_in_ram ram_env ex_info7 ex_mem7"
proof -
  let ?f = "\<lambda>k j. if k = 3 then if j = 0 then 4 else 2 else if k = 4 \<and> j = 7 then 5 else 1 :: u8"
  have e: "entry_at ram_env ex_mem7 (word_of_nat k) j (ucast (?f k j))" if "j < 1024" "k < 2 ^ 20" for k j
    unfolding ex_mem7_def by (rule entry_mem_at [OF that])
  have "entry_at ram_env ex_mem7 3 0 4" using e [of 0 3] by simp
  moreover have "i \<noteq> 0 \<Longrightarrow> entry_at ram_env ex_mem7 3 i 2" "entry_at ram_env ex_mem7 2 i 1"
    "entry_at ram_env ex_mem7 4 i (if i = 7 then 5 else 1)" if "i < 1024" for i
    using e [OF that, of 3] e [OF that, of 2] e [OF that, of 4] by (auto split: if_splits)
  ultimately show ?thesis
    by (auto simp: tables_in_ram_def ex_info7_def ex_info_def nth_list_update split: option.split)
qed

section \<open>Properties\<close>

text \<open>
  When the driver's tables are in guest memory and the device's base register holds
  their page frame, the device's walk of any 32-bit address gives the driver's entry for
  its page, with the offset added; it fails exactly where that entry is zero.
\<close>

theorem device_walk_is_pte:
  assumes "wf_mmu info" "tables_in_ram env info m"
    and "is_mmu_l1_pfn s = l1_pt_dma info" "l1_pt_dma info \<noteq> 0" "\<And>i. i < 1024 \<Longrightarrow> l1_pt info ! i \<noteq> 0"
    and "p = unat iova div 4096"
  shows "ipu4_iova_to_phys env s m iova =
    (if pte info p = 0 then None
     else Some (page (unat (pte info p)) + word_of_nat (unat iova mod 4096)))"
  using assms by (rule device_walk)

theorem device_walk_is_pte_witness:
  "ipu4_iova_to_phys ram_env (ipu4_reset\<lparr>is_mmu_l1_pfn := 3\<rparr>) ex_tab_mem 0x12345678 = Some 0x1678"
proof -
  have "ipu4_iova_to_phys ram_env (ipu4_reset\<lparr>is_mmu_l1_pfn := 3\<rparr>) ex_tab_mem 0x12345678 =
    (if pte ex_info 0x12345 = 0 then None
     else Some (page (unat (pte ex_info 0x12345)) + word_of_nat (unat (0x12345678 :: u32) mod 4096)))"
    by (rule device_walk_is_pte [OF ex_mmu(1) ex_tables_in_ram]) (simp_all add: ex_info_def)
  then show ?thesis by (simp add: ex_mmu(4) page_small)
qed

text \<open>
  C7: what the driver maps is what the device reaches. After a successful mapping of pages
  from \<open>a\<close> on to page frames from \<open>P\<close> on, once the tables are in memory, the device's walk of
  every byte of the range gives the corresponding physical byte.
\<close>

theorem driver_map_seen_by_device:
  assumes "wf_mmu info" "alloc_fresh al I (dummy_l2_pteval info)" "I st" "pgsize_bitmap info = 0x1000"
    and "0 < n" "a + n \<le> 2 ^ 20" "0 < P" "P + n \<le> 2 ^ 32"
    and "ipu6_mmu_map al info (page a) (page P) (page n) st = (ok, info', st')"
    and "tables_in_ram env info' m" "is_mmu_l1_pfn s = l1_pt_dma info'" "l1_pt_dma info' \<noteq> 0"
    and "\<And>i. i < 1024 \<Longrightarrow> l1_pt info' ! i \<noteq> 0"
    and "unat iova div 4096 = a + j" "j < n"
  shows "ipu4_iova_to_phys env s m iova = Some (page (P + j) + word_of_nat (unat iova mod 4096))"
proof -
  have "P + n < 2 ^ 52 - 1" using assms(8) by simp
  then have post: "map_post a n P info info'"
    using map_page_cases [OF assms(1,2,4,6) _ assms(5,3,9)] by auto
  have "a + j < 2 ^ 20" using assms(6,15) by linarith
  then have e: "pte info' (a + j) = word_of_nat (P + j)"
    using post assms(15) by (simp add: map_post_def)
  have u: "unat (word_of_nat (P + j) :: u32) = P + j"
    using assms(8,15) by (intro unat_of_nat_u32) linarith
  then have "(word_of_nat (P + j) :: u32) \<noteq> 0" using assms(7) by (metis add_is_0 less_irrefl unat_0)
  then show ?thesis
    using device_walk [OF _ assms(10-13) assms(14) [symmetric]] post u
    by (simp add: map_post_def e del: of_nat_add)
qed

theorem driver_map_seen_by_device_witness:
  "ipu6_mmu_map ex_alloc ex_info (page 7) (page 5) (page 1) 3 = (ok, ex_info7, 4) \<and>
   ipu4_iova_to_phys ram_env (ipu4_reset\<lparr>is_mmu_l1_pfn := 3\<rparr>) ex_mem7 0x7123 = Some 0x5123"
proof -
  have "ipu4_iova_to_phys ram_env (ipu4_reset\<lparr>is_mmu_l1_pfn := 3\<rparr>) ex_mem7 0x7123
      = Some (page (5 + 0) + word_of_nat (unat (0x7123 :: u32) mod 4096))"
    by (rule driver_map_seen_by_device [OF ex_mmu(1,3) _ ex_mmu(2) _ _ _ _ ex_map7 ex_tables7])
      (auto simp: ex_info7_def ex_info_def nth_list_update)
  then show ?thesis using ex_map7 by (simp add: page_def)
qed

end
