(* ===== verification/Page_Mapper.thy ===== *)
theory Page_Mapper
  imports Mmu_Pagetable
begin

text \<open>
  What the clients of the IPU page tables rely on: the trash buffer and the DMA layer see
  mapping and unmapping of whole pages through the laws of this interface, which the page
  tables of \<^verbatim>\<open>kernel/ipu4/ipu6-mmu.c\<close> satisfy.
\<close>

section \<open>The interface\<close>

text \<open>
  \<open>tr\<close> is the entry of a page, \<open>mapped\<close> whether the page has a table (so that it may be
  unmapped), \<open>dummy\<close> the entry of a page that leads nowhere, and \<open>inv\<close> the invariant of the
  tables and of the kernel state behind the allocator.
\<close>

locale page_mapper =
  fixes mp :: "'i \<Rightarrow> u64 \<Rightarrow> u64 \<Rightarrow> u64 \<Rightarrow> 's \<Rightarrow> unit res \<times> 'i \<times> 's"
    and unmp :: "'i \<Rightarrow> u64 \<Rightarrow> u64 \<Rightarrow> 'i"
    and tr :: "'i \<Rightarrow> nat \<Rightarrow> u32"
    and mapped :: "'i \<Rightarrow> nat \<Rightarrow> bool"
    and dummy :: "'i \<Rightarrow> u32"
    and inv :: "'i \<Rightarrow> 's \<Rightarrow> bool"
  assumes map_ok: "inv i s \<Longrightarrow> 0 < n \<Longrightarrow> a + n \<le> 2 ^ 20 \<Longrightarrow> P + n < 2 ^ 52 - 1 \<Longrightarrow>
      mp i (page a) (page P) (page n) s = (ok, i', s') \<Longrightarrow>
      inv i' s' \<and> dummy i' = dummy i \<and>
      (\<forall>p < 2 ^ 20. tr i' p = (if a \<le> p \<and> p < a + n then word_of_nat (P + (p - a)) else tr i p)) \<and>
      (\<forall>p < 2 ^ 20. mapped i p \<or> a \<le> p \<and> p < a + n \<longrightarrow> mapped i' p)"
    and map_fail: "inv i s \<Longrightarrow> 0 < n \<Longrightarrow> a + n \<le> 2 ^ 20 \<Longrightarrow> P + n < 2 ^ 52 - 1 \<Longrightarrow>
      mp i (page a) (page P) (page n) s = (Inl e, i', s') \<Longrightarrow>
      inv i' s' \<and> dummy i' = dummy i \<and> (\<forall>p < 2 ^ 20. mapped i p \<longrightarrow> mapped i' p) \<and>
      (\<exists>k \<le> n. \<forall>p < 2 ^ 20. tr i' p = (if a \<le> p \<and> p < a + k then dummy i else tr i p))"
    and unmap: "inv i s \<Longrightarrow> 0 < n \<Longrightarrow> a + n \<le> 2 ^ 20 \<Longrightarrow>
      (\<And>p. a \<le> p \<Longrightarrow> p < a + n \<Longrightarrow> mapped i p) \<Longrightarrow>
      inv (unmp i (page a) (page n)) s \<and> dummy (unmp i (page a) (page n)) = dummy i \<and>
      (\<forall>p < 2 ^ 20. tr (unmp i (page a) (page n)) p = (if a \<le> p \<and> p < a + n then dummy i else tr i p)) \<and>
      (\<forall>p < 2 ^ 20. mapped i p \<longrightarrow> mapped (unmp i (page a) (page n)) p)"
begin

text \<open>One page, as the trash buffer and the coherent buffers map it.\<close>

lemma map_one_ok:
  assumes "inv i s" "a < 2 ^ 20" "P < 2 ^ 51" "mp i (page a) (page P) 4096 s = (ok, i', s')"
  shows "inv i' s' \<and> dummy i' = dummy i \<and>
    (\<forall>p < 2 ^ 20. tr i' p = (if p = a then word_of_nat P else tr i p)) \<and>
    (\<forall>p < 2 ^ 20. mapped i p \<or> p = a \<longrightarrow> mapped i' p)"
proof -
  have eq: "(4096 :: u64) = page 1" by (simp add: page_def)
  have "(a \<le> p \<and> p < a + 1) = (p = a)" for p by auto
  with map_ok [of i s 1 a P i' s'] assms show ?thesis by (simp add: eq)
qed

lemma map_one_fail:
  assumes "inv i s" "a < 2 ^ 20" "P < 2 ^ 51" "tr i a = dummy i" "mp i (page a) (page P) 4096 s = (Inl e, i', s')"
  shows "inv i' s' \<and> dummy i' = dummy i \<and> (\<forall>p < 2 ^ 20. tr i' p = tr i p) \<and>
    (\<forall>p < 2 ^ 20. mapped i p \<longrightarrow> mapped i' p)"
proof -
  have eq: "(4096 :: u64) = page 1" by (simp add: page_def)
  have "a + 1 \<le> 2 ^ 20" "P + 1 < 2 ^ 52 - 1" using assms(2,3) by simp_all
  from map_fail [OF assms(1) zero_less_one this assms(5) [unfolded eq]]
  obtain k where k: "k \<le> 1" "inv i' s'" "dummy i' = dummy i"
    "\<forall>p < 2 ^ 20. mapped i p \<longrightarrow> mapped i' p"
    "\<forall>p < 2 ^ 20. tr i' p = (if a \<le> p \<and> p < a + k then dummy i else tr i p)"
    by blast
  have "tr i' p = tr i p" if "p < 2 ^ 20" for p
  proof (cases "a \<le> p \<and> p < a + k")
    case True
    then have "p = a" using k(1) by linarith
    then show ?thesis using k(5) [rule_format, OF that] True assms(4) by simp
  next
    case False
    then show ?thesis using k(5) [rule_format, OF that] by presburger
  qed
  with k(2-4) show ?thesis by (intro conjI allI impI) simp_all
qed

lemma unmap_one:
  assumes "inv i s" "a < 2 ^ 20" "mapped i a"
  shows "inv (unmp i (page a) 4096) s \<and> dummy (unmp i (page a) 4096) = dummy i \<and>
    (\<forall>p < 2 ^ 20. tr (unmp i (page a) 4096) p = (if p = a then dummy i else tr i p)) \<and>
    (\<forall>p < 2 ^ 20. mapped i p \<longrightarrow> mapped (unmp i (page a) 4096) p)"
proof -
  have eq: "(4096 :: u64) = page 1" by (simp add: page_def)
  have r: "(a \<le> p \<and> p < a + 1) = (p = a)" for p by auto
  have "mapped i p" if "a \<le> p" "p < a + 1" for p
  proof -
    have "p = a" using that by linarith
    with assms(3) show ?thesis by simp
  qed
  moreover have "a + 1 \<le> 2 ^ 20" using assms(2) by simp
  ultimately show ?thesis
    using unmap [OF assms(1) zero_less_one, of a] unfolding eq r by blast
qed

end

text \<open>
  The DMA layer also translates back, and it shares the kernel state with the mapper: \<open>I\<close> is
  the part of the invariant that lives there, and \<open>V\<close> a view of that state which mapping and
  unmapping leave alone.
\<close>

locale page_translator = page_mapper mp unmp tr mapped dummy inv
  for mp :: "'i \<Rightarrow> u64 \<Rightarrow> u64 \<Rightarrow> u64 \<Rightarrow> 's \<Rightarrow> unit res \<times> 'i \<times> 's"
    and unmp :: "'i \<Rightarrow> u64 \<Rightarrow> u64 \<Rightarrow> 'i"
    and tr :: "'i \<Rightarrow> nat \<Rightarrow> u32"
    and mapped :: "'i \<Rightarrow> nat \<Rightarrow> bool"
    and dummy :: "'i \<Rightarrow> u32"
    and inv :: "'i \<Rightarrow> 's \<Rightarrow> bool" +
  fixes tphys :: "'i \<Rightarrow> u64 \<Rightarrow> u64 option"
    and I :: "'s \<Rightarrow> bool"
    and V :: "'s \<Rightarrow> 'v"
  assumes inv_I: "inv i s \<Longrightarrow> I s"
    and inv_change: "inv i s \<Longrightarrow> I s' \<Longrightarrow> inv i s'"
    and view: "inv i s \<Longrightarrow> mp i x y z s = (r, i', s') \<Longrightarrow> V s' = V s"
    and tphys: "inv i s \<Longrightarrow> p < 2 ^ 20 \<Longrightarrow> mapped i p \<Longrightarrow> tphys i (page p) = Some (page (unat (tr i p)))"

section \<open>The page tables as an instance\<close>

definition mmu_inv :: "'s page_alloc \<Rightarrow> ('s \<Rightarrow> bool) \<Rightarrow> ipu6_mmu_info \<Rightarrow> 's \<Rightarrow> bool" where
  "mmu_inv al I info s \<longleftrightarrow> wf_mmu info \<and> pgsize_bitmap info = 0x1000 \<and>
     alloc_fresh al I (dummy_l2_pteval info) \<and> I s"

definition page_live :: "ipu6_mmu_info \<Rightarrow> nat \<Rightarrow> bool" where
  "page_live info p \<longleftrightarrow> live info (p div 1024)"

lemma mmu_invD:
  assumes "mmu_inv al I info s"
  shows "wf_mmu info" "pgsize_bitmap info = 0x1000" "alloc_fresh al I (dummy_l2_pteval info)" "I s"
  using assms by (simp_all add: mmu_inv_def)

lemma mmu_inv_same:
  "mmu_inv al I info s \<Longrightarrow> wf_mmu info' \<Longrightarrow> same_dummies info info' \<Longrightarrow> I s' \<Longrightarrow> mmu_inv al I info' s'"
  by (simp add: mmu_inv_def same_dummies_def)

lemma mmu_inv_map:
  assumes "mmu_inv al I info s" "ipu6_mmu_map al info iova paddr sz s = (r, info', s')"
  shows "mmu_inv al I info' s'" "same_dummies info info'"
  using wf_mmu_map(1) [OF mmu_invD(1,3,4) [OF assms(1)] assms(2)] mmu_inv_same [OF assms(1)] by blast+

interpretation mmu: page_mapper "ipu6_mmu_map al" ipu6_mmu_unmap pte page_live dummy_page_pteval "mmu_inv al I"
  for al I
proof
  fix info s n a P info' s'
  assume h: "mmu_inv al I info s" "0 < n" "a + n \<le> 2 ^ 20" "P + n < 2 ^ 52 - 1"
    "ipu6_mmu_map al info (page a) (page P) (page n) s = (ok, info', s')"
  note i = mmu_invD [OF h(1)]
  from map_page_cases [OF i(1,3,2) h(3,4,2) i(4) h(5)] have "map_post a n P info info'" by simp
  moreover from this have "live info' (p div 1024)" if "p < 2 ^ 20" "live info (p div 1024)" for p
    using that by (simp add: map_post_def less_mult_imp_div_less)
  ultimately show "mmu_inv al I info' s' \<and> dummy_page_pteval info' = dummy_page_pteval info \<and>
      (\<forall>p < 2 ^ 20. pte info' p = (if a \<le> p \<and> p < a + n then word_of_nat (P + (p - a)) else pte info p)) \<and>
      (\<forall>p < 2 ^ 20. page_live info p \<or> a \<le> p \<and> p < a + n \<longrightarrow> page_live info' p)"
    using mmu_inv_map [OF h(1,5)] by (auto simp: map_post_def same_dummies_def page_live_def)
next
  fix info s n a P e info' s'
  assume h: "mmu_inv al I info s" "0 < n" "a + n \<le> 2 ^ 20" "P + n < 2 ^ 52 - 1"
    "ipu6_mmu_map al info (page a) (page P) (page n) s = (Inl e, info', s')"
  note i = mmu_invD [OF h(1)]
  from map_page_cases [OF i(1,3,2) h(3,4,2) i(4) h(5)] obtain k where k: "k \<le> n"
    "\<forall>p < 2 ^ 20. pte info' p = (if a \<le> p \<and> p < a + k then dummy_page_pteval info else pte info p)"
    "\<forall>i < 1024. live info i \<longrightarrow> live info' i"
    by auto
  then have "\<forall>p < 2 ^ 20. page_live info p \<longrightarrow> page_live info' p"
    by (simp add: page_live_def less_mult_imp_div_less)
  then show "mmu_inv al I info' s' \<and> dummy_page_pteval info' = dummy_page_pteval info \<and>
      (\<forall>p < 2 ^ 20. page_live info p \<longrightarrow> page_live info' p) \<and>
      (\<exists>k \<le> n. \<forall>p < 2 ^ 20. pte info' p = (if a \<le> p \<and> p < a + k then dummy_page_pteval info else pte info p))"
    using mmu_inv_map [OF h(1,5)] k by (auto simp: same_dummies_def)
next
  fix info s n a
  assume h: "mmu_inv al I info s" "0 < n" "a + n \<le> 2 ^ 20" "\<And>p. a \<le> p \<Longrightarrow> p < a + n \<Longrightarrow> page_live info p"
  note i = mmu_invD [OF h(1)]
  have "unmap_post a n info (ipu6_mmu_unmap info (page a) (page n))"
    unfolding mmu_unmap_page [OF i(2)] using h(4) by (intro l2_unmap_page [OF i(1) h(3,2)]) (simp add: page_live_def)
  then show "mmu_inv al I (ipu6_mmu_unmap info (page a) (page n)) s \<and>
      dummy_page_pteval (ipu6_mmu_unmap info (page a) (page n)) = dummy_page_pteval info \<and>
      (\<forall>p < 2 ^ 20. pte (ipu6_mmu_unmap info (page a) (page n)) p =
         (if a \<le> p \<and> p < a + n then dummy_page_pteval info else pte info p)) \<and>
      (\<forall>p < 2 ^ 20. page_live info p \<longrightarrow> page_live (ipu6_mmu_unmap info (page a) (page n)) p)"
    using mmu_inv_same [OF h(1) _ _ i(4)] by (auto simp: unmap_post_def same_dummies_def page_live_def)
qed

text \<open>The same with a view of the kernel state that the allocator of the tables leaves alone.\<close>

definition mmu_inv_view :: "'s page_alloc \<Rightarrow> ('s \<Rightarrow> bool) \<Rightarrow> ('s \<Rightarrow> 'v) \<Rightarrow> ipu6_mmu_info \<Rightarrow> 's \<Rightarrow> bool" where
  "mmu_inv_view al I V info s \<longleftrightarrow> wf_mmu info \<and> pgsize_bitmap info = 0x1000 \<and> aperture_end info \<le> 0xffffffff \<and>
     (\<forall>v. alloc_fresh al (\<lambda>s. I s \<and> V s = v) (dummy_l2_pteval info)) \<and> I s"

lemma mmu_inv_viewD:
  "mmu_inv_view al I V info s \<Longrightarrow> mmu_inv al (\<lambda>s'. I s' \<and> V s' = V s) info s"
  by (simp add: mmu_inv_view_def mmu_inv_def)

lemma mmu_inv_viewI:
  "mmu_inv_view al I V info s \<Longrightarrow> mmu_inv al (\<lambda>s. I s \<and> V s = v) info' s' \<Longrightarrow>
   same_dummies info info' \<Longrightarrow> mmu_inv_view al I V info' s'"
  by (simp add: mmu_inv_view_def mmu_inv_def same_dummies_def)

lemma mmu_inv_view_map:
  assumes "mmu_inv_view al I V info s" "ipu6_mmu_map al info iova paddr sz s = (r, info', s')"
  shows "mmu_inv_view al I V info' s'" "V s' = V s"
proof -
  note m = mmu_inv_map [OF mmu_inv_viewD [OF assms(1)] assms(2)]
  from m(1) show "V s' = V s" by (simp add: mmu_inv_def)
  show "mmu_inv_view al I V info' s'" by (rule mmu_inv_viewI [OF assms(1) m])
qed

lemma mmu_inv_view_unmap:
  assumes "mmu_inv_view al I V info s"
  shows "mmu_inv_view al I V (ipu6_mmu_unmap info iova sz) s"
  using assms wf_mmu_unmap [of info iova sz] by (simp add: mmu_inv_view_def same_dummies_def)

interpretation mmut: page_translator "ipu6_mmu_map al" ipu6_mmu_unmap pte page_live dummy_page_pteval
  "mmu_inv_view al I V" ipu6_mmu_iova_to_phys I V
  for al I V
proof
  fix info s n a P info' s'
  assume h: "mmu_inv_view al I V info s" "0 < n" "a + n \<le> 2 ^ 20" "P + n < 2 ^ 52 - 1"
    "ipu6_mmu_map al info (page a) (page P) (page n) s = (ok, info', s')"
  from mmu.map_ok [OF mmu_inv_viewD [OF h(1)] h(2-5)] mmu_inv_view_map(1) [OF h(1,5)]
  show "mmu_inv_view al I V info' s' \<and> dummy_page_pteval info' = dummy_page_pteval info \<and>
      (\<forall>p < 2 ^ 20. pte info' p = (if a \<le> p \<and> p < a + n then word_of_nat (P + (p - a)) else pte info p)) \<and>
      (\<forall>p < 2 ^ 20. page_live info p \<or> a \<le> p \<and> p < a + n \<longrightarrow> page_live info' p)"
    by blast
next
  fix info s n a P e info' s'
  assume h: "mmu_inv_view al I V info s" "0 < n" "a + n \<le> 2 ^ 20" "P + n < 2 ^ 52 - 1"
    "ipu6_mmu_map al info (page a) (page P) (page n) s = (Inl e, info', s')"
  from mmu.map_fail [OF mmu_inv_viewD [OF h(1)] h(2-5)] mmu_inv_view_map(1) [OF h(1,5)]
  show "mmu_inv_view al I V info' s' \<and> dummy_page_pteval info' = dummy_page_pteval info \<and>
      (\<forall>p < 2 ^ 20. page_live info p \<longrightarrow> page_live info' p) \<and>
      (\<exists>k \<le> n. \<forall>p < 2 ^ 20. pte info' p = (if a \<le> p \<and> p < a + k then dummy_page_pteval info else pte info p))"
    by blast
next
  fix info s n a
  assume h: "mmu_inv_view al I V info s" "0 < n" "a + n \<le> 2 ^ 20" "\<And>p. a \<le> p \<Longrightarrow> p < a + n \<Longrightarrow> page_live info p"
  from mmu.unmap [OF mmu_inv_viewD [OF h(1)] h(2-4)] mmu_inv_view_unmap [OF h(1)]
  show "mmu_inv_view al I V (ipu6_mmu_unmap info (page a) (page n)) s \<and>
      dummy_page_pteval (ipu6_mmu_unmap info (page a) (page n)) = dummy_page_pteval info \<and>
      (\<forall>p < 2 ^ 20. pte (ipu6_mmu_unmap info (page a) (page n)) p =
         (if a \<le> p \<and> p < a + n then dummy_page_pteval info else pte info p)) \<and>
      (\<forall>p < 2 ^ 20. page_live info p \<longrightarrow> page_live (ipu6_mmu_unmap info (page a) (page n)) p)"
    by blast
next
  fix info s
  assume "mmu_inv_view al I V info s"
  then show "I s" by (simp add: mmu_inv_view_def)
next
  fix info s s'
  assume "mmu_inv_view al I V info s" "I s'"
  then show "mmu_inv_view al I V info s'" by (simp add: mmu_inv_view_def)
next
  fix info s x y z r info' s'
  assume "mmu_inv_view al I V info s" "ipu6_mmu_map al info x y z s = (r, info', s')"
  then show "V s' = V s" by (rule mmu_inv_view_map(2))
next
  fix info s p
  assume "mmu_inv_view al I V info s" "p < 2 ^ 20" "page_live info p"
  then show "ipu6_mmu_iova_to_phys info (page p) = Some (page (unat (pte info p)))"
    by (intro iova_to_phys_page) (simp_all add: mmu_inv_view_def page_live_def)
qed

end
