(* ===== verification/Mmu_Hw.thy ===== *)
theory Mmu_Hw
  imports Mmu_Link Page_Mapper
begin

unbundle bit_operations_syntax

text \<open>
  Programming the IPU MMUs, \<^verbatim>\<open>kernel/ipu4/ipu6-mmu.c\<close>: TLB invalidation in its two forms, the
  initialisation of the MMU blocks from the configuration tables of \<^verbatim>\<open>kernel/ipu4/ipu6.c\<close>, the
  trash buffer, and the life cycle of the MMU instance.
\<close>

section \<open>Constants\<close>

definition REG_TLB_INVALIDATE :: u64 where [ipu4_consts]: "REG_TLB_INVALIDATE = 0x0000"
definition MMU0_TLB_INVALIDATE :: u32 where [ipu4_consts]: "MMU0_TLB_INVALIDATE = 1"
definition MMU1_TLB_INVALIDATE :: u32 where [ipu4_consts]: "MMU1_TLB_INVALIDATE = 0xffff"
definition REG_L1_PHYS :: u64 where [ipu4_consts]: "REG_L1_PHYS = 0x0004"
definition REG_INFO :: u64 where [ipu4_consts]: "REG_INFO = 0x0008"
definition IPU4_MMU_MAX_TLB_L1_STREAMS :: nat where [ipu4_consts]: "IPU4_MMU_MAX_TLB_L1_STREAMS = 16"
definition IPU4_MMU_MAX_TLB_L2_STREAMS :: nat where [ipu4_consts]: "IPU4_MMU_MAX_TLB_L2_STREAMS = 16"
definition IPU6_MMU_MAX_DEVICES :: nat where [ipu4_consts]: "IPU6_MMU_MAX_DEVICES = 4"
definition IPU6_MMU_MAX_TLB_L1_STREAMS :: nat where [ipu4_consts]: "IPU6_MMU_MAX_TLB_L1_STREAMS = 32"
definition IPU6_MMU_MAX_TLB_L2_STREAMS :: nat where [ipu4_consts]: "IPU6_MMU_MAX_TLB_L2_STREAMS = 32"
definition IPU6_MAX_LI_BLOCK_ADDR :: u16 where [ipu4_consts]: "IPU6_MAX_LI_BLOCK_ADDR = 128"
definition IPU6_MAX_L2_BLOCK_ADDR :: u16 where [ipu4_consts]: "IPU6_MAX_L2_BLOCK_ADDR = 64"
definition IPU6_MMUV2_L2_RANGE :: u64 where [ipu4_consts]: "IPU6_MMUV2_L2_RANGE = 1024 * 4096"
definition IPU6_MMUV2_MAX_L2_BLOCKS :: u64 where [ipu4_consts]: "IPU6_MMUV2_MAX_L2_BLOCKS = 2"
definition IPU6_MMUV2_TRASH_RANGE :: u64 where [ipu4_consts]: "IPU6_MMUV2_TRASH_RANGE = IPU6_MMUV2_L2_RANGE * IPU6_MMUV2_MAX_L2_BLOCKS"
definition MMUV2_ENTRIES_PER_L1_BLOCK :: u64 where [ipu4_consts]: "MMUV2_ENTRIES_PER_L1_BLOCK = 16"
definition MMUV2_TRASH_L1_BLOCK_OFFSET :: u64 where [ipu4_consts]: "MMUV2_TRASH_L1_BLOCK_OFFSET = MMUV2_ENTRIES_PER_L1_BLOCK * 4096"
definition MMUV2_TRASH_L2_BLOCK_OFFSET :: u64 where [ipu4_consts]: "MMUV2_TRASH_L2_BLOCK_OFFSET = IPU6_MMUV2_L2_RANGE"

definition MMUV2_AT_REG_L1_ZLW_EN_SID :: "nat \<Rightarrow> u64" where
  "MMUV2_AT_REG_L1_ZLW_EN_SID i = 0x100 + word_of_nat i * 0x20"
definition MMUV2_AT_REG_L1_ZLW_1DMODE_SID :: "nat \<Rightarrow> u64" where
  "MMUV2_AT_REG_L1_ZLW_1DMODE_SID i = 0x100 + word_of_nat i * 0x20 + 0x4"
definition MMUV2_AT_REG_L1_ZLW_INS_N_AHEAD_SID :: "nat \<Rightarrow> u64" where
  "MMUV2_AT_REG_L1_ZLW_INS_N_AHEAD_SID i = 0x100 + word_of_nat i * 0x20 + 0x8"
definition MMUV2_AT_REG_L1_ZLW_2DMODE_SID :: "nat \<Rightarrow> u64" where
  "MMUV2_AT_REG_L1_ZLW_2DMODE_SID i = 0x100 + word_of_nat i * 0x20 + 0x10"
definition MMUV2_AT_REG_L1_ZLW_INSERTION :: "nat \<Rightarrow> u64" where
  "MMUV2_AT_REG_L1_ZLW_INSERTION i = 0x100 + word_of_nat i * 0x20 + 0xc"
definition MMUV2_AT_REG_L1_FW_ZLW_FIFO :: u64 where
  "MMUV2_AT_REG_L1_FW_ZLW_FIFO = 0x100 + word_of_nat IPU4_MMU_MAX_TLB_L1_STREAMS * 0x20 + 0x3c"
definition MMUV2_AT_REG_L1_FW_ZLW_PRIO :: u64 where
  "MMUV2_AT_REG_L1_FW_ZLW_PRIO = 0x100 + word_of_nat IPU4_MMU_MAX_TLB_L1_STREAMS * 0x20"

section \<open>State\<close>

text \<open>One MMU block. \<open>hw_base\<close> is the union of the configured offset and the mapped address.\<close>

record ipu6_mmu_hw =
  hw_base :: u64
  info_bits :: u32
  nr_l1streams :: nat
  l1_block_sz :: "u8 list"
  l1_zlw_en :: "bool list"
  l1_zlw_1d_mode :: "bool list"
  l1_ins_zlw_ahead_pages :: "u8 list"
  l1_zlw_2d_mode :: "bool list"
  l1_stream_id_reg_offset :: u32
  l2_stream_id_reg_offset :: u32
  nr_l2streams :: nat
  l2_block_sz :: "u8 list"
  insert_read_before_invalidate :: bool
  zlw_invalidate_flag :: bool

text \<open>A buffer on the instance's list of DMA allocations.\<close>

record vm_info =
  vm_pages :: "nat list"
  ipu6_iova :: u64
  vm_vaddr :: u64
  vm_size :: u64

text \<open>
  The MMU instance, with the tables of its mapping. \<open>trash_page\<close> is whether the page is
  allocated; the list of blocks has the length the code keeps in \<^verbatim>\<open>nr_mmus\<close>.
\<close>

record ipu6_mmu =
  mmu_hw :: "ipu6_mmu_hw list"
  mmid :: int
  mmu_info :: ipu6_mmu_info
  vma_list :: "vm_info list"
  trash_page :: bool
  pci_trash_page :: u64
  iova_trash_page :: u64
  mmu_ready :: bool

text \<open>
  The kernel services behind the MMU and DMA code, over one state: page allocation, the
  allocator of device address ranges (\<^verbatim>\<open>linux/iova.h\<close>; a range is its first and last page
  number), the streaming mapping of pages (\<open>None\<close> is a mapping error) and \<^verbatim>\<open>kzalloc\<close>.
\<close>

record 's dma_env =
  page_env :: "'s page_alloc"
  alloc_iova :: "nat \<Rightarrow> u64 \<Rightarrow> 's \<Rightarrow> (nat \<times> nat) option \<times> 's"
  find_iova :: "nat \<Rightarrow> 's \<Rightarrow> (nat \<times> nat) option"
  free_iova :: "nat \<times> nat \<Rightarrow> 's \<Rightarrow> 's"
  alloc_page :: "'s \<Rightarrow> bool \<times> 's"
  dma_map_page :: "nat \<Rightarrow> 's \<Rightarrow> u64 option \<times> 's"
  dma_unmap_page :: "u64 \<Rightarrow> 's \<Rightarrow> 's"
  kzalloc_ok :: "'s \<Rightarrow> bool"

definition bool_val :: "bool \<Rightarrow> u32" where
  "bool_val b = (if b then 1 else 0)"

section \<open>Invalidating the TLB\<close>

text \<open>Waiting for the address translator: \<open>True\<close> when it answered within the retries.\<close>

function zlw_wait :: "'d mmio_dev \<Rightarrow> u64 \<Rightarrow> nat \<Rightarrow> ('d, bool) state" where
  "zlw_wait dv a retry =
     (if retry > 1000 then State_Monad.return False
      else do {
        ret \<leftarrow> readl dv a;
        if ret \<noteq> 2 then zlw_wait dv a (Suc retry) else State_Monad.return True })"
  by pat_completeness auto
termination
  by (relation "measure (\<lambda>(dv, a, retry). 1001 - retry)") auto

declare zlw_wait.simps [simp del]

definition zlw_stream_writes :: "ipu6_mmu \<Rightarrow> ipu6_mmu_hw \<Rightarrow> nat \<Rightarrow> (u32 \<times> u64) list" where
  "zlw_stream_writes mmu hw i =
     (if l1_zlw_en hw ! i
      then map (\<lambda>j. (ucast (iova_trash_page mmu + word_of_nat j * MMUV2_TRASH_L1_BLOCK_OFFSET),
                     hw_base hw + MMUV2_AT_REG_L1_ZLW_INSERTION i)) [0..<unat (l1_block_sz hw ! i)]
           @ [(ucast (iova_trash_page mmu + MMUV2_TRASH_L2_BLOCK_OFFSET),
               hw_base hw + MMUV2_AT_REG_L1_ZLW_INSERTION 0)]
      else [])"

definition zlw_invalidate :: "'d mmio_dev \<Rightarrow> ipu6_mmu \<Rightarrow> ipu6_mmu_hw \<Rightarrow> ('d, unit) state" where
  "zlw_invalidate dv mmu hw = do {
     write_all dv (concat (map (zlw_stream_writes mmu hw) [0..<nr_l1streams hw]));
     _ \<leftarrow> zlw_wait dv (hw_base hw + MMUV2_AT_REG_L1_FW_ZLW_FIFO) 0;
     State_Monad.return () }"

definition tlb_invalidate_hw :: "'d mmio_dev \<Rightarrow> ipu6_mmu \<Rightarrow> ipu6_mmu_hw \<Rightarrow> ('d, unit) state" where
  "tlb_invalidate_hw dv mmu hw = do {
     (if insert_read_before_invalidate hw
      then do { _ \<leftarrow> readl dv (hw_base hw + REG_L1_PHYS); State_Monad.return () }
      else State_Monad.return ());
     if zlw_invalidate_flag hw then zlw_invalidate dv mmu hw
     else
       let inv = (if nr_l1streams hw = 32 then 0xffffffff
                  else if nr_l1streams hw = 0 then MMU0_TLB_INVALIDATE
                  else MMU1_TLB_INVALIDATE)
       in writel dv inv (hw_base hw + REG_TLB_INVALIDATE) }"

fun tlb_invalidate_all :: "'d mmio_dev \<Rightarrow> ipu6_mmu \<Rightarrow> ipu6_mmu_hw list \<Rightarrow> ('d, unit) state" where
  "tlb_invalidate_all dv mmu [] = State_Monad.return ()"
| "tlb_invalidate_all dv mmu (hw # hws) = do {
     tlb_invalidate_hw dv mmu hw;
     tlb_invalidate_all dv mmu hws }"

definition tlb_invalidate :: "'d mmio_dev \<Rightarrow> ipu6_mmu \<Rightarrow> ('d, unit) state" where
  "tlb_invalidate dv mmu =
     (if \<not> mmu_ready mmu then State_Monad.return ()
      else tlb_invalidate_all dv mmu (mmu_hw mmu))"

section \<open>Initialising the blocks\<close>

text \<open>The loop over the first-level streams; the result is whether any stream uses ZLW.\<close>

fun l1_streams ::
  "'d mmio_dev \<Rightarrow> ipu6_mmu_hw \<Rightarrow> nat list \<Rightarrow> u16 \<Rightarrow> bool \<Rightarrow> ('d, bool res) state" where
  "l1_streams dv hw [] block_addr any = State_Monad.return (Inr any)"
| "l1_streams dv hw (j # js) block_addr any =
     (if block_addr > IPU6_MAX_LI_BLOCK_ADDR then State_Monad.return (Inl EINVAL)
      else do {
        writel dv (ucast block_addr)
          (hw_base hw + ucast (l1_stream_id_reg_offset hw) + 4 * word_of_nat j);
        writel dv (bool_val (l1_zlw_en hw ! j)) (hw_base hw + MMUV2_AT_REG_L1_ZLW_EN_SID j);
        writel dv (bool_val (l1_zlw_1d_mode hw ! j)) (hw_base hw + MMUV2_AT_REG_L1_ZLW_1DMODE_SID j);
        writel dv (ucast (l1_ins_zlw_ahead_pages hw ! j))
          (hw_base hw + MMUV2_AT_REG_L1_ZLW_INS_N_AHEAD_SID j);
        writel dv (bool_val (l1_zlw_2d_mode hw ! j)) (hw_base hw + MMUV2_AT_REG_L1_ZLW_2DMODE_SID j);
        l1_streams dv hw js (block_addr + ucast (l1_block_sz hw ! j)) (any \<or> l1_zlw_en hw ! j) })"

fun l2_streams :: "'d mmio_dev \<Rightarrow> ipu6_mmu_hw \<Rightarrow> nat list \<Rightarrow> u16 \<Rightarrow> ('d, unit res) state" where
  "l2_streams dv hw [] block_addr = State_Monad.return ok"
| "l2_streams dv hw (j # js) block_addr =
     (if block_addr > IPU6_MAX_L2_BLOCK_ADDR then State_Monad.return (Inl EINVAL)
      else do {
        writel dv (ucast block_addr)
          (hw_base hw + ucast (l2_stream_id_reg_offset hw) + 4 * word_of_nat j);
        l2_streams dv hw js (block_addr + ucast (l2_block_sz hw ! j)) })"

definition mmu_hw_program :: "'d mmio_dev \<Rightarrow> u32 \<Rightarrow> ipu6_mmu_hw \<Rightarrow> ('d, unit res) state" where
  "mmu_hw_program dv l1_dma hw = do {
     writel dv l1_dma (hw_base hw + REG_L1_PHYS);
     writel dv (info_bits hw) (hw_base hw + REG_INFO);
     r \<leftarrow> l1_streams dv hw [0..<nr_l1streams hw] 0 False;
     (case r of
        Inl e \<Rightarrow> State_Monad.return (Inl e)
      | Inr any \<Rightarrow> do {
          (if any then writel dv 1 (hw_base hw + MMUV2_AT_REG_L1_FW_ZLW_PRIO)
           else State_Monad.return ());
          l2_streams dv hw [0..<nr_l2streams hw] 0 }) }"

fun mmu_hw_program_all :: "'d mmio_dev \<Rightarrow> u32 \<Rightarrow> ipu6_mmu_hw list \<Rightarrow> ('d, unit res) state" where
  "mmu_hw_program_all dv l1_dma [] = State_Monad.return ok"
| "mmu_hw_program_all dv l1_dma (hw # hws) = do {
     r \<leftarrow> mmu_hw_program dv l1_dma hw;
     (case r of
        Inl e \<Rightarrow> State_Monad.return (Inl e)
      | Inr _ \<Rightarrow> mmu_hw_program_all dv l1_dma hws) }"

text \<open>The loop that maps every page of the trash range to the one trash page.\<close>

fun map_trash ::
  "('i \<Rightarrow> u64 \<Rightarrow> u64 \<Rightarrow> u64 \<Rightarrow> 's \<Rightarrow> unit res \<times> 'i \<times> 's) \<Rightarrow> u64 \<Rightarrow> nat list \<Rightarrow> 'i \<Rightarrow> 's \<Rightarrow>
   unit res \<times> 'i \<times> 's" where
  "map_trash mp dma [] info s = (ok, info, s)"
| "map_trash mp dma (p # ps) info s =
     (case mp info (page p) dma 4096 s of
        (Inl e, info1, s1) \<Rightarrow> (Inl e, info1, s1)
      | (Inr _, info1, s1) \<Rightarrow> map_trash mp dma ps info1 s1)"

definition allocate_trash_buffer ::
  "'s dma_env \<Rightarrow> ipu6_mmu \<Rightarrow> 's \<Rightarrow> unit res \<times> ipu6_mmu \<times> 's" where
  "allocate_trash_buffer env mmu s =
     (let n_pages = unat (drop_bit 12 (IPU6_MMUV2_TRASH_RANGE + 4095)) in
      case alloc_iova env n_pages (drop_bit 12 (aperture_end (mmu_info mmu))) s of
        (None, s1) \<Rightarrow> (Inl ENOMEM, mmu, s1)
      | (Some (lo, hi), s1) \<Rightarrow>
        (case dma_map_page env 0 s1 of
           (None, s2) \<Rightarrow> (Inl ENOMEM, mmu, free_iova env (lo, hi) s2)
         | (Some dma, s2) \<Rightarrow>
           (case map_trash (ipu6_mmu_map (page_env env)) dma (map (\<lambda>i. lo + i) [0..<n_pages]) (mmu_info mmu) s2 of
              (Inr _, info1, s3) \<Rightarrow>
                (ok, mmu\<lparr>pci_trash_page := dma, mmu_info := info1, iova_trash_page := page lo\<rparr>, s3)
            | (Inl e, info1, s3) \<Rightarrow>
                (Inl e,
                 mmu\<lparr>pci_trash_page := dma,
                     mmu_info := ipu6_mmu_unmap info1 (page lo) (page (hi - lo + 1))\<rparr>,
                 free_iova env (lo, hi) (dma_unmap_page env dma s3)))))"

definition ipu6_mmu_hw_init ::
  "'d mmio_dev \<Rightarrow> 's dma_env \<Rightarrow> ipu6_mmu \<Rightarrow> 's \<Rightarrow> 'd \<Rightarrow> unit res \<times> ipu6_mmu \<times> 's \<times> 'd" where
  "ipu6_mmu_hw_init dv env mmu s d =
     (case run_state (mmu_hw_program_all dv (l1_pt_dma (mmu_info mmu)) (mmu_hw mmu)) d of
        (Inl e, d1) \<Rightarrow> (Inl e, mmu, s, d1)
      | (Inr _, d1) \<Rightarrow>
        if trash_page mmu then (ok, mmu\<lparr>mmu_ready := True\<rparr>, s, d1)
        else
          (case alloc_page env s of
             (False, s1) \<Rightarrow> (Inl ENOMEM, mmu, s1, d1)
           | (True, s1) \<Rightarrow>
             (case allocate_trash_buffer env (mmu\<lparr>trash_page := True\<rparr>) s1 of
                (Inl e, mmu1, s2) \<Rightarrow> (Inl e, mmu1\<lparr>trash_page := False\<rparr>, s2, d1)
              | (Inr _, mmu1, s2) \<Rightarrow> (ok, mmu1\<lparr>mmu_ready := True\<rparr>, s2, d1))))"

definition ipu6_mmu_hw_cleanup :: "ipu6_mmu \<Rightarrow> ipu6_mmu" where
  "ipu6_mmu_hw_cleanup mmu = mmu\<lparr>mmu_ready := False\<rparr>"

section \<open>Creating and destroying the instance\<close>

definition alloc_dma_mapping ::
  "'s dma_env \<Rightarrow> bool \<Rightarrow> 's \<Rightarrow> ipu6_mmu_info option \<times> 's" where
  "alloc_dma_mapping env secure s =
     (if \<not> kzalloc_ok env s then (None, s)
      else ipu6_mmu_alloc (page_env env) (kzalloc_ok env s) secure s)"

text \<open>The configuration of a sub-system's MMUs, from \<^verbatim>\<open>struct ipu6_hw_variants\<close>.\<close>

record ipu6_hw_variants =
  hv_offset :: u64
  hv_nr_mmus :: nat
  hv_mmu_hw :: "ipu6_mmu_hw list"
  dmem_offset :: u32
  spc_offset :: u32

definition ipu6_mmu_init ::
  "'s dma_env \<Rightarrow> bool \<Rightarrow> u64 \<Rightarrow> int \<Rightarrow> ipu6_hw_variants \<Rightarrow> 's \<Rightarrow> ipu6_mmu res \<times> 's" where
  "ipu6_mmu_init env secure base mid hw s =
     (if hv_nr_mmus hw > IPU6_MMU_MAX_DEVICES then (Inl EINVAL, s)
      else if \<not> kzalloc_ok env s then (Inl ENOMEM, s)
      else if list_ex (\<lambda>h. nr_l1streams h > IPU6_MMU_MAX_TLB_L1_STREAMS \<or>
                           nr_l2streams h > IPU6_MMU_MAX_TLB_L2_STREAMS)
                (take (hv_nr_mmus hw) (hv_mmu_hw hw)) then (Inl EINVAL, s)
      else
        (case alloc_dma_mapping env secure s of
           (None, s1) \<Rightarrow> (Inl ENOMEM, s1)
         | (Some info, s1) \<Rightarrow>
             (Inr \<lparr>mmu_hw = map (\<lambda>h. h\<lparr>hw_base := base + hw_base h\<rparr>) (take (hv_nr_mmus hw) (hv_mmu_hw hw)),
                   mmid = mid, mmu_info = info, vma_list = [], trash_page = False,
                   pci_trash_page = 0, iova_trash_page = 0, mmu_ready = False\<rparr>, s1)))"

text \<open>
  Tearing down: the trash range is unmapped and freed, the second-level tables and the dummy
  page are unmapped from the bus, then the first-level table. Freeing the memory itself is
  not visible in the model.
\<close>

definition ipu6_mmu_destroy :: "'s dma_env \<Rightarrow> ipu6_mmu \<Rightarrow> 's \<Rightarrow> ipu6_mmu \<times> 's" where
  "ipu6_mmu_destroy env mmu s =
     (let (mmu1, s1) =
        (if iova_trash_page mmu \<noteq> 0
         then
           (let pfn = unat (drop_bit 12 (iova_trash_page mmu));
                (info1, sa) =
                  (case find_iova env pfn s of
                     Some (lo, hi) \<Rightarrow>
                       (ipu6_mmu_unmap (mmu_info mmu) (page lo) (page (hi - lo + 1)), free_iova env (lo, hi) s)
                   | None \<Rightarrow> (mmu_info mmu, s))
            in (mmu\<lparr>mmu_info := info1, iova_trash_page := 0, pci_trash_page := 0\<rparr>,
                dma_unmap_page env (pci_trash_page mmu) sa))
         else (mmu, s));
        info = mmu_info mmu1;
        s2 = fold (\<lambda>i st. if l1_pt info ! i \<noteq> dummy_l2_pteval info
                          then dma_unmap_page env (TBL_PHYS_ADDR (l1_pt info ! i)) st else st)
               [0..<ISP_L1PT_PTES] s1;
        s3 = dma_unmap_page env (TBL_PHYS_ADDR (dummy_page_pteval info)) s2
      in (mmu1, dma_unmap_page env (TBL_PHYS_ADDR (l1_pt_dma info)) s3))"

text \<open>Releasing the instance's mapping; the address-range domain goes with it.\<close>

definition ipu6_mmu_cleanup :: "'s dma_env \<Rightarrow> ('s \<Rightarrow> 's) \<Rightarrow> ipu6_mmu \<Rightarrow> 's \<Rightarrow> 's" where
  "ipu6_mmu_cleanup env put_iova_domain mmu s =
     (let (mmu1, s1) = ipu6_mmu_destroy env mmu s in put_iova_domain s1)"

section \<open>The configuration tables\<close>

definition IPU4_ISYS_OFFSET :: u64 where [ipu4_consts]: "IPU4_ISYS_OFFSET = 0x00100000"
definition IPU4_PSYS_OFFSET :: u64 where [ipu4_consts]: "IPU4_PSYS_OFFSET = 0x00400000"
definition IPU4_ISYS_IOMMU0_OFFSET :: u64 where [ipu4_consts]: "IPU4_ISYS_IOMMU0_OFFSET = 0x000e0000"
definition IPU4_ISYS_IOMMU1_OFFSET :: u64 where [ipu4_consts]: "IPU4_ISYS_IOMMU1_OFFSET = 0x000e0100"
definition IPU4_PSYS_IOMMU0_OFFSET :: u64 where [ipu4_consts]: "IPU4_PSYS_IOMMU0_OFFSET = 0x000b0000"
definition IPU4_PSYS_IOMMU1_OFFSET :: u64 where [ipu4_consts]: "IPU4_PSYS_IOMMU1_OFFSET = 0x000b0100"
definition IPU4_PSYS_IOMMU1R_OFFSET :: u64 where [ipu4_consts]: "IPU4_PSYS_IOMMU1R_OFFSET = 0x000b0600"
definition IPU4_ISYS_SPC_OFFSET :: u32 where [ipu4_consts]: "IPU4_ISYS_SPC_OFFSET = 0x000000"
definition IPU4_PSYS_SPC_OFFSET :: u32 where [ipu4_consts]: "IPU4_PSYS_SPC_OFFSET = 0x000000"
definition IPU4_ISYS_DMEM_OFFSET :: u32 where [ipu4_consts]: "IPU4_ISYS_DMEM_OFFSET = 0x008000"
definition IPU4_PSYS_DMEM_OFFSET :: u32 where [ipu4_consts]: "IPU4_PSYS_DMEM_OFFSET = 0x008000"
definition IPU4_INFO_REQUEST_DESTINATION_PRIMARY :: u32 where [ipu4_consts]: "IPU4_INFO_REQUEST_DESTINATION_PRIMARY = 0x10"
definition IPU4_MMU_L1_STREAM_ID_REG_OFFSET :: u32 where [ipu4_consts]: "IPU4_MMU_L1_STREAM_ID_REG_OFFSET = 0x0c"
definition IPU4_MMU_L2_STREAM_ID_REG_OFFSET :: u32 where [ipu4_consts]: "IPU4_MMU_L2_STREAM_ID_REG_OFFSET = 0x4c"

definition IPU4_INFO_STREAM_ID_SET :: "u32 \<Rightarrow> u32" where
  "IPU4_INFO_STREAM_ID_SET a = push_bit 4 (a AND 0xf)"

text \<open>A block without stream caches; the arrays that the initialiser leaves out are zero.\<close>

definition mmu_v1_hw :: "u64 \<Rightarrow> ipu6_mmu_hw" where
  "mmu_v1_hw off = \<lparr>hw_base = off, info_bits = IPU4_INFO_REQUEST_DESTINATION_PRIMARY,
     nr_l1streams = 0, l1_block_sz = replicate 32 0, l1_zlw_en = replicate 32 False,
     l1_zlw_1d_mode = replicate 32 False, l1_ins_zlw_ahead_pages = replicate 32 0,
     l1_zlw_2d_mode = replicate 32 False, l1_stream_id_reg_offset = 0, l2_stream_id_reg_offset = 0,
     nr_l2streams = 0, l2_block_sz = replicate 32 0,
     insert_read_before_invalidate = True, zlw_invalidate_flag = False\<rparr>"

text \<open>A block with 16 streams of each level, from its four tables (the rest is zero).\<close>

definition mmu_v2_hw :: "u64 \<Rightarrow> u8 list \<Rightarrow> bool list \<Rightarrow> bool list \<Rightarrow> u8 list \<Rightarrow> bool list \<Rightarrow> ipu6_mmu_hw" where
  "mmu_v2_hw off szs en d1 ahead d2 = \<lparr>hw_base = off, info_bits = IPU4_INFO_STREAM_ID_SET 0,
     nr_l1streams = IPU4_MMU_MAX_TLB_L1_STREAMS, l1_block_sz = szs @ replicate 16 0,
     l1_zlw_en = en @ replicate 16 False, l1_zlw_1d_mode = d1 @ replicate 16 False,
     l1_ins_zlw_ahead_pages = ahead @ replicate 16 0, l1_zlw_2d_mode = d2 @ replicate 16 False,
     l1_stream_id_reg_offset = IPU4_MMU_L1_STREAM_ID_REG_OFFSET,
     l2_stream_id_reg_offset = IPU4_MMU_L2_STREAM_ID_REG_OFFSET,
     nr_l2streams = IPU4_MMU_MAX_TLB_L2_STREAMS, l2_block_sz = replicate 16 2 @ replicate 16 0,
     insert_read_before_invalidate = False, zlw_invalidate_flag = False\<rparr>"

definition isys_hw_variant :: ipu6_hw_variants where
  "isys_hw_variant = \<lparr>hv_offset = IPU4_ISYS_OFFSET, hv_nr_mmus = 2,
     hv_mmu_hw =
       [mmu_v1_hw IPU4_ISYS_IOMMU0_OFFSET,
        mmu_v2_hw IPU4_ISYS_IOMMU1_OFFSET
          [8, 16, 16, 16, 0, 0, 0, 0, 0, 0, 0, 0, 0, 0, 0, 8]
          [True, True, True, True, False, False, False, False, False, False, False, False,
           False, False, False, False]
          [False, True, True, True, False, False, False, False, False, False, False, False,
           False, False, False, False]
          [0, 3, 3, 3, 0, 0, 0, 0, 0, 0, 0, 0, 0, 0, 0, 0]
          (replicate 16 False)],
     dmem_offset = IPU4_ISYS_DMEM_OFFSET, spc_offset = IPU4_ISYS_SPC_OFFSET\<rparr>"

definition psys_hw_variant :: ipu6_hw_variants where
  "psys_hw_variant = \<lparr>hv_offset = IPU4_PSYS_OFFSET, hv_nr_mmus = 3,
     hv_mmu_hw =
       [mmu_v1_hw IPU4_PSYS_IOMMU0_OFFSET,
        mmu_v2_hw IPU4_PSYS_IOMMU1_OFFSET
          [0, 0, 0, 0, 10, 8, 10, 8, 0, 4, 4, 12, 0, 0, 0, 8]
          [False, False, False, False, True, True, True, True, False, True, True, True,
           False, False, False, False]
          [False, False, False, False, True, True, True, True, False, True, True, True,
           False, False, False, False]
          [0, 0, 0, 0, 3, 3, 3, 3, 0, 3, 1, 3, 0, 0, 0, 0]
          (replicate 16 False),
        mmu_v2_hw IPU4_PSYS_IOMMU1R_OFFSET
          [0, 0, 0, 0, 0, 0, 0, 0, 8, 0, 0, 0, 16, 12, 12, 16]
          [False, False, False, False, False, False, False, False, True, False, False, False,
           True, True, True, True]
          [False, False, False, False, False, False, False, False, True, False, False, False,
           False, True, True, True]
          [0, 0, 0, 0, 0, 0, 0, 0, 3, 0, 0, 0, 0, 0, 0, 0]
          [False, False, False, False, False, False, False, False, False, False, False, False,
           False, True, True, True]],
     dmem_offset = IPU4_PSYS_DMEM_OFFSET, spc_offset = IPU4_PSYS_SPC_OFFSET\<rparr>"

section \<open>What the initialisation writes\<close>

text \<open>The first-level part as one list of writes, with the block addresses as prefix sums.\<close>

definition block_addr_of :: "u8 list \<Rightarrow> nat \<Rightarrow> nat" where
  "block_addr_of szs j = sum_list (map unat (take j szs))"

definition l1_stream_writes :: "ipu6_mmu_hw \<Rightarrow> nat \<Rightarrow> (u32 \<times> u64) list" where
  "l1_stream_writes hw j =
     [(word_of_nat (block_addr_of (l1_block_sz hw) j),
        hw_base hw + ucast (l1_stream_id_reg_offset hw) + 4 * word_of_nat j),
      (bool_val (l1_zlw_en hw ! j), hw_base hw + MMUV2_AT_REG_L1_ZLW_EN_SID j),
      (bool_val (l1_zlw_1d_mode hw ! j), hw_base hw + MMUV2_AT_REG_L1_ZLW_1DMODE_SID j),
      (ucast (l1_ins_zlw_ahead_pages hw ! j), hw_base hw + MMUV2_AT_REG_L1_ZLW_INS_N_AHEAD_SID j),
      (bool_val (l1_zlw_2d_mode hw ! j), hw_base hw + MMUV2_AT_REG_L1_ZLW_2DMODE_SID j)]"

definition l2_stream_writes :: "ipu6_mmu_hw \<Rightarrow> nat \<Rightarrow> (u32 \<times> u64) list" where
  "l2_stream_writes hw j =
     [(word_of_nat (block_addr_of (l2_block_sz hw) j),
        hw_base hw + ucast (l2_stream_id_reg_offset hw) + 4 * word_of_nat j)]"

definition any_zlw :: "ipu6_mmu_hw \<Rightarrow> bool" where
  "any_zlw hw \<longleftrightarrow> (\<exists>j < nr_l1streams hw. l1_zlw_en hw ! j)"

definition hw_writes :: "u32 \<Rightarrow> ipu6_mmu_hw \<Rightarrow> (u32 \<times> u64) list" where
  "hw_writes l1_dma hw =
     [(l1_dma, hw_base hw + REG_L1_PHYS), (info_bits hw, hw_base hw + REG_INFO)]
     @ concat (map (l1_stream_writes hw) [0..<nr_l1streams hw])
     @ (if any_zlw hw then [(1, hw_base hw + MMUV2_AT_REG_L1_FW_ZLW_PRIO)] else [])
     @ concat (map (l2_stream_writes hw) [0..<nr_l2streams hw])"

text \<open>A block is accepted when every stream starts at a block address the hardware has.\<close>

definition hw_accepted :: "ipu6_mmu_hw \<Rightarrow> bool" where
  "hw_accepted hw \<longleftrightarrow> nr_l1streams hw \<le> length (l1_block_sz hw) \<and> nr_l2streams hw \<le> length (l2_block_sz hw) \<and>
     (\<forall>j < nr_l1streams hw. block_addr_of (l1_block_sz hw) j \<le> 128) \<and>
     (\<forall>j < nr_l2streams hw. block_addr_of (l2_block_sz hw) j \<le> 64)"

lemma write_all_append: "run_state (write_all dv (xs @ ys)) d = run_state (write_all dv ys) (snd (run_state (write_all dv xs) d))"
  by (induction dv xs arbitrary: d rule: write_all.induct) auto

lemma write_all_unit: "fst (run_state (write_all dv xs) d) = ()"
  by simp

lemma block_addr_Suc:
  "j < length szs \<Longrightarrow> block_addr_of szs (Suc j) = block_addr_of szs j + unat (szs ! j)"
  by (simp add: block_addr_of_def take_Suc_conv_app_nth)

lemma block_addr_word:
  assumes "block_addr_of szs j \<le> 128" "j < length szs"
  shows "(word_of_nat (block_addr_of szs j) :: u16) + ucast (szs ! j) = word_of_nat (block_addr_of szs (Suc j))"
  by (simp add: block_addr_Suc [OF assms(2)])

lemma l1_streams_writes:
  assumes "\<And>i. j \<le> i \<Longrightarrow> i < n \<Longrightarrow> block_addr_of (l1_block_sz hw) i \<le> 128" "n \<le> length (l1_block_sz hw)" "j \<le> n"
  shows "run_state (l1_streams dv hw [j..<n] (word_of_nat (block_addr_of (l1_block_sz hw) j)) any) d =
    (Inr (any \<or> (\<exists>i. j \<le> i \<and> i < n \<and> l1_zlw_en hw ! i)),
     snd (run_state (write_all dv (concat (map (l1_stream_writes hw) [j..<n]))) d))"
  using assms
proof (induction "n - j" arbitrary: j any d)
  case 0
  then show ?case by auto
next
  case (Suc k)
  then have j: "j < n" "[j..<n] = j # [Suc j..<n]" by (simp_all add: upt_conv_Cons)
  let ?b = "block_addr_of (l1_block_sz hw) j"
  have b: "?b \<le> 128" using Suc.prems(1) j(1) by simp
  have "unat (word_of_nat ?b :: u16) = ?b" using b by (intro unat_of_nat_less) simp
  then have "\<not> IPU6_MAX_LI_BLOCK_ADDR < word_of_nat ?b"
    using b by (simp add: IPU6_MAX_LI_BLOCK_ADDR_def word_less_nat_alt)
  moreover have "(ucast (word_of_nat ?b :: u16) :: u32) = word_of_nat ?b"
    using b by (intro ucast_of_nat_less) simp
  moreover have "(word_of_nat ?b :: u16) + ucast (l1_block_sz hw ! j) = word_of_nat (block_addr_of (l1_block_sz hw) (Suc j))"
    using b j(1) Suc.prems(2) by (intro block_addr_word) simp_all
  moreover have "(\<exists>i. j \<le> i \<and> i < n \<and> l1_zlw_en hw ! i) \<longleftrightarrow> l1_zlw_en hw ! j \<or> (\<exists>i. Suc j \<le> i \<and> i < n \<and> l1_zlw_en hw ! i)"
    using j(1) by (metis Suc_leD Suc_leI le_antisym not_less_eq_eq order_refl)
  moreover note Suc.hyps(1) [of "Suc j"]
  ultimately show ?case
    using Suc.prems Suc.hyps(2) j(1)
    by (simp add: j(2) l1_stream_writes_def case_prod_beta)
qed

lemma l2_streams_writes:
  assumes "\<And>i. j \<le> i \<Longrightarrow> i < n \<Longrightarrow> block_addr_of (l2_block_sz hw) i \<le> 64" "n \<le> length (l2_block_sz hw)" "j \<le> n"
  shows "run_state (l2_streams dv hw [j..<n] (word_of_nat (block_addr_of (l2_block_sz hw) j))) d =
    (ok, snd (run_state (write_all dv (concat (map (l2_stream_writes hw) [j..<n]))) d))"
  using assms
proof (induction "n - j" arbitrary: j d)
  case 0
  then show ?case by auto
next
  case (Suc k)
  then have j: "j < n" "[j..<n] = j # [Suc j..<n]" by (simp_all add: upt_conv_Cons)
  let ?b = "block_addr_of (l2_block_sz hw) j"
  have b: "?b \<le> 64" using Suc.prems(1) j(1) by simp
  have "unat (word_of_nat ?b :: u16) = ?b" using b by (intro unat_of_nat_less) simp
  then have "\<not> IPU6_MAX_L2_BLOCK_ADDR < word_of_nat ?b"
    using b by (simp add: IPU6_MAX_L2_BLOCK_ADDR_def word_less_nat_alt)
  moreover have "(ucast (word_of_nat ?b :: u16) :: u32) = word_of_nat ?b"
    using b by (intro ucast_of_nat_less) simp
  moreover have "(word_of_nat ?b :: u16) + ucast (l2_block_sz hw ! j) = word_of_nat (block_addr_of (l2_block_sz hw) (Suc j))"
    using b j(1) Suc.prems(2) by (intro block_addr_word) simp_all
  moreover note Suc.hyps(1) [of "Suc j"]
  ultimately show ?case
    using Suc.prems Suc.hyps(2) j(1)
    by (simp add: j(2) l2_stream_writes_def case_prod_beta)
qed

lemma block_addr_0 [simp]: "block_addr_of szs 0 = 0"
  by (simp add: block_addr_of_def)

lemma mmu_hw_program_writes:
  assumes "hw_accepted hw"
  shows "run_state (mmu_hw_program dv l1_dma hw) d = (ok, snd (run_state (write_all dv (hw_writes l1_dma hw)) d))"
proof -
  have l1: "run_state (l1_streams dv hw [0..<nr_l1streams hw] 0 False) d' =
      (Inr (any_zlw hw), snd (run_state (write_all dv (concat (map (l1_stream_writes hw) [0..<nr_l1streams hw]))) d'))" for d'
    using l1_streams_writes [of 0 "nr_l1streams hw" hw dv False d'] assms by (simp add: hw_accepted_def any_zlw_def)
  have l2: "run_state (l2_streams dv hw [0..<nr_l2streams hw] 0) d' =
      (ok, snd (run_state (write_all dv (concat (map (l2_stream_writes hw) [0..<nr_l2streams hw]))) d'))" for d'
    using l2_streams_writes [of 0 "nr_l2streams hw" hw dv d'] assms by (simp add: hw_accepted_def)
  show ?thesis
    by (simp add: mmu_hw_program_def hw_writes_def l1 l2 write_all_append case_prod_beta)
qed

lemma mmu_hw_program_all_writes:
  assumes "list_all hw_accepted hws"
  shows "run_state (mmu_hw_program_all dv l1_dma hws) d =
    (ok, snd (run_state (write_all dv (concat (map (hw_writes l1_dma) hws))) d))"
  using assms
proof (induction hws arbitrary: d)
  case Nil
  then show ?case by simp
next
  case (Cons hw hws)
  then show ?case by (simp add: mmu_hw_program_writes write_all_append)
qed

lemma all_less_Suc: "(\<forall>j < Suc n. P j) \<longleftrightarrow> P n \<and> (\<forall>j < n. P j)"
  by (auto simp: less_Suc_eq)

lemma all_less_16:
  "(\<forall>j < 16. P j) \<longleftrightarrow> P 0 \<and> P 1 \<and> P 2 \<and> P 3 \<and> P 4 \<and> P 5 \<and> P 6 \<and> P 7 \<and> P 8 \<and> P 9 \<and> P 10 \<and>
     P 11 \<and> P 12 \<and> P 13 \<and> P 14 \<and> P (15 :: nat)"
proof -
  have "(16 :: nat) = Suc (Suc (Suc (Suc (Suc (Suc (Suc (Suc (Suc (Suc (Suc (Suc (Suc (Suc (Suc (Suc 0)))))))))))))))"
    by simp
  then show ?thesis unfolding \<open>16 = _\<close> all_less_Suc by (simp add: eval_nat_numeral) blast
qed

lemma mmu_v1_accepted: "hw_accepted (mmu_v1_hw off)"
  by (simp add: hw_accepted_def mmu_v1_hw_def)

lemma isys_accepted: "list_all hw_accepted (hv_mmu_hw isys_hw_variant)"
  by (simp add: isys_hw_variant_def mmu_v1_accepted)
    (simp add: hw_accepted_def mmu_v2_hw_def IPU4_MMU_MAX_TLB_L1_STREAMS_def IPU4_MMU_MAX_TLB_L2_STREAMS_def
      all_less_16 block_addr_of_def sum_list_replicate)

lemma psys_accepted: "list_all hw_accepted (hv_mmu_hw psys_hw_variant)"
  by (simp add: psys_hw_variant_def mmu_v1_accepted)
    (simp add: hw_accepted_def mmu_v2_hw_def IPU4_MMU_MAX_TLB_L1_STREAMS_def IPU4_MMU_MAX_TLB_L2_STREAMS_def
      all_less_16 block_addr_of_def sum_list_replicate)

section \<open>The writes on the emulated device\<close>

definition mmu_reg :: "nat \<Rightarrow> u64" where
  "mmu_reg k = IS_MMU_BASE + word_of_nat k"

lemma unat_mmu_reg: "k < 0x500 \<Longrightarrow> unat (mmu_reg k) = 0x1e0000 + k"
  by (simp add: mmu_reg_def IS_MMU_BASE_def unat_add_no_wrap unat_of_nat_u64)

lemma mmu_reg_window:
  assumes "k < 0x500"
  shows "IS_MMU_BASE \<le> mmu_reg k" "mmu_reg k < IS_MMU_BASE + IS_MMU_SIZE"
    "\<not> mmu_reg k < IS_DMEM_BASE + IS_DMEM_SIZE"
    "unat (c :: u64) < 0x1e0000 \<or> 0x1e0500 \<le> unat c \<Longrightarrow> mmu_reg k \<noteq> c"
    "mmu_reg k = IS_MMU_SUB0_REG_L1_PHYS \<longleftrightarrow> k = 4"
  using assms unat_mmu_reg [OF assms]
  by (auto simp: word_le_nat_alt word_less_nat_alt word_unat_eq_iff) (simp_all add: ipu4_consts)

lemma mmu_reg_write:
  assumes "k < 0x500"
  shows "is_mmu_l1_pfn (fst (dev_write (qemu_dev env bar) v (bar + mmu_reg k) d))
         = (if k = 4 then v else is_mmu_l1_pfn (fst d))"
proof -
  note w = mmu_reg_window [OF assms]
  have "window_write env v (mmu_reg k) d = (let s1 = (if k = 4 then (fst d)\<lparr>is_mmu_l1_pfn := v\<rparr> else fst d)
      in (s1\<lparr>is_mmu := (is_mmu s1)[unat ((mmu_reg k - IS_MMU_BASE) div 4) := v]\<rparr>, snd d))"
    using w(1-3,5) by (simp add: window_write_def case_prod_beta Let_def)
  moreover have "ipu4_mmio_write env v (mmu_reg k) d = window_write env v (mmu_reg k) d"
    by (simp add: ipu4_mmio_write_def Let_def case_prod_beta w(4) ipu4_consts)
  ultimately show ?thesis
    by (simp add: qemu_dev_def Let_def)
qed

definition mmu_only :: "u64 \<Rightarrow> (u32 \<times> u64) list \<Rightarrow> bool" where
  "mmu_only bar ws \<longleftrightarrow> (\<forall>w \<in> set ws. \<exists>k < 0x500. k \<noteq> 4 \<and> snd w = bar + mmu_reg k)"

lemma mmu_only_keeps:
  "mmu_only bar ws \<Longrightarrow>
   is_mmu_l1_pfn (fst (snd (run_state (write_all (qemu_dev env bar) ws) d))) = is_mmu_l1_pfn (fst d)"
proof (induction ws arbitrary: d)
  case Nil
  then show ?case by simp
next
  case (Cons w ws)
  then obtain k where k: "k < 0x500" "k \<noteq> 4" "snd w = bar + mmu_reg k"
    by (auto simp: mmu_only_def)
  from Cons have "mmu_only bar ws" by (simp add: mmu_only_def)
  with Cons.IH k show ?case
    by (cases w) (simp add: mmu_reg_write)
qed

lemma mmu_only_simps [simp]:
  "mmu_only bar []" "mmu_only bar (xs @ ys) = (mmu_only bar xs \<and> mmu_only bar ys)"
  "mmu_only bar (concat xss) = (\<forall>xs \<in> set xss. mmu_only bar xs)"
  by (auto simp: mmu_only_def)

lemma mmu_only_Cons:
  "mmu_only bar ((v, a) # ws) \<longleftrightarrow> (\<exists>k < 0x500. k \<noteq> 4 \<and> a = bar + mmu_reg k) \<and> mmu_only bar ws"
  by (auto simp: mmu_only_def)

lemma mmu_addr:
  "k + n < 0x500 \<Longrightarrow> k + n \<noteq> 4 \<Longrightarrow> a = word_of_nat n \<Longrightarrow> \<exists>i < 0x500. i \<noteq> 4 \<and> bar + mmu_reg k + a = bar + mmu_reg i"
  by (intro exI [of _ "k + n"]) (simp add: mmu_reg_def add.assoc)

lemma v2_writes_only:
  assumes "hw = (mmu_v2_hw off szs en d1 ahead d2)\<lparr>hw_base := bar + mmu_reg 0x100\<rparr>"
  shows "mmu_only bar (hw_writes pfn hw)"
proof -
  have hw: "hw_base hw = bar + mmu_reg 0x100" "nr_l1streams hw = 16" "nr_l2streams hw = 16"
      "l1_stream_id_reg_offset hw = 0x0c" "l2_stream_id_reg_offset hw = 0x4c"
    by (simp_all add: assms mmu_v2_hw_def ipu4_consts)
  have "mmu_only bar (l1_stream_writes hw j)" if "j < 16" for j
  proof -
    have at: "\<exists>i < 0x500. i \<noteq> 4 \<and> bar + mmu_reg 0x100 + word_of_nat n = bar + mmu_reg i" if "n < 0x400" for n
      using that by (intro mmu_addr [of _ n]) simp_all
    have "\<exists>i < 0x500. i \<noteq> 4 \<and> bar + mmu_reg 0x100 + ucast (0x0c :: u32) + 4 * word_of_nat j = bar + mmu_reg i"
      using at [of "0x0c + 4 * j"] \<open>j < 16\<close> by (simp add: add.assoc)
    moreover have "\<exists>i < 0x500. i \<noteq> 4 \<and> bar + mmu_reg 0x100 + MMUV2_AT_REG_L1_ZLW_EN_SID j = bar + mmu_reg i"
      using at [of "0x100 + j * 0x20"] \<open>j < 16\<close> by (simp add: MMUV2_AT_REG_L1_ZLW_EN_SID_def)
    moreover have "\<exists>i < 0x500. i \<noteq> 4 \<and> bar + mmu_reg 0x100 + MMUV2_AT_REG_L1_ZLW_1DMODE_SID j = bar + mmu_reg i"
      using at [of "0x100 + j * 0x20 + 4"] \<open>j < 16\<close> by (simp add: MMUV2_AT_REG_L1_ZLW_1DMODE_SID_def)
    moreover have "\<exists>i < 0x500. i \<noteq> 4 \<and> bar + mmu_reg 0x100 + MMUV2_AT_REG_L1_ZLW_INS_N_AHEAD_SID j = bar + mmu_reg i"
      using at [of "0x100 + j * 0x20 + 8"] \<open>j < 16\<close> by (simp add: MMUV2_AT_REG_L1_ZLW_INS_N_AHEAD_SID_def)
    moreover have "\<exists>i < 0x500. i \<noteq> 4 \<and> bar + mmu_reg 0x100 + MMUV2_AT_REG_L1_ZLW_2DMODE_SID j = bar + mmu_reg i"
      using at [of "0x100 + j * 0x20 + 0x10"] \<open>j < 16\<close> by (simp add: MMUV2_AT_REG_L1_ZLW_2DMODE_SID_def)
    ultimately show ?thesis
      unfolding l1_stream_writes_def hw mmu_only_Cons by (intro conjI mmu_only_simps)
  qed
  moreover have "mmu_only bar (l2_stream_writes hw j)" if "j < 16" for j
    using that unfolding l2_stream_writes_def hw mmu_only_Cons add.assoc [of "bar + mmu_reg 0x100"]
    by (intro conjI mmu_only_simps mmu_addr [of _ "0x4c + 4 * j"]) simp_all
  moreover have "\<exists>i < 0x500. i \<noteq> 4 \<and> bar + mmu_reg 0x100 + REG_L1_PHYS = bar + mmu_reg i"
    "\<exists>i < 0x500. i \<noteq> 4 \<and> bar + mmu_reg 0x100 + REG_INFO = bar + mmu_reg i"
    "\<exists>i < 0x500. i \<noteq> 4 \<and> bar + mmu_reg 0x100 + MMUV2_AT_REG_L1_FW_ZLW_PRIO = bar + mmu_reg i"
    using mmu_addr [of "0x100" 4 REG_L1_PHYS bar] mmu_addr [of "0x100" 8 REG_INFO bar]
      mmu_addr [of "0x100" "0x300" MMUV2_AT_REG_L1_FW_ZLW_PRIO bar]
    by (simp_all add: ipu4_consts MMUV2_AT_REG_L1_FW_ZLW_PRIO_def)
  ultimately show ?thesis
    by (simp add: hw_writes_def hw mmu_only_Cons)
qed

section \<open>Contract of the kernel services\<close>

text \<open>
  What \<^verbatim>\<open>linux/iova.h\<close> and the DMA mapping interface document, for a domain that starts at
  page 1 (\<^verbatim>\<open>init_iova_domain\<close>) and a device with a 39-bit DMA mask: an allocated range has the
  size asked for and ends at or below the limit, a mapped page has a page-aligned address
  below \<open>2 ^ 39\<close>, and no service touches the invariant \<open>I\<close> of the page allocator.
\<close>

definition dma_env_ok :: "'s dma_env \<Rightarrow> ('s \<Rightarrow> bool) \<Rightarrow> bool" where
  "dma_env_ok env I \<longleftrightarrow>
     (\<forall>s n lim. I s \<longrightarrow> I (snd (alloc_iova env n lim s))) \<and>
     (\<forall>s n lim lo hi. I s \<longrightarrow> fst (alloc_iova env n lim s) = Some (lo, hi) \<longrightarrow>
        0 < lo \<and> Suc hi = lo + n \<and> hi \<le> unat lim) \<and>
     (\<forall>s r. I s \<longrightarrow> I (free_iova env r s)) \<and>
     (\<forall>s. I s \<longrightarrow> I (snd (alloc_page env s))) \<and>
     (\<forall>s i. I s \<longrightarrow> I (snd (dma_map_page env i s))) \<and>
     (\<forall>s i a. I s \<longrightarrow> fst (dma_map_page env i s) = Some a \<longrightarrow> (\<exists>P < 2 ^ 27. a = page P)) \<and>
     (\<forall>s a. I s \<longrightarrow> I (dma_unmap_page env a s))"

lemma dma_env_okD:
  assumes "dma_env_ok env I" "I s"
  shows "alloc_iova env n lim s = (r, s') \<Longrightarrow> I s'"
    and "alloc_iova env n lim s = (Some (lo, hi), s') \<Longrightarrow> 0 < lo \<and> Suc hi = lo + n \<and> hi \<le> unat lim"
    and "I (free_iova env rg s)"
    and "alloc_page env s = (b, s') \<Longrightarrow> I s'"
    and "dma_map_page env i s = (x, s') \<Longrightarrow> I s'"
    and "dma_map_page env i s = (Some a, s') \<Longrightarrow> \<exists>P < 2 ^ 27. a = page P"
    and "I (dma_unmap_page env a s)"
  using assms unfolding dma_env_ok_def by (metis fst_conv snd_conv)+

section \<open>The trash buffer\<close>

context page_mapper
begin

lemma map_trash_post:
  assumes "inv i s" "lo + n \<le> 2 ^ 20" "P < 2 ^ 51" "j \<le> n"
    and "map_trash mp (page P) (map (\<lambda>k. lo + k) [j..<n]) i s = (ok, i', s')"
  shows "inv i' s' \<and> dummy i' = dummy i \<and>
    (\<forall>p < 2 ^ 20. tr i' p = (if lo + j \<le> p \<and> p < lo + n then word_of_nat P else tr i p)) \<and>
    (\<forall>p < 2 ^ 20. mapped i p \<or> lo + j \<le> p \<and> p < lo + n \<longrightarrow> mapped i' p)"
  using assms
proof (induction "n - j" arbitrary: j i s)
  case 0
  then show ?case by auto
next
  case (Suc k)
  then have j: "j < n" "[j..<n] = j # [Suc j..<n]" by (simp_all add: upt_conv_Cons)
  obtain r i1 s1 where step: "mp i (page (lo + j)) (page P) 4096 s = (r, i1, s1)" by (metis prod_cases3)
  with Suc.prems(5) have r: "r = ok" by (cases r) (simp_all add: j(2))
  have "lo + j < 2 ^ 20" using Suc.prems(2) j(1) by linarith
  note one = map_one_ok [OF Suc.prems(1) this Suc.prems(3) step [unfolded r]]
  have "map_trash mp (page P) (map (\<lambda>k. lo + k) [Suc j..<n]) i1 s1 = (ok, i', s')"
    using Suc.prems(5) step r by (simp add: j(2))
  note rest = Suc.hyps(1) [OF _ _ Suc.prems(2,3) _ this]
  have ran: "(lo + j \<le> p \<and> p < lo + n) \<longleftrightarrow> p = lo + j \<or> (lo + Suc j \<le> p \<and> p < lo + n)" for p
    using j(1) by auto
  from rest one Suc.hyps(2) j(1) have "inv i' s'" "dummy i' = dummy i"
    "\<forall>p < 2 ^ 20. tr i' p = (if lo + Suc j \<le> p \<and> p < lo + n then word_of_nat P else tr i1 p)"
    "\<forall>p < 2 ^ 20. mapped i1 p \<or> lo + Suc j \<le> p \<and> p < lo + n \<longrightarrow> mapped i' p"
    by simp_all
  with one show ?case unfolding ran by auto
qed

end

lemma trash_buffer_core:
  assumes "mmu_inv (page_env env) I (mmu_info mmu) s" "dma_env_ok env I"
    and "aperture_end (mmu_info mmu) \<le> 0xffffffff"
    and "allocate_trash_buffer env mmu s = (ok, mmu', s')"
  obtains lo P where "0 < lo" "lo + 2048 \<le> 2 ^ 20" "P < 2 ^ 27"
    "iova_trash_page mmu' = page lo" "pci_trash_page mmu' = page P"
    "mmu_inv (page_env env) I (mmu_info mmu') s'"
    "\<forall>p < 2 ^ 20. pte (mmu_info mmu') p = (if lo \<le> p \<and> p < lo + 2048 then word_of_nat P else pte (mmu_info mmu) p)"
proof -
  have n: "unat (drop_bit 12 (IPU6_MMUV2_TRASH_RANGE + 4095)) = 2048"
    by (simp add: unat_drop_bit ipu4_consts)
  note I = mmu_invD [OF assms(1)]
  from assms(4) obtain lo hi s1 dma s2 info1 where
    a: "alloc_iova env 2048 (drop_bit 12 (aperture_end (mmu_info mmu))) s = (Some (lo, hi), s1)"
    and b: "dma_map_page env 0 s1 = (Some dma, s2)"
    and c: "map_trash (ipu6_mmu_map (page_env env)) dma (map (\<lambda>i. lo + i) [0..<2048]) (mmu_info mmu) s2 = (ok, info1, s')"
    and m: "mmu' = mmu\<lparr>pci_trash_page := dma, mmu_info := info1, iova_trash_page := page lo\<rparr>"
    by (auto simp: allocate_trash_buffer_def n Let_def split: prod.splits option.splits sum.splits)
  note s1 = dma_env_okD(1) [OF assms(2) I(4) a] dma_env_okD(2) [OF assms(2) I(4) a]
  note s2 = dma_env_okD(5) [OF assms(2) s1(1) b] dma_env_okD(6) [OF assms(2) s1(1) b]
  from s2(2) obtain P where P: "P < 2 ^ 27" "dma = page P" by blast
  have "unat (aperture_end (mmu_info mmu)) < 2 ^ 32"
    using assms(3) by (simp add: word_le_nat_alt)
  then have "unat (drop_bit 12 (aperture_end (mmu_info mmu))) < 2 ^ 20"
    by (simp add: unat_drop_bit less_mult_imp_div_less)
  with s1(2) have lo: "0 < lo" "lo + 2048 \<le> 2 ^ 20" by linarith+
  have "mmu_inv (page_env env) I (mmu_info mmu) s2" using assms(1) s2(1) by (simp add: mmu_inv_def)
  from mmu.map_trash_post [OF this lo(2) _ _ c [unfolded P(2)]] P(1)
  have "mmu_inv (page_env env) I info1 s'"
    "\<forall>p < 2 ^ 20. pte info1 p = (if lo \<le> p \<and> p < lo + 2048 then word_of_nat P else pte (mmu_info mmu) p)"
    by simp_all
  then show thesis using that [of lo P] lo P by (simp add: m)
qed

text \<open>A concrete set of services: the ranges start at page 16 and every page is at frame 7.\<close>

definition ex_dma_env :: "nat dma_env" where
  "ex_dma_env = \<lparr>page_env = ex_alloc,
     alloc_iova = (\<lambda>n lim s. (if 0 < n \<and> 15 + n \<le> unat lim then Some (16, 15 + n) else None, s)),
     find_iova = (\<lambda>p s. if 16 \<le> p \<and> p < 16 + 2048 then Some (16, 15 + 2048) else None),
     free_iova = (\<lambda>r s. s), alloc_page = (\<lambda>s. (True, s)),
     dma_map_page = (\<lambda>i s. (Some (page 7), s)), dma_unmap_page = (\<lambda>a s. s), kzalloc_ok = (\<lambda>s. True)\<rparr>"

lemma ex_dma_env_ok: "dma_env_ok ex_dma_env (\<lambda>s. 2 \<le> s)"
  unfolding dma_env_ok_def by (auto simp: ex_dma_env_def split: if_splits intro: exI [of _ 7])

definition ex_isys_mmu :: "u64 \<Rightarrow> ipu6_mmu" where
  "ex_isys_mmu base = \<lparr>mmu_hw = map (\<lambda>h. h\<lparr>hw_base := base + hw_base h\<rparr>) (hv_mmu_hw isys_hw_variant),
     mmid = 0, mmu_info = ex_info, vma_list = [], trash_page = False,
     pci_trash_page = 0, iova_trash_page = 0, mmu_ready = False\<rparr>"

lemma ex_mmu_init: "ipu6_mmu_init ex_dma_env True base 0 isys_hw_variant 0 = (Inr (ex_isys_mmu base), 3)"
  by (simp add: ipu6_mmu_init_def isys_hw_variant_def IPU6_MMU_MAX_DEVICES_def ex_dma_env_def alloc_dma_mapping_def
      ex_alloc_run ex_isys_mmu_def mmu_v1_hw_def mmu_v2_hw_def ipu4_consts)

lemma ex_mmu_inv: "mmu_inv ex_alloc (\<lambda>s. 2 \<le> s) ex_info 3"
  using ex_mmu by (simp add: mmu_inv_def)

lemma map_trash_total:
  assumes "mmu_inv al I info s" "alloc_total al I" "\<And>p. p \<in> set ps \<Longrightarrow> p < 2 ^ 20"
  shows "\<exists>info' s'. map_trash (ipu6_mmu_map al) (page P) ps info s = (ok, info', s')"
  using assms
proof (induction ps arbitrary: info s)
  case Nil
  then show ?case by simp
next
  case (Cons p ps)
  have eq: "(4096 :: u64) = page 1" by (simp add: page_def)
  note i = mmu_invD [OF Cons.prems(1)]
  have "p < 2 ^ 20" using Cons.prems(3) by simp
  from map_page_total [OF i(1,3,4,2) this Cons.prems(2)] obtain info1 s1 where
    step: "ipu6_mmu_map al info (page p) (page P) 4096 s = (ok, info1, s1)" unfolding eq by blast
  from Cons.IH [OF mmu_inv_map(1) [OF Cons.prems(1) step] Cons.prems(2)] Cons.prems(3)
  show ?case using step by simp
qed

lemma ex_trash_run: "\<exists>mmu' s'. allocate_trash_buffer ex_dma_env (ex_isys_mmu base) 3 = (ok, mmu', s')"
proof -
  have "unat (drop_bit 12 (aperture_end ex_info)) = 1048575" by (simp add: ex_info_def unat_drop_bit)
  moreover have "unat (drop_bit 12 (IPU6_MMUV2_TRASH_RANGE + 4095)) = 2048"
    by (simp add: unat_drop_bit ipu4_consts)
  moreover obtain info' s' where
    "map_trash (ipu6_mmu_map ex_alloc) (page 7) (map (\<lambda>i. 16 + i) [0..<2048]) ex_info 3 = (ok, info', s')"
    using map_trash_total [OF ex_mmu_inv ex_alloc_total, of "map (\<lambda>i. 16 + i) [0..<2048]" 7] by auto
  ultimately show ?thesis
    by (simp add: allocate_trash_buffer_def ex_dma_env_def ex_isys_mmu_def Let_def)
qed

section \<open>Properties\<close>

text \<open>
  C38: a successful \<^verbatim>\<open>allocate_trash_buffer\<close> leaves a range of 2048 pages, 8 MB, that all lead to the
  one trash page, records its start, and changes the translation of no other page.
\<close>

theorem trash_buffer_mapped:
  assumes "mmu_inv (page_env env) I (mmu_info mmu) s" "dma_env_ok env I"
    and "aperture_end (mmu_info mmu) \<le> 0xffffffff"
    and "allocate_trash_buffer env mmu s = (ok, mmu', s')"
  shows "\<exists>lo P. 0 < lo \<and> lo + 2048 \<le> 2 ^ 20 \<and> iova_trash_page mmu' = page lo \<and> pci_trash_page mmu' = page P \<and>
    wf_mmu (mmu_info mmu') \<and>
    (\<forall>p < 2 ^ 20. pte (mmu_info mmu') p = (if lo \<le> p \<and> p < lo + 2048 then word_of_nat P else pte (mmu_info mmu) p))"
  using trash_buffer_core [OF assms] mmu_invD(1) by metis

theorem trash_buffer_mapped_witness:
  "\<exists>mmu' s' lo P. allocate_trash_buffer ex_dma_env (ex_isys_mmu 0) 3 = (ok, mmu', s') \<and> 0 < lo \<and>
     iova_trash_page mmu' = page lo \<and> pci_trash_page mmu' = page P \<and> pte (mmu_info mmu') (lo + 2047) = word_of_nat P"
proof -
  obtain mmu' s' where run: "allocate_trash_buffer ex_dma_env (ex_isys_mmu 0) 3 = (ok, mmu', s')"
    using ex_trash_run by blast
  have e: "page_env ex_dma_env = ex_alloc" "mmu_info (ex_isys_mmu 0) = ex_info" "aperture_end ex_info = 0xffffffff"
    by (simp_all add: ex_dma_env_def ex_isys_mmu_def ex_info_def)
  from trash_buffer_mapped [of ex_dma_env "\<lambda>s. 2 \<le> s" "ex_isys_mmu 0" 3 mmu' s'] e run ex_mmu_inv ex_dma_env_ok
  obtain lo P where r: "0 < lo" "lo + 2048 \<le> 2 ^ 20" "iova_trash_page mmu' = page lo" "pci_trash_page mmu' = page P"
    "\<forall>p < 2 ^ 20. pte (mmu_info mmu') p = (if lo \<le> p \<and> p < lo + 2048 then word_of_nat P else pte ex_info p)"
    by auto
  from r(2) have "lo + 2047 < 2 ^ 20" by linarith
  from r(5) [rule_format, OF this] have "pte (mmu_info mmu') (lo + 2047) = word_of_nat P" by simp
  with run r(1,3,4) show ?thesis by blast
qed

text \<open>The blocks of an instance that \<^verbatim>\<open>ipu6_mmu_init\<close> created.\<close>

lemma mmu_init_blocks:
  assumes "ipu6_mmu_init env secure base mid hw s = (Inr mmu, s')"
  shows "mmu_hw mmu = map (\<lambda>h. h\<lparr>hw_base := base + hw_base h\<rparr>) (take (hv_nr_mmus hw) (hv_mmu_hw hw))"
  using assms by (auto simp: ipu6_mmu_init_def split: if_splits prod.splits option.splits)

lemma hw_accepted_base: "hw_accepted (h\<lparr>hw_base := b\<rparr>) = hw_accepted h"
  by (simp add: hw_accepted_def)

lemma mmu_init_accepted:
  assumes "ipu6_mmu_init env secure base mid hw s = (Inr mmu, s')" "list_all hw_accepted (hv_mmu_hw hw)"
  shows "list_all hw_accepted (mmu_hw mmu)"
  using assms(2) unfolding mmu_init_blocks [OF assms(1)]
  by (auto simp: list_all_iff hw_accepted_base dest: in_set_takeD)

lemma hw_init_device:
  assumes "list_all hw_accepted (mmu_hw mmu)"
  shows "snd (snd (snd (ipu6_mmu_hw_init dv env mmu s d))) =
    snd (run_state (write_all dv (concat (map (hw_writes (l1_pt_dma (mmu_info mmu))) (mmu_hw mmu)))) d)"
  by (simp add: ipu6_mmu_hw_init_def mmu_hw_program_all_writes [OF assms] split: prod.split sum.split bool.split)

text \<open>
  C39: \<^verbatim>\<open>ipu6_mmu_hw_init\<close>, on an instance created from the IPU4 tables of the input or the
  processing system, never rejects the configuration and makes exactly the register writes
  of the tables: per block the root of the page table, the info bits, per stream the block
  address (the sum of the sizes before it) and the four prefetch settings, and the priority
  bit exactly when some stream prefetches.
\<close>

theorem mmu_hw_init_writes:
  assumes "hw \<in> {isys_hw_variant, psys_hw_variant}" "ipu6_mmu_init env secure base mid hw s0 = (Inr mmu0, s1)"
    and "mmu_hw mmu = mmu_hw mmu0"
  shows "snd (snd (snd (ipu6_mmu_hw_init (trace_dev orc) env mmu s l))) =
      l @ map (\<lambda>(v, a). Wr v a) (concat (map (hw_writes (l1_pt_dma (mmu_info mmu))) (mmu_hw mmu))) \<and>
    (trash_page mmu \<longrightarrow> fst (ipu6_mmu_hw_init (trace_dev orc) env mmu s l) = ok \<and>
       mmu_ready (fst (snd (ipu6_mmu_hw_init (trace_dev orc) env mmu s l))))"
proof -
  have acc: "list_all hw_accepted (mmu_hw mmu)"
    unfolding assms(3) using assms(1) mmu_init_accepted [OF assms(2)] isys_accepted psys_accepted by auto
  show ?thesis
    by (simp add: hw_init_device [OF acc] write_all_trace)
      (simp add: ipu6_mmu_hw_init_def mmu_hw_program_all_writes [OF acc])
qed

theorem mmu_hw_init_writes_witness:
  "fst (ipu6_mmu_hw_init (trace_dev (\<lambda>l a. 0)) ex_dma_env ((ex_isys_mmu 0)\<lparr>trash_page := True\<rparr>) 3 []) = ok"
  using mmu_hw_init_writes [of isys_hw_variant ex_dma_env True 0 0 0 "ex_isys_mmu 0" 3
      "(ex_isys_mmu 0)\<lparr>trash_page := True\<rparr>" "\<lambda>l a. 0" 3 "[]"] ex_mmu_init [of 0]
  by (simp add: ex_isys_mmu_def)

text \<open>
  C38: after \<^verbatim>\<open>ipu6_mmu_hw_init\<close> of the input system's MMU the emulated device walks the tables of
  that instance: its page-table root is the driver's first-level table, whatever the result of
  the trash buffer allocation.
\<close>

theorem hw_init_device_root:
  assumes "ipu6_mmu_init env secure (bar + IPU4_ISYS_OFFSET) mid isys_hw_variant s0 = (Inr mmu, s)"
  shows "is_mmu_l1_pfn (fst (snd (snd (snd (ipu6_mmu_hw_init (qemu_dev penv bar) env mmu s d))))) = l1_pt_dma (mmu_info mmu)"
proof -
  let ?v2 = "mmu_v2_hw IPU4_ISYS_IOMMU1_OFFSET [8, 16, 16, 16, 0, 0, 0, 0, 0, 0, 0, 0, 0, 0, 0, 8]
          [True, True, True, True, False, False, False, False, False, False, False, False,
           False, False, False, False]
          [False, True, True, True, False, False, False, False, False, False, False, False,
           False, False, False, False]
          [0, 3, 3, 3, 0, 0, 0, 0, 0, 0, 0, 0, 0, 0, 0, 0]
          (replicate 16 False)"
  have base: "bar + IPU4_ISYS_OFFSET + IPU4_ISYS_IOMMU0_OFFSET = bar + mmu_reg 0"
    "bar + IPU4_ISYS_OFFSET + IPU4_ISYS_IOMMU1_OFFSET = bar + mmu_reg 0x100"
    by (simp_all add: mmu_reg_def ipu4_consts add.assoc)
  have hws: "mmu_hw mmu = [(mmu_v1_hw IPU4_ISYS_IOMMU0_OFFSET)\<lparr>hw_base := bar + mmu_reg 0\<rparr>,
      ?v2\<lparr>hw_base := bar + mmu_reg 0x100\<rparr>]"
    unfolding mmu_init_blocks [OF assms] base [symmetric]
    by (simp add: isys_hw_variant_def mmu_v1_hw_def mmu_v2_hw_def)
  note acc = mmu_init_accepted [OF assms isys_accepted]
  let ?pfn = "l1_pt_dma (mmu_info mmu)"
  have v1: "hw_writes ?pfn ((mmu_v1_hw off)\<lparr>hw_base := bar + mmu_reg 0\<rparr>) =
      [(?pfn, bar + mmu_reg 4), (info_bits (mmu_v1_hw off), bar + mmu_reg 8)]" for off
    by (simp add: hw_writes_def mmu_v1_hw_def any_zlw_def mmu_reg_def ipu4_consts add.assoc)
  have "mmu_only bar (hw_writes ?pfn (?v2\<lparr>hw_base := bar + mmu_reg 0x100\<rparr>))"
    by (rule v2_writes_only [OF refl])
  then show ?thesis
    unfolding hw_init_device [OF acc] hws
    by (simp add: v1 mmu_only_keeps mmu_reg_write)
qed

theorem hw_init_device_root_witness:
  "is_mmu_l1_pfn (fst (snd (snd (snd (ipu6_mmu_hw_init (qemu_dev ram_env 0) ex_dma_env
     (ex_isys_mmu IPU4_ISYS_OFFSET) 3 ex_dev))))) = 3"
  using hw_init_device_root [of ex_dma_env True 0 0 0 "ex_isys_mmu IPU4_ISYS_OFFSET" 3 ram_env ex_dev]
    ex_mmu_init [of IPU4_ISYS_OFFSET] by (simp add: ex_isys_mmu_def ex_info_def)

text \<open>The reads of the wait for the address translator.\<close>

lemma zlw_wait_trace:
  assumes "retry \<le> 1001"
  shows "\<exists>k. k \<le> 1001 - retry \<and> snd (run_state (zlw_wait (trace_dev orc) a retry) l) = l @ replicate k (Rd a) \<and>
    (\<forall>j. Suc j < k \<longrightarrow> orc (l @ replicate j (Rd a)) a \<noteq> 2) \<and>
    fst (run_state (zlw_wait (trace_dev orc) a retry) l) = (0 < k \<and> orc (l @ replicate (k - 1) (Rd a)) a = 2) \<and>
    (k < 1001 - retry \<longrightarrow> fst (run_state (zlw_wait (trace_dev orc) a retry) l))"
  using assms
proof (induction "1001 - retry" arbitrary: retry l)
  case 0
  then show ?case by (subst zlw_wait.simps, subst zlw_wait.simps, subst zlw_wait.simps) auto
next
  case (Suc n)
  show ?case
  proof (cases "orc l a = 2")
    case True
    with Suc have "run_state (zlw_wait (trace_dev orc) a retry) l = (True, l @ [Rd a])"
      by (subst zlw_wait.simps) simp
    with True Suc.hyps(2) show ?thesis by (intro exI [of _ 1]) auto
  next
    case False
    moreover have "\<not> 1000 < retry" using Suc.hyps(2) by simp
    ultimately have step: "run_state (zlw_wait (trace_dev orc) a retry) l =
        run_state (zlw_wait (trace_dev orc) a (Suc retry)) (l @ [Rd a])"
      by (subst zlw_wait.simps) simp
    have "n = 1001 - Suc retry" "Suc retry \<le> 1001" using Suc.hyps(2) by arith+
    from Suc.hyps(1) [OF this, of "l @ [Rd a]"] obtain k where k: "k \<le> 1001 - Suc retry"
      "snd (run_state (zlw_wait (trace_dev orc) a (Suc retry)) (l @ [Rd a])) = (l @ [Rd a]) @ replicate k (Rd a)"
      "\<forall>j. Suc j < k \<longrightarrow> orc ((l @ [Rd a]) @ replicate j (Rd a)) a \<noteq> 2"
      "fst (run_state (zlw_wait (trace_dev orc) a (Suc retry)) (l @ [Rd a])) =
         (0 < k \<and> orc ((l @ [Rd a]) @ replicate (k - 1) (Rd a)) a = 2)"
      "k < 1001 - Suc retry \<longrightarrow> fst (run_state (zlw_wait (trace_dev orc) a (Suc retry)) (l @ [Rd a]))"
      by blast
    have "orc (l @ replicate j (Rd a)) a \<noteq> 2" if "Suc j < Suc k" for j
      using that k(3) False by (cases j) auto
    moreover have "(0 < k \<and> orc ((l @ [Rd a]) @ replicate (k - 1) (Rd a)) a = 2) =
        (0 < Suc k \<and> orc (l @ replicate (Suc k - 1) (Rd a)) a = 2)"
      using False by (cases k) auto
    ultimately show ?thesis
      using k Suc.hyps(2) unfolding step by (intro exI [of _ "Suc k"]) auto
  qed
qed

text \<open>
  C39: the wait for the address translator in \<^verbatim>\<open>zlw_invalidate\<close> ends after at most 1001 reads of
  the FIFO register, whatever the hardware answers; it succeeds exactly when the last read
  returned 2, no earlier read did, and it gives up only after all 1001 reads.
\<close>

theorem zlw_wait_bounded:
  "\<exists>k \<le> 1001. snd (run_state (zlw_wait (trace_dev orc) a 0) l) = l @ replicate k (Rd a) \<and>
     (\<forall>j. Suc j < k \<longrightarrow> orc (l @ replicate j (Rd a)) a \<noteq> 2) \<and>
     fst (run_state (zlw_wait (trace_dev orc) a 0) l) = (0 < k \<and> orc (l @ replicate (k - 1) (Rd a)) a = 2) \<and>
     (k < 1001 \<longrightarrow> fst (run_state (zlw_wait (trace_dev orc) a 0) l))"
  using zlw_wait_trace [of 0 orc a l] by simp

theorem zlw_wait_bounded_witness:
  "\<exists>k \<le> 1001. snd (run_state (zlw_wait (trace_dev (\<lambda>l a. 0)) 0x33c 0) []) = replicate k (Rd 0x33c) \<and> k = 1001"
proof -
  from zlw_wait_bounded [of "\<lambda>l a. 0" "0x33c" "[]"] obtain k where
    "k \<le> 1001" "snd (run_state (zlw_wait (trace_dev (\<lambda>l a. 0)) 0x33c 0) []) = replicate k (Rd 0x33c)" "\<not> k < 1001"
    by auto
  then show ?thesis by (intro exI [of _ k]) auto
qed

text \<open>
  Invalidating the TLB of the input system. Nothing is accessed before the hardware
  is initialised; afterwards the first block is invalidated with the read its erratum asks
  for before the write, and the second, which has no zero-length-write invalidation, with all
  its 16 streams.
\<close>

theorem tlb_invalidate_isys:
  assumes "ipu6_mmu_init env secure base mid isys_hw_variant s0 = (Inr mmu0, s1)" "mmu_hw mmu = mmu_hw mmu0"
  shows "snd (run_state (tlb_invalidate (trace_dev orc) mmu) l) =
    l @ (if mmu_ready mmu then [Rd (base + 0xe0004), Wr 1 (base + 0xe0000), Wr 0xffff (base + 0xe0100)] else [])"
proof -
  have "mmu_hw mmu = [(mmu_v1_hw IPU4_ISYS_IOMMU0_OFFSET)\<lparr>hw_base := base + IPU4_ISYS_IOMMU0_OFFSET\<rparr>,
      (hv_mmu_hw isys_hw_variant ! 1)\<lparr>hw_base := base + IPU4_ISYS_IOMMU1_OFFSET\<rparr>]"
    unfolding assms(2) mmu_init_blocks [OF assms(1)]
    by (simp add: isys_hw_variant_def) (simp add: mmu_v1_hw_def mmu_v2_hw_def)
  then show ?thesis
    by (simp add: tlb_invalidate_def tlb_invalidate_hw_def isys_hw_variant_def mmu_v1_hw_def mmu_v2_hw_def
        Let_def ipu4_consts add.assoc)
qed

theorem tlb_invalidate_isys_witness:
  "snd (run_state (tlb_invalidate (trace_dev (\<lambda>l a. 0)) ((ex_isys_mmu 0x100000)\<lparr>mmu_ready := True\<rparr>)) []) =
    [Rd 0x1e0004, Wr 1 0x1e0000, Wr 0xffff 0x1e0100]"
  using tlb_invalidate_isys [of ex_dma_env True "0x100000" 0 0 "ex_isys_mmu 0x100000" 3
      "(ex_isys_mmu 0x100000)\<lparr>mmu_ready := True\<rparr>" "\<lambda>l a. 0" "[]"] ex_mmu_init [of "0x100000"]
  by simp

end
