(* ===== verification/Dma.thy ===== *)
theory Dma
  imports Mmu_Hw "HOL-Library.Multiset"
begin

unbundle bit_operations_syntax

text \<open>
  Buffers for the IPU, \<^verbatim>\<open>kernel/ipu4/ipu6-dma.c\<close>: coherent buffers, allocated page by page, mapped
  on the bus and then in the IPU page tables, and scatter lists mapped as they are. The
  page tables are used through the interface of \<^verbatim>\<open>Page_Mapper\<close>; the kernel's memory and bus
  services are parameters.
\<close>

section \<open>Kernel services\<close>

text \<open>
  Memory behind the buffers. A page is its frame number; \<^verbatim>\<open>alloc_pages\<close> of order \<open>n\<close> returns the
  first of \<open>2 ^ n\<close> consecutive frames. \<open>vmap\<close> returns 0 for NULL.
\<close>

record 's buf_env =
  dma_of :: "'s dma_env"
  kvzalloc_ok :: "'s \<Rightarrow> bool"
  alloc_pages :: "nat \<Rightarrow> 's \<Rightarrow> nat option \<times> 's"
  free_pages :: "nat \<Rightarrow> 's \<Rightarrow> 's"
  clear_buffer :: "nat \<Rightarrow> nat \<Rightarrow> 's \<Rightarrow> 's"
  vmap :: "nat list \<Rightarrow> 's \<Rightarrow> u64 \<times> 's"
  vunmap :: "u64 \<Rightarrow> 's \<Rightarrow> 's"
  vm_insert_page :: "u64 \<Rightarrow> nat \<Rightarrow> 's \<Rightarrow> unit res \<times> 's"

section \<open>The list of buffers\<close>

definition in_vm_info :: "u64 \<Rightarrow> vm_info \<Rightarrow> bool" where
  "in_vm_info iova info \<longleftrightarrow> iova \<ge> ipu6_iova info \<and> iova < ipu6_iova info + vm_size info"

definition get_vm_info :: "ipu6_mmu \<Rightarrow> u64 \<Rightarrow> vm_info option" where
  "get_vm_info mmu iova = List.find (in_vm_info iova) (vma_list mmu)"

section \<open>Pages of a buffer\<close>

text \<open>\<^verbatim>\<open>__fls\<close> of a positive number.\<close>

fun fls :: "nat \<Rightarrow> nat" where
  "fls n = (if n \<le> 1 then 0 else Suc (fls (n div 2)))"

declare fls.simps [simp del]

text \<open>The largest block available, from the given order down: its first frame and its order.\<close>

fun alloc_order :: "'s buf_env \<Rightarrow> nat \<Rightarrow> 's \<Rightarrow> (nat \<times> nat) option \<times> 's" where
  "alloc_order env 0 s =
     (case alloc_pages env 0 s of
        (Some p, s1) \<Rightarrow> (Some (p, 0), s1)
      | (None, s1) \<Rightarrow> (None, s1))"
| "alloc_order env (Suc n) s =
     (case alloc_pages env (Suc n) s of
        (Some p, s1) \<Rightarrow> (Some (p, Suc n), s1)
      | (None, s1) \<Rightarrow> alloc_order env n s1)"

lemma fls_pow: "0 < n \<Longrightarrow> 2 ^ fls n \<le> n"
proof (induction n rule: fls.induct)
  case (1 n)
  then show ?case by (subst fls.simps) fastforce
qed

lemma alloc_order_le: "alloc_order env n s = (Some (p, k), s') \<Longrightarrow> k \<le> n"
  by (induction env n s rule: alloc_order.induct) (fastforce split: prod.splits option.splits)+

text \<open>
  The loop of \<^verbatim>\<open>__alloc_buffer\<close>: \<open>pages\<close> are the frames collected so far. On failure the pages are
  given back from the last one on.
\<close>

function alloc_buffer_loop :: "'s buf_env \<Rightarrow> nat \<Rightarrow> nat list \<Rightarrow> 's \<Rightarrow> nat list option \<times> 's" where
  "alloc_buffer_loop env cnt pages s =
     (if cnt = 0 then (Some pages, s)
      else (case alloc_order env (fls cnt) s of
              (None, s1) \<Rightarrow> (None, fold (free_pages env) (rev pages) s1)
            | (Some (p, order), s1) \<Rightarrow>
                alloc_buffer_loop env (cnt - 2 ^ order) (pages @ map (\<lambda>j. p + j) [0..<2 ^ order])
                  (clear_buffer env p (2 ^ order) s1)))"
  by pat_completeness auto
termination
  by (relation "measure (\<lambda>(env, cnt, pages, s). cnt)") auto

declare alloc_buffer_loop.simps [simp del]

definition alloc_buffer :: "'s buf_env \<Rightarrow> u64 \<Rightarrow> 's \<Rightarrow> nat list option \<times> 's" where
  "alloc_buffer env sz s =
     (let cnt = unat (ucast (drop_bit 12 sz) :: u32) in
      if \<not> kvzalloc_ok env s then (None, s)
      else alloc_buffer_loop env cnt [] s)"

definition free_buffer :: "'s buf_env \<Rightarrow> nat list \<Rightarrow> u64 \<Rightarrow> 's \<Rightarrow> 's" where
  "free_buffer env pages sz s =
     (let cnt = unat (ucast (drop_bit 12 sz) :: u32) in
      fold (\<lambda>p st. free_pages env p (clear_buffer env p 1 st)) (take cnt pages) s)"

section \<open>Cache maintenance\<close>

text \<open>The flushed range, or nothing when the range is not inside a buffer.\<close>

definition ipu6_dma_sync_single :: "ipu6_mmu \<Rightarrow> u64 \<Rightarrow> u64 \<Rightarrow> (u64 \<times> u64) option" where
  "ipu6_dma_sync_single mmu dma_handle sz =
     (case get_vm_info mmu dma_handle of
        None \<Rightarrow> None
      | Some info \<Rightarrow>
          let offset = ucast (dma_handle - ipu6_iova info) :: u32 in
          if sz > vm_size info - ucast offset then None
          else Some (vm_vaddr info + ucast offset, sz))"

section \<open>Coherent buffers\<close>

text \<open>
  Mapping the pages from index \<open>i\<close> on: how many pages are mapped at the end, whether all
  are, and the state. A page that the page tables reject is taken off the bus at once.
\<close>

fun dma_map_loop ::
  "('i \<Rightarrow> u64 \<Rightarrow> u64 \<Rightarrow> u64 \<Rightarrow> 's \<Rightarrow> unit res \<times> 'i \<times> 's) \<Rightarrow> 's dma_env \<Rightarrow> nat \<Rightarrow> nat \<Rightarrow> nat list \<Rightarrow> 'i \<Rightarrow> 's \<Rightarrow>
   nat \<times> bool \<times> 'i \<times> 's" where
  "dma_map_loop mp env lo i [] info s = (i, True, info, s)"
| "dma_map_loop mp env lo i (pg # pgs) info s =
     (case dma_map_page env pg s of
        (None, s1) \<Rightarrow> (i, False, info, s1)
      | (Some pci_dma_addr, s1) \<Rightarrow>
        (case mp info (page (lo + i)) pci_dma_addr 4096 s1 of
           (Inl e, info1, s2) \<Rightarrow> (i, False, info1, dma_unmap_page env pci_dma_addr s2)
         | (Inr _, info1, s2) \<Rightarrow> dma_map_loop mp env lo (Suc i) pgs info1 s2))"

text \<open>
  Taking the first \<open>i\<close> pages down again, from the last. The bus address is looked up in the
  page tables; \<open>None\<close> is the access through a missing table.
\<close>

fun dma_unwind ::
  "('i \<Rightarrow> u64 \<Rightarrow> u64 \<Rightarrow> 'i) \<Rightarrow> ('i \<Rightarrow> u64 \<Rightarrow> u64 option) \<Rightarrow> 's dma_env \<Rightarrow> nat \<Rightarrow> nat \<Rightarrow> 'i \<Rightarrow> 's \<Rightarrow> ('i \<times> 's) option" where
  "dma_unwind unmp tphys env lo 0 info s = Some (info, s)"
| "dma_unwind unmp tphys env lo (Suc i) info s =
     (let iova = page (lo + i) in
      case tphys info iova of
        None \<Rightarrow> None
      | Some pci_dma_addr \<Rightarrow>
          dma_unwind unmp tphys env lo i (unmp info iova 4096) (dma_unmap_page env pci_dma_addr s))"

text \<open>
  \<^verbatim>\<open>ipu6_dma_alloc\<close>: the kernel address and the device address of the buffer, or NULL. The outer
  option is \<open>None\<close> when the code would follow a NULL table pointer.
\<close>

definition ipu6_dma_alloc ::
  "'s buf_env \<Rightarrow> u64 \<Rightarrow> ipu6_mmu \<Rightarrow> 's \<Rightarrow> ((u64 \<times> u64) option \<times> ipu6_mmu \<times> 's) option" where
  "ipu6_dma_alloc env sz mmu s =
     (if \<not> kzalloc_ok (dma_of env) s then Some (None, mmu, s)
      else
        let sz1 = ALIGN_PAGE sz; cnt = unat (drop_bit 12 sz1) in
        case alloc_iova (dma_of env) cnt (drop_bit 12 (aperture_end (mmu_info mmu))) s of
          (None, s1) \<Rightarrow> Some (None, mmu, s1)
        | (Some (lo, hi), s1) \<Rightarrow>
          (case alloc_buffer env sz1 s1 of
             (None, s2) \<Rightarrow> Some (None, mmu, free_iova (dma_of env) (lo, hi) s2)
           | (Some pages, s2) \<Rightarrow>
             (let (i, mapped, info1, s3) =
                dma_map_loop (ipu6_mmu_map (page_env (dma_of env))) (dma_of env) lo 0
                  (take (Suc hi - lo) pages) (mmu_info mmu) s2;
                  (vaddr, s4) = (if mapped then vmap env pages s3 else (0, s3)) in
              if vaddr \<noteq> 0
              then Some (Some (vaddr, page lo),
                mmu\<lparr>mmu_info := info1,
                    vma_list := \<lparr>vm_pages = pages, ipu6_iova = page lo, vm_vaddr = vaddr,
                                 vm_size = sz1\<rparr> # vma_list mmu\<rparr>, s4)
              else
                (case dma_unwind ipu6_mmu_unmap ipu6_mmu_iova_to_phys (dma_of env) lo i info1 s4 of
                   None \<Rightarrow> None
                 | Some (info2, s5) \<Rightarrow>
                     Some (None, mmu\<lparr>mmu_info := info2\<rparr>,
                       free_iova (dma_of env) (lo, hi) (free_buffer env pages sz1 s5))))))"

text \<open>Taking the pages of a buffer off the bus, in order.\<close>

fun dma_unmap_pages ::
  "('i \<Rightarrow> u64 \<Rightarrow> u64 option) \<Rightarrow> 's dma_env \<Rightarrow> 'i \<Rightarrow> nat list \<Rightarrow> 's \<Rightarrow> 's option" where
  "dma_unmap_pages tphys env info [] s = Some s"
| "dma_unmap_pages tphys env info (p # ps) s =
     (case tphys info (page p) of
        None \<Rightarrow> None
      | Some pci_dma_addr \<Rightarrow> dma_unmap_pages tphys env info ps (dma_unmap_page env pci_dma_addr s))"

text \<open>
  \<^verbatim>\<open>ipu6_dma_free\<close>. The entry is found by the device address; a missing range or entry is a
  warning and nothing happens.
\<close>

definition ipu6_dma_free ::
  "'d mmio_dev \<Rightarrow> 's buf_env \<Rightarrow> u64 \<Rightarrow> u64 \<Rightarrow> u64 \<Rightarrow> ipu6_mmu \<Rightarrow> 's \<Rightarrow> 'd \<Rightarrow> (ipu6_mmu \<times> 's \<times> 'd) option" where
  "ipu6_dma_free dv env sz vaddr dma_handle mmu s d =
     (case find_iova (dma_of env) (unat (drop_bit 12 dma_handle)) s of
        None \<Rightarrow> Some (mmu, s, d)
      | Some (lo, hi) \<Rightarrow>
        (case get_vm_info mmu dma_handle of
           None \<Rightarrow> Some (mmu, s, d)
         | Some info \<Rightarrow>
           if vm_vaddr info = 0 then Some (mmu, s, d)
           else
             let mmu1 = mmu\<lparr>vma_list := remove1 info (vma_list mmu)\<rparr>;
                 sz1 = ALIGN_PAGE sz;
                 s1 = vunmap env vaddr s in
             case dma_unmap_pages ipu6_mmu_iova_to_phys (dma_of env) (mmu_info mmu1)
                    (map (\<lambda>i. lo + i) [0..<unat (drop_bit 12 sz1)]) s1 of
               None \<Rightarrow> None
             | Some s2 \<Rightarrow>
               let mmu2 = mmu1\<lparr>mmu_info := ipu6_mmu_unmap (mmu_info mmu1) (page lo) (page (Suc hi - lo))\<rparr>;
                   s3 = free_buffer env (vm_pages info) sz1 s2;
                   d1 = snd (run_state (tlb_invalidate dv mmu2) d) in
               Some (mmu2, free_iova (dma_of env) (lo, hi) s3, d1)))"

text \<open>Inserting the pages of a buffer into a user mapping, until the first error.\<close>

fun insert_pages :: "'s buf_env \<Rightarrow> u64 \<Rightarrow> nat \<Rightarrow> nat list \<Rightarrow> 's \<Rightarrow> unit res \<times> 's" where
  "insert_pages env vm_start i [] s = (ok, s)"
| "insert_pages env vm_start i (pg # pgs) s =
     (case vm_insert_page env (vm_start + page i) pg s of
        (Inl e, s1) \<Rightarrow> (Inl e, s1)
      | (Inr _, s1) \<Rightarrow> insert_pages env vm_start (Suc i) pgs s1)"

definition PFN_UP :: "u64 \<Rightarrow> nat" where
  "PFN_UP x = unat (drop_bit 12 (x + 4095))"

definition ipu6_dma_mmap :: "'s buf_env \<Rightarrow> u64 \<Rightarrow> u64 \<Rightarrow> u64 \<Rightarrow> ipu6_mmu \<Rightarrow> 's \<Rightarrow> unit res \<times> 's" where
  "ipu6_dma_mmap env vm_start iova sz mmu s =
     (case get_vm_info mmu iova of
        None \<Rightarrow> (Inl EFAULT, s)
      | Some info \<Rightarrow>
          if vm_vaddr info = 0 then (Inl EFAULT, s)
          else if vm_start AND 0xfff \<noteq> 0 then (Inl EINVAL, s)
          else if sz > vm_size info then (Inl EFAULT, s)
          else insert_pages env vm_start 0 (take (PFN_UP sz) (vm_pages info)) s)"

section \<open>Scatter lists\<close>

record scatterlist =
  sg_offset :: u32
  sg_len :: u32
  sg_addr :: u64

definition sg_pages :: "scatterlist \<Rightarrow> nat" where
  "sg_pages sg = PFN_UP (ucast (sg_len sg))"

text \<open>\<^verbatim>\<open>PAGE_ALIGN\<close> of the length of an entry, which is an unsigned int: it wraps above \<^verbatim>\<open>0xfffff000\<close>.\<close>

definition sg_bytes :: "scatterlist \<Rightarrow> u64" where
  "sg_bytes sg = ucast ((sg_len sg + 0xfff) AND NOT 0xfff)"

text \<open>Returning the bus addresses to the entries.\<close>

fun sg_restore ::
  "('i \<Rightarrow> u64 \<Rightarrow> u64 option) \<Rightarrow> 'i \<Rightarrow> nat \<Rightarrow> scatterlist list \<Rightarrow> scatterlist list option" where
  "sg_restore tphys info 0 sgs = Some sgs"
| "sg_restore tphys info (Suc n) [] = Some []"
| "sg_restore tphys info (Suc n) (sg # sgs) =
     (case tphys info (sg_addr sg) of
        None \<Rightarrow> None
      | Some a \<Rightarrow> map_option (\<lambda>r. sg\<lparr>sg_addr := a\<rparr> # r) (sg_restore tphys info n sgs))"

definition ipu6_dma_unmap_sg ::
  "'d mmio_dev \<Rightarrow> 's dma_env \<Rightarrow> scatterlist list \<Rightarrow> nat \<Rightarrow> ipu6_mmu \<Rightarrow> 's \<Rightarrow> 'd \<Rightarrow>
   (scatterlist list \<times> ipu6_mmu \<times> 's \<times> 'd) option" where
  "ipu6_dma_unmap_sg dv env sgs nents mmu s d =
     (if nents = 0 then Some (sgs, mmu, s, d)
      else
        case find_iova env (unat (drop_bit 12 (sg_addr (hd sgs)))) s of
          None \<Rightarrow> Some (sgs, mmu, s, d)
        | Some (lo, hi) \<Rightarrow>
          (case sg_restore ipu6_mmu_iova_to_phys (mmu_info mmu) nents sgs of
             None \<Rightarrow> None
           | Some sgs1 \<Rightarrow>
             let mmu1 = mmu\<lparr>mmu_info := ipu6_mmu_unmap (mmu_info mmu) (page lo) (page (Suc hi - lo))\<rparr>;
                 d1 = snd (run_state (tlb_invalidate dv mmu1) d) in
             Some (sgs1, mmu1, free_iova env (lo, hi) s, d1)))"

text \<open>
  Mapping the entries one after the other: the entries with the device addresses, how many
  were mapped, whether all were.
\<close>

fun sg_map_loop ::
  "('i \<Rightarrow> u64 \<Rightarrow> u64 \<Rightarrow> u64 \<Rightarrow> 's \<Rightarrow> unit res \<times> 'i \<times> 's) \<Rightarrow> nat \<Rightarrow> scatterlist list \<Rightarrow> 'i \<Rightarrow> 's \<Rightarrow>
   scatterlist list \<times> nat \<times> bool \<times> 'i \<times> 's" where
  "sg_map_loop mp iova_addr [] info s = ([], 0, True, info, s)"
| "sg_map_loop mp iova_addr (sg # sgs) info s =
     (case mp info (page iova_addr) (sg_addr sg) (sg_bytes sg) s of
        (Inl e, info1, s1) \<Rightarrow> (sg # sgs, 0, False, info1, s1)
      | (Inr _, info1, s1) \<Rightarrow>
        (case sg_map_loop mp (iova_addr + sg_pages sg) sgs info1 s1 of
           (sgs', n, all, info2, s2) \<Rightarrow>
             (sg\<lparr>sg_addr := page iova_addr\<rparr> # sgs', Suc n, all, info2, s2)))"

text \<open>
  \<^verbatim>\<open>ipu6_dma_map_sg\<close> returns the number of entries, 0 when nothing could be mapped, or an error
  for entries that do not start at a page boundary.
\<close>

definition ipu6_dma_map_sg ::
  "'d mmio_dev \<Rightarrow> 's dma_env \<Rightarrow> scatterlist list \<Rightarrow> ipu6_mmu \<Rightarrow> 's \<Rightarrow> 'd \<Rightarrow>
   (nat res \<times> scatterlist list \<times> ipu6_mmu \<times> 's \<times> 'd) option" where
  "ipu6_dma_map_sg dv env sgs mmu s d =
     (if list_ex (\<lambda>sg. sg_offset sg \<noteq> 0) sgs then Some (Inl EFAULT, sgs, mmu, s, d)
      else
        let npages = sum_list (map sg_pages sgs) in
        case alloc_iova env npages (drop_bit 12 (aperture_end (mmu_info mmu))) s of
          (None, s1) \<Rightarrow> Some (Inr 0, sgs, mmu, s1, d)
        | (Some (lo, hi), s1) \<Rightarrow>
          (case sg_map_loop (ipu6_mmu_map (page_env env)) lo sgs (mmu_info mmu) s1 of
             (sgs1, i, all, info1, s2) \<Rightarrow>
               if all then Some (Inr (length sgs), sgs1, mmu\<lparr>mmu_info := info1\<rparr>, s2, d)
               else map_option (\<lambda>(sgs2, mmu2, s3, d1). (Inr 0, sgs2, mmu2, s3, d1))
                      (ipu6_dma_unmap_sg dv env sgs1 i (mmu\<lparr>mmu_info := info1\<rparr>) s2 d)))"

text \<open>A scatter table: its entries and the number of them that are mapped.\<close>

definition ipu6_dma_map_sgtable ::
  "'d mmio_dev \<Rightarrow> 's dma_env \<Rightarrow> scatterlist list \<times> nat \<Rightarrow> ipu6_mmu \<Rightarrow> 's \<Rightarrow> 'd \<Rightarrow>
   (unit res \<times> (scatterlist list \<times> nat) \<times> ipu6_mmu \<times> 's \<times> 'd) option" where
  "ipu6_dma_map_sgtable dv env sgt mmu s d =
     map_option (\<lambda>(r, sgs, mmu1, s1, d1).
         (case r of
            Inl e \<Rightarrow> (Inl e, (sgs @ drop (snd sgt) (fst sgt), snd sgt), mmu1, s1, d1)
          | Inr n \<Rightarrow> (ok, (sgs @ drop (snd sgt) (fst sgt), n), mmu1, s1, d1)))
       (ipu6_dma_map_sg dv env (take (snd sgt) (fst sgt)) mmu s d)"

definition ipu6_dma_unmap_sgtable ::
  "'d mmio_dev \<Rightarrow> 's dma_env \<Rightarrow> scatterlist list \<times> nat \<Rightarrow> ipu6_mmu \<Rightarrow> 's \<Rightarrow> 'd \<Rightarrow>
   ((scatterlist list \<times> nat) \<times> ipu6_mmu \<times> 's \<times> 'd) option" where
  "ipu6_dma_unmap_sgtable dv env sgt mmu s d =
     map_option (\<lambda>(sgs, mmu1, s1, d1). ((sgs, snd sgt), mmu1, s1, d1))
       (ipu6_dma_unmap_sg dv env (fst sgt) (snd sgt) mmu s d)"

end
