(* ===== verification/Dma_Buffers.thy ===== *)
theory Dma_Buffers
  imports Dma
begin

text \<open>
  Correctness of the coherent buffers of \<^verbatim>\<open>kernel/ipu4/ipu6-dma.c\<close>: what a successful allocation
  maps, that a failed one gives everything back, and that freeing undoes allocating.
\<close>

section \<open>Contract of the kernel services\<close>

text \<open>
  What the kernel has handed out to the DMA layer: page frames, mappings on the bus (address
  and frame), device address ranges and kernel mappings.
\<close>

record kview =
  kv_pages :: "nat set"
  kv_bus :: "(u64 \<times> nat) multiset"
  kv_iova :: "(nat \<times> nat) set"
  kv_vmap :: "u64 set"

text \<open>
  The documented effect of each service on that view, in kernel states that satisfy \<open>I\<close>:
  allocated blocks, ranges and kernel mappings are new, a mapped page gets a page-aligned
  address below \<open>2 ^ 39\<close> which decodes to one page, and a failing service changes nothing.
\<close>

definition iova_law :: "'s dma_env \<Rightarrow> ('s \<Rightarrow> bool) \<Rightarrow> ('s \<Rightarrow> kview) \<Rightarrow> bool" where
  "iova_law env I V \<longleftrightarrow> (\<forall>s. I s \<longrightarrow>
     (\<forall>n lim. 0 < n \<longrightarrow> (case alloc_iova env n lim s of
         (None, s') \<Rightarrow> I s' \<and> V s' = V s
       | (Some (lo, hi), s') \<Rightarrow> I s' \<and> 0 < lo \<and> Suc hi = lo + n \<and> hi \<le> unat lim \<and>
           (\<forall>(a, b) \<in> kv_iova (V s). b < lo \<or> hi < a) \<and>
           V s' = (V s)\<lparr>kv_iova := insert (lo, hi) (kv_iova (V s))\<rparr>)) \<and>
     (\<forall>r. I (free_iova env r s) \<and> V (free_iova env r s) = (V s)\<lparr>kv_iova := kv_iova (V s) - {r}\<rparr>) \<and>
     (\<forall>(lo, hi) \<in> kv_iova (V s). \<forall>p. lo \<le> p \<and> p \<le> hi \<longrightarrow> find_iova env p s = Some (lo, hi)))"

definition bus_law :: "'s dma_env \<Rightarrow> ('s \<Rightarrow> bool) \<Rightarrow> ('s \<Rightarrow> kview) \<Rightarrow> bool" where
  "bus_law env I V \<longleftrightarrow> (\<forall>s. I s \<longrightarrow>
     (\<forall>pg. case dma_map_page env pg s of
         (None, s') \<Rightarrow> I s' \<and> V s' = V s
       | (Some a, s') \<Rightarrow> I s' \<and> (\<exists>P < 2 ^ 27. a = page P) \<and>
           V s' = (V s)\<lparr>kv_bus := add_mset (a, pg) (kv_bus (V s))\<rparr>) \<and>
     (\<forall>a pg. (a, pg) \<in># kv_bus (V s) \<longrightarrow> I (dma_unmap_page env a s) \<and>
         V (dma_unmap_page env a s) = (V s)\<lparr>kv_bus := kv_bus (V s) - {#(a, pg)#}\<rparr>))"

definition pages_law :: "'s buf_env \<Rightarrow> ('s \<Rightarrow> bool) \<Rightarrow> ('s \<Rightarrow> kview) \<Rightarrow> bool" where
  "pages_law env I V \<longleftrightarrow> (\<forall>s. I s \<longrightarrow>
     (\<forall>k. case alloc_pages env k s of
         (None, s') \<Rightarrow> I s' \<and> V s' = V s
       | (Some p, s') \<Rightarrow> I s' \<and> {p..<p + 2 ^ k} \<inter> kv_pages (V s) = {} \<and>
           V s' = (V s)\<lparr>kv_pages := kv_pages (V s) \<union> {p..<p + 2 ^ k}\<rparr>) \<and>
     (\<forall>p. I (free_pages env p s) \<and> V (free_pages env p s) = (V s)\<lparr>kv_pages := kv_pages (V s) - {p}\<rparr>) \<and>
     (\<forall>p n. I (clear_buffer env p n s) \<and> V (clear_buffer env p n s) = V s))"

definition vmap_law :: "'s buf_env \<Rightarrow> ('s \<Rightarrow> bool) \<Rightarrow> ('s \<Rightarrow> kview) \<Rightarrow> bool" where
  "vmap_law env I V \<longleftrightarrow> (\<forall>s. I s \<longrightarrow>
     (\<forall>ps. case vmap env ps s of (va, s') \<Rightarrow> I s' \<and> va \<notin> kv_vmap (V s) \<and>
         V s' = (if va = 0 then V s else (V s)\<lparr>kv_vmap := insert va (kv_vmap (V s))\<rparr>)) \<and>
     (\<forall>va. I (vunmap env va s) \<and> V (vunmap env va s) = (V s)\<lparr>kv_vmap := kv_vmap (V s) - {va}\<rparr>))"

definition kernel_ok :: "'s buf_env \<Rightarrow> ('s \<Rightarrow> bool) \<Rightarrow> ('s \<Rightarrow> kview) \<Rightarrow> bool" where
  "kernel_ok env I V \<longleftrightarrow> iova_law (dma_of env) I V \<and> bus_law (dma_of env) I V \<and> pages_law env I V \<and> vmap_law env I V"

lemma iova_lawD:
  assumes "iova_law env I V" "I s"
  shows "0 < n \<Longrightarrow> alloc_iova env n lim s = (None, s') \<Longrightarrow> I s' \<and> V s' = V s"
    and "0 < n \<Longrightarrow> alloc_iova env n lim s = (Some (lo, hi), s') \<Longrightarrow> I s' \<and> 0 < lo \<and> Suc hi = lo + n \<and> hi \<le> unat lim \<and>
           (\<forall>(a, b) \<in> kv_iova (V s). b < lo \<or> hi < a) \<and>
           V s' = (V s)\<lparr>kv_iova := insert (lo, hi) (kv_iova (V s))\<rparr>"
    and "I (free_iova env r s) \<and> V (free_iova env r s) = (V s)\<lparr>kv_iova := kv_iova (V s) - {r}\<rparr>"
    and "(lo, hi) \<in> kv_iova (V s) \<Longrightarrow> lo \<le> p \<Longrightarrow> p \<le> hi \<Longrightarrow> find_iova env p s = Some (lo, hi)"
proof -
  note law = assms(1) [unfolded iova_law_def, rule_format, OF assms(2)]
  show "0 < n \<Longrightarrow> alloc_iova env n lim s = (None, s') \<Longrightarrow> I s' \<and> V s' = V s"
    "0 < n \<Longrightarrow> alloc_iova env n lim s = (Some (lo, hi), s') \<Longrightarrow> I s' \<and> 0 < lo \<and> Suc hi = lo + n \<and> hi \<le> unat lim \<and>
           (\<forall>(a, b) \<in> kv_iova (V s). b < lo \<or> hi < a) \<and>
           V s' = (V s)\<lparr>kv_iova := insert (lo, hi) (kv_iova (V s))\<rparr>"
    using law [THEN conjunct1, rule_format, of n lim] by simp_all
  show "I (free_iova env r s) \<and> V (free_iova env r s) = (V s)\<lparr>kv_iova := kv_iova (V s) - {r}\<rparr>"
    using law [THEN conjunct2, THEN conjunct1] by blast
  show "(lo, hi) \<in> kv_iova (V s) \<Longrightarrow> lo \<le> p \<Longrightarrow> p \<le> hi \<Longrightarrow> find_iova env p s = Some (lo, hi)"
    using law [THEN conjunct2, THEN conjunct2] by blast
qed

lemma bus_lawD:
  assumes "bus_law env I V" "I s"
  shows "dma_map_page env pg s = (None, s') \<Longrightarrow> I s' \<and> V s' = V s"
    and "dma_map_page env pg s = (Some a, s') \<Longrightarrow> I s' \<and> (\<exists>P < 2 ^ 27. a = page P) \<and>
           V s' = (V s)\<lparr>kv_bus := add_mset (a, pg) (kv_bus (V s))\<rparr>"
    and "(a, pg) \<in># kv_bus (V s) \<Longrightarrow> I (dma_unmap_page env a s) \<and>
           V (dma_unmap_page env a s) = (V s)\<lparr>kv_bus := kv_bus (V s) - {#(a, pg)#}\<rparr>"
proof -
  note law = assms(1) [unfolded bus_law_def, rule_format, OF assms(2)]
  show "dma_map_page env pg s = (None, s') \<Longrightarrow> I s' \<and> V s' = V s"
    "dma_map_page env pg s = (Some a, s') \<Longrightarrow> I s' \<and> (\<exists>P < 2 ^ 27. a = page P) \<and>
           V s' = (V s)\<lparr>kv_bus := add_mset (a, pg) (kv_bus (V s))\<rparr>"
    using law [THEN conjunct1, rule_format, of pg] by simp_all
  show "(a, pg) \<in># kv_bus (V s) \<Longrightarrow> I (dma_unmap_page env a s) \<and>
           V (dma_unmap_page env a s) = (V s)\<lparr>kv_bus := kv_bus (V s) - {#(a, pg)#}\<rparr>"
    using law [THEN conjunct2, rule_format, of a pg] by simp
qed

lemma pages_lawD:
  assumes "pages_law env I V" "I s"
  shows "alloc_pages env k s = (None, s') \<Longrightarrow> I s' \<and> V s' = V s"
    and "alloc_pages env k s = (Some p, s') \<Longrightarrow> I s' \<and> {p..<p + 2 ^ k} \<inter> kv_pages (V s) = {} \<and>
           V s' = (V s)\<lparr>kv_pages := kv_pages (V s) \<union> {p..<p + 2 ^ k}\<rparr>"
    and "I (free_pages env p s) \<and> V (free_pages env p s) = (V s)\<lparr>kv_pages := kv_pages (V s) - {p}\<rparr>"
    and "I (clear_buffer env p n s) \<and> V (clear_buffer env p n s) = V s"
proof -
  note law = assms(1) [unfolded pages_law_def, rule_format, OF assms(2)]
  show "alloc_pages env k s = (None, s') \<Longrightarrow> I s' \<and> V s' = V s"
    "alloc_pages env k s = (Some p, s') \<Longrightarrow> I s' \<and> {p..<p + 2 ^ k} \<inter> kv_pages (V s) = {} \<and>
           V s' = (V s)\<lparr>kv_pages := kv_pages (V s) \<union> {p..<p + 2 ^ k}\<rparr>"
    using law [THEN conjunct1, rule_format, of k] by simp_all
  show "I (free_pages env p s) \<and> V (free_pages env p s) = (V s)\<lparr>kv_pages := kv_pages (V s) - {p}\<rparr>"
    "I (clear_buffer env p n s) \<and> V (clear_buffer env p n s) = V s"
    using law by blast+
qed

lemma vmap_lawD:
  assumes "vmap_law env I V" "I s"
  shows "vmap env ps s = (va, s') \<Longrightarrow> I s' \<and> va \<notin> kv_vmap (V s) \<and>
           V s' = (if va = 0 then V s else (V s)\<lparr>kv_vmap := insert va (kv_vmap (V s))\<rparr>)"
    and "I (vunmap env va s) \<and> V (vunmap env va s) = (V s)\<lparr>kv_vmap := kv_vmap (V s) - {va}\<rparr>"
proof -
  note law = assms(1) [unfolded vmap_law_def, rule_format, OF assms(2)]
  show "vmap env ps s = (va, s') \<Longrightarrow> I s' \<and> va \<notin> kv_vmap (V s) \<and>
           V s' = (if va = 0 then V s else (V s)\<lparr>kv_vmap := insert va (kv_vmap (V s))\<rparr>)"
    using law [THEN conjunct1, rule_format, of ps] by simp
  show "I (vunmap env va s) \<and> V (vunmap env va s) = (V s)\<lparr>kv_vmap := kv_vmap (V s) - {va}\<rparr>"
    using law by blast
qed

section \<open>The pages of a buffer\<close>

lemma free_pages_all:
  assumes "pages_law env I V" "I s"
  shows "I (fold (free_pages env) ps s) \<and>
    V (fold (free_pages env) ps s) = (V s)\<lparr>kv_pages := kv_pages (V s) - set ps\<rparr>"
  using assms(2)
proof (induction ps arbitrary: s)
  case Nil
  then show ?case by simp
next
  case (Cons p ps)
  note f = pages_lawD(3) [OF assms(1) Cons.prems, of p]
  with Cons.IH [of "free_pages env p s"] show ?case
    by (simp add: Diff_insert2 [of "kv_pages (V s)" p "set ps"])
qed

lemma free_buffer_pages:
  assumes "pages_law env I V" "I s"
  shows "I (free_buffer env ps sz s) \<and> V (free_buffer env ps sz s) =
    (V s)\<lparr>kv_pages := kv_pages (V s) - set (take (unat (ucast (drop_bit 12 sz) :: u32)) ps)\<rparr>"
proof -
  have "I (fold (\<lambda>p st. free_pages env p (clear_buffer env p 1 st)) qs s) \<and>
    V (fold (\<lambda>p st. free_pages env p (clear_buffer env p 1 st)) qs s) = (V s)\<lparr>kv_pages := kv_pages (V s) - set qs\<rparr>" for qs
    using assms(2)
  proof (induction qs arbitrary: s)
    case Nil
    then show ?case by simp
  next
    case (Cons p qs)
    note c = pages_lawD(4) [OF assms(1) Cons.prems, of p 1]
    then have f: "I (free_pages env p (clear_buffer env p 1 s)) \<and>
        V (free_pages env p (clear_buffer env p 1 s)) = (V s)\<lparr>kv_pages := kv_pages (V s) - {p}\<rparr>"
      using pages_lawD(3) [OF assms(1), of "clear_buffer env p 1 s" p] by simp
    with Cons.IH [of "free_pages env p (clear_buffer env p 1 s)"] show ?case
      by (simp add: Diff_insert2 [of "kv_pages (V s)" p "set qs"])
  qed
  then show ?thesis by (simp add: free_buffer_def Let_def)
qed

lemma alloc_order_pages:
  assumes "pages_law env I V" "I s" "alloc_order env n s = (r, s')"
  shows "I s' \<and> (case r of None \<Rightarrow> V s' = V s
    | Some (p, k) \<Rightarrow> k \<le> n \<and> {p..<p + 2 ^ k} \<inter> kv_pages (V s) = {} \<and>
        V s' = (V s)\<lparr>kv_pages := kv_pages (V s) \<union> {p..<p + 2 ^ k}\<rparr>)"
  using assms(2,3)
proof (induction n arbitrary: s)
  case 0
  obtain x s1 where "alloc_pages env 0 s = (x, s1)" by fastforce
  with 0 pages_lawD(1,2) [OF assms(1) 0(1), of 0] show ?case by (cases x) auto
next
  case (Suc n)
  obtain x s1 where a: "alloc_pages env (Suc n) s = (x, s1)" by fastforce
  show ?case
  proof (cases x)
    case None
    from pages_lawD(1) [OF assms(1) Suc.prems(1) a [unfolded None]] have s1: "I s1" "V s1 = V s" by simp_all
    with Suc.prems(2) a None have "alloc_order env n s1 = (r, s')" by simp
    from Suc.IH [OF s1(1) this] s1(2) show ?thesis by (auto split: option.splits)
  next
    case (Some p)
    with Suc.prems a pages_lawD(2) [OF assms(1) Suc.prems(1) a [unfolded Some]] show ?thesis by auto
  qed
qed

text \<open>
  A buffer of \<open>n\<close> pages: \<open>n\<close> different new frames on success, and on failure every page
  collected so far is given back.
\<close>

lemma block_pages: "set (map (\<lambda>j. p + j) [0..<n]) = {p..<p + n}" "distinct (map (\<lambda>j. p + j) [0..<n])"
  by (auto simp: distinct_map image_iff Bex_def)

lemma alloc_buffer_loop_pages:
  assumes "pages_law env I V" "I s" "alloc_buffer_loop env n ps s = (r, s')"
    and "distinct ps" "set ps \<subseteq> kv_pages (V s)"
  shows "I s' \<and> (case r of
      None \<Rightarrow> V s' = (V s)\<lparr>kv_pages := kv_pages (V s) - set ps\<rparr>
    | Some qs \<Rightarrow> length qs = length ps + n \<and> distinct qs \<and> set ps \<subseteq> set qs \<and>
        (set qs - set ps) \<inter> kv_pages (V s) = {} \<and>
        V s' = (V s)\<lparr>kv_pages := kv_pages (V s) \<union> set qs\<rparr>)"
  using assms
proof (induction env n ps s rule: alloc_buffer_loop.induct)
  case (1 env n ps s)
  show ?case
  proof (cases "n = 0")
    case True
    with "1.prems" show ?thesis by (subst (asm) alloc_buffer_loop.simps) (auto simp: Un_absorb2)
  next
    case False
    obtain x s1 where a: "alloc_order env (fls n) s = (x, s1)" by fastforce
    note o = alloc_order_pages [OF "1.prems"(1,2) a]
    show ?thesis
    proof (cases x)
      case None
      with "1.prems"(3) False a have "r = None" "s' = fold (free_pages env) (rev ps) s1"
        by (simp_all add: alloc_buffer_loop.simps)
      with o None free_pages_all [OF "1.prems"(1), of s1 "rev ps"] show ?thesis by simp
    next
      case (Some y)
      obtain p k where y: "y = (p, k)" by fastforce
      let ?b = "map (\<lambda>j. p + j) [0..<2 ^ k]" and ?s2 = "clear_buffer env p (2 ^ k) s1"
      from o Some y have b: "I s1" "k \<le> fls n" "{p..<p + 2 ^ k} \<inter> kv_pages (V s) = {}"
        "V s1 = (V s)\<lparr>kv_pages := kv_pages (V s) \<union> {p..<p + 2 ^ k}\<rparr>" by simp_all
      have s2: "I ?s2" "V ?s2 = V s1" using pages_lawD(4) [OF "1.prems"(1) b(1)] by simp_all
      have "(2 :: nat) ^ k \<le> 2 ^ fls n" using b(2) by simp
      with fls_pow [of n] False have k: "2 ^ k \<le> n" by linarith
      have run: "alloc_buffer_loop env (n - 2 ^ k) (ps @ ?b) ?s2 = (r, s')"
        using "1.prems"(3) False a Some y by (subst (asm) alloc_buffer_loop.simps) simp
      have d: "distinct (ps @ ?b)" using "1.prems"(4,5) b(3) by (auto simp: block_pages simp del: set_map)
      have sub: "set (ps @ ?b) \<subseteq> kv_pages (V ?s2)"
        using "1.prems"(5) by (auto simp: s2(2) b(4) block_pages simp del: set_map)
      note IH = "1.IH" [OF False a [symmetric] Some y [symmetric] "1.prems"(1) s2(1) run d sub]
      show ?thesis
      proof (cases r)
        case None
        have "kv_pages (V s1) - set (ps @ ?b) = kv_pages (V s) - set ps"
          using b(3) by (auto simp: b(4) block_pages simp del: set_map)
        with IH None show ?thesis by (simp add: s2(2)) (simp add: b(4))
      next
        case (Some qs)
        with IH have q: "length qs = length ps + n" "distinct qs" "set ps \<union> {p..<p + 2 ^ k} \<subseteq> set qs"
          "(set qs - (set ps \<union> {p..<p + 2 ^ k})) \<inter> kv_pages (V s1) = {}" "I s'"
          "V s' = (V s1)\<lparr>kv_pages := kv_pages (V s1) \<union> set qs\<rparr>"
          using k by (simp_all add: s2(2) block_pages del: set_map)
        moreover have "kv_pages (V s) \<union> {p..<p + 2 ^ k} \<union> set qs = kv_pages (V s) \<union> set qs" using q(3) by auto
        ultimately show ?thesis using b(3) Some by (auto simp: b(4))
      qed
    qed
  qed
qed

section \<open>Mapping and unmapping the pages\<close>

text \<open>The translation through the page tables, with the kernel's view of the DMA resources.\<close>

locale buffer_mapper = page_translator mp unmp tr mapped dummy inv tphys I V
  for mp :: "'i \<Rightarrow> u64 \<Rightarrow> u64 \<Rightarrow> u64 \<Rightarrow> 's \<Rightarrow> unit res \<times> 'i \<times> 's"
    and unmp :: "'i \<Rightarrow> u64 \<Rightarrow> u64 \<Rightarrow> 'i"
    and tr :: "'i \<Rightarrow> nat \<Rightarrow> u32"
    and mapped :: "'i \<Rightarrow> nat \<Rightarrow> bool"
    and dummy :: "'i \<Rightarrow> u32"
    and inv :: "'i \<Rightarrow> 's \<Rightarrow> bool"
    and tphys :: "'i \<Rightarrow> u64 \<Rightarrow> u64 option"
    and I :: "'s \<Rightarrow> bool"
    and V :: "'s \<Rightarrow> kview"
begin

text \<open>
  The state with the pages \<open>lo + j\<close> of a buffer mapped to the frames \<open>as ! j\<close>, starting from
  \<open>i0\<close> and the view \<open>v0\<close>: \<open>pgs ! j\<close> is the memory behind \<open>as ! j\<close>.
\<close>

definition buf_mapped :: "nat \<Rightarrow> nat list \<Rightarrow> nat list \<Rightarrow> 'i \<Rightarrow> kview \<Rightarrow> 'i \<Rightarrow> 's \<Rightarrow> bool" where
  "buf_mapped lo as pgs i0 v0 i s \<longleftrightarrow> inv i s \<and> dummy i = dummy i0 \<and> length as = length pgs \<and>
     lo + length as \<le> 2 ^ 20 \<and> (\<forall>a \<in> set as. a < 2 ^ 27) \<and>
     (\<forall>p < 2 ^ 20. tr i p = (if lo \<le> p \<and> p < lo + length as then word_of_nat (as ! (p - lo)) else tr i0 p)) \<and>
     (\<forall>p < 2 ^ 20. mapped i0 p \<or> lo \<le> p \<and> p < lo + length as \<longrightarrow> mapped i p) \<and>
     V s = v0\<lparr>kv_bus := kv_bus v0 + mset (zip (map page as) pgs)\<rparr>"

lemma buf_mapped_step:
  assumes m: "buf_mapped lo as pgs i0 v0 i s" and b: "bus_law env I V" and n: "lo + length as < 2 ^ 20"
    and d: "dma_map_page env pg s = (Some a, s1)" and mm: "mp i (page (lo + length as)) a 4096 s1 = (ok, i2, s2)"
  shows "\<exists>P. a = page P \<and> buf_mapped lo (as @ [P]) (pgs @ [pg]) i0 v0 i2 s2"
proof -
  have I: "inv i s" "I s" using m by (auto simp: buf_mapped_def inv_I)
  from bus_lawD(2) [OF b I(2) d] obtain P where P: "I s1" "P < 2 ^ 27" "a = page P"
    "V s1 = (V s)\<lparr>kv_bus := add_mset (a, pg) (kv_bus (V s))\<rparr>" by auto
  have i1: "inv i s1" by (rule inv_change [OF I(1) P(1)])
  have P51: "P < 2 ^ 51" using P(2) by simp
  note o = map_one_ok [OF i1 n P51 mm [unfolded P(3)]]
  have "V s2 = V s1" by (rule view [OF i1 mm])
  with P(3,4) m have V: "V s2 = v0\<lparr>kv_bus := kv_bus v0 + mset (zip (map page (as @ [P])) (pgs @ [pg]))\<rparr>"
    by (simp add: buf_mapped_def)
  have "tr i2 p = (if lo \<le> p \<and> p < lo + length (as @ [P]) then word_of_nat ((as @ [P]) ! (p - lo)) else tr i0 p)"
    if "p < 2 ^ 20" for p
  proof (cases "p = lo + length as")
    case True
    with o that show ?thesis by (simp add: nth_append)
  next
    case False
    with o that have "tr i2 p = tr i p" by simp
    with False m that show ?thesis by (auto simp: buf_mapped_def nth_append)
  qed
  moreover have "mapped i2 p" if "p < 2 ^ 20" "mapped i0 p \<or> lo \<le> p \<and> p < lo + length (as @ [P])" for p
    using o m that by (cases "p = lo + length as") (auto simp: buf_mapped_def)
  ultimately show ?thesis
    using m o P(2,3) V n by (intro exI [of _ P]) (auto simp: buf_mapped_def)
qed

text \<open>A page that the page tables reject leaves the state as before it.\<close>

lemma buf_mapped_reject:
  assumes m: "buf_mapped lo as pgs i0 v0 i s" and b: "bus_law env I V" and n: "lo + length as < 2 ^ 20"
    and fresh: "tr i0 (lo + length as) = dummy i0"
    and d: "dma_map_page env pg s = (Some a, s1)" and mm: "mp i (page (lo + length as)) a 4096 s1 = (Inl e, i2, s2)"
  shows "buf_mapped lo as pgs i0 v0 i2 (dma_unmap_page env a s2)"
proof -
  have I: "inv i s" "I s" using m by (auto simp: buf_mapped_def inv_I)
  from bus_lawD(2) [OF b I(2) d] obtain P where P: "I s1" "P < 2 ^ 27" "a = page P"
    "V s1 = (V s)\<lparr>kv_bus := add_mset (a, pg) (kv_bus (V s))\<rparr>" by auto
  have i1: "inv i s1" by (rule inv_change [OF I(1) P(1)])
  have P51: "P < 2 ^ 51" using P(2) by simp
  have "tr i (lo + length as) = dummy i" using m n fresh by (simp add: buf_mapped_def)
  note o = map_one_fail [OF i1 n P51 this mm [unfolded P(3)]]
  have V2: "V s2 = V s1" by (rule view [OF i1 mm])
  from o have i2: "inv i2 s2" by simp
  have "(a, pg) \<in># kv_bus (V s2)" by (simp add: V2 P(4))
  from bus_lawD(3) [OF b inv_I [OF i2] this] have u: "I (dma_unmap_page env a s2)" "V (dma_unmap_page env a s2) = V s"
    by (simp_all add: V2 P(4))
  from inv_change [OF i2 u(1)] o m u(2) show ?thesis
    by (simp add: buf_mapped_def)
qed

lemma dma_map_loop_mapped:
  assumes "buf_mapped lo as pgs i0 v0 i s" "bus_law env I V" "lo + length as + length rest \<le> 2 ^ 20"
    and "\<And>p. lo \<le> p \<Longrightarrow> p < lo + length as + length rest \<Longrightarrow> tr i0 p = dummy i0"
    and "dma_map_loop mp env lo (length as) rest i s = (m, all, i', s')"
  shows "\<exists>as' k. m = length as' \<and> k \<le> length rest \<and> (all \<longrightarrow> k = length rest) \<and>
    buf_mapped lo as' (pgs @ take k rest) i0 v0 i' s'"
  using assms
proof (induction rest arbitrary: as pgs i s)
  case Nil
  then show ?case by (intro exI [of _ as] exI [of _ 0]) simp
next
  case (Cons pg rest)
  have n: "lo + length as < 2 ^ 20" using Cons.prems(3) by simp
  obtain x s1 where d: "dma_map_page env pg s = (x, s1)" by fastforce
  show ?case
  proof (cases x)
    case None
    have I: "inv i s" "I s" using Cons.prems(1) by (auto simp: buf_mapped_def inv_I)
    from bus_lawD(1) [OF Cons.prems(2) I(2) d [unfolded None]] have s1: "I s1" "V s1 = V s" by simp_all
    have "buf_mapped lo as pgs i0 v0 i s1"
      using Cons.prems(1) s1 inv_change [OF I(1) s1(1)] by (simp add: buf_mapped_def)
    with Cons.prems(5) d None show ?thesis by (intro exI [of _ as] exI [of _ 0]) simp
  next
    case (Some a)
    obtain r i2 s2 where mm: "mp i (page (lo + length as)) a 4096 s1 = (r, i2, s2)" by (metis prod_cases3)
    show ?thesis
    proof (cases r)
      case (Inl e)
      have "tr i0 (lo + length as) = dummy i0" using Cons.prems(4) by simp
      from buf_mapped_reject [OF Cons.prems(1,2) n this d [unfolded Some] mm [unfolded Inl]]
      show ?thesis using Cons.prems(5) d Some mm Inl by (intro exI [of _ as] exI [of _ 0]) simp
    next
      case (Inr u)
      then have mm': "mp i (page (lo + length as)) a 4096 s1 = (ok, i2, s2)" using mm by simp
      from buf_mapped_step [OF Cons.prems(1,2) n d [unfolded Some] mm'] obtain P where
        st: "buf_mapped lo (as @ [P]) (pgs @ [pg]) i0 v0 i2 s2" by blast
      have run: "dma_map_loop mp env lo (length (as @ [P])) rest i2 s2 = (m, all, i', s')"
        using Cons.prems(5) d Some mm' by simp
      have "lo + length (as @ [P]) + length rest \<le> 2 ^ 20" using Cons.prems(3) by simp
      moreover have "tr i0 p = dummy i0" if "lo \<le> p" "p < lo + length (as @ [P]) + length rest" for p
        using Cons.prems(4) that by simp
      ultimately obtain as' k where "m = length as'" "k \<le> length rest" "all \<longrightarrow> k = length rest"
        "buf_mapped lo as' ((pgs @ [pg]) @ take k rest) i0 v0 i' s'"
        using Cons.IH [OF st Cons.prems(2) _ _ run] by blast
      then show ?thesis by (intro exI [of _ as'] exI [of _ "Suc k"]) simp
    qed
  qed
qed

text \<open>Taking the last page down again.\<close>

lemma tphys_mapped:
  assumes "buf_mapped lo as pgs i0 v0 i s" "j < length as"
  shows "tphys i (page (lo + j)) = Some (page (as ! j))"
proof -
  have j: "lo + j < 2 ^ 20" "mapped i (lo + j)" "as ! j < 2 ^ 27"
    using assms by (auto simp: buf_mapped_def)
  moreover have "tr i (lo + j) = word_of_nat (as ! j)"
    using assms j(1) by (simp add: buf_mapped_def)
  moreover from j(3) have "unat (word_of_nat (as ! j) :: u32) = as ! j" by (intro unat_of_nat_u32) simp
  moreover have "inv i s" using assms(1) by (simp add: buf_mapped_def)
  ultimately show ?thesis using tphys [of i s "lo + j"] by simp
qed

lemma buf_mapped_unstep:
  assumes m: "buf_mapped lo (as @ [P]) (pgs @ [pg]) i0 v0 i s" and b: "bus_law env I V"
    and fresh: "tr i0 (lo + length as) = dummy i0"
  shows "buf_mapped lo as pgs i0 v0 (unmp i (page (lo + length as)) 4096) (dma_unmap_page env (page P) s)"
proof -
  have I: "inv i s" "I s" using m by (auto simp: buf_mapped_def inv_I)
  have len: "length as = length pgs" using m by (simp add: buf_mapped_def)
  have "(page P, pg) \<in># kv_bus (V s)" using m len by (simp add: buf_mapped_def)
  from bus_lawD(3) [OF b I(2) this] have u: "I (dma_unmap_page env (page P) s)"
    "V (dma_unmap_page env (page P) s) = v0\<lparr>kv_bus := kv_bus v0 + mset (zip (map page as) pgs)\<rparr>"
    using m len by (simp_all add: buf_mapped_def)
  have n: "lo + length as < 2 ^ 20" "mapped i (lo + length as)" using m by (auto simp: buf_mapped_def)
  note o = unmap_one [OF I(1) n]
  from o have "inv (unmp i (page (lo + length as)) 4096) s" by simp
  note i' = inv_change [OF this u(1)]
  have "tr (unmp i (page (lo + length as)) 4096) p = (if lo \<le> p \<and> p < lo + length as then word_of_nat (as ! (p - lo)) else tr i0 p)"
    if "p < 2 ^ 20" for p
    using o m that fresh by (cases "p = lo + length as") (auto simp: buf_mapped_def nth_append)
  with o m u i' len show ?thesis by (auto simp: buf_mapped_def)
qed

lemma dma_unwind_all:
  assumes "buf_mapped lo as pgs i0 v0 i s" "bus_law env I V"
    and "\<And>p. lo \<le> p \<Longrightarrow> p < lo + length as \<Longrightarrow> tr i0 p = dummy i0"
  shows "\<exists>i' s'. dma_unwind unmp tphys env lo (length as) i s = Some (i', s') \<and> buf_mapped lo [] [] i0 v0 i' s'"
  using assms
proof (induction as arbitrary: pgs i s rule: rev_induct)
  case Nil
  then show ?case by (simp add: buf_mapped_def)
next
  case (snoc P as)
  from snoc.prems(1) have "length pgs = Suc (length as)" by (simp add: buf_mapped_def)
  then obtain pgs' pg where pgs: "pgs = pgs' @ [pg]" by (cases pgs rule: rev_cases) auto
  have t: "tphys i (page (lo + length as)) = Some (page P)"
    using tphys_mapped [OF snoc.prems(1), of "length as"] by simp
  have "tr i0 (lo + length as) = dummy i0" using snoc.prems(3) by simp
  from snoc.IH [OF buf_mapped_unstep [OF snoc.prems(1) [unfolded pgs] snoc.prems(2) this] snoc.prems(2)] snoc.prems(3) t
  show ?case by (simp add: Let_def)
qed

end

interpretation mmub: buffer_mapper "ipu6_mmu_map al" ipu6_mmu_unmap pte page_live dummy_page_pteval
  "mmu_inv_view al I V" ipu6_mmu_iova_to_phys I V
  for al I V
  by unfold_locales

section \<open>Allocation\<close>

definition buf_pages :: "u64 \<Rightarrow> nat" where
  "buf_pages sz = (unat sz + 4095) div 4096"

lemma ALIGN_PAGE_pages:
  assumes "0 < sz" "sz \<le> 0x7fffffffffffffff"
  shows "ALIGN_PAGE sz = page (buf_pages sz)" "unat (drop_bit 12 (ALIGN_PAGE sz)) = buf_pages sz"
    "0 < buf_pages sz" "buf_pages sz < 2 ^ 52"
proof -
  have b: "0 < unat sz" "unat sz \<le> 0x7fffffffffffffff"
    using assms by (simp_all add: word_less_nat_alt word_le_nat_alt)
  have "unat (sz + 0xfff) = unat sz + 4095"
    using b by (subst unat_add_no_wrap) simp_all
  then have d: "unat (drop_bit 12 (sz + 0xfff)) = buf_pages sz"
    by (simp add: unat_drop_bit buf_pages_def)
  show n: "0 < buf_pages sz" using b(1) by (simp add: buf_pages_def)
  show n': "buf_pages sz < 2 ^ 52" using b(2) by (simp add: buf_pages_def)
  have "drop_bit 12 (sz + 0xfff) = word_of_nat (buf_pages sz)" by (rule eq_of_unat [OF d])
  moreover have "ISP_PAGE_SIZE - 1 = 0xfff" by (simp add: ISP_PAGE_SIZE_def)
  ultimately show a: "ALIGN_PAGE sz = page (buf_pages sz)"
    unfolding ALIGN_PAGE_def by (simp only: low_clear page_push)
  show "unat (drop_bit 12 (ALIGN_PAGE sz)) = buf_pages sz"
    using n' by (simp add: a unat_drop_bit unat_page)
qed

text \<open>
  The invariant of an instance: the page tables are well formed, and a page outside every
  allocated device address range leads nowhere.
\<close>

definition dma_inv :: "'s buf_env \<Rightarrow> ('s \<Rightarrow> bool) \<Rightarrow> ('s \<Rightarrow> kview) \<Rightarrow> ipu6_mmu \<Rightarrow> 's \<Rightarrow> bool" where
  "dma_inv env I V mmu s \<longleftrightarrow> mmu_inv_view (page_env (dma_of env)) I V (mmu_info mmu) s \<and>
     (\<forall>p < 2 ^ 20. (\<forall>(lo, hi) \<in> kv_iova (V s). p < lo \<or> hi < p) \<longrightarrow>
        pte (mmu_info mmu) p = dummy_page_pteval (mmu_info mmu))"

text \<open>
  A buffer of \<open>n\<close> pages at device page \<open>lo\<close>: page \<open>lo + j\<close> leads to bus frame \<open>as ! j\<close>, where the
  bus reaches memory page \<open>pgs ! j\<close>.
\<close>

definition buf_allocated ::
  "('s \<Rightarrow> kview) \<Rightarrow> nat \<Rightarrow> nat \<Rightarrow> nat list \<Rightarrow> nat list \<Rightarrow> u64 \<Rightarrow> ipu6_mmu \<Rightarrow> 's \<Rightarrow> ipu6_mmu \<Rightarrow> 's \<Rightarrow> bool" where
  "buf_allocated V n lo as pgs va mmu s mmu' s' \<longleftrightarrow>
     va \<noteq> 0 \<and> va \<notin> kv_vmap (V s) \<and> 0 < lo \<and> lo + n \<le> 2 ^ 20 \<and> length as = n \<and> length pgs = n \<and> distinct pgs \<and>
     set pgs \<inter> kv_pages (V s) = {} \<and> (\<forall>(a, b) \<in> kv_iova (V s). b < lo \<or> lo + n \<le> a) \<and> (\<forall>a \<in> set as. a < 2 ^ 27) \<and>
     (\<forall>p < 2 ^ 20. pte (mmu_info mmu') p =
        (if lo \<le> p \<and> p < lo + n then word_of_nat (as ! (p - lo)) else pte (mmu_info mmu) p)) \<and>
     (\<forall>p. lo \<le> p \<and> p < lo + n \<longrightarrow> page_live (mmu_info mmu') p) \<and>
     mmu' = mmu\<lparr>mmu_info := mmu_info mmu',
                vma_list := \<lparr>vm_pages = pgs, ipu6_iova = page lo, vm_vaddr = va, vm_size = page n\<rparr> # vma_list mmu\<rparr> \<and>
     V s' = \<lparr>kv_pages = kv_pages (V s) \<union> set pgs, kv_bus = kv_bus (V s) + mset (zip (map page as) pgs),
             kv_iova = insert (lo, lo + n - 1) (kv_iova (V s)), kv_vmap = insert va (kv_vmap (V s))\<rparr>"

lemma dma_inv_frame:
  assumes "dma_inv env I V mmu s" "mmu_inv_view (page_env (dma_of env)) I V (mmu_info mmu') s'"
    and "\<forall>p < 2 ^ 20. pte (mmu_info mmu') p = pte (mmu_info mmu) p" "kv_iova (V s') = kv_iova (V s)"
    and "dummy_page_pteval (mmu_info mmu') = dummy_page_pteval (mmu_info mmu)"
  shows "dma_inv env I V mmu' s'"
  using assms by (simp add: dma_inv_def)

text \<open>A successful range leaves room below \<open>2 ^ 20\<close> and was unmapped before.\<close>

lemma range_fresh:
  assumes "iova_law (dma_of env) I V" "dma_inv env I V mmu s" "0 < n"
    and "alloc_iova (dma_of env) n (drop_bit 12 (aperture_end (mmu_info mmu))) s = (Some (lo, hi), s1)"
  shows "I s1" "0 < lo" "Suc hi = lo + n" "lo + n \<le> 2 ^ 20"
    "\<forall>(a, b) \<in> kv_iova (V s). b < lo \<or> lo + n \<le> a"
    "V s1 = (V s)\<lparr>kv_iova := insert (lo, hi) (kv_iova (V s))\<rparr>"
    "\<And>p. lo \<le> p \<Longrightarrow> p < lo + n \<Longrightarrow> pte (mmu_info mmu) p = dummy_page_pteval (mmu_info mmu)"
proof -
  have I: "I s" "aperture_end (mmu_info mmu) \<le> 0xffffffff" using assms(2) by (simp_all add: dma_inv_def mmu_inv_view_def)
  note l = iova_lawD(2) [OF assms(1) I(1) assms(3,4)]
  then show "I s1" "0 < lo" "Suc hi = lo + n" "V s1 = (V s)\<lparr>kv_iova := insert (lo, hi) (kv_iova (V s))\<rparr>" by simp_all
  have "unat (aperture_end (mmu_info mmu)) < 2 ^ 32" using I(2) by (simp add: word_le_nat_alt)
  then have "unat (drop_bit 12 (aperture_end (mmu_info mmu))) < 2 ^ 20"
    by (simp add: unat_drop_bit less_mult_imp_div_less)
  with l show n: "lo + n \<le> 2 ^ 20" by linarith
  from l show d: "\<forall>(a, b) \<in> kv_iova (V s). b < lo \<or> lo + n \<le> a" by fastforce
  show "pte (mmu_info mmu) p = dummy_page_pteval (mmu_info mmu)" if "lo \<le> p" "p < lo + n" for p
  proof -
    have "p < 2 ^ 20" using that n by linarith
    moreover have "\<forall>(a, b) \<in> kv_iova (V s). p < a \<or> b < p" using d that by fastforce
    ultimately show ?thesis using assms(2) by (simp add: dma_inv_def)
  qed
qed

lemma alloc_buffer_pages:
  assumes "pages_law env I V" "I s" "alloc_buffer env (page n) s = (r, s')" "n \<le> 2 ^ 20"
  shows "I s' \<and> (case r of None \<Rightarrow> V s' = V s
    | Some pgs \<Rightarrow> length pgs = n \<and> distinct pgs \<and> set pgs \<inter> kv_pages (V s) = {} \<and>
        V s' = (V s)\<lparr>kv_pages := kv_pages (V s) \<union> set pgs\<rparr>)"
proof -
  have "drop_bit 12 (page n) = word_of_nat n" using assms(4) by (intro drop_page) simp
  then have "unat (ucast (drop_bit 12 (page n)) :: u32) = n"
    using assms(4) by (simp add: ucast_of_nat_down unat_of_nat_u32)
  then show ?thesis
    using assms(2,3) alloc_buffer_loop_pages [OF assms(1,2), of n "[]" r s']
    by (auto simp: alloc_buffer_def Let_def split: if_splits option.splits)
qed

text \<open>Giving a range and the pages back.\<close>

lemma give_back:
  assumes "kernel_ok env I V" "I s" "n \<le> 2 ^ 20" "length pgs = n"
    and "V s = (V s0)\<lparr>kv_iova := insert (lo, hi) (kv_iova (V s0)), kv_pages := kv_pages (V s0) \<union> set pgs\<rparr>"
    and "(lo, hi) \<notin> kv_iova (V s0)" "set pgs \<inter> kv_pages (V s0) = {}"
    and "s' = free_iova (dma_of env) (lo, hi) (free_buffer env pgs (page n) s)"
  shows "I s' \<and> V s' = V s0"
proof -
  have "drop_bit 12 (page n) = word_of_nat n" using assms(3) by (intro drop_page) simp
  then have cnt: "unat (ucast (drop_bit 12 (page n)) :: u32) = n"
    using assms(3) by (simp add: ucast_of_nat_down unat_of_nat_u32)
  from assms(1) have l: "pages_law env I V" "iova_law (dma_of env) I V" by (simp_all add: kernel_ok_def)
  note f = free_buffer_pages [OF l(1) assms(2), of pgs "page n"]
  then have fI: "I (free_buffer env pgs (page n) s)" by simp
  have "kv_pages (V s0) \<union> set pgs - set pgs = kv_pages (V s0)" using assms(7) by auto
  then have "V (free_buffer env pgs (page n) s) = (V s0)\<lparr>kv_iova := insert (lo, hi) (kv_iova (V s0))\<rparr>"
    using f assms(4,5) by (simp add: cnt)
  with iova_lawD(3) [OF l(2) fI, of "(lo, hi)"] assms(6) show ?thesis by (simp add: assms(8))
qed

text \<open>
  The end of an allocation that has its range and pages: with a kernel mapping the buffer
  is entered in the list.
\<close>

lemma dma_alloc_enters:
  assumes n: "0 < n" "lo + n \<le> 2 ^ 20" "0 < lo"
    and ap: "\<forall>(a, b) \<in> kv_iova (V s). b < lo \<or> lo + n \<le> a" and hi: "Suc hi = lo + n"
    and b: "length pgs = n" "distinct pgs" "set pgs \<inter> kv_pages (V s) = {}"
    and V2: "V s2 = (V s)\<lparr>kv_iova := insert (lo, hi) (kv_iova (V s)), kv_pages := kv_pages (V s) \<union> set pgs\<rparr>"
    and m: "mmub.buf_mapped al I V lo as pgs (mmu_info mmu) (V s2) info1 s3"
    and v: "va \<noteq> 0" "va \<notin> kv_vmap (V s) - {0}" "V s4 = (V s3)\<lparr>kv_vmap := insert va (kv_vmap (V s3))\<rparr>"
    and mmu': "mmu' = mmu\<lparr>mmu_info := info1, vma_list := \<lparr>vm_pages = pgs, ipu6_iova = page lo, vm_vaddr = va, vm_size = page n\<rparr> # vma_list mmu\<rparr>"
  shows "buf_allocated V n lo as pgs va mmu s mmu' s4"
proof -
  have "hi = lo + n - 1" using hi n(1) by simp
  then have "V s4 = \<lparr>kv_pages = kv_pages (V s) \<union> set pgs, kv_bus = kv_bus (V s) + mset (zip (map page as) pgs),
      kv_iova = insert (lo, lo + n - 1) (kv_iova (V s)), kv_vmap = insert va (kv_vmap (V s))\<rparr>"
    using m v V2 by (intro kview.equality) (simp_all add: mmub.buf_mapped_def)
  moreover have "length as = n" using m b(1) by (simp add: mmub.buf_mapped_def)
  ultimately show ?thesis
    using m v n ap hi b unfolding buf_allocated_def mmub.buf_mapped_def mmu' by auto
qed

text \<open>Without a kernel mapping the pages mapped so far, the range and the memory are given back.\<close>

lemma dma_alloc_undone:
  assumes K: "kernel_ok env I V" and n: "n \<le> 2 ^ 20" "length pgs = n"
    and V2: "V s2 = (V s)\<lparr>kv_iova := insert (lo, hi) (kv_iova (V s)), kv_pages := kv_pages (V s) \<union> set pgs\<rparr>"
    and new: "(lo, hi) \<notin> kv_iova (V s)" "set pgs \<inter> kv_pages (V s) = {}"
    and du: "\<And>p. lo \<le> p \<Longrightarrow> p < lo + n \<Longrightarrow> pte i0 p = dummy_page_pteval i0"
    and m: "mmub.buf_mapped (page_env (dma_of env)) I V lo as (take k pgs) i0 (V s2) info1 s4" "length as \<le> n"
  shows "\<exists>i s5 s'. dma_unwind ipu6_mmu_unmap ipu6_mmu_iova_to_phys (dma_of env) lo (length as) info1 s4 = Some (i, s5) \<and>
    s' = free_iova (dma_of env) (lo, hi) (free_buffer env pgs (page n) s5) \<and>
    mmu_inv_view (page_env (dma_of env)) I V i s' \<and> V s' = V s \<and> dummy_page_pteval i = dummy_page_pteval i0 \<and>
    (\<forall>p < 2 ^ 20. pte i p = pte i0 p) \<and> (\<forall>p < 2 ^ 20. page_live i0 p \<longrightarrow> page_live i p)"
proof -
  from K have b: "bus_law (dma_of env) I V" by (simp add: kernel_ok_def)
  obtain i s5 where un:
    "dma_unwind ipu6_mmu_unmap ipu6_mmu_iova_to_phys (dma_of env) lo (length as) info1 s4 = Some (i, s5)"
    "mmub.buf_mapped (page_env (dma_of env)) I V lo [] [] i0 (V s2) i s5"
    using mmub.dma_unwind_all [OF m(1) b] m(2) du by force
  let ?s = "free_iova (dma_of env) (lo, hi) (free_buffer env pgs (page n) s5)"
  from un(2) have u5: "mmu_inv_view (page_env (dma_of env)) I V i s5" "I s5" "V s5 = V s2"
    "dummy_page_pteval i = dummy_page_pteval i0" "\<forall>p < 2 ^ 20. pte i p = pte i0 p"
    "\<forall>p < 2 ^ 20. page_live i0 p \<longrightarrow> page_live i p"
    by (auto simp: mmub.buf_mapped_def mmu_inv_view_def)
  from give_back [OF K u5(2) n _ new refl] u5(3) V2 have "I ?s" "V ?s = V s" by simp_all
  moreover from this u5(1) have "mmu_inv_view (page_env (dma_of env)) I V i ?s" by (simp add: mmu_inv_view_def)
  ultimately show ?thesis using un(1) u5 by auto
qed

lemma dma_alloc_mapped:
  assumes K: "kernel_ok env I V" and inv: "dma_inv env I V mmu s" and n: "n = buf_pages sz" "0 < n"
    and sz: "ALIGN_PAGE sz = page n" "unat (drop_bit 12 (ALIGN_PAGE sz)) = n"
    and kz: "kzalloc_ok (dma_of env) s"
    and io: "alloc_iova (dma_of env) n (drop_bit 12 (aperture_end (mmu_info mmu))) s = (Some (lo, hi), s1)"
    and bf: "alloc_buffer env (page n) s1 = (Some pgs, s2)"
  shows "\<exists>r mmu' s'. ipu6_dma_alloc env sz mmu s = Some (r, mmu', s') \<and>
    mmu_inv_view (page_env (dma_of env)) I V (mmu_info mmu') s' \<and>
    dummy_page_pteval (mmu_info mmu') = dummy_page_pteval (mmu_info mmu) \<and>
    (\<forall>p < 2 ^ 20. page_live (mmu_info mmu) p \<longrightarrow> page_live (mmu_info mmu') p) \<and>
    (case r of
       None \<Rightarrow> V s' = V s \<and> mmu' = mmu\<lparr>mmu_info := mmu_info mmu'\<rparr> \<and>
         (\<forall>p < 2 ^ 20. pte (mmu_info mmu') p = pte (mmu_info mmu) p)
     | Some (va, h) \<Rightarrow> \<exists>as. h = page lo \<and> buf_allocated V n lo as pgs va mmu s mmu' s')"
proof -
  let ?al = "page_env (dma_of env)"
  from K have l: "pages_law env I V" "iova_law (dma_of env) I V" "bus_law (dma_of env) I V" "vmap_law env I V"
    by (simp_all add: kernel_ok_def)
  note r = range_fresh [OF l(2) inv n(2) io]
  have n20: "n \<le> 2 ^ 20" using r(4) by linarith
  from alloc_buffer_pages [OF l(1) r(1) bf n20] have b: "I s2" "length pgs = n" "distinct pgs"
    "set pgs \<inter> kv_pages (V s) = {}" "V s2 = (V s1)\<lparr>kv_pages := kv_pages (V s) \<union> set pgs\<rparr>"
    by (simp_all add: r(6))
  have V2: "V s2 = (V s)\<lparr>kv_iova := insert (lo, hi) (kv_iova (V s)), kv_pages := kv_pages (V s) \<union> set pgs\<rparr>"
    using b(5) r(6) by simp
  have new: "(lo, hi) \<notin> kv_iova (V s)" using r(3,5) n(2) by fastforce
  obtain m all info1 s3 where lp:
    "dma_map_loop (ipu6_mmu_map ?al) (dma_of env) lo 0 pgs (mmu_info mmu) s2 = (m, all, info1, s3)"
    by (metis prod_cases4)
  have "mmu_inv_view ?al I V (mmu_info mmu) s2" using inv b(1) by (simp add: dma_inv_def mmu_inv_view_def)
  then have start: "mmub.buf_mapped ?al I V lo [] [] (mmu_info mmu) (V s2) (mmu_info mmu) s2"
    using r(4) by (auto simp: mmub.buf_mapped_def)
  from mmub.dma_map_loop_mapped [OF start l(3), of pgs m all info1 s3] r(4,7) lp b(2) obtain as k where
    as: "m = length as" "k \<le> n" "all \<longrightarrow> k = n" "mmub.buf_mapped ?al I V lo as (take k pgs) (mmu_info mmu) (V s2) info1 s3"
    by auto
  obtain va s4 where v: "(if all then vmap env pgs s3 else (0, s3)) = (va, s4)" by fastforce
  have I3: "mmu_inv_view ?al I V info1 s3" "I s3" using as(4) by (simp_all add: mmub.buf_mapped_def mmu_inv_view_def)
  have v4: "I s4 \<and> va \<notin> kv_vmap (V s) - {0} \<and> V s4 = (if va = 0 then V s3 else (V s3)\<lparr>kv_vmap := insert va (kv_vmap (V s3))\<rparr>)"
  proof (cases all)
    case True
    with v vmap_lawD(1) [OF l(4) I3(2), of pgs va s4] as(4) V2 show ?thesis by (auto simp: mmub.buf_mapped_def)
  next
    case False
    with v I3(2) show ?thesis by auto
  qed
  have tk: "take (Suc hi - lo) pgs = pgs" using r(3) b(2) by simp
  have i4: "mmu_inv_view ?al I V info1 s4" using I3(1) v4 by (simp add: mmu_inv_view_def)
  show ?thesis
  proof (cases "va = 0")
    case False
    with v as(2,3) have "k = n" by (auto split: if_splits)
    with as(4) b(2) have m: "mmub.buf_mapped ?al I V lo as pgs (mmu_info mmu) (V s2) info1 s3" "length as = n"
      by (simp_all add: mmub.buf_mapped_def)
    let ?mmu = "mmu\<lparr>mmu_info := info1, vma_list := \<lparr>vm_pages = pgs, ipu6_iova = page lo, vm_vaddr = va, vm_size = page n\<rparr> # vma_list mmu\<rparr>"
    have "ipu6_dma_alloc env sz mmu s = Some (Some (va, page lo), ?mmu, s4)"
      using kz io bf lp v False by (simp add: ipu6_dma_alloc_def sz(1) sz(2) [unfolded sz(1)] tk Let_def)
    moreover have "buf_allocated V n lo as pgs va mmu s ?mmu s4"
      using dma_alloc_enters [OF n(2) r(4,2,5,3) b(2-4) V2 m(1) False _ _ refl] v4 False by simp
    moreover have "dummy_page_pteval info1 = dummy_page_pteval (mmu_info mmu)"
      "\<forall>p < 2 ^ 20. page_live (mmu_info mmu) p \<longrightarrow> page_live info1 p"
      using m(1) by (simp_all add: mmub.buf_mapped_def)
    ultimately show ?thesis using i4 by auto
  next
    case True
    then have "mmub.buf_mapped ?al I V lo as (take k pgs) (mmu_info mmu) (V s2) info1 s4"
      using as(4) v4 i4 by (simp add: mmub.buf_mapped_def)
    moreover have "length as \<le> n" using as(2,4) b(2) by (simp add: mmub.buf_mapped_def)
    ultimately obtain info2 s5 s' where un:
      "dma_unwind ipu6_mmu_unmap ipu6_mmu_iova_to_phys (dma_of env) lo (length as) info1 s4 = Some (info2, s5)"
      "s' = free_iova (dma_of env) (lo, hi) (free_buffer env pgs (page n) s5)"
      "mmu_inv_view ?al I V info2 s'" "V s' = V s" "dummy_page_pteval info2 = dummy_page_pteval (mmu_info mmu)"
      "\<forall>p < 2 ^ 20. pte info2 p = pte (mmu_info mmu) p" "\<forall>p < 2 ^ 20. page_live (mmu_info mmu) p \<longrightarrow> page_live info2 p"
      using dma_alloc_undone [OF K n20 b(2) V2 new b(4) r(7)] by blast
    have "ipu6_dma_alloc env sz mmu s = Some (None, mmu\<lparr>mmu_info := info2\<rparr>, s')"
      using kz io bf lp v True un(1,2) as(1) by (simp add: ipu6_dma_alloc_def sz(1) sz(2) [unfolded sz(1)] tk Let_def)
    with un(3-7) show ?thesis by auto
  qed
qed

text \<open>
  The outcome of an allocation: it never follows a missing table, it keeps the invariant, a
  failure leaves no trace, and a success maps the buffer.
\<close>

lemma dma_alloc_cases:
  assumes K: "kernel_ok env I V" and inv: "dma_inv env I V mmu s" and sz: "0 < sz" "sz \<le> 0x7fffffffffffffff"
  shows "\<exists>r mmu' s'. ipu6_dma_alloc env sz mmu s = Some (r, mmu', s') \<and> dma_inv env I V mmu' s' \<and>
    dummy_page_pteval (mmu_info mmu') = dummy_page_pteval (mmu_info mmu) \<and>
    (\<forall>p < 2 ^ 20. page_live (mmu_info mmu) p \<longrightarrow> page_live (mmu_info mmu') p) \<and>
    (case r of
       None \<Rightarrow> V s' = V s \<and> mmu' = mmu\<lparr>mmu_info := mmu_info mmu'\<rparr> \<and>
         (\<forall>p < 2 ^ 20. pte (mmu_info mmu') p = pte (mmu_info mmu) p)
     | Some (va, h) \<Rightarrow> \<exists>lo as pgs. h = page lo \<and> buf_allocated V (buf_pages sz) lo as pgs va mmu s mmu' s')"
proof -
  let ?n = "buf_pages sz" and ?al = "page_env (dma_of env)"
  note z = ALIGN_PAGE_pages [OF sz]
  from K have l: "pages_law env I V" "iova_law (dma_of env) I V" by (simp_all add: kernel_ok_def)
  have I: "mmu_inv_view ?al I V (mmu_info mmu) s" "I s" using inv by (simp_all add: dma_inv_def mmu_inv_view_def)
  have same: "dma_inv env I V mmu s'" if "I s'" "V s' = V s" for s'
    using dma_inv_frame [OF inv mmut.inv_change [OF I(1) that(1)]] that(2) by simp
  show ?thesis
  proof (cases "kzalloc_ok (dma_of env) s")
    case False
    then show ?thesis using inv by (simp add: ipu6_dma_alloc_def)
  next
    case kz: True
    obtain x s1 where io: "alloc_iova (dma_of env) ?n (drop_bit 12 (aperture_end (mmu_info mmu))) s = (x, s1)" by fastforce
    show ?thesis
    proof (cases x)
      case None
      from iova_lawD(1) [OF l(2) I(2) z(3) io [unfolded None]] same [of s1] kz io None
      show ?thesis by (simp add: ipu6_dma_alloc_def z(1) z(2) [unfolded z(1)] Let_def)
    next
      case (Some y)
      obtain lo hi where y: "y = (lo, hi)" by fastforce
      note io' = io [unfolded Some y]
      note r = range_fresh [OF l(2) inv z(3) io']
      obtain w s2 where bf: "alloc_buffer env (page ?n) s1 = (w, s2)" by fastforce
      have n20: "?n \<le> 2 ^ 20" using r(4) by linarith
      show ?thesis
      proof (cases w)
        case None
        from alloc_buffer_pages [OF l(1) r(1) bf n20] None have s2: "I s2" "V s2 = V s1" by simp_all
        have "(lo, hi) \<notin> kv_iova (V s)" using r(3,5) z(3) by fastforce
        with iova_lawD(3) [OF l(2) s2(1), of "(lo, hi)"] s2(2) r(6)
        have "I (free_iova (dma_of env) (lo, hi) s2)" "V (free_iova (dma_of env) (lo, hi) s2) = V s" by simp_all
        with same [of "free_iova (dma_of env) (lo, hi) s2"] kz io' bf None show ?thesis
          by (simp add: ipu6_dma_alloc_def z(1) z(2) [unfolded z(1)] Let_def)
      next
        case (Some pgs)
        from dma_alloc_mapped [OF K inv refl z(3,1,2) kz io' bf [unfolded Some]] obtain rr mmu' s' where
          a: "ipu6_dma_alloc env sz mmu s = Some (rr, mmu', s')" "mmu_inv_view ?al I V (mmu_info mmu') s'"
          "dummy_page_pteval (mmu_info mmu') = dummy_page_pteval (mmu_info mmu)"
          "\<forall>p < 2 ^ 20. page_live (mmu_info mmu) p \<longrightarrow> page_live (mmu_info mmu') p"
          "case rr of None \<Rightarrow> V s' = V s \<and> mmu' = mmu\<lparr>mmu_info := mmu_info mmu'\<rparr> \<and>
              (\<forall>p < 2 ^ 20. pte (mmu_info mmu') p = pte (mmu_info mmu) p)
            | Some (va, h) \<Rightarrow> \<exists>as. h = page lo \<and> buf_allocated V ?n lo as pgs va mmu s mmu' s'" by blast
        have "dma_inv env I V mmu' s'"
        proof (cases rr)
          case None
          with a(5) dma_inv_frame [OF inv a(2) _ _ a(3)] show ?thesis by simp
        next
          case (Some v)
          then obtain va h as where "v = (va, h)" "buf_allocated V ?n lo as pgs va mmu s mmu' s'"
            using a(5) by (cases v) auto
          with inv a(2,3) show ?thesis unfolding dma_inv_def by (auto simp: buf_allocated_def)
        qed
        with a(1,3-5) show ?thesis by (auto split: option.splits)
      qed
    qed
  qed
qed

section \<open>Freeing\<close>

context buffer_mapper
begin

lemma unmap_pages_bus:
  assumes "bus_law env I V" "I s" "length as = length pgs" "mset (zip (map page as) pgs) \<subseteq># kv_bus (V s)"
    and "\<And>j. j < length as \<Longrightarrow> tphys i (page (lo + j)) = Some (page (as ! j))"
  shows "\<exists>s'. dma_unmap_pages tphys env i (map (\<lambda>j. lo + j) [0..<length as]) s = Some s' \<and> I s' \<and>
    V s' = (V s)\<lparr>kv_bus := kv_bus (V s) - mset (zip (map page as) pgs)\<rparr>"
  using assms
proof (induction as arbitrary: pgs lo s)
  case Nil
  then show ?case by simp
next
  case (Cons a as)
  then obtain pg pgs' where pgs: "pgs = pg # pgs'" by (cases pgs) auto
  have upt: "map (\<lambda>j. lo + j) [0..<length (a # as)] = lo # map (\<lambda>j. Suc lo + j) [0..<length as]"
    by (simp add: upt_conv_Cons map_Suc_upt [symmetric] del: upt_Suc)
  have t: "tphys i (page lo) = Some (page a)" using Cons.prems(5) [of 0] by simp
  have mem: "(page a, pg) \<in># kv_bus (V s)"
    using Cons.prems(4) by (simp add: pgs) (metis insert_subset_eq_iff)
  note u = bus_lawD(3) [OF Cons.prems(1,2) mem]
  let ?s = "dma_unmap_page env (page a) s"
  have sub: "mset (zip (map page as) pgs') \<subseteq># kv_bus (V ?s)"
    using Cons.prems(4) u by (simp add: pgs insert_subset_eq_iff)
  have "tphys i (page (Suc lo + j)) = Some (page (as ! j))" if "j < length as" for j
    using Cons.prems(5) [of "Suc j"] that by simp
  moreover have "I ?s" "length as = length pgs'" using u Cons.prems(3) pgs by simp_all
  ultimately obtain s' where
    "dma_unmap_pages tphys env i (map (\<lambda>j. Suc lo + j) [0..<length as]) ?s = Some s'" "I s'"
    "V s' = (V ?s)\<lparr>kv_bus := kv_bus (V ?s) - mset (zip (map page as) pgs')\<rparr>"
    using Cons.IH [OF Cons.prems(1) _ _ sub] by blast
  then show ?case unfolding upt using t u by (intro exI [of _ s'] conjI) (simp_all only: dma_unmap_pages.simps option.case, simp_all add: pgs)
qed

end

text \<open>A buffer as the list of buffers, the page tables and the kernel see it.\<close>

definition buf_at :: "('s \<Rightarrow> kview) \<Rightarrow> nat \<Rightarrow> nat list \<Rightarrow> vm_info \<Rightarrow> ipu6_mmu_info \<Rightarrow> 's \<Rightarrow> bool" where
  "buf_at V lo as vi info s \<longleftrightarrow> ipu6_iova vi = page lo \<and> vm_size vi = page (length as) \<and> vm_vaddr vi \<noteq> 0 \<and>
     0 < length as \<and> length (vm_pages vi) = length as \<and> lo + length as \<le> 2 ^ 20 \<and> (\<forall>a \<in> set as. a < 2 ^ 27) \<and>
     (lo, lo + length as - 1) \<in> kv_iova (V s) \<and>
     (\<forall>j < length as. pte info (lo + j) = word_of_nat (as ! j) \<and> page_live info (lo + j))"

lemma buf_at_tphys:
  assumes "mmu_inv_view al I V info s" "buf_at V lo as vi info s" "j < length as"
  shows "ipu6_mmu_iova_to_phys info (page (lo + j)) = Some (page (as ! j))"
proof -
  have j: "lo + j < 2 ^ 20" "page_live info (lo + j)" "pte info (lo + j) = word_of_nat (as ! j)" "as ! j < 2 ^ 27"
    using assms(2,3) by (auto simp: buf_at_def)
  moreover from j(4) have "unat (word_of_nat (as ! j) :: u32) = as ! j" by (intro unat_of_nat_u32) simp
  ultimately show ?thesis using mmut.tphys [OF assms(1) j(1,2)] by simp
qed

lemma dma_free_core:
  assumes K: "kernel_ok env I V" and inv: "mmu_inv_view (page_env (dma_of env)) I V (mmu_info mmu) s"
    and b: "buf_at V lo as vi (mmu_info mmu) s" and g: "get_vm_info mmu (page lo) = Some vi"
    and bus: "mset (zip (map page as) (vm_pages vi)) \<subseteq># kv_bus (V s)"
    and sz: "0 < sz" "sz \<le> 0x7fffffffffffffff" "buf_pages sz = length as"
  shows "\<exists>mmu' s'. ipu6_dma_free dv env sz va (page lo) mmu s d =
      Some (mmu', s', snd (run_state (tlb_invalidate dv mmu') d)) \<and>
    mmu_inv_view (page_env (dma_of env)) I V (mmu_info mmu') s' \<and>
    dummy_page_pteval (mmu_info mmu') = dummy_page_pteval (mmu_info mmu) \<and>
    mmu' = mmu\<lparr>mmu_info := mmu_info mmu', vma_list := remove1 vi (vma_list mmu)\<rparr> \<and>
    (\<forall>p < 2 ^ 20. pte (mmu_info mmu') p =
       (if lo \<le> p \<and> p < lo + length as then dummy_page_pteval (mmu_info mmu) else pte (mmu_info mmu) p)) \<and>
    (\<forall>p < 2 ^ 20. page_live (mmu_info mmu) p \<longrightarrow> page_live (mmu_info mmu') p) \<and>
    V s' = \<lparr>kv_pages = kv_pages (V s) - set (vm_pages vi), kv_bus = kv_bus (V s) - mset (zip (map page as) (vm_pages vi)),
            kv_iova = kv_iova (V s) - {(lo, lo + length as - 1)}, kv_vmap = kv_vmap (V s) - {va}\<rparr>"
proof -
  let ?n = "length as" and ?al = "page_env (dma_of env)"
  from K have l: "pages_law env I V" "iova_law (dma_of env) I V" "bus_law (dma_of env) I V" "vmap_law env I V"
    by (simp_all add: kernel_ok_def)
  note z = ALIGN_PAGE_pages [OF sz(1,2), unfolded sz(3)]
  have I: "I s" using inv by (simp add: mmu_inv_view_def)
  have ba: "vm_vaddr vi \<noteq> 0" "0 < ?n" "length (vm_pages vi) = ?n" "lo + ?n \<le> 2 ^ 20" "(lo, lo + ?n - 1) \<in> kv_iova (V s)"
    using b by (simp_all add: buf_at_def)
  have "unat (drop_bit 12 (page lo)) = lo" using ba(2,4) by (simp add: drop_page unat_of_nat_u64)
  moreover have "lo \<le> lo + ?n - 1" using ba(2) by linarith
  ultimately have f: "find_iova (dma_of env) (unat (drop_bit 12 (page lo))) s = Some (lo, lo + ?n - 1)"
    using iova_lawD(4) [OF l(2) I ba(5) order_refl] by simp
  have v: "I (vunmap env va s)" "V (vunmap env va s) = (V s)\<lparr>kv_vmap := kv_vmap (V s) - {va}\<rparr>"
    using vmap_lawD(2) [OF l(4) I] by simp_all
  obtain s2 where u: "dma_unmap_pages ipu6_mmu_iova_to_phys (dma_of env) (mmu_info mmu) (map (\<lambda>j. lo + j) [0..<?n]) (vunmap env va s) = Some s2"
    "I s2" "V s2 = (V s)\<lparr>kv_vmap := kv_vmap (V s) - {va}, kv_bus := kv_bus (V s) - mset (zip (map page as) (vm_pages vi))\<rparr>"
    using mmub.unmap_pages_bus [OF l(3) v(1) ba(3) [symmetric], of "mmu_info mmu" lo] bus buf_at_tphys [OF inv b] v(2) by auto
  let ?info = "ipu6_mmu_unmap (mmu_info mmu) (page lo) (page ?n)"
  let ?mmu = "mmu\<lparr>vma_list := remove1 vi (vma_list mmu), mmu_info := ?info\<rparr>"
  let ?s3 = "free_buffer env (vm_pages vi) (page ?n) s2"
  let ?s = "free_iova (dma_of env) (lo, lo + ?n - 1) ?s3"
  have live: "page_live (mmu_info mmu) p" if "lo \<le> p" "p < lo + ?n" for p
    using b that le_add_diff_inverse [OF that(1)] by (auto simp: buf_at_def) (metis less_diff_conv2 that(1) add.commute)
  note un = mmut.unmap [OF inv ba(2,4) live]
  have "drop_bit 12 (page ?n) = word_of_nat ?n" using ba(4) by (intro drop_page) simp
  then have cnt: "unat (ucast (drop_bit 12 (page ?n)) :: u32) = ?n"
    using ba(4) by (simp add: ucast_of_nat_down unat_of_nat_u32)
  note fb = free_buffer_pages [OF l(1) u(2), of "vm_pages vi" "page ?n", unfolded cnt]
  then have "I ?s3" by simp
  note fi = iova_lawD(3) [OF l(2) this, of "(lo, lo + ?n - 1)"]
  have "Suc (lo + ?n - 1) - lo = ?n" using ba(2) by simp
  then have "ipu6_dma_free dv env sz va (page lo) mmu s d = Some (?mmu, ?s, snd (run_state (tlb_invalidate dv ?mmu) d))"
    using f g ba(1) u(1) z(2) by (simp add: ipu6_dma_free_def z(1) Let_def)
  moreover have "mmu_inv_view ?al I V ?info ?s" by (rule mmut.inv_change [OF conjunct1 [OF un] conjunct1 [OF fi]])
  moreover have "V ?s = \<lparr>kv_pages = kv_pages (V s) - set (vm_pages vi),
      kv_bus = kv_bus (V s) - mset (zip (map page as) (vm_pages vi)),
      kv_iova = kv_iova (V s) - {(lo, lo + length as - 1)}, kv_vmap = kv_vmap (V s) - {va}\<rparr>"
    using fi fb u(3) ba(3) by (intro kview.equality) simp_all
  ultimately show ?thesis using un by (intro exI [of _ ?mmu] exI [of _ ?s]) simp
qed

section \<open>All buffers of an instance\<close>

text \<open>
  The buffers on the list, each with its device page and its bus frames: all are mapped,
  their ranges do not overlap, and their bus mappings are all there.
\<close>

definition buf_bus :: "vm_info \<times> nat \<times> nat list \<Rightarrow> (u64 \<times> nat) multiset" where
  "buf_bus b = (case b of (vi, lo, as) \<Rightarrow> mset (zip (map page as) (vm_pages vi)))"

definition apart :: "vm_info \<times> nat \<times> nat list \<Rightarrow> vm_info \<times> nat \<times> nat list \<Rightarrow> bool" where
  "apart b c \<longleftrightarrow> fst (snd b) + length (snd (snd b)) \<le> fst (snd c) \<or> fst (snd c) + length (snd (snd c)) \<le> fst (snd b)"

definition bufs_ok :: "('s \<Rightarrow> kview) \<Rightarrow> ipu6_mmu \<Rightarrow> 's \<Rightarrow> (vm_info \<times> nat \<times> nat list) list \<Rightarrow> bool" where
  "bufs_ok V mmu s bs \<longleftrightarrow> vma_list mmu = map fst bs \<and>
     (\<forall>(vi, lo, as) \<in> set bs. buf_at V lo as vi (mmu_info mmu) s) \<and> sorted_wrt apart bs \<and>
     sum_list (map buf_bus bs) \<subseteq># kv_bus (V s)"

lemma apart_sym: "apart b c = apart c b"
  by (auto simp: apart_def)

lemma buf_at_frame:
  assumes "buf_at V lo as vi info s" "(lo, lo + length as - 1) \<in> kv_iova (V s')"
    and "\<And>p. lo \<le> p \<Longrightarrow> p < lo + length as \<Longrightarrow> pte info' p = pte info p"
    and "\<forall>p < 2 ^ 20. page_live info p \<longrightarrow> page_live info' p"
  shows "buf_at V lo as vi info' s'"
proof -
  have "lo + j < 2 ^ 20" if "j < length as" for j
    using assms(1) that by (auto simp: buf_at_def)
  with assms show ?thesis by (simp add: buf_at_def)
qed

lemma buf_allocated_at:
  assumes "buf_allocated V n lo as pgs va mmu s mmu' s'" "0 < n"
  shows "buf_at V lo as \<lparr>vm_pages = pgs, ipu6_iova = page lo, vm_vaddr = va, vm_size = page n\<rparr> (mmu_info mmu') s'"
  using assms by (auto simp: buf_allocated_def buf_at_def)

lemma bufs_ok_alloc:
  assumes ok: "bufs_ok V mmu s bs" and a: "buf_allocated V n lo as pgs va mmu s mmu' s'" and n: "0 < n"
    and live: "\<forall>p < 2 ^ 20. page_live (mmu_info mmu) p \<longrightarrow> page_live (mmu_info mmu') p"
  shows "bufs_ok V mmu' s' ((\<lparr>vm_pages = pgs, ipu6_iova = page lo, vm_vaddr = va, vm_size = page n\<rparr>, lo, as) # bs)"
proof -
  let ?vi = "\<lparr>vm_pages = pgs, ipu6_iova = page lo, vm_vaddr = va, vm_size = page n\<rparr>"
  have len: "length as = n" using a by (simp add: buf_allocated_def)
  have old: "buf_at V l as' vi (mmu_info mmu') s' \<and> apart (?vi, lo, as) (vi, l, as')" if "(vi, l, as') \<in> set bs" for vi l as'
  proof -
    from ok that have b: "buf_at V l as' vi (mmu_info mmu) s" by (auto simp: bufs_ok_def)
    then have m: "(l, l + length as' - 1) \<in> kv_iova (V s)" "l + length as' \<le> 2 ^ 20" "0 < length as'"
      by (simp_all add: buf_at_def)
    with a have d: "l + length as' - 1 < lo \<or> lo + n \<le> l" by (auto simp: buf_allocated_def)
    have "pte (mmu_info mmu') p = pte (mmu_info mmu) p" if "l \<le> p" "p < l + length as'" for p
      using a d that m(2) by (auto simp: buf_allocated_def)
    moreover have "(l, l + length as' - 1) \<in> kv_iova (V s')" using a m(1) by (simp add: buf_allocated_def)
    ultimately have "buf_at V l as' vi (mmu_info mmu') s'" by (intro buf_at_frame [OF b _ _ live])
    then show ?thesis using d m(3) by (auto simp: apart_def len)
  qed
  have "vma_list mmu' = ?vi # vma_list mmu"
    using a unfolding buf_allocated_def by (metis (no_types, lifting) ipu6_mmu.select_convs(4) ipu6_mmu.surjective ipu6_mmu.update_convs(4))
  moreover have "kv_bus (V s') = kv_bus (V s) + buf_bus (?vi, lo, as)"
    using a by (simp add: buf_allocated_def buf_bus_def)
  ultimately show ?thesis
    using ok old buf_allocated_at [OF a n] unfolding bufs_ok_def
    by (auto simp: subset_mset.add_increasing add.commute)
qed

lemma bufs_ok_same:
  assumes "bufs_ok V mmu s bs" "V s' = V s" "vma_list mmu' = vma_list mmu"
    and "\<forall>p < 2 ^ 20. pte (mmu_info mmu') p = pte (mmu_info mmu) p"
    and "\<forall>p < 2 ^ 20. page_live (mmu_info mmu) p \<longrightarrow> page_live (mmu_info mmu') p"
  shows "bufs_ok V mmu' s' bs"
proof -
  have "buf_at V l as vi (mmu_info mmu') s'" if "(vi, l, as) \<in> set bs" for vi l as
  proof -
    from assms(1) that have b: "buf_at V l as vi (mmu_info mmu) s" by (auto simp: bufs_ok_def)
    then have "l + length as \<le> 2 ^ 20" "(l, l + length as - 1) \<in> kv_iova (V s')" by (simp_all add: buf_at_def assms(2))
    with assms(4) show ?thesis by (intro buf_at_frame [OF b _ _ assms(5)]) simp_all
  qed
  then show ?thesis using assms(1-3) by (auto simp: bufs_ok_def)
qed

lemma find_middle: "\<forall>x \<in> set xs. \<not> P x \<Longrightarrow> P v \<Longrightarrow> List.find P (xs @ v # ys) = Some v"
  by (induction xs) auto

lemma remove1_middle: "v \<notin> set xs \<Longrightarrow> remove1 v (xs @ v # ys) = xs @ ys"
  by (simp add: remove1_append)

lemma page_le: "a < 2 ^ 52 \<Longrightarrow> b < 2 ^ 52 \<Longrightarrow> page a \<le> page b \<longleftrightarrow> a \<le> b"
  by (simp add: word_le_nat_alt unat_page)

lemma page_less: "a < 2 ^ 52 \<Longrightarrow> b < 2 ^ 52 \<Longrightarrow> page a < page b \<longleftrightarrow> a < b"
  by (simp add: word_less_nat_alt unat_page)

lemma buf_at_contains:
  assumes "buf_at V l as vi info s" "lo < 2 ^ 20"
  shows "in_vm_info (page lo) vi \<longleftrightarrow> l \<le> lo \<and> lo < l + length as"
proof -
  have b: "l < 2 ^ 52" "l + length as < 2 ^ 52" "lo < 2 ^ 52" using assms by (simp_all add: buf_at_def)
  have "ipu6_iova vi = page l" "vm_size vi = page (length as)" using assms(1) by (simp_all add: buf_at_def)
  then show ?thesis by (simp add: in_vm_info_def page_add page_le [OF b(1,3)] page_less [OF b(3,2)])
qed

lemma bufs_okD: "bufs_ok V mmu s bs \<Longrightarrow> (vi, lo, as) \<in> set bs \<Longrightarrow> buf_at V lo as vi (mmu_info mmu) s"
  unfolding bufs_ok_def by blast

lemma bufs_ok_find:
  assumes "bufs_ok V mmu s (xs @ (vi, lo, as) # ys)"
  shows "get_vm_info mmu (page lo) = Some vi" "vi \<notin> set (map fst xs)"
proof -
  have v: "buf_at V lo as vi (mmu_info mmu) s" using assms by (simp add: bufs_ok_def)
  then have b: "0 < length as" "lo + length as \<le> 2 ^ 20" unfolding buf_at_def by blast+
  then have lo: "lo < 2 ^ 20" "0 < length as" by linarith+
  have no: "\<not> in_vm_info (page lo) vi'" if "(vi', l, as') \<in> set xs" for vi' l as'
  proof -
    have "buf_at V l as' vi' (mmu_info mmu) s" using that by (intro bufs_okD [OF assms]) simp
    moreover have "apart (vi', l, as') (vi, lo, as)"
      using assms that by (simp add: bufs_ok_def sorted_wrt_append)
    moreover from this lo(2) have "\<not> (l \<le> lo \<and> lo < l + length as')" unfolding apart_def snd_conv fst_conv by linarith
    ultimately show ?thesis using buf_at_contains [of V l as' vi' "mmu_info mmu" s lo] lo(1) by simp
  qed
  have yes: "in_vm_info (page lo) vi" using buf_at_contains [OF v lo(1)] lo(2) by simp
  then show "vi \<notin> set (map fst xs)" using no by auto
  have "vma_list mmu = map fst xs @ vi # map fst ys" using assms by (simp add: bufs_ok_def)
  moreover have "\<forall>x \<in> set (map fst xs). \<not> in_vm_info (page lo) x" using no by auto
  ultimately show "get_vm_info mmu (page lo) = Some vi"
    using yes find_middle [of "map fst xs" "in_vm_info (page lo)" vi "map fst ys"] by (simp add: get_vm_info_def)
qed

lemma mset_cancel_sum: "(A :: 'a multiset) + B \<subseteq># C \<Longrightarrow> A \<subseteq># C - B"
  by (metis add_diff_cancel_right' subset_mset.add_diff_assoc2 mset_subset_eq_add_left mset_subset_eq_exists_conv union_commute)

lemma bufs_ok_free:
  assumes ok: "bufs_ok V mmu s (xs @ (vi, lo, as) # ys)"
    and vma: "vma_list mmu' = remove1 vi (vma_list mmu)"
    and pt: "\<forall>p < 2 ^ 20. pte (mmu_info mmu') p =
       (if lo \<le> p \<and> p < lo + length as then dummy_page_pteval (mmu_info mmu) else pte (mmu_info mmu) p)"
    and live: "\<forall>p < 2 ^ 20. page_live (mmu_info mmu) p \<longrightarrow> page_live (mmu_info mmu') p"
    and iov: "kv_iova (V s') = kv_iova (V s) - {(lo, lo + length as - 1)}"
    and bus: "kv_bus (V s') = kv_bus (V s) - buf_bus (vi, lo, as)"
  shows "bufs_ok V mmu' s' (xs @ ys)"
proof -
  have ap: "\<And>b. b \<in> set (xs @ ys) \<Longrightarrow> apart b (vi, lo, as)"
    using ok apart_sym by (auto simp: bufs_ok_def sorted_wrt_append)
  have at: "buf_at V l as' vi' (mmu_info mmu') s'" if m: "(vi', l, as') \<in> set (xs @ ys)" for vi' l as'
  proof -
    from m have b: "buf_at V l as' vi' (mmu_info mmu) s" by (intro bufs_okD [OF ok]) auto
    then have c: "(l, l + length as' - 1) \<in> kv_iova (V s)" "l + length as' \<le> 2 ^ 20" "0 < length as'"
      by (simp_all add: buf_at_def)
    have v: "0 < length as" using ok by (simp add: bufs_ok_def buf_at_def)
    from ap [OF m] have d: "l + length as' \<le> lo \<or> lo + length as \<le> l" by (auto simp: apart_def)
    then have "(l, l + length as' - 1) \<noteq> (lo, lo + length as - 1)" using c(3) v by auto
    with c(1) have "(l, l + length as' - 1) \<in> kv_iova (V s')" by (simp add: iov)
    moreover have "pte (mmu_info mmu') p = pte (mmu_info mmu) p" if "l \<le> p" "p < l + length as'" for p
      using pt that c(2) d by auto
    ultimately show ?thesis by (intro buf_at_frame [OF b _ _ live])
  qed
  have "sum_list (map buf_bus (xs @ ys)) + buf_bus (vi, lo, as) \<subseteq># kv_bus (V s)"
    using ok by (simp add: bufs_ok_def ac_simps)
  then have "sum_list (map buf_bus (xs @ ys)) \<subseteq># kv_bus (V s')"
    unfolding bus by (rule mset_cancel_sum)
  moreover have "vma_list mmu' = map fst (xs @ ys)"
    using ok bufs_ok_find(2) [OF ok] remove1_middle [of vi "map fst xs" "map fst ys"] by (simp add: vma bufs_ok_def)
  ultimately show ?thesis using ok at by (auto simp: bufs_ok_def sorted_wrt_append)
qed

text \<open>Every sequence of allocations and frees of an instance that starts without buffers.\<close>

inductive dma_reach :: "'d mmio_dev \<Rightarrow> 's buf_env \<Rightarrow> ('s \<Rightarrow> bool) \<Rightarrow> ('s \<Rightarrow> kview) \<Rightarrow> ipu6_mmu \<Rightarrow> 's \<Rightarrow> bool"
  for dv env I V where
  dma_start: "dma_inv env I V mmu s \<Longrightarrow> vma_list mmu = [] \<Longrightarrow> dma_reach dv env I V mmu s"
| dma_alloc: "dma_reach dv env I V mmu s \<Longrightarrow> 0 < sz \<Longrightarrow> sz \<le> 0x7fffffffffffffff \<Longrightarrow>
    ipu6_dma_alloc env sz mmu s = Some (r, mmu', s') \<Longrightarrow> dma_reach dv env I V mmu' s'"
| dma_free: "dma_reach dv env I V mmu s \<Longrightarrow> vi \<in> set (vma_list mmu) \<Longrightarrow> 0 < sz \<Longrightarrow> sz \<le> 0x7fffffffffffffff \<Longrightarrow>
    ALIGN_PAGE sz = vm_size vi \<Longrightarrow>
    ipu6_dma_free dv env sz (vm_vaddr vi) (ipu6_iova vi) mmu s d = Some (mmu', s', d') \<Longrightarrow> dma_reach dv env I V mmu' s'"

lemma bufs_ok_free_run:
  assumes K: "kernel_ok env I V" and inv: "dma_inv env I V mmu s" and ok: "bufs_ok V mmu s bs"
    and vi: "vi \<in> set (vma_list mmu)" and sz: "0 < sz" "sz \<le> 0x7fffffffffffffff" "ALIGN_PAGE sz = vm_size vi"
  shows "\<exists>mmu' s' bs'. ipu6_dma_free dv env sz (vm_vaddr vi) (ipu6_iova vi) mmu s d =
      Some (mmu', s', snd (run_state (tlb_invalidate dv mmu') d)) \<and> dma_inv env I V mmu' s' \<and> bufs_ok V mmu' s' bs'"
proof -
  from vi ok obtain lo as where "(vi, lo, as) \<in> set bs" by (auto simp: bufs_ok_def)
  then obtain xs ys where bs: "bs = xs @ (vi, lo, as) # ys" by (meson split_list)
  note ok' = ok [unfolded bs]
  have b: "buf_at V lo as vi (mmu_info mmu) s" using ok' by (simp add: bufs_ok_def)
  then have i: "ipu6_iova vi = page lo" "vm_size vi = page (length as)" "length as < 2 ^ 52" "0 < length as"
    by (simp_all add: buf_at_def)
  note z = ALIGN_PAGE_pages [OF sz(1,2)]
  have "page (buf_pages sz) = page (length as)" using z(1) sz(3) i(2) by simp
  then have "unat (page (buf_pages sz)) = unat (page (length as))" by simp
  then have n: "buf_pages sz = length as" using z(4) i(3) by (simp add: unat_page)
  have "sum_list (map buf_bus (xs @ ys)) + buf_bus (vi, lo, as) \<subseteq># kv_bus (V s)"
    using ok' by (simp add: bufs_ok_def ac_simps)
  then have "mset (zip (map page as) (vm_pages vi)) \<subseteq># kv_bus (V s)"
    by (simp add: buf_bus_def) (metis mset_subset_eq_add_right subset_mset.order_trans)
  from dma_free_core [OF K _ b bufs_ok_find(1) [OF ok'] this sz(1,2) n, of dv "vm_vaddr vi" d] inv
  obtain mmu' s' where f: "ipu6_dma_free dv env sz (vm_vaddr vi) (page lo) mmu s d = Some (mmu', s', snd (run_state (tlb_invalidate dv mmu') d))"
    "mmu_inv_view (page_env (dma_of env)) I V (mmu_info mmu') s'"
    "dummy_page_pteval (mmu_info mmu') = dummy_page_pteval (mmu_info mmu)"
    "mmu' = mmu\<lparr>mmu_info := mmu_info mmu', vma_list := remove1 vi (vma_list mmu)\<rparr>"
    "\<forall>p < 2 ^ 20. pte (mmu_info mmu') p =
       (if lo \<le> p \<and> p < lo + length as then dummy_page_pteval (mmu_info mmu) else pte (mmu_info mmu) p)"
    "\<forall>p < 2 ^ 20. page_live (mmu_info mmu) p \<longrightarrow> page_live (mmu_info mmu') p"
    "V s' = \<lparr>kv_pages = kv_pages (V s) - set (vm_pages vi), kv_bus = kv_bus (V s) - mset (zip (map page as) (vm_pages vi)),
       kv_iova = kv_iova (V s) - {(lo, lo + length as - 1)}, kv_vmap = kv_vmap (V s) - {vm_vaddr vi}\<rparr>"
    by (auto simp: dma_inv_def)
  have vl: "vma_list mmu' = remove1 vi (vma_list mmu)" by (subst f(4)) simp
  have "bufs_ok V mmu' s' (xs @ ys)"
    by (rule bufs_ok_free [OF ok' vl f(5,6)]) (simp_all add: f(7) buf_bus_def)
  moreover have "pte (mmu_info mmu') p = dummy_page_pteval (mmu_info mmu')"
    if "p < 2 ^ 20" "\<forall>(l, h) \<in> kv_iova (V s'). p < l \<or> h < p" for p
  proof (cases "lo \<le> p \<and> p < lo + length as")
    case True
    then show ?thesis using f(3,5) that(1) by simp
  next
    case False
    then have hole: "p < lo \<or> lo + length as - 1 < p" using i(4) by linarith
    have "p < l \<or> h < p" if "(l, h) \<in> kv_iova (V s)" for l h
      using hole that \<open>\<forall>(l, h) \<in> kv_iova (V s'). p < l \<or> h < p\<close> f(7)
      by (cases "(l, h) = (lo, lo + length as - 1)") auto
    then have "\<forall>(l, h) \<in> kv_iova (V s). p < l \<or> h < p" by blast
    with inv that(1) f(3,5) False show ?thesis by (simp add: dma_inv_def)
  qed
  ultimately show ?thesis using f(1,2) i(1) by (auto simp: dma_inv_def)
qed

lemma dma_reach_ok:
  assumes "dma_reach dv env I V mmu s" "kernel_ok env I V"
  shows "\<exists>bs. dma_inv env I V mmu s \<and> bufs_ok V mmu s bs"
  using assms(1)
proof induction
  case (dma_start mmu s)
  then show ?case by (intro exI [of _ "[]"]) (simp add: bufs_ok_def)
next
  case (dma_alloc mmu s sz r mmu' s')
  then obtain bs where bs: "dma_inv env I V mmu s" "bufs_ok V mmu s bs" by blast
  note c = dma_alloc_cases [OF assms(2) bs(1) dma_alloc(2,3), unfolded dma_alloc(4)]
  show ?case
  proof (cases r)
    case None
    with c have "dma_inv env I V mmu' s'" "V s' = V s" "mmu' = mmu\<lparr>mmu_info := mmu_info mmu'\<rparr>"
      "\<forall>p < 2 ^ 20. pte (mmu_info mmu') p = pte (mmu_info mmu) p"
      "\<forall>p < 2 ^ 20. page_live (mmu_info mmu) p \<longrightarrow> page_live (mmu_info mmu') p" by auto
    moreover from this(3) have "vma_list mmu' = vma_list mmu" by (metis ipu6_mmu.select_convs(4) ipu6_mmu.surjective ipu6_mmu.update_convs(3))
    ultimately show ?thesis using bufs_ok_same [OF bs(2)] by blast
  next
    case (Some x)
    with c obtain va lo as pgs where "dma_inv env I V mmu' s'" "buf_allocated V (buf_pages sz) lo as pgs va mmu s mmu' s'"
      "\<forall>p < 2 ^ 20. page_live (mmu_info mmu) p \<longrightarrow> page_live (mmu_info mmu') p" by auto
    with bufs_ok_alloc [OF bs(2)] ALIGN_PAGE_pages(3) [OF dma_alloc(2,3)] show ?thesis by blast
  qed
next
  case (dma_free mmu s vi sz d mmu' s' d')
  then obtain bs where bs: "dma_inv env I V mmu s" "bufs_ok V mmu s bs" by blast
  from bufs_ok_free_run [OF assms(2) bs dma_free(2-5), of dv d] dma_free(6) show ?case by auto
qed

end
