(* ===== verification/Dma_Props.thy ===== *)
theory Dma_Props
  imports Dma_Buffers
begin

text \<open>
  The properties of the coherent buffers of \<^verbatim>\<open>kernel/ipu4/ipu6-dma.c\<close>, and a small kernel in
  which their hypotheses hold.
\<close>

section \<open>A concrete kernel\<close>

text \<open>
  The state is the view itself and the number of table pages mapped so far. There is room
  for one device range and one kernel mapping, and blocks start at frame 32.
\<close>

definition ex_dma :: "(kview \<times> nat) dma_env" where
  "ex_dma = \<lparr>
     page_env = \<lparr>get_zeroed_page = (\<lambda>s. (True, s)),
                 map_single = (\<lambda>(v, c). (page (min c 1000 + 1), (v, c + 1))), vzalloc_ok = (\<lambda>s. (True, s))\<rparr>,
     alloc_iova = (\<lambda>n lim (v, c).
       if kv_iova v = {} \<and> 0 < n \<and> 15 + n \<le> unat lim
       then (Some (16, 15 + n), (v\<lparr>kv_iova := {(16, 15 + n)}\<rparr>, c)) else (None, (v, c))),
     find_iova = (\<lambda>p (v, c). if kv_iova v = {} then None
       else if fst (the_elem (kv_iova v)) \<le> p \<and> p \<le> snd (the_elem (kv_iova v)) then Some (the_elem (kv_iova v)) else None),
     free_iova = (\<lambda>r (v, c). (v\<lparr>kv_iova := kv_iova v - {r}\<rparr>, c)),
     alloc_page = (\<lambda>s. (True, s)),
     dma_map_page = (\<lambda>pg (v, c).
       if pg < 2 ^ 27 then (Some (page pg), (v\<lparr>kv_bus := add_mset (page pg, pg) (kv_bus v)\<rparr>, c)) else (None, (v, c))),
     dma_unmap_page = (\<lambda>a (v, c). (v\<lparr>kv_bus := kv_bus v - {#(a, unat (drop_bit 12 a))#}\<rparr>, c)),
     kzalloc_ok = (\<lambda>s. True)\<rparr>"

definition ex_kernel :: "(kview \<times> nat) buf_env" where
  "ex_kernel = \<lparr>dma_of = ex_dma, kvzalloc_ok = (\<lambda>s. True),
     alloc_pages = (\<lambda>k (v, c).
       if {32..<32 + 2 ^ k} \<inter> kv_pages v = {} then (Some 32, (v\<lparr>kv_pages := kv_pages v \<union> {32..<32 + 2 ^ k}\<rparr>, c))
       else (None, (v, c))),
     free_pages = (\<lambda>p (v, c). (v\<lparr>kv_pages := kv_pages v - {p}\<rparr>, c)),
     clear_buffer = (\<lambda>p n s. s),
     vmap = (\<lambda>ps (v, c). if 0x1000 \<in> kv_vmap v then (0, (v, c)) else (0x1000, (v\<lparr>kv_vmap := insert 0x1000 (kv_vmap v)\<rparr>, c))),
     vunmap = (\<lambda>va (v, c). (v\<lparr>kv_vmap := kv_vmap v - {va}\<rparr>, c)),
     vm_insert_page = (\<lambda>a p s. (ok, s))\<rparr>"

definition ex_I :: "kview \<times> nat \<Rightarrow> bool" where
  "ex_I s \<longleftrightarrow> 2 \<le> snd s \<and> (kv_iova (fst s) = {} \<or> (\<exists>hi. kv_iova (fst s) = {(16, hi)})) \<and> 0 \<notin> kv_vmap (fst s) \<and>
     (\<forall>x \<in># kv_bus (fst s). fst x = page (snd x) \<and> snd x < 2 ^ 27)"

definition ex_v0 :: kview where
  "ex_v0 = \<lparr>kv_pages = {}, kv_bus = {#}, kv_iova = {}, kv_vmap = {}\<rparr>"

lemma ex_kernel_iova: "iova_law ex_dma ex_I fst"
  unfolding iova_law_def by (auto simp: ex_dma_def ex_I_def)

lemma ex_kernel_bus: "bus_law ex_dma ex_I fst"
  unfolding bus_law_def
  by (auto simp: ex_dma_def ex_I_def drop_page unat_of_nat_u64 dest!: in_diffD)

lemma ex_kernel_pages: "pages_law ex_kernel ex_I fst"
  unfolding pages_law_def by (auto simp: ex_kernel_def ex_I_def)

lemma ex_kernel_vmap: "vmap_law ex_kernel ex_I fst"
  unfolding vmap_law_def by (auto simp: ex_kernel_def ex_I_def)

lemma ex_kernel_ok: "kernel_ok ex_kernel ex_I fst"
  using ex_kernel_iova ex_kernel_bus ex_kernel_pages ex_kernel_vmap by (simp add: kernel_ok_def ex_kernel_def)

lemma ex_kernel_fresh: "alloc_fresh (page_env ex_dma) (\<lambda>s. ex_I s \<and> fst s = v) 2"
proof -
  have "ucast (drop_bit 12 (page (Suc c))) \<noteq> (2 :: u32)" if "2 \<le> c" "c \<le> 1000" for c
    using ex_alloc_fresh that by (auto simp: alloc_fresh_def ex_alloc_def min_def dest: spec [of _ c])
  then show ?thesis by (auto simp: alloc_fresh_def ex_dma_def ex_I_def min_def)
qed

lemma ex_dma_inv: "dma_inv ex_kernel ex_I fst (ex_isys_mmu 0) (ex_v0, 3)"
  using ex_mmu ex_kernel_fresh
  by (auto simp: dma_inv_def mmu_inv_view_def ex_isys_mmu_def ex_kernel_def ex_info_def ex_I_def ex_v0_def)

lemma ex_map_one:
  "\<exists>info' s'. ipu6_mmu_map (page_env ex_dma) ex_info (page 16) (page 32) 4096 (v, 3) = (ok, info', s') \<and> fst s' = v"
proof -
  have eq: "(4096 :: u64) = page 1" by (simp add: page_def)
  have tot: "alloc_total (page_env ex_dma) (\<lambda>s. 2 \<le> snd s \<and> fst s = v)"
    by (auto simp: alloc_total_def ex_dma_def page_eq_0 min_def)
  have "ucast (drop_bit 12 (page (Suc c))) \<noteq> (2 :: u32)" if "2 \<le> c" "c \<le> 1000" for c
    using ex_alloc_fresh that by (auto simp: alloc_fresh_def ex_alloc_def min_def dest: spec [of _ c])
  then have fresh: "alloc_fresh (page_env ex_dma) (\<lambda>s. 2 \<le> snd s \<and> fst s = v) (dummy_l2_pteval ex_info)"
    by (auto simp: alloc_fresh_def ex_dma_def ex_info_def min_def)
  obtain info' s' where r: "ipu6_mmu_map (page_env ex_dma) ex_info (page 16) (page 32) 4096 (v, 3) = (ok, info', s')"
    using map_page_total [OF ex_mmu(1) fresh _ ex_mmu(2) _ tot, of "(v, 3)" 16 32 1] unfolding eq by auto
  with wf_mmu_map(1) [OF ex_mmu(1) fresh _ r] show ?thesis by auto
qed

lemma ex_alloc_page:
  assumes z: "ALIGN_PAGE sz = 0x1000"
  shows "\<exists>mmu' s'. ipu6_dma_alloc ex_kernel sz (ex_isys_mmu 0) (ex_v0, 3) = Some (Some (0x1000, page 16), mmu', s')"
proof -
  let ?v1 = "ex_v0\<lparr>kv_iova := {(16, 16)}\<rparr>"
  let ?v2 = "?v1\<lparr>kv_pages := {32}\<rparr>"
  let ?v3 = "?v2\<lparr>kv_bus := add_mset (page 32, 32) {#}\<rparr>"
  obtain info' s' where m: "ipu6_mmu_map (page_env ex_dma) ex_info (page 16) (page 32) 4096 (?v3, 3) = (ok, info', s')" "fst s' = ?v3"
    using ex_map_one by blast
  have io: "alloc_iova ex_dma 1 (drop_bit 12 (aperture_end ex_info)) (ex_v0, 3) = (Some (16, 16), (?v1, 3))"
    by (simp add: ex_dma_def ex_v0_def ex_info_def unat_drop_bit)
  have "{32..<33} = {32 :: nat}" by auto
  then have "alloc_pages ex_kernel 0 (?v1, 3) = (Some 32, (?v2, 3))" by (simp add: ex_kernel_def ex_v0_def)
  then have bf: "alloc_buffer ex_kernel 0x1000 (?v1, 3) = (Some [32], (?v2, 3))"
    by (simp add: alloc_buffer_def alloc_buffer_loop.simps fls.simps ex_kernel_def)
  have dm: "dma_map_page ex_dma 32 (?v2, 3) = (Some (page 32), (?v3, 3))"
    by (simp add: ex_dma_def ex_v0_def)
  have vm: "vmap ex_kernel [32] s' = (0x1000, (?v3\<lparr>kv_vmap := {0x1000}\<rparr>, snd s'))"
    using m(2) by (cases s') (simp add: ex_kernel_def ex_v0_def)
  have k: "dma_of ex_kernel = ex_dma" "kzalloc_ok ex_dma s" for s by (simp_all add: ex_kernel_def ex_dma_def)
  have i: "mmu_info (ex_isys_mmu 0) = ex_info" by (simp add: ex_isys_mmu_def)
  show ?thesis
    using io bf dm m(1) vm by (simp add: ipu6_dma_alloc_def z k i Let_def)
qed

lemma ex_alloc_one:
  "\<exists>mmu' s'. ipu6_dma_alloc ex_kernel 100 (ex_isys_mmu 0) (ex_v0, 3) = Some (Some (0x1000, page 16), mmu', s')"
  by (rule ex_alloc_page) (simp add: ALIGN_PAGE_def ISP_PAGE_SIZE_def)

section \<open>Properties\<close>

text \<open>
  C10: a successful \<^verbatim>\<open>ipu6_dma_alloc\<close> returns a device address at which every page of the buffer
  is mapped: the buffer has as many new, different memory pages as its size needs, the
  device's view of page \<open>j\<close> is a bus address that the bus resolves to the buffer's page \<open>j\<close>, and
  no other translation changes.
\<close>

theorem dma_alloc_correct:
  assumes "kernel_ok env I V" "dma_inv env I V mmu s" "0 < sz" "sz \<le> 0x7fffffffffffffff"
    and "ipu6_dma_alloc env sz mmu s = Some (Some (va, h), mmu', s')"
  shows "\<exists>lo as pgs. h = page lo \<and> va \<noteq> 0 \<and> length pgs = buf_pages sz \<and> distinct pgs \<and> set pgs \<inter> kv_pages (V s) = {} \<and>
    (\<forall>j < buf_pages sz. ipu6_mmu_iova_to_phys (mmu_info mmu') (page (lo + j)) = Some (page (as ! j)) \<and>
       (page (as ! j), pgs ! j) \<in># kv_bus (V s')) \<and>
    (\<forall>p < 2 ^ 20. p < lo \<or> lo + buf_pages sz \<le> p \<longrightarrow> pte (mmu_info mmu') p = pte (mmu_info mmu) p)"
proof -
  let ?n = "buf_pages sz"
  from dma_alloc_cases [OF assms(1-4)] assms(5) obtain lo as pgs where
    a: "h = page lo" "buf_allocated V ?n lo as pgs va mmu s mmu' s'" "dma_inv env I V mmu' s'" by auto
  from buf_allocated_at [OF a(2) ALIGN_PAGE_pages(3) [OF assms(3,4)]]
  have at: "buf_at V lo as \<lparr>vm_pages = pgs, ipu6_iova = page lo, vm_vaddr = va, vm_size = page ?n\<rparr> (mmu_info mmu') s'" .
  have len: "length as = ?n" "length pgs = ?n" using a(2) by (simp_all add: buf_allocated_def)
  have "ipu6_mmu_iova_to_phys (mmu_info mmu') (page (lo + j)) = Some (page (as ! j)) \<and> (page (as ! j), pgs ! j) \<in># kv_bus (V s')"
    if "j < ?n" for j
  proof -
    have "(page (as ! j), pgs ! j) \<in> set (zip (map page as) pgs)"
      using that len by (auto simp: set_zip intro!: exI [of _ j])
    moreover have "kv_bus (V s') = kv_bus (V s) + mset (zip (map page as) pgs)" using a(2) by (simp add: buf_allocated_def)
    moreover have "mmu_inv_view (page_env (dma_of env)) I V (mmu_info mmu') s'" using a(3) by (simp add: dma_inv_def)
    ultimately show ?thesis using buf_at_tphys [OF _ at, of "page_env (dma_of env)" I j] that len by simp
  qed
  moreover have "pte (mmu_info mmu') p = pte (mmu_info mmu) p" if "p < 2 ^ 20" "p < lo \<or> lo + ?n \<le> p" for p
    using a(2) that by (auto simp: buf_allocated_def)
  ultimately show ?thesis using a(1,2) len unfolding buf_allocated_def by blast
qed

theorem dma_alloc_correct_witness:
  "\<exists>mmu' s'. ipu6_dma_alloc ex_kernel 100 (ex_isys_mmu 0) (ex_v0, 3) = Some (Some (0x1000, page 16), mmu', s') \<and>
     (\<exists>lo a. page 16 = page lo \<and> ipu6_mmu_iova_to_phys (mmu_info mmu') (page lo) = Some a)"
proof -
  obtain mmu' s' where r: "ipu6_dma_alloc ex_kernel 100 (ex_isys_mmu 0) (ex_v0, 3) = Some (Some (0x1000, page 16), mmu', s')"
    using ex_alloc_one by blast
  have "buf_pages 100 = 1" by (simp add: buf_pages_def)
  with dma_alloc_correct [OF ex_kernel_ok ex_dma_inv _ _ r] obtain lo as where
    "page 16 = page lo" "ipu6_mmu_iova_to_phys (mmu_info mmu') (page lo) = Some (page (as ! 0))" by auto
  with r show ?thesis by blast
qed

text \<open>
  C9: \<^verbatim>\<open>ipu6_dma_alloc\<close> never follows a missing table, and when it returns NULL, at whichever
  step, everything is as before: the kernel's memory pages, bus mappings, device ranges and
  kernel mappings, the list of buffers and the translation of every page.
\<close>

theorem dma_alloc_failure_clean:
  assumes "kernel_ok env I V" "dma_inv env I V mmu s" "0 < sz" "sz \<le> 0x7fffffffffffffff"
  shows "\<exists>r mmu' s'. ipu6_dma_alloc env sz mmu s = Some (r, mmu', s') \<and> dma_inv env I V mmu' s' \<and>
    (r = None \<longrightarrow> V s' = V s \<and> vma_list mmu' = vma_list mmu \<and>
       (\<forall>p < 2 ^ 20. pte (mmu_info mmu') p = pte (mmu_info mmu) p))"
proof -
  from dma_alloc_cases [OF assms] obtain r mmu' s' where a:
    "ipu6_dma_alloc env sz mmu s = Some (r, mmu', s')" "dma_inv env I V mmu' s'"
    "r = None \<longrightarrow> V s' = V s \<and> mmu' = mmu\<lparr>mmu_info := mmu_info mmu'\<rparr> \<and>
       (\<forall>p < 2 ^ 20. pte (mmu_info mmu') p = pte (mmu_info mmu) p)"
    by (auto split: option.splits)
  moreover have "vma_list mmu' = vma_list mmu" if "mmu' = mmu\<lparr>mmu_info := mmu_info mmu'\<rparr>"
    using that by (metis ipu6_mmu.select_convs(4) ipu6_mmu.surjective ipu6_mmu.update_convs(3))
  ultimately show ?thesis by blast
qed

theorem dma_alloc_failure_clean_witness:
  "\<exists>mmu' s'. ipu6_dma_alloc ex_kernel 0x7fffffffffffffff (ex_isys_mmu 0) (ex_v0, 3) = Some (None, mmu', s') \<and> fst s' = ex_v0"
proof -
  have z: "unat (drop_bit 12 (ALIGN_PAGE 0x7fffffffffffffff)) = buf_pages 0x7fffffffffffffff"
    by (rule ALIGN_PAGE_pages) simp_all
  have "buf_pages 0x7fffffffffffffff = 2251799813685248" by (simp add: buf_pages_def)
  then have "ipu6_dma_alloc ex_kernel 0x7fffffffffffffff (ex_isys_mmu 0) (ex_v0, 3) = Some (None, ex_isys_mmu 0, (ex_v0, 3))"
    using z by (simp add: ipu6_dma_alloc_def ex_kernel_def ex_dma_def ex_isys_mmu_def ex_info_def unat_drop_bit Let_def)
  with dma_alloc_failure_clean [OF ex_kernel_ok ex_dma_inv, of "0x7fffffffffffffff"] show ?thesis by auto
qed

lemma dma_alloc_free_core:
  assumes K: "kernel_ok env I V" and inv: "dma_inv env I V mmu s" and sz: "0 < sz" "sz \<le> 0x7fffffffffffffff"
    and run: "ipu6_dma_alloc env sz mmu s = Some (Some (va, h), mmu1, s1)"
  shows "\<exists>mmu2 s2 d2. ipu6_dma_free dv env sz va h mmu1 s1 d = Some (mmu2, s2, d2) \<and> V s2 = V s \<and>
    vma_list mmu2 = vma_list mmu \<and> (\<forall>p < 2 ^ 20. pte (mmu_info mmu2) p = pte (mmu_info mmu) p)"
proof -
  let ?n = "buf_pages sz"
  note n = ALIGN_PAGE_pages(3) [OF sz]
  from dma_alloc_cases [OF K inv sz] run obtain lo as pgs where
    a: "h = page lo" "buf_allocated V ?n lo as pgs va mmu s mmu1 s1" "dma_inv env I V mmu1 s1"
    "dummy_page_pteval (mmu_info mmu1) = dummy_page_pteval (mmu_info mmu)" by auto
  let ?vi = "\<lparr>vm_pages = pgs, ipu6_iova = page lo, vm_vaddr = va, vm_size = page ?n\<rparr>"
  note at = buf_allocated_at [OF a(2) n]
  from a(2) have b: "lo + ?n \<le> 2 ^ 20" "length as = ?n" "set pgs \<inter> kv_pages (V s) = {}" "va \<notin> kv_vmap (V s)"
    "\<forall>(l, h) \<in> kv_iova (V s). h < lo \<or> lo + ?n \<le> l"
    "V s1 = \<lparr>kv_pages = kv_pages (V s) \<union> set pgs, kv_bus = kv_bus (V s) + mset (zip (map page as) pgs),
             kv_iova = insert (lo, lo + ?n - 1) (kv_iova (V s)), kv_vmap = insert va (kv_vmap (V s))\<rparr>"
    "\<forall>p < 2 ^ 20. pte (mmu_info mmu1) p = (if lo \<le> p \<and> p < lo + ?n then word_of_nat (as ! (p - lo)) else pte (mmu_info mmu) p)"
    "mmu1 = mmu\<lparr>mmu_info := mmu_info mmu1, vma_list := ?vi # vma_list mmu\<rparr>"
    unfolding buf_allocated_def by blast+
  have vl: "vma_list mmu1 = ?vi # vma_list mmu" by (subst b(8)) simp
  have "lo < 2 ^ 20" using b(1) n by linarith
  then have "get_vm_info mmu1 (page lo) = Some ?vi"
    using buf_at_contains [OF at, of lo] b(2) n by (simp add: get_vm_info_def vl)
  note get = this
  have bus: "mset (zip (map page as) (vm_pages ?vi)) \<subseteq># kv_bus (V s1)" by (simp add: b(6))
  have inv1: "mmu_inv_view (page_env (dma_of env)) I V (mmu_info mmu1) s1" using a(3) by (simp add: dma_inv_def)
  obtain mmu2 s2 where f:
    "ipu6_dma_free dv env sz va (page lo) mmu1 s1 d = Some (mmu2, s2, snd (run_state (tlb_invalidate dv mmu2) d))"
    "mmu2 = mmu1\<lparr>mmu_info := mmu_info mmu2, vma_list := remove1 ?vi (vma_list mmu1)\<rparr>"
    "\<forall>p < 2 ^ 20. pte (mmu_info mmu2) p =
       (if lo \<le> p \<and> p < lo + length as then dummy_page_pteval (mmu_info mmu1) else pte (mmu_info mmu1) p)"
    "V s2 = \<lparr>kv_pages = kv_pages (V s1) - set (vm_pages ?vi), kv_bus = kv_bus (V s1) - mset (zip (map page as) (vm_pages ?vi)),
       kv_iova = kv_iova (V s1) - {(lo, lo + length as - 1)}, kv_vmap = kv_vmap (V s1) - {va}\<rparr>"
    using dma_free_core [OF K inv1 at get bus sz b(2) [symmetric], of dv va d] by blast
  note f = f [unfolded b(2)]
  have "(lo, lo + ?n - 1) \<notin> kv_iova (V s)" using b(5) n by fastforce
  moreover have "kv_pages (V s) \<union> set pgs - set pgs = kv_pages (V s)" using b(3) by auto
  ultimately have "V s2 = V s"
    using b(4) by (intro kview.equality) (simp_all add: f(4) b(6))
  moreover have "vma_list mmu2 = vma_list mmu" by (subst f(2)) (simp add: vl)
  moreover have "pte (mmu_info mmu2) p = pte (mmu_info mmu) p" if "p < 2 ^ 20" for p
  proof (cases "lo \<le> p \<and> p < lo + ?n")
    case True
    then have "\<forall>(l, h) \<in> kv_iova (V s). p < l \<or> h < p" using b(5) by fastforce
    then have "pte (mmu_info mmu) p = dummy_page_pteval (mmu_info mmu)" using inv that by (simp add: dma_inv_def)
    then show ?thesis using f(3) a(4) True that by simp
  next
    case False
    then show ?thesis using f(3) b(7) that by auto
  qed
  ultimately show ?thesis using f(1) a(1) by blast
qed

text \<open>
  C11: freeing a buffer right after its allocation restores everything: the kernel's view of
  the resources, the list of buffers and the translation of every page.
\<close>

theorem dma_alloc_free_roundtrip:
  assumes K: "kernel_ok env I V" and inv: "dma_inv env I V mmu s" and sz: "0 < sz" "sz \<le> 0x7fffffffffffffff"
    and run: "ipu6_dma_alloc env sz mmu s = Some (Some (va, h), mmu1, s1)"
  shows "\<exists>mmu2 s2 d2. ipu6_dma_free dv env sz va h mmu1 s1 d = Some (mmu2, s2, d2) \<and> V s2 = V s \<and>
    vma_list mmu2 = vma_list mmu \<and> (\<forall>p < 2 ^ 20. pte (mmu_info mmu2) p = pte (mmu_info mmu) p)"
  using assms by (rule dma_alloc_free_core)

theorem dma_alloc_free_roundtrip_witness:
  "\<exists>mmu1 s1 mmu2 s2 d2. ipu6_dma_alloc ex_kernel 100 (ex_isys_mmu 0) (ex_v0, 3) = Some (Some (0x1000, page 16), mmu1, s1) \<and>
     ipu6_dma_free (trace_dev (\<lambda>l a. 0)) ex_kernel 100 0x1000 (page 16) mmu1 s1 [] = Some (mmu2, s2, d2) \<and> fst s2 = ex_v0"
proof -
  obtain mmu1 s1 where r: "ipu6_dma_alloc ex_kernel 100 (ex_isys_mmu 0) (ex_v0, 3) = Some (Some (0x1000, page 16), mmu1, s1)"
    using ex_alloc_one by blast
  from dma_alloc_free_roundtrip [OF ex_kernel_ok ex_dma_inv _ _ r, of "trace_dev (\<lambda>l a. 0)" "[]"]
  obtain mmu2 s2 d2 where "ipu6_dma_free (trace_dev (\<lambda>l a. 0)) ex_kernel 100 0x1000 (page 16) mmu1 s1 [] = Some (mmu2, s2, d2)"
    "fst s2 = ex_v0" by auto
  with r show ?thesis by blast
qed

text \<open>
  C8: after any sequence of allocations and frees, successful or not, every buffer on the
  instance's list is fully mapped: page \<open>j\<close> at its device address leads to a bus address that
  the bus resolves to the buffer's memory page \<open>j\<close>.
\<close>

theorem dma_buffers_mapped:
  assumes "dma_reach dv env I V mmu s" "kernel_ok env I V" "vi \<in> set (vma_list mmu)"
  shows "\<exists>lo as. ipu6_iova vi = page lo \<and> vm_size vi = page (length as) \<and> length (vm_pages vi) = length as \<and>
    (\<forall>j < length as. ipu6_mmu_iova_to_phys (mmu_info mmu) (page (lo + j)) = Some (page (as ! j)) \<and>
       (page (as ! j), vm_pages vi ! j) \<in># kv_bus (V s))"
proof -
  from dma_reach_ok [OF assms(1,2)] obtain bs where bs: "dma_inv env I V mmu s" "bufs_ok V mmu s bs" by blast
  with assms(3) obtain lo as where b: "(vi, lo, as) \<in> set bs" by (auto simp: bufs_ok_def)
  note at = bufs_okD [OF bs(2) b]
  have len: "length (vm_pages vi) = length as" using at by (simp add: buf_at_def)
  have "buf_bus (vi, lo, as) \<subseteq># sum_list (map buf_bus bs)"
    using b by (induction bs) (auto intro: subset_mset.add_increasing)
  then have bus: "mset (zip (map page as) (vm_pages vi)) \<subseteq># kv_bus (V s)"
    using bs(2) by (auto simp: bufs_ok_def buf_bus_def intro: subset_mset.order_trans)
  have "(page (as ! j), vm_pages vi ! j) \<in># kv_bus (V s)" if "j < length as" for j
  proof -
    have "(page (as ! j), vm_pages vi ! j) \<in># mset (zip (map page as) (vm_pages vi))"
      using that len by (auto simp: set_zip intro!: exI [of _ j])
    with bus show ?thesis by (rule mset_subset_eqD)
  qed
  moreover have "mmu_inv_view (page_env (dma_of env)) I V (mmu_info mmu) s" using bs(1) by (simp add: dma_inv_def)
  moreover note buf_at_tphys [OF this at]
  ultimately show ?thesis using at len by (intro exI [of _ lo] exI [of _ as]) (simp add: buf_at_def)
qed

theorem dma_buffers_mapped_witness:
  "\<exists>mmu s vi a. dma_reach (trace_dev (\<lambda>l a. 0)) ex_kernel ex_I fst mmu s \<and> vi \<in> set (vma_list mmu) \<and>
     0 < length (vm_pages vi) \<and> ipu6_mmu_iova_to_phys (mmu_info mmu) (ipu6_iova vi) = Some a"
proof -
  obtain mmu s where r: "ipu6_dma_alloc ex_kernel 100 (ex_isys_mmu 0) (ex_v0, 3) = Some (Some (0x1000, page 16), mmu, s)"
    using ex_alloc_one by blast
  have "dma_reach (trace_dev (\<lambda>l a. 0)) ex_kernel ex_I fst (ex_isys_mmu 0) (ex_v0, 3)"
    by (rule dma_start [OF ex_dma_inv]) (simp add: ex_isys_mmu_def)
  from dma_alloc [OF this _ _ r] have reach: "dma_reach (trace_dev (\<lambda>l a. 0)) ex_kernel ex_I fst mmu s" by simp
  from dma_alloc_cases [OF ex_kernel_ok ex_dma_inv, of 100] r obtain lo as pgs where
    "buf_allocated fst (buf_pages 100) lo as pgs 0x1000 (ex_isys_mmu 0) (ex_v0, 3) mmu s" by auto
  then obtain vi where vi: "vi \<in> set (vma_list mmu)" "length (vm_pages vi) = buf_pages 100"
    unfolding buf_allocated_def by (metis (no_types, lifting) ipu6_mmu.select_convs(4) ipu6_mmu.surjective
        ipu6_mmu.update_convs(4) list.set_intros(1) vm_info.select_convs(1))
  then have n: "0 < length (vm_pages vi)" by (simp add: buf_pages_def)
  from dma_buffers_mapped [OF reach ex_kernel_ok vi(1)] n obtain lo as where
    "ipu6_iova vi = page lo" "ipu6_mmu_iova_to_phys (mmu_info mmu) (page (lo + 0)) = Some (page (as ! 0))" by fastforce
  then have "ipu6_mmu_iova_to_phys (mmu_info mmu) (ipu6_iova vi) = Some (page (as ! 0))" by simp
  with reach vi(1) n show ?thesis by blast
qed

end
