(* ===== verification/Dma_Sg.thy ===== *)
theory Dma_Sg
  imports Dma_Props
begin

text \<open>
  Scatter lists of \<^verbatim>\<open>kernel/ipu4/ipu6-dma.c\<close>: where the entries are mapped, that unmapping gives the
  entries their bus addresses back, and what is left behind when the first entry fails.
\<close>

section \<open>Entries\<close>

text \<open>
  An entry the DMA layer hands to the IPU: it starts at a page of the bus, below \<open>2 ^ 39\<close>.
\<close>

definition sg_ok :: "scatterlist \<Rightarrow> bool" where
  "sg_ok sg \<longleftrightarrow> sg_offset sg = 0 \<and> 0 < sg_len sg \<and> (\<exists>P. sg_addr sg = page P \<and> P + sg_pages sg \<le> 2 ^ 27)"

definition sg_frame :: "scatterlist \<Rightarrow> nat" where
  "sg_frame sg = unat (drop_bit 12 (sg_addr sg))"

text \<open>The bus frames of a list, page after page, and the list with device addresses.\<close>

definition sg_frames :: "scatterlist list \<Rightarrow> nat list" where
  "sg_frames sgs = concat (map (\<lambda>sg. map (\<lambda>j. sg_frame sg + j) [0..<sg_pages sg]) sgs)"

fun sg_place :: "nat \<Rightarrow> scatterlist list \<Rightarrow> scatterlist list" where
  "sg_place lo [] = []"
| "sg_place lo (sg # sgs) = sg\<lparr>sg_addr := page lo\<rparr> # sg_place (lo + sg_pages sg) sgs"

lemma sg_pages_len: "sg_pages sg = (unat (sg_len sg) + 4095) div 4096"
proof -
  have "unat (ucast (sg_len sg) :: u64) = unat (sg_len sg)" by (simp add: unat_ucast_up)
  moreover have "unat (sg_len sg) < 2 ^ 32" by (rule unat_u32_less)
  ultimately have "unat ((ucast (sg_len sg) :: u64) + 4095) = unat (sg_len sg) + 4095"
    by (subst unat_add_no_wrap) simp_all
  then show ?thesis by (simp add: sg_pages_def PFN_UP_def unat_drop_bit)
qed

lemma sg_bytes_align:
  assumes "sg_pages sg < 2 ^ 20"
  shows "sg_bytes sg = ALIGN_PAGE (ucast (sg_len sg))"
proof -
  have "(unat (sg_len sg) + 4095) div 4096 < 2 ^ 20" using assms by (simp add: sg_pages_len)
  then have "unat (sg_len sg) + 4095 < 2 ^ 32" by (simp add: div_less_iff_less_mult)
  then have "unat (sg_len sg + 0xfff) = unat (sg_len sg) + 4095" "unat (sg_len sg) + 4095 < 2 ^ 64"
    by (simp_all add: unat_add_no_wrap)
  then have x: "ucast (sg_len sg + 0xfff) = (ucast (sg_len sg) + 0xfff :: u64)"
    by (simp add: word_unat_eq_iff unat_ucast_up unat_add_no_wrap)
  have "bit (ucast ((sg_len sg + 0xfff) AND NOT 0xfff) :: u64) n = bit (ucast (sg_len sg + 0xfff) AND NOT 0xfff :: u64) n" for n
    using bit_imp_le_length [of "sg_len sg + 0xfff" n] by (auto simp: bit_simps)
  then have "ucast ((sg_len sg + 0xfff) AND NOT 0xfff) = (ucast (sg_len sg + 0xfff) AND NOT 0xfff :: u64)"
    by (rule bit_word_eqI)
  then show ?thesis by (simp add: sg_bytes_def ALIGN_PAGE_def ISP_PAGE_SIZE_def x)
qed

lemma sg_okD:
  assumes "sg_ok sg"
  shows "0 < sg_pages sg" "sg_addr sg = page (sg_frame sg)" "sg_frame sg + sg_pages sg \<le> 2 ^ 27"
    "sg_pages sg < 2 ^ 20 \<Longrightarrow> sg_bytes sg = page (sg_pages sg)"
proof -
  from assms obtain P where P: "0 < sg_len sg" "sg_addr sg = page P" "P + sg_pages sg \<le> 2 ^ 27"
    by (auto simp: sg_ok_def)
  then have "P < 2 ^ 52" by simp
  then have "drop_bit 12 (page P) = word_of_nat P" by (rule drop_page)
  then have f: "sg_frame sg = P" using P(2,3) by (simp add: sg_frame_def unat_of_nat_u64)
  then show "sg_addr sg = page (sg_frame sg)" "sg_frame sg + sg_pages sg \<le> 2 ^ 27" using P by simp_all
  have l: "0 < unat (sg_len sg)" using P(1) by (simp add: word_less_nat_alt)
  then show "0 < sg_pages sg" by (simp add: sg_pages_len)
  have u: "unat (ucast (sg_len sg) :: u64) = unat (sg_len sg)" by (simp add: unat_ucast_up)
  have "unat (sg_len sg) < 2 ^ 32" by (rule unat_u32_less)
  with l u have "0 < (ucast (sg_len sg) :: u64)" "(ucast (sg_len sg) :: u64) \<le> 0x7fffffffffffffff"
    by (simp_all add: word_less_nat_alt word_le_nat_alt)
  from ALIGN_PAGE_pages(1) [OF this] have "ALIGN_PAGE (ucast (sg_len sg)) = page (sg_pages sg)"
    by (simp add: buf_pages_def u sg_pages_len)
  then show "sg_bytes sg = page (sg_pages sg)" if "sg_pages sg < 2 ^ 20"
    using sg_bytes_align [OF that] by simp
qed

lemma length_sg_frames: "length (sg_frames sgs) = sum_list (map sg_pages sgs)"
  by (simp add: sg_frames_def length_concat o_def)

lemma sg_frames_simps [simp]:
  "sg_frames [] = []"
  "sg_frames (sg # sgs) = map (\<lambda>j. sg_frame sg + j) [0..<sg_pages sg] @ sg_frames sgs"
  by (simp_all add: sg_frames_def)

section \<open>Mapping\<close>

context page_translator
begin

text \<open>The translation after mapping: the frames of the list from page \<open>lo\<close> on.\<close>

definition sg_mapped :: "nat \<Rightarrow> nat list \<Rightarrow> 'i \<Rightarrow> 'i \<Rightarrow> bool" where
  "sg_mapped lo fs i i' \<longleftrightarrow> dummy i' = dummy i \<and>
     (\<forall>p < 2 ^ 20. tr i' p = (if lo \<le> p \<and> p < lo + length fs then word_of_nat (fs ! (p - lo)) else tr i p)) \<and>
     (\<forall>p < 2 ^ 20. mapped i p \<or> lo \<le> p \<and> p < lo + length fs \<longrightarrow> mapped i' p)"

lemma sg_mapped_append:
  assumes "sg_mapped lo fs i i1" "sg_mapped (lo + length fs) gs i1 i2"
  shows "sg_mapped lo (fs @ gs) i i2"
proof -
  have "tr i2 p = (if lo \<le> p \<and> p < lo + length (fs @ gs) then word_of_nat ((fs @ gs) ! (p - lo)) else tr i p)"
    if "p < 2 ^ 20" for p
    using assms that by (auto simp: sg_mapped_def nth_append)
  moreover have "mapped i2 p" if "p < 2 ^ 20" "mapped i p \<or> lo \<le> p \<and> p < lo + length (fs @ gs)" for p
    using assms that by (cases "p < lo + length fs") (auto simp: sg_mapped_def)
  ultimately show ?thesis using assms by (auto simp: sg_mapped_def)
qed

lemma sg_map_loop_all:
  assumes "inv i s" "\<forall>sg \<in> set sgs. sg_ok sg" "lo + sum_list (map sg_pages sgs) \<le> 2 ^ 20"
    and "sg_map_loop mp lo sgs i s = (sgs', n, True, i', s')" "0 < lo"
  shows "inv i' s' \<and> V s' = V s \<and> n = length sgs \<and> sgs' = sg_place lo sgs \<and> sg_mapped lo (sg_frames sgs) i i'"
  using assms
proof (induction sgs arbitrary: lo i s sgs' n)
  case Nil
  then show ?case by (auto simp: sg_mapped_def)
next
  case (Cons sg sgs)
  note o = sg_okD [of sg]
  have ok: "sg_ok sg" using Cons.prems(2) by simp
  obtain r i1 s1 where m: "mp i (page lo) (sg_addr sg) (sg_bytes sg) s = (r, i1, s1)"
    by (metis prod_cases3)
  with Cons.prems(4) have r: "r = ok" by (cases r) auto
  obtain sgs1 n1 b i2 s2 where lp: "sg_map_loop mp (lo + sg_pages sg) sgs i1 s1 = (sgs1, n1, b, i2, s2)"
    by (metis prod_cases5)
  from Cons.prems(4) m r lp have res: "b" "sgs' = sg\<lparr>sg_addr := page lo\<rparr> # sgs1" "n = Suc n1" "i' = i2" "s' = s2" by auto
  have le: "lo + sg_pages sg \<le> 2 ^ 20" "sg_frame sg + sg_pages sg < 2 ^ 52 - 1"
    using Cons.prems(3) o(3) [OF ok] by simp_all
  have m': "mp i (page lo) (page (sg_frame sg)) (page (sg_pages sg)) s = (ok, i1, s1)"
    using m r o(2,4) [OF ok] Cons.prems(3,5) by simp
  note one = map_ok [OF Cons.prems(1) o(1) [OF ok] le m']
  have "tr i1 p = (if lo \<le> p \<and> p < lo + sg_pages sg
      then word_of_nat (map (\<lambda>j. sg_frame sg + j) [0..<sg_pages sg] ! (p - lo)) else tr i p)" if "p < 2 ^ 20" for p
  proof (cases "lo \<le> p \<and> p < lo + sg_pages sg")
    case True
    then have "p - lo < sg_pages sg" by linarith
    then show ?thesis using one that True by simp
  next
    case False
    then show ?thesis using one that by auto
  qed
  with one have here: "sg_mapped lo (map (\<lambda>j. sg_frame sg + j) [0..<sg_pages sg]) i i1" by (simp add: sg_mapped_def)
  have "inv i2 s2 \<and> V s2 = V s1 \<and> n1 = length sgs \<and> sgs1 = sg_place (lo + sg_pages sg) sgs \<and>
      sg_mapped (lo + sg_pages sg) (sg_frames sgs) i1 i2"
    using Cons.IH [of i1 s1 "lo + sg_pages sg" sgs1 n1] one Cons.prems(2,3,5) lp res by (simp add: add.assoc)
  moreover have "V s1 = V s" by (rule view [OF Cons.prems(1) m])
  ultimately show ?case using sg_mapped_append [OF here] res by simp
qed

text \<open>Looking the bus addresses up again.\<close>

lemma sg_restore_all:
  assumes "inv i s" "\<forall>sg \<in> set sgs. sg_ok sg" "lo + sum_list (map sg_pages sgs) \<le> 2 ^ 20"
    and "\<And>j. j < length (sg_frames sgs) \<Longrightarrow> tr i (lo + j) = word_of_nat (sg_frames sgs ! j) \<and> mapped i (lo + j)"
  shows "sg_restore tphys i (length sgs) (sg_place lo sgs) = Some sgs"
  using assms(2-4)
proof (induction sgs arbitrary: lo)
  case Nil
  then show ?case by simp
next
  case (Cons sg sgs)
  have ok: "sg_ok sg" using Cons.prems(1) by simp
  note o = sg_okD [OF ok]
  have z: "tr i lo = word_of_nat (sg_frame sg)" "mapped i lo"
    using Cons.prems(3) [of 0] o(1) by (auto simp: nth_append)
  have "lo < 2 ^ 20" using Cons.prems(2) o(1) by simp
  moreover have "unat (word_of_nat (sg_frame sg) :: u32) = sg_frame sg" using o(3) by (intro unat_of_nat_u32) simp
  ultimately have t: "tphys i (page lo) = Some (sg_addr sg)"
    using tphys [OF assms(1) _ z(2)] z(1) o(2) by simp
  have "tr i (lo + sg_pages sg + j) = word_of_nat (sg_frames sgs ! j) \<and> mapped i (lo + sg_pages sg + j)"
    if "j < length (sg_frames sgs)" for j
    using Cons.prems(3) [of "sg_pages sg + j"] that by (simp add: nth_append add.assoc)
  with Cons.IH [of "lo + sg_pages sg"] Cons.prems(1,2)
  have "sg_restore tphys i (length sgs) (sg_place (lo + sg_pages sg) sgs) = Some sgs" by (simp add: add.assoc)
  with t show ?case by simp
qed

end

lemma sg_no_offset: "\<forall>sg \<in> set sgs. sg_ok sg \<Longrightarrow> \<not> list_ex (\<lambda>sg. sg_offset sg \<noteq> 0) sgs"
  by (auto simp: list_ex_iff sg_ok_def)

lemma sg_total_pos: "sgs \<noteq> [] \<Longrightarrow> \<forall>sg \<in> set sgs. sg_ok sg \<Longrightarrow> 0 < sum_list (map sg_pages sgs)"
  using sg_okD(1) by (cases sgs) auto

text \<open>A successful mapping, with the range it allocated.\<close>

lemma dma_map_sg_ok:
  assumes K: "kernel_ok env I V" and inv: "dma_inv env I V mmu s"
    and sgs: "sgs \<noteq> []" "\<forall>sg \<in> set sgs. sg_ok sg" and n: "n = sum_list (map sg_pages sgs)"
    and run: "ipu6_dma_map_sg dv (dma_of env) sgs mmu s d = Some (Inr (length sgs), sgs1, mmu1, s1, d1)"
  obtains lo where "lo + n \<le> 2 ^ 20" "0 < lo" "sgs1 = sg_place lo sgs" "d1 = d"
    "mmu_inv_view (page_env (dma_of env)) I V (mmu_info mmu1) s1" "mmu1 = mmu\<lparr>mmu_info := mmu_info mmu1\<rparr>"
    "mmut.sg_mapped lo (sg_frames sgs) (mmu_info mmu) (mmu_info mmu1)"
    "V s1 = (V s)\<lparr>kv_iova := insert (lo, lo + n - 1) (kv_iova (V s))\<rparr>" "(lo, lo + n - 1) \<notin> kv_iova (V s)"
    "\<And>p. lo \<le> p \<Longrightarrow> p < lo + n \<Longrightarrow> pte (mmu_info mmu) p = dummy_page_pteval (mmu_info mmu)"
proof -
  let ?al = "page_env (dma_of env)"
  from K have l: "iova_law (dma_of env) I V" by (simp add: kernel_ok_def)
  have pos: "0 < n" using sg_total_pos [OF sgs] n by simp
  obtain x s0 where io: "alloc_iova (dma_of env) n (drop_bit 12 (aperture_end (mmu_info mmu))) s = (x, s0)" by fastforce
  have "x \<noteq> None"
  proof
    assume "x = None"
    then show False using run io sgs(1) sg_no_offset [OF sgs(2)] by (simp add: ipu6_dma_map_sg_def Let_def n)
  qed
  then obtain lo hi where x: "x = Some (lo, hi)" by auto
  note r = range_fresh [OF l inv pos io [unfolded x]]
  obtain sgs2 i b info s2 where lp: "sg_map_loop (ipu6_mmu_map ?al) lo sgs (mmu_info mmu) s0 = (sgs2, i, b, info, s2)"
    by (metis prod_cases5)
  have b: "b"
  proof (rule ccontr)
    assume "\<not> b"
    then show False using run io x lp sg_no_offset [OF sgs(2)] sgs(1) by (auto simp: ipu6_dma_map_sg_def Let_def n)
  qed
  have res: "sgs1 = sgs2" "mmu1 = mmu\<lparr>mmu_info := info\<rparr>" "s1 = s2" "d1 = d"
    using run io x lp sg_no_offset [OF sgs(2)] b by (auto simp: ipu6_dma_map_sg_def Let_def n)
  have i0: "mmu_inv_view ?al I V (mmu_info mmu) s0" using inv r(1) by (simp add: dma_inv_def mmu_inv_view_def)
  have n20: "lo + sum_list (map sg_pages sgs) \<le> 2 ^ 20" using r(4) n by simp
  note m = mmut.sg_map_loop_all [OF i0 sgs(2) n20 lp [simplified b] r(2)]
  have hi: "hi = lo + n - 1" using r(3) pos by simp
  have "(lo, lo + n - 1) \<notin> kv_iova (V s)" using r(5) pos by fastforce
  moreover have "V s1 = (V s)\<lparr>kv_iova := insert (lo, lo + n - 1) (kv_iova (V s))\<rparr>" using m res(3) r(6) hi by simp
  moreover have "mmu_inv_view ?al I V (mmu_info mmu1) s1" "mmut.sg_mapped lo (sg_frames sgs) (mmu_info mmu) (mmu_info mmu1)"
    "sgs1 = sg_place lo sgs" "mmu1 = mmu\<lparr>mmu_info := mmu_info mmu1\<rparr>"
    using m res by simp_all
  ultimately show thesis using that [of lo] r(2,4,7) res(4) by blast
qed

section \<open>Properties\<close>

text \<open>
  C12: a successful \<^verbatim>\<open>ipu6_dma_map_sg\<close> places the entries one after the other in one device
  range: entry by entry the device pages lead to the entry's bus pages, in order, and no
  other translation changes.
\<close>

theorem dma_map_sg_correct:
  assumes "kernel_ok env I V" "dma_inv env I V mmu s" "sgs \<noteq> []" "\<forall>sg \<in> set sgs. sg_ok sg"
    and "ipu6_dma_map_sg dv (dma_of env) sgs mmu s d = Some (Inr (length sgs), sgs1, mmu1, s1, d1)"
  shows "\<exists>lo. 0 < lo \<and> lo + length (sg_frames sgs) \<le> 2 ^ 20 \<and> sgs1 = sg_place lo sgs \<and>
    (\<forall>p < 2 ^ 20. pte (mmu_info mmu1) p =
       (if lo \<le> p \<and> p < lo + length (sg_frames sgs) then word_of_nat (sg_frames sgs ! (p - lo)) else pte (mmu_info mmu) p))"
  using dma_map_sg_ok [OF assms(1-4) refl assms(5)] unfolding mmut.sg_mapped_def length_sg_frames by metis

definition ex_sg :: "scatterlist list" where
  "ex_sg = [\<lparr>sg_offset = 0, sg_len = 0x800, sg_addr = page 32\<rparr>]"

lemma ex_sg_ok: "ex_sg \<noteq> []" "\<forall>sg \<in> set ex_sg. sg_ok sg" "sum_list (map sg_pages ex_sg) = 1" "length ex_sg = 1"
  by (auto simp: ex_sg_def sg_ok_def sg_pages_len intro!: exI [of _ 32])

lemma ex_sg_run:
  "\<exists>mmu' s'. ipu6_dma_map_sg dv (dma_of ex_kernel) ex_sg (ex_isys_mmu 0) (ex_v0, 3) d =
     Some (Inr (length ex_sg), sg_place 16 ex_sg, mmu', s', d)"
proof -
  let ?v1 = "ex_v0\<lparr>kv_iova := {(16, 16)}\<rparr>"
  obtain info' s' where m: "ipu6_mmu_map (page_env ex_dma) ex_info (page 16) (page 32) 4096 (?v1, 3) = (ok, info', s')"
    using ex_map_one by blast
  have z: "sg_bytes \<lparr>sg_offset = 0, sg_len = 0x800, sg_addr = page 32\<rparr> = 4096" by (simp add: sg_bytes_def)
  have io: "alloc_iova ex_dma 1 (drop_bit 12 (aperture_end ex_info)) (ex_v0, 3) = (Some (16, 16), (?v1, 3))"
    by (simp add: ex_dma_def ex_v0_def ex_info_def unat_drop_bit)
  have k: "dma_of ex_kernel = ex_dma" by (simp add: ex_kernel_def)
  have i: "mmu_info (ex_isys_mmu 0) = ex_info" by (simp add: ex_isys_mmu_def)
  have p: "sg_pages \<lparr>sg_offset = 0, sg_len = 0x800, sg_addr = page 32\<rparr> = 1" by (simp add: sg_pages_len)
  show ?thesis
    using io m by (simp add: ipu6_dma_map_sg_def ex_sg_def k i p z Let_def)
qed

theorem dma_map_sg_correct_witness:
  "\<exists>mmu' s' lo. ipu6_dma_map_sg (trace_dev (\<lambda>l a. 0)) (dma_of ex_kernel) ex_sg (ex_isys_mmu 0) (ex_v0, 3) [] =
     Some (Inr 1, sg_place lo ex_sg, mmu', s', []) \<and> pte (mmu_info mmu') lo = 32"
proof -
  let ?dv = "trace_dev (\<lambda>l a. 0)"
  obtain mmu' s' where r: "ipu6_dma_map_sg ?dv (dma_of ex_kernel) ex_sg (ex_isys_mmu 0) (ex_v0, 3) [] =
     Some (Inr (length ex_sg), sg_place 16 ex_sg, mmu', s', [])"
    using ex_sg_run [of ?dv "[]"] by blast
  have "drop_bit 12 (page 32) = word_of_nat 32" by (rule drop_page) simp
  then have f: "sg_frames ex_sg = [32]" by (simp add: ex_sg_def sg_frame_def sg_pages_len unat_of_nat_u64)
  from dma_map_sg_correct [OF ex_kernel_ok ex_dma_inv ex_sg_ok(1,2) r] f obtain lo where
    lo: "lo + 1 \<le> 2 ^ 20" "sg_place 16 ex_sg = sg_place lo ex_sg"
    "\<forall>p < 2 ^ 20. pte (mmu_info mmu') p = (if lo \<le> p \<and> p < lo + 1 then word_of_nat ([32] ! (p - lo)) else pte (mmu_info (ex_isys_mmu 0)) p)"
    by auto
  then have "lo < 2 ^ 20" by linarith
  with lo(3) have "pte (mmu_info mmu') lo = 32" by simp
  with r [unfolded lo(2) ex_sg_ok(4)] show ?thesis by blast
qed

text \<open>
  C13: unmapping a mapped scatter list gives every entry its bus address back, frees the
  device range and restores the translation of every page.
\<close>

theorem dma_map_unmap_sg:
  assumes K: "kernel_ok env I V" and inv: "dma_inv env I V mmu s" and sgs: "sgs \<noteq> []" "\<forall>sg \<in> set sgs. sg_ok sg"
    and run: "ipu6_dma_map_sg dv (dma_of env) sgs mmu s d = Some (Inr (length sgs), sgs1, mmu1, s1, d1)"
  shows "\<exists>mmu2 s2 d2. ipu6_dma_unmap_sg dv (dma_of env) sgs1 (length sgs) mmu1 s1 d1 = Some (sgs, mmu2, s2, d2) \<and>
    V s2 = V s \<and> (\<forall>p < 2 ^ 20. pte (mmu_info mmu2) p = pte (mmu_info mmu) p)"
proof -
  let ?n = "sum_list (map sg_pages sgs)" and ?al = "page_env (dma_of env)"
  note pos = sg_total_pos [OF sgs]
  obtain lo where m: "lo + ?n \<le> 2 ^ 20" "0 < lo" "sgs1 = sg_place lo sgs" "d1 = d"
    "mmu_inv_view ?al I V (mmu_info mmu1) s1" "mmu1 = mmu\<lparr>mmu_info := mmu_info mmu1\<rparr>"
    "mmut.sg_mapped lo (sg_frames sgs) (mmu_info mmu) (mmu_info mmu1)"
    "V s1 = (V s)\<lparr>kv_iova := insert (lo, lo + ?n - 1) (kv_iova (V s))\<rparr>" "(lo, lo + ?n - 1) \<notin> kv_iova (V s)"
    "\<And>p. lo \<le> p \<Longrightarrow> p < lo + ?n \<Longrightarrow> pte (mmu_info mmu) p = dummy_page_pteval (mmu_info mmu)"
    using dma_map_sg_ok [OF K inv sgs refl run] by blast
  from K have l: "iova_law (dma_of env) I V" by (simp add: kernel_ok_def)
  have I1: "I s1" using m(5) by (simp add: mmu_inv_view_def)
  have hd: "sg_addr (hd sgs1) = page lo" using sgs(1) m(3) by (cases sgs) simp_all
  have "unat (drop_bit 12 (page lo)) = lo" using m(1) by (simp add: drop_page unat_of_nat_u64)
  moreover have "lo \<le> lo + ?n - 1" using pos by linarith
  moreover have "(lo, lo + ?n - 1) \<in> kv_iova (V s1)" by (simp add: m(8))
  ultimately have f: "find_iova (dma_of env) (unat (drop_bit 12 (sg_addr (hd sgs1)))) s1 = Some (lo, lo + ?n - 1)"
    using iova_lawD(4) [OF l I1 _ order_refl, of lo "lo + ?n - 1"] hd by simp
  have at: "pte (mmu_info mmu1) (lo + j) = word_of_nat (sg_frames sgs ! j) \<and> page_live (mmu_info mmu1) (lo + j)"
    if "j < length (sg_frames sgs)" for j
    using m(1,7) that by (simp add: mmut.sg_mapped_def length_sg_frames)
  have rs: "sg_restore ipu6_mmu_iova_to_phys (mmu_info mmu1) (length sgs) sgs1 = Some sgs"
    unfolding m(3) by (rule mmut.sg_restore_all [OF m(5) sgs(2) m(1) at])
  have live: "page_live (mmu_info mmu1) p" if "lo \<le> p" "p < lo + ?n" for p
    using m(1,7) that by (simp add: mmut.sg_mapped_def length_sg_frames)
  note un = mmut.unmap [OF m(5) pos m(1) live]
  let ?mmu2 = "mmu1\<lparr>mmu_info := ipu6_mmu_unmap (mmu_info mmu1) (page lo) (page ?n)\<rparr>"
  let ?s2 = "free_iova (dma_of env) (lo, lo + ?n - 1) s1"
  have "Suc (lo + ?n - 1) - lo = ?n" using pos by simp
  then have "ipu6_dma_unmap_sg dv (dma_of env) sgs1 (length sgs) mmu1 s1 d1 =
      Some (sgs, ?mmu2, ?s2, snd (run_state (tlb_invalidate dv ?mmu2) d1))"
    using sgs(1) f rs by (simp add: ipu6_dma_unmap_sg_def Let_def)
  moreover have "V ?s2 = V s" using iova_lawD(3) [OF l I1, of "(lo, lo + ?n - 1)"] m(8,9) by simp
  moreover have "pte (mmu_info ?mmu2) p = pte (mmu_info mmu) p" if "p < 2 ^ 20" for p
    using un m(7,10) that by (cases "lo \<le> p \<and> p < lo + ?n") (auto simp: mmut.sg_mapped_def length_sg_frames)
  ultimately show ?thesis by blast
qed

theorem dma_map_unmap_sg_witness:
  "\<exists>sgs1 mmu1 s1 mmu2 s2 d2. ipu6_dma_map_sg (trace_dev (\<lambda>l a. 0)) (dma_of ex_kernel) ex_sg (ex_isys_mmu 0) (ex_v0, 3) [] =
     Some (Inr 1, sgs1, mmu1, s1, []) \<and>
     ipu6_dma_unmap_sg (trace_dev (\<lambda>l a. 0)) (dma_of ex_kernel) sgs1 1 mmu1 s1 [] = Some (ex_sg, mmu2, s2, d2) \<and> fst s2 = ex_v0"
proof -
  let ?dv = "trace_dev (\<lambda>l a. 0)"
  obtain mmu' s' where r: "ipu6_dma_map_sg ?dv (dma_of ex_kernel) ex_sg (ex_isys_mmu 0) (ex_v0, 3) [] =
     Some (Inr (length ex_sg), sg_place 16 ex_sg, mmu', s', [])"
    using ex_sg_run [of ?dv "[]"] by blast
  from dma_map_unmap_sg [OF ex_kernel_ok ex_dma_inv ex_sg_ok(1,2) r] obtain mmu2 s2 d2 where
    "ipu6_dma_unmap_sg ?dv (dma_of ex_kernel) (sg_place 16 ex_sg) (length ex_sg) mmu' s' [] = Some (ex_sg, mmu2, s2, d2)" "fst s2 = ex_v0"
    by auto
  with r ex_sg_ok(4) show ?thesis by metis
qed

text \<open>
  C14: when already the first entry cannot be mapped, \<^verbatim>\<open>ipu6_dma_map_sg\<close> reports that no entry is
  mapped but keeps the device range it had allocated: the clean-up is called for 0 entries
  and returns at once.
\<close>

theorem dma_map_sg_leaks_range:
  assumes "kernel_ok env I V" "dma_inv env I V mmu s" "\<forall>x \<in> set (sg # sgs). sg_offset x = 0"
    and "0 < sum_list (map sg_pages (sg # sgs))"
    and "alloc_iova (dma_of env) (sum_list (map sg_pages (sg # sgs))) (drop_bit 12 (aperture_end (mmu_info mmu))) s = (Some (lo, hi), s1)"
    and "ipu6_mmu_map (page_env (dma_of env)) (mmu_info mmu) (page lo) (sg_addr sg) (sg_bytes sg) s1 = (Inl e, info, s2)"
  shows "\<exists>mmu'. ipu6_dma_map_sg dv (dma_of env) (sg # sgs) mmu s d = Some (Inr 0, sg # sgs, mmu', s2, d) \<and>
    (lo, hi) \<in> kv_iova (V s2) - kv_iova (V s)"
proof -
  from assms(1) have l: "iova_law (dma_of env) I V" by (simp add: kernel_ok_def)
  note r = range_fresh [OF l assms(2,4,5)]
  have "mmu_inv_view (page_env (dma_of env)) I V (mmu_info mmu) s1"
    using assms(2) r(1) by (simp add: dma_inv_def mmu_inv_view_def)
  from mmut.view [OF this assms(6)] have "V s2 = (V s)\<lparr>kv_iova := insert (lo, hi) (kv_iova (V s))\<rparr>" by (simp add: r(6))
  moreover have "(lo, hi) \<notin> kv_iova (V s)" using r(3,5) assms(4) by fastforce
  moreover have "\<not> list_ex (\<lambda>sg. sg_offset sg \<noteq> 0) (sg # sgs)" using assms(3) by (auto simp: list_ex_iff)
  ultimately show ?thesis
    using assms(5,6) by (simp add: ipu6_dma_map_sg_def ipu6_dma_unmap_sg_def Let_def)
qed

theorem dma_map_sg_leaks_range_witness:
  "\<exists>mmu' s'. ipu6_dma_map_sg (trace_dev (\<lambda>l a. 0)) (dma_of ex_kernel) [\<lparr>sg_offset = 0, sg_len = 0x800, sg_addr = 0x20800\<rparr>]
       (ex_isys_mmu 0) (ex_v0, 3) [] = Some (Inr 0, [\<lparr>sg_offset = 0, sg_len = 0x800, sg_addr = 0x20800\<rparr>], mmu', s', []) \<and>
     (16, 16) \<in> kv_iova (fst s')"
proof -
  let ?sg = "\<lparr>sg_offset = 0, sg_len = 0x800, sg_addr = 0x20800\<rparr>" and ?v1 = "ex_v0\<lparr>kv_iova := {(16, 16)}\<rparr>"
  have p: "sg_pages ?sg = 1" by (simp add: sg_pages_len)
  have k: "dma_of ex_kernel = ex_dma" "mmu_info (ex_isys_mmu 0) = ex_info" by (simp_all add: ex_kernel_def ex_isys_mmu_def)
  have io: "alloc_iova ex_dma 1 (drop_bit 12 (aperture_end ex_info)) (ex_v0, 3) = (Some (16, 16), (?v1, 3))"
    by (simp add: ex_dma_def ex_v0_def ex_info_def unat_drop_bit)
  have m: "ipu6_mmu_map (page_env ex_dma) ex_info (page 16) 0x20800 (sg_bytes ?sg) (?v1, 3) =
      (Inl EINVAL, ex_info, (?v1, 3))"
    by (simp add: ipu6_mmu_map_def ex_info_def ffs_4K is_aligned_def sg_bytes_def page_def)
  from dma_map_sg_leaks_range [OF ex_kernel_ok ex_dma_inv, of ?sg "[]" 16 16 "(?v1, 3)" EINVAL ex_info "(?v1, 3)"
      "trace_dev (\<lambda>l a. 0)" "[]"] p io m show ?thesis unfolding k by auto
qed

end
