(* ===== verification/Cpd.thy ===== *)
theory Cpd
  imports Dma
begin

unbundle bit_operations_syntax

text \<open>
  The firmware package, \<^verbatim>\<open>kernel/ipu4/ipu6-cpd.c\<close>: validation of the file the driver loads, and the
  package directory it builds from it for the firmware. The file is a list of bytes; every
  access of the code is a read at an offset, and \<open>None\<close> is an access beyond the file or beyond the
  directory buffer.
\<close>

section \<open>Reading structures\<close>

definition rd :: "nat \<Rightarrow> u8 list \<Rightarrow> nat \<Rightarrow> 'a::len word option" where
  "rd n bs i = (if i + n \<le> length bs then Some (field_at i n bs) else None)"

record ipu6_cpd_hdr =
  hdr_mark :: u32
  ent_cnt :: u32
  hdr_ver :: u8
  ent_ver :: u8
  hdr_len :: u8

record ipu6_cpd_ent =
  ent_offset :: u32
  ent_len :: u32

definition rd_hdr :: "u8 list \<Rightarrow> nat \<Rightarrow> ipu6_cpd_hdr option" where
  "rd_hdr bs i =
     (if i + 11 \<le> length bs
      then Some \<lparr>hdr_mark = field_at i 4 bs, ent_cnt = field_at (i + 4) 4 bs, hdr_ver = field_at (i + 8) 1 bs,
                 ent_ver = field_at (i + 9) 1 bs, hdr_len = field_at (i + 10) 1 bs\<rparr>
      else None)"

text \<open>An entry is 24 bytes: a name of 12 bytes, offset, length and 4 reserved bytes.\<close>

definition rd_ent :: "u8 list \<Rightarrow> nat \<Rightarrow> ipu6_cpd_ent option" where
  "rd_ent bs i =
     (if i + 20 \<le> length bs
      then Some \<lparr>ent_offset = field_at (i + 12) 4 bs, ent_len = field_at (i + 16) 4 bs\<rparr> else None)"

section \<open>Constants\<close>

definition MAX_PKG_DIR_ENT_CNT :: nat where [ipu4_consts]: "MAX_PKG_DIR_ENT_CNT = 16"
definition PKG_DIR_ENT_LEN :: nat where [ipu4_consts]: "PKG_DIR_ENT_LEN = 2"
definition PKG_DIR_SIZE :: nat where [ipu4_consts]: "PKG_DIR_SIZE = MAX_PKG_DIR_ENT_CNT * PKG_DIR_ENT_LEN * 8"
definition PKG_DIR_HDR_MARK :: u64 where [ipu4_consts]: "PKG_DIR_HDR_MARK = 0x5f4955504b44525f"
definition CPD_HDR_MARK :: u32 where [ipu4_consts]: "CPD_HDR_MARK = 0x44504324"
definition MAX_MANIFEST_SIZE :: nat where [ipu4_consts]: "MAX_MANIFEST_SIZE = 2048 * 4"
definition MAX_METADATA_SIZE :: nat where [ipu4_consts]: "MAX_METADATA_SIZE = 65536"
definition MAX_COMPONENT_ID :: nat where [ipu4_consts]: "MAX_COMPONENT_ID = 127"
definition MAX_COMPONENT_VERSION :: int where [ipu4_consts]: "MAX_COMPONENT_VERSION = 0xffff"
definition MANIFEST_IDX :: nat where [ipu4_consts]: "MANIFEST_IDX = 0"
definition METADATA_IDX :: nat where [ipu4_consts]: "METADATA_IDX = 1"
definition MODULEDATA_IDX :: nat where [ipu4_consts]: "MODULEDATA_IDX = 2"
definition IPU6_CPD_METADATA_EXTN_TYPE_IUNIT :: u32 where [ipu4_consts]: "IPU6_CPD_METADATA_EXTN_TYPE_IUNIT = 0x10"
definition IPU6_CPD_METADATA_IMAGE_TYPE_MAIN_FIRMWARE :: u32 where [ipu4_consts]: "IPU6_CPD_METADATA_IMAGE_TYPE_MAIN_FIRMWARE = 2"

text \<open>Sizes of the packed structures.\<close>

definition sizeof_cpd_ent :: nat where "sizeof_cpd_ent = 24"
definition sizeof_module_data_hdr :: nat where "sizeof_module_data_hdr = 44"
definition sizeof_metadata_extn :: nat where "sizeof_metadata_extn = 28"
definition sizeof_ipu6se_cmpnt :: nat where "sizeof_ipu6se_cmpnt = 68"

lemmas cpd_sizes = sizeof_cpd_ent_def sizeof_module_data_hdr_def sizeof_metadata_extn_def

section \<open>Validation\<close>

definition ipu6_cpd_get_entry :: "u8 list \<Rightarrow> nat \<Rightarrow> ipu6_cpd_ent option" where
  "ipu6_cpd_get_entry cpd idx = do {
     hdr \<leftarrow> rd_hdr cpd 0;
     rd_ent cpd (unat (hdr_len hdr) + sizeof_cpd_ent * idx) }"

fun check_entries :: "u8 list \<Rightarrow> nat \<Rightarrow> nat \<Rightarrow> nat \<Rightarrow> unit res option" where
  "check_entries bs off data_size 0 = Some ok"
| "check_entries bs off data_size (Suc n) = do {
     ent \<leftarrow> rd_ent bs off;
     if data_size < unat (ent_offset ent) \<or> data_size - unat (ent_offset ent) < unat (ent_len ent)
     then Some (Inl EINVAL)
     else check_entries bs (off + sizeof_cpd_ent) data_size n }"

text \<open>The package at offset \<open>cpd\<close> of the file.\<close>

definition ipu6_cpd_validate_cpd :: "u8 list \<Rightarrow> nat \<Rightarrow> nat \<Rightarrow> nat \<Rightarrow> unit res option" where
  "ipu6_cpd_validate_cpd bs cpd cpd_size data_size = do {
     cpd_hdr \<leftarrow> rd_hdr bs cpd;
     let len = unat (hdr_len cpd_hdr) in
     if cpd_size < len then Some (Inl EINVAL)
     else if (cpd_size - len) div sizeof_cpd_ent < unat (ent_cnt cpd_hdr) then Some (Inl EINVAL)
     else check_entries bs (cpd + len) data_size (unat (ent_cnt cpd_hdr)) }"

definition ipu6_cpd_validate_moduledata :: "u8 list \<Rightarrow> nat \<Rightarrow> nat \<Rightarrow> unit res option" where
  "ipu6_cpd_validate_moduledata bs moduledata moduledata_size =
     (if moduledata_size < sizeof_module_data_hdr then Some (Inl EINVAL)
      else do {
        mod_hdr_len \<leftarrow> rd 4 bs moduledata :: u32 option;
        if moduledata_size < unat mod_hdr_len then Some (Inl EINVAL)
        else ipu6_cpd_validate_cpd bs (moduledata + unat mod_hdr_len)
               (moduledata_size - unat mod_hdr_len) moduledata_size })"

definition ipu6_cpd_validate_metadata :: "nat \<Rightarrow> u8 list \<Rightarrow> nat \<Rightarrow> nat \<Rightarrow> unit res option" where
  "ipu6_cpd_validate_metadata cmpnt_size bs metadata meta_size =
     (if meta_size < sizeof_metadata_extn \<or> meta_size > MAX_METADATA_SIZE then Some (Inl EINVAL)
      else do {
        extn_type \<leftarrow> rd 4 bs metadata :: u32 option;
        img_type \<leftarrow> rd 4 bs (metadata + 8) :: u32 option;
        if extn_type \<noteq> IPU6_CPD_METADATA_EXTN_TYPE_IUNIT \<or> img_type \<noteq> IPU6_CPD_METADATA_IMAGE_TYPE_MAIN_FIRMWARE
        then Some (Inl EINVAL)
        else if (meta_size - sizeof_metadata_extn) mod cmpnt_size \<noteq> 0 then Some (Inl EINVAL)
        else Some ok })"

definition ipu6_cpd_validate_cpd_file :: "nat \<Rightarrow> u8 list \<Rightarrow> nat \<Rightarrow> unit res option" where
  "ipu6_cpd_validate_cpd_file cmpnt_size cpd_file cpd_file_size = do {
     ret \<leftarrow> ipu6_cpd_validate_cpd cpd_file 0 cpd_file_size cpd_file_size;
     (case ret of
        Inl e \<Rightarrow> Some (Inl e)
      | Inr _ \<Rightarrow> do {
          hdr \<leftarrow> rd_hdr cpd_file 0;
          if hdr_mark hdr \<noteq> CPD_HDR_MARK then Some (Inl EINVAL)
          else do {
            ent \<leftarrow> ipu6_cpd_get_entry cpd_file MANIFEST_IDX;
            if unat (ent_len ent) > MAX_MANIFEST_SIZE then Some (Inl EINVAL)
            else do {
              ent1 \<leftarrow> ipu6_cpd_get_entry cpd_file METADATA_IDX;
              ret1 \<leftarrow> ipu6_cpd_validate_metadata cmpnt_size cpd_file (unat (ent_offset ent1)) (unat (ent_len ent1));
              (case ret1 of
                 Inl e \<Rightarrow> Some (Inl e)
               | Inr _ \<Rightarrow> do {
                   ent2 \<leftarrow> ipu6_cpd_get_entry cpd_file MODULEDATA_IDX;
                   ipu6_cpd_validate_moduledata cpd_file (unat (ent_offset ent2)) (unat (ent_len ent2)) }) } } }) }"

section \<open>The package directory\<close>

text \<open>
  The component of the metadata at index \<open>idx\<close>. The number of components is computed in 64
  bits, so that metadata shorter than its header would wrap around.
\<close>

definition ipu6_cpd_metadata_get_cmpnt :: "nat \<Rightarrow> nat \<Rightarrow> nat \<Rightarrow> u8 \<Rightarrow> nat res" where
  "ipu6_cpd_metadata_get_cmpnt cmpnt_size metadata metadata_size idx =
     (let cmpnt_count = unat ((word_of_nat metadata_size - word_of_nat sizeof_metadata_extn) :: u64) div cmpnt_size in
      if unat idx > MAX_COMPONENT_ID \<or> unat idx \<ge> cmpnt_count then Inl EINVAL
      else Inr (metadata + sizeof_metadata_extn + unat idx * cmpnt_size))"

text \<open>The two getters return an error as a negative number.\<close>

definition ipu6_cpd_metadata_cmpnt_version :: "nat \<Rightarrow> u8 list \<Rightarrow> nat \<Rightarrow> nat \<Rightarrow> u8 \<Rightarrow> int option" where
  "ipu6_cpd_metadata_cmpnt_version cmpnt_size bs metadata metadata_size idx =
     (case ipu6_cpd_metadata_get_cmpnt cmpnt_size metadata metadata_size idx of
        Inl e \<Rightarrow> Some (- errno_val e)
      | Inr cmpnt \<Rightarrow> map_option (\<lambda>v :: u32. sint v) (rd 4 bs (cmpnt + 8)))"

definition ipu6_cpd_metadata_get_cmpnt_id :: "nat \<Rightarrow> u8 list \<Rightarrow> nat \<Rightarrow> nat \<Rightarrow> u8 \<Rightarrow> int option" where
  "ipu6_cpd_metadata_get_cmpnt_id cmpnt_size bs metadata metadata_size idx =
     (case ipu6_cpd_metadata_get_cmpnt cmpnt_size metadata metadata_size idx of
        Inl e \<Rightarrow> Some (- errno_val e)
      | Inr cmpnt \<Rightarrow> map_option (\<lambda>v :: u32. sint v) (rd 4 bs cmpnt))"

text \<open>Writing the 64-bit word at index \<open>i\<close> of the directory buffer.\<close>

definition wr64 :: "u8 list \<Rightarrow> nat \<Rightarrow> u64 \<Rightarrow> u8 list option" where
  "wr64 bs i v = (if 8 * i + 8 \<le> length bs
     then Some (take (8 * i) bs @ le_bytes 8 (unat v) @ drop (8 * i + 8) bs) else None)"

text \<open>\<^verbatim>\<open>FIELD_PREP\<close> for the size (23:0), version (47:32) and type (54:48) fields of an entry.\<close>

definition pkg_dir_word :: "u32 \<Rightarrow> int \<Rightarrow> int \<Rightarrow> u64" where
  "pkg_dir_word len cid ver =
     ((ucast len AND 0xffffff) OR (push_bit 48 (word_of_int cid) AND 0x7f000000000000)) OR
     (push_bit 32 (word_of_int ver) AND 0xffff00000000)"

fun parse_ents ::
  "nat \<Rightarrow> u8 list \<Rightarrow> u64 \<Rightarrow> nat \<Rightarrow> nat \<Rightarrow> nat \<Rightarrow> nat \<Rightarrow> nat \<Rightarrow> u8 list \<Rightarrow> (unit res \<times> u8 list) option" where
  "parse_ents cmpnt_size bs dma metadata metadata_size dir_ent i 0 pkg_dir = Some (ok, pkg_dir)"
| "parse_ents cmpnt_size bs dma metadata metadata_size dir_ent i (Suc n) pkg_dir = do {
     ent \<leftarrow> rd_ent bs dir_ent;
     pkg_dir1 \<leftarrow> wr64 pkg_dir (PKG_DIR_ENT_LEN * (1 + i)) (dma + ucast (ent_offset ent));
     cid \<leftarrow> ipu6_cpd_metadata_get_cmpnt_id cmpnt_size bs metadata metadata_size (word_of_nat i);
     if cid < 0 \<or> cid > int MAX_COMPONENT_ID then Some (Inl EINVAL, pkg_dir1)
     else do {
       ver \<leftarrow> ipu6_cpd_metadata_cmpnt_version cmpnt_size bs metadata metadata_size (word_of_nat i);
       if ver < 0 \<or> ver > MAX_COMPONENT_VERSION then Some (Inl EINVAL, pkg_dir1)
       else do {
         pkg_dir2 \<leftarrow> wr64 pkg_dir1 (PKG_DIR_ENT_LEN * (1 + i) + 1) (pkg_dir_word (ent_len ent) cid ver);
         parse_ents cmpnt_size bs dma metadata metadata_size (dir_ent + sizeof_cpd_ent) (Suc i) n pkg_dir2 } } }"

definition ipu6_cpd_parse_module_data ::
  "nat \<Rightarrow> u8 list \<Rightarrow> nat \<Rightarrow> u64 \<Rightarrow> u8 list \<Rightarrow> nat \<Rightarrow> nat \<Rightarrow> (unit res \<times> u8 list) option" where
  "ipu6_cpd_parse_module_data cmpnt_size bs module_data dma pkg_dir metadata metadata_size = do {
     mod_hdr_len \<leftarrow> rd 4 bs module_data :: u32 option;
     let dir = module_data + unat mod_hdr_len;
     dir_hdr \<leftarrow> rd_hdr bs dir;
     pkg_dir1 \<leftarrow> wr64 pkg_dir 0 PKG_DIR_HDR_MARK;
     pkg_dir2 \<leftarrow> wr64 pkg_dir1 1 (ucast (ent_cnt dir_hdr + 1));
     parse_ents cmpnt_size bs dma metadata metadata_size (dir + unat (hdr_len dir_hdr)) 0
       (unat (ent_cnt dir_hdr)) pkg_dir2 }"

text \<open>Copying \<open>n\<close> bytes at \<open>src\<close> of the file to \<open>pos\<close> of the directory buffer.\<close>

definition copy_bytes :: "u8 list \<Rightarrow> nat \<Rightarrow> nat \<Rightarrow> nat \<Rightarrow> u8 list \<Rightarrow> u8 list option" where
  "copy_bytes bs src n pos dst =
     (if src + n \<le> length bs \<and> pos + n \<le> length dst
      then Some (take pos dst @ take n (drop src bs) @ drop (pos + n) dst) else None)"

text \<open>
  The directory of a bus device: the result, the buffer with its kernel and device address,
  and the state of the DMA layer. The buffer comes zeroed and in whole pages.
\<close>

definition ipu6_cpd_create_pkg_dir ::
  "'d mmio_dev \<Rightarrow> 's buf_env \<Rightarrow> nat \<Rightarrow> u8 list \<Rightarrow> u64 \<Rightarrow> ipu6_mmu \<Rightarrow> 's \<Rightarrow> 'd \<Rightarrow>
   ((u8 list \<times> u64 \<times> u64 \<times> u32) res \<times> ipu6_mmu \<times> 's \<times> 'd) option" where
  "ipu6_cpd_create_pkg_dir dv env cmpnt_size src dma_addr_src mmu s d = do {
     man_ent \<leftarrow> ipu6_cpd_get_entry src MANIFEST_IDX;
     met_ent \<leftarrow> ipu6_cpd_get_entry src METADATA_IDX;
     let sz = (word_of_nat (PKG_DIR_SIZE + unat (ent_len man_ent) + unat (ent_len met_ent)) :: u32);
     (r, mmu1, s1) \<leftarrow> ipu6_dma_alloc env (ucast sz) mmu s;
     (case r of
        None \<Rightarrow> Some (Inl ENOMEM, mmu1, s1, d)
      | Some (vaddr, handle) \<Rightarrow> do {
          ent \<leftarrow> ipu6_cpd_get_entry src MODULEDATA_IDX;
          (ret, pkg_dir) \<leftarrow> ipu6_cpd_parse_module_data cmpnt_size src (unat (ent_offset ent))
             (dma_addr_src + ucast (ent_offset ent)) (replicate (unat (ALIGN_PAGE (ucast sz))) 0)
             (unat (ent_offset met_ent)) (unat (ent_len met_ent));
          (case ret of
             Inl e \<Rightarrow> map_option (\<lambda>(mmu2, s2, d2). (Inl e, mmu2, s2, d2))
                        (ipu6_dma_free dv env (ucast sz) vaddr handle mmu1 s1 d)
           | Inr _ \<Rightarrow> do {
               pkg_dir1 \<leftarrow> copy_bytes src (unat (ent_offset man_ent)) (unat (ent_len man_ent)) PKG_DIR_SIZE pkg_dir;
               pkg_dir2 \<leftarrow> copy_bytes src (unat (ent_offset met_ent)) (unat (ent_len met_ent))
                             (PKG_DIR_SIZE + unat (ent_len man_ent)) pkg_dir1;
               Some (Inr (pkg_dir2, vaddr, handle, sz), mmu1, s1, d) }) }) }"

definition ipu6_cpd_free_pkg_dir ::
  "'d mmio_dev \<Rightarrow> 's buf_env \<Rightarrow> u64 \<times> u64 \<times> u32 \<Rightarrow> ipu6_mmu \<Rightarrow> 's \<Rightarrow> 'd \<Rightarrow> (ipu6_mmu \<times> 's \<times> 'd) option" where
  "ipu6_cpd_free_pkg_dir dv env pd mmu s d =
     (case pd of (vaddr, handle, sz) \<Rightarrow> ipu6_dma_free dv env (ucast sz) vaddr handle mmu s d)"

end
