(* ===== verification/Cpd_Props.thy ===== *)
theory Cpd_Props
  imports Cpd Dma_Props
begin

unbundle bit_operations_syntax

text \<open>
  Correctness of the package directory of \<^verbatim>\<open>kernel/ipu4/ipu6-cpd.c\<close>: a validated file is never read
  beyond its end, the directory buffer is never written beyond its end, and the entries are
  what the firmware expects to find.
\<close>

section \<open>Reads and writes in bounds\<close>

lemma rd_Some: "i + n \<le> length bs \<Longrightarrow> rd n bs i = Some (field_at i n bs)"
  by (simp add: rd_def)

lemma rd_ent_Some: "i + 20 \<le> length bs \<Longrightarrow> \<exists>e. rd_ent bs i = Some e"
  by (simp add: rd_ent_def)

lemma wr64_Some: "8 * i + 8 \<le> length bs \<Longrightarrow> \<exists>bs'. wr64 bs i v = Some bs' \<and> length bs' = length bs"
  by (simp add: wr64_def)

lemma wr64_length: "wr64 bs i v = Some bs' \<Longrightarrow> length bs' = length bs"
  by (auto simp: wr64_def split: if_splits)

lemma wr64_read:
  assumes "wr64 bs i v = Some bs'" "8 * j + 8 \<le> length bs"
  shows "field_at (8 * j) 8 bs' = (if j = i then v else field_at (8 * j) 8 bs)"
proof -
  from assms(1) have b: "8 * i + 8 \<le> length bs" "bs' = take (8 * i) bs @ le_bytes 8 (unat v) @ drop (8 * i + 8) bs"
    by (auto simp: wr64_def split: if_splits)
  consider "j = i" | "j < i" | "i < j" by linarith
  then show ?thesis
  proof cases
    case 1
    then show ?thesis using b field_at_bytes [of "take (8 * i) bs" "8 * i" 8 v] by simp
  next
    case 2
    then have "8 * j + 8 \<le> 8 * i" by simp
    then have "take 8 (drop (8 * j) bs') = take 8 (drop (8 * j) bs)"
      using b by (simp add: take_drop min_def)
    with 2 show ?thesis by (simp add: field_at_def)
  next
    case 3
    then have "8 * i + 8 \<le> 8 * j" by simp
    then have "drop (8 * j) bs' = drop (8 * j) bs" using b by (simp add: drop_append)
    with 3 show ?thesis by (simp add: field_at_def)
  qed
qed

lemma check_entries_ok:
  assumes "check_entries bs off sz n = Some ok" "k < n"
  shows "\<exists>e. rd_ent bs (off + 24 * k) = Some e \<and> unat (ent_offset e) + unat (ent_len e) \<le> sz"
  using assms
proof (induction bs off sz n arbitrary: k rule: check_entries.induct)
  case (1 bs off sz)
  then show ?case by simp
next
  case (2 bs off sz n)
  then obtain e where e: "rd_ent bs off = Some e" "\<not> (sz < unat (ent_offset e) \<or> sz - unat (ent_offset e) < unat (ent_len e))"
    "check_entries bs (off + sizeof_cpd_ent) sz n = Some ok"
    by (auto simp: bind_eq_Some_conv split: if_splits)
  show ?case
  proof (cases k)
    case 0
    with e show ?thesis by auto
  next
    case (Suc k')
    with "2.IH" [OF e, of k'] "2.prems"(2) show ?thesis by (simp add: sizeof_cpd_ent_def algebra_simps)
  qed
qed

lemma rd_ent_bound: "rd_ent bs i = Some e \<Longrightarrow> i + 20 \<le> length bs"
  by (auto simp: rd_ent_def split: if_splits)

section \<open>What validation guarantees\<close>

lemma res_case_ok: "(case r of Inl e \<Rightarrow> Some (Inl e) | Inr _ \<Rightarrow> x) = Some ok \<longleftrightarrow> r = ok \<and> x = Some ok"
  by (cases r) auto

lemma validate_cpd_ok:
  assumes "ipu6_cpd_validate_cpd bs cpd csz dsz = Some ok"
  shows "\<exists>h. rd_hdr bs cpd = Some h \<and> unat (hdr_len h) + 24 * unat (ent_cnt h) \<le> csz \<and>
    (\<forall>k < unat (ent_cnt h). \<exists>e. rd_ent bs (cpd + unat (hdr_len h) + 24 * k) = Some e \<and>
       unat (ent_offset e) + unat (ent_len e) \<le> dsz)"
proof -
  from assms obtain h where h: "rd_hdr bs cpd = Some h" "\<not> csz < unat (hdr_len h)"
    "\<not> (csz - unat (hdr_len h)) div 24 < unat (ent_cnt h)"
    "check_entries bs (cpd + unat (hdr_len h)) dsz (unat (ent_cnt h)) = Some ok"
    by (auto simp: ipu6_cpd_validate_cpd_def bind_eq_Some_conv Let_def sizeof_cpd_ent_def split: if_splits)
  have "24 * ((csz - unat (hdr_len h)) div 24) \<le> csz - unat (hdr_len h)" by simp
  with h(2,3) have "unat (hdr_len h) + 24 * unat (ent_cnt h) \<le> csz" by linarith
  with h(1) check_entries_ok [OF h(4)] show ?thesis by blast
qed

text \<open>
  The parts of a validated file with at least the three entries the driver uses: manifest,
  metadata and module data lie in the file, the metadata has its header, and the directory
  of the module data and all its entries lie in the module data.
\<close>

lemma validate_file_ok:
  assumes "ipu6_cpd_validate_cpd_file cs bs (length bs) = Some ok" "rd_hdr bs 0 = Some h" "3 \<le> unat (ent_cnt h)"
  obtains man met md hl dh where
    "ipu6_cpd_get_entry bs MANIFEST_IDX = Some man" "unat (ent_offset man) + unat (ent_len man) \<le> length bs" "unat (ent_len man) \<le> 8192"
    "ipu6_cpd_get_entry bs METADATA_IDX = Some met" "unat (ent_offset met) + unat (ent_len met) \<le> length bs"
    "28 \<le> unat (ent_len met)" "unat (ent_len met) \<le> 65536"
    "ipu6_cpd_get_entry bs MODULEDATA_IDX = Some md" "unat (ent_offset md) + unat (ent_len md) \<le> length bs"
    "rd 4 bs (unat (ent_offset md)) = Some (hl :: u32)" "rd_hdr bs (unat (ent_offset md) + unat hl) = Some dh"
    "\<And>k. k < unat (ent_cnt dh) \<Longrightarrow> \<exists>e. rd_ent bs (unat (ent_offset md) + unat hl + unat (hdr_len dh) + 24 * k) = Some e \<and>
       unat (ent_offset e) + unat (ent_len e) \<le> unat (ent_len md)"
proof -
  from assms(1) obtain ret where "ipu6_cpd_validate_cpd bs 0 (length bs) (length bs) = Some ret"
    by (auto simp: ipu6_cpd_validate_cpd_file_def bind_eq_Some_conv)
  with assms(1) have v: "ipu6_cpd_validate_cpd bs 0 (length bs) (length bs) = Some ok"
    by (cases ret) (simp_all add: ipu6_cpd_validate_cpd_file_def)
  from validate_cpd_ok [OF v] assms(2) have ents: "\<forall>k < unat (ent_cnt h). \<exists>e. rd_ent bs (unat (hdr_len h) + 24 * k) = Some e \<and>
       unat (ent_offset e) + unat (ent_len e) \<le> length bs" by auto
  have get: "ipu6_cpd_get_entry bs k = rd_ent bs (unat (hdr_len h) + 24 * k)" for k
    by (simp add: ipu6_cpd_get_entry_def assms(2) sizeof_cpd_ent_def)
  from assms(1) v assms(2) obtain man met md where p:
    "ipu6_cpd_get_entry bs MANIFEST_IDX = Some man" "unat (ent_len man) \<le> 8192"
    "ipu6_cpd_get_entry bs METADATA_IDX = Some met"
    "ipu6_cpd_validate_metadata cs bs (unat (ent_offset met)) (unat (ent_len met)) = Some ok"
    "ipu6_cpd_get_entry bs MODULEDATA_IDX = Some md"
    "ipu6_cpd_validate_moduledata bs (unat (ent_offset md)) (unat (ent_len md)) = Some ok"
    by (auto simp: ipu6_cpd_validate_cpd_file_def bind_eq_Some_conv MAX_MANIFEST_SIZE_def res_case_ok split: if_splits)
  have r: "unat (ent_offset e) + unat (ent_len e) \<le> length bs" if "ipu6_cpd_get_entry bs k = Some e" "k < 3" for e k
    using ents [rule_format, of k] that assms(3) get [of k] by auto
  from p(4) have m: "28 \<le> unat (ent_len met)" "unat (ent_len met) \<le> 65536"
    by (auto simp: ipu6_cpd_validate_metadata_def sizeof_metadata_extn_def MAX_METADATA_SIZE_def split: if_splits)
  from p(6) obtain hl :: u32 where hl: "rd 4 bs (unat (ent_offset md)) = Some hl"
    "ipu6_cpd_validate_cpd bs (unat (ent_offset md) + unat hl) (unat (ent_len md) - unat hl) (unat (ent_len md)) = Some ok"
    by (auto simp: ipu6_cpd_validate_moduledata_def bind_eq_Some_conv split: if_splits)
  from validate_cpd_ok [OF hl(2)] obtain dh where "rd_hdr bs (unat (ent_offset md) + unat hl) = Some dh"
    "\<forall>k < unat (ent_cnt dh). \<exists>e. rd_ent bs (unat (ent_offset md) + unat hl + unat (hdr_len dh) + 24 * k) = Some e \<and>
       unat (ent_offset e) + unat (ent_len e) \<le> unat (ent_len md)" by blast
  with that p m hl(1) r [OF p(1)] r [OF p(3)] r [OF p(5)] show thesis
    by (simp add: MANIFEST_IDX_def METADATA_IDX_def MODULEDATA_IDX_def)
qed

section \<open>Building the entries\<close>

lemma get_cmpnt_bound:
  assumes "28 \<le> msz" "msz \<le> 65536" "0 < cs" "i \<le> 128"
    and "ipu6_cpd_metadata_get_cmpnt cs met msz (word_of_nat i) = Inr off"
  shows "i < 128" "off = met + 28 + i * cs" "28 + cs * Suc i \<le> msz"
proof -
  have u: "unat (word_of_nat i :: u8) = i" using assms(4) by (intro unat_of_nat_less) simp
  have "(28 :: u64) \<le> word_of_nat msz" using assms(1,2) by (simp add: word_le_nat_alt unat_of_nat_u64)
  then have "unat (word_of_nat msz - 28 :: u64) = msz - 28"
    using assms(2) by (simp add: unat_sub_le unat_of_nat_u64)
  then have c: "\<not> (127 < i \<or> i \<ge> (msz - 28) div cs)" "off = met + 28 + i * cs"
    using assms(5) by (auto simp: ipu6_cpd_metadata_get_cmpnt_def Let_def u sizeof_metadata_extn_def MAX_COMPONENT_ID_def split: if_splits)
  then show "i < 128" "off = met + 28 + i * cs" by simp_all
  from c(1) have "Suc i \<le> (msz - 28) div cs" by simp
  then have "Suc i * cs \<le> msz - 28" using assms(3) by (simp add: less_eq_div_iff_mult_less_eq)
  then show "28 + cs * Suc i \<le> msz" using assms(1) by (simp add: mult.commute)
qed

lemma cmpnt_id_Some:
  assumes "28 \<le> msz" "msz \<le> 65536" "12 \<le> cs" "i \<le> 128" "met + msz \<le> length bs"
  shows "\<exists>v. ipu6_cpd_metadata_get_cmpnt_id cs bs met msz (word_of_nat i) = Some v \<and> (0 \<le> v \<longrightarrow> i < 128 \<and> 28 + cs * Suc i \<le> msz)"
    and "\<exists>v. ipu6_cpd_metadata_cmpnt_version cs bs met msz (word_of_nat i) = Some v"
proof -
  have cs: "0 < cs" using assms(3) by simp
  have "\<exists>v. ipu6_cpd_metadata_get_cmpnt_id cs bs met msz (word_of_nat i) = Some v \<and> (0 \<le> v \<longrightarrow> i < 128 \<and> 28 + cs * Suc i \<le> msz) \<and>
    (\<exists>v. ipu6_cpd_metadata_cmpnt_version cs bs met msz (word_of_nat i) = Some v)"
  proof (cases "ipu6_cpd_metadata_get_cmpnt cs met msz (word_of_nat i)")
    case (Inl e)
    then have "e = EINVAL" by (auto simp: ipu6_cpd_metadata_get_cmpnt_def Let_def split: if_splits)
    with Inl show ?thesis by (simp add: ipu6_cpd_metadata_get_cmpnt_id_def ipu6_cpd_metadata_cmpnt_version_def)
  next
    case (Inr off)
    note b = get_cmpnt_bound [OF assms(1,2) cs assms(4) Inr]
    have "cs * Suc i = i * cs + cs" by (simp add: mult.commute)
    with b(2,3) assms(3,5) have "off + 12 \<le> length bs" by linarith
    with Inr b(1,3) show ?thesis
      by (simp add: ipu6_cpd_metadata_get_cmpnt_id_def ipu6_cpd_metadata_cmpnt_version_def rd_Some)
  qed
  then show "\<exists>v. ipu6_cpd_metadata_get_cmpnt_id cs bs met msz (word_of_nat i) = Some v \<and> (0 \<le> v \<longrightarrow> i < 128 \<and> 28 + cs * Suc i \<le> msz)"
    "\<exists>v. ipu6_cpd_metadata_cmpnt_version cs bs met msz (word_of_nat i) = Some v" by blast+
qed

text \<open>
  The loop stays in the file and in the buffer: a component that is accepted has taken its
  share of the metadata, which is more than its two words of the directory.
\<close>

lemma parse_ents_total:
  assumes "28 \<le> msz" "msz \<le> 65536" "16 \<le> cs" "met + msz \<le> length bs" "i \<le> 128" "i = 0 \<or> 28 + cs * i \<le> msz"
    and "\<And>k. k < n \<Longrightarrow> \<exists>e. rd_ent bs (dir + 24 * k) = Some e" "256 + msz \<le> length pkg"
  shows "\<exists>r pkg'. parse_ents cs bs dma met msz dir i n pkg = Some (r, pkg') \<and> length pkg' = length pkg"
  using assms
proof (induction n arbitrary: i dir pkg)
  case 0
  then show ?case by simp
next
  case (Suc n)
  obtain e where e: "rd_ent bs dir = Some e" using Suc.prems(7) [of 0] by auto
  have "16 * i \<le> cs * i" using Suc.prems(3) by (rule mult_le_mono1)
  then have "16 * i \<le> msz" using Suc.prems(6) by linarith
  with Suc.prems(8) have b: "8 * (2 * (1 + i)) + 8 \<le> length pkg" by simp
  obtain pkg1 where w: "wr64 pkg (2 * (1 + i)) (dma + ucast (ent_offset e)) = Some pkg1" "length pkg1 = length pkg"
    using wr64_Some [OF b] by blast
  have "12 \<le> cs" using Suc.prems(3) by simp
  note c = cmpnt_id_Some [OF Suc.prems(1,2) this Suc.prems(5,4)]
  obtain cid where id: "ipu6_cpd_metadata_get_cmpnt_id cs bs met msz (word_of_nat i) = Some cid"
    "0 \<le> cid \<Longrightarrow> i < 128 \<and> 28 + cs * Suc i \<le> msz" using c(1) by blast
  obtain ver where ver: "ipu6_cpd_metadata_cmpnt_version cs bs met msz (word_of_nat i) = Some ver" using c(2) by blast
  show ?case
  proof (cases "cid < 0 \<or> cid > 127 \<or> ver < 0 \<or> ver > 0xffff")
    case True
    then show ?thesis using e w id(1) ver
      by (auto simp: PKG_DIR_ENT_LEN_def MAX_COMPONENT_ID_def MAX_COMPONENT_VERSION_def)
  next
    case False
    then have i: "i < 128" "28 + cs * Suc i \<le> msz" using id(2) by simp_all
    have "16 * Suc i \<le> cs * Suc i" using Suc.prems(3) by (rule mult_le_mono1)
    then have "8 * (2 * (1 + i) + 1) + 8 \<le> length pkg1" using i(2) Suc.prems(8) w(2) by simp
    then obtain pkg2 where w2: "wr64 pkg1 (2 * (1 + i) + 1) (pkg_dir_word (ent_len e) cid ver) = Some pkg2" "length pkg2 = length pkg1"
      using wr64_Some by blast
    have "\<exists>e. rd_ent bs (dir + 24 + 24 * k) = Some e" if "k < n" for k
      using Suc.prems(7) [of "Suc k"] that by (simp add: algebra_simps)
    then obtain r pkg' where "parse_ents cs bs dma met msz (dir + 24) (Suc i) n pkg2 = Some (r, pkg')" "length pkg' = length pkg2"
      using Suc.IH [OF Suc.prems(1-4), of "Suc i" "dir + 24" pkg2] i w(2) w2(2) Suc.prems(8) by auto
    then show ?thesis using e w id(1) ver w2 False
      by (auto simp: PKG_DIR_ENT_LEN_def MAX_COMPONENT_ID_def MAX_COMPONENT_VERSION_def sizeof_cpd_ent_def)
  qed
qed

text \<open>The words of an entry, and the fields of its second word.\<close>

abbreviation pkg_word :: "u8 list \<Rightarrow> nat \<Rightarrow> u64" where
  "pkg_word pkg j \<equiv> field_at (8 * j) 8 pkg"

lemma pkg_dir_word_fields:
  assumes "0 \<le> cid" "cid \<le> 127" "0 \<le> ver" "ver \<le> 0xffff"
  shows "pkg_dir_word len cid ver AND mask 24 = ucast len AND mask 24"
    and "drop_bit 48 (pkg_dir_word len cid ver) AND mask 7 = word_of_int cid"
    and "drop_bit 32 (pkg_dir_word len cid ver) AND mask 16 = word_of_int ver"
proof -
  have m: "(0xffffff :: u64) = mask 24" "(0x7f000000000000 :: u64) = push_bit 48 (mask 7)"
    "(0xffff00000000 :: u64) = push_bit 32 (mask 16)"
    by (simp_all add: mask_eq_exp_minus_1 push_bit_eq_mult)
  have t: "take_bit 7 cid = cid" "take_bit 16 ver = ver" using assms by (simp_all add: take_bit_int_eq_self)
  have c: "bit cid n \<Longrightarrow> n < 7" "bit ver n \<Longrightarrow> n < 16" for n
    using arg_cong [OF t(1), of "\<lambda>x. bit x n"] arg_cong [OF t(2), of "\<lambda>x. bit x n"]
    by (auto simp: bit_simps)
  have c': "bit cid n \<Longrightarrow> n < 16" for n using c(1) [of n] by simp
  show "pkg_dir_word len cid ver AND mask 24 = ucast len AND mask 24"
    unfolding pkg_dir_word_def m by (rule bit_word_eqI) (auto simp: bit_simps)
  show "drop_bit 48 (pkg_dir_word len cid ver) AND mask 7 = word_of_int cid"
    unfolding pkg_dir_word_def m by (rule bit_word_eqI) (auto simp: bit_simps dest: c c')
  show "drop_bit 32 (pkg_dir_word len cid ver) AND mask 16 = word_of_int ver"
    unfolding pkg_dir_word_def m by (rule bit_word_eqI) (auto simp: bit_simps dest: c c')
qed

lemma parse_ents_words:
  assumes "parse_ents cs bs dma met msz dir i n pkg = Some (ok, pkg')"
  shows "length pkg' = length pkg \<and>
    (\<forall>j. 8 * j + 8 \<le> length pkg \<longrightarrow> j < 2 * (1 + i) \<or> 2 * (1 + i + n) \<le> j \<longrightarrow> pkg_word pkg' j = pkg_word pkg j) \<and>
    (\<forall>k < n. \<exists>e cid ver. rd_ent bs (dir + 24 * k) = Some e \<and>
       ipu6_cpd_metadata_get_cmpnt_id cs bs met msz (word_of_nat (i + k)) = Some cid \<and> 0 \<le> cid \<and> cid \<le> 127 \<and>
       ipu6_cpd_metadata_cmpnt_version cs bs met msz (word_of_nat (i + k)) = Some ver \<and> 0 \<le> ver \<and> ver \<le> 0xffff \<and>
       pkg_word pkg' (2 * (1 + (i + k))) = dma + ucast (ent_offset e) \<and>
       pkg_word pkg' (2 * (1 + (i + k)) + 1) = pkg_dir_word (ent_len e) cid ver)"
  using assms
proof (induction n arbitrary: i dir pkg)
  case 0
  then show ?case by simp
next
  case (Suc n)
  from Suc.prems obtain e pkg1 cid ver pkg2 where st: "rd_ent bs dir = Some e"
    "wr64 pkg (2 * (1 + i)) (dma + ucast (ent_offset e)) = Some pkg1"
    "ipu6_cpd_metadata_get_cmpnt_id cs bs met msz (word_of_nat i) = Some cid" "0 \<le> cid" "cid \<le> 127"
    "ipu6_cpd_metadata_cmpnt_version cs bs met msz (word_of_nat i) = Some ver" "0 \<le> ver" "ver \<le> 0xffff"
    "wr64 pkg1 (2 * (1 + i) + 1) (pkg_dir_word (ent_len e) cid ver) = Some pkg2"
    "parse_ents cs bs dma met msz (dir + 24) (Suc i) n pkg2 = Some (ok, pkg')"
    by (auto simp: bind_eq_Some_conv PKG_DIR_ENT_LEN_def MAX_COMPONENT_ID_def MAX_COMPONENT_VERSION_def
        sizeof_cpd_ent_def split: if_splits)
  note IH = Suc.IH [OF st(10)]
  have len: "length pkg1 = length pkg" "length pkg2 = length pkg" using wr64_length [OF st(2)] wr64_length [OF st(9)] by simp_all
  have fits: "8 * (2 * (1 + i) + 1) + 8 \<le> length pkg"
    using st(9) len by (auto simp: wr64_def split: if_splits)
  have w: "pkg_word pkg2 j = (if j = 2 * (1 + i) + 1 then pkg_dir_word (ent_len e) cid ver
      else if j = 2 * (1 + i) then dma + ucast (ent_offset e) else pkg_word pkg j)" if "8 * j + 8 \<le> length pkg" for j
    using wr64_read [OF st(9), of j] wr64_read [OF st(2), of j] that len by simp
  have keep: "pkg_word pkg' j = pkg_word pkg2 j" if "8 * j + 8 \<le> length pkg" "j < 2 * (1 + Suc i)" for j
    using IH that len by simp
  have now: "pkg_word pkg' (2 * (1 + i)) = dma + ucast (ent_offset e)" "pkg_word pkg' (2 * (1 + i) + 1) = pkg_dir_word (ent_len e) cid ver"
    using keep [of "2 * (1 + i)"] keep [of "2 * (1 + i) + 1"] w [of "2 * (1 + i)"] w [of "2 * (1 + i) + 1"] fits by simp_all
  have "\<exists>e cid ver. rd_ent bs (dir + 24 * k) = Some e \<and>
       ipu6_cpd_metadata_get_cmpnt_id cs bs met msz (word_of_nat (i + k)) = Some cid \<and> 0 \<le> cid \<and> cid \<le> 127 \<and>
       ipu6_cpd_metadata_cmpnt_version cs bs met msz (word_of_nat (i + k)) = Some ver \<and> 0 \<le> ver \<and> ver \<le> 0xffff \<and>
       pkg_word pkg' (2 * (1 + (i + k))) = dma + ucast (ent_offset e) \<and>
       pkg_word pkg' (2 * (1 + (i + k)) + 1) = pkg_dir_word (ent_len e) cid ver" if "k < Suc n" for k
  proof (cases k)
    case 0
    with st now show ?thesis by simp
  next
    case (Suc k')
    with that IH [THEN conjunct2, THEN conjunct2, rule_format, of k'] show ?thesis by (simp add: algebra_simps)
  qed
  moreover have "pkg_word pkg' j = pkg_word pkg j"
    if "8 * j + 8 \<le> length pkg" "j < 2 * (1 + i) \<or> 2 * (1 + i + Suc n) \<le> j" for j
  proof -
    have "pkg_word pkg' j = pkg_word pkg2 j"
      using IH [THEN conjunct2, THEN conjunct1, rule_format, of j] that len by auto
    also have "\<dots> = pkg_word pkg j" using w [OF that(1)] that(2) by auto
    finally show ?thesis .
  qed
  ultimately show ?case using IH len by simp
qed

section \<open>A small package\<close>

text \<open>Three entries, one component: manifest empty, metadata of 96 bytes, module data of 84.\<close>

definition ex_cpd :: "u8 list" where
  "ex_cpd = le_bytes 4 0x44504324 @ le_bytes 4 3 @ le_bytes 1 0 @ le_bytes 1 0 @ le_bytes 1 16 @ le_bytes 1 0 @ replicate 4 0
     @ replicate 12 0 @ le_bytes 4 88 @ le_bytes 4 0 @ replicate 4 0
     @ replicate 12 0 @ le_bytes 4 88 @ le_bytes 4 96 @ replicate 4 0
     @ replicate 12 0 @ le_bytes 4 184 @ le_bytes 4 84 @ replicate 4 0
     @ le_bytes 4 0x10 @ le_bytes 4 0 @ le_bytes 4 2 @ replicate 16 0 @ le_bytes 4 1 @ le_bytes 4 0 @ le_bytes 4 5 @ replicate 56 0
     @ le_bytes 4 44 @ replicate 40 0 @ le_bytes 4 0 @ le_bytes 4 1 @ le_bytes 1 0 @ le_bytes 1 0 @ le_bytes 1 16 @ le_bytes 1 0 @ replicate 4 0
     @ replicate 12 0 @ le_bytes 4 84 @ le_bytes 4 0 @ replicate 4 0"

lemma ex_cpd_length: "length ex_cpd = 268"
  by (simp add: ex_cpd_def)

lemma field_at_skip: "length xs \<le> i \<Longrightarrow> field_at i n (xs @ ys) = field_at (i - length xs) n ys"
  by (simp add: field_at_def)

lemma field_at_hit: "field_at 0 n (le_bytes n c @ ys) = word_of_nat (c mod 256 ^ n)"
  by (simp add: field_at_def le_val_bytes)

lemma ex_cpd_structs:
  "rd_hdr ex_cpd 0 = Some \<lparr>hdr_mark = 0x44504324, ent_cnt = 3, hdr_ver = 0, ent_ver = 0, hdr_len = 16\<rparr>"
  "rd_ent ex_cpd 16 = Some \<lparr>ent_offset = 88, ent_len = 0\<rparr>"
  "rd_ent ex_cpd 40 = Some \<lparr>ent_offset = 88, ent_len = 96\<rparr>"
  "rd_ent ex_cpd 64 = Some \<lparr>ent_offset = 184, ent_len = 84\<rparr>"
  "rd 4 ex_cpd 88 = Some (0x10 :: u32)"
  "rd 4 ex_cpd 96 = Some (2 :: u32)"
  "rd 4 ex_cpd 184 = Some (44 :: u32)"
  "rd_hdr ex_cpd 228 = Some \<lparr>hdr_mark = 0, ent_cnt = 1, hdr_ver = 0, ent_ver = 0, hdr_len = 16\<rparr>"
  "rd_ent ex_cpd 244 = Some \<lparr>ent_offset = 84, ent_len = 0\<rparr>"
  by (simp_all add: rd_def rd_hdr_def rd_ent_def ex_cpd_length) (simp_all add: ex_cpd_def field_at_skip field_at_hit del: le_bytes.simps)

section \<open>Creating the directory\<close>

text \<open>The arguments under which the driver creates the directory: a validated file with its three entries.\<close>

definition cpd_checked :: "nat \<Rightarrow> u8 list \<Rightarrow> bool" where
  "cpd_checked cs bs \<longleftrightarrow> 16 \<le> cs \<and> ipu6_cpd_validate_cpd_file cs bs (length bs) = Some ok \<and>
     (\<exists>h. rd_hdr bs 0 = Some h \<and> 3 \<le> unat (ent_cnt h))"

lemma pkg_dir_bytes:
  assumes "man \<le> 8192" "met \<le> 65536"
  shows "unat (word_of_nat (PKG_DIR_SIZE + man + met) :: u32) = 256 + man + met"
    "0 < (ucast (word_of_nat (PKG_DIR_SIZE + man + met) :: u32) :: u64)"
    "(ucast (word_of_nat (PKG_DIR_SIZE + man + met) :: u32) :: u64) \<le> 0x7fffffffffffffff"
    "256 + man + met \<le> unat (ALIGN_PAGE (ucast (word_of_nat (PKG_DIR_SIZE + man + met) :: u32)))"
proof -
  let ?w = "word_of_nat (PKG_DIR_SIZE + man + met) :: u32"
  have c: "PKG_DIR_SIZE = 256" by (simp add: ipu4_consts)
  show u: "unat ?w = 256 + man + met" using assms unfolding c by (intro unat_of_nat_u32) simp
  then have v: "unat (ucast ?w :: u64) = 256 + man + met" by (simp add: unat_ucast_up)
  then show p: "0 < (ucast ?w :: u64)" "(ucast ?w :: u64) \<le> 0x7fffffffffffffff"
    using assms by (simp_all add: word_less_nat_alt word_le_nat_alt del: of_nat_add)
  have "unat (ALIGN_PAGE (ucast ?w)) = 4096 * buf_pages (ucast ?w)"
    using ALIGN_PAGE_pages(1,4) [OF p] by (simp add: unat_page)
  then show "256 + man + met \<le> unat (ALIGN_PAGE (ucast ?w))" by (simp add: buf_pages_def v del: of_nat_add)
qed

lemma parse_module_data_total:
  assumes "cpd_checked cs bs" "ipu6_cpd_get_entry bs MANIFEST_IDX = Some man" "ipu6_cpd_get_entry bs METADATA_IDX = Some met"
    and "ipu6_cpd_get_entry bs MODULEDATA_IDX = Some md" "256 + unat (ent_len met) \<le> length pkg"
  shows "\<exists>r pkg'. ipu6_cpd_parse_module_data cs bs (unat (ent_offset md)) dma pkg (unat (ent_offset met)) (unat (ent_len met)) = Some (r, pkg') \<and>
    length pkg' = length pkg"
proof -
  from assms(1) obtain h where h: "16 \<le> cs" "ipu6_cpd_validate_cpd_file cs bs (length bs) = Some ok" "rd_hdr bs 0 = Some h" "3 \<le> unat (ent_cnt h)"
    by (auto simp: cpd_checked_def)
  obtain hl :: u32 and dh where v: "unat (ent_offset met) + unat (ent_len met) \<le> length bs" "28 \<le> unat (ent_len met)" "unat (ent_len met) \<le> 65536"
    "rd 4 bs (unat (ent_offset md)) = Some hl" "rd_hdr bs (unat (ent_offset md) + unat hl) = Some dh"
    "\<And>k. k < unat (ent_cnt dh) \<Longrightarrow> \<exists>e. rd_ent bs (unat (ent_offset md) + unat hl + unat (hdr_len dh) + 24 * k) = Some e"
    by (rule validate_file_ok [OF h(2-4)]) (use assms(2-4) in \<open>fastforce\<close>)
  obtain pkg1 where p1: "wr64 pkg 0 PKG_DIR_HDR_MARK = Some pkg1" "length pkg1 = length pkg"
    using wr64_Some [of 0 pkg] assms(5) by auto
  obtain pkg2 where p2: "wr64 pkg1 1 (ucast (ent_cnt dh + 1)) = Some pkg2" "length pkg2 = length pkg"
    using wr64_Some [of 1 pkg1] assms(5) p1(2) by auto
  have "\<exists>r pkg'. parse_ents cs bs dma (unat (ent_offset met)) (unat (ent_len met)) (unat (ent_offset md) + unat hl + unat (hdr_len dh)) 0
      (unat (ent_cnt dh)) pkg2 = Some (r, pkg') \<and> length pkg' = length pkg2"
    by (rule parse_ents_total [OF v(2,3) h(1) v(1)]) (use v(6) p2(2) assms(5) in auto)
  then show ?thesis using v(4,5) p1 p2 by (auto simp: ipu6_cpd_parse_module_data_def Let_def)
qed

lemma copy_bytes_Some:
  "src + n \<le> length bs \<Longrightarrow> pos + n \<le> length dst \<Longrightarrow> \<exists>d. copy_bytes bs src n pos dst = Some d \<and> length d = length dst"
  by (simp add: copy_bytes_def)

text \<open>
  C14: creating the package directory from a validated file. No access of the code leaves the
  file or the directory buffer, however many components the module data announces; and when
  the creation fails the kernel's resources are as before.
\<close>

theorem cpd_create_pkg_dir_safe:
  assumes K: "kernel_ok env I V" and inv: "dma_inv env I V mmu s" and ck: "cpd_checked cs bs"
  shows "\<exists>r mmu' s' d'. ipu6_cpd_create_pkg_dir dv env cs bs dma mmu s d = Some (r, mmu', s', d') \<and>
    (\<forall>e. r = Inl e \<longrightarrow> V s' = V s \<and> vma_list mmu' = vma_list mmu)"
proof -
  from ck obtain h where h: "ipu6_cpd_validate_cpd_file cs bs (length bs) = Some ok" "rd_hdr bs 0 = Some h" "3 \<le> unat (ent_cnt h)"
    by (auto simp: cpd_checked_def)
  obtain man met md where e: "ipu6_cpd_get_entry bs MANIFEST_IDX = Some man" "unat (ent_offset man) + unat (ent_len man) \<le> length bs"
    "unat (ent_len man) \<le> 8192" "ipu6_cpd_get_entry bs METADATA_IDX = Some met" "unat (ent_offset met) + unat (ent_len met) \<le> length bs"
    "unat (ent_len met) \<le> 65536" "ipu6_cpd_get_entry bs MODULEDATA_IDX = Some md"
    by (rule validate_file_ok [OF h]) blast
  let ?sz = "word_of_nat (PKG_DIR_SIZE + unat (ent_len man) + unat (ent_len met)) :: u32"
  note z = pkg_dir_bytes [OF e(3,6)]
  obtain r mmu1 s1 where a: "ipu6_dma_alloc env (ucast ?sz) mmu s = Some (r, mmu1, s1)"
    "r = None \<longrightarrow> V s1 = V s \<and> mmu1 = mmu\<lparr>mmu_info := mmu_info mmu1\<rparr>"
    using dma_alloc_cases [OF K inv z(2,3)] by (auto split: option.splits)
  show ?thesis
  proof (cases r)
    case None
    moreover from this a(2) have "vma_list mmu1 = vma_list mmu"
      by (metis ipu6_mmu.select_convs(4) ipu6_mmu.surjective ipu6_mmu.update_convs(3))
    ultimately show ?thesis using a e(1,4) by (simp add: ipu6_cpd_create_pkg_dir_def Let_def)
  next
    case (Some vh)
    obtain va hd where vh: "vh = (va, hd)" by fastforce
    let ?pkg = "replicate (unat (ALIGN_PAGE (ucast ?sz))) (0 :: u8)"
    have len: "256 + unat (ent_len man) + unat (ent_len met) \<le> length ?pkg" using z(4) by simp
    then have "256 + unat (ent_len met) \<le> length ?pkg" by linarith
    from parse_module_data_total [OF ck e(1,4,7) this] obtain ret pkg where
      p: "ipu6_cpd_parse_module_data cs bs (unat (ent_offset md)) (dma + ucast (ent_offset md)) ?pkg (unat (ent_offset met)) (unat (ent_len met)) = Some (ret, pkg)"
      "length pkg = length ?pkg" by blast
    show ?thesis
    proof (cases ret)
      case (Inl er)
      from dma_alloc_free_core [OF K inv z(2,3) a(1) [unfolded Some vh], of dv d] obtain mmu2 s2 d2 where
        "ipu6_dma_free dv env (ucast ?sz) va hd mmu1 s1 d = Some (mmu2, s2, d2)" "V s2 = V s" "vma_list mmu2 = vma_list mmu" by blast
      with Inl p(1) a(1) Some vh e(1,4,7) show ?thesis by (simp add: ipu6_cpd_create_pkg_dir_def Let_def)
    next
      case (Inr u)
      have c: "PKG_DIR_SIZE = 256" by (simp add: ipu4_consts)
      obtain q1 where q1: "copy_bytes bs (unat (ent_offset man)) (unat (ent_len man)) PKG_DIR_SIZE pkg = Some q1" "length q1 = length pkg"
        using copy_bytes_Some [OF e(2), of PKG_DIR_SIZE pkg] p(2) len unfolding c by auto
      obtain q2 where q2: "copy_bytes bs (unat (ent_offset met)) (unat (ent_len met)) (PKG_DIR_SIZE + unat (ent_len man)) q1 = Some q2"
        using copy_bytes_Some [OF e(5), of "PKG_DIR_SIZE + unat (ent_len man)" q1] q1(2) p(2) len unfolding c by auto
      from Inr p(1) a(1) Some vh e(1,4,7) q1(1) q2 show ?thesis by (simp add: ipu6_cpd_create_pkg_dir_def Let_def)
    qed
  qed
qed

lemma check_entries_step:
  "rd_ent bs off = Some e \<Longrightarrow> unat (ent_offset e) + unat (ent_len e) \<le> sz \<Longrightarrow>
   check_entries bs off sz (Suc n) = check_entries bs (off + 24) sz n"
  by (auto simp: sizeof_cpd_ent_def)

lemma ex_cpd_checked: "cpd_checked 68 ex_cpd"
proof -
  have "check_entries ex_cpd 16 268 3 = Some ok"
    by (simp add: numeral_3_eq_3 check_entries_step ex_cpd_structs del: check_entries.simps(2))
  then have v: "ipu6_cpd_validate_cpd ex_cpd 0 268 268 = Some ok"
    by (simp add: ipu6_cpd_validate_cpd_def ex_cpd_structs sizeof_cpd_ent_def Let_def)
  have "check_entries ex_cpd 244 84 1 = Some ok"
    by (simp add: check_entries_step ex_cpd_structs del: check_entries.simps(2))
  then have m: "ipu6_cpd_validate_moduledata ex_cpd 184 84 = Some ok"
    by (simp add: ipu6_cpd_validate_moduledata_def ipu6_cpd_validate_cpd_def ex_cpd_structs cpd_sizes Let_def)
  have "ipu6_cpd_validate_cpd_file 68 ex_cpd (length ex_cpd) = Some ok"
    unfolding ex_cpd_length
    by (simp add: ipu6_cpd_validate_cpd_file_def v ex_cpd_structs ipu6_cpd_get_entry_def ipu6_cpd_validate_metadata_def
        m cpd_sizes ipu4_consts)
  then show ?thesis by (simp add: cpd_checked_def ex_cpd_structs)
qed

theorem cpd_create_pkg_dir_safe_witness:
  "\<exists>r mmu' s' d'. ipu6_cpd_create_pkg_dir (trace_dev (\<lambda>l a. 0)) ex_kernel 68 ex_cpd 0x10000 (ex_isys_mmu 0) (ex_v0, 3) [] = Some (r, mmu', s', d')"
  using cpd_create_pkg_dir_safe [OF ex_kernel_ok ex_dma_inv ex_cpd_checked, of "trace_dev (\<lambda>l a. 0)" "0x10000" "[]"] by blast

text \<open>The words of the directory below the copied manifest.\<close>

lemma copy_bytes_word:
  assumes "copy_bytes bs src n pos dst = Some d" "8 * j + 8 \<le> pos"
  shows "pkg_word d j = pkg_word dst j"
proof -
  from assms(1) have d: "d = take pos dst @ take n (drop src bs) @ drop (pos + n) dst" "pos + n \<le> length dst"
    by (auto simp: copy_bytes_def split: if_splits)
  have "take 8 (drop (8 * j) d) = take 8 (drop (8 * j) dst)"
    using d assms(2) by (simp add: take_drop min_def)
  then show ?thesis by (simp add: field_at_def)
qed

text \<open>Two copies one after the other.\<close>

lemma copy_bytes_two:
  assumes "copy_bytes bs src n pos dst = Some d1" "copy_bytes bs src' n' (pos + n) d1 = Some d2"
  shows "take (n + n') (drop pos d2) = take n (drop src bs) @ take n' (drop src' bs)"
proof -
  have split: "take m (drop p d) = take m (drop c bs) \<and> take p d = take p e" if "copy_bytes bs c m p e = Some d" for c m p e d
    using that by (simp add: copy_bytes_def split: if_splits) (auto simp: take_drop)
  have "take n (drop pos d2) = take n (drop pos d1)"
    using split [OF assms(2)] by (simp add: take_drop add.commute)
  moreover have "take (n + n') (drop pos d2) = take n (drop pos d2) @ take n' (drop (pos + n) d2)"
    by (simp add: take_add add.commute)
  ultimately show ?thesis using split [OF assms(1)] split [OF assms(2)] by simp
qed

text \<open>The writes behind a successful creation: the head, the entries, then the two copies.\<close>

lemma create_pkg_dir_steps:
  assumes run: "ipu6_cpd_create_pkg_dir dv env cs bs dma mmu s d = Some (Inr (pkg, va, h, sz), mmu', s', d')"
    and md: "ipu6_cpd_get_entry bs MODULEDATA_IDX = Some md" and met: "ipu6_cpd_get_entry bs METADATA_IDX = Some met"
    and mn: "ipu6_cpd_get_entry bs MANIFEST_IDX = Some mn"
    and hl: "rd 4 bs (unat (ent_offset md)) = Some (hl :: u32)" and dh: "rd_hdr bs (unat (ent_offset md) + unat hl) = Some dh"
  obtains p0 p1 p2 p3 p4 where "wr64 p0 0 PKG_DIR_HDR_MARK = Some p1" "wr64 p1 1 (ucast (ent_cnt dh + 1)) = Some p2"
    "parse_ents cs bs (dma + ucast (ent_offset md)) (unat (ent_offset met)) (unat (ent_len met))
       (unat (ent_offset md) + unat hl + unat (hdr_len dh)) 0 (unat (ent_cnt dh)) p2 = Some (ok, p3)"
    "copy_bytes bs (unat (ent_offset mn)) (unat (ent_len mn)) 256 p3 = Some p4"
    "copy_bytes bs (unat (ent_offset met)) (unat (ent_len met)) (256 + unat (ent_len mn)) p4 = Some pkg"
proof -
  have sz: "PKG_DIR_SIZE = 256" by (simp add: ipu4_consts)
  let ?sz = "word_of_nat (PKG_DIR_SIZE + unat (ent_len mn) + unat (ent_len met)) :: u32"
  let ?p0 = "replicate (unat (ALIGN_PAGE (ucast ?sz))) (0 :: u8)"
  from run mn met obtain r mmu1 s1 where al: "ipu6_dma_alloc env (ucast ?sz) mmu s = Some (r, mmu1, s1)"
    by (auto simp: ipu6_cpd_create_pkg_dir_def bind_eq_Some_conv Let_def)
  with run mn met have "r \<noteq> None" by (cases r) (simp_all add: ipu6_cpd_create_pkg_dir_def Let_def)
  then obtain va1 h1 where r: "r = Some (va1, h1)" by auto
  from run mn met al r md obtain ret p3 where pm:
    "ipu6_cpd_parse_module_data cs bs (unat (ent_offset md)) (dma + ucast (ent_offset md)) ?p0 (unat (ent_offset met)) (unat (ent_len met)) = Some (ret, p3)"
    by (auto simp: ipu6_cpd_create_pkg_dir_def bind_eq_Some_conv Let_def)
  from run mn met al r md pm have ret: "ret = ok"
    by (cases ret) (auto simp: ipu6_cpd_create_pkg_dir_def Let_def)
  from run mn met al r md pm ret obtain p4 where
    p45: "copy_bytes bs (unat (ent_offset mn)) (unat (ent_len mn)) 256 p3 = Some p4"
    "copy_bytes bs (unat (ent_offset met)) (unat (ent_len met)) (256 + unat (ent_len mn)) p4 = Some pkg"
    by (auto simp: ipu6_cpd_create_pkg_dir_def bind_eq_Some_conv Let_def sz)
  from pm ret hl dh obtain p1 p2 where p12: "wr64 ?p0 0 PKG_DIR_HDR_MARK = Some p1" "wr64 p1 1 (ucast (ent_cnt dh + 1)) = Some p2"
    "parse_ents cs bs (dma + ucast (ent_offset md)) (unat (ent_offset met)) (unat (ent_len met))
       (unat (ent_offset md) + unat hl + unat (hdr_len dh)) 0 (unat (ent_cnt dh)) p2 = Some (ok, p3)"
    by (auto simp: ipu6_cpd_parse_module_data_def bind_eq_Some_conv Let_def)
  from that [OF p12 p45] show ?thesis .
qed

text \<open>
  C15: the directory that a successful creation leaves, whatever the number of components: the
  mark and the number of entries; for each of the first 15 components the bus address of its
  code and a word whose size, type and version fields are its length, identifier and version;
  and from byte 256 on the manifest and then the metadata. The number of components is not
  checked, so that the entries from the sixteenth on are overwritten by the manifest.
\<close>

theorem cpd_pkg_dir_entries:
  assumes run: "ipu6_cpd_create_pkg_dir dv env cs bs dma mmu s d = Some (Inr (pkg, va, h, sz), mmu', s', d')"
    and md: "ipu6_cpd_get_entry bs MODULEDATA_IDX = Some md" and met: "ipu6_cpd_get_entry bs METADATA_IDX = Some met"
    and hl: "rd 4 bs (unat (ent_offset md)) = Some (hl :: u32)" and dh: "rd_hdr bs (unat (ent_offset md) + unat hl) = Some dh"
    and mn: "ipu6_cpd_get_entry bs MANIFEST_IDX = Some mn"
  shows "pkg_word pkg 0 = PKG_DIR_HDR_MARK \<and> pkg_word pkg 1 = ucast (ent_cnt dh + 1) \<and>
    take (unat (ent_len mn) + unat (ent_len met)) (drop 256 pkg) =
      take (unat (ent_len mn)) (drop (unat (ent_offset mn)) bs) @ take (unat (ent_len met)) (drop (unat (ent_offset met)) bs) \<and>
    (\<forall>k < min 15 (unat (ent_cnt dh)). \<exists>e cid ver.
       rd_ent bs (unat (ent_offset md) + unat hl + unat (hdr_len dh) + 24 * k) = Some e \<and>
       ipu6_cpd_metadata_get_cmpnt_id cs bs (unat (ent_offset met)) (unat (ent_len met)) (word_of_nat k) = Some cid \<and>
       ipu6_cpd_metadata_cmpnt_version cs bs (unat (ent_offset met)) (unat (ent_len met)) (word_of_nat k) = Some ver \<and>
       pkg_word pkg (2 * (1 + k)) = dma + ucast (ent_offset md) + ucast (ent_offset e) \<and>
       pkg_word pkg (2 * (1 + k) + 1) AND mask 24 = ucast (ent_len e) AND mask 24 \<and>
       drop_bit 48 (pkg_word pkg (2 * (1 + k) + 1)) AND mask 7 = word_of_int cid \<and>
       drop_bit 32 (pkg_word pkg (2 * (1 + k) + 1)) AND mask 16 = word_of_int ver)"
proof -
  from create_pkg_dir_steps [OF run md met mn hl dh] obtain p0 p1 p2 p3 p4 where
    p: "wr64 p0 0 PKG_DIR_HDR_MARK = Some p1" "wr64 p1 1 (ucast (ent_cnt dh + 1)) = Some p2"
    "parse_ents cs bs (dma + ucast (ent_offset md)) (unat (ent_offset met)) (unat (ent_len met))
       (unat (ent_offset md) + unat hl + unat (hdr_len dh)) 0 (unat (ent_cnt dh)) p2 = Some (ok, p3)"
    "copy_bytes bs (unat (ent_offset mn)) (unat (ent_len mn)) 256 p3 = Some p4"
    "copy_bytes bs (unat (ent_offset met)) (unat (ent_len met)) (256 + unat (ent_len mn)) p4 = Some pkg" .
  note w = parse_ents_words [OF p(3)]
  have c: "pkg_word pkg j = pkg_word p3 j" if "j < 32" for j
    using copy_bytes_word [OF p(5), of j] copy_bytes_word [OF p(4), of j] that by simp
  have len: "256 \<le> length p2"
    using p(4) w by (auto simp: copy_bytes_def split: if_splits)
  have len1: "length p1 = length p2" "length p0 = length p2" using wr64_length [OF p(1)] wr64_length [OF p(2)] by simp_all
  have head: "pkg_word p3 j = pkg_word p2 j" if "j < 2" for j
    using w [THEN conjunct2, THEN conjunct1, rule_format, of j] that len by simp
  have "pkg_word pkg 0 = PKG_DIR_HDR_MARK" "pkg_word pkg 1 = ucast (ent_cnt dh + 1)"
    using c [of 0] c [of 1] head [of 0] head [of 1] wr64_read [OF p(2), of 0] wr64_read [OF p(2), of 1]
      wr64_read [OF p(1), of 0] len len1 by simp_all
  moreover have "take (unat (ent_len mn) + unat (ent_len met)) (drop 256 pkg) =
      take (unat (ent_len mn)) (drop (unat (ent_offset mn)) bs) @ take (unat (ent_len met)) (drop (unat (ent_offset met)) bs)"
    by (rule copy_bytes_two [OF p(4,5)])
  moreover have "\<exists>e cid ver.
       rd_ent bs (unat (ent_offset md) + unat hl + unat (hdr_len dh) + 24 * k) = Some e \<and>
       ipu6_cpd_metadata_get_cmpnt_id cs bs (unat (ent_offset met)) (unat (ent_len met)) (word_of_nat k) = Some cid \<and>
       ipu6_cpd_metadata_cmpnt_version cs bs (unat (ent_offset met)) (unat (ent_len met)) (word_of_nat k) = Some ver \<and>
       pkg_word pkg (2 * (1 + k)) = dma + ucast (ent_offset md) + ucast (ent_offset e) \<and>
       pkg_word pkg (2 * (1 + k) + 1) AND mask 24 = ucast (ent_len e) AND mask 24 \<and>
       drop_bit 48 (pkg_word pkg (2 * (1 + k) + 1)) AND mask 7 = word_of_int cid \<and>
       drop_bit 32 (pkg_word pkg (2 * (1 + k) + 1)) AND mask 16 = word_of_int ver" if kk: "k < min 15 (unat (ent_cnt dh))" for k
  proof -
    from kk have k: "k < unat (ent_cnt dh)" "k < 15" by simp_all
    from w [THEN conjunct2, THEN conjunct2, rule_format, OF k(1)] obtain e cid ver where e:
      "rd_ent bs (unat (ent_offset md) + unat hl + unat (hdr_len dh) + 24 * k) = Some e"
      "ipu6_cpd_metadata_get_cmpnt_id cs bs (unat (ent_offset met)) (unat (ent_len met)) (word_of_nat k) = Some cid" "0 \<le> cid" "cid \<le> 127"
      "ipu6_cpd_metadata_cmpnt_version cs bs (unat (ent_offset met)) (unat (ent_len met)) (word_of_nat k) = Some ver" "0 \<le> ver" "ver \<le> 0xffff"
      "pkg_word p3 (2 * (1 + k)) = dma + ucast (ent_offset md) + ucast (ent_offset e)"
      "pkg_word p3 (2 * (1 + k) + 1) = pkg_dir_word (ent_len e) cid ver" by auto
    have "2 * (1 + k) + 1 < 32" using k by simp
    then have "pkg_word pkg (2 * (1 + k)) = pkg_word p3 (2 * (1 + k))" "pkg_word pkg (2 * (1 + k) + 1) = pkg_word p3 (2 * (1 + k) + 1)"
      using c [of "2 * (1 + k)"] c [of "2 * (1 + k) + 1"] by simp_all
    with e pkg_dir_word_fields [OF e(3,4,6,7), of "ent_len e"] show ?thesis by (intro exI [of _ e] exI [of _ cid] exI [of _ ver]) simp
  qed
  ultimately show ?thesis by blast
qed

lemma ex_cpd_entries:
  "ipu6_cpd_get_entry ex_cpd MANIFEST_IDX = Some \<lparr>ent_offset = 88, ent_len = 0\<rparr>"
  "ipu6_cpd_get_entry ex_cpd METADATA_IDX = Some \<lparr>ent_offset = 88, ent_len = 96\<rparr>"
  "ipu6_cpd_get_entry ex_cpd MODULEDATA_IDX = Some \<lparr>ent_offset = 184, ent_len = 84\<rparr>"
  by (simp_all add: ipu6_cpd_get_entry_def ex_cpd_structs cpd_sizes ipu4_consts)

lemma ex_cpd_cmpnt:
  "ipu6_cpd_metadata_get_cmpnt_id 68 ex_cpd 88 96 0 = Some 1" "ipu6_cpd_metadata_cmpnt_version 68 ex_cpd 88 96 0 = Some 5"
proof -
  have "rd 4 ex_cpd 116 = Some (1 :: u32)" "rd 4 ex_cpd 124 = Some (5 :: u32)"
    by (simp_all add: rd_def ex_cpd_length) (simp_all add: ex_cpd_def field_at_skip field_at_hit del: le_bytes.simps)
  then show "ipu6_cpd_metadata_get_cmpnt_id 68 ex_cpd 88 96 0 = Some 1" "ipu6_cpd_metadata_cmpnt_version 68 ex_cpd 88 96 0 = Some 5"
    by (simp_all add: ipu6_cpd_metadata_get_cmpnt_id_def ipu6_cpd_metadata_cmpnt_version_def ipu6_cpd_metadata_get_cmpnt_def
        cpd_sizes ipu4_consts Let_def)
qed

lemma ex_cpd_parse:
  assumes "4096 \<le> length pkg"
  shows "\<exists>pkg'. ipu6_cpd_parse_module_data 68 ex_cpd 184 dma pkg 88 96 = Some (ok, pkg') \<and> length pkg' = length pkg"
proof -
  obtain p1 where p1: "wr64 pkg 0 PKG_DIR_HDR_MARK = Some p1" "length p1 = length pkg" using wr64_Some [of 0 pkg] assms by auto
  obtain p2 where p2: "wr64 p1 1 2 = Some p2" "length p2 = length pkg" using wr64_Some [of 1 p1] assms p1(2) by auto
  obtain p3 where p3: "wr64 p2 2 (dma + 84) = Some p3" "length p3 = length pkg" using wr64_Some [of 2 p2] assms p2(2) by auto
  obtain p4 where p4: "wr64 p3 3 (pkg_dir_word 0 1 5) = Some p4" "length p4 = length pkg" using wr64_Some [of 3 p3] assms p3(2) by auto
  show ?thesis
    using p1(1) p2(1) p3(1) p4
    by (simp add: ipu6_cpd_parse_module_data_def ex_cpd_structs ex_cpd_cmpnt Let_def cpd_sizes ipu4_consts)
qed

lemma ex_cpd_create:
  "\<exists>pkg mmu' s'. ipu6_cpd_create_pkg_dir dv ex_kernel 68 ex_cpd 0x10000 (ex_isys_mmu 0) (ex_v0, 3) d =
     Some (Inr (pkg, 0x1000, page 16, 352), mmu', s', d)"
proof -
  have z: "ALIGN_PAGE 352 = 0x1000" by (simp add: ALIGN_PAGE_def ISP_PAGE_SIZE_def)
  obtain mmu' s' where a: "ipu6_dma_alloc ex_kernel 352 (ex_isys_mmu 0) (ex_v0, 3) = Some (Some (0x1000, page 16), mmu', s')"
    using ex_alloc_page [OF z] by blast
  obtain p where p: "ipu6_cpd_parse_module_data 68 ex_cpd 184 0x100b8 (replicate 4096 0) 88 96 = Some (ok, p)" "length p = 4096"
    using ex_cpd_parse [of "replicate 4096 0"] by auto
  obtain q1 where q1: "copy_bytes ex_cpd 88 0 256 p = Some q1" "length q1 = 4096"
    using copy_bytes_Some [of 88 0 ex_cpd 256 p] p(2) by (auto simp: ex_cpd_length)
  obtain q2 where q2: "copy_bytes ex_cpd 88 96 256 q1 = Some q2"
    using copy_bytes_Some [of 88 96 ex_cpd 256 q1] q1(2) by (auto simp: ex_cpd_length)
  show ?thesis
    using a p(1) q1(1) q2 by (simp add: ipu6_cpd_create_pkg_dir_def ex_cpd_entries Let_def z PKG_DIR_SIZE_def
        MAX_PKG_DIR_ENT_CNT_def PKG_DIR_ENT_LEN_def)
qed

theorem cpd_pkg_dir_entries_witness:
  "\<exists>pkg mmu' s'. ipu6_cpd_create_pkg_dir (trace_dev (\<lambda>l a. 0)) ex_kernel 68 ex_cpd 0x10000 (ex_isys_mmu 0) (ex_v0, 3) [] =
     Some (Inr (pkg, 0x1000, page 16, 352), mmu', s', []) \<and> pkg_word pkg 1 = 2 \<and> pkg_word pkg 2 = 0x1010c"
proof -
  obtain pkg mmu' s' where r: "ipu6_cpd_create_pkg_dir (trace_dev (\<lambda>l a. 0)) ex_kernel 68 ex_cpd 0x10000 (ex_isys_mmu 0) (ex_v0, 3) [] =
     Some (Inr (pkg, 0x1000, page 16, 352), mmu', s', [])" using ex_cpd_create [of "trace_dev (\<lambda>l a. 0)" "[]"] by blast
  have hl: "rd 4 ex_cpd (unat (ent_offset \<lparr>ent_offset = 184, ent_len = 84\<rparr>)) = Some (44 :: u32)"
    using ex_cpd_structs(7) by simp
  have dh: "rd_hdr ex_cpd (unat (ent_offset \<lparr>ent_offset = 184, ent_len = 84\<rparr>) + unat (44 :: u32)) =
      Some \<lparr>hdr_mark = 0, ent_cnt = 1, hdr_ver = 0, ent_ver = 0, hdr_len = 16\<rparr>"
    using ex_cpd_structs(8) by simp
  note e = cpd_pkg_dir_entries [OF r ex_cpd_entries(3,2) hl dh ex_cpd_entries(1)]
  from e have "pkg_word pkg 1 = 2" by simp
  moreover from e obtain ee where
    "rd_ent ex_cpd 244 = Some ee" "pkg_word pkg 2 = 0x10000 + ucast (184 :: u32) + ucast (ent_offset ee)"
    by auto
  then have "pkg_word pkg 2 = 0x1010c" using ex_cpd_structs(9) by auto
  ultimately have "pkg_word pkg 1 = 2 \<and> pkg_word pkg 2 = 0x1010c" by blast
  with r show ?thesis by blast
qed

end
