(* ===== verification/State_Hoare.thy ===== *)
theory State_Hoare
  imports Ipu4_Prelude
begin

text \<open>
  Pre- and postconditions of computations in the state monad. The driver functions that
  run on a device and on driver state at once are specified with triples; the rules are
  collected in \<open>hoare_rules\<close>, so that a proof follows the structure of the program.
\<close>

definition hoare :: "('s \<Rightarrow> bool) \<Rightarrow> ('s, 'a) state \<Rightarrow> ('a \<Rightarrow> 's \<Rightarrow> bool) \<Rightarrow> bool" where
  "hoare P m Q \<longleftrightarrow> (\<forall>s. P s \<longrightarrow> Q (fst (run_state m s)) (snd (run_state m s)))"

named_theorems hoare_rules \<open>triples applied backwards along a program\<close>

lemma hoareI:
  "(\<And>s. P s \<Longrightarrow> Q (fst (run_state m s)) (snd (run_state m s))) \<Longrightarrow> hoare P m Q"
  by (simp add: hoare_def)

lemma hoareD:
  "hoare P m Q \<Longrightarrow> P s \<Longrightarrow> Q (fst (run_state m s)) (snd (run_state m s))"
  by (simp add: hoare_def)

lemma hoare_bind [hoare_rules]:
  assumes "\<And>a. hoare (R a) (f a) Q" "hoare P m R"
  shows "hoare P (State_Monad.bind m f) Q"
  using assms by (auto simp: hoare_def case_prod_beta)

lemma hoare_return [hoare_rules]: "hoare (Q a) (State_Monad.return a) Q"
  by (simp add: hoare_def)

lemma hoare_if [hoare_rules]:
  "(b \<Longrightarrow> hoare P m Q) \<Longrightarrow> (\<not> b \<Longrightarrow> hoare P' n Q) \<Longrightarrow>
   hoare (\<lambda>s. if b then P s else P' s) (if b then m else n) Q"
  by (simp add: hoare_def)

lemma hoare_weaken:
  "hoare P' m Q' \<Longrightarrow> (\<And>s. P s \<Longrightarrow> P' s) \<Longrightarrow> (\<And>a s. Q' a s \<Longrightarrow> Q a s) \<Longrightarrow> hoare P m Q"
  by (simp add: hoare_def)

lemma hoare_pre: "hoare P' m Q \<Longrightarrow> (\<And>s. P s \<Longrightarrow> P' s) \<Longrightarrow> hoare P m Q"
  by (simp add: hoare_def)

lemma hoare_post: "hoare P m Q' \<Longrightarrow> (\<And>a s. Q' a s \<Longrightarrow> Q a s) \<Longrightarrow> hoare P m Q"
  by (simp add: hoare_def)

lemma hoare_conj: "hoare P m Q \<Longrightarrow> hoare P m R \<Longrightarrow> hoare P m (\<lambda>a s. Q a s \<and> R a s)"
  by (simp add: hoare_def)

text \<open>A property that every step keeps, whatever the results are.\<close>

definition keeps :: "('s \<Rightarrow> bool) \<Rightarrow> ('s, 'a) state \<Rightarrow> bool" where
  "keeps P m \<longleftrightarrow> hoare P m (\<lambda>_. P)"

named_theorems keeps_rules \<open>computations that keep a property\<close>

lemma keepsI: "(\<And>s. P s \<Longrightarrow> P (snd (run_state m s))) \<Longrightarrow> keeps P m"
  by (simp add: keeps_def hoare_def)

lemma keepsD: "keeps P m \<Longrightarrow> P s \<Longrightarrow> P (snd (run_state m s))"
  by (simp add: keeps_def hoare_def)

lemma keeps_hoare: "keeps P m \<Longrightarrow> hoare P m (\<lambda>_. P)"
  by (simp add: keeps_def)

lemma keeps_bind [keeps_rules]:
  "keeps P m \<Longrightarrow> (\<And>a. keeps P (f a)) \<Longrightarrow> keeps P (State_Monad.bind m f)"
  by (auto simp: keeps_def hoare_def case_prod_beta)

lemma keeps_return [keeps_rules]: "keeps P (State_Monad.return a)"
  by (simp add: keeps_def hoare_def)

lemma keeps_if [keeps_rules]: "(b \<Longrightarrow> keeps P m) \<Longrightarrow> (\<not> b \<Longrightarrow> keeps P n) \<Longrightarrow> keeps P (if b then m else n)"
  by simp

lemma keeps_res [keeps_rules]:
  "(\<And>e. r = Inl e \<Longrightarrow> keeps P (m e)) \<Longrightarrow> (\<And>a. r = Inr a \<Longrightarrow> keeps P (n a)) \<Longrightarrow>
   keeps P (case r of Inl e \<Rightarrow> m e | Inr a \<Rightarrow> n a)"
  by (cases r) auto

lemma keeps_option [keeps_rules]:
  "(r = None \<Longrightarrow> keeps P m) \<Longrightarrow> (\<And>a. r = Some a \<Longrightarrow> keeps P (n a)) \<Longrightarrow>
   keeps P (case r of None \<Rightarrow> m | Some a \<Rightarrow> n a)"
  by (cases r) auto

lemma keeps_prod [keeps_rules]:
  "(\<And>a b. p = (a, b) \<Longrightarrow> keeps P (m a b)) \<Longrightarrow> keeps P (case p of (a, b) \<Rightarrow> m a b)"
  by (cases p) auto

text \<open>A property that a first step establishes and the rest keeps.\<close>

lemma keeps_after:
  "Q (snd (run_state m s)) \<Longrightarrow> (\<And>a. keeps Q (f a)) \<Longrightarrow> Q (snd (run_state (State_Monad.bind m f) s))"
  by (simp add: keeps_def hoare_def case_prod_beta)

end
