(* ===== verification/Buttress.thy ===== *)
theory Buttress
  imports Dma State_Hoare
begin

unbundle bit_operations_syntax

text \<open>
  The buttress, \<^verbatim>\<open>kernel/ipu4/ipu6-buttress.c\<close>: power and clock control, the message channel to
  the security engine (CSE), authentication of the firmware, time stamps and the top of
  the interrupt handling. The functions run on the device and on the driver's buttress state.
\<close>

section \<open>Constants\<close>

definition BUTTRESS_REG_WDT :: u32 where [ipu4_consts]: "BUTTRESS_REG_WDT = 0x8"
definition BUTTRESS_REG_BTRS_CTRL :: u32 where [ipu4_consts]: "BUTTRESS_REG_BTRS_CTRL = 0xc"
definition BUTTRESS_REG_FW_RESET_CTL :: u32 where [ipu4_consts]: "BUTTRESS_REG_FW_RESET_CTL = 0x30"
definition BUTTRESS_FW_RESET_CTL_START :: u32 where [ipu4_consts]: "BUTTRESS_FW_RESET_CTL_START = 0x1"
definition BUTTRESS_FW_RESET_CTL_DONE :: u32 where [ipu4_consts]: "BUTTRESS_FW_RESET_CTL_DONE = 0x2"
definition BUTTRESS_REG_IS_FREQ_CTL :: u32 where [ipu4_consts]: "BUTTRESS_REG_IS_FREQ_CTL = 0x34"
definition BUTTRESS_REG_PS_FREQ_CTL :: u32 where [ipu4_consts]: "BUTTRESS_REG_PS_FREQ_CTL = 0x38"
definition BUTTRESS_FREQ_CTL_START :: u32 where [ipu4_consts]: "BUTTRESS_FREQ_CTL_START = 0x80000000"
definition BUTTRESS_REG_PWR_STATE :: u32 where [ipu4_consts]: "BUTTRESS_REG_PWR_STATE = 0x5c"
definition BUTTRESS_REG_SECURITY_CTL :: u32 where [ipu4_consts]: "BUTTRESS_REG_SECURITY_CTL = 0x300"
definition BUTTRESS_REG_SECURITY_TOUCH :: u32 where [ipu4_consts]: "BUTTRESS_REG_SECURITY_TOUCH = 0x318"
definition BUTTRESS_REG_CAMERA_MASK :: u32 where [ipu4_consts]: "BUTTRESS_REG_CAMERA_MASK = 0x84"
definition BUTTRESS_SECURITY_CTL_FW_SECURE_MODE :: u32 where [ipu4_consts]: "BUTTRESS_SECURITY_CTL_FW_SECURE_MODE = 0x10000"
definition BUTTRESS_SECURITY_CTL_FW_SETUP_DONE :: u32 where [ipu4_consts]: "BUTTRESS_SECURITY_CTL_FW_SETUP_DONE = 0x1"
definition BUTTRESS_SECURITY_CTL_AUTH_DONE :: u32 where [ipu4_consts]: "BUTTRESS_SECURITY_CTL_AUTH_DONE = 0x2"
definition BUTTRESS_SECURITY_CTL_AUTH_FAILED :: u32 where [ipu4_consts]: "BUTTRESS_SECURITY_CTL_AUTH_FAILED = 0x8"
definition BUTTRESS_REG_FW_SOURCE_BASE_LO :: u32 where [ipu4_consts]: "BUTTRESS_REG_FW_SOURCE_BASE_LO = 0x78"
definition BUTTRESS_REG_FW_SOURCE_BASE_HI :: u32 where [ipu4_consts]: "BUTTRESS_REG_FW_SOURCE_BASE_HI = 0x7C"
definition BUTTRESS_REG_ISR_STATUS :: u32 where [ipu4_consts]: "BUTTRESS_REG_ISR_STATUS = 0x90"
definition BUTTRESS_REG_ISR_ENABLED_STATUS :: u32 where [ipu4_consts]: "BUTTRESS_REG_ISR_ENABLED_STATUS = 0x94"
definition BUTTRESS_REG_ISR_ENABLE :: u32 where [ipu4_consts]: "BUTTRESS_REG_ISR_ENABLE = 0x98"
definition BUTTRESS_REG_ISR_CLEAR :: u32 where [ipu4_consts]: "BUTTRESS_REG_ISR_CLEAR = 0x9C"
definition BUTTRESS_ISR_IS_IRQ :: u32 where [ipu4_consts]: "BUTTRESS_ISR_IS_IRQ = 0x1"
definition BUTTRESS_ISR_PS_IRQ :: u32 where [ipu4_consts]: "BUTTRESS_ISR_PS_IRQ = 0x2"
definition BUTTRESS_ISR_IPC_EXEC_DONE_BY_CSE :: u32 where [ipu4_consts]: "BUTTRESS_ISR_IPC_EXEC_DONE_BY_CSE = 0x4"
definition BUTTRESS_ISR_IPC_FROM_CSE_IS_WAITING :: u32 where [ipu4_consts]: "BUTTRESS_ISR_IPC_FROM_CSE_IS_WAITING = 0x10"
definition BUTTRESS_ISR_SAI_VIOLATION :: u32 where [ipu4_consts]: "BUTTRESS_ISR_SAI_VIOLATION = 0x800"
definition BUTTRESS_REG_IU2CSEDB0 :: u32 where [ipu4_consts]: "BUTTRESS_REG_IU2CSEDB0 = 0x100"
definition BUTTRESS_IU2CSEDB0_BUSY :: u32 where [ipu4_consts]: "BUTTRESS_IU2CSEDB0_BUSY = 0x80000000"
definition BUTTRESS_REG_IU2CSEDATA0 :: u32 where [ipu4_consts]: "BUTTRESS_REG_IU2CSEDATA0 = 0x104"
definition BUTTRESS_IU2CSEDATA0_IPC_BOOT_LOAD :: u32 where [ipu4_consts]: "BUTTRESS_IU2CSEDATA0_IPC_BOOT_LOAD = 1"
definition BUTTRESS_IU2CSEDATA0_IPC_AUTH_RUN :: u32 where [ipu4_consts]: "BUTTRESS_IU2CSEDATA0_IPC_AUTH_RUN = 2"
definition BUTTRESS_CSE2IUDATA0_IPC_BOOT_LOAD_DONE :: u32 where [ipu4_consts]: "BUTTRESS_CSE2IUDATA0_IPC_BOOT_LOAD_DONE = 0x1"
definition BUTTRESS_CSE2IUDATA0_IPC_AUTH_RUN_DONE :: u32 where [ipu4_consts]: "BUTTRESS_CSE2IUDATA0_IPC_AUTH_RUN_DONE = 0x2"
definition BUTTRESS_REG_IU2CSECSR :: u32 where [ipu4_consts]: "BUTTRESS_REG_IU2CSECSR = 0x108"
definition BUTTRESS_IU2CSECSR_IPC_PEER_COMP_ACTIONS_RST_PHASE1 :: u32 where [ipu4_consts]: "BUTTRESS_IU2CSECSR_IPC_PEER_COMP_ACTIONS_RST_PHASE1 = 0x1"
definition BUTTRESS_IU2CSECSR_IPC_PEER_COMP_ACTIONS_RST_PHASE2 :: u32 where [ipu4_consts]: "BUTTRESS_IU2CSECSR_IPC_PEER_COMP_ACTIONS_RST_PHASE2 = 0x2"
definition BUTTRESS_IU2CSECSR_IPC_PEER_QUERIED_IP_COMP_ACTIONS_RST_PHASE :: u32 where [ipu4_consts]: "BUTTRESS_IU2CSECSR_IPC_PEER_QUERIED_IP_COMP_ACTIONS_RST_PHASE = 0x4"
definition BUTTRESS_IU2CSECSR_IPC_PEER_ASSERTED_REG_VALID_REQ :: u32 where [ipu4_consts]: "BUTTRESS_IU2CSECSR_IPC_PEER_ASSERTED_REG_VALID_REQ = 0x8"
definition BUTTRESS_IU2CSECSR_IPC_PEER_ACKED_REG_VALID :: u32 where [ipu4_consts]: "BUTTRESS_IU2CSECSR_IPC_PEER_ACKED_REG_VALID = 0x10"
definition BUTTRESS_IU2CSECSR_IPC_PEER_DEASSERTED_REG_VALID_REQ :: u32 where [ipu4_consts]: "BUTTRESS_IU2CSECSR_IPC_PEER_DEASSERTED_REG_VALID_REQ = 0x20"
definition BUTTRESS_REG_CSE2IUDB0 :: u32 where [ipu4_consts]: "BUTTRESS_REG_CSE2IUDB0 = 0x304"
definition BUTTRESS_REG_CSE2IUCSR :: u32 where [ipu4_consts]: "BUTTRESS_REG_CSE2IUCSR = 0x30C"
definition BUTTRESS_REG_CSE2IUDATA0 :: u32 where [ipu4_consts]: "BUTTRESS_REG_CSE2IUDATA0 = 0x308"
definition BUTTRESS_CSE2IUDATA0_IPC_NACK :: u32 where [ipu4_consts]: "BUTTRESS_CSE2IUDATA0_IPC_NACK = 0xf20"
definition BUTTRESS_REG_FABRIC_CMD :: u32 where [ipu4_consts]: "BUTTRESS_REG_FABRIC_CMD = 0x88"
definition BUTTRESS_FABRIC_CMD_START_TSC_SYNC :: u32 where [ipu4_consts]: "BUTTRESS_FABRIC_CMD_START_TSC_SYNC = 0x1"
definition BUTTRESS_REG_TSW_CTL :: u32 where [ipu4_consts]: "BUTTRESS_REG_TSW_CTL = 0x120"
definition BUTTRESS_TSW_CTL_SOFT_RESET :: u32 where [ipu4_consts]: "BUTTRESS_TSW_CTL_SOFT_RESET = 0x100"
definition BUTTRESS_REG_TSC_LO :: u32 where [ipu4_consts]: "BUTTRESS_REG_TSC_LO = 0x164"
definition BUTTRESS_REG_TSC_HI :: u32 where [ipu4_consts]: "BUTTRESS_REG_TSC_HI = 0x168"
definition BUTTRESS_REG_BTRS_CTRL_REF_CLK_IND :: u32 where [ipu4_consts]: "BUTTRESS_REG_BTRS_CTRL_REF_CLK_IND = 0x300"
definition BUTTRESS_FREQ_CTL_QOS_FLOOR_MASK :: u32 where [ipu4_consts]: "BUTTRESS_FREQ_CTL_QOS_FLOOR_MASK = 0xff00"
definition BUTTRESS_FREQ_CTL_RATIO_MASK :: u32 where [ipu4_consts]: "BUTTRESS_FREQ_CTL_RATIO_MASK = 0xff"
definition BUTTRESS_SECURITY_CTL_FW_SETUP_MASK :: u32 where [ipu4_consts]: "BUTTRESS_SECURITY_CTL_FW_SETUP_MASK = 0x1f"
definition BUTTRESS_CSE2IUDATA0_IPC_NACK_MASK :: u32 where [ipu4_consts]: "BUTTRESS_CSE2IUDATA0_IPC_NACK_MASK = 0xffff"
definition IPU4_BUTTRESS_FREQ_CTL_ICCMAX_LEVEL :: u32 where [ipu4_consts]: "IPU4_BUTTRESS_FREQ_CTL_ICCMAX_LEVEL = 0"
definition IPU4_BUTTRESS_PWR_STATE_HH_STATUS_MASK :: u32 where [ipu4_consts]: "IPU4_BUTTRESS_PWR_STATE_HH_STATUS_MASK = 0x3000"
definition BUTTRESS_PWR_STATE_HH_STATE_DONE :: u32 where [ipu4_consts]: "BUTTRESS_PWR_STATE_HH_STATE_DONE = 2"
definition BUTTRESS_PWR_STATE_HH_STATE_ERR :: u32 where [ipu4_consts]: "BUTTRESS_PWR_STATE_HH_STATE_ERR = 3"
definition BUTTRESS_IRQS :: u32 where [ipu4_consts]: "BUTTRESS_IRQS = BUTTRESS_ISR_IPC_FROM_CSE_IS_WAITING OR BUTTRESS_ISR_IPC_EXEC_DONE_BY_CSE OR
  BUTTRESS_ISR_IS_IRQ OR BUTTRESS_ISR_PS_IRQ"
definition BUTTRESS_EVENT :: u32 where [ipu4_consts]: "BUTTRESS_EVENT = BUTTRESS_ISR_IPC_FROM_CSE_IS_WAITING OR BUTTRESS_ISR_IPC_EXEC_DONE_BY_CSE OR
  BUTTRESS_ISR_SAI_VIOLATION"
definition IPU4_BOOTLOADER_STATUS_OFFSET :: u32 where [ipu4_consts]: "IPU4_BOOTLOADER_STATUS_OFFSET = 0x8000"
definition IPU6_BOOTLOADER_STATUS_OFFSET :: u32 where [ipu4_consts]: "IPU6_BOOTLOADER_STATUS_OFFSET = 0x15c"
definition BOOTLOADER_MAGIC_KEY :: u32 where [ipu4_consts]: "BOOTLOADER_MAGIC_KEY = 0xb00710ad"
definition ENTRY :: u32 where [ipu4_consts]: "ENTRY = BUTTRESS_IU2CSECSR_IPC_PEER_COMP_ACTIONS_RST_PHASE1"
definition EXIT :: u32 where [ipu4_consts]: "EXIT = BUTTRESS_IU2CSECSR_IPC_PEER_COMP_ACTIONS_RST_PHASE2"
definition QUERY :: u32 where [ipu4_consts]: "QUERY = BUTTRESS_IU2CSECSR_IPC_PEER_QUERIED_IP_COMP_ACTIONS_RST_PHASE"
definition BUTTRESS_TSC_SYNC_RESET_TRIAL_MAX :: nat where [ipu4_consts]: "BUTTRESS_TSC_SYNC_RESET_TRIAL_MAX = 10"
definition BUTTRESS_POWER_TIMEOUT_US :: nat where [ipu4_consts]: "BUTTRESS_POWER_TIMEOUT_US = 200 * 1000"
definition BUTTRESS_CSE_BOOTLOAD_TIMEOUT_US :: nat where [ipu4_consts]: "BUTTRESS_CSE_BOOTLOAD_TIMEOUT_US = 5 * 1000000"
definition BUTTRESS_CSE_AUTHENTICATE_TIMEOUT_US :: nat where [ipu4_consts]: "BUTTRESS_CSE_AUTHENTICATE_TIMEOUT_US = 10 * 1000000"
definition BUTTRESS_CSE_FWRESET_TIMEOUT_US :: nat where [ipu4_consts]: "BUTTRESS_CSE_FWRESET_TIMEOUT_US = 100 * 1000"
definition BUTTRESS_IPC_TX_TIMEOUT_MS :: nat where [ipu4_consts]: "BUTTRESS_IPC_TX_TIMEOUT_MS = 1000"
definition BUTTRESS_IPC_RX_TIMEOUT_MS :: nat where [ipu4_consts]: "BUTTRESS_IPC_RX_TIMEOUT_MS = 1000"
definition BUTTRESS_IPC_VALIDITY_TIMEOUT_US :: nat where [ipu4_consts]: "BUTTRESS_IPC_VALIDITY_TIMEOUT_US = 1 * 1000000"
definition BUTTRESS_TSC_SYNC_TIMEOUT_US :: nat where [ipu4_consts]: "BUTTRESS_TSC_SYNC_TIMEOUT_US = 5 * 1000"
definition BUTTRESS_IPC_RESET_RETRY :: nat where [ipu4_consts]: "BUTTRESS_IPC_RESET_RETRY = 2000"
definition BUTTRESS_CSE_IPC_RESET_RETRY :: nat where [ipu4_consts]: "BUTTRESS_CSE_IPC_RESET_RETRY = 4"
definition BUTTRESS_IPC_CMD_SEND_RETRY :: nat where [ipu4_consts]: "BUTTRESS_IPC_CMD_SEND_RETRY = 1"
definition BUTTRESS_MAX_CONSECUTIVE_IRQS :: nat where [ipu4_consts]: "BUTTRESS_MAX_CONSECUTIVE_IRQS = 100"
definition IPU4_BUTTRESS_TSC_CLOCK_FREQUENCY :: u64 where [ipu4_consts]: "IPU4_BUTTRESS_TSC_CLOCK_FREQUENCY = 192"

text \<open>\<^verbatim>\<open>FIELD_GET\<close> and \<^verbatim>\<open>FIELD_PREP\<close> of a nonzero mask.\<close>

definition mask_shift :: "u32 \<Rightarrow> nat" where
  "mask_shift m = length (takeWhile (\<lambda>i. \<not> bit m i) [0..<32])"

definition FIELD_GET :: "u32 \<Rightarrow> u32 \<Rightarrow> u32" where
  "FIELD_GET m v = drop_bit (mask_shift m) (v AND m)"

definition FIELD_PREP :: "u32 \<Rightarrow> u32 \<Rightarrow> u32" where
  "FIELD_PREP m v = push_bit (mask_shift m) v AND m"

section \<open>State and environment\<close>

record ipu6_buttress_ctrl =
  freq_ctl :: u32
  pwr_sts_shift :: u32
  pwr_sts_mask :: u32
  pwr_sts_on :: u32
  pwr_sts_off :: u32
  ratio :: u32
  qos_floor :: u32

text \<open>A completion is the number of times it was completed and not yet waited for.\<close>

record ipu6_buttress_ipc =
  send_complete :: u32
  recv_complete :: u32
  nack :: u32
  nack_mask :: u32
  recv_data :: u32
  csr_out :: u32
  csr_in :: u32
  db0_in :: u32
  db0_out :: u32
  data0_out :: u32
  data0_in :: u32

record ipu6_ipc_buttress_bulk_msg =
  msg_cmd :: u32
  expected_resp :: u32
  require_resp :: bool
  cmd_size :: u8

text \<open>
  What the buttress code changes: the device, the flag of the secure mode, the channel,
  the cached registers and the count of runtime power management references.
\<close>

record 'd ipu6_device =
  hw :: 'd
  secure_mode :: bool
  cse :: ipu6_buttress_ipc
  wdt_cached_value :: u32
  ref_clk :: u32
  reg_irq_sts :: u32
  pm_usage :: int

datatype irqreturn = IRQ_NONE | IRQ_HANDLED | IRQ_WAKE_THREAD

text \<open>The interrupt handlers that a driver of a sub-device registers.\<close>

record 'd ipu6_auxdrv_data =
  adrv_isr :: "('d ipu6_device, irqreturn) state option"
  adrv_isr_threaded :: "('d ipu6_device, irqreturn) state option"
  wake_isr_thread :: bool

record 'd ipu6_bus_device =
  auxdrv :: bool
  auxdrv_data :: "'d ipu6_auxdrv_data option"

text \<open>
  The environment: the register file and where it is mapped, the sub-devices, and the
  kernel's clock, power management and debug output. \<open>polls sleep timeout\<close> is how often a polling loop
  sleeps before its deadline passes, \<open>irqs timeout\<close> how many interrupts arrive while a
  thread waits for a completion.
\<close>

record 'd btrs_env =
  mmio :: "'d mmio_dev"
  isp_base :: u64
  psys_base :: u64
  ver_ipu4 :: bool
  dyn_dbg :: bool
  polls :: "nat \<Rightarrow> nat \<Rightarrow> 'd \<Rightarrow> nat"
  irqs :: "nat \<Rightarrow> 'd \<Rightarrow> nat"
  pm_active :: "'d \<Rightarrow> int"
  pm_resume :: "'d \<Rightarrow> unit res"
  isys_adev :: "'d ipu6_bus_device option"
  psys_adev :: "'d ipu6_bus_device option"

definition on_hw :: "'d mmio_dev \<Rightarrow> 'd ipu6_device mmio_dev" where
  "on_hw dv = \<lparr>dev_read = (\<lambda>a s. let (v, d) = dev_read dv a (hw s) in (v, s\<lparr>hw := d\<rparr>)),
               dev_write = (\<lambda>v a s. s\<lparr>hw := dev_write dv v a (hw s)\<rparr>)\<rparr>"

definition isp_read :: "'d btrs_env \<Rightarrow> u32 \<Rightarrow> ('d ipu6_device, u32) state" where
  "isp_read env r = readl (on_hw (mmio env)) (isp_base env + ucast r)"

definition isp_write :: "'d btrs_env \<Rightarrow> u32 \<Rightarrow> u32 \<Rightarrow> ('d ipu6_device, unit) state" where
  "isp_write env v r = writel (on_hw (mmio env)) v (isp_base env + ucast r)"

definition modify_cse :: "(ipu6_buttress_ipc \<Rightarrow> ipu6_buttress_ipc) \<Rightarrow> ('d ipu6_device, unit) state" where
  "modify_cse f = State (\<lambda>s. ((), s\<lparr>cse := f (cse s)\<rparr>))"

definition get_cse :: "('d ipu6_device, ipu6_buttress_ipc) state" where
  "get_cse = State (\<lambda>s. (cse s, s))"

definition pm_add :: "int \<Rightarrow> ('d ipu6_device, unit) state" where
  "pm_add k = State (\<lambda>s. ((), s\<lparr>pm_usage := pm_usage s + k\<rparr>))"

text \<open>
  \<^verbatim>\<open>readl_poll_timeout\<close>: the register is read until the condition holds; when the deadline has
  passed it is read one last time.
\<close>

fun poll_loop :: "'s mmio_dev \<Rightarrow> u64 \<Rightarrow> (u32 \<Rightarrow> bool) \<Rightarrow> nat \<Rightarrow> ('s, u32) state" where
  "poll_loop dv a cond 0 = do { v \<leftarrow> readl dv a; if cond v then State_Monad.return v else readl dv a }"
| "poll_loop dv a cond (Suc n) =
     do { v \<leftarrow> readl dv a; if cond v then State_Monad.return v else poll_loop dv a cond n }"

definition readl_poll_timeout ::
  "'d btrs_env \<Rightarrow> u64 \<Rightarrow> (u32 \<Rightarrow> bool) \<Rightarrow> nat \<Rightarrow> nat \<Rightarrow> ('d ipu6_device, unit res \<times> u32) state" where
  "readl_poll_timeout env a cond sleep_us timeout_us =
     do { s \<leftarrow> State_Monad.get;
          v \<leftarrow> poll_loop (on_hw (mmio env)) a cond (polls env sleep_us timeout_us (hw s));
          State_Monad.return (if cond v then ok else Inl ETIMEDOUT, v) }"

section \<open>Resetting the channel to the security engine\<close>

definition csr_in_clr :: u32 where
  "csr_in_clr = BUTTRESS_IU2CSECSR_IPC_PEER_DEASSERTED_REG_VALID_REQ OR
     BUTTRESS_IU2CSECSR_IPC_PEER_ACKED_REG_VALID OR
     BUTTRESS_IU2CSECSR_IPC_PEER_ASSERTED_REG_VALID_REQ OR QUERY"

text \<open>One round of the handshake: whether the reset is complete.\<close>

definition ipc_reset_round :: "'d btrs_env \<Rightarrow> ipu6_buttress_ipc \<Rightarrow> ('d ipu6_device, bool) state" where
  "ipc_reset_round env ipc = do {
     val \<leftarrow> isp_read env (csr_in ipc);
     if val = ENTRY OR EXIT \<or> val = ENTRY OR EXIT OR QUERY then do {
       isp_write env (ENTRY OR EXIT) (csr_in ipc);
       isp_write env QUERY (csr_out ipc);
       State_Monad.return False }
     else if val = ENTRY \<or> val = ENTRY OR QUERY then do {
       isp_write env (ENTRY OR QUERY) (csr_in ipc);
       isp_write env ENTRY (csr_out ipc);
       State_Monad.return False }
     else if val = EXIT \<or> val = EXIT OR QUERY then do {
       isp_write env EXIT (csr_in ipc);
       isp_write env 0 (db0_in ipc);
       isp_write env csr_in_clr (csr_in ipc);
       isp_write env EXIT (csr_out ipc);
       val \<leftarrow> isp_read env (csr_in ipc);
       State_Monad.return (val AND QUERY = 0) }
     else if val = QUERY then do {
       isp_write env QUERY (csr_in ipc);
       isp_write env ENTRY (csr_out ipc);
       State_Monad.return False }
     else State_Monad.return False }"

text \<open>The loop \<^verbatim>\<open>do ... while (retries--)\<close> runs once more than \<open>retries\<close>.\<close>

fun ipc_reset_loop :: "'d btrs_env \<Rightarrow> ipu6_buttress_ipc \<Rightarrow> nat \<Rightarrow> ('d ipu6_device, unit res) state" where
  "ipc_reset_loop env ipc 0 = do {
     d \<leftarrow> ipc_reset_round env ipc;
     State_Monad.return (if d then ok else Inl ETIMEDOUT) }"
| "ipc_reset_loop env ipc (Suc retries) = do {
     d \<leftarrow> ipc_reset_round env ipc;
     if d then State_Monad.return ok else ipc_reset_loop env ipc retries }"

definition ipu6_buttress_ipc_reset :: "'d btrs_env \<Rightarrow> ('d ipu6_device, unit res) state" where
  "ipu6_buttress_ipc_reset env = do {
     s \<leftarrow> State_Monad.get;
     if \<not> secure_mode s then State_Monad.return ok
     else do {
       ipc \<leftarrow> get_cse;
       val \<leftarrow> isp_read env (csr_in ipc);
       isp_write env val (csr_in ipc);
       isp_write env ENTRY (csr_out ipc);
       ipc_reset_loop env ipc BUTTRESS_IPC_RESET_RETRY } }"

section \<open>Messages to the security engine\<close>

definition ipu6_buttress_ipc_validity_close :: "'d btrs_env \<Rightarrow> ('d ipu6_device, unit) state" where
  "ipu6_buttress_ipc_validity_close env = do {
     ipc \<leftarrow> get_cse;
     isp_write env BUTTRESS_IU2CSECSR_IPC_PEER_DEASSERTED_REG_VALID_REQ (csr_out ipc) }"

definition ipu6_buttress_ipc_validity_open :: "'d btrs_env \<Rightarrow> ('d ipu6_device, unit res) state" where
  "ipu6_buttress_ipc_validity_open env = do {
     ipc \<leftarrow> get_cse;
     isp_write env BUTTRESS_IU2CSECSR_IPC_PEER_ASSERTED_REG_VALID_REQ (csr_out ipc);
     (ret, val) \<leftarrow> readl_poll_timeout env (isp_base env + ucast (csr_in ipc))
       (\<lambda>v. v AND BUTTRESS_IU2CSECSR_IPC_PEER_ACKED_REG_VALID \<noteq> 0) 200 BUTTRESS_IPC_VALIDITY_TIMEOUT_US;
     case ret of
       Inl e \<Rightarrow> do { ipu6_buttress_ipc_validity_close env; State_Monad.return (Inl e) }
     | Inr _ \<Rightarrow> State_Monad.return ok }"

definition ipu6_buttress_ipc_recv :: "'d btrs_env \<Rightarrow> ('d ipu6_device, u32) state" where
  "ipu6_buttress_ipc_recv env = do {
     ipc \<leftarrow> get_cse;
     v \<leftarrow> isp_read env (data0_in ipc);
     isp_write env 0 (db0_in ipc);
     State_Monad.return v }"

definition ipu6_buttress_get_secure_mode :: "'d btrs_env \<Rightarrow> ('d ipu6_device, bool) state" where
  "ipu6_buttress_get_secure_mode env = do {
     val \<leftarrow> isp_read env BUTTRESS_REG_SECURITY_CTL;
     State_Monad.return (val AND BUTTRESS_SECURITY_CTL_FW_SECURE_MODE \<noteq> 0) }"

section \<open>Interrupts\<close>

text \<open>\<^verbatim>\<open>complete\<close> and the taking of a completion saturate at the largest value.\<close>

definition complete :: "u32 \<Rightarrow> u32" where
  "complete c = (if c = -1 then c else c + 1)"

definition take_completion :: "u32 \<Rightarrow> u32" where
  "take_completion c = (if c = -1 then c else c - 1)"

definition ipu6_buttress_call_isr :: "'d ipu6_bus_device option \<Rightarrow> ('d ipu6_device, irqreturn) state" where
  "ipu6_buttress_call_isr adev =
     (case adev of
        None \<Rightarrow> State_Monad.return IRQ_NONE
      | Some ad \<Rightarrow>
        if \<not> auxdrv ad then State_Monad.return IRQ_NONE
        else case auxdrv_data ad of
          None \<Rightarrow> State_Monad.return IRQ_NONE
        | Some dd \<Rightarrow> do {
            ret \<leftarrow> (case adrv_isr dd of None \<Rightarrow> State_Monad.return IRQ_WAKE_THREAD | Some f \<Rightarrow> f);
            State_Monad.return (if ret = IRQ_WAKE_THREAD \<and> Option.is_none (adrv_isr_threaded dd)
                                then IRQ_NONE else ret) })"

definition adevs :: "'d btrs_env \<Rightarrow> 'd ipu6_bus_device option list" where
  "adevs env = [isys_adev env, psys_adev env]"

definition ipu6_adev_irq_mask :: "u32 list" where
  "ipu6_adev_irq_mask = [BUTTRESS_ISR_IS_IRQ, BUTTRESS_ISR_PS_IRQ]"

text \<open>
  The handlers of the sub-devices in turn, each called whatever the status says; the result
  and the interrupts to disable.
\<close>

fun isr_dispatch ::
  "('d ipu6_bus_device option \<times> u32) list \<Rightarrow> u32 \<Rightarrow> irqreturn \<Rightarrow> u32 \<Rightarrow> ('d ipu6_device, irqreturn \<times> u32) state" where
  "isr_dispatch [] irq_status ret disable_irqs = State_Monad.return (ret, disable_irqs)"
| "isr_dispatch ((adev, m) # ads) irq_status ret disable_irqs = do {
     r \<leftarrow> ipu6_buttress_call_isr adev;
     if irq_status AND m = 0 then isr_dispatch ads irq_status ret disable_irqs
     else if r = IRQ_WAKE_THREAD then isr_dispatch ads irq_status IRQ_WAKE_THREAD (disable_irqs OR m)
     else if ret = IRQ_NONE \<and> r = IRQ_HANDLED then isr_dispatch ads irq_status IRQ_HANDLED disable_irqs
     else isr_dispatch ads irq_status ret disable_irqs }"

text \<open>The events of the channel to the security engine, and the security register read for the log.\<close>

definition isr_events :: "'d btrs_env \<Rightarrow> u32 \<Rightarrow> ('d ipu6_device, unit) state" where
  "isr_events env irq_status = do {
     (if irq_status AND BUTTRESS_ISR_IPC_FROM_CSE_IS_WAITING \<noteq> 0 then do {
        v \<leftarrow> ipu6_buttress_ipc_recv env;
        modify_cse (\<lambda>c. c\<lparr>recv_data := v\<rparr>);
        modify_cse (\<lambda>c. c\<lparr>recv_complete := complete (recv_complete c)\<rparr>) }
      else State_Monad.return ());
     (if irq_status AND BUTTRESS_ISR_IPC_EXEC_DONE_BY_CSE \<noteq> 0
      then modify_cse (\<lambda>c. c\<lparr>send_complete := complete (send_complete c)\<rparr>)
      else State_Monad.return ());
     (if irq_status AND BUTTRESS_ISR_SAI_VIOLATION \<noteq> 0
      then do { _ \<leftarrow> ipu6_buttress_get_secure_mode env; State_Monad.return () }
      else State_Monad.return ()) }"

text \<open>The loop of the handler; \<open>n\<close> is the number of rounds left.\<close>

fun isr_loop :: "'d btrs_env \<Rightarrow> nat \<Rightarrow> u32 \<Rightarrow> irqreturn \<Rightarrow> u32 \<Rightarrow> ('d ipu6_device, irqreturn \<times> u32) state" where
  "isr_loop env 0 irq_status ret disable_irqs = State_Monad.return (IRQ_NONE, disable_irqs)"
| "isr_loop env (Suc n) irq_status ret disable_irqs = do {
     isp_write env irq_status BUTTRESS_REG_ISR_CLEAR;
     (ret1, dis1) \<leftarrow> isr_dispatch (zip (adevs env) ipu6_adev_irq_mask) irq_status ret disable_irqs;
     let ret2 = (if irq_status AND BUTTRESS_EVENT \<noteq> 0 \<and> ret1 = IRQ_NONE then IRQ_HANDLED else ret1);
     isr_events env irq_status;
     if n = 0 then State_Monad.return (IRQ_NONE, dis1)
     else do {
       s \<leftarrow> State_Monad.get;
       st \<leftarrow> isp_read env (reg_irq_sts s);
       if st = 0 then State_Monad.return (ret2, dis1) else isr_loop env n st ret2 dis1 } }"

definition ipu6_buttress_isr :: "'d btrs_env \<Rightarrow> ('d ipu6_device, irqreturn) state" where
  "ipu6_buttress_isr env = do {
     s \<leftarrow> State_Monad.get;
     let active = pm_active env (hw s);
     if active = 0 then State_Monad.return IRQ_NONE
     else do {
       pm_add (if active > 0 then 1 else 0);
       irq_status \<leftarrow> isp_read env (reg_irq_sts s);
       if irq_status = 0 \<or> irq_status = 0xffffffff then do {
         pm_add (if active > 0 then - 1 else 0);
         State_Monad.return IRQ_NONE }
       else do {
         (ret, disable_irqs) \<leftarrow> isr_loop env BUTTRESS_MAX_CONSECUTIVE_IRQS irq_status IRQ_NONE 0;
         (if disable_irqs \<noteq> 0
          then isp_write env (BUTTRESS_IRQS AND NOT disable_irqs) BUTTRESS_REG_ISR_ENABLE
          else State_Monad.return ());
         pm_add (if active > 0 then - 1 else 0);
         State_Monad.return ret } } }"

text \<open>
  The threaded handler: the sub-devices up to the first missing one. The result \<open>None\<close> is
  the call of a missing threaded handler.
\<close>

fun isr_threads :: "'d ipu6_bus_device option list \<Rightarrow> irqreturn \<Rightarrow> ('d ipu6_device, irqreturn option) state" where
  "isr_threads [] ret = State_Monad.return (Some ret)"
| "isr_threads (adev # ads) ret =
     (case adev of
        None \<Rightarrow> State_Monad.return (Some ret)
      | Some ad \<Rightarrow>
        (case auxdrv_data ad of
           None \<Rightarrow> isr_threads ads ret
         | Some dd \<Rightarrow>
           if wake_isr_thread dd then
             (case adrv_isr_threaded dd of
                None \<Rightarrow> State_Monad.return None
              | Some f \<Rightarrow> do {
                  r \<leftarrow> f;
                  isr_threads ads (if r = IRQ_HANDLED then IRQ_HANDLED else ret) })
           else isr_threads ads ret))"

definition ipu6_buttress_isr_threaded :: "'d btrs_env \<Rightarrow> ('d ipu6_device, irqreturn option) state" where
  "ipu6_buttress_isr_threaded env = do {
     ret \<leftarrow> isr_threads (adevs env) IRQ_NONE;
     case ret of
       None \<Rightarrow> State_Monad.return None
     | Some r \<Rightarrow> do {
         isp_write env BUTTRESS_IRQS BUTTRESS_REG_ISR_ENABLE;
         State_Monad.return (Some r) } }"

text \<open>
  \<^verbatim>\<open>wait_for_completion_timeout\<close>: interrupts are taken while the thread waits; the wait ends
  when the completion is there, or when the deadline passes after \<open>n\<close> interrupts.
\<close>

fun wait_loop :: "'d btrs_env \<Rightarrow> (ipu6_buttress_ipc \<Rightarrow> u32) \<Rightarrow> nat \<Rightarrow> ('d ipu6_device, bool) state" where
  "wait_loop env c 0 = do { ipc \<leftarrow> get_cse; State_Monad.return (c ipc \<noteq> 0) }"
| "wait_loop env c (Suc n) = do {
     ipc \<leftarrow> get_cse;
     if c ipc \<noteq> 0 then State_Monad.return True
     else do { _ \<leftarrow> ipu6_buttress_isr env; wait_loop env c n } }"

definition wait_send :: "'d btrs_env \<Rightarrow> ('d ipu6_device, bool) state" where
  "wait_send env = do {
     s \<leftarrow> State_Monad.get;
     t \<leftarrow> wait_loop env send_complete (irqs env BUTTRESS_IPC_TX_TIMEOUT_MS (hw s));
     (if t then modify_cse (\<lambda>c. c\<lparr>send_complete := take_completion (send_complete c)\<rparr>) else State_Monad.return ());
     State_Monad.return t }"

definition wait_recv :: "'d btrs_env \<Rightarrow> ('d ipu6_device, bool) state" where
  "wait_recv env = do {
     s \<leftarrow> State_Monad.get;
     t \<leftarrow> wait_loop env recv_complete (irqs env BUTTRESS_IPC_RX_TIMEOUT_MS (hw s));
     (if t then modify_cse (\<lambda>c. c\<lparr>recv_complete := take_completion (recv_complete c)\<rparr>) else State_Monad.return ());
     State_Monad.return t }"

text \<open>Sending a list of messages; \<open>retry\<close> is the number of retries left for the first.\<close>

function send_bulk_loop :: "'d btrs_env \<Rightarrow> nat \<Rightarrow> ipu6_ipc_buttress_bulk_msg list \<Rightarrow> ('d ipu6_device, unit res) state" where
  "send_bulk_loop env retry [] = State_Monad.return ok"
| "send_bulk_loop env retry (m # ms) = do {
     modify_cse (\<lambda>c. c\<lparr>send_complete := 0\<rparr>);
     (if require_resp m then modify_cse (\<lambda>c. c\<lparr>recv_complete := 0\<rparr>) else State_Monad.return ());
     ipc \<leftarrow> get_cse;
     isp_write env (msg_cmd m) (data0_out ipc);
     isp_write env (BUTTRESS_IU2CSEDB0_BUSY OR ucast (cmd_size m)) (db0_out ipc);
     tout \<leftarrow> wait_send env;
     if \<not> tout then
       (if retry = 0 then State_Monad.return (Inl ETIMEDOUT)
        else do {
          isp_write env 0 (db0_out ipc);
          send_bulk_loop env (retry - 1) (m # ms) })
     else if \<not> require_resp m then send_bulk_loop env BUTTRESS_IPC_CMD_SEND_RETRY ms
     else do {
       tout \<leftarrow> wait_recv env;
       if \<not> tout then State_Monad.return (Inl ETIMEDOUT)
       else do {
         ipc \<leftarrow> get_cse;
         if nack_mask ipc \<noteq> 0 \<and> recv_data ipc AND nack_mask ipc = nack ipc then State_Monad.return (Inl EIO)
         else if recv_data ipc \<noteq> expected_resp m then State_Monad.return (Inl EIO)
         else send_bulk_loop env BUTTRESS_IPC_CMD_SEND_RETRY ms } } }"
  by pat_completeness auto
termination
  by (relation "measures [\<lambda>(env, retry, ms). length ms, \<lambda>(env, retry, ms). retry]") auto

definition ipu6_buttress_ipc_send_bulk ::
  "'d btrs_env \<Rightarrow> ipu6_ipc_buttress_bulk_msg list \<Rightarrow> ('d ipu6_device, unit res) state" where
  "ipu6_buttress_ipc_send_bulk env msgs = do {
     ret \<leftarrow> ipu6_buttress_ipc_validity_open env;
     ret \<leftarrow> (case ret of
               Inl e \<Rightarrow> State_Monad.return (Inl e)
             | Inr _ \<Rightarrow> send_bulk_loop env BUTTRESS_IPC_CMD_SEND_RETRY msgs);
     ipu6_buttress_ipc_validity_close env;
     State_Monad.return ret }"

definition ipu6_buttress_ipc_send ::
  "'d btrs_env \<Rightarrow> u32 \<Rightarrow> u32 \<Rightarrow> bool \<Rightarrow> u32 \<Rightarrow> ('d ipu6_device, unit res) state" where
  "ipu6_buttress_ipc_send env ipc_msg sz resp expected =
     ipu6_buttress_ipc_send_bulk env
       [\<lparr>msg_cmd = ipc_msg, expected_resp = expected, require_resp = resp, cmd_size = ucast sz\<rparr>]"

section \<open>Power\<close>

definition ipu6_buttress_power ::
  "'d btrs_env \<Rightarrow> ipu6_buttress_ctrl option \<Rightarrow> bool \<Rightarrow> ('d ipu6_device, unit res) state" where
  "ipu6_buttress_power env ctrl on =
     (case ctrl of
        None \<Rightarrow> State_Monad.return ok
      | Some c \<Rightarrow>
        let val = (if \<not> on then 0
                   else BUTTRESS_FREQ_CTL_START OR FIELD_PREP BUTTRESS_FREQ_CTL_RATIO_MASK (ratio c) OR
                        FIELD_PREP BUTTRESS_FREQ_CTL_QOS_FLOOR_MASK (qos_floor c) OR
                        IPU4_BUTTRESS_FREQ_CTL_ICCMAX_LEVEL);
            pwr_sts = push_bit (unat (pwr_sts_shift c)) (if on then pwr_sts_on c else pwr_sts_off c) in
        do {
          isp_write env val (freq_ctl c);
          (ret, val) \<leftarrow> readl_poll_timeout env (isp_base env + ucast BUTTRESS_REG_PWR_STATE)
            (\<lambda>v. v AND pwr_sts_mask c = pwr_sts) 100 BUTTRESS_POWER_TIMEOUT_US;
          State_Monad.return ret })"

text \<open>The tables of the two sub-systems of the IPU4, in \<^verbatim>\<open>kernel/ipu4/ipu6.c\<close>.\<close>

definition IPU6_BUTTRESS_REG_IS_FREQ_CTL :: u32 where [ipu4_consts]: "IPU6_BUTTRESS_REG_IS_FREQ_CTL = 0x34"
definition IPU6_BUTTRESS_REG_PS_FREQ_CTL :: u32 where [ipu4_consts]: "IPU6_BUTTRESS_REG_PS_FREQ_CTL = 0x38"
definition IPU4_IS_FREQ_CTL_DIVISOR :: u32 where [ipu4_consts]: "IPU4_IS_FREQ_CTL_DIVISOR = 0x4"
definition IPU4_BUTTRESS_PWR_STATE_IS_PWR_FSM_SHIFT :: u32 where [ipu4_consts]: "IPU4_BUTTRESS_PWR_STATE_IS_PWR_FSM_SHIFT = 20"
definition IPU4_BUTTRESS_PWR_STATE_IS_PWR_FSM_MASK :: u32 where [ipu4_consts]: "IPU4_BUTTRESS_PWR_STATE_IS_PWR_FSM_MASK = 0xf00000"
definition IPU4_BUTTRESS_PWR_STATE_IS_PWR_FSM_IDLE :: u32 where [ipu4_consts]: "IPU4_BUTTRESS_PWR_STATE_IS_PWR_FSM_IDLE = 0x0"
definition IPU4_BUTTRESS_PWR_STATE_IS_PWR_FSM_IS_RDY :: u32 where [ipu4_consts]: "IPU4_BUTTRESS_PWR_STATE_IS_PWR_FSM_IS_RDY = 0xa"
definition IPU4_PS_FREQ_CTL_DEFAULT_RATIO :: u32 where [ipu4_consts]: "IPU4_PS_FREQ_CTL_DEFAULT_RATIO = 0x12"
definition IPU4_BUTTRESS_PWR_STATE_PS_PWR_FSM_SHIFT :: u32 where [ipu4_consts]: "IPU4_BUTTRESS_PWR_STATE_PS_PWR_FSM_SHIFT = 24"
definition IPU4_BUTTRESS_PWR_STATE_PS_PWR_FSM_MASK :: u32 where [ipu4_consts]: "IPU4_BUTTRESS_PWR_STATE_PS_PWR_FSM_MASK = 0x1f000000"
definition IPU4_BUTTRESS_PWR_STATE_PS_PWR_FSM_IDLE :: u32 where [ipu4_consts]: "IPU4_BUTTRESS_PWR_STATE_PS_PWR_FSM_IDLE = 0x0"
definition IPU4_BUTTRESS_PWR_STATE_PS_PWR_FSM_PS_PWR_UP :: u32 where [ipu4_consts]: "IPU4_BUTTRESS_PWR_STATE_PS_PWR_FSM_PS_PWR_UP = 0xf"

definition ipu4_isys_buttress_ctrl :: ipu6_buttress_ctrl where
  "ipu4_isys_buttress_ctrl = \<lparr>freq_ctl = IPU6_BUTTRESS_REG_IS_FREQ_CTL,
     pwr_sts_shift = IPU4_BUTTRESS_PWR_STATE_IS_PWR_FSM_SHIFT,
     pwr_sts_mask = IPU4_BUTTRESS_PWR_STATE_IS_PWR_FSM_MASK,
     pwr_sts_on = IPU4_BUTTRESS_PWR_STATE_IS_PWR_FSM_IS_RDY,
     pwr_sts_off = IPU4_BUTTRESS_PWR_STATE_IS_PWR_FSM_IDLE,
     ratio = IPU4_IS_FREQ_CTL_DIVISOR, qos_floor = 0\<rparr>"

definition ipu4_psys_buttress_ctrl :: ipu6_buttress_ctrl where
  "ipu4_psys_buttress_ctrl = \<lparr>freq_ctl = IPU6_BUTTRESS_REG_PS_FREQ_CTL,
     pwr_sts_shift = IPU4_BUTTRESS_PWR_STATE_PS_PWR_FSM_SHIFT,
     pwr_sts_mask = IPU4_BUTTRESS_PWR_STATE_PS_PWR_FSM_MASK,
     pwr_sts_on = IPU4_BUTTRESS_PWR_STATE_PS_PWR_FSM_PS_PWR_UP,
     pwr_sts_off = IPU4_BUTTRESS_PWR_STATE_PS_PWR_FSM_IDLE,
     ratio = IPU4_PS_FREQ_CTL_DEFAULT_RATIO, qos_floor = IPU4_PS_FREQ_CTL_DEFAULT_RATIO\<rparr>"

section \<open>Authentication of the firmware\<close>

definition ipu6_buttress_auth_done :: "'d btrs_env \<Rightarrow> ('d ipu6_device, bool) state" where
  "ipu6_buttress_auth_done env = do {
     s \<leftarrow> State_Monad.get;
     if \<not> secure_mode s then State_Monad.return True
     else do {
       val \<leftarrow> isp_read env BUTTRESS_REG_SECURITY_CTL;
       State_Monad.return (FIELD_GET BUTTRESS_SECURITY_CTL_FW_SETUP_MASK val = BUTTRESS_SECURITY_CTL_AUTH_DONE) } }"

definition ipu6_buttress_reset_authentication :: "'d btrs_env \<Rightarrow> ('d ipu6_device, unit res) state" where
  "ipu6_buttress_reset_authentication env = do {
     s \<leftarrow> State_Monad.get;
     if \<not> secure_mode s then State_Monad.return ok
     else do {
       isp_write env BUTTRESS_FW_RESET_CTL_START BUTTRESS_REG_FW_RESET_CTL;
       (ret, val) \<leftarrow> readl_poll_timeout env (isp_base env + ucast BUTTRESS_REG_FW_RESET_CTL)
         (\<lambda>v. v AND BUTTRESS_FW_RESET_CTL_DONE \<noteq> 0) 500 BUTTRESS_CSE_FWRESET_TIMEOUT_US;
       case ret of
         Inl e \<Rightarrow> State_Monad.return (Inl e)
       | Inr _ \<Rightarrow> do {
           isp_write env 0 BUTTRESS_REG_FW_RESET_CTL;
           State_Monad.return ok } } }"

text \<open>Waiting for one of the two outcomes in the security register.\<close>

definition poll_security ::
  "'d btrs_env \<Rightarrow> u32 \<Rightarrow> nat \<Rightarrow> ('d ipu6_device, unit res) state" where
  "poll_security env done timeout = do {
     (ret, v) \<leftarrow> readl_poll_timeout env (isp_base env + ucast BUTTRESS_REG_SECURITY_CTL)
       (\<lambda>v. v AND BUTTRESS_SECURITY_CTL_FW_SETUP_MASK = done \<or>
            v AND BUTTRESS_SECURITY_CTL_FW_SETUP_MASK = BUTTRESS_SECURITY_CTL_AUTH_FAILED) 500 timeout;
     case ret of
       Inl e \<Rightarrow> State_Monad.return (Inl e)
     | Inr _ \<Rightarrow>
         if v AND BUTTRESS_SECURITY_CTL_FW_SETUP_MASK = BUTTRESS_SECURITY_CTL_AUTH_FAILED
         then State_Monad.return (Inl EINVAL) else State_Monad.return ok }"

definition bootloader_status_offset :: "'d btrs_env \<Rightarrow> u32" where
  "bootloader_status_offset env =
     (if ver_ipu4 env then IPU4_BOOTLOADER_STATUS_OFFSET else IPU6_BOOTLOADER_STATUS_OFFSET)"

text \<open>The steps between the check of the state and the release of the power reference.\<close>

definition authenticate_steps :: "'d btrs_env \<Rightarrow> u64 \<Rightarrow> ('d ipu6_device, unit res) state" where
  "authenticate_steps env pkg_dir_dma_addr = do {
     isp_write env (ucast pkg_dir_dma_addr) BUTTRESS_REG_FW_SOURCE_BASE_LO;
     isp_write env (ucast (drop_bit 32 pkg_dir_dma_addr)) BUTTRESS_REG_FW_SOURCE_BASE_HI;
     ret \<leftarrow> ipu6_buttress_ipc_send env BUTTRESS_IU2CSEDATA0_IPC_BOOT_LOAD 1 True
       BUTTRESS_CSE2IUDATA0_IPC_BOOT_LOAD_DONE;
     case ret of Inl e \<Rightarrow> State_Monad.return (Inl e) | Inr _ \<Rightarrow> do {
     ret \<leftarrow> poll_security env BUTTRESS_SECURITY_CTL_FW_SETUP_DONE BUTTRESS_CSE_BOOTLOAD_TIMEOUT_US;
     case ret of Inl e \<Rightarrow> State_Monad.return (Inl e) | Inr _ \<Rightarrow> do {
     (ret, v) \<leftarrow> readl_poll_timeout env (psys_base env + ucast (bootloader_status_offset env))
       (\<lambda>v. v = BOOTLOADER_MAGIC_KEY) 500 BUTTRESS_CSE_BOOTLOAD_TIMEOUT_US;
     case ret of Inl e \<Rightarrow> State_Monad.return (Inl e) | Inr _ \<Rightarrow> do {
     ret \<leftarrow> ipu6_buttress_ipc_send env BUTTRESS_IU2CSEDATA0_IPC_AUTH_RUN 1 True
       BUTTRESS_CSE2IUDATA0_IPC_AUTH_RUN_DONE;
     case ret of Inl e \<Rightarrow> State_Monad.return (Inl e) | Inr _ \<Rightarrow>
     poll_security env BUTTRESS_SECURITY_CTL_AUTH_DONE BUTTRESS_CSE_AUTHENTICATE_TIMEOUT_US } } } }"

definition ipu6_buttress_authenticate :: "'d btrs_env \<Rightarrow> u64 \<Rightarrow> ('d ipu6_device, unit res) state" where
  "ipu6_buttress_authenticate env pkg_dir_dma_addr = do {
     s \<leftarrow> State_Monad.get;
     if \<not> secure_mode s then State_Monad.return ok
     else case pm_resume env (hw s) of
       Inl e \<Rightarrow> State_Monad.return (Inl e)
     | Inr _ \<Rightarrow> do {
         pm_add 1;
         d \<leftarrow> ipu6_buttress_auth_done env;
         ret \<leftarrow> (if d then State_Monad.return ok else authenticate_steps env pkg_dir_dma_addr);
         pm_add (- 1);
         State_Monad.return ret } }"

section \<open>Time stamps\<close>

definition ipu6_buttress_send_tsc_request :: "'d btrs_env \<Rightarrow> ('d ipu6_device, unit res) state" where
  "ipu6_buttress_send_tsc_request env = do {
     isp_write env BUTTRESS_FABRIC_CMD_START_TSC_SYNC BUTTRESS_REG_FABRIC_CMD;
     val \<leftarrow> isp_read env BUTTRESS_REG_PWR_STATE;
     if FIELD_GET IPU4_BUTTRESS_PWR_STATE_HH_STATUS_MASK val = BUTTRESS_PWR_STATE_HH_STATE_ERR
     then State_Monad.return (Inl EINVAL)
     else do {
       (ret, val) \<leftarrow> readl_poll_timeout env (isp_base env + ucast BUTTRESS_REG_PWR_STATE)
         (\<lambda>v. FIELD_GET IPU4_BUTTRESS_PWR_STATE_HH_STATUS_MASK v = BUTTRESS_PWR_STATE_HH_STATE_DONE)
         500 BUTTRESS_TSC_SYNC_TIMEOUT_US;
       State_Monad.return ret } }"

fun tsc_sync_loop :: "'d btrs_env \<Rightarrow> nat \<Rightarrow> ('d ipu6_device, unit res) state" where
  "tsc_sync_loop env 0 = State_Monad.return (Inl ETIMEDOUT)"
| "tsc_sync_loop env (Suc n) = do {
     ret \<leftarrow> ipu6_buttress_send_tsc_request env;
     if ret \<noteq> Inl ETIMEDOUT then State_Monad.return ret
     else do {
       val \<leftarrow> isp_read env BUTTRESS_REG_TSW_CTL;
       let val1 = val OR BUTTRESS_TSW_CTL_SOFT_RESET;
       isp_write env val1 BUTTRESS_REG_TSW_CTL;
       isp_write env (val1 AND NOT BUTTRESS_TSW_CTL_SOFT_RESET) BUTTRESS_REG_TSW_CTL;
       tsc_sync_loop env n } }"

definition ipu6_buttress_start_tsc_sync :: "'d btrs_env \<Rightarrow> ('d ipu6_device, unit res) state" where
  "ipu6_buttress_start_tsc_sync env = tsc_sync_loop env BUTTRESS_TSC_SYNC_RESET_TRIAL_MAX"

definition tsc_combine :: "u32 \<Rightarrow> u32 \<Rightarrow> u64" where
  "tsc_combine hi lo = push_bit 32 (ucast hi) OR ucast lo"

definition ipu6_buttress_tsc_read :: "'d btrs_env \<Rightarrow> ('d ipu6_device, u64) state" where
  "ipu6_buttress_tsc_read env = do {
     tsc_hi_1 \<leftarrow> isp_read env BUTTRESS_REG_TSC_HI;
     tsc_lo \<leftarrow> isp_read env BUTTRESS_REG_TSC_LO;
     tsc_hi_2 \<leftarrow> isp_read env BUTTRESS_REG_TSC_HI;
     State_Monad.return
       (if tsc_hi_1 = tsc_hi_2 then tsc_combine tsc_hi_1 tsc_lo
        else if bit tsc_lo 31 then tsc_combine tsc_hi_1 tsc_lo
        else tsc_combine tsc_hi_2 tsc_lo) }"

definition ipu6_buttress_tsc_ticks_to_ns :: "u64 \<Rightarrow> u64" where
  "ipu6_buttress_tsc_ticks_to_ns ticks = ticks * 10000 div IPU4_BUTTRESS_TSC_CLOCK_FREQUENCY"

section \<open>Start and end\<close>

definition ipu6_buttress_restore :: "'d btrs_env \<Rightarrow> ('d ipu6_device, unit) state" where
  "ipu6_buttress_restore env = do {
     isp_write env BUTTRESS_IRQS BUTTRESS_REG_ISR_CLEAR;
     isp_write env BUTTRESS_IRQS BUTTRESS_REG_ISR_ENABLE;
     s \<leftarrow> State_Monad.get;
     isp_write env (wdt_cached_value s) BUTTRESS_REG_WDT }"

definition cse_init :: "ipu6_buttress_ipc \<Rightarrow> ipu6_buttress_ipc" where
  "cse_init c = c\<lparr>send_complete := 0, recv_complete := 0, nack := BUTTRESS_CSE2IUDATA0_IPC_NACK,
     nack_mask := BUTTRESS_CSE2IUDATA0_IPC_NACK_MASK, csr_in := BUTTRESS_REG_CSE2IUCSR,
     csr_out := BUTTRESS_REG_IU2CSECSR, db0_in := BUTTRESS_REG_CSE2IUDB0,
     db0_out := BUTTRESS_REG_IU2CSEDB0, data0_in := BUTTRESS_REG_CSE2IUDATA0,
     data0_out := BUTTRESS_REG_IU2CSEDATA0\<rparr>"

text \<open>The reference clock in units of 0.1 MHz.\<close>

definition ref_clk_of :: "u32 \<Rightarrow> u32" where
  "ref_clk_of val =
     (if val = 0 then 240 else if val = 1 then 192 else if val = 2 then 384 else 192)"

fun init_reset_loop :: "'d btrs_env \<Rightarrow> nat \<Rightarrow> ('d ipu6_device, unit res) state" where
  "init_reset_loop env 0 = ipu6_buttress_ipc_reset env"
| "init_reset_loop env (Suc n) = do {
     ret \<leftarrow> ipu6_buttress_ipc_reset env;
     case ret of Inl _ \<Rightarrow> init_reset_loop env n | Inr _ \<Rightarrow> State_Monad.return ok }"

definition ipu6_buttress_init :: "'d btrs_env \<Rightarrow> ('d ipu6_device, unit res) state" where
  "ipu6_buttress_init env = do {
     modify_cse cse_init;
     sec \<leftarrow> ipu6_buttress_get_secure_mode env;
     s \<leftarrow> State_Monad.get;
     State_Monad.set (s\<lparr>secure_mode := sec\<rparr>);
     (if dyn_dbg env then do {
        _ \<leftarrow> isp_read env BUTTRESS_REG_SECURITY_TOUCH;
        _ \<leftarrow> isp_read env BUTTRESS_REG_CAMERA_MASK;
        State_Monad.return () }
      else State_Monad.return ());
     wdt \<leftarrow> isp_read env BUTTRESS_REG_WDT;
     s \<leftarrow> State_Monad.get;
     State_Monad.set (s\<lparr>wdt_cached_value := wdt\<rparr>);
     isp_write env BUTTRESS_IRQS BUTTRESS_REG_ISR_CLEAR;
     isp_write env BUTTRESS_IRQS BUTTRESS_REG_ISR_ENABLE;
     val \<leftarrow> isp_read env BUTTRESS_REG_BTRS_CTRL;
     s \<leftarrow> State_Monad.get;
     State_Monad.set (s\<lparr>ref_clk := ref_clk_of (FIELD_GET BUTTRESS_REG_BTRS_CTRL_REF_CLK_IND val)\<rparr>);
     init_reset_loop env BUTTRESS_CSE_IPC_RESET_RETRY }"

definition ipu6_buttress_exit :: "'d btrs_env \<Rightarrow> ('d ipu6_device, unit) state" where
  "ipu6_buttress_exit env = isp_write env 0 BUTTRESS_REG_ISR_ENABLE"

section \<open>The firmware image\<close>

text \<open>
  The kernel's services for the pages behind the image: \<open>sg_from_pages\<close> builds a scatter
  table of the pages and \<open>pci_map_sgtable\<close> maps it for the PCI device.
\<close>

record 's fw_env =
  is_vmalloc_addr :: "u64 \<Rightarrow> bool"
  virt_addr_valid :: "u64 \<Rightarrow> bool"
  kmalloc_array_ok :: "nat \<Rightarrow> 's \<Rightarrow> bool"
  vmalloc_to_page :: "u64 \<Rightarrow> nat option"
  virt_to_page :: "u64 \<Rightarrow> nat option"
  sg_from_pages :: "nat list \<Rightarrow> u64 \<Rightarrow> 's \<Rightarrow> (scatterlist list \<times> nat) option \<times> 's"
  sg_free_table :: "scatterlist list \<times> nat \<Rightarrow> 's \<Rightarrow> 's"
  pci_map_sgtable :: "scatterlist list \<times> nat \<Rightarrow> 's \<Rightarrow> unit res \<times> (scatterlist list \<times> nat) \<times> 's"
  pci_unmap_sgtable :: "scatterlist list \<times> nat \<Rightarrow> 's \<Rightarrow> 's"

text \<open>The pages of the image, up to the first that cannot be found.\<close>

fun fw_pages :: "(u64 \<Rightarrow> nat option) \<Rightarrow> nat \<Rightarrow> u64 \<Rightarrow> nat list option" where
  "fw_pages f 0 addr = Some []"
| "fw_pages f (Suc n) addr =
     (case f addr of
        None \<Rightarrow> None
      | Some p \<Rightarrow> map_option (\<lambda>ps. p # ps) (fw_pages f n (addr + 4096)))"

text \<open>The result and the table; the outer option is the access through a missing page table.\<close>

definition ipu6_buttress_map_fw_image ::
  "'d mmio_dev \<Rightarrow> 's dma_env \<Rightarrow> 's fw_env \<Rightarrow> u64 \<Rightarrow> u64 \<Rightarrow> ipu6_mmu \<Rightarrow> 's \<Rightarrow> 'd \<Rightarrow>
   ((scatterlist list \<times> nat) res \<times> ipu6_mmu \<times> 's \<times> 'd) option" where
  "ipu6_buttress_map_fw_image dv env fe fw_data fw_size mmu s d =
     (let vm = is_vmalloc_addr fe fw_data; n_pages = PFN_UP fw_size in
      if \<not> vm \<and> \<not> virt_addr_valid fe fw_data then Some (Inl EDOM, mmu, s, d)
      else if \<not> kmalloc_array_ok fe n_pages s then Some (Inl ENOMEM, mmu, s, d)
      else case fw_pages (if vm then vmalloc_to_page fe else virt_to_page fe) n_pages fw_data of
        None \<Rightarrow> Some (Inl ENOMEM, mmu, s, d)
      | Some pages \<Rightarrow>
        (case sg_from_pages fe pages fw_size s of
           (None, s1) \<Rightarrow> Some (Inl ENOMEM, mmu, s1, d)
         | (Some sgt, s1) \<Rightarrow>
           (case pci_map_sgtable fe sgt s1 of
              (Inl e, sgt1, s2) \<Rightarrow> Some (Inl e, mmu, sg_free_table fe sgt1 s2, d)
            | (Inr _, sgt1, s2) \<Rightarrow>
              (case ipu6_dma_map_sgtable dv env sgt1 mmu s2 d of
                 None \<Rightarrow> None
               | Some (Inl e, sgt2, mmu1, s3, d1) \<Rightarrow>
                   Some (Inl e, mmu1, sg_free_table fe sgt2 (pci_unmap_sgtable fe sgt2 s3), d1)
               | Some (Inr _, sgt2, mmu1, s3, d1) \<Rightarrow> Some (Inr sgt2, mmu1, s3, d1)))))"

definition ipu6_buttress_unmap_fw_image ::
  "'d mmio_dev \<Rightarrow> 's dma_env \<Rightarrow> 's fw_env \<Rightarrow> scatterlist list \<times> nat \<Rightarrow> ipu6_mmu \<Rightarrow> 's \<Rightarrow> 'd \<Rightarrow>
   (ipu6_mmu \<times> 's \<times> 'd) option" where
  "ipu6_buttress_unmap_fw_image dv env fe sgt mmu s d =
     map_option (\<lambda>(sgt1, mmu1, s1, d1). (mmu1, sg_free_table fe sgt1 (pci_unmap_sgtable fe sgt1 s1), d1))
       (ipu6_dma_unmap_sgtable dv env sgt mmu s d)"

end
