(* ===== verification/Buttress_Props.thy ===== *)
theory Buttress_Props
  imports Buttress Dma_Sg
begin

unbundle bit_operations_syntax

text \<open>
  Properties of the buttress code: the channel reset and the start on the emulated device,
  the soundness of the authentication on any device, time stamps, power and the mapping
  of the firmware image.
\<close>

section \<open>Running the primitives\<close>

lemma run_get [simp]: "run_state State_Monad.get s = (s, s)"
  by (simp add: State_Monad.get_def)

lemma run_set [simp]: "run_state (State_Monad.set t) s = ((), t)"
  by (simp add: State_Monad.set_def)

lemma run_isp_read [simp]:
  "run_state (isp_read env r) s =
     (fst (dev_read (mmio env) (isp_base env + ucast r) (hw s)),
      s\<lparr>hw := snd (dev_read (mmio env) (isp_base env + ucast r) (hw s))\<rparr>)"
  by (simp add: isp_read_def on_hw_def case_prod_beta)

lemma run_isp_write [simp]:
  "run_state (isp_write env v r) s = ((), s\<lparr>hw := dev_write (mmio env) v (isp_base env + ucast r) (hw s)\<rparr>)"
  by (simp add: isp_write_def on_hw_def)

lemma run_cse [simp]:
  "run_state get_cse s = (cse s, s)"
  "run_state (modify_cse f) s = ((), s\<lparr>cse := f (cse s)\<rparr>)"
  "run_state (pm_add k) s = ((), s\<lparr>pm_usage := pm_usage s + k\<rparr>)"
  by (simp_all add: get_cse_def modify_cse_def pm_add_def)

text \<open>The registers of the channel, as the initialisation sets them.\<close>

definition cse_regs :: "ipu6_buttress_ipc \<Rightarrow> bool" where
  "cse_regs c \<longleftrightarrow> csr_in c = BUTTRESS_REG_CSE2IUCSR \<and> csr_out c = BUTTRESS_REG_IU2CSECSR \<and>
     db0_in c = BUTTRESS_REG_CSE2IUDB0 \<and> db0_out c = BUTTRESS_REG_IU2CSEDB0 \<and>
     data0_in c = BUTTRESS_REG_CSE2IUDATA0 \<and> data0_out c = BUTTRESS_REG_IU2CSEDATA0"

lemma cse_regs_init: "cse_regs (cse_init c)"
  by (simp add: cse_regs_def cse_init_def)

section \<open>On the emulated device\<close>

text \<open>An environment whose registers are those of the emulated device.\<close>

definition on_qemu :: "'m pci_env \<Rightarrow> 'm dev btrs_env \<Rightarrow> bool" where
  "on_qemu penv env \<longleftrightarrow> mmio env = qemu_dev penv (isp_base env)"

lemma qemu_read: "on_qemu penv env \<Longrightarrow>
    dev_read (mmio env) (isp_base env + a) d = ipu4_mmio_read penv a d"
  by (simp add: on_qemu_def qemu_dev_def)

lemma qemu_write: "on_qemu penv env \<Longrightarrow>
    dev_write (mmio env) v (isp_base env + a) d = ipu4_mmio_write penv v a d"
  by (simp add: on_qemu_def qemu_dev_def)

lemma qemu_csr_read: "ipu4_mmio_read penv (ucast BUTTRESS_REG_CSE2IUCSR) (q, m) = (cse2iu_csr q, (q, m))"
  by (simp add: ipu4_mmio_read_def ipu4_consts)

lemma qemu_csr_in_write:
  "ipu4_mmio_write penv v (ucast BUTTRESS_REG_CSE2IUCSR) (q, m) =
     (q\<lparr>cse2iu_csr := cse2iu_csr q AND NOT v\<rparr>, m)"
  by (simp add: ipu4_mmio_write_def ipu4_consts)

lemma qemu_csr_out_write:
  "ipu4_mmio_write penv ENTRY (ucast BUTTRESS_REG_IU2CSECSR) (q, m) =
     (q\<lparr>iu2cse_csr := ENTRY, cse2iu_csr := cse2iu_csr q OR EXIT\<rparr>, m)"
  "ipu4_mmio_write penv EXIT (ucast BUTTRESS_REG_IU2CSECSR) (q, m) = (q\<lparr>iu2cse_csr := EXIT\<rparr>, m)"
  by (simp_all add: ipu4_mmio_write_def ipu4_consts)

lemma qemu_db0_in_write:
  "ipu4_mmio_write penv v (ucast BUTTRESS_REG_CSE2IUDB0) (q, m) = (q\<lparr>cse2iu_data0 := 0\<rparr>, m)"
  by (simp add: ipu4_mmio_write_def ipu4_consts)

lemmas qemu_csr = qemu_csr_read qemu_csr_in_write qemu_csr_out_write qemu_db0_in_write

text \<open>The reset of the channel ends in the first round.\<close>

lemma ipc_reset_loop_done:
  "run_state (ipc_reset_round env ipc) s = (True, s') \<Longrightarrow> run_state (ipc_reset_loop env ipc n) s = (ok, s')"
  by (cases n) simp_all

lemma ipc_reset_qemu:
  assumes "on_qemu penv env" "cse_regs (cse s)" "hw s = (q, m)"
  shows "run_state (ipu6_buttress_ipc_reset env) s =
    (ok, if secure_mode s
         then s\<lparr>hw := (q\<lparr>cse2iu_csr := 0, iu2cse_csr := EXIT, cse2iu_data0 := 0\<rparr>, m)\<rparr> else s)"
proof (cases "secure_mode s")
  case True
  have val: "(0 :: u32) OR EXIT = EXIT" "EXIT \<noteq> ENTRY OR EXIT" "EXIT \<noteq> ENTRY OR EXIT OR QUERY"
    "EXIT \<noteq> ENTRY" "EXIT \<noteq> ENTRY OR QUERY"
    by (simp_all add: ipu4_consts)
  let ?s1 = "s\<lparr>hw := (q\<lparr>iu2cse_csr := ENTRY, cse2iu_csr := EXIT\<rparr>, m)\<rparr>"
  have "run_state (ipc_reset_round env (cse s)) ?s1 =
      (True, s\<lparr>hw := (q\<lparr>cse2iu_csr := 0, iu2cse_csr := EXIT, cse2iu_data0 := 0\<rparr>, m)\<rparr>)"
    using assms
    by (simp add: ipc_reset_round_def qemu_read [OF assms(1)] qemu_write [OF assms(1)] cse_regs_def
        qemu_csr val)
  from ipc_reset_loop_done [OF this] show ?thesis
    using True assms
    by (simp add: ipu6_buttress_ipc_reset_def qemu_read [OF assms(1)] qemu_write [OF assms(1)]
        cse_regs_def qemu_csr val)
next
  case False
  then show ?thesis by (simp add: ipu6_buttress_ipc_reset_def)
qed

lemma qemu_other_reads:
  "ipu4_mmio_read penv (ucast BUTTRESS_REG_SECURITY_CTL) (q, m) = (security_ctl q, (q, m))"
  "ipu4_mmio_read penv (ucast BUTTRESS_REG_SECURITY_TOUCH) (q, m) = (0, (q, m))"
  "ipu4_mmio_read penv (ucast BUTTRESS_REG_CAMERA_MASK) (q, m) = (0, (q, m))"
  "ipu4_mmio_read penv (ucast BUTTRESS_REG_WDT) (q, m) = (0xfff0fff, (q, m))"
  "ipu4_mmio_read penv (ucast BUTTRESS_REG_BTRS_CTRL) (q, m) = (btrs_ctrl q, (q, m))"
  by (simp_all add: ipu4_mmio_read_def window_read_def ipu4_csi2_resolve_def ipu4_csi2_port_window_def ipu4_consts)

lemma qemu_isr_writes:
  "ipu4_mmio_write penv v (ucast BUTTRESS_REG_ISR_CLEAR) (q, m) = (q\<lparr>isr_status := isr_status q AND NOT v\<rparr>, m)"
  "ipu4_mmio_write penv v (ucast BUTTRESS_REG_ISR_ENABLE) (q, m) = (q\<lparr>isr_enable := v\<rparr>, m)"
  by (simp_all add: ipu4_mmio_write_def ipu4_consts)

lemma init_reset_loop_qemu:
  assumes "on_qemu penv env" "cse_regs (cse s)" "hw s = (q, m)"
  shows "run_state (init_reset_loop env n) s = run_state (ipu6_buttress_ipc_reset env) s"
  by (cases n) (simp_all add: ipc_reset_qemu [OF assms])

text \<open>
  C17: On the emulated device, in any state, the initialisation of the buttress succeeds with
  the first reset of the channel: the driver takes the secure mode and the reference clock
  from the device, and afterwards the interrupts are acknowledged and enabled and the
  channel is clear.
\<close>

theorem buttress_init_completes:
  assumes "on_qemu penv env" "hw s = (q, m)"
  shows "\<exists>s'. run_state (ipu6_buttress_init env) s = (ok, s') \<and>
     secure_mode s' = (security_ctl q AND BUTTRESS_SECURITY_CTL_FW_SECURE_MODE \<noteq> 0) \<and>
     wdt_cached_value s' = 0xfff0fff \<and>
     ref_clk s' = ref_clk_of (FIELD_GET BUTTRESS_REG_BTRS_CTRL_REF_CLK_IND (btrs_ctrl q)) \<and>
     isr_enable (fst (hw s')) = BUTTRESS_IRQS \<and>
     isr_status (fst (hw s')) = isr_status q AND NOT BUTTRESS_IRQS \<and>
     (secure_mode s' \<longrightarrow> cse2iu_csr (fst (hw s')) = 0) \<and> cse s' = cse_init (cse s)"
  using assms(2)
  by (simp add: ipu6_buttress_init_def ipu6_buttress_get_secure_mode_def qemu_read [OF assms(1)]
      qemu_write [OF assms(1)] qemu_other_reads qemu_isr_writes
      init_reset_loop_qemu [OF assms(1), simplified cse_regs_init] cse_regs_init
      ipc_reset_qemu [OF assms(1)])

text \<open>A start on the emulated device after its reset.\<close>

definition ex_btrs :: "(nat \<Rightarrow> u8) dev btrs_env" where
  "ex_btrs = \<lparr>mmio = qemu_dev ram_env 0, isp_base = 0, psys_base = 0x400000, ver_ipu4 = True, dyn_dbg = False,
     polls = (\<lambda>_ _ _. 0), irqs = (\<lambda>_ _. 0), pm_active = (\<lambda>_. 1), pm_resume = (\<lambda>_. ok),
     isys_adev = None, psys_adev = None\<rparr>"

definition ex_isp :: "'d \<Rightarrow> 'd ipu6_device" where
  "ex_isp d = \<lparr>hw = d, secure_mode = True,
     cse = \<lparr>send_complete = 0, recv_complete = 0, nack = 0, nack_mask = 0, recv_data = 0, csr_out = 0,
            csr_in = 0, db0_in = 0, db0_out = 0, data0_out = 0, data0_in = 0\<rparr>,
     wdt_cached_value = 0, ref_clk = 0, reg_irq_sts = BUTTRESS_REG_ISR_STATUS, pm_usage = 0\<rparr>"

lemma ex_btrs_qemu: "on_qemu ram_env ex_btrs"
  by (simp add: on_qemu_def ex_btrs_def)

theorem buttress_init_completes_witness:
  "\<exists>s'. run_state (ipu6_buttress_init ex_btrs) (ex_isp (ipu4_reset, \<lambda>_. 0)) = (ok, s') \<and> secure_mode s'"
proof -
  have "security_ctl ipu4_reset AND BUTTRESS_SECURITY_CTL_FW_SECURE_MODE \<noteq> 0"
    by (simp add: ipu4_reset_def ipu4_consts)
  then show ?thesis
    using buttress_init_completes [OF ex_btrs_qemu, of "ex_isp (ipu4_reset, \<lambda>_. 0)" ipu4_reset "\<lambda>_. 0"]
    by (auto simp: ex_isp_def)
qed

section \<open>Soundness of the authentication\<close>

text \<open>
  An environment that records every access, with reads answered by an oracle: whatever the
  device does. A poll ends with a read, and returns what it read.
\<close>

definition recording :: "(access list \<Rightarrow> u64 \<Rightarrow> u32) \<Rightarrow> access list btrs_env \<Rightarrow> bool" where
  "recording orc env \<longleftrightarrow> mmio env = trace_dev orc"

definition last_read :: "(access list \<Rightarrow> u64 \<Rightarrow> u32) \<Rightarrow> u64 \<Rightarrow> (u32 \<Rightarrow> bool) \<Rightarrow> access list \<Rightarrow> bool" where
  "last_read orc a cond l \<longleftrightarrow> (\<exists>l'. l = l' @ [Rd a] \<and> cond (orc l' a))"

lemma poll_loop_last:
  "last_read orc a (\<lambda>v. v = fst (run_state (poll_loop (on_hw (trace_dev orc)) a cond n) s))
     (hw (snd (run_state (poll_loop (on_hw (trace_dev orc)) a cond n) s)))"
  by (induction n arbitrary: s) (auto simp: on_hw_def last_read_def)

lemma last_read_imp: "last_read orc a P l \<Longrightarrow> (\<And>v. P v \<Longrightarrow> Q v) \<Longrightarrow> last_read orc a Q l"
  by (auto simp: last_read_def)

lemma poll_timeout_last:
  assumes "recording orc env"
  shows "hoare (\<lambda>s. True) (readl_poll_timeout env a cond t1 t2)
           (\<lambda>(r, v) s. last_read orc a (\<lambda>x. x = v) (hw s) \<and> (r = ok \<longleftrightarrow> cond v))"
  using assms poll_loop_last [of orc a]
  by (auto intro!: hoareI simp: readl_poll_timeout_def recording_def case_prod_beta split: if_splits)

lemma poll_security_sound:
  assumes "recording orc env" "done \<noteq> BUTTRESS_SECURITY_CTL_AUTH_FAILED"
  shows "hoare (\<lambda>s. True) (poll_security env done t)
           (\<lambda>r s. r = ok \<longrightarrow> last_read orc (isp_base env + ucast BUTTRESS_REG_SECURITY_CTL)
                      (\<lambda>v. v AND BUTTRESS_SECURITY_CTL_FW_SETUP_MASK = done) (hw s))"
proof (rule hoareI)
  fix s
  let ?c = "\<lambda>v. v AND BUTTRESS_SECURITY_CTL_FW_SETUP_MASK = done \<or>
            v AND BUTTRESS_SECURITY_CTL_FW_SETUP_MASK = BUTTRESS_SECURITY_CTL_AUTH_FAILED"
  let ?a = "isp_base env + ucast BUTTRESS_REG_SECURITY_CTL"
  obtain p s1 where "run_state (readl_poll_timeout env ?a ?c 500 t) s = (p, s1)"
    by (rule prod.exhaust)
  moreover obtain r v where "p = (r, v)"
    by (rule prod.exhaust)
  ultimately have run: "run_state (readl_poll_timeout env ?a ?c 500 t) s = ((r, v), s1)"
    by simp
  with hoareD [OF poll_timeout_last [OF assms(1), of ?a ?c 500 t], of s]
  have "last_read orc ?a (\<lambda>x. x = v) (hw s1)" "r = ok \<longleftrightarrow> ?c v" by simp_all
  then show "fst (run_state (poll_security env done t) s) = ok \<longrightarrow>
      last_read orc ?a (\<lambda>v. v AND BUTTRESS_SECURITY_CTL_FW_SETUP_MASK = done)
        (hw (snd (run_state (poll_security env done t) s)))"
    by (auto simp: poll_security_def run intro: last_read_imp split: sum.splits)
qed

text \<open>A chain of steps that stops at the first error is as good as its last step.\<close>

lemma hoare_chain:
  "hoare (\<lambda>s. True) n (\<lambda>r s. r = ok \<longrightarrow> L s) \<Longrightarrow>
   hoare (\<lambda>s. True) (case r of Inl e \<Rightarrow> State_Monad.return (Inl e) | Inr x \<Rightarrow> n) (\<lambda>r s. r = ok \<longrightarrow> L s)"
  by (cases r) (auto simp: hoare_def)

lemma hoare_skip: "(\<And>a. hoare (\<lambda>s. True) (f a) Q) \<Longrightarrow> hoare (\<lambda>s. True) (State_Monad.bind m f) Q"
  by (auto simp: hoare_def case_prod_beta)

lemma hoare_prod: "(\<And>a b. hoare P (f a b) Q) \<Longrightarrow> hoare P (case p of (a, b) \<Rightarrow> f a b) Q"
  by (cases p) auto

lemma authenticate_steps_sound:
  assumes "recording orc env"
  shows "hoare (\<lambda>s. True) (authenticate_steps env pkg)
           (\<lambda>r s. r = ok \<longrightarrow> last_read orc (isp_base env + ucast BUTTRESS_REG_SECURITY_CTL)
              (\<lambda>v. v AND BUTTRESS_SECURITY_CTL_FW_SETUP_MASK = BUTTRESS_SECURITY_CTL_AUTH_DONE) (hw s))"
  unfolding authenticate_steps_def
  by (intro hoare_skip hoare_chain hoare_prod poll_security_sound [OF assms]) (simp add: ipu4_consts)

lemma mask_shift_setup: "mask_shift BUTTRESS_SECURITY_CTL_FW_SETUP_MASK = 0"
  by (simp add: mask_shift_def ipu4_consts upt_conv_Cons)

lemma auth_done_sound:
  assumes "recording orc env" "secure_mode s"
  shows "fst (run_state (ipu6_buttress_auth_done env) s) \<Longrightarrow>
     last_read orc (isp_base env + ucast BUTTRESS_REG_SECURITY_CTL)
       (\<lambda>v. v AND BUTTRESS_SECURITY_CTL_FW_SETUP_MASK = BUTTRESS_SECURITY_CTL_AUTH_DONE)
       (hw (snd (run_state (ipu6_buttress_auth_done env) s)))"
  using assms by (simp add: ipu6_buttress_auth_done_def FIELD_GET_def mask_shift_setup recording_def last_read_def)

text \<open>
  C16: Whatever the device answers and whatever the interrupt handlers of the sub-devices do,
  the authentication of the firmware reports success in secure mode only when the last
  thing it did was to read the security register and to find the authentication done
  there; in particular a failed or a timed out authentication is never taken for a
  completed one.
\<close>

theorem authenticate_sound:
  assumes rec: "recording orc env" and sec: "secure_mode s"
    and succ: "fst (run_state (ipu6_buttress_authenticate env pkg) s) = ok"
  shows "\<exists>l. hw (snd (run_state (ipu6_buttress_authenticate env pkg) s)) =
            l @ [Rd (isp_base env + ucast BUTTRESS_REG_SECURITY_CTL)] \<and>
          orc l (isp_base env + ucast BUTTRESS_REG_SECURITY_CTL) AND BUTTRESS_SECURITY_CTL_FW_SETUP_MASK =
            BUTTRESS_SECURITY_CTL_AUTH_DONE"
proof -
  let ?a = "isp_base env + ucast BUTTRESS_REG_SECURITY_CTL"
  let ?c = "\<lambda>v. v AND BUTTRESS_SECURITY_CTL_FW_SETUP_MASK = BUTTRESS_SECURITY_CTL_AUTH_DONE"
  from succ sec obtain u where u: "pm_resume env (hw s) = Inr u"
    by (cases "pm_resume env (hw s)") (simp_all add: ipu6_buttress_authenticate_def)
  let ?s1 = "s\<lparr>pm_usage := pm_usage s + 1\<rparr>"
  obtain d s2 where d: "run_state (ipu6_buttress_auth_done env) ?s1 = (d, s2)"
    by (rule prod.exhaust)
  obtain r s3 where r: "run_state (if d then State_Monad.return ok else authenticate_steps env pkg) s2 = (r, s3)"
    by (rule prod.exhaust)
  have run: "run_state (ipu6_buttress_authenticate env pkg) s = (r, s3\<lparr>pm_usage := pm_usage s3 - 1\<rparr>)"
    using sec u d r by (simp add: ipu6_buttress_authenticate_def)
  with succ have "r = ok" by simp
  have "last_read orc ?a ?c (hw s3)"
  proof (cases d)
    case True
    with r d auth_done_sound [OF rec, of ?s1] sec show ?thesis by simp
  next
    case False
    with r hoareD [OF authenticate_steps_sound [OF rec, of pkg], of s2] \<open>r = ok\<close> show ?thesis by simp
  qed
  with run show ?thesis by (simp add: last_read_def)
qed

theorem authenticate_sound_witness:
  "\<exists>l. hw (snd (run_state (ipu6_buttress_authenticate
       \<lparr>mmio = trace_dev (\<lambda>_ _. 0x37002), isp_base = 0, psys_base = 0x400000, ver_ipu4 = True, dyn_dbg = False,
        polls = (\<lambda>_ _ _. 0), irqs = (\<lambda>_ _. 0), pm_active = (\<lambda>_. 1), pm_resume = (\<lambda>_. ok),
        isys_adev = None, psys_adev = None\<rparr> 0) (ex_isp []))) = l @ [Rd 0x300]"
proof -
  let ?env = "\<lparr>mmio = trace_dev (\<lambda>_ _. 0x37002), isp_base = 0, psys_base = 0x400000, ver_ipu4 = True, dyn_dbg = False,
        polls = (\<lambda>_ _ _. 0), irqs = (\<lambda>_ _. 0), pm_active = (\<lambda>_. 1), pm_resume = (\<lambda>_. ok),
        isys_adev = None, psys_adev = None\<rparr> :: access list btrs_env"
  have "fst (run_state (ipu6_buttress_authenticate ?env 0) (ex_isp [])) = ok"
    by (simp add: ipu6_buttress_authenticate_def ipu6_buttress_auth_done_def FIELD_GET_def
        mask_shift_setup [unfolded ipu4_consts] ex_isp_def ipu4_consts)
  moreover have "recording (\<lambda>_ _. 0x37002) ?env" by (simp add: recording_def)
  ultimately show ?thesis
    using authenticate_sound [of "\<lambda>_ _. 0x37002" ?env "ex_isp []" 0]
    by (auto simp: ex_isp_def ipu4_consts)
qed

section \<open>Time stamps\<close>

lemma unat_tsc_combine: "unat (tsc_combine hi lo) = unat hi * 2 ^ 32 + unat lo"
proof -
  have "push_bit 32 (ucast hi :: u64) AND ucast lo = 0"
    by (rule bit_word_eqI) (auto simp: bit_simps dest: bit_imp_le_length)
  then have "tsc_combine hi lo = push_bit 32 (ucast hi) + ucast lo"
    by (simp add: tsc_combine_def disjunctive_add_eq_or)
  moreover have "unat (push_bit 32 (ucast hi :: u64)) = unat hi * 2 ^ 32"
    using unat_u32_less [of hi] by (subst unat_push_bit_no_wrap) (simp_all add: unat_ucast_up)
  ultimately show ?thesis
    using unat_u32_less [of hi] unat_u32_less [of lo]
    by (subst (asm) word_unat_eq_iff) (simp add: unat_add_no_wrap unat_ucast_up)
qed

lemma bit_31_iff: "bit (w :: u32) 31 \<longleftrightarrow> 2 ^ 31 \<le> unat w"
proof -
  have "bit w 31 \<longleftrightarrow> odd (unat w div 2 ^ 31)"
    using bit_unsigned_iff [of w 31, where ?'a = nat] by (simp add: bit_iff_odd)
  moreover have "unat w div 2 ^ 31 < 2"
    using unat_u32_less [of w] by (simp add: div_less_iff_less_mult)
  ultimately show ?thesis by (auto simp: less_2_cases_iff div_eq_0_iff)
qed

text \<open>
  The split of a counter into two words, and the three cases of a counter that advances by
  less than half of the low word between the first and the last read.
\<close>

lemma tsc_halves:
  fixes t1 t2 t3 :: nat
  assumes "t1 \<le> t2" "t2 \<le> t3" "t3 - t1 < 2 ^ 31"
  shows "t1 div 2 ^ 32 = t3 div 2 ^ 32 \<Longrightarrow> t2 div 2 ^ 32 = t1 div 2 ^ 32"
    and "t1 div 2 ^ 32 \<noteq> t3 div 2 ^ 32 \<Longrightarrow> 2 ^ 31 \<le> t2 mod 2 ^ 32 \<Longrightarrow> t2 div 2 ^ 32 = t1 div 2 ^ 32"
    and "t1 div 2 ^ 32 \<noteq> t3 div 2 ^ 32 \<Longrightarrow> t2 mod 2 ^ 32 < 2 ^ 31 \<Longrightarrow> t2 div 2 ^ 32 = t3 div 2 ^ 32"
proof -
  define q1 q2 q3 r1 r2 r3 where defs: "q1 = t1 div 2 ^ 32" "q2 = t2 div 2 ^ 32" "q3 = t3 div 2 ^ 32"
    "r1 = t1 mod 2 ^ 32" "r2 = t2 mod 2 ^ 32" "r3 = t3 mod 2 ^ 32"
  have eqs: "t1 = q1 * 4294967296 + r1" "t2 = q2 * 4294967296 + r2" "t3 = q3 * 4294967296 + r3"
    by (simp_all add: defs)
  have bounds: "r1 < 4294967296" "r2 < 4294967296" "r3 < 4294967296"
    by (simp_all add: defs)
  have le: "q1 \<le> q2" "q2 \<le> q3"
    using assms by (simp_all add: defs div_le_mono)
  have d: "t3 < t1 + 2147483648"
    using assms by simp
  have "q1 = q3 \<Longrightarrow> q2 = q1" using le by simp
  moreover have "2147483648 \<le> r2 \<Longrightarrow> q2 = q1" using eqs bounds le d assms(2) by linarith
  moreover have "r2 < 2147483648 \<Longrightarrow> q2 = q3" using eqs bounds le d assms(1) by linarith
  ultimately show "t1 div 2 ^ 32 = t3 div 2 ^ 32 \<Longrightarrow> t2 div 2 ^ 32 = t1 div 2 ^ 32"
    "t1 div 2 ^ 32 \<noteq> t3 div 2 ^ 32 \<Longrightarrow> 2 ^ 31 \<le> t2 mod 2 ^ 32 \<Longrightarrow> t2 div 2 ^ 32 = t1 div 2 ^ 32"
    "t1 div 2 ^ 32 \<noteq> t3 div 2 ^ 32 \<Longrightarrow> t2 mod 2 ^ 32 < 2 ^ 31 \<Longrightarrow> t2 div 2 ^ 32 = t3 div 2 ^ 32"
    by (simp_all add: defs)
qed

text \<open>
  C18: The 64-bit time stamp is read in three pieces. When the counter advances by less than
  \<open>2 ^ 31\<close> ticks between the first and the last of them, the function returns exactly the value
  that the counter had at the read of the low word, also when the low word rolls over in
  between.
\<close>

theorem tsc_read_exact:
  fixes t1 t2 t3 :: nat
  assumes r1: "dev_read (mmio env) (isp_base env + ucast BUTTRESS_REG_TSC_HI) (hw s) = (word_of_nat (t1 div 2 ^ 32), d1)"
    and r2: "dev_read (mmio env) (isp_base env + ucast BUTTRESS_REG_TSC_LO) d1 = (word_of_nat t2, d2)"
    and r3: "dev_read (mmio env) (isp_base env + ucast BUTTRESS_REG_TSC_HI) d2 = (word_of_nat (t3 div 2 ^ 32), d3)"
    and t: "t1 \<le> t2" "t2 \<le> t3" "t3 - t1 < 2 ^ 31" "t3 < 2 ^ 64"
  shows "unat (fst (run_state (ipu6_buttress_tsc_read env) s)) = t2"
proof -
  have lt: "t1 div 2 ^ 32 < 2 ^ 32" "t3 div 2 ^ 32 < 2 ^ 32"
    using t by (simp_all add: div_less_iff_less_mult)
  have hi: "unat (word_of_nat (t1 div 2 ^ 32) :: u32) = t1 div 2 ^ 32"
    "unat (word_of_nat (t3 div 2 ^ 32) :: u32) = t3 div 2 ^ 32"
    using lt by (simp_all only: unat_of_nat_u32)
  then have eq: "(word_of_nat (t1 div 2 ^ 32) :: u32) = word_of_nat (t3 div 2 ^ 32) \<longleftrightarrow>
      t1 div 2 ^ 32 = t3 div 2 ^ 32" by metis
  have lo: "unat (word_of_nat t2 :: u32) = t2 mod 2 ^ 32" by (simp add: unat_of_nat)
  have "fst (run_state (ipu6_buttress_tsc_read env) s) =
     (if t1 div 2 ^ 32 = t3 div 2 ^ 32 \<or> 2 ^ 31 \<le> t2 mod 2 ^ 32
      then tsc_combine (word_of_nat (t1 div 2 ^ 32)) (word_of_nat t2)
      else tsc_combine (word_of_nat (t3 div 2 ^ 32)) (word_of_nat t2))"
    unfolding ipu6_buttress_tsc_read_def using r1 r2 r3 eq lo by (simp add: bit_31_iff)
  then have "unat (fst (run_state (ipu6_buttress_tsc_read env) s)) =
     (if t1 div 2 ^ 32 = t3 div 2 ^ 32 \<or> 2 ^ 31 \<le> t2 mod 2 ^ 32 then t1 div 2 ^ 32 else t3 div 2 ^ 32)
       * 2 ^ 32 + t2 mod 2 ^ 32"
    by (simp only: unat_tsc_combine hi lo if_distrib [of unat] if_distrib [of "\<lambda>x. x * 2 ^ 32 + t2 mod 2 ^ 32"])
  also have "(if t1 div 2 ^ 32 = t3 div 2 ^ 32 \<or> 2 ^ 31 \<le> t2 mod 2 ^ 32 then t1 div 2 ^ 32 else t3 div 2 ^ 32)
      = t2 div 2 ^ 32"
    using tsc_halves [OF t(1-3)] by (metis not_le)
  finally show ?thesis by (simp only: div_mult_mod_eq)
qed

text \<open>A counter that advances by five at every read, started shortly before the low word rolls over.\<close>

definition ex_counter :: "nat btrs_env" where
  "ex_counter = \<lparr>mmio = \<lparr>dev_read = (\<lambda>a t. (if a = 0x168 then word_of_nat (t div 2 ^ 32) else word_of_nat t, t + 5)),
       dev_write = (\<lambda>_ _ t. t)\<rparr>,
     isp_base = 0, psys_base = 0, ver_ipu4 = True, dyn_dbg = False, polls = (\<lambda>_ _ _. 0), irqs = (\<lambda>_ _. 0),
     pm_active = (\<lambda>_. 1), pm_resume = (\<lambda>_. ok), isys_adev = None, psys_adev = None\<rparr>"

theorem tsc_read_exact_witness:
  "unat (fst (run_state (ipu6_buttress_tsc_read ex_counter) (ex_isp 4294967289))) = 4294967294"
  by (rule tsc_read_exact [where ?t1.0 = 4294967289 and ?t3.0 = 4294967299 and ?d1.0 = 4294967294
        and ?d2.0 = 4294967299 and ?d3.0 = 4294967304])
    (simp_all add: ex_counter_def ex_isp_def ipu4_consts)

text \<open>
  The conversion of ticks to nanoseconds is exact, rounded down, up to the tick count
  1844674407370955 (about three years at 19.2 MHz), and wraps with the first tick count after it.
\<close>

theorem tsc_ticks_to_ns_bounds:
  "(unat ticks \<le> 1844674407370955 \<longrightarrow>
      unat (ipu6_buttress_tsc_ticks_to_ns ticks) = unat ticks * 10000 div 192) \<and>
   ipu6_buttress_tsc_ticks_to_ns 1844674407370956 = 43"
proof -
  have "unat (ipu6_buttress_tsc_ticks_to_ns ticks) = unat ticks * 10000 div 192"
    if "unat ticks \<le> 1844674407370955"
  proof -
    from that have "unat (ticks * 10000) = unat ticks * 10000"
      by (subst unat_mult_no_wrap) simp_all
    then show ?thesis
      by (simp add: ipu6_buttress_tsc_ticks_to_ns_def ipu4_consts unat_div)
  qed
  moreover have "ipu6_buttress_tsc_ticks_to_ns 1844674407370956 = 43"
    by (simp add: ipu6_buttress_tsc_ticks_to_ns_def ipu4_consts)
  ultimately show ?thesis by blast
qed

theorem tsc_ticks_to_ns_bounds_witness:
  "unat (ipu6_buttress_tsc_ticks_to_ns 19200000) = 1000000000"
  using tsc_ticks_to_ns_bounds [of 19200000] by simp

section \<open>Power\<close>

lemma poll_timeout_first:
  assumes "dev_read (mmio env) a (hw s) = (v, d)" "cond v"
  shows "run_state (readl_poll_timeout env a cond t1 t2) s = ((ok, v), s\<lparr>hw := d\<rparr>)"
  using assms
  by (cases "polls env t1 t2 (hw s)") (simp_all add: readl_poll_timeout_def on_hw_def)

definition freq_val :: "ipu6_buttress_ctrl \<Rightarrow> bool \<Rightarrow> u32" where
  "freq_val c on = (if \<not> on then 0
     else BUTTRESS_FREQ_CTL_START OR FIELD_PREP BUTTRESS_FREQ_CTL_RATIO_MASK (ratio c) OR
          FIELD_PREP BUTTRESS_FREQ_CTL_QOS_FLOOR_MASK (qos_floor c) OR IPU4_BUTTRESS_FREQ_CTL_ICCMAX_LEVEL)"

lemma mask_shift_freq:
  "mask_shift BUTTRESS_FREQ_CTL_RATIO_MASK = 0" "mask_shift BUTTRESS_FREQ_CTL_QOS_FLOOR_MASK = 8"
  by (simp_all add: mask_shift_def ipu4_consts upt_conv_Cons)

lemma freq_val_start: "freq_val c on AND BTRS_FREQ_CTL_START \<noteq> 0 \<longleftrightarrow> on"
proof (cases on)
  case True
  then have "bit (freq_val c on) 31"
    by (simp add: freq_val_def bit_or_iff BUTTRESS_FREQ_CTL_START_def)
  then have "bit (freq_val c on AND BTRS_FREQ_CTL_START) 31"
    by (simp add: bit_and_iff BTRS_FREQ_CTL_START_def)
  with True show ?thesis by auto
qed (simp add: freq_val_def)

lemma qemu_power_run:
  assumes "on_qemu penv env" "hw s = (q, m)"
    and "ipu4_mmio_write penv (freq_val c on) (ucast (freq_ctl c)) (q, m) = (q1, m)"
    and "ipu4_mmio_read penv (ucast BUTTRESS_REG_PWR_STATE) (q1, m) = (v, (q2, m))"
    and "v AND pwr_sts_mask c = push_bit (unat (pwr_sts_shift c)) (if on then pwr_sts_on c else pwr_sts_off c)"
  shows "run_state (ipu6_buttress_power env (Some c) on) s = (ok, s\<lparr>hw := (q2, m)\<rparr>)"
  unfolding ipu6_buttress_power_def option.simps Let_def freq_val_def [symmetric]
  using assms(2-5)
  by (simp add: qemu_write [OF assms(1)] qemu_read [OF assms(1)] poll_timeout_first)

lemma qemu_pwr_state:
  "ipu4_mmio_read penv (ucast BUTTRESS_REG_PWR_STATE) (q, m) =
     (let v = 0x2003 OR (if is_powered q then 0xa00000 else 0) OR (if ps_powered q then 0xf000000 else 0)
      in (v, (q\<lparr>pwr_state := v\<rparr>, m)))"
  by (simp add: ipu4_mmio_read_def ipu4_consts)

lemma qemu_freq_writes:
  "ipu4_mmio_write penv v (ucast IPU6_BUTTRESS_REG_IS_FREQ_CTL) (q, m) =
     (q\<lparr>is_freq_ctl := v, is_powered := (v AND BTRS_FREQ_CTL_START \<noteq> 0)\<rparr>, m)"
  "ipu4_mmio_write penv v (ucast IPU6_BUTTRESS_REG_PS_FREQ_CTL) (q, m) =
     (q\<lparr>ps_freq_ctl := v, ps_powered := (v AND BTRS_FREQ_CTL_START \<noteq> 0)\<rparr>, m)"
  by (simp_all add: ipu4_mmio_write_def ipu4_consts)

text \<open>
  C20: With the tables of the IPU4, switching the input or the processing system on or off
  succeeds on the emulated device at the first look at the power state, in any state of the
  device, and the device then has exactly that sub-system switched; the other one keeps its
  state.
\<close>

theorem buttress_power_switches:
  assumes q: "on_qemu penv env" and h: "hw s = (q, m)"
  shows "(\<exists>q'. run_state (ipu6_buttress_power env (Some ipu4_isys_buttress_ctrl) on) s = (ok, s\<lparr>hw := (q', m)\<rparr>) \<and>
           is_powered q' = on \<and> ps_powered q' = ps_powered q) \<and>
         (\<exists>q'. run_state (ipu6_buttress_power env (Some ipu4_psys_buttress_ctrl) on) s = (ok, s\<lparr>hw := (q', m)\<rparr>) \<and>
           ps_powered q' = on \<and> is_powered q' = is_powered q)"
proof
  let ?c = "ipu4_isys_buttress_ctrl"
  let ?q1 = "q\<lparr>is_freq_ctl := freq_val ?c on, is_powered := on\<rparr>"
  let ?v = "0x2003 OR (if on then 0xa00000 else 0) OR (if ps_powered q then 0xf000000 else 0) :: u32"
  have "run_state (ipu6_buttress_power env (Some ?c) on) s = (ok, s\<lparr>hw := (?q1\<lparr>pwr_state := ?v\<rparr>, m)\<rparr>)"
  proof (rule qemu_power_run [OF q h])
    show "ipu4_mmio_write penv (freq_val ?c on) (ucast (freq_ctl ?c)) (q, m) = (?q1, m)"
      by (simp add: ipu4_isys_buttress_ctrl_def qemu_freq_writes freq_val_start)
    show "ipu4_mmio_read penv (ucast BUTTRESS_REG_PWR_STATE) (?q1, m) = (?v, (?q1\<lparr>pwr_state := ?v\<rparr>, m))"
      by (simp add: qemu_pwr_state Let_def)
  qed (simp add: ipu4_isys_buttress_ctrl_def ipu4_consts)
  then show "\<exists>q'. run_state (ipu6_buttress_power env (Some ?c) on) s = (ok, s\<lparr>hw := (q', m)\<rparr>) \<and>
      is_powered q' = on \<and> ps_powered q' = ps_powered q" 
    by (intro exI [of _ "?q1\<lparr>pwr_state := ?v\<rparr>"]) (intro conjI, assumption, simp_all)
next
  let ?c = "ipu4_psys_buttress_ctrl"
  let ?q1 = "q\<lparr>ps_freq_ctl := freq_val ?c on, ps_powered := on\<rparr>"
  let ?v = "0x2003 OR (if is_powered q then 0xa00000 else 0) OR (if on then 0xf000000 else 0) :: u32"
  have "run_state (ipu6_buttress_power env (Some ?c) on) s = (ok, s\<lparr>hw := (?q1\<lparr>pwr_state := ?v\<rparr>, m)\<rparr>)"
  proof (rule qemu_power_run [OF q h])
    show "ipu4_mmio_write penv (freq_val ?c on) (ucast (freq_ctl ?c)) (q, m) = (?q1, m)"
      by (simp add: ipu4_psys_buttress_ctrl_def qemu_freq_writes freq_val_start)
    show "ipu4_mmio_read penv (ucast BUTTRESS_REG_PWR_STATE) (?q1, m) = (?v, (?q1\<lparr>pwr_state := ?v\<rparr>, m))"
      by (simp add: qemu_pwr_state Let_def)
  qed (simp add: ipu4_psys_buttress_ctrl_def ipu4_consts)
  then show "\<exists>q'. run_state (ipu6_buttress_power env (Some ?c) on) s = (ok, s\<lparr>hw := (q', m)\<rparr>) \<and>
      ps_powered q' = on \<and> is_powered q' = is_powered q" 
    by (intro exI [of _ "?q1\<lparr>pwr_state := ?v\<rparr>"]) (intro conjI, assumption, simp_all)
qed

theorem buttress_power_switches_witness:
  "\<exists>q'. run_state (ipu6_buttress_power ex_btrs (Some ipu4_isys_buttress_ctrl) True) (ex_isp (ipu4_reset, \<lambda>_. 0)) =
     (ok, (ex_isp (ipu4_reset, \<lambda>_. 0))\<lparr>hw := (q', \<lambda>_. 0)\<rparr>) \<and> is_powered q'"
  using buttress_power_switches [OF ex_btrs_qemu, of "ex_isp (ipu4_reset, \<lambda>_. 0)" ipu4_reset "\<lambda>_. 0" True]
  by (auto simp: ex_isp_def)

section \<open>The reset of the channel on any device\<close>

lemma reset_round_len:
  assumes "recording orc env"
  shows "length (hw (snd (run_state (ipc_reset_round env ipc) s))) \<le> length (hw s) + 6"
  using assms by (simp add: ipc_reset_round_def recording_def)

text \<open>The state after the accesses before the loop.\<close>

definition after_opening :: "'d btrs_env \<Rightarrow> 'd ipu6_device \<Rightarrow> 'd ipu6_device" where
  "after_opening env s = snd (run_state (do {
     val \<leftarrow> isp_read env (csr_in (cse s));
     isp_write env val (csr_in (cse s));
     isp_write env ENTRY (csr_out (cse s)) }) s)"

text \<open>The state after \<open>k\<close> rounds of the handshake, and whether the next round completes it.\<close>

definition after_rounds :: "'d btrs_env \<Rightarrow> ipu6_buttress_ipc \<Rightarrow> nat \<Rightarrow> 'd ipu6_device \<Rightarrow> 'd ipu6_device" where
  "after_rounds env ipc k s = ((\<lambda>s. snd (run_state (ipc_reset_round env ipc) s)) ^^ k) s"

definition round_completes :: "'d btrs_env \<Rightarrow> ipu6_buttress_ipc \<Rightarrow> nat \<Rightarrow> 'd ipu6_device \<Rightarrow> bool" where
  "round_completes env ipc k s = fst (run_state (ipc_reset_round env ipc) (after_rounds env ipc k s))"

lemma after_rounds_Suc:
  "after_rounds env ipc (Suc k) s = after_rounds env ipc k (snd (run_state (ipc_reset_round env ipc) s))"
  by (simp add: after_rounds_def funpow_swap1 [of "\<lambda>s. snd (run_state (ipc_reset_round env ipc) s)"])

lemma after_rounds_len:
  "recording orc env \<Longrightarrow> length (hw (after_rounds env ipc k s)) \<le> length (hw s) + 6 * k"
proof (induction k arbitrary: s)
  case (Suc k)
  let ?s1 = "snd (run_state (ipc_reset_round env ipc) s)"
  have "length (hw ?s1) \<le> length (hw s) + 6" by (rule reset_round_len [OF Suc.prems])
  with Suc.IH [OF Suc.prems, of ?s1] show ?case by (simp add: after_rounds_Suc)
qed (simp add: after_rounds_def)

text \<open>The loop ends with the first round that completes the handshake, or with the last one.\<close>

lemma reset_loop_rounds:
  "\<exists>k \<le> n. run_state (ipc_reset_loop env ipc n) s =
      (if round_completes env ipc k s then ok else Inl ETIMEDOUT, after_rounds env ipc (Suc k) s) \<and>
    (\<forall>j < k. \<not> round_completes env ipc j s) \<and> (round_completes env ipc k s \<or> k = n)"
proof (induction n arbitrary: s)
  case 0
  then show ?case by (simp add: round_completes_def after_rounds_def case_prod_beta)
next
  case (Suc n)
  let ?s1 = "snd (run_state (ipc_reset_round env ipc) s)"
  have shift: "round_completes env ipc (Suc j) s = round_completes env ipc j ?s1" for j
    by (simp add: round_completes_def after_rounds_Suc)
  show ?case
  proof (cases "round_completes env ipc 0 s")
    case True
    then show ?thesis
      by (intro exI [of _ 0]) (simp add: round_completes_def after_rounds_def case_prod_beta)
  next
    case False
    from Suc.IH [of ?s1] obtain k where k: "k \<le> n" "run_state (ipc_reset_loop env ipc n) ?s1 =
        (if round_completes env ipc k ?s1 then ok else Inl ETIMEDOUT, after_rounds env ipc (Suc k) ?s1)"
      "\<forall>j < k. \<not> round_completes env ipc j ?s1" "round_completes env ipc k ?s1 \<or> k = n" by blast
    have "run_state (ipc_reset_loop env ipc (Suc n)) s = run_state (ipc_reset_loop env ipc n) ?s1"
      using False by (simp add: round_completes_def after_rounds_def case_prod_beta)
    moreover have "\<not> round_completes env ipc j s" if "j < Suc k" for j
      using that False k(3) by (cases j) (simp_all add: shift)
    ultimately show ?thesis
      using k by (intro exI [of _ "Suc k"]) (simp add: shift after_rounds_Suc [of env ipc "Suc k" s])
  qed
qed

text \<open>
  C19: Whatever the device answers, the reset of the channel to the security engine makes three
  accesses and then at most 2001 rounds of the handshake, of at most six accesses each. It ends
  with success in the first round that completes the handshake, and with a timeout exactly
  when none of the 2001 rounds does. A device that is not in secure mode is not accessed.
\<close>

theorem ipc_reset_bounded:
  assumes "recording orc env" "s1 = after_opening env s"
  shows "if secure_mode s
    then length (hw s1) = length (hw s) + 3 \<and>
      (\<exists>k < 2001. run_state (ipu6_buttress_ipc_reset env) s =
          (if round_completes env (cse s) k s1 then ok else Inl ETIMEDOUT, after_rounds env (cse s) (Suc k) s1) \<and>
        length (hw (after_rounds env (cse s) (Suc k) s1)) \<le> length (hw s) + 3 + 6 * Suc k \<and>
        (\<forall>j < k. \<not> round_completes env (cse s) j s1) \<and> (round_completes env (cse s) k s1 \<or> k = 2000))
    else run_state (ipu6_buttress_ipc_reset env) s = (ok, s)"
proof (cases "secure_mode s")
  case True
  have l: "length (hw s1) = length (hw s) + 3"
    using assms by (simp add: after_opening_def recording_def)
  have "run_state (ipu6_buttress_ipc_reset env) s = run_state (ipc_reset_loop env (cse s) 2000) s1"
    using True by (simp add: ipu6_buttress_ipc_reset_def assms(2) after_opening_def BUTTRESS_IPC_RESET_RETRY_def case_prod_beta)
  moreover have "length (hw (after_rounds env (cse s) (Suc k) s1)) \<le> length (hw s) + 3 + 6 * Suc k" for k
    using after_rounds_len [OF assms(1), of "cse s" "Suc k" s1] l by simp
  moreover have "k < 2001 \<longleftrightarrow> k \<le> 2000" for k :: nat by arith
  ultimately show ?thesis
    using True l reset_loop_rounds [of 2000 env "cse s" s1] by presburger
qed (simp add: ipu6_buttress_ipc_reset_def)

text \<open>A device that answers 0 to every read: the handshake is never completed.\<close>

theorem ipc_reset_bounded_witness:
  "\<exists>env orc s' ret. recording orc env \<and> run_state (ipu6_buttress_ipc_reset env) ((ex_isp [])\<lparr>secure_mode := True\<rparr>) = (ret, s') \<and>
     length (hw s') \<le> 12009"
proof -
  define env where "env = \<lparr>mmio = trace_dev (\<lambda>_ _. 0), isp_base = 0, psys_base = 0x400000, ver_ipu4 = True, dyn_dbg = False,
        polls = (\<lambda>_ _ _. 0), irqs = (\<lambda>_ _. 0), pm_active = (\<lambda>_. 1), pm_resume = (\<lambda>_. ok),
        isys_adev = None, psys_adev = None\<rparr>"
  define s :: "access list ipu6_device" where "s = (ex_isp [])\<lparr>secure_mode := True\<rparr>"
  have rec: "recording (\<lambda>_ _. 0) env" by (simp add: recording_def env_def)
  have "length (hw s) = 0" "secure_mode s" by (simp_all add: ex_isp_def s_def)
  with ipc_reset_bounded [OF rec refl, of s] have "\<exists>k < 2001.
    length (hw (snd (run_state (ipu6_buttress_ipc_reset env) s))) \<le> 3 + 6 * Suc k"
    by force
  then have "length (hw (snd (run_state (ipu6_buttress_ipc_reset env) s))) \<le> 12009" by fastforce
  with rec show ?thesis unfolding s_def by (metis prod.collapse)
qed

section \<open>The firmware image\<close>

text \<open>
  When no range of device addresses is left, the mapping of the firmware image reports
  success although nothing is mapped: the table says that no entry is mapped, its entries
  keep their bus addresses and the page tables are unchanged. The caller then takes
  bus addresses for device addresses.
\<close>

theorem fw_image_success_unmapped:
  assumes "virt_addr_valid fe data \<or> is_vmalloc_addr fe data" "kmalloc_array_ok fe (PFN_UP sz) s"
    and "fw_pages (if is_vmalloc_addr fe data then vmalloc_to_page fe else virt_to_page fe) (PFN_UP sz) data = Some pages"
    and "sg_from_pages fe pages sz s = (Some sgt, s1)"
    and "pci_map_sgtable fe sgt s1 = (ok, (sgs, n), s2)"
    and "\<forall>sg \<in> set (take n sgs). sg_offset sg = 0"
    and "alloc_iova env (sum_list (map sg_pages (take n sgs))) (drop_bit 12 (aperture_end (mmu_info mmu))) s2 = (None, s3)"
  shows "ipu6_buttress_map_fw_image dv env fe data sz mmu s d = Some (Inr (sgs, 0), mmu, s3, d)"
proof -
  have "\<not> list_ex (\<lambda>sg. sg_offset sg \<noteq> 0) (take n sgs)"
    using assms(6) by (auto simp: list_ex_iff)
  then show ?thesis
    using assms by (auto simp: ipu6_buttress_map_fw_image_def ipu6_dma_map_sgtable_def ipu6_dma_map_sg_def Let_def)
qed

definition ex_fw_env :: "(kview \<times> nat) fw_env" where
  "ex_fw_env = \<lparr>is_vmalloc_addr = (\<lambda>_. False), virt_addr_valid = (\<lambda>_. True), kmalloc_array_ok = (\<lambda>_ _. True),
     vmalloc_to_page = (\<lambda>_. None), virt_to_page = (\<lambda>a. Some (unat (drop_bit 12 a))),
     sg_from_pages = (\<lambda>ps sz s. (Some (map (\<lambda>p. \<lparr>sg_offset = 0, sg_len = 4096, sg_addr = 0\<rparr>) ps, 0), s)),
     sg_free_table = (\<lambda>_ s. s),
     pci_map_sgtable = (\<lambda>(sgs, n) s. (ok, (map (\<lambda>sg. sg\<lparr>sg_addr := 0x20000\<rparr>) sgs, length sgs), s)),
     pci_unmap_sgtable = (\<lambda>_ s. s)\<rparr>"

theorem fw_image_success_unmapped_witness:
  "ipu6_buttress_map_fw_image (trace_dev (\<lambda>l a. 0)) (ex_dma\<lparr>alloc_iova := \<lambda>_ _ s. (None, s)\<rparr>) ex_fw_env 0x5000 100
     (ex_isys_mmu 0) (ex_v0, 3) [] =
   Some (Inr ([\<lparr>sg_offset = 0, sg_len = 4096, sg_addr = 0x20000\<rparr>], 0), ex_isys_mmu 0, (ex_v0, 3), [])"
  by (rule fw_image_success_unmapped [where pages = "[5]" and ?s1.0 = "(ex_v0, 3)" and ?s2.0 = "(ex_v0, 3)" and n = 1
        and sgt = "([\<lparr>sg_offset = 0, sg_len = 4096, sg_addr = 0\<rparr>], 0)"])
    (simp_all add: ex_fw_env_def PFN_UP_def)

end
