(* ===== verification/Isys_Formats.thy ===== *)
theory Isys_Formats
  imports Ipu4_Prelude
begin

unbundle bit_operations_syntax

text \<open>
  Formats: the pixel formats of the video nodes (\<^verbatim>\<open>kernel/ipu4/ipu6-isys-video.c\<close>), the media bus codes, the
  formats and the routing of the sub-devices (\<^verbatim>\<open>ipu6-isys-subdev.c\<close>) and the cropping of the CSI-2 receivers
  (\<^verbatim>\<open>ipu6-isys-csi2.c\<close>). Codes are the constructors of a data type; a code that the driver does not know is
  one of the last constructor. The tables are those of a kernel from version 6.10 on.
\<close>

section \<open>Pixel formats and bus codes\<close>

datatype pixelformat =
  V4L2_PIX_FMT_SBGGR12 | V4L2_PIX_FMT_SGBRG12 | V4L2_PIX_FMT_SGRBG12 | V4L2_PIX_FMT_SRGGB12
  | V4L2_PIX_FMT_SBGGR10 | V4L2_PIX_FMT_SGBRG10 | V4L2_PIX_FMT_SGRBG10 | V4L2_PIX_FMT_SRGGB10
  | V4L2_PIX_FMT_SBGGR8 | V4L2_PIX_FMT_SGBRG8 | V4L2_PIX_FMT_SGRBG8 | V4L2_PIX_FMT_SRGGB8
  | V4L2_PIX_FMT_SBGGR12P | V4L2_PIX_FMT_SGBRG12P | V4L2_PIX_FMT_SGRBG12P | V4L2_PIX_FMT_SRGGB12P
  | V4L2_PIX_FMT_SBGGR10P | V4L2_PIX_FMT_SGBRG10P | V4L2_PIX_FMT_SGRBG10P | V4L2_PIX_FMT_SRGGB10P
  | V4L2_PIX_FMT_GREY | V4L2_PIX_FMT_Y10 | V4L2_PIX_FMT_Y12 | V4L2_PIX_FMT_Y16 | V4L2_PIX_FMT_Y10P
  | V4L2_PIX_FMT_Y12P | V4L2_PIX_FMT_UYVY | V4L2_PIX_FMT_YUYV | V4L2_PIX_FMT_RGB565 | V4L2_PIX_FMT_BGR24
  | V4L2_META_FMT_GENERIC_8 | V4L2_META_FMT_GENERIC_CSI2_10 | V4L2_META_FMT_GENERIC_CSI2_12
  | V4L2_META_FMT_GENERIC_CSI2_16 | V4L2_PIX_FMT_XBGR32 | OTHER_PIX_FMT u32

datatype mbus_code =
  MEDIA_BUS_FMT_SBGGR12_1X12 | MEDIA_BUS_FMT_SGBRG12_1X12 | MEDIA_BUS_FMT_SGRBG12_1X12
  | MEDIA_BUS_FMT_SRGGB12_1X12 | MEDIA_BUS_FMT_SBGGR10_1X10 | MEDIA_BUS_FMT_SGBRG10_1X10
  | MEDIA_BUS_FMT_SGRBG10_1X10 | MEDIA_BUS_FMT_SRGGB10_1X10 | MEDIA_BUS_FMT_SBGGR8_1X8
  | MEDIA_BUS_FMT_SGBRG8_1X8 | MEDIA_BUS_FMT_SGRBG8_1X8 | MEDIA_BUS_FMT_SRGGB8_1X8 | MEDIA_BUS_FMT_Y8_1X8
  | MEDIA_BUS_FMT_Y10_1X10 | MEDIA_BUS_FMT_Y12_1X12 | MEDIA_BUS_FMT_Y16_1X16 | MEDIA_BUS_FMT_UYVY8_1X16
  | MEDIA_BUS_FMT_YUYV8_1X16 | MEDIA_BUS_FMT_RGB565_1X16 | MEDIA_BUS_FMT_RGB888_1X24
  | MEDIA_BUS_FMT_META_8 | MEDIA_BUS_FMT_META_10 | MEDIA_BUS_FMT_META_12 | MEDIA_BUS_FMT_META_16
  | MEDIA_BUS_FMT_META_24 | MEDIA_BUS_FMT_SBGGR16_1X16 | MEDIA_BUS_FMT_SGBRG16_1X16
  | MEDIA_BUS_FMT_SGRBG16_1X16 | MEDIA_BUS_FMT_SRGGB16_1X16 | OTHER_MBUS_CODE u32

datatype v4l2_buf_type = V4L2_BUF_TYPE_VIDEO_CAPTURE | V4L2_BUF_TYPE_META_CAPTURE | OTHER_BUF_TYPE

record ipu6_isys_pixelformat =
  pixelformat :: pixelformat
  bpp :: u32
  bpp_packed :: u32
  code :: mbus_code
  css_pixelformat :: u8
  is_meta :: bool

definition ipu6_isys_pfmts :: "ipu6_isys_pixelformat list" where
  "ipu6_isys_pfmts = [
     \<lparr>pixelformat = V4L2_PIX_FMT_SBGGR12, bpp = 16, bpp_packed = 12, code = MEDIA_BUS_FMT_SBGGR12_1X12, css_pixelformat = 24, is_meta = False\<rparr>,
     \<lparr>pixelformat = V4L2_PIX_FMT_SGBRG12, bpp = 16, bpp_packed = 12, code = MEDIA_BUS_FMT_SGBRG12_1X12, css_pixelformat = 24, is_meta = False\<rparr>,
     \<lparr>pixelformat = V4L2_PIX_FMT_SGRBG12, bpp = 16, bpp_packed = 12, code = MEDIA_BUS_FMT_SGRBG12_1X12, css_pixelformat = 24, is_meta = False\<rparr>,
     \<lparr>pixelformat = V4L2_PIX_FMT_SRGGB12, bpp = 16, bpp_packed = 12, code = MEDIA_BUS_FMT_SRGGB12_1X12, css_pixelformat = 24, is_meta = False\<rparr>,
     \<lparr>pixelformat = V4L2_PIX_FMT_SBGGR10, bpp = 16, bpp_packed = 10, code = MEDIA_BUS_FMT_SBGGR10_1X10, css_pixelformat = 24, is_meta = False\<rparr>,
     \<lparr>pixelformat = V4L2_PIX_FMT_SGBRG10, bpp = 16, bpp_packed = 10, code = MEDIA_BUS_FMT_SGBRG10_1X10, css_pixelformat = 24, is_meta = False\<rparr>,
     \<lparr>pixelformat = V4L2_PIX_FMT_SGRBG10, bpp = 16, bpp_packed = 10, code = MEDIA_BUS_FMT_SGRBG10_1X10, css_pixelformat = 24, is_meta = False\<rparr>,
     \<lparr>pixelformat = V4L2_PIX_FMT_SRGGB10, bpp = 16, bpp_packed = 10, code = MEDIA_BUS_FMT_SRGGB10_1X10, css_pixelformat = 24, is_meta = False\<rparr>,
     \<lparr>pixelformat = V4L2_PIX_FMT_SBGGR8, bpp = 8, bpp_packed = 8, code = MEDIA_BUS_FMT_SBGGR8_1X8, css_pixelformat = 20, is_meta = False\<rparr>,
     \<lparr>pixelformat = V4L2_PIX_FMT_SGBRG8, bpp = 8, bpp_packed = 8, code = MEDIA_BUS_FMT_SGBRG8_1X8, css_pixelformat = 20, is_meta = False\<rparr>,
     \<lparr>pixelformat = V4L2_PIX_FMT_SGRBG8, bpp = 8, bpp_packed = 8, code = MEDIA_BUS_FMT_SGRBG8_1X8, css_pixelformat = 20, is_meta = False\<rparr>,
     \<lparr>pixelformat = V4L2_PIX_FMT_SRGGB8, bpp = 8, bpp_packed = 8, code = MEDIA_BUS_FMT_SRGGB8_1X8, css_pixelformat = 20, is_meta = False\<rparr>,
     \<lparr>pixelformat = V4L2_PIX_FMT_SBGGR12P, bpp = 12, bpp_packed = 12, code = MEDIA_BUS_FMT_SBGGR12_1X12, css_pixelformat = 22, is_meta = False\<rparr>,
     \<lparr>pixelformat = V4L2_PIX_FMT_SGBRG12P, bpp = 12, bpp_packed = 12, code = MEDIA_BUS_FMT_SGBRG12_1X12, css_pixelformat = 22, is_meta = False\<rparr>,
     \<lparr>pixelformat = V4L2_PIX_FMT_SGRBG12P, bpp = 12, bpp_packed = 12, code = MEDIA_BUS_FMT_SGRBG12_1X12, css_pixelformat = 22, is_meta = False\<rparr>,
     \<lparr>pixelformat = V4L2_PIX_FMT_SRGGB12P, bpp = 12, bpp_packed = 12, code = MEDIA_BUS_FMT_SRGGB12_1X12, css_pixelformat = 22, is_meta = False\<rparr>,
     \<lparr>pixelformat = V4L2_PIX_FMT_SBGGR10P, bpp = 10, bpp_packed = 10, code = MEDIA_BUS_FMT_SBGGR10_1X10, css_pixelformat = 21, is_meta = False\<rparr>,
     \<lparr>pixelformat = V4L2_PIX_FMT_SGBRG10P, bpp = 10, bpp_packed = 10, code = MEDIA_BUS_FMT_SGBRG10_1X10, css_pixelformat = 21, is_meta = False\<rparr>,
     \<lparr>pixelformat = V4L2_PIX_FMT_SGRBG10P, bpp = 10, bpp_packed = 10, code = MEDIA_BUS_FMT_SGRBG10_1X10, css_pixelformat = 21, is_meta = False\<rparr>,
     \<lparr>pixelformat = V4L2_PIX_FMT_SRGGB10P, bpp = 10, bpp_packed = 10, code = MEDIA_BUS_FMT_SRGGB10_1X10, css_pixelformat = 21, is_meta = False\<rparr>,
     \<lparr>pixelformat = V4L2_PIX_FMT_GREY, bpp = 8, bpp_packed = 8, code = MEDIA_BUS_FMT_Y8_1X8, css_pixelformat = 20, is_meta = False\<rparr>,
     \<lparr>pixelformat = V4L2_PIX_FMT_Y10, bpp = 16, bpp_packed = 10, code = MEDIA_BUS_FMT_Y10_1X10, css_pixelformat = 24, is_meta = False\<rparr>,
     \<lparr>pixelformat = V4L2_PIX_FMT_Y12, bpp = 16, bpp_packed = 12, code = MEDIA_BUS_FMT_Y12_1X12, css_pixelformat = 24, is_meta = False\<rparr>,
     \<lparr>pixelformat = V4L2_PIX_FMT_Y16, bpp = 16, bpp_packed = 16, code = MEDIA_BUS_FMT_Y16_1X16, css_pixelformat = 24, is_meta = False\<rparr>,
     \<lparr>pixelformat = V4L2_PIX_FMT_Y10P, bpp = 10, bpp_packed = 10, code = MEDIA_BUS_FMT_Y10_1X10, css_pixelformat = 21, is_meta = False\<rparr>,
     \<lparr>pixelformat = V4L2_PIX_FMT_Y12P, bpp = 12, bpp_packed = 12, code = MEDIA_BUS_FMT_Y12_1X12, css_pixelformat = 22, is_meta = False\<rparr>,
     \<lparr>pixelformat = V4L2_PIX_FMT_UYVY, bpp = 16, bpp_packed = 16, code = MEDIA_BUS_FMT_UYVY8_1X16, css_pixelformat = 16, is_meta = False\<rparr>,
     \<lparr>pixelformat = V4L2_PIX_FMT_YUYV, bpp = 16, bpp_packed = 16, code = MEDIA_BUS_FMT_YUYV8_1X16, css_pixelformat = 17, is_meta = False\<rparr>,
     \<lparr>pixelformat = V4L2_PIX_FMT_RGB565, bpp = 16, bpp_packed = 16, code = MEDIA_BUS_FMT_RGB565_1X16, css_pixelformat = 25, is_meta = False\<rparr>,
     \<lparr>pixelformat = V4L2_PIX_FMT_BGR24, bpp = 24, bpp_packed = 24, code = MEDIA_BUS_FMT_RGB888_1X24, css_pixelformat = 27, is_meta = False\<rparr>,
     \<lparr>pixelformat = V4L2_META_FMT_GENERIC_8, bpp = 8, bpp_packed = 8, code = MEDIA_BUS_FMT_META_8, css_pixelformat = 20, is_meta = True\<rparr>,
     \<lparr>pixelformat = V4L2_META_FMT_GENERIC_CSI2_10, bpp = 10, bpp_packed = 10, code = MEDIA_BUS_FMT_META_10, css_pixelformat = 21, is_meta = True\<rparr>,
     \<lparr>pixelformat = V4L2_META_FMT_GENERIC_CSI2_12, bpp = 12, bpp_packed = 12, code = MEDIA_BUS_FMT_META_12, css_pixelformat = 22, is_meta = True\<rparr>,
     \<lparr>pixelformat = V4L2_META_FMT_GENERIC_CSI2_16, bpp = 16, bpp_packed = 16, code = MEDIA_BUS_FMT_META_16, css_pixelformat = 24, is_meta = True\<rparr>,
     \<lparr>pixelformat = V4L2_PIX_FMT_XBGR32, bpp = 32, bpp_packed = 24, code = MEDIA_BUS_FMT_RGB888_1X24, css_pixelformat = 27, is_meta = False\<rparr>]"

definition ipu6_isys_mbus_code_to_bpp :: "mbus_code \<Rightarrow> u32" where
  "ipu6_isys_mbus_code_to_bpp c =
     (if c \<in> {MEDIA_BUS_FMT_RGB888_1X24, MEDIA_BUS_FMT_META_24} then 24
      else if c \<in> {MEDIA_BUS_FMT_RGB565_1X16, MEDIA_BUS_FMT_UYVY8_1X16, MEDIA_BUS_FMT_YUYV8_1X16,
       MEDIA_BUS_FMT_Y16_1X16, MEDIA_BUS_FMT_META_16} then 16
      else if c \<in> {MEDIA_BUS_FMT_SBGGR12_1X12, MEDIA_BUS_FMT_SGBRG12_1X12, MEDIA_BUS_FMT_SGRBG12_1X12,
       MEDIA_BUS_FMT_SRGGB12_1X12, MEDIA_BUS_FMT_Y12_1X12, MEDIA_BUS_FMT_META_12} then 12
      else if c \<in> {MEDIA_BUS_FMT_SBGGR10_1X10, MEDIA_BUS_FMT_SGBRG10_1X10, MEDIA_BUS_FMT_SGRBG10_1X10,
       MEDIA_BUS_FMT_SRGGB10_1X10, MEDIA_BUS_FMT_Y10_1X10, MEDIA_BUS_FMT_META_10} then 10
      else if c \<in> {MEDIA_BUS_FMT_SBGGR8_1X8, MEDIA_BUS_FMT_SGBRG8_1X8, MEDIA_BUS_FMT_SGRBG8_1X8,
       MEDIA_BUS_FMT_SRGGB8_1X8, MEDIA_BUS_FMT_Y8_1X8, MEDIA_BUS_FMT_META_8} then 8
      else 8)"

definition ipu6_isys_mbus_code_to_mipi :: "mbus_code \<Rightarrow> u8" where
  "ipu6_isys_mbus_code_to_mipi c =
     (if c \<in> {MEDIA_BUS_FMT_RGB565_1X16} then 0x22
      else if c \<in> {MEDIA_BUS_FMT_RGB888_1X24} then 0x24
      else if c \<in> {MEDIA_BUS_FMT_UYVY8_1X16, MEDIA_BUS_FMT_YUYV8_1X16} then 0x1e
      else if c \<in> {MEDIA_BUS_FMT_SBGGR16_1X16, MEDIA_BUS_FMT_SGBRG16_1X16, MEDIA_BUS_FMT_SGRBG16_1X16,
       MEDIA_BUS_FMT_SRGGB16_1X16, MEDIA_BUS_FMT_Y16_1X16} then 0x2e
      else if c \<in> {MEDIA_BUS_FMT_SBGGR12_1X12, MEDIA_BUS_FMT_SGBRG12_1X12, MEDIA_BUS_FMT_SGRBG12_1X12,
       MEDIA_BUS_FMT_SRGGB12_1X12, MEDIA_BUS_FMT_Y12_1X12} then 0x2c
      else if c \<in> {MEDIA_BUS_FMT_SBGGR10_1X10, MEDIA_BUS_FMT_SGBRG10_1X10, MEDIA_BUS_FMT_SGRBG10_1X10,
       MEDIA_BUS_FMT_SRGGB10_1X10, MEDIA_BUS_FMT_Y10_1X10} then 0x2b
      else if c \<in> {MEDIA_BUS_FMT_SBGGR8_1X8, MEDIA_BUS_FMT_SGBRG8_1X8, MEDIA_BUS_FMT_SGRBG8_1X8,
       MEDIA_BUS_FMT_SRGGB8_1X8, MEDIA_BUS_FMT_Y8_1X8} then 0x2a
      else if c \<in> {MEDIA_BUS_FMT_META_8, MEDIA_BUS_FMT_META_10, MEDIA_BUS_FMT_META_12,
       MEDIA_BUS_FMT_META_16, MEDIA_BUS_FMT_META_24} then 0x12
      else 0x3f)"

definition ipu6_isys_is_bayer_format :: "mbus_code \<Rightarrow> bool" where
  "ipu6_isys_is_bayer_format c =
     (c \<in> {MEDIA_BUS_FMT_SBGGR8_1X8, MEDIA_BUS_FMT_SGBRG8_1X8, MEDIA_BUS_FMT_SGRBG8_1X8,
       MEDIA_BUS_FMT_SRGGB8_1X8, MEDIA_BUS_FMT_SBGGR10_1X10, MEDIA_BUS_FMT_SGBRG10_1X10,
       MEDIA_BUS_FMT_SGRBG10_1X10, MEDIA_BUS_FMT_SRGGB10_1X10, MEDIA_BUS_FMT_SBGGR12_1X12,
       MEDIA_BUS_FMT_SGBRG12_1X12, MEDIA_BUS_FMT_SGRBG12_1X12, MEDIA_BUS_FMT_SRGGB12_1X12,
       MEDIA_BUS_FMT_SRGGB16_1X16, MEDIA_BUS_FMT_SGRBG16_1X16, MEDIA_BUS_FMT_SGBRG16_1X16,
       MEDIA_BUS_FMT_SBGGR16_1X16})"

definition code_map :: "mbus_code list" where
  "code_map = [MEDIA_BUS_FMT_SRGGB8_1X8, MEDIA_BUS_FMT_SGRBG8_1X8, MEDIA_BUS_FMT_SGBRG8_1X8,
       MEDIA_BUS_FMT_SBGGR8_1X8, MEDIA_BUS_FMT_SRGGB10_1X10, MEDIA_BUS_FMT_SGRBG10_1X10,
       MEDIA_BUS_FMT_SGBRG10_1X10, MEDIA_BUS_FMT_SBGGR10_1X10, MEDIA_BUS_FMT_SRGGB12_1X12,
       MEDIA_BUS_FMT_SGRBG12_1X12, MEDIA_BUS_FMT_SGBRG12_1X12, MEDIA_BUS_FMT_SBGGR12_1X12,
       MEDIA_BUS_FMT_SRGGB16_1X16, MEDIA_BUS_FMT_SGRBG16_1X16, MEDIA_BUS_FMT_SGBRG16_1X16,
       MEDIA_BUS_FMT_SBGGR16_1X16]"

text \<open>The Bayer order of an image that is moved by \<open>x\<close> columns and \<open>y\<close> rows.\<close>

fun index_of :: "'a \<Rightarrow> 'a list \<Rightarrow> nat" where
  "index_of c [] = 0"
| "index_of c (d # ds) = (if d = c then 0 else Suc (index_of c ds))"

definition ipu6_isys_convert_bayer_order :: "mbus_code \<Rightarrow> 32 word \<Rightarrow> 32 word \<Rightarrow> mbus_code" where
  "ipu6_isys_convert_bayer_order c x y =
     (let i = index_of c code_map in
      if i = length code_map then c
      else code_map ! (i XOR unat (push_bit 1 (y AND 1) OR (x AND 1))))"

section \<open>Formats of a video node\<close>

definition IPU6_ISYS_MIN_WIDTH :: u32 where [ipu4_consts]: "IPU6_ISYS_MIN_WIDTH = 2"
definition IPU6_ISYS_MIN_HEIGHT :: u32 where [ipu4_consts]: "IPU6_ISYS_MIN_HEIGHT = 1"
definition IPU6_ISYS_MAX_WIDTH :: u32 where [ipu4_consts]: "IPU6_ISYS_MAX_WIDTH = 4672"
definition IPU6_ISYS_MAX_HEIGHT :: u32 where [ipu4_consts]: "IPU6_ISYS_MAX_HEIGHT = 3416"
definition IPU6_ISYS_OVERALLOC_MIN :: u32 where [ipu4_consts]: "IPU6_ISYS_OVERALLOC_MIN = 1024"

text \<open>Without a type all formats are looked at. The default is the first format of the type.\<close>

definition format_of_type :: "v4l2_buf_type option \<Rightarrow> ipu6_isys_pixelformat \<Rightarrow> bool" where
  "format_of_type type p \<longleftrightarrow>
     (case type of None \<Rightarrow> True
      | Some t \<Rightarrow> t = (if is_meta p then V4L2_BUF_TYPE_META_CAPTURE else V4L2_BUF_TYPE_VIDEO_CAPTURE))"

definition ipu6_isys_get_isys_format :: "pixelformat \<Rightarrow> v4l2_buf_type option \<Rightarrow> ipu6_isys_pixelformat option" where
  "ipu6_isys_get_isys_format pix type =
     (let ps = filter (format_of_type type) ipu6_isys_pfmts in
      case List.find (\<lambda>p. pixelformat p = pix) ps of
        Some p \<Rightarrow> Some p
      | None \<Rightarrow> (if ps = [] then None else Some (hd ps)))"

text \<open>The formats of a type and bus code, by number.\<close>

definition ipu6_isys_vidioc_enum_fmt :: "v4l2_buf_type \<Rightarrow> mbus_code option \<Rightarrow> nat \<Rightarrow> pixelformat res" where
  "ipu6_isys_vidioc_enum_fmt type mbus index =
     (let ps = filter (\<lambda>p. format_of_type (Some type) p \<and> (case mbus of None \<Rightarrow> True | Some c \<Rightarrow> code p = c)) ipu6_isys_pfmts in
      if index < length ps then Inr (pixelformat (ps ! index)) else Inl EINVAL)"

record v4l2_frmsize_stepwise =
  fs_min_width :: u32
  fs_max_width :: u32
  fs_step_width :: u32
  fs_min_height :: u32
  fs_max_height :: u32
  fs_step_height :: u32

definition ipu6_isys_vidioc_enum_framesizes :: "nat \<Rightarrow> pixelformat \<Rightarrow> v4l2_frmsize_stepwise res" where
  "ipu6_isys_vidioc_enum_framesizes index pix =
     (if index > 0 then Inl EINVAL
      else if list_ex (\<lambda>p. pixelformat p = pix) ipu6_isys_pfmts
      then Inr \<lparr>fs_min_width = IPU6_ISYS_MIN_WIDTH, fs_max_width = IPU6_ISYS_MAX_WIDTH, fs_step_width = 2,
                fs_min_height = IPU6_ISYS_MIN_HEIGHT, fs_max_height = IPU6_ISYS_MAX_HEIGHT, fs_step_height = 2\<rparr>
      else Inl EINVAL)"

record v4l2_pix_format =
  pix_width :: u32
  pix_height :: u32
  pix_format :: pixelformat
  bytesperline :: u32
  sizeimage :: u32
  pix_field :: nat
  colorspace :: nat
  ycbcr_enc :: nat
  quantization :: nat
  xfer_func :: nat

record v4l2_meta_format =
  dataformat :: pixelformat
  buffersize :: u32
  meta_width :: u32
  meta_height :: u32
  meta_bytesperline :: u32

text \<open>The format part of a video node: the type of its queue, whether buffers are allocated, and both formats.\<close>

record video_fmt =
  vbq_type :: v4l2_buf_type
  vbq_busy :: bool
  pix_fmt :: v4l2_pix_format
  meta_fmt :: v4l2_meta_format

definition clamp :: "u32 \<Rightarrow> u32 \<Rightarrow> u32 \<Rightarrow> u32" where
  "clamp val lo hi = (if val \<ge> hi then hi else if val \<le> lo then lo else val)"

definition DIV_ROUND_UP :: "u32 \<Rightarrow> u32 \<Rightarrow> u32" where
  "DIV_ROUND_UP n d = (n + d - 1) div d"

definition align_64 :: "u32 \<Rightarrow> u32" where
  "align_64 x = (x + 63) AND NOT 63"

text \<open>The new format, width, height, bytes per line and size; no result when there is no format of the type.\<close>

definition ipu6_isys_try_fmt_cap ::
  "v4l2_buf_type \<Rightarrow> pixelformat \<Rightarrow> u32 \<Rightarrow> u32 \<Rightarrow> (pixelformat \<times> u32 \<times> u32 \<times> u32 \<times> u32) option" where
  "ipu6_isys_try_fmt_cap type pix width height =
     (case ipu6_isys_get_isys_format pix (Some type) of
        None \<Rightarrow> None
      | Some p \<Rightarrow>
        (let w = clamp width IPU6_ISYS_MIN_WIDTH IPU6_ISYS_MAX_WIDTH;
             h = clamp height IPU6_ISYS_MIN_HEIGHT IPU6_ISYS_MAX_HEIGHT;
             bpl = align_64 (if bpp p \<noteq> bpp_packed p then w * DIV_ROUND_UP (bpp p) 8 else DIV_ROUND_UP (w * bpp p) 8)
         in Some (pixelformat p, w, h, bpl, bpl * h + max bpl IPU6_ISYS_OVERALLOC_MIN)))"

definition try_fmt_vid_cap_body :: "v4l2_buf_type \<Rightarrow> v4l2_pix_format \<Rightarrow> v4l2_pix_format option" where
  "try_fmt_vid_cap_body type f =
     map_option (\<lambda>(pix, w, h, bpl, sz).
       \<lparr>pix_width = w, pix_height = h, pix_format = pix, bytesperline = bpl, sizeimage = sz,
        pix_field = 1, colorspace = 11, ycbcr_enc = 0, quantization = 0, xfer_func = 0\<rparr>)
     (ipu6_isys_try_fmt_cap type (pix_format f) (pix_width f) (pix_height f))"

definition try_fmt_meta_cap_body :: "v4l2_buf_type \<Rightarrow> v4l2_meta_format \<Rightarrow> v4l2_meta_format option" where
  "try_fmt_meta_cap_body type f =
     map_option (\<lambda>(pix, w, h, bpl, sz).
       \<lparr>dataformat = pix, buffersize = sz, meta_width = w, meta_height = h, meta_bytesperline = bpl\<rparr>)
     (ipu6_isys_try_fmt_cap type (dataformat f) (meta_width f) (meta_height f))"

text \<open>
  The handlers of the requests. The outer option is the access through a missing format;
  the structure is changed in place, and is returned.
\<close>

definition ipu6_isys_vidioc_try_fmt_vid_cap ::
  "v4l2_buf_type \<Rightarrow> v4l2_pix_format \<Rightarrow> video_fmt \<Rightarrow> (unit res \<times> v4l2_pix_format) option" where
  "ipu6_isys_vidioc_try_fmt_vid_cap type f av =
     (if vbq_busy av then Some (Inl EBUSY, f)
      else map_option (\<lambda>g. (ok, g)) (try_fmt_vid_cap_body type f))"

definition ipu6_isys_vidioc_s_fmt_vid_cap ::
  "v4l2_buf_type \<Rightarrow> v4l2_pix_format \<Rightarrow> video_fmt \<Rightarrow> (unit res \<times> video_fmt) option" where
  "ipu6_isys_vidioc_s_fmt_vid_cap type f av =
     map_option (\<lambda>(_, g). (ok, av\<lparr>pix_fmt := g\<rparr>)) (ipu6_isys_vidioc_try_fmt_vid_cap type f av)"

definition ipu6_isys_vidioc_s_fmt_meta_cap ::
  "v4l2_buf_type \<Rightarrow> v4l2_meta_format \<Rightarrow> video_fmt \<Rightarrow> (unit res \<times> video_fmt) option" where
  "ipu6_isys_vidioc_s_fmt_meta_cap type f av =
     (if vbq_busy av then Some (Inl EBUSY, av)
      else map_option (\<lambda>g. (ok, av\<lparr>meta_fmt := g\<rparr>)) (try_fmt_meta_cap_body type f))"

text \<open>The formats of a new video node.\<close>

definition video_fmt_init :: "video_fmt \<Rightarrow> video_fmt option" where
  "video_fmt_init av =
     (case (try_fmt_vid_cap_body V4L2_BUF_TYPE_VIDEO_CAPTURE
              \<lparr>pix_width = 1920, pix_height = 1080, pix_format = OTHER_PIX_FMT 0, bytesperline = 0, sizeimage = 0,
               pix_field = 0, colorspace = 0, ycbcr_enc = 0, quantization = 0, xfer_func = 0\<rparr>,
            try_fmt_meta_cap_body V4L2_BUF_TYPE_META_CAPTURE
              \<lparr>dataformat = OTHER_PIX_FMT 0, buffersize = 0, meta_width = 1920, meta_height = 4, meta_bytesperline = 0\<rparr>)
      of (Some p, Some m) \<Rightarrow> Some (av\<lparr>pix_fmt := p, meta_fmt := m\<rparr>)
       | _ \<Rightarrow> None)"

definition ipu6_isys_get_format :: "video_fmt \<Rightarrow> pixelformat" where
  "ipu6_isys_get_format av =
     (case vbq_type av of V4L2_BUF_TYPE_VIDEO_CAPTURE \<Rightarrow> pix_format (pix_fmt av)
      | V4L2_BUF_TYPE_META_CAPTURE \<Rightarrow> dataformat (meta_fmt av) | OTHER_BUF_TYPE \<Rightarrow> OTHER_PIX_FMT 0)"

definition ipu6_isys_get_data_size :: "video_fmt \<Rightarrow> u32" where
  "ipu6_isys_get_data_size av =
     (case vbq_type av of V4L2_BUF_TYPE_VIDEO_CAPTURE \<Rightarrow> sizeimage (pix_fmt av)
      | V4L2_BUF_TYPE_META_CAPTURE \<Rightarrow> buffersize (meta_fmt av) | OTHER_BUF_TYPE \<Rightarrow> 0)"

definition ipu6_isys_get_bytes_per_line :: "video_fmt \<Rightarrow> u32" where
  "ipu6_isys_get_bytes_per_line av =
     (case vbq_type av of V4L2_BUF_TYPE_VIDEO_CAPTURE \<Rightarrow> bytesperline (pix_fmt av)
      | V4L2_BUF_TYPE_META_CAPTURE \<Rightarrow> meta_bytesperline (meta_fmt av) | OTHER_BUF_TYPE \<Rightarrow> 0)"

definition ipu6_isys_get_frame_width :: "video_fmt \<Rightarrow> u32" where
  "ipu6_isys_get_frame_width av =
     (case vbq_type av of V4L2_BUF_TYPE_VIDEO_CAPTURE \<Rightarrow> pix_width (pix_fmt av)
      | V4L2_BUF_TYPE_META_CAPTURE \<Rightarrow> meta_width (meta_fmt av) | OTHER_BUF_TYPE \<Rightarrow> 0)"

definition ipu6_isys_get_frame_height :: "video_fmt \<Rightarrow> u32" where
  "ipu6_isys_get_frame_height av =
     (case vbq_type av of V4L2_BUF_TYPE_VIDEO_CAPTURE \<Rightarrow> pix_height (pix_fmt av)
      | V4L2_BUF_TYPE_META_CAPTURE \<Rightarrow> meta_height (meta_fmt av) | OTHER_BUF_TYPE \<Rightarrow> 0)"

text \<open>Sizes of the buffers of a queue: the size asked for, if any, and the size of a buffer's plane.\<close>

definition ipu6_isys_queue_setup :: "u32 option \<Rightarrow> video_fmt \<Rightarrow> u32 res" where
  "ipu6_isys_queue_setup size0 av =
     (case size0 of
        None \<Rightarrow> Inr (ipu6_isys_get_data_size av)
      | Some sz \<Rightarrow> if sz < ipu6_isys_get_data_size av then Inl EINVAL else Inr sz)"

definition ipu6_isys_buf_prepare :: "u64 \<Rightarrow> video_fmt \<Rightarrow> u32 res" where
  "ipu6_isys_buf_prepare plane_size av =
     (if ucast (ipu6_isys_get_data_size av) > plane_size then Inl EINVAL
      else Inr (ipu6_isys_get_bytes_per_line av * ipu6_isys_get_frame_height av))"

section \<open>Formats of a sub-device\<close>

record v4l2_mbus_framefmt =
  ff_width :: u32
  ff_height :: u32
  ff_code :: mbus_code

record v4l2_rect =
  r_left :: u32
  r_top :: u32
  r_width :: u32
  r_height :: u32

record v4l2_subdev_route =
  sink_pad :: nat
  sink_stream :: nat
  source_pad :: nat
  source_stream :: nat
  route_active :: bool

text \<open>
  The state of a sub-device. \<open>opposite\<close> is what \<^verbatim>\<open>v4l2_subdev_routing_find_opposite_end\<close> finds in the routing table.
\<close>

record v4l2_subdev_state =
  routes :: "v4l2_subdev_route list"
  opposite :: "nat \<Rightarrow> nat \<Rightarrow> (nat \<times> nat) option"
  sd_fmt :: "nat \<Rightarrow> nat \<Rightarrow> v4l2_mbus_framefmt option"
  sd_crop :: "nat \<Rightarrow> nat \<Rightarrow> v4l2_rect option"

definition CSI2_PAD_SINK :: nat where [ipu4_consts]: "CSI2_PAD_SINK = 0"
definition CSI2_PAD_SRC :: nat where [ipu4_consts]: "CSI2_PAD_SRC = 1"
definition NR_OF_CSI2_SRC_PADS :: nat where [ipu4_consts]: "NR_OF_CSI2_SRC_PADS = 4"
definition NR_OF_CSI2_VC :: nat where [ipu4_consts]: "NR_OF_CSI2_VC = 4"

definition csi2_supported_codes :: "mbus_code list" where
  "csi2_supported_codes = [MEDIA_BUS_FMT_RGB565_1X16, MEDIA_BUS_FMT_RGB888_1X24, MEDIA_BUS_FMT_UYVY8_1X16,
       MEDIA_BUS_FMT_YUYV8_1X16, MEDIA_BUS_FMT_SBGGR10_1X10, MEDIA_BUS_FMT_SGBRG10_1X10,
       MEDIA_BUS_FMT_SGRBG10_1X10, MEDIA_BUS_FMT_SRGGB10_1X10, MEDIA_BUS_FMT_SBGGR12_1X12,
       MEDIA_BUS_FMT_SGBRG12_1X12, MEDIA_BUS_FMT_SGRBG12_1X12, MEDIA_BUS_FMT_SRGGB12_1X12,
       MEDIA_BUS_FMT_SBGGR8_1X8, MEDIA_BUS_FMT_SGBRG8_1X8, MEDIA_BUS_FMT_SGRBG8_1X8, MEDIA_BUS_FMT_SRGGB8_1X8,
       MEDIA_BUS_FMT_Y8_1X8, MEDIA_BUS_FMT_Y10_1X10, MEDIA_BUS_FMT_Y12_1X12, MEDIA_BUS_FMT_Y16_1X16,
       MEDIA_BUS_FMT_META_8, MEDIA_BUS_FMT_META_10, MEDIA_BUS_FMT_META_12, MEDIA_BUS_FMT_META_16,
       MEDIA_BUS_FMT_META_24]"

definition get_opposite_stream_format :: "v4l2_subdev_state \<Rightarrow> nat \<Rightarrow> nat \<Rightarrow> v4l2_mbus_framefmt option" where
  "get_opposite_stream_format st pad str =
     (case opposite st pad str of None \<Rightarrow> None | Some (p, s) \<Rightarrow> sd_fmt st p s)"

definition set_sd_fmt :: "nat \<Rightarrow> nat \<Rightarrow> v4l2_mbus_framefmt \<Rightarrow> v4l2_subdev_state \<Rightarrow> v4l2_subdev_state" where
  "set_sd_fmt pad str f st = st\<lparr>sd_fmt := (sd_fmt st)(pad := (sd_fmt st pad)(str := Some f))\<rparr>"

definition set_sd_crop :: "nat \<Rightarrow> nat \<Rightarrow> v4l2_rect \<Rightarrow> v4l2_subdev_state \<Rightarrow> v4l2_subdev_state" where
  "set_sd_crop pad str r st = st\<lparr>sd_crop := (sd_crop st)(pad := (sd_crop st pad)(str := Some r))\<rparr>"

text \<open>
  Setting a format. Pad 0 is the sink, the others are sources, whose format follows the sink's.
  The format is returned as adjusted; \<open>None\<close> is the reset of a crop rectangle that is not there.
\<close>

definition ipu6_isys_subdev_set_fmt ::
  "nat \<Rightarrow> nat \<Rightarrow> v4l2_mbus_framefmt \<Rightarrow> v4l2_subdev_state \<Rightarrow> (v4l2_mbus_framefmt res \<times> v4l2_subdev_state) option" where
  "ipu6_isys_subdev_set_fmt pad str f st =
     (if pad \<noteq> CSI2_PAD_SINK
      then Some (case sd_fmt st pad str of None \<Rightarrow> Inl EINVAL | Some g \<Rightarrow> Inr g, st)
      else
        let g = \<lparr>ff_width = clamp (ff_width f) IPU6_ISYS_MIN_WIDTH IPU6_ISYS_MAX_WIDTH,
                 ff_height = clamp (ff_height f) IPU6_ISYS_MIN_HEIGHT IPU6_ISYS_MAX_HEIGHT,
                 ff_code = (if ff_code f \<in> set csi2_supported_codes then ff_code f else hd csi2_supported_codes)\<rparr>
        in if sd_fmt st pad str = None then Some (Inl EINVAL, st)
           else
             let st1 = set_sd_fmt pad str g st in
             case opposite st1 pad str of
               None \<Rightarrow> Some (Inl EINVAL, st1)
             | Some (p, s) \<Rightarrow>
                 if sd_fmt st1 p s = None then Some (Inl EINVAL, st1)
                 else
                   let st2 = set_sd_fmt p s g st1 in
                   if sd_crop st2 p s = None then None
                   else Some (Inr g, set_sd_crop p s
                     \<lparr>r_left = 0, r_top = 0, r_width = ff_width g, r_height = ff_height g\<rparr> st2))"

definition ipu6_isys_subdev_enum_mbus_code :: "nat \<Rightarrow> mbus_code res" where
  "ipu6_isys_subdev_enum_mbus_code index =
     (if index < length csi2_supported_codes then Inr (csi2_supported_codes ! index) else Inl EINVAL)"

definition ipu6_isys_get_stream_pad_fmt :: "nat \<Rightarrow> nat \<Rightarrow> v4l2_subdev_state \<Rightarrow> v4l2_mbus_framefmt res" where
  "ipu6_isys_get_stream_pad_fmt pad str st = (case sd_fmt st pad str of None \<Rightarrow> Inl EINVAL | Some f \<Rightarrow> Inr f)"

definition ipu6_isys_get_stream_pad_crop :: "nat \<Rightarrow> nat \<Rightarrow> v4l2_subdev_state \<Rightarrow> v4l2_rect res" where
  "ipu6_isys_get_stream_pad_crop pad str st = (case sd_crop st pad str of None \<Rightarrow> Inl EINVAL | Some r \<Rightarrow> Inr r)"

definition ipu6_isys_get_src_stream_by_src_pad :: "nat \<Rightarrow> v4l2_subdev_state \<Rightarrow> nat" where
  "ipu6_isys_get_src_stream_by_src_pad pad st =
     (case List.find (\<lambda>r. source_pad r = pad) (routes st) of None \<Rightarrow> 0 | Some r \<Rightarrow> source_stream r)"

text \<open>
  The table of routes. \<open>validate\<close> and \<open>install\<close> are the checks and the replacement of the table in the
  V4L2 core; the new formats are all the given one.
\<close>

definition subdev_set_routing ::
  "(v4l2_subdev_route list \<Rightarrow> unit res) \<Rightarrow>
   (v4l2_subdev_route list \<Rightarrow> v4l2_mbus_framefmt \<Rightarrow> v4l2_subdev_state \<Rightarrow> unit res \<times> v4l2_subdev_state) \<Rightarrow>
   v4l2_subdev_route list \<Rightarrow> v4l2_subdev_state \<Rightarrow> unit res \<times> v4l2_subdev_state" where
  "subdev_set_routing validate install rs st =
     (case validate rs of
        Inl e \<Rightarrow> (Inl e, st)
      | Inr _ \<Rightarrow> install rs \<lparr>ff_width = 4096, ff_height = 3072, ff_code = MEDIA_BUS_FMT_SGRBG10_1X10\<rparr> st)"

definition ipu6_isys_subdev_init_cfg ::
  "(v4l2_subdev_route list \<Rightarrow> unit res) \<Rightarrow>
   (v4l2_subdev_route list \<Rightarrow> v4l2_mbus_framefmt \<Rightarrow> v4l2_subdev_state \<Rightarrow> unit res \<times> v4l2_subdev_state) \<Rightarrow>
   v4l2_subdev_state \<Rightarrow> unit res \<times> v4l2_subdev_state" where
  "ipu6_isys_subdev_init_cfg validate install =
     subdev_set_routing validate install
       [\<lparr>sink_pad = 0, sink_stream = 0, source_pad = 1, source_stream = 0, route_active = True\<rparr>]"

section \<open>Cropping\<close>

datatype sel_target = V4L2_SEL_TGT_CROP | V4L2_SEL_TGT_CROP_DEFAULT | V4L2_SEL_TGT_CROP_BOUNDS | OTHER_SEL_TGT

text \<open>Only rows are cropped. The coordinates are 32-bit values; the arithmetic is unsigned.\<close>

definition ipu6_isys_csi2_set_sel ::
  "nat \<Rightarrow> nat \<Rightarrow> sel_target \<Rightarrow> v4l2_rect \<Rightarrow> v4l2_subdev_state \<Rightarrow> v4l2_rect res \<times> v4l2_subdev_state" where
  "ipu6_isys_csi2_set_sel pad str target r st =
     (if pad = CSI2_PAD_SINK \<or> target \<noteq> V4L2_SEL_TGT_CROP then (Inl EINVAL, st)
      else case get_opposite_stream_format st pad str of
        None \<Rightarrow> (Inl EINVAL, st)
      | Some sink \<Rightarrow>
        (case sd_fmt st pad str of
           None \<Rightarrow> (Inl EINVAL, st)
         | Some src \<Rightarrow>
           if sd_crop st pad str = None then (Inl EINVAL, st)
           else
             let bayer = ipu6_isys_is_bayer_format (ff_code sink);
                 top = (if bayer then r_top r else r_top r AND NOT 1);
                 q = \<lparr>r_left = 0, r_top = top, r_width = ff_width sink,
                      r_height = clamp (r_height r AND NOT 1) IPU6_ISYS_MIN_HEIGHT (ff_height sink - top)\<rparr>;
                 src1 = src\<lparr>ff_width := r_width q, ff_height := r_height q,
                            ff_code := (if bayer then ipu6_isys_convert_bayer_order (ff_code sink) 0 top else ff_code src)\<rparr>
             in (Inr q, set_sd_fmt pad str src1 (set_sd_crop pad str q st))))"

definition ipu6_isys_csi2_get_sel ::
  "nat \<Rightarrow> nat \<Rightarrow> sel_target \<Rightarrow> v4l2_subdev_state \<Rightarrow> v4l2_rect res" where
  "ipu6_isys_csi2_get_sel pad str target st =
     (if pad = CSI2_PAD_SINK then Inl EINVAL
      else case get_opposite_stream_format st pad str of
        None \<Rightarrow> Inl EINVAL
      | Some sink \<Rightarrow>
        (case sd_crop st pad str of
           None \<Rightarrow> Inl EINVAL
         | Some crop \<Rightarrow>
           (case target of
              V4L2_SEL_TGT_CROP_DEFAULT \<Rightarrow> Inr \<lparr>r_left = 0, r_top = 0, r_width = ff_width sink, r_height = ff_height sink\<rparr>
            | V4L2_SEL_TGT_CROP_BOUNDS \<Rightarrow> Inr \<lparr>r_left = 0, r_top = 0, r_width = ff_width sink, r_height = ff_height sink\<rparr>
            | V4L2_SEL_TGT_CROP \<Rightarrow> Inr crop
            | OTHER_SEL_TGT \<Rightarrow> Inl EINVAL)))"

section \<open>The link to a video node\<close>

text \<open>Both checks compare the format of the receiver's source pad with the one of the node.\<close>

definition fmt_matches :: "v4l2_mbus_framefmt \<Rightarrow> video_fmt \<Rightarrow> bool" where
  "fmt_matches f av \<longleftrightarrow> ff_width f = ipu6_isys_get_frame_width av \<and> ff_height f = ipu6_isys_get_frame_height av \<and>
     (case ipu6_isys_get_isys_format (ipu6_isys_get_format av) None of None \<Rightarrow> False | Some p \<Rightarrow> ff_code f = code p)"

definition link_validate :: "nat \<Rightarrow> v4l2_subdev_state option \<Rightarrow> video_fmt \<Rightarrow> unit res" where
  "link_validate pad s_state av =
     (case s_state of
        None \<Rightarrow> Inl EPIPE
      | Some st \<Rightarrow>
        (case sd_fmt st pad (ipu6_isys_get_src_stream_by_src_pad pad st) of
           None \<Rightarrow> Inl EPIPE
         | Some f \<Rightarrow> if fmt_matches f av then ok else Inl EPIPE))"

definition ipu6_isys_link_fmt_validate :: "nat option \<Rightarrow> v4l2_subdev_state \<Rightarrow> video_fmt \<Rightarrow> unit res" where
  "ipu6_isys_link_fmt_validate remote_pad st av =
     (case remote_pad of
        None \<Rightarrow> Inl ENOTCONN
      | Some pad \<Rightarrow>
        (case ipu6_isys_get_stream_pad_fmt pad (ipu6_isys_get_src_stream_by_src_pad pad st) st of
           Inl e \<Rightarrow> Inl e
         | Inr f \<Rightarrow> if fmt_matches f av then ok else Inl EINVAL))"

end
