(* ===== verification/Isys_Formats_Props.thy ===== *)
theory Isys_Formats_Props
  imports Isys_Formats
begin

unbundle bit_operations_syntax

text \<open>
  Properties of the formats: the table is consistent, a format that is tried is in bounds and
  its buffer can hold the image, and the Bayer orders.
\<close>

section \<open>The table\<close>

definition pfmt_ok :: "ipu6_isys_pixelformat \<Rightarrow> bool" where
  "pfmt_ok p \<longleftrightarrow> bpp p \<in> {8, 10, 12, 16, 24, 32} \<and> bpp_packed p \<le> bpp p \<and>
     bpp_packed p = ipu6_isys_mbus_code_to_bpp (code p) \<and> code p \<in> set csi2_supported_codes"

lemma pfmts_ok: "p \<in> set ipu6_isys_pfmts \<Longrightarrow> pfmt_ok p"
proof -
  have "list_all pfmt_ok ipu6_isys_pfmts"
    by code_simp
  then show "p \<in> set ipu6_isys_pfmts \<Longrightarrow> pfmt_ok p"
    by (simp add: list_all_iff)
qed

lemma pfmts_distinct: "distinct (map pixelformat ipu6_isys_pfmts)"
  by code_simp

lemma find_some_iff_nth: "List.find P xs = Some x \<Longrightarrow> x \<in> set xs \<and> P x"
  by (induction xs) (auto split: if_splits)

lemma get_isys_format_some:
  assumes "t \<noteq> OTHER_BUF_TYPE"
  obtains p where "ipu6_isys_get_isys_format pix (Some t) = Some p" "p \<in> set ipu6_isys_pfmts"
    "format_of_type (Some t) p"
proof -
  let ?ps = "filter (format_of_type (Some t)) ipu6_isys_pfmts"
  have "?ps \<noteq> []"
    using assms by (cases t) (auto simp: ipu6_isys_pfmts_def format_of_type_def)
  then have "hd ?ps \<in> set ?ps"
    by (rule hd_in_set)
  then have "hd ?ps \<in> set ipu6_isys_pfmts" "format_of_type (Some t) (hd ?ps)"
    by auto
  note dflt = this
  show thesis
  proof (cases "List.find (\<lambda>p. pixelformat p = pix) ?ps")
    case None
    then have "ipu6_isys_get_isys_format pix (Some t) = Some (hd ?ps)"
      using \<open>?ps \<noteq> []\<close> by (simp only: ipu6_isys_get_isys_format_def Let_def option.case if_False)
    then show thesis
      using that dflt by blast
  next
    case (Some q)
    then have "ipu6_isys_get_isys_format pix (Some t) = Some q"
      by (simp only: ipu6_isys_get_isys_format_def Let_def option.case)
    moreover have "q \<in> set ?ps"
      using find_some_iff_nth [OF Some] by simp
    ultimately show thesis
      using that by auto
  qed
qed

text \<open>A format that is found is found again under its own name.\<close>

lemma get_isys_format_again:
  assumes "p \<in> set ipu6_isys_pfmts" "format_of_type ty p"
  shows "ipu6_isys_get_isys_format (pixelformat p) ty = Some p"
proof -
  let ?ps = "filter (format_of_type ty) ipu6_isys_pfmts"
  have p: "p \<in> set ?ps"
    using assms by simp
  then obtain q where q: "List.find (\<lambda>q. pixelformat q = pixelformat p) ?ps = Some q"
    by (cases "List.find (\<lambda>q. pixelformat q = pixelformat p) ?ps") (auto simp: find_None_iff)
  with p pfmts_distinct have "q = p"
    using find_some_iff_nth [OF q] by (auto simp: distinct_map inj_on_def)
  with q show ?thesis
    by (simp add: ipu6_isys_get_isys_format_def Let_def)
qed

section \<open>Sizes\<close>

lemma clamp_bounds: "lo \<le> hi \<Longrightarrow> lo \<le> clamp v lo hi \<and> clamp v lo hi \<le> hi"
  by (auto simp: clamp_def)

lemma clamp_again: "lo \<le> hi \<Longrightarrow> clamp (clamp v lo hi) lo hi = clamp v lo hi"
  by (auto simp: clamp_def)

lemma low6_clear: "x AND NOT (63 :: u32) = push_bit 6 (drop_bit 6 x)"
proof -
  have "(63 :: u32) = mask 6"
    by (simp add: mask_eq_exp_minus_1)
  then show ?thesis
    by (simp add: bit_eq_iff bit_simps) auto
qed

lemma unat_align_64:
  assumes "unat x + 63 < 2 ^ 32"
  shows "unat (align_64 x) = (unat x + 63) div 64 * 64"
proof -
  have s: "unat (x + 63) = unat x + 63"
    using assms by (simp add: unat_add_no_wrap)
  have d: "unat (drop_bit 6 (x + 63)) = (unat x + 63) div 64"
    using s by (simp add: unat_drop_bit)
  then have "unat (push_bit 6 (drop_bit 6 (x + 63))) = (unat x + 63) div 64 * 64"
    using assms div_times_less_eq_dividend [of "unat x + 63" 64]
    by (subst unat_push_bit_no_wrap) (simp_all add: d)
  then show ?thesis
    by (simp only: align_64_def low6_clear)
qed

lemma unat_div_round_up_8:
  assumes "unat n + 7 < 2 ^ 32"
  shows "unat (DIV_ROUND_UP n 8) = (unat n + 7) div 8"
proof -
  have "n + 8 - 1 = n + 7"
    by simp
  then show ?thesis
    using assms by (simp add: DIV_ROUND_UP_def unat_div unat_add_no_wrap)
qed

text \<open>The bytes of a line before the alignment, as a number.\<close>

definition line_bytes :: "ipu6_isys_pixelformat \<Rightarrow> nat \<Rightarrow> nat" where
  "line_bytes p w = (if bpp p \<noteq> bpp_packed p then w * ((unat (bpp p) + 7) div 8) else (w * unat (bpp p) + 7) div 8)"

definition raw_bpl :: "ipu6_isys_pixelformat \<Rightarrow> u32 \<Rightarrow> u32" where
  "raw_bpl p w = (if bpp p \<noteq> bpp_packed p then w * DIV_ROUND_UP (bpp p) 8 else DIV_ROUND_UP (w * bpp p) 8)"

lemma unat_bpp:
  assumes "pfmt_ok p"
  shows "unat (bpp p) \<in> {8, 10, 12, 16, 24, 32}"
  using assms by (auto simp: pfmt_ok_def)

lemma unat_raw_bpl:
  assumes "pfmt_ok p" "unat w \<le> 4672"
  shows "unat (raw_bpl p w) = line_bytes p (unat w)" "line_bytes p (unat w) \<le> 18688"
    "unat w * unat (bpp p) \<le> 8 * line_bytes p (unat w)"
proof -
  have b: "unat (bpp p) \<in> {8, 10, 12, 16, 24, 32}"
    by (rule unat_bpp [OF assms(1)])
  then have r: "unat (DIV_ROUND_UP (bpp p) 8) = (unat (bpp p) + 7) div 8"
    by (intro unat_div_round_up_8) auto
  have m: "unat (w * DIV_ROUND_UP (bpp p) 8) = unat w * ((unat (bpp p) + 7) div 8)"
    using b assms(2) by (subst unat_mult_no_wrap) (auto simp: r)
  have n: "unat (w * bpp p) = unat w * unat (bpp p)"
    using b assms(2) by (subst unat_mult_no_wrap) auto
  then have "unat (DIV_ROUND_UP (w * bpp p) 8) = (unat w * unat (bpp p) + 7) div 8"
    using b assms(2) by (subst unat_div_round_up_8) auto
  with m show "unat (raw_bpl p w) = line_bytes p (unat w)"
    unfolding raw_bpl_def line_bytes_def by presburger
  show "line_bytes p (unat w) \<le> 18688" "unat w * unat (bpp p) \<le> 8 * line_bytes p (unat w)"
    using b assms(2) by (auto simp: line_bytes_def)
qed

lemma try_fmt_cap_some:
  assumes "ipu6_isys_get_isys_format pix (Some t) = Some p"
    and "w = clamp width IPU6_ISYS_MIN_WIDTH IPU6_ISYS_MAX_WIDTH" "h = clamp height IPU6_ISYS_MIN_HEIGHT IPU6_ISYS_MAX_HEIGHT"
  shows "ipu6_isys_try_fmt_cap t pix width height =
    Some (pixelformat p, w, h, align_64 (raw_bpl p w),
          align_64 (raw_bpl p w) * h + max (align_64 (raw_bpl p w)) IPU6_ISYS_OVERALLOC_MIN)"
  using assms by (simp add: ipu6_isys_try_fmt_cap_def raw_bpl_def Let_def)

lemma unat_max: "unat (max a b) = max (unat a) (unat (b :: 'a::len word))"
  by (simp add: max_def word_le_nat_alt)

lemma image_size:
  assumes "unat bpl \<le> 18752" "unat h \<le> 3416"
  shows "unat (bpl * h + max bpl IPU6_ISYS_OVERALLOC_MIN) = unat bpl * unat h + max (unat bpl) 1024"
proof -
  have "unat bpl * unat h \<le> 18752 * 3416"
    using assms by (intro mult_mono) auto
  then have p: "unat (bpl * h) = unat bpl * unat h" and le: "unat bpl * unat h \<le> 64056832"
    by (auto simp: unat_mult_no_wrap)
  have m: "unat (max bpl IPU6_ISYS_OVERALLOC_MIN) = max (unat bpl) 1024"
    by (simp add: unat_max ipu4_consts)
  show ?thesis
    using p m le assms by (subst unat_add_no_wrap) auto
qed

text \<open>
  C26: Whatever size and format an application asks for, trying the format gives one of the
  node's type from the table, with width and height in range; a line is a multiple of 64 bytes,
  less than 64 bytes longer than the pixels need, and the image size is that of all lines
  and one line or 1024 bytes more, without overflow. Trying the result again changes nothing.
\<close>

theorem try_fmt_in_bounds:
  "\<exists>p w h bpl sz.
     ipu6_isys_try_fmt_cap (if meta then V4L2_BUF_TYPE_META_CAPTURE else V4L2_BUF_TYPE_VIDEO_CAPTURE) pix width height
       = Some (pixelformat p, w, h, bpl, sz) \<and>
     p \<in> set ipu6_isys_pfmts \<and> is_meta p = meta \<and> 2 \<le> w \<and> w \<le> 4672 \<and> 1 \<le> h \<and> h \<le> 3416 \<and>
     64 dvd unat bpl \<and> unat w * unat (bpp p) \<le> 8 * unat bpl \<and> unat bpl < line_bytes p (unat w) + 64 \<and>
     unat sz = unat bpl * unat h + max (unat bpl) 1024 \<and>
     ipu6_isys_try_fmt_cap (if meta then V4L2_BUF_TYPE_META_CAPTURE else V4L2_BUF_TYPE_VIDEO_CAPTURE) (pixelformat p) w h
       = Some (pixelformat p, w, h, bpl, sz)"
proof -
  let ?t = "if meta then V4L2_BUF_TYPE_META_CAPTURE else V4L2_BUF_TYPE_VIDEO_CAPTURE"
  have "?t \<noteq> OTHER_BUF_TYPE"
    by simp
  then obtain p where p: "ipu6_isys_get_isys_format pix (Some ?t) = Some p" "p \<in> set ipu6_isys_pfmts"
    "format_of_type (Some ?t) p"
    by (rule get_isys_format_some)
  define w h where "w = clamp width IPU6_ISYS_MIN_WIDTH IPU6_ISYS_MAX_WIDTH"
    and "h = clamp height IPU6_ISYS_MIN_HEIGHT IPU6_ISYS_MAX_HEIGHT"
  define bpl where "bpl = align_64 (raw_bpl p w)"
  have w: "2 \<le> w" "w \<le> 4672" and h: "1 \<le> h" "h \<le> 3416"
    using clamp_bounds [of IPU6_ISYS_MIN_WIDTH IPU6_ISYS_MAX_WIDTH width]
      clamp_bounds [of IPU6_ISYS_MIN_HEIGHT IPU6_ISYS_MAX_HEIGHT height]
    by (simp_all add: w_def h_def ipu4_consts)
  have uw: "unat w \<le> 4672" and uh: "unat h \<le> 3416"
    using w h by (simp_all add: word_le_nat_alt)
  note r = unat_raw_bpl [OF pfmts_ok [OF p(2)] uw]
  have b: "unat bpl = (line_bytes p (unat w) + 63) div 64 * 64"
    using r unat_align_64 [of "raw_bpl p w"] by (simp add: bpl_def)
  have b1: "line_bytes p (unat w) \<le> unat bpl" "unat bpl < line_bytes p (unat w) + 64"
    unfolding b by linarith+
  note first = try_fmt_cap_some [OF p(1) w_def h_def]
  have "clamp w IPU6_ISYS_MIN_WIDTH IPU6_ISYS_MAX_WIDTH = w" "clamp h IPU6_ISYS_MIN_HEIGHT IPU6_ISYS_MAX_HEIGHT = h"
    unfolding w_def h_def by (rule clamp_again, simp add: ipu4_consts)+
  then have again: "ipu6_isys_try_fmt_cap ?t (pixelformat p) w h =
    Some (pixelformat p, w, h, bpl, bpl * h + max bpl IPU6_ISYS_OVERALLOC_MIN)"
    using try_fmt_cap_some [OF get_isys_format_again [OF p(2,3)], of w w h h] by (simp add: bpl_def)
  have sz: "unat (bpl * h + max bpl IPU6_ISYS_OVERALLOC_MIN) = unat bpl * unat h + max (unat bpl) 1024"
    using b1 r(2) uh by (intro image_size) linarith+
  have meta: "is_meta p = meta"
    using p(3) by (auto simp: format_of_type_def split: if_splits)
  show ?thesis
    by (rule exI [of _ p], rule exI [of _ w], rule exI [of _ h], rule exI [of _ bpl],
        rule exI [of _ "bpl * h + max bpl IPU6_ISYS_OVERALLOC_MIN"])
      (use first again p(2) meta w h b b1 r(3) sz in \<open>simp add: bpl_def [symmetric]\<close>)
qed

section \<open>Setting the format of a node\<close>

text \<open>
  While buffers are allocated, setting the format of a video node succeeds and installs
  the application's structure as it is, although trying the same format is refused; the size
  of the buffers is then the application's, so that a buffer of any size passes the check
  that it can hold an image, and the number of bytes said to be in it is unrelated to it.
\<close>

theorem s_fmt_busy_unchecked:
  assumes "vbq_busy av" "vbq_type av = V4L2_BUF_TYPE_VIDEO_CAPTURE"
  shows "ipu6_isys_vidioc_try_fmt_vid_cap t f av = Some (Inl EBUSY, f) \<and>
    ipu6_isys_vidioc_s_fmt_vid_cap t f av = Some (ok, av\<lparr>pix_fmt := f\<rparr>) \<and>
    ipu6_isys_buf_prepare plane (av\<lparr>pix_fmt := f\<lparr>sizeimage := 0\<rparr>\<rparr>) = Inr (bytesperline f * pix_height f)"
  using assms
  by (simp add: ipu6_isys_vidioc_s_fmt_vid_cap_def ipu6_isys_vidioc_try_fmt_vid_cap_def ipu6_isys_buf_prepare_def
      ipu6_isys_get_data_size_def ipu6_isys_get_bytes_per_line_def ipu6_isys_get_frame_height_def)

definition ex_pix :: v4l2_pix_format where
  "ex_pix = \<lparr>pix_width = 5000, pix_height = 5000, pix_format = V4L2_PIX_FMT_GREY, bytesperline = 4096, sizeimage = 0,
     pix_field = 0, colorspace = 0, ycbcr_enc = 0, quantization = 0, xfer_func = 0\<rparr>"

definition ex_busy :: video_fmt where
  "ex_busy = \<lparr>vbq_type = V4L2_BUF_TYPE_VIDEO_CAPTURE, vbq_busy = True, pix_fmt = ex_pix\<lparr>pix_width := 64\<rparr>,
     meta_fmt = \<lparr>dataformat = V4L2_META_FMT_GENERIC_8, buffersize = 0, meta_width = 2, meta_height = 1, meta_bytesperline = 64\<rparr>\<rparr>"

theorem s_fmt_busy_unchecked_witness:
  "ipu6_isys_vidioc_s_fmt_vid_cap V4L2_BUF_TYPE_VIDEO_CAPTURE ex_pix ex_busy = Some (ok, ex_busy\<lparr>pix_fmt := ex_pix\<rparr>) \<and>
   ipu6_isys_buf_prepare 4096 (ex_busy\<lparr>pix_fmt := ex_pix\<rparr>) = Inr 20480000"
  using s_fmt_busy_unchecked [of ex_busy V4L2_BUF_TYPE_VIDEO_CAPTURE ex_pix 4096]
  by (simp add: ex_busy_def ex_pix_def)

section \<open>Bayer orders\<close>

lemma code_map_index:
  assumes "j < 16"
  shows "index_of (code_map ! j) code_map = j"
proof -
  have "list_all (\<lambda>j. index_of (code_map ! j) code_map = j) [0..<16]"
    by code_simp
  with assms show ?thesis
    by (simp add: list_all_iff)
qed

lemma length_code_map [simp]: "length code_map = 16"
  by (simp add: code_map_def)

lemma index_of_le: "index_of c cs \<le> length cs"
  by (induction cs) auto

lemma xor_2_less: "i < 16 \<Longrightarrow> k < 4 \<Longrightarrow> (i XOR k :: nat) < 16"
proof -
  assume "i < 16" "k < 4"
  then have "take_bit 4 i = i" "take_bit 4 k = k"
    by (simp_all add: take_bit_nat_eq_self)
  then have "take_bit 4 (i XOR k) = i XOR k"
    by (simp add: take_bit_xor)
  then show ?thesis
    using take_bit_nat_less_exp [of 4 "i XOR k"] by simp
qed

text \<open>The position in the group of four orders.\<close>

definition bayer_pos :: "32 word \<Rightarrow> 32 word \<Rightarrow> nat" where
  "bayer_pos x y = unat (push_bit 1 (y AND 1) OR (x AND 1))"

lemma bayer_pos_parity: "bayer_pos x y = (if odd y then 2 else 0) + (if odd x then 1 else 0)"
  by (simp add: bayer_pos_def and_one_eq push_bit_eq_mult odd_iff_mod_2_eq_one even_iff_mod_2_eq_zero)

lemma bayer_pos_add: "bayer_pos x y XOR bayer_pos x' y' = bayer_pos (x + x') (y + y')"
  by (simp add: bayer_pos_parity)

text \<open>
  Moving an image by two offsets one after the other gives the Bayer order of moving it
  by their sum, for every bus code; a code that is not of a Bayer format stays.
\<close>

theorem bayer_order_moves:
  "ipu6_isys_convert_bayer_order (ipu6_isys_convert_bayer_order c x y) x' y' =
   ipu6_isys_convert_bayer_order c (x + x') (y + y')"
proof (cases "index_of c code_map = 16")
  case True
  then show ?thesis
    by (simp add: ipu6_isys_convert_bayer_order_def)
next
  case False
  let ?i = "index_of c code_map"
  have i: "?i < 16"
    using False index_of_le [of c code_map] by simp
  have pos: "bayer_pos a b < 4" for a b
    by (simp add: bayer_pos_parity)
  have one: "ipu6_isys_convert_bayer_order (code_map ! j) a b = code_map ! (j XOR bayer_pos a b)" if "j < 16" for j a b
    using that by (simp add: ipu6_isys_convert_bayer_order_def code_map_index bayer_pos_def)
  have c: "ipu6_isys_convert_bayer_order c a b = code_map ! (?i XOR bayer_pos a b)" for a b
    using i by (simp add: ipu6_isys_convert_bayer_order_def bayer_pos_def)
  show ?thesis
    by (simp add: c one [OF xor_2_less [OF i pos]] xor.assoc bayer_pos_add)
qed

end
