(* ===== verification/Isys_State.thy ===== *)
theory Isys_State
  imports Buttress Fw_Com
begin

unbundle bit_operations_syntax

text \<open>
  The state of the input system driver (\<^verbatim>\<open>kernel/ipu4/ipu6-isys.h\<close>, \<^verbatim>\<open>ipu6-isys-video.h\<close>,
  \<^verbatim>\<open>ipu6-isys-queue.h\<close>) and its two smallest parts: the pool of message buffers shared with the
  firmware (\<^verbatim>\<open>ipu6-isys.c\<close>) and the table of streams (\<^verbatim>\<open>ipu6-isys-video.c\<close>).
\<close>

section \<open>State\<close>

definition IPU4_ISYS_MAX_STREAMS :: nat where [ipu4_consts]: "IPU4_ISYS_MAX_STREAMS = 8"
definition IPU6_ISYS_OUTPUT_PINS :: nat where [ipu4_consts]: "IPU6_ISYS_OUTPUT_PINS = 11"
definition IPU6_ISYS_MAX_PARALLEL_SOF :: nat where [ipu4_consts]: "IPU6_ISYS_MAX_PARALLEL_SOF = 2"
definition NR_OF_VIDEO_DEVICE :: nat where [ipu4_consts]: "NR_OF_VIDEO_DEVICE = 31"

record sequence_info =
  si_sequence :: u32
  si_timestamp :: u64

text \<open>
  A stream. Sub-devices are named by the port of their CSI-2 receiver, queues by the number
  of their video device; NULL pointers are \<open>None\<close>.
\<close>

record ipu6_isys_stream =
  source_entity :: "nat option"
  st_sequence :: u32
  seq_index :: nat
  st_seq :: "sequence_info list"
  stream_source :: int
  st_handle :: nat
  nr_output_pins :: nat
  st_asd :: "nat option"
  nr_queues :: int
  nr_streaming :: int
  st_streaming :: bool
  st_queues :: "nat list"
  open_completion :: u32
  close_completion :: u32
  start_completion :: u32
  stop_completion :: u32
  output_pins_queue :: "nat option list"
  st_error :: u32
  st_vc :: u8

text \<open>A message buffer: its address, which is also the address of its payload, and its device address.\<close>

record isys_fw_msgs =
  msg_addr :: u64
  msg_dma :: u64

text \<open>
  The video buffers. Buffers are numbered; a queue has its two lists and its firmware pin.
  \<open>vb_owned\<close> says that videobuf2 has handed the buffer to the driver and not got it back;
  \<open>vb_result\<close> is the state with which it was given back last. The linked lists of the code are
  lists with the head first.
\<close>

datatype vb2_buffer_state = VB2_BUF_STATE_QUEUED | VB2_BUF_STATE_DONE | VB2_BUF_STATE_ERROR

record isys_buffers =
  q_incoming :: "nat \<Rightarrow> nat list"
  q_active :: "nat \<Rightarrow> nat list"
  q_fw_output :: "nat \<Rightarrow> nat"
  str2mmio_flag :: "nat \<Rightarrow> bool"
  vb_timestamp :: "nat \<Rightarrow> u64"
  vb_sequence :: "nat \<Rightarrow> u32"
  vb_owned :: "nat \<Rightarrow> bool"
  vb_result :: "nat \<Rightarrow> vb2_buffer_state option"

text \<open>
  The input system. Video nodes are numbered like their queues. \<open>frame_events\<close> are the
  frame synchronisation events that were queued for applications, with the port of the receiver,
  the newest first; \<open>wild\<close> records that the code followed a pointer that does not lead to
  an object of the expected kind, \<open>stuck\<close> that an interrupt handler did not return.
\<close>

record 'd ipu6_isys =
  isp :: "'d ipu6_device"
  i_power :: bool
  isr_csi2_bits :: u32
  streams :: "ipu6_isys_stream list"
  streams_ref_count :: "int list"
  fwcom :: "'d ipu6_fw_com_context option"
  need_reset :: bool
  resetting :: bool
  icache_prefetch :: bool
  isys_ref_count :: u32
  stream_opened :: u32
  framebuflist :: "isys_fw_msgs list"
  framebuflist_fw :: "isys_fw_msgs list"
  receiver_errors :: "u32 list"
  av_streaming :: "nat \<Rightarrow> bool"
  av_stream :: "nat \<Rightarrow> nat option"
  av_source_stream :: "nat \<Rightarrow> u32"
  av_vc :: "nat \<Rightarrow> u8"
  av_dt :: "nat \<Rightarrow> u8"
  av_pipeline :: "nat \<Rightarrow> nat option"
  frame_events :: "(nat \<times> u32) list"
  ibufs :: isys_buffers
  wild :: bool
  stuck :: bool

text \<open>
  The environment: the buttress with the registers, the mapping of the input system, the
  allocator of coherent memory (\<^verbatim>\<open>ipu6_dma_alloc\<close> and \<^verbatim>\<open>ipu6_dma_free\<close>), host memory as the CPU sees it,
  the buffers' numbers, queues and device addresses, the number of interrupts that arrive
  during a wait, the number of rounds of an interrupt handler after which it counts as not
  returning, the kernel's clock, whether the \<open>n\<close>-th small allocation of a function succeeds,
  the package directory with its device address, the device address of the firmware image
  and the image.
\<close>

record 'd isys_env =
  btrs :: "'d btrs_env"
  ibase :: u64
  nports :: nat
  dma_get :: "u64 \<Rightarrow> ('d, (u64 \<times> u64) option) state"
  dma_put :: "u64 \<Rightarrow> u64 \<Rightarrow> u64 \<Rightarrow> ('d, unit) state"
  host_store :: "u64 \<Rightarrow> u8 list \<Rightarrow> 'd \<Rightarrow> 'd"
  host_load :: "u64 \<Rightarrow> nat \<Rightarrow> 'd \<Rightarrow> u8 list"
  vb_queue :: "nat \<Rightarrow> nat"
  vb_index :: "nat \<Rightarrow> u32"
  vb_dma_addr :: "nat \<Rightarrow> u64"
  stream_irqs :: "'d \<Rightarrow> nat"
  isr_rounds :: nat
  ktime_ns :: "'d \<Rightarrow> u64"
  kzalloc_ok :: "nat \<Rightarrow> 'd \<Rightarrow> bool"
  dma_sync_fn :: "u64 \<Rightarrow> u64 \<Rightarrow> ('d, unit) state"
  pkg_dir :: "nat \<Rightarrow> u64"
  pkg_dir_dma_addr :: u64
  fw_sgt_dma :: u64
  cpd_fw_data :: "u8 list"

text \<open>Computations on the device and on the buttress state inside the input system.\<close>

definition on_isp :: "('d ipu6_device, 'a) state \<Rightarrow> ('d ipu6_isys, 'a) state" where
  "on_isp m = State (\<lambda>s. let (a, p) = run_state m (isp s) in (a, s\<lparr>isp := p\<rparr>))"

definition on_dev :: "('d, 'a) state \<Rightarrow> ('d ipu6_isys, 'a) state" where
  "on_dev m = on_isp (State (\<lambda>p. let (a, d) = run_state m (hw p) in (a, p\<lparr>hw := d\<rparr>)))"

definition gets :: "('s \<Rightarrow> 'a) \<Rightarrow> ('s, 'a) state" where
  "gets f = State (\<lambda>s. (f s, s))"

definition modify :: "('s \<Rightarrow> 's) \<Rightarrow> ('s, unit) state" where
  "modify f = State (\<lambda>s. ((), f s))"

lemma run_gets [simp]: "run_state (gets f) s = (f s, s)"
  by (simp add: gets_def)

lemma run_modify [simp]: "run_state (modify f) s = ((), f s)"
  by (simp add: modify_def)

lemma run_on_isp [simp]:
  "run_state (on_isp m) s = (fst (run_state m (isp s)), s\<lparr>isp := snd (run_state m (isp s))\<rparr>)"
  by (simp add: on_isp_def case_prod_beta)

lemma run_on_dev [simp]:
  "run_state (on_dev m) s = (fst (run_state m (hw (isp s))),
     s\<lparr>isp := (isp s)\<lparr>hw := snd (run_state m (hw (isp s)))\<rparr>\<rparr>)"
  by (simp add: on_dev_def case_prod_beta)

section \<open>Message buffers\<close>

text \<open>
  The size of \<^verbatim>\<open>struct isys_fw_msgs\<close>: the larger member of the union, 316 bytes, aligned to 8, a
  list head and an address.
\<close>

definition sizeof_isys_fw_msgs :: u64 where
  "sizeof_isys_fw_msgs = 344"

fun alloc_msgs_loop :: "'d isys_env \<Rightarrow> nat \<Rightarrow> ('d ipu6_isys, bool) state" where
  "alloc_msgs_loop env 0 = State_Monad.return True"
| "alloc_msgs_loop env (Suc n) = do {
     r \<leftarrow> on_dev (dma_get env sizeof_isys_fw_msgs);
     case r of
       None \<Rightarrow> State_Monad.return False
     | Some (addr, da) \<Rightarrow> do {
         modify (\<lambda>s. s\<lparr>framebuflist := \<lparr>msg_addr = addr, msg_dma = da\<rparr> # framebuflist s\<rparr>);
         alloc_msgs_loop env n } }"

fun free_msgs :: "'d isys_env \<Rightarrow> isys_fw_msgs list \<Rightarrow> ('d ipu6_isys, unit) state" where
  "free_msgs env [] = State_Monad.return ()"
| "free_msgs env (m # ms) = do {
     on_dev (dma_put env sizeof_isys_fw_msgs (msg_addr m) (msg_dma m));
     free_msgs env ms }"

definition alloc_fw_msg_bufs :: "'d isys_env \<Rightarrow> nat \<Rightarrow> ('d ipu6_isys, unit res) state" where
  "alloc_fw_msg_bufs env amount = do {
     all \<leftarrow> alloc_msgs_loop env amount;
     if all then State_Monad.return ok
     else do {
       ms \<leftarrow> gets framebuflist;
       modify (\<lambda>s. s\<lparr>framebuflist := []\<rparr>);
       free_msgs env ms;
       State_Monad.return (Inl ENOMEM) } }"

text \<open>At the end the entries are freed and stay on the lists, which are not used any more.\<close>

definition free_fw_msg_bufs :: "'d isys_env \<Rightarrow> ('d ipu6_isys, unit) state" where
  "free_fw_msg_bufs env = do {
     ms \<leftarrow> gets framebuflist;
     free_msgs env ms;
     ms \<leftarrow> gets framebuflist_fw;
     free_msgs env ms }"

text \<open>Taking the last free buffer, and clearing it.\<close>

definition take_msg :: "'d isys_env \<Rightarrow> ('d ipu6_isys, isys_fw_msgs) state" where
  "take_msg env = do {
     msg \<leftarrow> gets (\<lambda>s. last (framebuflist s));
     modify (\<lambda>s. s\<lparr>framebuflist := butlast (framebuflist s), framebuflist_fw := msg # framebuflist_fw s\<rparr>);
     on_dev (State (\<lambda>d. ((), host_store env (msg_addr msg) (replicate 320 0) d)));
     State_Monad.return msg }"

definition ipu6_get_fw_msg_buf :: "'d isys_env \<Rightarrow> ('d ipu6_isys, isys_fw_msgs option) state" where
  "ipu6_get_fw_msg_buf env = do {
     free \<leftarrow> gets framebuflist;
     ret \<leftarrow> (if free = [] then alloc_fw_msg_bufs env 5 else State_Monad.return ok);
     case ret of
       Inl _ \<Rightarrow> State_Monad.return None
     | Inr _ \<Rightarrow> do {
         free \<leftarrow> gets framebuflist;
         if free = [] then State_Monad.return None
         else do {
           msg \<leftarrow> take_msg env;
           State_Monad.return (Some msg) } } }"

definition ipu6_cleanup_fw_msg_bufs :: "('d ipu6_isys, unit) state" where
  "ipu6_cleanup_fw_msg_bufs =
     modify (\<lambda>s. s\<lparr>framebuflist := rev (framebuflist_fw s) @ framebuflist s, framebuflist_fw := []\<rparr>)"

text \<open>
  A buffer is given back by its address. The code takes the address for a list entry; when
  it is not one, the list operation runs on foreign memory.
\<close>

definition ipu6_put_fw_msg_buf :: "u64 \<Rightarrow> ('d ipu6_isys, unit) state" where
  "ipu6_put_fw_msg_buf data =
     modify (\<lambda>s.
       if data = 0 then s
       else case List.find (\<lambda>m. msg_addr m = data) (framebuflist s @ framebuflist_fw s) of
         None \<Rightarrow> s\<lparr>wild := True\<rparr>
       | Some msg \<Rightarrow> s\<lparr>framebuflist := msg # remove1 msg (framebuflist s),
                       framebuflist_fw := remove1 msg (framebuflist_fw s)\<rparr>)"

section \<open>The table of streams\<close>

definition ref_live :: "'d ipu6_isys \<Rightarrow> nat \<Rightarrow> bool" where
  "ref_live s i \<longleftrightarrow> streams_ref_count s ! i \<noteq> 0"

definition add_ref :: "nat \<Rightarrow> int \<Rightarrow> 'd ipu6_isys \<Rightarrow> 'd ipu6_isys" where
  "add_ref i k s = s\<lparr>streams_ref_count := (streams_ref_count s)[i := streams_ref_count s ! i + k]\<rparr>"

definition stream_ids :: "nat list" where
  "stream_ids = [0..<IPU4_ISYS_MAX_STREAMS]"

definition ipu6_isys_put_stream :: "nat \<Rightarrow> ('d ipu6_isys, unit) state" where
  "ipu6_isys_put_stream i =
     modify (\<lambda>s. if streams_ref_count s ! i > 0 then add_ref i (- 1) s else s)"

definition ipu6_isys_get_stream :: "u8 \<Rightarrow> nat \<Rightarrow> ('d ipu6_isys, nat option) state" where
  "ipu6_isys_get_stream vc asd = State (\<lambda>s.
     case List.find (\<lambda>i. ref_live s i \<and> st_vc (streams s ! i) = vc \<and> st_asd (streams s ! i) = Some asd) stream_ids of
       Some i \<Rightarrow> (Some i, add_ref i 1 s)
     | None \<Rightarrow>
       (case List.find (\<lambda>i. \<not> ref_live s i) stream_ids of
          None \<Rightarrow> (None, s)
        | Some i \<Rightarrow> (Some i, (add_ref i 1 s)\<lparr>streams :=
            (streams s)[i := (streams s ! i)\<lparr>st_vc := vc, st_asd := Some asd\<rparr>]\<rparr>)))"

definition ipu6_isys_query_stream_by_handle :: "u8 \<Rightarrow> ('d ipu6_isys, nat option) state" where
  "ipu6_isys_query_stream_by_handle h = State (\<lambda>s.
     if unat h \<ge> IPU4_ISYS_MAX_STREAMS then (None, s)
     else if streams_ref_count s ! unat h > 0 then (Some (unat h), add_ref (unat h) 1 s)
     else (None, s))"

definition ipu6_isys_query_stream_by_source :: "int \<Rightarrow> u8 \<Rightarrow> ('d ipu6_isys, nat option) state" where
  "ipu6_isys_query_stream_by_source source vc = State (\<lambda>s.
     if source < 0 then (None, s)
     else case List.find (\<lambda>i. ref_live s i \<and> stream_source (streams s ! i) = source \<and> st_vc (streams s ! i) = vc) stream_ids of
       None \<Rightarrow> (None, s)
     | Some i \<Rightarrow> (Some i, add_ref i 1 s))"

text \<open>The initial streams, in memory that is zero before: no receiver, and the virtual channel that none has.\<close>

definition init_stream :: "nat \<Rightarrow> ipu6_isys_stream" where
  "init_stream i = \<lparr>source_entity = None, st_sequence = 0, seq_index = 0,
     st_seq = replicate IPU6_ISYS_MAX_PARALLEL_SOF \<lparr>si_sequence = 0, si_timestamp = 0\<rparr>,
     stream_source = 0, st_handle = i, nr_output_pins = 0, st_asd = None, nr_queues = 0, nr_streaming = 0,
     st_streaming = False, st_queues = [], open_completion = 0, close_completion = 0, start_completion = 0,
     stop_completion = 0, output_pins_queue = replicate IPU6_ISYS_OUTPUT_PINS None, st_error = 0, st_vc = - 1\<rparr>"

definition isys_stream_init :: "('d ipu6_isys, unit) state" where
  "isys_stream_init = modify (\<lambda>s. s\<lparr>streams := map init_stream stream_ids\<rparr>)"

definition upd_stream :: "nat \<Rightarrow> (ipu6_isys_stream \<Rightarrow> ipu6_isys_stream) \<Rightarrow> 'd ipu6_isys \<Rightarrow> 'd ipu6_isys" where
  "upd_stream i f s = s\<lparr>streams := (streams s)[i := f (streams s ! i)]\<rparr>"

end
