(* ===== verification/Isys_Queue.thy ===== *)
theory Isys_Queue
  imports Isys_State
begin

unbundle bit_operations_syntax

text \<open>
  The lists of video buffers, \<^verbatim>\<open>kernel/ipu4/ipu6-isys-queue.c\<close>: moving buffers between the incoming
  and the active list of their queue, handing them to the firmware and completing them
  when the firmware reports a frame.
\<close>

section \<open>Moving buffers\<close>

definition IPU6_ISYS_BUFFER_LIST_FL_INCOMING :: u32 where [ipu4_consts]: "IPU6_ISYS_BUFFER_LIST_FL_INCOMING = 0x1"
definition IPU6_ISYS_BUFFER_LIST_FL_ACTIVE :: u32 where [ipu4_consts]: "IPU6_ISYS_BUFFER_LIST_FL_ACTIVE = 0x2"
definition IPU6_ISYS_BUFFER_LIST_FL_SET_STATE :: u32 where [ipu4_consts]: "IPU6_ISYS_BUFFER_LIST_FL_SET_STATE = 0x4"

text \<open>\<^verbatim>\<open>vb2_buffer_done\<close> only warns about a buffer that the driver does not own.\<close>

definition vb2_buffer_done :: "nat \<Rightarrow> vb2_buffer_state \<Rightarrow> isys_buffers \<Rightarrow> isys_buffers" where
  "vb2_buffer_done b st bs =
     (if vb_owned bs b
      then bs\<lparr>vb_owned := (vb_owned bs)(b := False), vb_result := (vb_result bs)(b := Some st)\<rparr>
      else bs)"

fun ipu6_isys_buffer_list_queue ::
  "'d isys_env \<Rightarrow> nat list \<Rightarrow> u32 \<Rightarrow> vb2_buffer_state \<Rightarrow> isys_buffers \<Rightarrow> isys_buffers" where
  "ipu6_isys_buffer_list_queue env [] op_flags st bs = bs"
| "ipu6_isys_buffer_list_queue env (ib # bl) op_flags st bs =
     (let q = vb_queue env ib;
          bs1 = (if op_flags AND IPU6_ISYS_BUFFER_LIST_FL_ACTIVE \<noteq> 0
                 then bs\<lparr>q_active := (q_active bs)(q := ib # q_active bs q)\<rparr>
                 else if op_flags AND IPU6_ISYS_BUFFER_LIST_FL_INCOMING \<noteq> 0
                 then bs\<lparr>q_incoming := (q_incoming bs)(q := q_incoming bs q @ [ib])\<rparr>
                 else bs);
          bs2 = (if op_flags AND IPU6_ISYS_BUFFER_LIST_FL_SET_STATE \<noteq> 0
                 then vb2_buffer_done ib st bs1 else bs1)
      in ipu6_isys_buffer_list_queue env bl op_flags st bs2)"

text \<open>A buffer that videobuf2 hands over goes to the front of the incoming list.\<close>

definition enqueue_incoming :: "'d isys_env \<Rightarrow> nat \<Rightarrow> isys_buffers \<Rightarrow> isys_buffers" where
  "enqueue_incoming env b bs =
     (let q = vb_queue env b in bs\<lparr>q_incoming := (q_incoming bs)(q := b # q_incoming bs q)\<rparr>)"

text \<open>
  Taking the oldest incoming buffer of every queue of a stream; when a queue has none, the
  buffers taken so far are put back.
\<close>

fun buffer_list_get_loop ::
  "'d isys_env \<Rightarrow> nat list \<Rightarrow> nat list \<Rightarrow> isys_buffers \<Rightarrow> unit res \<times> nat list \<times> isys_buffers" where
  "buffer_list_get_loop env [] bl bs = (ok, bl, bs)"
| "buffer_list_get_loop env (q # qs) bl bs =
     (if q_incoming bs q = []
      then (Inl ENODATA, [],
            if bl \<noteq> [] then ipu6_isys_buffer_list_queue env bl IPU6_ISYS_BUFFER_LIST_FL_INCOMING VB2_BUF_STATE_QUEUED bs
            else bs)
      else buffer_list_get_loop env qs (last (q_incoming bs q) # bl)
             (bs\<lparr>q_incoming := (q_incoming bs)(q := butlast (q_incoming bs q))\<rparr>))"

definition buffer_list_get ::
  "'d isys_env \<Rightarrow> ipu6_isys_stream \<Rightarrow> isys_buffers \<Rightarrow> unit res \<times> nat list \<times> isys_buffers" where
  "buffer_list_get env st bs = buffer_list_get_loop env (st_queues st) [] bs"

text \<open>
  After a failed start: the active buffers of a queue go back to its incoming list when its
  video device is streaming, and to videobuf2 otherwise.
\<close>

fun flush_active :: "bool \<Rightarrow> nat \<Rightarrow> nat list \<Rightarrow> isys_buffers \<Rightarrow> isys_buffers" where
  "flush_active strm q [] bs = bs"
| "flush_active strm q (ib # ibs) bs =
     (let bs1 = bs\<lparr>q_active := (q_active bs)(q := remove1 ib (q_active bs q))\<rparr> in
      flush_active strm q ibs
        (if strm then bs1\<lparr>q_incoming := (q_incoming bs1)(q := ib # q_incoming bs1 q)\<rparr>
         else vb2_buffer_done ib VB2_BUF_STATE_QUEUED bs1))"

fun flush_queues :: "(nat \<Rightarrow> bool) \<Rightarrow> nat list \<Rightarrow> isys_buffers \<Rightarrow> isys_buffers" where
  "flush_queues strm [] bs = bs"
| "flush_queues strm (q # qs) bs = flush_queues strm qs (flush_active (strm q) q (q_active bs q) bs)"

definition flush_firmware_streamon_fail :: "nat \<Rightarrow> ('d ipu6_isys, unit) state" where
  "flush_firmware_streamon_fail i =
     modify (\<lambda>s. s\<lparr>ibufs := flush_queues (av_streaming s) (st_queues (streams s ! i)) (ibufs s)\<rparr>)"

text \<open>Giving all buffers of a queue back, the incoming ones first.\<close>

definition done_all :: "vb2_buffer_state \<Rightarrow> nat list \<Rightarrow> isys_buffers \<Rightarrow> isys_buffers" where
  "done_all st = fold (\<lambda>b. vb2_buffer_done b st)"

definition return_buffers :: "nat \<Rightarrow> vb2_buffer_state \<Rightarrow> ('d ipu6_isys, unit) state" where
  "return_buffers q st = modify (\<lambda>s.
     let bs = ibufs s;
         bs1 = done_all st (q_incoming bs q) (bs\<lparr>q_incoming := (q_incoming bs)(q := [])\<rparr>);
         bs2 = done_all st (q_active bs1 q) (bs1\<lparr>q_active := (q_active bs1)(q := [])\<rparr>)
     in s\<lparr>ibufs := bs2, need_reset := (need_reset s \<or> q_active bs1 q \<noteq> [])\<rparr>)"

section \<open>Buffers for the firmware\<close>

text \<open>A frame buffer set: for each output pin the buffer identifier, its address and a flag.\<close>

record output_pin_payload =
  pl_buf_id :: u64
  pl_addr :: u32
  pl_compress :: u32

record ipu4_fw_isys_frame_buff_set_abi =
  fb_output_pins :: "output_pin_payload list"
  send_irq_sof :: u8
  send_irq_eof :: u8
  send_irq_capture_ack :: u8
  send_irq_capture_done :: u8
  send_resp_sof :: u8
  send_resp_eof :: u8

definition IPU4_MAX_OPINS :: nat where [ipu4_consts]: "IPU4_MAX_OPINS = 6"

definition zero_frame_buff_set :: ipu4_fw_isys_frame_buff_set_abi where
  "zero_frame_buff_set = \<lparr>fb_output_pins = replicate IPU4_MAX_OPINS \<lparr>pl_buf_id = 0, pl_addr = 0, pl_compress = 0\<rparr>,
     send_irq_sof = 0, send_irq_eof = 0, send_irq_capture_ack = 0, send_irq_capture_done = 0,
     send_resp_sof = 0, send_resp_eof = 0\<rparr>"

definition ipu6_isys_buf_to_fw_frame_buf_pin ::
  "'d isys_env \<Rightarrow> isys_buffers \<Rightarrow> nat \<Rightarrow> ipu4_fw_isys_frame_buff_set_abi \<Rightarrow> ipu4_fw_isys_frame_buff_set_abi" where
  "ipu6_isys_buf_to_fw_frame_buf_pin env bs b fbs =
     (let pin = q_fw_output bs (vb_queue env b) in
      fbs\<lparr>fb_output_pins := (fb_output_pins fbs)[pin := (fb_output_pins fbs ! pin)
            \<lparr>pl_addr := ucast (vb_dma_addr env b), pl_buf_id := ucast (vb_index env b + 1)\<rparr>]\<rparr>)"

definition ipu6_isys_buf_to_fw_frame_buf ::
  "'d isys_env \<Rightarrow> isys_buffers \<Rightarrow> nat list \<Rightarrow> ipu4_fw_isys_frame_buff_set_abi \<Rightarrow> ipu4_fw_isys_frame_buff_set_abi" where
  "ipu6_isys_buf_to_fw_frame_buf env bs bl fbs =
     fold (ipu6_isys_buf_to_fw_frame_buf_pin env bs) bl
       (fbs\<lparr>send_irq_sof := 1, send_resp_sof := 1, send_irq_capture_ack := 1, send_irq_capture_done := 1,
            send_irq_eof := 1, send_resp_eof := 1\<rparr>)"

text \<open>The bytes of a set in memory: six pins of 16 bytes, 16 bytes for the process group, the flags.\<close>

definition encode_pin :: "output_pin_payload \<Rightarrow> u8 list" where
  "encode_pin p = le_bytes 8 (unat (pl_buf_id p)) @ le_bytes 4 (unat (pl_addr p)) @ le_bytes 4 (unat (pl_compress p))"

definition encode_frame :: "ipu4_fw_isys_frame_buff_set_abi \<Rightarrow> u8 list" where
  "encode_frame f = concat (map encode_pin (fb_output_pins f)) @ replicate 16 0 @
     [send_irq_sof f, send_irq_eof f, send_irq_capture_ack f, send_irq_capture_done f,
      send_resp_sof f, send_resp_eof f, 0, 0]"

section \<open>A frame is ready\<close>

definition get_sof_sequence_by_timestamp :: "ipu6_isys_stream \<Rightarrow> u64 \<Rightarrow> u32" where
  "get_sof_sequence_by_timestamp st time =
     (if time = 0 then st_sequence st - 1
      else case List.find (\<lambda>e. si_timestamp e = time) (take IPU6_ISYS_MAX_PARALLEL_SOF (st_seq st)) of
        Some e \<Rightarrow> si_sequence e
      | None \<Rightarrow> 0)"

definition get_sof_ns_delta :: "'d isys_env \<Rightarrow> u64 \<Rightarrow> ('d ipu6_isys, u64) state" where
  "get_sof_ns_delta env timestamp = do {
     tsc_now \<leftarrow> on_isp (ipu6_buttress_tsc_read (btrs env));
     State_Monad.return (if tsc_now = 0 then 0 else ipu6_buttress_tsc_ticks_to_ns (tsc_now - timestamp)) }"

definition ipu6_isys_buf_calc_sequence_time :: "'d isys_env \<Rightarrow> nat \<Rightarrow> nat \<Rightarrow> u64 \<Rightarrow> ('d ipu6_isys, unit) state" where
  "ipu6_isys_buf_calc_sequence_time env i b time = do {
     now \<leftarrow> gets (\<lambda>s. ktime_ns env (hw (isp s)));
     delta \<leftarrow> get_sof_ns_delta env time;
     modify (\<lambda>s. s\<lparr>ibufs := (ibufs s)\<lparr>vb_timestamp := (vb_timestamp (ibufs s))(b := now - delta),
       vb_sequence := (vb_sequence (ibufs s))(b := get_sof_sequence_by_timestamp (streams s ! i) time)\<rparr>\<rparr>) }"

definition ipu6_isys_queue_buf_done :: "nat \<Rightarrow> isys_buffers \<Rightarrow> isys_buffers" where
  "ipu6_isys_queue_buf_done b bs =
     (if str2mmio_flag bs b
      then (vb2_buffer_done b VB2_BUF_STATE_ERROR bs)\<lparr>str2mmio_flag := (str2mmio_flag bs)(b := False)\<rparr>
      else vb2_buffer_done b VB2_BUF_STATE_DONE bs)"

text \<open>The oldest active buffer with the address that the firmware reports.\<close>

definition find_ready :: "'d isys_env \<Rightarrow> u32 \<Rightarrow> nat list \<Rightarrow> nat option" where
  "find_ready env addr act = List.find (\<lambda>b. ucast addr = vb_dma_addr env b) (rev act)"

definition ipu6_stream_buf_ready ::
  "'d isys_env \<Rightarrow> nat \<Rightarrow> nat \<Rightarrow> u32 \<Rightarrow> u64 \<Rightarrow> bool \<Rightarrow> ('d ipu6_isys, unit) state" where
  "ipu6_stream_buf_ready env i q addr time error_check = do {
     act \<leftarrow> gets (\<lambda>s. q_active (ibufs s) q);
     case find_ready env addr act of
       None \<Rightarrow> State_Monad.return ()
     | Some b \<Rightarrow> do {
         modify (\<lambda>s. s\<lparr>ibufs := (ibufs s)\<lparr>
           str2mmio_flag := (if error_check then (str2mmio_flag (ibufs s))(b := True) else str2mmio_flag (ibufs s)),
           q_active := (q_active (ibufs s))(q := remove1 b (q_active (ibufs s) q))\<rparr>\<rparr>);
         ipu6_isys_buf_calc_sequence_time env i b time;
         modify (\<lambda>s. s\<lparr>ibufs := ipu6_isys_queue_buf_done b (ibufs s)\<rparr>) } }"

section \<open>The text of the debug output\<close>

text \<open>
  \<^verbatim>\<open>_dump_queue_info\<close> collects the numbers of the buffers in an array of 64 characters. The
  kernel's \<^verbatim>\<open>snprintf\<close> returns the length of the whole text, written or not, and 0 for a size beyond
  \<^verbatim>\<open>INT_MAX\<close>. The last separator is overwritten with the end of the string.
\<close>

fun dec_digits :: "nat \<Rightarrow> nat" where
  "dec_digits n = (if n < 10 then 1 else Suc (dec_digits (n div 10)))"

declare dec_digits.simps [simp del]

definition snprintf_num :: "u64 \<Rightarrow> nat \<Rightarrow> nat" where
  "snprintf_num sz n = (if sz > 0x7fffffff then 0 else dec_digits n + 2)"

fun dump_len :: "u64 \<Rightarrow> nat list \<Rightarrow> u64" where
  "dump_len len [] = len"
| "dump_len len (n # ns) = dump_len (len + word_of_nat (snprintf_num (64 - len) n)) ns"

text \<open>The index at which the end of the string is stored.\<close>

definition dump_terminator :: "nat list \<Rightarrow> u64 option" where
  "dump_terminator ns = (let len = dump_len 0 ns in if len > 2 then Some (len - 2) else None)"

end
