(* ===== verification/Isys_Example.thy ===== *)
theory Isys_Example
  imports Isys_State Buttress_Props
begin

text \<open>
  A concrete input system, on the emulated device with plain memory, at which the theorems
  about the input system are instantiated. Buffers are numbered \<open>2 i + q\<close> for buffer \<open>i\<close> of
  queue \<open>q\<close>, \<open>q\<close> being 0 or 1.
\<close>

definition ex_bytes :: "u64 \<Rightarrow> u8 list \<Rightarrow> (nat \<Rightarrow> u8) \<Rightarrow> nat \<Rightarrow> u8" where
  "ex_bytes a bs m = (\<lambda>i. if unat a \<le> i \<and> i < unat a + length bs then bs ! (i - unat a) else m i)"

definition ex_ienv :: "(nat \<Rightarrow> u8) dev isys_env" where
  "ex_ienv = \<lparr>btrs = ex_btrs, ibase = 0x100000, nports = 6,
     dma_get = (\<lambda>_. State_Monad.return (Some (0x10000, 0x10000))), dma_put = (\<lambda>_ _ _. State_Monad.return ()),
     host_store = (\<lambda>a bs d. (fst d, ex_bytes a bs (snd d))),
     host_load = (\<lambda>a n d. map (\<lambda>i. snd d (unat a + i)) [0..<n]),
     vb_queue = (\<lambda>b. b mod 2), vb_index = (\<lambda>b. word_of_nat (b div 2)), vb_dma_addr = (\<lambda>b. 0x1000 * word_of_nat b),
     stream_irqs = (\<lambda>_. 0), isr_rounds = 10, ktime_ns = (\<lambda>_. 0), kzalloc_ok = (\<lambda>_ _. True), dma_sync_fn = (\<lambda>_ _. State_Monad.return ()),
     pkg_dir = (\<lambda>_. 0), pkg_dir_dma_addr = 0, fw_sgt_dma = 0, cpd_fw_data = []\<rparr>"

definition ex_ibufs :: isys_buffers where
  "ex_ibufs = \<lparr>q_incoming = (\<lambda>_. []), q_active = (\<lambda>_. []), q_fw_output = (\<lambda>_. 0), str2mmio_flag = (\<lambda>_. False),
     vb_timestamp = (\<lambda>_. 0), vb_sequence = (\<lambda>_. 0), vb_owned = (\<lambda>_. False), vb_result = (\<lambda>_. None)\<rparr>"

definition ex_isys :: "(nat \<Rightarrow> u8) dev ipu6_isys" where
  "ex_isys = \<lparr>isp = ex_isp (ipu4_reset, \<lambda>_. 0), i_power = True, isr_csi2_bits = 0, streams = map init_stream stream_ids,
     streams_ref_count = replicate 8 0, fwcom = None, need_reset = False, resetting = False, icache_prefetch = False, isys_ref_count = 0,
     stream_opened = 0, framebuflist = [], framebuflist_fw = [], receiver_errors = replicate 6 0,
     av_streaming = (\<lambda>_. False), av_stream = (\<lambda>_. None), av_source_stream = (\<lambda>_. 0), av_vc = (\<lambda>_. 0), av_dt = (\<lambda>_. 0),
     av_pipeline = (\<lambda>_. None), frame_events = [], ibufs = ex_ibufs, wild = False, stuck = False\<rparr>"

lemma ex_ienv_simps [simp]:
  "vb_queue ex_ienv b = b mod 2" "vb_dma_addr ex_ienv b = 0x1000 * word_of_nat b" "btrs ex_ienv = ex_btrs"
  "ibase ex_ienv = 0x100000" "kzalloc_ok ex_ienv n d"
  by (simp_all add: ex_ienv_def)

end
