(* ===== verification/Isys_Queue_Props.thy ===== *)
theory Isys_Queue_Props
  imports Isys_Queue Isys_Example "HOL-Library.Multiset"
begin

unbundle bit_operations_syntax

text \<open>
  Properties of the buffer lists: taking one buffer of each queue is all or nothing and takes
  the oldest, and every buffer that videobuf2 has handed over is in exactly one place.
\<close>

section \<open>Lists as queues\<close>

text \<open>
  The interface of a first-in first-out list: \<open>items\<close> are its elements in the order of
  arrival. A client that puts \<open>xs\<close> on an empty list takes them back in this order.
\<close>

locale fifo_list =
  fixes put :: "'a \<Rightarrow> 'l \<Rightarrow> 'l" and take1 :: "'l \<Rightarrow> ('a \<times> 'l) option" and items :: "'l \<Rightarrow> 'a list"
  assumes items_put: "items (put x l) = items l @ [x]"
    and take1_empty: "items l = [] \<Longrightarrow> take1 l = None"
    and take1_first: "items l = x # xs \<Longrightarrow> \<exists>l'. take1 l = Some (x, l') \<and> items l' = xs"
begin

lemma items_puts: "items (fold put xs l) = items l @ xs"
  by (induction xs arbitrary: l) (simp_all add: items_put)

lemma takes_in_order: "items l = [] \<Longrightarrow> take1 (fold put (x # xs) l) = Some (y, l') \<Longrightarrow> y = x \<and> items l' = xs"
  using take1_first [of "fold put (x # xs) l" x xs] items_puts [of "x # xs" l] by auto

end

definition take_last :: "'a list \<Rightarrow> ('a \<times> 'a list) option" where
  "take_last l = (if l = [] then None else Some (last l, butlast l))"

interpretation incoming: fifo_list "(#)" take_last rev
proof
  fix l xs :: "'a list" and x
  assume "rev l = x # xs"
  then have "l = rev xs @ [x]"
    by (simp add: rev_swap)
  then show "\<exists>l'. take_last l = Some (x, l') \<and> rev l' = xs"
    by (simp add: take_last_def)
qed (simp_all add: take_last_def)

section \<open>Taking a buffer of each queue\<close>

text \<open>The buffers on a queue's lists are buffers of this queue.\<close>

definition own_queue :: "'d isys_env \<Rightarrow> isys_buffers \<Rightarrow> bool" where
  "own_queue env bs \<longleftrightarrow> (\<forall>q. \<forall>b \<in> set (q_incoming bs q) \<union> set (q_active bs q). vb_queue env b = q)"

definition put_back :: "'d isys_env \<Rightarrow> nat list \<Rightarrow> isys_buffers \<Rightarrow> isys_buffers" where
  "put_back env bl = ipu6_isys_buffer_list_queue env bl IPU6_ISYS_BUFFER_LIST_FL_INCOMING VB2_BUF_STATE_QUEUED"

definition pop_incoming :: "nat \<Rightarrow> isys_buffers \<Rightarrow> isys_buffers" where
  "pop_incoming q bs = bs\<lparr>q_incoming := (q_incoming bs)(q := butlast (q_incoming bs q))\<rparr>"

lemma fl_flags:
  "IPU6_ISYS_BUFFER_LIST_FL_INCOMING AND IPU6_ISYS_BUFFER_LIST_FL_ACTIVE = 0"
  "IPU6_ISYS_BUFFER_LIST_FL_INCOMING AND IPU6_ISYS_BUFFER_LIST_FL_INCOMING \<noteq> 0"
  "IPU6_ISYS_BUFFER_LIST_FL_INCOMING AND IPU6_ISYS_BUFFER_LIST_FL_SET_STATE = 0"
  "IPU6_ISYS_BUFFER_LIST_FL_ACTIVE AND IPU6_ISYS_BUFFER_LIST_FL_ACTIVE \<noteq> 0"
  "IPU6_ISYS_BUFFER_LIST_FL_ACTIVE AND IPU6_ISYS_BUFFER_LIST_FL_SET_STATE = 0"
  by (simp_all add: ipu4_consts)

lemma put_back_simps [simp]:
  "put_back env [] bs = bs"
  "put_back env (b # bl) bs =
     put_back env bl (bs\<lparr>q_incoming := (q_incoming bs)(vb_queue env b := q_incoming bs (vb_queue env b) @ [b])\<rparr>)"
  using fl_flags by (simp_all add: put_back_def Let_def)

lemma put_back_popped:
  assumes "own_queue env bs" "q_incoming bs q \<noteq> []"
  shows "put_back env (last (q_incoming bs q) # bl) (pop_incoming q bs) = put_back env bl bs"
proof -
  have "vb_queue env (last (q_incoming bs q)) = q"
    using assms by (simp add: own_queue_def)
  then show ?thesis
    using assms(2) by (simp add: pop_incoming_def)
qed

lemma own_queue_pop: "own_queue env bs \<Longrightarrow> own_queue env (pop_incoming q bs)"
  by (auto simp: own_queue_def pop_incoming_def dest: in_set_butlastD)

lemma pop_incoming_other: "q \<noteq> q' \<Longrightarrow> q_incoming (pop_incoming q bs) q' = q_incoming bs q'"
  by (simp add: pop_incoming_def)

lemma list_get_loop_fails:
  assumes "own_queue env bs" "distinct qs" "q \<in> set qs" "q_incoming bs q = []"
  shows "buffer_list_get_loop env qs bl bs = (Inl ENODATA, [], put_back env bl bs)"
  using assms
proof (induction qs arbitrary: bl bs)
  case (Cons p qs)
  show ?case
  proof (cases "q_incoming bs p = []")
    case True
    then show ?thesis
      by (simp add: put_back_def)
  next
    case False
    then have "q \<noteq> p" "q \<in> set qs"
      using Cons.prems by auto
    then have "buffer_list_get_loop env qs (last (q_incoming bs p) # bl) (pop_incoming p bs) =
      (Inl ENODATA, [], put_back env (last (q_incoming bs p) # bl) (pop_incoming p bs))"
      using Cons.prems by (intro Cons.IH) (auto simp: own_queue_pop pop_incoming_other)
    then show ?thesis
      using False put_back_popped [OF Cons.prems(1) False] by (simp add: pop_incoming_def)
  qed
qed simp

lemma list_get_loop_takes:
  assumes "distinct qs" "\<forall>q \<in> set qs. q_incoming bs q \<noteq> []"
  shows "buffer_list_get_loop env qs bl bs =
    (ok, rev (map (\<lambda>q. last (q_incoming bs q)) qs) @ bl,
     bs\<lparr>q_incoming := (\<lambda>q. if q \<in> set qs then butlast (q_incoming bs q) else q_incoming bs q)\<rparr>)"
  using assms
proof (induction qs arbitrary: bl bs)
  case (Cons p qs)
  then have ne: "q_incoming bs p \<noteq> []" and p: "p \<notin> set qs" and d: "distinct qs"
    by auto
  have "map (\<lambda>q. last (q_incoming (pop_incoming p bs) q)) qs = map (\<lambda>q. last (q_incoming bs q)) qs"
    using p by (auto simp: pop_incoming_def)
  moreover have "\<forall>q \<in> set qs. q_incoming (pop_incoming p bs) q \<noteq> []"
    using Cons.prems(2) p by (auto simp: pop_incoming_def)
  ultimately show ?case
    using Cons.IH [OF d, of "pop_incoming p bs" "last (q_incoming bs p) # bl"] ne p
    by (auto simp: pop_incoming_def fun_eq_iff intro!: isys_buffers.fold_congs)
qed simp

text \<open>
  C22: Taking a list of buffers for the firmware is all or nothing. When every queue of the
  stream has an incoming buffer, the list holds of each queue the buffer that arrived first,
  and exactly these are gone from the incoming lists; when one has none, the result is
  ENODATA with an empty list and nothing has changed, the order of the buffers included.
\<close>

theorem buffer_list_all_or_nothing:
  assumes "own_queue env bs" "distinct (st_queues st)"
  shows "buffer_list_get env st bs =
    (if \<exists>q \<in> set (st_queues st). q_incoming bs q = [] then (Inl ENODATA, [], bs)
     else (ok, rev (map (\<lambda>q. hd (rev (q_incoming bs q))) (st_queues st)),
           bs\<lparr>q_incoming := (\<lambda>q. if q \<in> set (st_queues st) then butlast (q_incoming bs q) else q_incoming bs q)\<rparr>))"
proof (cases "\<exists>q \<in> set (st_queues st). q_incoming bs q = []")
  case True
  then show ?thesis
    using list_get_loop_fails [OF assms] by (auto simp: buffer_list_get_def)
next
  case False
  then show ?thesis
    using list_get_loop_takes [OF assms(2), of bs env "[]"] by (simp add: buffer_list_get_def hd_rev)
qed

definition ex_stream2 :: ipu6_isys_stream where
  "ex_stream2 = (init_stream 0)\<lparr>st_queues := [0, 1]\<rparr>"

text \<open>Queue 0 has the buffers 0 and 2, 0 the older one, and queue 1 has buffer 3.\<close>

definition ex_two :: isys_buffers where
  "ex_two = ex_ibufs\<lparr>q_incoming := (\<lambda>q. if q = 0 then [2, 0] else if q = 1 then [3] else [])\<rparr>"

theorem buffer_list_all_or_nothing_witness:
  "\<exists>bs'. buffer_list_get ex_ienv ex_stream2 ex_two = (ok, [3, 0], bs') \<and> q_incoming bs' 0 = [2] \<and>
     buffer_list_get ex_ienv ex_stream2 (ex_two\<lparr>q_incoming := (\<lambda>q. if q = 0 then [2, 0] else [])\<rparr>) =
       (Inl ENODATA, [], ex_two\<lparr>q_incoming := (\<lambda>q. if q = 0 then [2, 0] else [])\<rparr>)"
proof -
  have "own_queue ex_ienv ex_two" "own_queue ex_ienv (ex_two\<lparr>q_incoming := (\<lambda>q. if q = 0 then [2, 0] else [])\<rparr>)"
    by (auto simp: own_queue_def ex_two_def ex_ibufs_def)
  then show ?thesis
    using buffer_list_all_or_nothing [of ex_ienv ex_two ex_stream2]
      buffer_list_all_or_nothing [of ex_ienv "ex_two\<lparr>q_incoming := (\<lambda>q. if q = 0 then [2, 0] else [])\<rparr>" ex_stream2]
    by (auto simp: ex_stream2_def ex_two_def)
qed

section \<open>Every buffer is in one place\<close>

text \<open>
  How often buffer \<open>b\<close> is found as a buffer of queue \<open>q\<close>: on its two lists, or among the
  buffers \<open>bl\<close> that functions of the driver hold at the moment.
\<close>

definition held :: "'d isys_env \<Rightarrow> isys_buffers \<Rightarrow> nat list \<Rightarrow> nat \<Rightarrow> nat \<Rightarrow> nat" where
  "held env bs bl q b = count (mset (q_incoming bs q) + mset (q_active bs q)) b +
     (if vb_queue env b = q then count (mset bl) b else 0)"

text \<open>
  A buffer is at places of its own queue only, at one of them at least while it is the driver's,
  and at exactly one then and at none else unless it is one of \<open>E\<close>, the buffers that the error
  path of a start has given back and put on the incoming list as well.
\<close>

definition placed :: "'d isys_env \<Rightarrow> nat set \<Rightarrow> isys_buffers \<Rightarrow> nat list \<Rightarrow> nat \<Rightarrow> nat \<Rightarrow> bool" where
  "placed env E bs bl q b \<longleftrightarrow>
     (vb_queue env b \<noteq> q \<longrightarrow> held env bs bl q b = 0) \<and>
     (vb_queue env b = q \<and> vb_owned bs b \<longrightarrow> 1 \<le> held env bs bl q b) \<and>
     (vb_queue env b = q \<and> b \<notin> E \<longrightarrow> held env bs bl q b = (if vb_owned bs b then 1 else 0))"

definition buf_inv :: "'d isys_env \<Rightarrow> nat set \<Rightarrow> isys_buffers \<Rightarrow> nat list \<Rightarrow> bool" where
  "buf_inv env E bs bl \<longleftrightarrow> (\<forall>q b. placed env E bs bl q b)"

lemmas buf_inv_unfold = buf_inv_def placed_def

lemma buf_inv_own_queue:
  assumes "buf_inv env E bs bl"
  shows "own_queue env bs"
proof -
  have "vb_queue env b = q" if "b \<in> set (q_incoming bs q) \<union> set (q_active bs q)" for q b
  proof (rule ccontr)
    assume "vb_queue env b \<noteq> q"
    with assms have "held env bs bl q b = 0"
      by (simp add: buf_inv_unfold)
    with that show False
      by (auto simp: held_def)
  qed
  then show ?thesis
    by (auto simp: own_queue_def)
qed

text \<open>What an operation must keep: the places of all buffers and who owns them.\<close>

lemma buf_inv_moved:
  assumes "buf_inv env E bs bl" "\<And>q b. held env bs' bl' q b = held env bs bl q b" "vb_owned bs' = vb_owned bs"
  shows "buf_inv env E bs' bl'"
  using assms by (simp add: buf_inv_unfold)

text \<open>Buffers that leave their places on one queue and are given back.\<close>

lemma buf_inv_removed:
  assumes "buf_inv env E bs bl" "\<forall>c \<in> set xs. vb_queue env c = p"
    and "\<And>q c. held env bs' bl' q c = held env bs bl q c - (if q = p then count (mset xs) c else 0)"
    and "vb_owned bs' = (\<lambda>b. vb_owned bs b \<and> b \<notin> set xs)"
  shows "buf_inv env E bs' bl'"
  unfolding buf_inv_def
proof (intro allI)
  fix q b
  define n where "n = count (mset xs) b"
  have "b \<in> set xs \<and> 1 \<le> n \<or> b \<notin> set xs \<and> n = 0"
    unfolding n_def by (auto simp: Suc_le_eq count_eq_zero_iff)
  moreover have "placed env E bs bl q b"
    using assms(1) by (simp add: buf_inv_def)
  ultimately show "placed env E bs' bl' q b"
    using assms(2) unfolding placed_def assms(3,4) n_def [symmetric] by (auto split: if_splits)
qed

lemma buf_inv_done:
  assumes "buf_inv env E bs bl"
    and "\<And>q c. held env bs' bl' q c = held env bs bl q c - (if q = vb_queue env b \<and> c = b then 1 else 0)"
    and "vb_owned bs' = (vb_owned bs)(b := False)"
  shows "buf_inv env E bs' bl'"
  by (rule buf_inv_removed [OF assms(1), of "[b]" "vb_queue env b"]) (auto simp: assms(2,3) fun_eq_iff)

lemma buf_inv_in_list:
  assumes "buf_inv env E bs bl" "b \<in> set (q_incoming bs q) \<union> set (q_active bs q)"
  shows "vb_queue env b = q"
  using buf_inv_own_queue [OF assms(1)] assms(2) by (auto simp: own_queue_def)

lemma vb2_buffer_done_simps [simp]:
  "q_incoming (vb2_buffer_done b st bs) = q_incoming bs"
  "q_active (vb2_buffer_done b st bs) = q_active bs"
  "vb_owned (vb2_buffer_done b st bs) = (vb_owned bs)(b := False)"
  by (auto simp: vb2_buffer_done_def fun_eq_iff)

lemma held_done [simp]: "held env (vb2_buffer_done b st bs) = held env bs"
  by (simp add: held_def fun_eq_iff)

subsection \<open>The operations\<close>

lemma inv_given:
  assumes "buf_inv env E bs bl" "\<not> vb_owned bs b"
  shows "buf_inv env E (enqueue_incoming env b (bs\<lparr>vb_owned := (vb_owned bs)(b := True)\<rparr>)) bl"
proof -
  let ?bs = "enqueue_incoming env b (bs\<lparr>vb_owned := (vb_owned bs)(b := True)\<rparr>)"
  have "held env ?bs bl q c = held env bs bl q c + (if q = vb_queue env b \<and> c = b then 1 else 0)" for q c
    by (simp add: held_def enqueue_incoming_def Let_def)
  moreover have "vb_owned ?bs = (vb_owned bs)(b := True)"
    by (simp add: enqueue_incoming_def Let_def)
  ultimately show ?thesis
    using assms unfolding buf_inv_unfold by auto
qed

lemma held_put_back: "held env (put_back env bl bs) bl' q b = held env bs (bl @ bl') q b"
  by (induction bl arbitrary: bs) (auto simp: held_def)

lemma owned_put_back [simp]: "vb_owned (put_back env bl bs) = vb_owned bs"
  by (induction bl arbitrary: bs) auto

lemma inv_put_back: "buf_inv env E bs (bl @ bl') \<Longrightarrow> buf_inv env E (put_back env bl bs) bl'"
  by (rule buf_inv_moved) (auto simp: held_put_back)

lemma to_active:
  "held env (ipu6_isys_buffer_list_queue env bl IPU6_ISYS_BUFFER_LIST_FL_ACTIVE st bs) bl' q b = held env bs (bl @ bl') q b \<and>
   vb_owned (ipu6_isys_buffer_list_queue env bl IPU6_ISYS_BUFFER_LIST_FL_ACTIVE st bs) = vb_owned bs"
  by (induction bl arbitrary: bs) (use fl_flags in \<open>auto simp: held_def Let_def\<close>)

lemma inv_to_active:
  "buf_inv env E bs (bl @ bl') \<Longrightarrow>
   buf_inv env E (ipu6_isys_buffer_list_queue env bl IPU6_ISYS_BUFFER_LIST_FL_ACTIVE st bs) bl'"
  by (erule buf_inv_moved) (simp_all add: to_active)

lemma held_pop:
  assumes "q_incoming bs p \<noteq> []" "vb_queue env (last (q_incoming bs p)) = p"
  shows "held env (pop_incoming p bs) (last (q_incoming bs p) # bl) q b = held env bs bl q b"
proof -
  have "mset (q_incoming bs p) = mset (butlast (q_incoming bs p)) + {#last (q_incoming bs p)#}"
    using assms(1) by (metis append_butlast_last_id mset.simps(1,2) mset_append)
  then show ?thesis
    using assms(2) by (auto simp: held_def pop_incoming_def)
qed

lemma inv_list_get:
  assumes "buf_inv env E bs (acc @ bl)" "buffer_list_get_loop env qs acc bs = (r, got, bs')"
  shows "buf_inv env E bs' (got @ bl)"
  using assms
proof (induction qs arbitrary: acc bs)
  case (Cons p qs)
  show ?case
  proof (cases "q_incoming bs p = []")
    case True
    then have "got = []" "bs' = put_back env acc bs"
      using Cons.prems(2) by (auto simp: put_back_def split: if_splits)
    then show ?thesis
      using inv_put_back [OF Cons.prems(1)] by simp
  next
    case False
    have "vb_queue env (last (q_incoming bs p)) = p"
      using False by (intro buf_inv_in_list [OF Cons.prems(1)]) simp
    then have "buf_inv env E (pop_incoming p bs) ((last (q_incoming bs p) # acc) @ bl)"
      using held_pop [OF False] by (intro buf_inv_moved [OF Cons.prems(1)]) (auto simp: pop_incoming_def)
    then show ?thesis
      using Cons.prems(2) False by (intro Cons.IH) (auto simp: pop_incoming_def)
  qed
qed auto

text \<open>A buffer leaves the active list of its queue and is given back.\<close>

lemma count_remove1: "b \<in> set xs \<Longrightarrow> count (mset (remove1 b xs)) c = count (mset xs) c - (if c = b then 1 else 0)"
  by simp

definition drop_active :: "nat \<Rightarrow> nat \<Rightarrow> isys_buffers \<Rightarrow> isys_buffers" where
  "drop_active q b bs = bs\<lparr>q_active := (q_active bs)(q := remove1 b (q_active bs q))\<rparr>"

lemma held_drop_active:
  assumes "b \<in> set (q_active bs p)"
  shows "held env (drop_active p b bs) bl q c = held env bs bl q c - (if q = p \<and> c = b then 1 else 0)"
proof -
  obtain n where n: "count (mset (q_active bs p)) b = Suc n"
    using assms by (metis count_eq_zero_iff not0_implies_Suc set_mset_mset)
  show ?thesis
    using assms by (cases "q = p"; cases "c = b") (simp_all add: held_def drop_active_def n)
qed

lemma inv_drop_active:
  assumes "buf_inv env E bs bl" "b \<in> set (q_active bs q)"
    and "q_incoming bs' = q_incoming bs" "q_active bs' = (q_active bs)(q := remove1 b (q_active bs q))"
    and "vb_owned bs' = (vb_owned bs)(b := False)"
  shows "buf_inv env E bs' bl"
proof (rule buf_inv_done [OF assms(1)])
  have l: "b \<in> set (q_incoming bs q) \<union> set (q_active bs q)"
    using assms(2) by simp
  note own = buf_inv_in_list [OF assms(1) l]
  show "held env bs' bl p c = held env bs bl p c - (if p = vb_queue env b \<and> c = b then 1 else 0)" for p c
    using held_drop_active [OF assms(2), of env bl p c] assms(3,4) own by (simp add: held_def drop_active_def)
qed (rule assms(5))

lemma inv_flush_active:
  assumes "buf_inv env E bs bl" "q_active bs q = ibs"
  shows "buf_inv env E (flush_active strm q ibs bs) bl"
  using assms
proof (induction ibs arbitrary: bs)
  case (Cons ib ibs)
  have mem: "ib \<in> set (q_active bs q)"
    using Cons.prems(2) by simp
  have rest: "remove1 ib (q_active bs q) = ibs"
    using Cons.prems(2) by simp
  have queue: "vb_queue env ib = q"
    using mem by (intro buf_inv_in_list [OF Cons.prems(1)]) simp
  let ?bs1 = "drop_active q ib bs"
  have "buf_inv env E (?bs1\<lparr>q_incoming := (q_incoming ?bs1)(q := ib # q_incoming ?bs1 q)\<rparr>) bl"
  proof (rule buf_inv_moved [OF Cons.prems(1)])
    fix p b
    show "held env (?bs1\<lparr>q_incoming := (q_incoming ?bs1)(q := ib # q_incoming ?bs1 q)\<rparr>) bl p b = held env bs bl p b"
      using mem queue by (auto simp: held_def drop_active_def)
  qed (simp add: drop_active_def)
  moreover have "buf_inv env E (vb2_buffer_done ib VB2_BUF_STATE_QUEUED ?bs1) bl"
    by (rule inv_drop_active [OF Cons.prems(1) mem]) (auto simp: drop_active_def)
  ultimately show ?case
    using Cons.IH rest by (auto simp: Let_def drop_active_def)
qed simp

lemma inv_flush_queues:
  "buf_inv env E bs bl \<Longrightarrow> buf_inv env E (flush_queues strm qs bs) bl"
  by (induction qs arbitrary: bs) (auto intro: inv_flush_active)

lemma done_all_simps [simp]:
  "q_incoming (done_all st bl bs) = q_incoming bs"
  "q_active (done_all st bl bs) = q_active bs"
  "vb_owned (done_all st bl bs) = (\<lambda>b. vb_owned bs b \<and> b \<notin> set bl)"
  by (induction bl arbitrary: bs) (auto simp: done_all_def fun_eq_iff)

text \<open>Giving back all buffers of one list of a queue.\<close>

lemma inv_done_list:
  assumes "buf_inv env E bs bl"
  shows "buf_inv env E (done_all st (q_incoming bs q) (bs\<lparr>q_incoming := (q_incoming bs)(q := [])\<rparr>)) bl"
    and "buf_inv env E (done_all st (q_active bs q) (bs\<lparr>q_active := (q_active bs)(q := [])\<rparr>)) bl"
proof -
  have own: "\<forall>c \<in> set (q_incoming bs q) \<union> set (q_active bs q). vb_queue env c = q"
    using buf_inv_in_list [OF assms] by blast
  show "buf_inv env E (done_all st (q_incoming bs q) (bs\<lparr>q_incoming := (q_incoming bs)(q := [])\<rparr>)) bl"
    using own by (intro buf_inv_removed [OF assms, of "q_incoming bs q" q]) (auto simp: held_def)
  show "buf_inv env E (done_all st (q_active bs q) (bs\<lparr>q_active := (q_active bs)(q := [])\<rparr>)) bl"
    using own by (intro buf_inv_removed [OF assms, of "q_active bs q" q]) (auto simp: held_def)
qed

text \<open>The error path of a start gives its buffers back and leaves them on the incoming lists.\<close>

abbreviation bounce :: "'d isys_env \<Rightarrow> nat list \<Rightarrow> isys_buffers \<Rightarrow> isys_buffers" where
  "bounce env bl \<equiv> ipu6_isys_buffer_list_queue env bl
     (IPU6_ISYS_BUFFER_LIST_FL_INCOMING OR IPU6_ISYS_BUFFER_LIST_FL_SET_STATE) VB2_BUF_STATE_ERROR"

lemma bounce_lists:
  "q_incoming (bounce env bl bs) q = q_incoming bs q @ filter (\<lambda>b. vb_queue env b = q) bl"
  "q_active (bounce env bl bs) = q_active bs"
  "vb_owned (bounce env bl bs) b \<longleftrightarrow> vb_owned bs b \<and> b \<notin> set bl"
  by (induction bl arbitrary: bs) (auto simp: Let_def ipu4_consts)

lemma count_filter: "count (mset (filter P xs)) x = (if P x then count (mset xs) x else 0)"
  by (induction xs) auto

lemma held_bounce: "held env (bounce env bl bs) bl' q b = held env bs (bl @ bl') q b"
  by (simp add: held_def bounce_lists count_filter)

lemma inv_bounce:
  assumes "buf_inv env E bs (bl @ bl')"
  shows "buf_inv env (E \<union> set bl) (bounce env bl bs) bl'"
  using assms by (auto simp: buf_inv_unfold held_bounce bounce_lists)

subsection \<open>Every run\<close>

text \<open>
  The runs of the driver as far as the buffers are concerned: videobuf2 hands over a buffer,
  buffers are taken for the firmware, put back or made active, the firmware reports a frame,
  a start fails, which flushes the active lists and, when it was caused by queueing a buffer,
  gives the buffers taken for it back as failed, a queue is emptied. The state is the input
  system, the buffers that functions have taken and not put on a list, and the buffers that were
  given back by a failed start; the functions of several streams may interleave.
\<close>

type_synonym 'd buf_state = "'d ipu6_isys \<times> nat list \<times> nat set"

inductive buf_step :: "'d isys_env \<Rightarrow> 'd buf_state \<Rightarrow> 'd buf_state \<Rightarrow> bool" for env where
  given: "\<not> vb_owned (ibufs s) b \<Longrightarrow>
    buf_step env (s, bl, E) (s\<lparr>ibufs := enqueue_incoming env b ((ibufs s)\<lparr>vb_owned := (vb_owned (ibufs s))(b := True)\<rparr>)\<rparr>, bl, E)"
| get: "buffer_list_get env st (ibufs s) = (r, got, bs') \<Longrightarrow> buf_step env (s, bl, E) (s\<lparr>ibufs := bs'\<rparr>, got @ bl, E)"
| requeue: "buf_step env (s, xs @ bl, E) (s\<lparr>ibufs := put_back env xs (ibufs s)\<rparr>, bl, E)"
| bounce: "buf_step env (s, xs @ bl, E) (s\<lparr>ibufs := bounce env xs (ibufs s)\<rparr>, bl, E \<union> set xs)"
| activate: "buf_step env (s, xs @ bl, E)
    (s\<lparr>ibufs := ipu6_isys_buffer_list_queue env xs IPU6_ISYS_BUFFER_LIST_FL_ACTIVE st (ibufs s)\<rparr>, bl, E)"
| ready: "buf_step env (s, bl, E) (snd (run_state (ipu6_stream_buf_ready env i q addr time err) s), bl, E)"
| flush: "buf_step env (s, bl, E) (snd (run_state (flush_firmware_streamon_fail i) s), bl, E)"
| give_back: "buf_step env (s, bl, E) (snd (run_state (return_buffers q st) s), bl, E)"

inductive buf_run :: "'d isys_env \<Rightarrow> 'd buf_state \<Rightarrow> bool" for env where
  start: "(\<And>q. q_incoming (ibufs s) q = []) \<Longrightarrow> (\<And>q. q_active (ibufs s) q = []) \<Longrightarrow> (\<And>b. \<not> vb_owned (ibufs s) b) \<Longrightarrow>
    buf_run env (s, [], {})"
| step: "buf_run env x \<Longrightarrow> buf_step env x y \<Longrightarrow> buf_run env y"

lemma tsc_keeps_ibufs: "ibufs (snd (run_state (get_sof_ns_delta env time) s)) = ibufs s"
  by (simp add: get_sof_ns_delta_def case_prod_beta)

text \<open>What the report of a frame does to the lists.\<close>

lemma buf_ready_lists:
  fixes env i q addr time err s
  defines "bs' \<equiv> ibufs (snd (run_state (ipu6_stream_buf_ready env i q addr time err) s))"
  shows "case find_ready env addr (q_active (ibufs s) q) of
      None \<Rightarrow> bs' = ibufs s
    | Some b \<Rightarrow> b \<in> set (q_active (ibufs s) q) \<and> q_incoming bs' = q_incoming (ibufs s) \<and>
        q_active bs' = (q_active (ibufs s))(q := remove1 b (q_active (ibufs s) q)) \<and>
        vb_owned bs' = (vb_owned (ibufs s))(b := False)"
proof (cases "find_ready env addr (q_active (ibufs s) q)")
  case None
  then show ?thesis
    by (simp add: bs'_def ipu6_stream_buf_ready_def)
next
  case (Some b)
  then have "b \<in> set (q_active (ibufs s) q)"
    by (auto simp: find_ready_def find_Some_iff in_set_conv_nth) (metis length_rev nth_mem set_rev in_set_conv_nth)
  then show ?thesis
    using Some
    by (simp add: bs'_def ipu6_stream_buf_ready_def ipu6_isys_buf_calc_sequence_time_def case_prod_beta
        ipu6_isys_queue_buf_done_def tsc_keeps_ibufs)
qed

lemma inv_ready:
  assumes "buf_inv env E (ibufs s) bl"
  shows "buf_inv env E (ibufs (snd (run_state (ipu6_stream_buf_ready env i q addr time err) s))) bl"
  using buf_ready_lists [where env = env and i = i and q = q and addr = addr and time = time and err = err and s = s]
    inv_drop_active [OF assms] assms
  by (cases "find_ready env addr (q_active (ibufs s) q)") auto

lemma inv_return_buffers:
  assumes "buf_inv env E (ibufs s) bl"
  shows "buf_inv env E (ibufs (snd (run_state (return_buffers q st) s))) bl"
  using inv_done_list(2) [OF inv_done_list(1) [OF assms]]
  by (simp add: return_buffers_def Let_def)

lemma inv_step:
  assumes "buf_step env (s, bl, E) (s', bl', E')" "buf_inv env E (ibufs s) bl"
  shows "buf_inv env E' (ibufs s') bl'"
  using assms(1)
proof (cases rule: buf_step.cases)
  case (get st r got bs')
  then show ?thesis
    using inv_list_get [of env E "ibufs s" "[]" bl] assms(2) by (auto simp: buffer_list_get_def)
qed (use assms(2) in \<open>auto simp: flush_firmware_streamon_fail_def
    intro: inv_given inv_put_back inv_to_active inv_ready inv_return_buffers inv_flush_queues inv_bounce\<close>)

lemma run_inv: "buf_run env x \<Longrightarrow> buf_inv env (snd (snd x)) (ibufs (fst x)) (fst (snd x))"
proof (induction rule: buf_run.induct)
  case (start s)
  then show ?case
    by (simp add: buf_inv_unfold held_def)
next
  case (step x y)
  then show ?case
    by (cases x; cases y) (auto intro: inv_step)
qed



section \<open>The debug output\<close>

text \<open>With 19 buffers on a list, numbered 0 to 18, the end of the text is stored behind its array.\<close>

lemma dump_terminator_outside: "dump_terminator [0..<19] = Some 64"
  by (simp add: dump_terminator_def upt_rec dec_digits.simps snprintf_num_def)

end
