(* ===== verification/Isys_State_Props.thy ===== *)
theory Isys_State_Props
  imports Isys_Example
begin

text \<open>
  Properties of the message pool and of the table of streams.
\<close>

section \<open>The table of streams\<close>

definition table_wf :: "'d ipu6_isys \<Rightarrow> bool" where
  "table_wf s \<longleftrightarrow> length (streams s) = 8 \<and> length (streams_ref_count s) = 8 \<and>
     (\<forall>i < 8. 0 \<le> streams_ref_count s ! i \<and> st_handle (streams s ! i) = i) \<and>
     (\<forall>i < 8. \<forall>j < 8. i \<noteq> j \<longrightarrow> ref_live s i \<longrightarrow> ref_live s j \<longrightarrow>
        (st_vc (streams s ! i), st_asd (streams s ! i)) \<noteq> (st_vc (streams s ! j), st_asd (streams s ! j)))"

lemma stream_ids_mem [simp]: "i \<in> set stream_ids \<longleftrightarrow> i < 8"
  by (simp add: stream_ids_def ipu4_consts)

lemma find_ids_Some: "List.find P stream_ids = Some i \<Longrightarrow> i < 8 \<and> P i"
  by (metis find_Some_iff nth_mem stream_ids_mem)

lemma find_ids_None: "List.find P stream_ids = None \<longleftrightarrow> (\<forall>i < 8. \<not> P i)"
  by (auto simp: find_None_iff)

lemma add_ref_simps [simp]:
  "streams (add_ref i k s) = streams s"
  "streams_ref_count (add_ref i k s) = (streams_ref_count s)[i := streams_ref_count s ! i + k]"
  by (simp_all add: add_ref_def)

text \<open>One more reference to a stream that has one, or one less to a stream that has some.\<close>

lemma wf_add_ref:
  assumes "table_wf s" "i < 8" "0 < streams_ref_count s ! i" "k = 1 \<or> k = - 1"
  shows "table_wf (add_ref i k s)"
  using assms unfolding table_wf_def ref_live_def
  by (auto simp: nth_list_update split: if_splits)

lemma wf_put: "table_wf s \<Longrightarrow> i < 8 \<Longrightarrow> table_wf (snd (run_state (ipu6_isys_put_stream i) s))"
  by (simp add: ipu6_isys_put_stream_def wf_add_ref)

lemma live_pos: "table_wf s \<Longrightarrow> i < 8 \<Longrightarrow> ref_live s i \<longleftrightarrow> 0 < streams_ref_count s ! i"
  by (auto simp: table_wf_def ref_live_def order.order_iff_strict)

lemma wf_query_handle: "table_wf s \<Longrightarrow> table_wf (snd (run_state (ipu6_isys_query_stream_by_handle h) s))"
  by (simp add: ipu6_isys_query_stream_by_handle_def wf_add_ref ipu4_consts)

lemma wf_query_source: "table_wf s \<Longrightarrow> table_wf (snd (run_state (ipu6_isys_query_stream_by_source src vc) s))"
  by (auto simp: ipu6_isys_query_stream_by_source_def live_pos intro!: wf_add_ref dest!: find_ids_Some split: option.splits)

text \<open>A free entry gets a new owner, different from all entries in use.\<close>

lemma wf_claim:
  assumes "table_wf s" "i < 8" "\<not> ref_live s i"
    and "\<And>j. j < 8 \<Longrightarrow> ref_live s j \<Longrightarrow> (st_vc (streams s ! j), st_asd (streams s ! j)) \<noteq> (vc, Some asd)"
  shows "table_wf ((add_ref i 1 s)\<lparr>streams := (streams s)[i := (streams s ! i)\<lparr>st_vc := vc, st_asd := Some asd\<rparr>]\<rparr>)"
  using assms unfolding table_wf_def ref_live_def
  by (simp add: nth_list_update) (metis option.inject)

lemma get_stream_cases:
  assumes "table_wf s"
  shows "table_wf (snd (run_state (ipu6_isys_get_stream vc asd) s)) \<and>
    (case run_state (ipu6_isys_get_stream vc asd) s of
       (Some i, s') \<Rightarrow> i < 8 \<and> st_vc (streams s' ! i) = vc \<and> st_asd (streams s' ! i) = Some asd \<and>
         streams_ref_count s' = (streams_ref_count s)[i := streams_ref_count s ! i + 1]
     | (None, s') \<Rightarrow> s' = s \<and> (\<forall>i < 8. 0 < streams_ref_count s ! i))"
proof -
  let ?P = "\<lambda>i. ref_live s i \<and> st_vc (streams s ! i) = vc \<and> st_asd (streams s ! i) = Some asd"
  have len: "length (streams s) = 8"
    using assms by (simp add: table_wf_def)
  show ?thesis
  proof (cases "List.find ?P stream_ids")
    case (Some i)
    then have run: "run_state (ipu6_isys_get_stream vc asd) s = (Some i, add_ref i 1 s)"
      by (simp only: ipu6_isys_get_stream_def state.sel option.case)
    have i: "i < 8" "?P i"
      using find_ids_Some [OF Some] by simp_all
    then have "table_wf (add_ref i 1 s)"
      using assms by (intro wf_add_ref) (simp_all add: live_pos)
    then show ?thesis
      using i by (simp add: run)
  next
    case None
    note other = None
    show ?thesis
    proof (cases "List.find (\<lambda>i. \<not> ref_live s i) stream_ids")
      case None
      with other have run: "run_state (ipu6_isys_get_stream vc asd) s = (None, s)"
        by (simp only: ipu6_isys_get_stream_def state.sel option.case)
      have "\<forall>i < 8. 0 < streams_ref_count s ! i"
        using None live_pos [OF assms] by (simp add: find_ids_None)
      then show ?thesis
        using assms by (simp add: run)
    next
      case (Some i)
      with other have run: "run_state (ipu6_isys_get_stream vc asd) s = (Some i, (add_ref i 1 s)\<lparr>streams :=
          (streams s)[i := (streams s ! i)\<lparr>st_vc := vc, st_asd := Some asd\<rparr>]\<rparr>)"
        by (simp only: ipu6_isys_get_stream_def state.sel option.case)
      have i: "i < 8" "\<not> ref_live s i"
        using find_ids_Some [OF Some] by simp_all
      have "table_wf ((add_ref i 1 s)\<lparr>streams := (streams s)[i := (streams s ! i)\<lparr>st_vc := vc, st_asd := Some asd\<rparr>]\<rparr>)"
        using other by (intro wf_claim [OF assms i]) (auto simp: find_ids_None)
      then show ?thesis
        using i len by (simp add: run)
    qed
  qed
qed

text \<open>
  The runs of the driver on the table: streams are got and put back, looked up by the
  interrupt handlers, and changed by their users, who leave the key and the handle alone.
\<close>

inductive table_run :: "'d ipu6_isys \<Rightarrow> bool" where
  init: "streams_ref_count s = replicate 8 0 \<Longrightarrow> table_run (snd (run_state isys_stream_init s))"
| get: "table_run s \<Longrightarrow> table_run (snd (run_state (ipu6_isys_get_stream vc asd) s))"
| put: "table_run s \<Longrightarrow> i < 8 \<Longrightarrow> table_run (snd (run_state (ipu6_isys_put_stream i) s))"
| by_handle: "table_run s \<Longrightarrow> table_run (snd (run_state (ipu6_isys_query_stream_by_handle h) s))"
| by_source: "table_run s \<Longrightarrow> table_run (snd (run_state (ipu6_isys_query_stream_by_source src vc) s))"
| change: "table_run s \<Longrightarrow> (\<And>st. st_vc (f st) = st_vc st \<and> st_asd (f st) = st_asd st \<and> st_handle (f st) = st_handle st) \<Longrightarrow>
    table_run (upd_stream i f s)"

lemma wf_change:
  assumes "table_wf s" "\<And>st. st_vc (f st) = st_vc st \<and> st_asd (f st) = st_asd st \<and> st_handle (f st) = st_handle st"
  shows "table_wf (upd_stream i f s)"
proof -
  have "st_vc ((streams s)[i := f (streams s ! i)] ! k) = st_vc (streams s ! k)"
    "st_asd ((streams s)[i := f (streams s ! i)] ! k) = st_asd (streams s ! k)"
    "st_handle ((streams s)[i := f (streams s ! i)] ! k) = st_handle (streams s ! k)" if "k < 8" for k
    using that assms by (cases "i = k"; simp add: table_wf_def)+
  then show ?thesis
    using assms(1) unfolding table_wf_def ref_live_def upd_stream_def by simp
qed

lemma wf_init:
  assumes "streams_ref_count s = replicate 8 0"
  shows "table_wf (snd (run_state isys_stream_init s))"
  using assms
  by (simp add: isys_stream_init_def table_wf_def ref_live_def stream_ids_def init_stream_def ipu4_consts)

lemma run_table_wf: "table_run s \<Longrightarrow> table_wf s"
  by (induction rule: table_run.induct)
    (use wf_init wf_put wf_query_handle wf_query_source wf_change get_stream_cases in blast)+

text \<open>
  C23: In every run the table of streams keeps its form: eight entries, each with its own handle
  and no negative count, and no two entries in use for the same receiver and virtual channel.
  Asking for a stream gives the entry of that receiver and channel with one more reference; it
  gives none, and changes nothing, only when all eight entries are in use.
\<close>

theorem stream_table_well_formed:
  assumes "table_run s"
  shows "table_wf s \<and>
    (case run_state (ipu6_isys_get_stream vc asd) s of
       (Some i, s') \<Rightarrow> i < 8 \<and> st_vc (streams s' ! i) = vc \<and> st_asd (streams s' ! i) = Some asd \<and>
         streams_ref_count s' = (streams_ref_count s)[i := streams_ref_count s ! i + 1]
     | (None, s') \<Rightarrow> s' = s \<and> (\<forall>i < 8. 0 < streams_ref_count s ! i))"
  using get_stream_cases [OF run_table_wf [OF assms]] run_table_wf [OF assms] by simp

theorem stream_table_well_formed_witness:
  "\<exists>s'. table_wf s' \<and> run_state (ipu6_isys_get_stream 1 2) (snd (run_state isys_stream_init ex_isys)) = (Some 0, s') \<and>
     st_vc (streams s' ! 0) = 1"
proof -
  let ?s = "snd (run_state isys_stream_init ex_isys)"
  have run: "table_run ?s"
    by (rule table_run.init) (simp add: ex_isys_def)
  then have wf: "table_wf (snd (run_state (ipu6_isys_get_stream 1 2) ?s))"
    by (intro run_table_wf table_run.get)
  have "fst (run_state (ipu6_isys_get_stream 1 2) ?s) = Some 0"
    by (simp add: ipu6_isys_get_stream_def isys_stream_init_def stream_ids_def ref_live_def ex_isys_def ipu4_consts upt_rec)
  then show ?thesis
    using stream_table_well_formed [OF run, of 1 2] wf
    by (cases "run_state (ipu6_isys_get_stream 1 2) ?s") auto
qed

end
