(* ===== verification/Fw_Isys.thy ===== *)
theory Fw_Isys
  imports Isys_State
begin

unbundle bit_operations_syntax

text \<open>
  The interface to the input system firmware, \<^verbatim>\<open>kernel/ipu4/ipu6-fw-isys.c\<close>, with the start of its
  processor (\<^verbatim>\<open>ipu6_configure_spc\<close> in \<^verbatim>\<open>ipu6.c\<close>): the configuration of the queues, opening and closing the
  connection, and the commands.
\<close>

section \<open>Loading the processor\<close>

definition IPU6_ISYS_REG_SPC_STATUS_CTRL :: u64 where [ipu4_consts]: "IPU6_ISYS_REG_SPC_STATUS_CTRL = 0x0"
definition IPU6_ISYS_SPC_STATUS_START :: u32 where [ipu4_consts]: "IPU6_ISYS_SPC_STATUS_START = 0x2"
definition IPU6_ISYS_SPC_STATUS_RUN :: u32 where [ipu4_consts]: "IPU6_ISYS_SPC_STATUS_RUN = 0x8"
definition IPU6_ISYS_SPC_STATUS_READY :: u32 where [ipu4_consts]: "IPU6_ISYS_SPC_STATUS_READY = 0x20"
definition IPU6_ISYS_SPC_STATUS_CTRL_ICACHE_INVALIDATE :: u32 where [ipu4_consts]: "IPU6_ISYS_SPC_STATUS_CTRL_ICACHE_INVALIDATE = 0x1000"
definition IPU6_ISYS_SPC_STATUS_ICACHE_PREFETCH :: u32 where [ipu4_consts]: "IPU6_ISYS_SPC_STATUS_ICACHE_PREFETCH = 0x2000"
definition IPU6_PSYS_REG_SPC_STATUS_CTRL :: u64 where [ipu4_consts]: "IPU6_PSYS_REG_SPC_STATUS_CTRL = 0x0"
definition IPU6_PSYS_REG_SPC_START_PC :: u64 where [ipu4_consts]: "IPU6_PSYS_REG_SPC_START_PC = 0x4"
definition IPU6_PSYS_REG_SPC_ICACHE_BASE :: u64 where [ipu4_consts]: "IPU6_PSYS_REG_SPC_ICACHE_BASE = 0x10"
definition IPU6_REG_PSYS_INFO_SEG_0_CONFIG_ICACHE_MASTER :: u64 where [ipu4_consts]: "IPU6_REG_PSYS_INFO_SEG_0_CONFIG_ICACHE_MASTER = 0x14"
definition IPU6_PSYS_SPC_STATUS_CTRL_ICACHE_INVALIDATE :: u32 where [ipu4_consts]: "IPU6_PSYS_SPC_STATUS_CTRL_ICACHE_INVALIDATE = 0x1000"
definition IPU6_INFO_REQUEST_DESTINATION_IOSF :: u32 where [ipu4_consts]: "IPU6_INFO_REQUEST_DESTINATION_IOSF = 0x200"
definition IPU6_PKG_DIR_IMR_OFFSET :: u32 where [ipu4_consts]: "IPU6_PKG_DIR_IMR_OFFSET = 0x40"
definition IPU6_CPD_PKG_DIR_ISYS_SERVER_IDX :: nat where [ipu4_consts]: "IPU6_CPD_PKG_DIR_ISYS_SERVER_IDX = 1"

definition isys_readl :: "'d isys_env \<Rightarrow> u64 \<Rightarrow> ('d, u32) state" where
  "isys_readl env r = readl (mmio (btrs env)) (ibase env + r)"

definition isys_writel :: "'d isys_env \<Rightarrow> u32 \<Rightarrow> u64 \<Rightarrow> ('d, unit) state" where
  "isys_writel env v r = writel (mmio (btrs env)) v (ibase env + r)"

definition spc_reg :: u64 where
  "spc_reg = ucast (spc_offset isys_hw_variant)"

definition dmem_reg0 :: u64 where
  "dmem_reg0 = ucast (dmem_offset isys_hw_variant)"

text \<open>The fields of a program header in the image that are used.\<close>

record ipu6_cell_program =
  blob_offset :: u32
  start_1 :: u32
  icache_source :: u32
  regs_addr :: u32

definition cell_program_at :: "u8 list \<Rightarrow> nat \<Rightarrow> ipu6_cell_program" where
  "cell_program_at bs i = \<lparr>blob_offset = field_at (i + 4) 4 bs, start_1 = field_at (i + 16) 4 bs,
     icache_source = field_at (i + 24) 4 bs, regs_addr = field_at (i + 72) 4 bs\<rparr>"

text \<open>An empty entry of the package directory is skipped; a header outside of the image is a stray read.\<close>

definition ipu6_pkg_dir_configure_spc :: "'d isys_env \<Rightarrow> nat \<Rightarrow> ('d ipu6_isys, unit) state" where
  "ipu6_pkg_dir_configure_spc env idx = do {
     let server_fw_addr = (ucast (pkg_dir env ((idx + 1) * 2)) :: u32);
     if server_fw_addr = 0 then State_Monad.return ()
     else do {
       let pg_offset = unat (server_fw_addr - ucast (fw_sgt_dma env));
       if pg_offset + 76 > length (cpd_fw_data env) then modify (\<lambda>s. s\<lparr>wild := True\<rparr>)
       else do {
         let prog = cell_program_at (cpd_fw_data env) pg_offset;
         let spc_base = (ucast (regs_addr prog) :: u64);
         on_dev (do {
           isys_writel env (server_fw_addr + blob_offset prog + icache_source prog) (spc_base + IPU6_PSYS_REG_SPC_ICACHE_BASE);
           isys_writel env IPU6_INFO_REQUEST_DESTINATION_IOSF (spc_base + IPU6_REG_PSYS_INFO_SEG_0_CONFIG_ICACHE_MASTER);
           isys_writel env (start_1 prog) (spc_base + IPU6_PSYS_REG_SPC_START_PC);
           isys_writel env (ucast (pkg_dir_dma_addr env)) dmem_reg0 }) } } }"

definition ipu6_configure_spc :: "'d isys_env \<Rightarrow> nat \<Rightarrow> ('d ipu6_isys, unit) state" where
  "ipu6_configure_spc env idx = do {
     val \<leftarrow> on_dev (isys_readl env (spc_reg + IPU6_PSYS_REG_SPC_STATUS_CTRL));
     on_dev (isys_writel env (val OR IPU6_PSYS_SPC_STATUS_CTRL_ICACHE_INVALIDATE) (spc_reg + IPU6_PSYS_REG_SPC_STATUS_CTRL));
     secure \<leftarrow> gets (\<lambda>s. secure_mode (isp s));
     if secure then on_dev (isys_writel env IPU6_PKG_DIR_IMR_OFFSET dmem_reg0)
     else ipu6_pkg_dir_configure_spc env idx }"

definition start_sp :: "'d isys_env \<Rightarrow> bool \<Rightarrow> ('d, unit) state" where
  "start_sp env prefetch = isys_writel env
     (IPU6_ISYS_SPC_STATUS_START OR IPU6_ISYS_SPC_STATUS_RUN OR IPU6_ISYS_SPC_STATUS_CTRL_ICACHE_INVALIDATE
      OR (if prefetch then IPU6_ISYS_SPC_STATUS_ICACHE_PREFETCH else 0))
     (spc_reg + IPU6_ISYS_REG_SPC_STATUS_CTRL)"

definition query_sp :: "'d isys_env \<Rightarrow> ('d, bool) state" where
  "query_sp env = do {
     val \<leftarrow> isys_readl env (spc_reg + IPU6_ISYS_REG_SPC_STATUS_CTRL);
     State_Monad.return (val AND (IPU6_ISYS_SPC_STATUS_READY OR IPU6_ISYS_SPC_STATUS_START) = IPU6_ISYS_SPC_STATUS_READY) }"

section \<open>The queues\<close>

definition IPU4_STREAM_ID_MAX :: nat where [ipu4_consts]: "IPU4_STREAM_ID_MAX = 8"
definition IPU4_N_MAX_DEV_SEND_QUEUES :: nat where [ipu4_consts]: "IPU4_N_MAX_DEV_SEND_QUEUES = 1"
definition IPU4_N_MAX_PROXY_SEND_QUEUES :: nat where [ipu4_consts]: "IPU4_N_MAX_PROXY_SEND_QUEUES = 1"
definition IPU4_N_MAX_PROXY_RECV_QUEUES :: nat where [ipu4_consts]: "IPU4_N_MAX_PROXY_RECV_QUEUES = 1"
definition IPU4_BASE_PROXY_SEND_QUEUES :: nat where [ipu4_consts]: "IPU4_BASE_PROXY_SEND_QUEUES = 0"
definition IPU4_BASE_DEV_SEND_QUEUES :: nat where [ipu4_consts]: "IPU4_BASE_DEV_SEND_QUEUES = 1"
definition IPU4_BASE_MSG_SEND_QUEUES :: nat where [ipu4_consts]: "IPU4_BASE_MSG_SEND_QUEUES = 2"
definition IPU4_N_MAX_SEND_QUEUES :: nat where [ipu4_consts]: "IPU4_N_MAX_SEND_QUEUES = 10"
definition IPU4_BASE_PROXY_RECV_QUEUES :: nat where [ipu4_consts]: "IPU4_BASE_PROXY_RECV_QUEUES = 0"
definition IPU4_BASE_MSG_RECV_QUEUES :: nat where [ipu4_consts]: "IPU4_BASE_MSG_RECV_QUEUES = 1"
definition IPU4_N_MAX_RECV_QUEUES :: nat where [ipu4_consts]: "IPU4_N_MAX_RECV_QUEUES = 2"
definition IPU6_ISYS_OPEN_RETRY :: nat where [ipu4_consts]: "IPU6_ISYS_OPEN_RETRY = 2000"
definition IPU6_ISYS_CLOSE_RETRY :: nat where [ipu4_consts]: "IPU6_ISYS_CLOSE_RETRY = 2000"
definition IPU6_ISYS_SIZE_RECV_QUEUE :: u32 where [ipu4_consts]: "IPU6_ISYS_SIZE_RECV_QUEUE = 40"
definition IPU6_ISYS_SIZE_SEND_QUEUE :: u32 where [ipu4_consts]: "IPU6_ISYS_SIZE_SEND_QUEUE = 40"
definition IPU6_ISYS_SIZE_PROXY_RECV_QUEUE :: u32 where [ipu4_consts]: "IPU6_ISYS_SIZE_PROXY_RECV_QUEUE = 5"
definition IPU6_ISYS_SIZE_PROXY_SEND_QUEUE :: u32 where [ipu4_consts]: "IPU6_ISYS_SIZE_PROXY_SEND_QUEUE = 5"
definition IPU6_DEVICE_GDA_NR_PAGES :: nat where [ipu4_consts]: "IPU6_DEVICE_GDA_NR_PAGES = 128"
definition IPU6_DEVICE_GDA_VIRT_FACTOR :: nat where [ipu4_consts]: "IPU6_DEVICE_GDA_VIRT_FACTOR = 32"
definition SYSCOM_BUTTRESS_FW_PARAMS_ISYS_OFFSET :: u32 where [ipu4_consts]: "SYSCOM_BUTTRESS_FW_PARAMS_ISYS_OFFSET = 0"

text \<open>The members of the platform data that are used, and their values for the IPU4.\<close>

record ipu6_isys_internal_pdata =
  num_parallel_streams :: nat
  max_streams :: nat
  max_sram_blocks :: nat
  max_send_queues :: nat
  max_devq_size :: nat

definition isys_ipdata :: ipu6_isys_internal_pdata where
  "isys_ipdata = \<lparr>num_parallel_streams = IPU4_STREAM_ID_MAX, max_streams = IPU4_ISYS_MAX_STREAMS,
     max_sram_blocks = IPU4_ISYS_MAX_STREAMS, max_send_queues = IPU4_N_MAX_SEND_QUEUES,
     max_devq_size = IPU4_ISYS_MAX_STREAMS\<rparr>"

record ipu6_fw_isys_fw_config =
  num_gda_pages :: "nat list"
  num_send_queues :: "nat list"
  num_recv_queues :: "nat list"

definition encode_fw_config :: "ipu6_fw_isys_fw_config \<Rightarrow> u8 list" where
  "encode_fw_config c = concat (map (le_bytes 4) (num_gda_pages c @ num_send_queues c @ num_recv_queues c))"

text \<open>The sizes of the tokens of the four kinds of queues.\<close>

definition sizeof_proxy_send_token :: u32 where "sizeof_proxy_send_token = 16"
definition sizeof_send_token :: u32 where "sizeof_send_token = 16"
definition sizeof_proxy_resp_token :: u32 where "sizeof_proxy_resp_token = 12"
definition sizeof_resp_token :: u32 where "sizeof_resp_token = 64"

definition set_queues ::
  "nat \<Rightarrow> nat \<Rightarrow> u32 \<Rightarrow> u32 \<Rightarrow> ipu6_fw_syscom_queue_config list \<Rightarrow> ipu6_fw_syscom_queue_config list" where
  "set_queues first n tsize qsize qs =
     fold (\<lambda>i qs. qs[first + i := \<lparr>queue_size = qsize, token_size = tsize\<rparr>]) [0..<n] qs"

definition isys_fw_cfg :: "nat \<Rightarrow> ipu6_fw_isys_fw_config" where
  "isys_fw_cfg n =
     \<lparr>num_gda_pages = map (\<lambda>i. if i < n then IPU6_DEVICE_GDA_NR_PAGES * IPU6_DEVICE_GDA_VIRT_FACTOR div n else 0)
        [0..<max_sram_blocks isys_ipdata],
      num_send_queues = [IPU4_N_MAX_PROXY_SEND_QUEUES, IPU4_N_MAX_DEV_SEND_QUEUES, n],
      num_recv_queues = [IPU4_N_MAX_PROXY_RECV_QUEUES, 0, 1]\<rparr>"

text \<open>
  The configuration is filled in once its three allocations have succeeded; otherwise the
  caller's structure stays as it is.
\<close>

definition ipu6_isys_fwcom_cfg_init ::
  "'d isys_env \<Rightarrow> 'd ipu6_fw_com_cfg \<Rightarrow> nat \<Rightarrow> 'd \<Rightarrow> unit res \<times> 'd ipu6_fw_com_cfg" where
  "ipu6_isys_fwcom_cfg_init env cfg num_streams d =
     (let n = min (max num_streams 1) (max_streams isys_ipdata);
          fc = isys_fw_cfg n;
          zero = \<lparr>queue_size = 0, token_size = 0\<rparr>
      in if \<not> kzalloc_ok env 0 d \<or> \<not> kzalloc_ok env 1 d \<or> \<not> kzalloc_ok env 2 d then (Inl ENOMEM, cfg)
         else (ok, cfg\<lparr>
           cfg_num_input_queues := word_of_nat (sum_list (num_send_queues fc)),
           cfg_num_output_queues := word_of_nat (sum_list (num_recv_queues fc)),
           cfg_input := set_queues IPU4_BASE_MSG_SEND_QUEUES n sizeof_send_token IPU6_ISYS_SIZE_SEND_QUEUE
             (set_queues IPU4_BASE_DEV_SEND_QUEUES IPU4_N_MAX_DEV_SEND_QUEUES sizeof_send_token
                (word_of_nat (max_devq_size isys_ipdata))
             (set_queues 0 IPU4_N_MAX_PROXY_SEND_QUEUES sizeof_proxy_send_token IPU6_ISYS_SIZE_PROXY_SEND_QUEUE
             (replicate (max_send_queues isys_ipdata) zero))),
           cfg_output := set_queues IPU4_BASE_MSG_RECV_QUEUES 1 sizeof_resp_token IPU6_ISYS_SIZE_RECV_QUEUE
             (set_queues 0 IPU4_N_MAX_PROXY_RECV_QUEUES sizeof_proxy_resp_token IPU6_ISYS_SIZE_PROXY_RECV_QUEUE
             (replicate IPU4_N_MAX_RECV_QUEUES zero)),
           cfg_dmem_addr := dmem_offset isys_hw_variant,
           cfg_specific_addr := Some (encode_fw_config fc),
           cfg_specific_size := word_of_nat (length (encode_fw_config fc))\<rparr>))"

section \<open>Opening and closing\<close>

text \<open>A function that uses the context without looking whether there is one.\<close>

definition with_fwcom ::
  "'a \<Rightarrow> ('d ipu6_fw_com_context \<Rightarrow> ('d ipu6_isys, 'a) state) \<Rightarrow> ('d ipu6_isys, 'a) state" where
  "with_fwcom a f = do {
     c \<leftarrow> gets fwcom;
     case c of
       None \<Rightarrow> do { modify (\<lambda>s. s\<lparr>wild := True\<rparr>); State_Monad.return a }
     | Some ctx \<Rightarrow> f ctx }"

definition ipu6_fw_isys_cleanup :: "'d isys_env \<Rightarrow> ('d ipu6_isys, unit) state" where
  "ipu6_fw_isys_cleanup env = with_fwcom () (\<lambda>ctx. do {
     on_dev (ipu6_fw_com_release (dma_put env) ctx True);
     modify (\<lambda>s. s\<lparr>fwcom := None\<rparr>) })"

fun release_loop :: "'d isys_env \<Rightarrow> 'd ipu6_fw_com_context \<Rightarrow> nat \<Rightarrow> ('d ipu6_isys, unit res) state" where
  "release_loop env ctx 0 = State_Monad.return (Inl EBUSY)"
| "release_loop env ctx (Suc retry) = do {
     ret \<leftarrow> on_dev (ipu6_fw_com_release (dma_put env) ctx False);
     case ret of
       Inr _ \<Rightarrow> State_Monad.return ok
     | Inl e \<Rightarrow> if retry = 0 then State_Monad.return (Inl e) else release_loop env ctx retry }"

definition ipu6_fw_isys_close :: "'d isys_env \<Rightarrow> ('d ipu6_isys, unit res) state" where
  "ipu6_fw_isys_close env = with_fwcom (Inl EFAULT) (\<lambda>ctx. do {
     on_dev (ipu6_fw_com_close (mmio (btrs env)) ctx);
     modify (\<lambda>s. s\<lparr>fwcom := None\<rparr>);
     ret \<leftarrow> release_loop env ctx IPU6_ISYS_CLOSE_RETRY;
     (if ret = ok then State_Monad.return () else modify (\<lambda>s. s\<lparr>fwcom := Some ctx\<rparr>));
     State_Monad.return ret })"

fun ready_loop :: "'d isys_env \<Rightarrow> 'd ipu6_fw_com_context \<Rightarrow> nat \<Rightarrow> ('d ipu6_isys, bool) state" where
  "ready_loop env ctx 0 = State_Monad.return False"
| "ready_loop env ctx (Suc retry) = do {
     r \<leftarrow> on_dev (ipu6_fw_com_ready (mmio (btrs env)) ctx);
     if r then State_Monad.return True else ready_loop env ctx retry }"

definition isys_fwcom_cfg0 :: "'d isys_env \<Rightarrow> bool \<Rightarrow> 'd ipu6_fw_com_cfg" where
  "isys_fwcom_cfg0 env prefetch =
     \<lparr>cfg_num_input_queues = 0, cfg_num_output_queues = 0, cfg_input = [], cfg_output = [],
      cfg_dmem_addr = 0, cfg_specific_addr = None, cfg_specific_size = 0,
      cfg_cell_ready = Some (query_sp env), cfg_cell_start = Some (start_sp env prefetch),
      cfg_buttress_boot_offset = SYSCOM_BUTTRESS_FW_PARAMS_ISYS_OFFSET\<rparr>"

text \<open>The result of filling in the configuration is not looked at.\<close>

definition ipu6_fw_isys_init :: "'d isys_env \<Rightarrow> nat \<Rightarrow> ('d ipu6_isys, unit res) state" where
  "ipu6_fw_isys_init env num_streams = do {
     d \<leftarrow> gets (\<lambda>s. hw (isp s));
     prefetch \<leftarrow> gets icache_prefetch;
     let cfg = snd (ipu6_isys_fwcom_cfg_init env (isys_fwcom_cfg0 env prefetch) num_streams d);
     c \<leftarrow> on_dev (ipu6_fw_com_prepare (kzalloc_ok env 3 d) (dma_get env) (dma_sync_fn env) (Some cfg) (ibase env));
     modify (\<lambda>s. s\<lparr>fwcom := c\<rparr>);
     case c of
       None \<Rightarrow> State_Monad.return (Inl EIO)
     | Some ctx \<Rightarrow> do {
         ret \<leftarrow> on_dev (ipu6_fw_com_open (mmio (btrs env)) ctx);
         case ret of
           Inl e \<Rightarrow> State_Monad.return (Inl e)
         | Inr _ \<Rightarrow> do {
             up \<leftarrow> ready_loop env ctx IPU6_ISYS_OPEN_RETRY;
             if up then State_Monad.return ok
             else do {
               ipu6_fw_isys_close env;
               State_Monad.return (Inl EIO) } } } }"

definition ipu6_fw_isys_open :: "'d isys_env \<Rightarrow> ('d ipu6_isys, unit res) state" where
  "ipu6_fw_isys_open env = do {
     ipu6_configure_spc env IPU6_CPD_PKG_DIR_ISYS_SERVER_IDX;
     ipu6_cleanup_fw_msg_bufs;
     old \<leftarrow> gets fwcom;
     (if old \<noteq> None then ipu6_fw_isys_cleanup env else State_Monad.return ());
     ipu6_fw_isys_init env (num_parallel_streams isys_ipdata) }"

section \<open>Commands\<close>

definition IPU6_FW_ISYS_SEND_TYPE_STREAM_OPEN :: u16 where [ipu4_consts]: "IPU6_FW_ISYS_SEND_TYPE_STREAM_OPEN = 0"
definition IPU6_FW_ISYS_SEND_TYPE_STREAM_START :: u16 where [ipu4_consts]: "IPU6_FW_ISYS_SEND_TYPE_STREAM_START = 1"
definition IPU6_FW_ISYS_SEND_TYPE_STREAM_START_AND_CAPTURE :: u16 where [ipu4_consts]: "IPU6_FW_ISYS_SEND_TYPE_STREAM_START_AND_CAPTURE = 2"
definition IPU6_FW_ISYS_SEND_TYPE_STREAM_CAPTURE :: u16 where [ipu4_consts]: "IPU6_FW_ISYS_SEND_TYPE_STREAM_CAPTURE = 3"
definition IPU6_FW_ISYS_SEND_TYPE_STREAM_STOP :: u16 where [ipu4_consts]: "IPU6_FW_ISYS_SEND_TYPE_STREAM_STOP = 4"
definition IPU6_FW_ISYS_SEND_TYPE_STREAM_FLUSH :: u16 where [ipu4_consts]: "IPU6_FW_ISYS_SEND_TYPE_STREAM_FLUSH = 5"
definition IPU6_FW_ISYS_SEND_TYPE_STREAM_CLOSE :: u16 where [ipu4_consts]: "IPU6_FW_ISYS_SEND_TYPE_STREAM_CLOSE = 6"
definition N_IPU6_FW_ISYS_SEND_TYPE :: u16 where [ipu4_consts]: "N_IPU6_FW_ISYS_SEND_TYPE = 7"

definition store_host :: "'d isys_env \<Rightarrow> u64 \<Rightarrow> u8 list \<Rightarrow> ('d ipu6_isys, unit) state" where
  "store_host env a bs = on_dev (State (\<lambda>d. ((), host_store env a bs d)))"

text \<open>The fields of a token that are set; the stream of the token is left as it is.\<close>

definition send_token_bytes :: "u64 \<Rightarrow> u64 \<Rightarrow> u16 \<Rightarrow> u8 list" where
  "send_token_bytes cpu da send_type =
     le_bytes 8 (unat cpu) @ le_bytes 4 (unat (ucast da :: u32)) @ le_bytes 2 (unat send_type)"

text \<open>A queue number that the context does not have leads outside of its queues.\<close>

definition ipu6_fw_isys_complex_cmd ::
  "'d isys_env \<Rightarrow> nat \<Rightarrow> u64 \<Rightarrow> u64 \<Rightarrow> u16 \<Rightarrow> ('d ipu6_isys, unit res) state" where
  "ipu6_fw_isys_complex_cmd env handle cpu da send_type =
     (if send_type \<ge> N_IPU6_FW_ISYS_SEND_TYPE then State_Monad.return (Inl EINVAL)
      else with_fwcom (Inl EFAULT) (\<lambda>ctx.
        if handle + IPU4_BASE_MSG_SEND_QUEUES \<ge> length (input_queue ctx)
        then do { modify (\<lambda>s. s\<lparr>wild := True\<rparr>); State_Monad.return (Inl EFAULT) }
        else do {
          token \<leftarrow> on_dev (ipu6_send_get_token (mmio (btrs env)) ctx (handle + IPU4_BASE_MSG_SEND_QUEUES));
          case token of
            None \<Rightarrow> State_Monad.return (Inl EBUSY)
          | Some t \<Rightarrow> do {
              store_host env t (send_token_bytes cpu da send_type);
              on_dev (ipu6_send_put_token (mmio (btrs env)) ctx (handle + IPU4_BASE_MSG_SEND_QUEUES));
              State_Monad.return ok } }))"

definition ipu6_fw_isys_simple_cmd :: "'d isys_env \<Rightarrow> nat \<Rightarrow> u16 \<Rightarrow> ('d ipu6_isys, unit res) state" where
  "ipu6_fw_isys_simple_cmd env handle send_type = ipu6_fw_isys_complex_cmd env handle 0 0 send_type"

text \<open>Requests to write a register on behalf of the driver. \<open>None\<close> is the return value 1.\<close>

definition handle_proxy_response ::
  "'d isys_env \<Rightarrow> 'd ipu6_fw_com_context \<Rightarrow> u32 \<Rightarrow> ('d ipu6_isys, unit res option) state" where
  "handle_proxy_response env ctx req_id = do {
     resp \<leftarrow> on_dev (ipu6_recv_get_token (mmio (btrs env)) ctx IPU4_BASE_PROXY_RECV_QUEUES);
     case resp of
       None \<Rightarrow> State_Monad.return None
     | Some t \<Rightarrow> do {
         bs \<leftarrow> gets (\<lambda>s. host_load env t 12 (hw (isp s)));
         on_dev (ipu6_recv_put_token (mmio (btrs env)) ctx IPU4_BASE_PROXY_RECV_QUEUES);
         State_Monad.return (Some (if req_id = field_at 0 4 bs then ok else Inl EIO)) } }"

fun proxy_loop ::
  "'d isys_env \<Rightarrow> 'd ipu6_fw_com_context \<Rightarrow> u32 \<Rightarrow> nat \<Rightarrow> ('d ipu6_isys, unit res option) state" where
  "proxy_loop env ctx req_id 0 = State_Monad.return None"
| "proxy_loop env ctx req_id (Suc timeout) = do {
     ret \<leftarrow> handle_proxy_response env ctx req_id;
     if ret = None then proxy_loop env ctx req_id timeout else State_Monad.return ret }"

definition ipu6_fw_isys_send_proxy_token ::
  "'d isys_env \<Rightarrow> u32 \<Rightarrow> u32 \<Rightarrow> u32 \<Rightarrow> u32 \<Rightarrow> ('d ipu6_isys, unit res option) state" where
  "ipu6_fw_isys_send_proxy_token env req_id index offs value = with_fwcom (Some (Inl EFAULT)) (\<lambda>ctx.
     if input_queue ctx = [] \<or> output_queue ctx = []
     then do { modify (\<lambda>s. s\<lparr>wild := True\<rparr>); State_Monad.return (Some (Inl EFAULT)) }
     else do {
     token \<leftarrow> on_dev (ipu6_send_get_token (mmio (btrs env)) ctx IPU4_BASE_PROXY_SEND_QUEUES);
     case token of
       None \<Rightarrow> State_Monad.return (Some (Inl EBUSY))
     | Some t \<Rightarrow> do {
         store_host env t (concat (map (\<lambda>w. le_bytes 4 (unat w)) [req_id, index, offs, value]));
         on_dev (ipu6_send_put_token (mmio (btrs env)) ctx IPU4_BASE_PROXY_SEND_QUEUES);
         proxy_loop env ctx req_id 1000 } })"

section \<open>Responses\<close>

record ipu6_fw_isys_resp_info_abi =
  ri_buf_handle :: u64
  ri_pin_addr :: u32
  ri_error :: u32
  ri_timestamp :: u64
  ri_stream_handle :: u8
  ri_type :: u8
  ri_pin_id :: u8

definition resp_info_at :: "u8 list \<Rightarrow> ipu6_fw_isys_resp_info_abi" where
  "resp_info_at bs = \<lparr>ri_buf_handle = field_at 0 8 bs, ri_pin_addr = field_at 16 4 bs, ri_error = field_at 40 4 bs,
     ri_timestamp = push_bit 32 (field_at 52 4 bs) OR field_at 48 4 bs,
     ri_stream_handle = field_at 56 1 bs, ri_type = field_at 57 1 bs, ri_pin_id = field_at 58 1 bs\<rparr>"

definition ipu6_fw_isys_get_resp ::
  "'d isys_env \<Rightarrow> 'd ipu6_fw_com_context \<Rightarrow> nat \<Rightarrow> ('d ipu6_isys, ipu6_fw_isys_resp_info_abi option) state" where
  "ipu6_fw_isys_get_resp env ctx q =
     (if q \<ge> length (output_queue ctx) then do { modify (\<lambda>s. s\<lparr>wild := True\<rparr>); State_Monad.return None }
     else do {
     t \<leftarrow> on_dev (ipu6_recv_get_token (mmio (btrs env)) ctx q);
     case t of
       None \<Rightarrow> State_Monad.return None
     | Some a \<Rightarrow> gets (\<lambda>s. Some (resp_info_at (host_load env a 64 (hw (isp s))))) })"

definition ipu6_fw_isys_put_resp :: "'d isys_env \<Rightarrow> 'd ipu6_fw_com_context \<Rightarrow> nat \<Rightarrow> ('d ipu6_isys, unit) state" where
  "ipu6_fw_isys_put_resp env ctx q = on_dev (ipu6_recv_put_token (mmio (btrs env)) ctx q)"

end
