(* ===== verification/Fw_Isys_Props.thy ===== *)
theory Fw_Isys_Props
  imports Fw_Isys Isys_Example
begin

unbundle bit_operations_syntax

text \<open>
  Properties of the firmware interface: the queues that the driver configures are the ones
  that the device decodes, and what happens when the configuration cannot be allocated.
\<close>

section \<open>The queues of the configuration\<close>

lemma set_queues_0 [simp]: "set_queues b 0 ts qs xs = xs"
  by (simp add: set_queues_def)

lemma set_queues_1: "set_queues b (Suc 0) ts qs xs = xs[b := \<lparr>queue_size = qs, token_size = ts\<rparr>]"
  by (simp add: set_queues_def)

lemma replicate_8: "replicate 8 z = [z, z, z, z, z, z, z, z]"
  by (simp add: numeral_eq_Suc)

lemma set_queues_8:
  "set_queues 2 8 ts qs [a0, a1, a2, a3, a4, a5, a6, a7, a8, a9] =
   [a0, a1] @ replicate 8 \<lparr>queue_size = qs, token_size = ts\<rparr>"
  by (simp add: set_queues_def upt_rec replicate_8)

definition send_q :: ipu6_fw_syscom_queue_config where "send_q = \<lparr>queue_size = 40, token_size = 16\<rparr>"

lemma cfg_init_queues:
  assumes "kzalloc_ok env 0 d" "kzalloc_ok env 1 d" "kzalloc_ok env 2 d"
    and "cfg = snd (ipu6_isys_fwcom_cfg_init env cfg0 8 d)"
  shows "cfg_num_input_queues cfg = 10" "cfg_num_output_queues cfg = 2"
    "cfg_input cfg = [\<lparr>queue_size = 5, token_size = 16\<rparr>, \<lparr>queue_size = 8, token_size = 16\<rparr>] @ replicate 8 send_q"
    "cfg_output cfg = [\<lparr>queue_size = 5, token_size = 12\<rparr>, \<lparr>queue_size = 40, token_size = 64\<rparr>]"
    "cfg_dmem_addr cfg = 0x8000" "cfg_specific_size cfg = 56"
    "cfg_cell_ready cfg = cfg_cell_ready cfg0" "cfg_cell_start cfg = cfg_cell_start cfg0"
proof -
  have n: "replicate 10 z = [z, z, z, z, z, z, z, z, z, z]" for z :: ipu6_fw_syscom_queue_config
    by (simp add: numeral_eq_Suc)
  have m: "replicate 2 z = [z, z]" for z :: ipu6_fw_syscom_queue_config
    by (simp add: numeral_eq_Suc)
  have "length (encode_fw_config (isys_fw_cfg 8)) = 56"
    by (simp add: encode_fw_config_def isys_fw_cfg_def isys_ipdata_def ipu4_consts length_concat comp_def upt_rec)
  then show "cfg_num_input_queues cfg = 10" "cfg_num_output_queues cfg = 2"
    "cfg_input cfg = [\<lparr>queue_size = 5, token_size = 16\<rparr>, \<lparr>queue_size = 8, token_size = 16\<rparr>] @ replicate 8 send_q"
    "cfg_output cfg = [\<lparr>queue_size = 5, token_size = 12\<rparr>, \<lparr>queue_size = 40, token_size = 64\<rparr>]"
    "cfg_dmem_addr cfg = 0x8000" "cfg_specific_size cfg = 56"
    "cfg_cell_ready cfg = cfg_cell_ready cfg0" "cfg_cell_start cfg = cfg_cell_start cfg0"
    using assms
    by (simp_all add: ipu6_isys_fwcom_cfg_init_def Let_def isys_ipdata_def isys_fw_cfg_def ipu4_consts n m
        set_queues_1 set_queues_8 sizeof_send_token_def sizeof_proxy_send_token_def sizeof_proxy_resp_token_def
        sizeof_resp_token_def send_q_def isys_hw_variant_def)
qed

text \<open>The registers of a list of queues: two for each.\<close>

lemma queues_init_regs:
  "sys_queues_init cs res = (qs, res') \<Longrightarrow>
    map q_wr_reg qs = map (\<lambda>i. res_reg res + word_of_nat (2 * i)) [0..<length cs] \<and>
    map q_rd_reg qs = map (\<lambda>i. res_reg res + word_of_nat (2 * i) + 1) [0..<length cs] \<and>
    map q_size qs = map (\<lambda>c. queue_size c + 1) cs \<and> map q_token_size qs = map token_size cs \<and>
    res_reg res' = res_reg res + word_of_nat (2 * length cs)"
proof (induction cs arbitrary: res qs res')
  case (Cons c cs)
  obtain q r1 where q: "ipu6_sys_queue_init zero_queue (queue_size c) (token_size c) res = (q, r1)"
    by (rule prod.exhaust)
  obtain qs1 r2 where r: "sys_queues_init cs r1 = (qs1, r2)"
    by (rule prod.exhaust)
  have e: "qs = q # qs1" "res' = r2"
    using Cons.prems q r by simp_all
  have q1: "q_wr_reg q = res_reg res" "q_rd_reg q = res_reg res + 1" "q_size q = queue_size c + 1"
    "q_token_size q = token_size c" "res_reg r1 = res_reg res + 2"
    using q by (auto simp: ipu6_sys_queue_init_def Let_def)
  have up: "[0..<length (c # cs)] = 0 # map Suc [0..<length cs]"
    by (simp add: map_Suc_upt upt_conv_Cons del: upt_Suc)
  show ?case
    using Cons.IH [OF r] unfolding e up by (simp add: q1 comp_def algebra_simps)
qed simp

lemma isys_ctx_queues:
  assumes "ctx = fw_com_ctx_init cfg ready start base v h"
    and "n = unat (cfg_num_input_queues cfg)" "n = length (cfg_input cfg)"
    and "m = unat (cfg_num_output_queues cfg)" "m = length (cfg_output cfg)"
  shows "map q_wr_reg (input_queue ctx) = map (\<lambda>i. 6 + word_of_nat (2 * i)) [0..<n]"
    "map q_rd_reg (input_queue ctx) = map (\<lambda>i. 6 + word_of_nat (2 * i) + 1) [0..<n]"
    "map q_size (input_queue ctx) = map (\<lambda>c. queue_size c + 1) (cfg_input cfg)"
    "map q_token_size (input_queue ctx) = map token_size (cfg_input cfg)"
    "map q_wr_reg (output_queue ctx) = map (\<lambda>i. 6 + word_of_nat (2 * n) + word_of_nat (2 * i)) [0..<m]"
    "map q_rd_reg (output_queue ctx) = map (\<lambda>i. 6 + word_of_nat (2 * n) + word_of_nat (2 * i) + 1) [0..<m]"
    "map q_size (output_queue ctx) = map (\<lambda>c. queue_size c + 1) (cfg_output cfg)"
    "map q_token_size (output_queue ctx) = map token_size (cfg_output cfg)"
    "dmem_addr ctx = base + ucast (cfg_dmem_addr cfg)"
proof -
  have t: "take n (cfg_input cfg) = cfg_input cfg" "take m (cfg_output cfg) = cfg_output cfg"
    using assms(3,5) by simp_all
  have "\<exists>hi vi ho vo r1 r2.
      sys_queues_init (cfg_input cfg) \<lparr>res_host_address = hi, res_vied_address = vi, res_reg = SYSCOM_QPR_BASE_REG\<rparr>
        = (input_queue ctx, r1) \<and>
      sys_queues_init (cfg_output cfg) \<lparr>res_host_address = ho, res_vied_address = vo, res_reg = res_reg r1\<rparr>
        = (output_queue ctx, r2)"
    unfolding assms(1) fw_com_ctx_init_def Let_def case_prod_beta assms(2) [symmetric] assms(4) [symmetric] t
      ipu6_fw_com_context.simps
    by (intro exI conjI, (rule surjective_pairing)+)
  then obtain ri ro r1 r2 where q: "sys_queues_init (cfg_input cfg) ri = (input_queue ctx, r1)"
    "sys_queues_init (cfg_output cfg) ro = (output_queue ctx, r2)" and rr: "res_reg ri = 6" "res_reg ro = res_reg r1"
    by (fastforce simp: ipu4_consts)
  show "dmem_addr ctx = base + ucast (cfg_dmem_addr cfg)"
    by (simp add: assms(1) fw_com_ctx_init_def Let_def case_prod_beta)
  show "map q_wr_reg (input_queue ctx) = map (\<lambda>i. 6 + word_of_nat (2 * i)) [0..<n]"
    "map q_rd_reg (input_queue ctx) = map (\<lambda>i. 6 + word_of_nat (2 * i) + 1) [0..<n]"
    "map q_size (input_queue ctx) = map (\<lambda>c. queue_size c + 1) (cfg_input cfg)"
    "map q_token_size (input_queue ctx) = map token_size (cfg_input cfg)"
    "map q_wr_reg (output_queue ctx) = map (\<lambda>i. 6 + word_of_nat (2 * n) + word_of_nat (2 * i)) [0..<m]"
    "map q_rd_reg (output_queue ctx) = map (\<lambda>i. 6 + word_of_nat (2 * n) + word_of_nat (2 * i) + 1) [0..<m]"
    "map q_size (output_queue ctx) = map (\<lambda>c. queue_size c + 1) (cfg_output cfg)"
    "map q_token_size (output_queue ctx) = map token_size (cfg_output cfg)"
    using queues_init_regs [OF q(1)] queues_init_regs [OF q(2)] rr assms(3,5) by simp_all
qed

lemma prepare_run:
  assumes "cfg_cell_start cfg = Some start" "cfg_cell_ready cfg = Some ready"
    and "run_state (alloc (prepare_sizeall cfg)) d = (Some (v, h), d1)"
  shows "fst (run_state (ipu6_fw_com_prepare True alloc sync (Some cfg) base) d) =
    Some (fw_com_ctx_init cfg ready start base v h)"
  using assms by (simp add: ipu6_fw_com_prepare_def case_prod_beta)

text \<open>
  C24: The queues that the driver sets up for the input system are the ones the device
  decodes: when the allocations succeed, the message queue of stream k has the index
  registers that the device takes for stream k, the response queue has the device's, each
  with 41 slots of 16 and of 64 bytes, and the registers are where the device's data memory is.
\<close>

theorem isys_queues_as_decoded:
  assumes "kzalloc_ok env 0 d" "kzalloc_ok env 1 d" "kzalloc_ok env 2 d" "ibase env = bar + 0x100000"
    and "cfg = snd (ipu6_isys_fwcom_cfg_init env (isys_fwcom_cfg0 env prefetch) (num_parallel_streams isys_ipdata) d)"
    and "run_state (dma_get env (prepare_sizeall cfg)) d = (Some (v, h), d1)"
  shows "\<exists>ctx. fst (run_state (ipu6_fw_com_prepare True (dma_get env) (dma_sync_fn env) (Some cfg) (ibase env)) d) = Some ctx \<and>
    map (\<lambda>q. (unat (q_wr_reg q), unat (q_rd_reg q), q_size q, q_token_size q)) (drop 2 (input_queue ctx)) =
      map (\<lambda>k. (send_wr_reg k, send_rd_reg k, 41, 16)) [0..<8] \<and>
    map (\<lambda>q. (unat (q_wr_reg q), unat (q_rd_reg q), q_size q, q_token_size q)) (drop 1 (output_queue ctx)) =
      [(recv_wr_reg, recv_rd_reg, 41, 64)] \<and>
    dmem_addr ctx = bar + IS_DMEM_BASE"
proof -
  have eight: "num_parallel_streams isys_ipdata = 8"
    by (simp add: isys_ipdata_def ipu4_consts)
  note cfg = cfg_init_queues [OF assms(1-3) assms(5) [unfolded eight]]
  let ?ctx = "fw_com_ctx_init cfg (query_sp env) (start_sp env prefetch) (ibase env) v h"
  have run: "fst (run_state (ipu6_fw_com_prepare True (dma_get env) (dma_sync_fn env) (Some cfg) (ibase env)) d) = Some ?ctx"
    using assms(6) by (intro prepare_run) (simp_all add: cfg isys_fwcom_cfg0_def)
  have "10 = unat (cfg_num_input_queues cfg)" "10 = length (cfg_input cfg)"
    "2 = unat (cfg_num_output_queues cfg)" "2 = length (cfg_output cfg)"
    by (simp_all add: cfg)
  note q = isys_ctx_queues [OF refl this, of "query_sp env" "start_sp env prefetch" "ibase env" v h]
  have split: "map (\<lambda>q. (unat (q_wr_reg q), unat (q_rd_reg q), q_size q, q_token_size q)) (drop n qs) =
      drop n (zip (map unat (map q_wr_reg qs)) (zip (map unat (map q_rd_reg qs)) (zip (map q_size qs) (map q_token_size qs))))"
    for n and qs :: "ipu6_fw_sys_queue list"
    by (simp add: drop_map zip_map_map zip_same_conv_map comp_def case_prod_beta)
  have ins: "map (\<lambda>q. (unat (q_wr_reg q), unat (q_rd_reg q), q_size q, q_token_size q)) (drop 2 (input_queue ?ctx)) =
      map (\<lambda>k. (send_wr_reg k, send_rd_reg k, 41, 16)) [0..<8]"
    unfolding split q cfg by (simp add: upt_rec replicate_8 send_q_def send_wr_reg_def send_rd_reg_def)
  have outs: "map (\<lambda>q. (unat (q_wr_reg q), unat (q_rd_reg q), q_size q, q_token_size q)) (drop 1 (output_queue ?ctx)) =
      [(recv_wr_reg, recv_rd_reg, 41, 64)]"
    unfolding split q cfg by (simp add: upt_rec recv_wr_reg_def recv_rd_reg_def)
  have dmem: "dmem_addr ?ctx = bar + IS_DMEM_BASE"
    using q(9) by (simp add: cfg assms(4) ipu4_consts add.assoc)
  show ?thesis
    by (intro exI [of _ ?ctx] conjI run ins outs dmem)
qed

theorem isys_queues_as_decoded_witness:
  "\<exists>ctx. fst (run_state (ipu6_fw_com_prepare True (dma_get ex_ienv) (dma_sync_fn ex_ienv)
      (Some (snd (ipu6_isys_fwcom_cfg_init ex_ienv (isys_fwcom_cfg0 ex_ienv False) (num_parallel_streams isys_ipdata) (ipu4_reset, \<lambda>_. 0))))
      (ibase ex_ienv)) (ipu4_reset, \<lambda>_. 0)) = Some ctx \<and> dmem_addr ctx = 0x108000"
proof -
  let ?d = "(ipu4_reset, \<lambda>_. 0) :: (nat \<Rightarrow> u8) dev"
  have "run_state (dma_get ex_ienv n) ?d = (Some (0x10000, 0x10000), ?d)" for n
    by (simp add: ex_ienv_def)
  then show ?thesis
    using isys_queues_as_decoded [where env = ex_ienv and d = ?d and bar = 0 and prefetch = False, OF _ _ _ _ refl]
    by (auto simp: ipu4_consts)
qed

section \<open>A configuration that could not be allocated\<close>

lemma cfg_init_fails:
  "\<not> kzalloc_ok env 0 d \<or> \<not> kzalloc_ok env 1 d \<or> \<not> kzalloc_ok env 2 d \<Longrightarrow>
   ipu6_isys_fwcom_cfg_init env cfg n d = (Inl ENOMEM, cfg)"
  by (auto simp: ipu6_isys_fwcom_cfg_init_def Let_def)

text \<open>
  When an allocation for the queue configuration fails, the driver goes on: the result is
  not looked at. The context then has no queue, and the base of the data memory in it is the base
  of the processor's registers, so that opening the connection writes the state, the command and
  the address of the configuration there, the last one to the start address of the processor.
\<close>

theorem cfg_failure_unnoticed:
  assumes "\<not> kzalloc_ok env 0 d \<or> \<not> kzalloc_ok env 1 d \<or> \<not> kzalloc_ok env 2 d"
    and "ipu6_isys_fwcom_cfg_init env (isys_fwcom_cfg0 env prefetch) n d = (r, cfg)"
    and "run_state (dma_get env (prepare_sizeall cfg)) d = (Some (v, h), d1)"
  shows "r = Inl ENOMEM \<and>
    (\<exists>ctx. fst (run_state (ipu6_fw_com_prepare True (dma_get env) (dma_sync_fn env) (Some cfg) (ibase env)) d) = Some ctx \<and>
      input_queue ctx = [] \<and> output_queue ctx = [] \<and>
      dmem_addr ctx + SYSCOM_CONFIG_REG * 4 = ibase env + spc_reg + IPU6_PSYS_REG_SPC_START_PC)"
proof -
  have c: "r = Inl ENOMEM" "cfg = isys_fwcom_cfg0 env prefetch"
    using assms(2) cfg_init_fails [OF assms(1), of "isys_fwcom_cfg0 env prefetch" n] by simp_all
  let ?ctx = "fw_com_ctx_init cfg (query_sp env) (start_sp env prefetch) (ibase env) v h"
  have "fst (run_state (ipu6_fw_com_prepare True (dma_get env) (dma_sync_fn env) (Some cfg) (ibase env)) d) = Some ?ctx"
    using assms(3) by (intro prepare_run) (simp_all add: c isys_fwcom_cfg0_def)
  moreover have "input_queue ?ctx = []" "output_queue ?ctx = []"
    "dmem_addr ?ctx + SYSCOM_CONFIG_REG * 4 = ibase env + spc_reg + IPU6_PSYS_REG_SPC_START_PC"
    by (simp_all add: c fw_com_ctx_init_def isys_fwcom_cfg0_def Let_def spc_reg_def isys_hw_variant_def ipu4_consts)
  ultimately show ?thesis
    using c(1) by simp
qed

definition ex_fail_env :: "(nat \<Rightarrow> u8) dev isys_env" where
  "ex_fail_env = ex_ienv\<lparr>kzalloc_ok := (\<lambda>n _. n \<noteq> 0)\<rparr>"

theorem cfg_failure_unnoticed_witness:
  "\<exists>ctx. fst (run_state (ipu6_fw_com_prepare True (dma_get ex_fail_env) (dma_sync_fn ex_fail_env)
      (Some (isys_fwcom_cfg0 ex_fail_env False)) (ibase ex_fail_env)) (ipu4_reset, \<lambda>_. 0)) = Some ctx \<and> input_queue ctx = []"
proof -
  let ?d = "(ipu4_reset, \<lambda>_. 0) :: (nat \<Rightarrow> u8) dev"
  have f: "\<not> kzalloc_ok ex_fail_env 0 ?d \<or> \<not> kzalloc_ok ex_fail_env 1 ?d \<or> \<not> kzalloc_ok ex_fail_env 2 ?d"
    by (simp add: ex_fail_env_def)
  have "run_state (dma_get ex_fail_env n) ?d = (Some (0x10000, 0x10000), ?d)" for n
    by (simp add: ex_fail_env_def ex_ienv_def)
  from cfg_failure_unnoticed [OF f cfg_init_fails [OF f, of _ 8] this] show ?thesis
    by blast
qed

end
