(* ===== verification/Isys_Isr.thy ===== *)
theory Isys_Isr
  imports Isys_Queue Fw_Isys Isys_Formats
begin

unbundle bit_operations_syntax

text \<open>
  The interrupt handling of the input system: the responses of the firmware and the top level
  handler (\<^verbatim>\<open>kernel/ipu4/ipu6-isys.c\<close>) and the errors of the CSI-2 receivers (\<^verbatim>\<open>ipu6-isys-csi2.c\<close>), with the
  programming of the interrupts and the waits for the firmware.
\<close>

section \<open>Registers\<close>

definition IPU4_REG_ISYS_UNISPART_IRQ_EDGE :: u64 where [ipu4_consts]: "IPU4_REG_ISYS_UNISPART_IRQ_EDGE = 0x7c000"
definition IPU4_REG_ISYS_UNISPART_IRQ_MASK :: u64 where [ipu4_consts]: "IPU4_REG_ISYS_UNISPART_IRQ_MASK = 0x7c004"
definition IPU4_REG_ISYS_UNISPART_IRQ_STATUS :: u64 where [ipu4_consts]: "IPU4_REG_ISYS_UNISPART_IRQ_STATUS = 0x7c008"
definition IPU4_REG_ISYS_UNISPART_IRQ_CLEAR :: u64 where [ipu4_consts]: "IPU4_REG_ISYS_UNISPART_IRQ_CLEAR = 0x7c00c"
definition IPU4_REG_ISYS_UNISPART_IRQ_ENABLE :: u64 where [ipu4_consts]: "IPU4_REG_ISYS_UNISPART_IRQ_ENABLE = 0x7c010"
definition IPU4_REG_ISYS_UNISPART_IRQ_LEVEL_NOT_PULSE :: u64 where [ipu4_consts]: "IPU4_REG_ISYS_UNISPART_IRQ_LEVEL_NOT_PULSE = 0x7c014"
definition IPU4_REG_ISYS_UNISPART_SW_IRQ_REG :: u64 where [ipu4_consts]: "IPU4_REG_ISYS_UNISPART_SW_IRQ_REG = 0x7c414"
definition IPU4_REG_ISYS_UNISPART_SW_IRQ_MUX_REG :: u64 where [ipu4_consts]: "IPU4_REG_ISYS_UNISPART_SW_IRQ_MUX_REG = 0x7c418"
definition IPU4_ISYS_UNISPART_IRQ_SW :: u32 where [ipu4_consts]: "IPU4_ISYS_UNISPART_IRQ_SW = 0x40000000"
definition IPU4_ISYS_MAX_CSI2_LEGACY_PORTS :: nat where [ipu4_consts]: "IPU4_ISYS_MAX_CSI2_LEGACY_PORTS = 4"

definition CSI2_REG_CSI2PART_IRQ_EDGE :: u64 where [ipu4_consts]: "CSI2_REG_CSI2PART_IRQ_EDGE = 0x400"
definition CSI2_REG_CSI2PART_IRQ_MASK :: u64 where [ipu4_consts]: "CSI2_REG_CSI2PART_IRQ_MASK = 0x404"
definition CSI2_REG_CSI2PART_IRQ_STATUS :: u64 where [ipu4_consts]: "CSI2_REG_CSI2PART_IRQ_STATUS = 0x408"
definition CSI2_REG_CSI2PART_IRQ_CLEAR :: u64 where [ipu4_consts]: "CSI2_REG_CSI2PART_IRQ_CLEAR = 0x40c"
definition CSI2_REG_CSI2PART_IRQ_ENABLE :: u64 where [ipu4_consts]: "CSI2_REG_CSI2PART_IRQ_ENABLE = 0x410"
definition CSI2_REG_CSI2PART_IRQ_LEVEL_NOT_PULSE :: u64 where [ipu4_consts]: "CSI2_REG_CSI2PART_IRQ_LEVEL_NOT_PULSE = 0x414"
definition CSI2_CSI2PART_IRQ_CSIRX :: u32 where [ipu4_consts]: "CSI2_CSI2PART_IRQ_CSIRX = 0x10000"
definition CSI2_REG_CSIRX_IRQ_EDGE :: u64 where [ipu4_consts]: "CSI2_REG_CSIRX_IRQ_EDGE = 0x500"
definition CSI2_REG_CSIRX_IRQ_MASK :: u64 where [ipu4_consts]: "CSI2_REG_CSIRX_IRQ_MASK = 0x504"
definition CSI2_REG_CSIRX_IRQ_STATUS :: u64 where [ipu4_consts]: "CSI2_REG_CSIRX_IRQ_STATUS = 0x508"
definition CSI2_REG_CSIRX_IRQ_CLEAR :: u64 where [ipu4_consts]: "CSI2_REG_CSIRX_IRQ_CLEAR = 0x50c"
definition CSI2_REG_CSIRX_IRQ_ENABLE :: u64 where [ipu4_consts]: "CSI2_REG_CSIRX_IRQ_ENABLE = 0x510"
definition CSI2_REG_CSIRX_IRQ_LEVEL_NOT_PULSE :: u64 where [ipu4_consts]: "CSI2_REG_CSIRX_IRQ_LEVEL_NOT_PULSE = 0x514"
definition CSI2_CSIRX_NUM_ERRORS :: nat where [ipu4_consts]: "CSI2_CSIRX_NUM_ERRORS = 17"
definition CSI2_REG_CSI2S2M_IRQ_MASK :: u64 where [ipu4_consts]: "CSI2_REG_CSI2S2M_IRQ_MASK = 0x604"
definition CSI2_REG_CSI2S2M_IRQ_ENABLE :: u64 where [ipu4_consts]: "CSI2_REG_CSI2S2M_IRQ_ENABLE = 0x610"

definition ipu4_csi_offsets :: "u64 list" where
  "ipu4_csi_offsets = [0x64000, 0x65000, 0x66000, 0x67000, 0x6C000, 0x6C800]"

definition IPU4_ISYS_UNISPART_IRQ_CSI2 :: "nat \<Rightarrow> u32" where
  "IPU4_ISYS_UNISPART_IRQ_CSI2 port =
     (if port < IPU4_ISYS_MAX_CSI2_LEGACY_PORTS then push_bit port 0x8
      else push_bit (port - IPU4_ISYS_MAX_CSI2_LEGACY_PORTS) 0x800)"

definition IPU_CSI_RX_IRQ_FS_VC :: "nat \<Rightarrow> u32" where
  "IPU_CSI_RX_IRQ_FS_VC chn = push_bit (chn * 4) 1"

definition IPU_CSI_RX_IRQ_FE_VC :: "nat \<Rightarrow> u32" where
  "IPU_CSI_RX_IRQ_FE_VC chn = push_bit (chn * 4) 2"

definition csi2_readl :: "'d isys_env \<Rightarrow> nat \<Rightarrow> u64 \<Rightarrow> ('d ipu6_isys, u32) state" where
  "csi2_readl env port r = on_dev (isys_readl env (ipu4_csi_offsets ! port + r))"

definition csi2_writel :: "'d isys_env \<Rightarrow> nat \<Rightarrow> u32 \<Rightarrow> u64 \<Rightarrow> ('d ipu6_isys, unit) state" where
  "csi2_writel env port v r = on_dev (isys_writel env v (ipu4_csi_offsets ! port + r))"

text \<open>All receivers and the firmware may interrupt; the IPU4 has no threshold of the clock domain crossing to set.\<close>

definition isys_setup_hw :: "'d isys_env \<Rightarrow> ('d, unit) state" where
  "isys_setup_hw env = do {
     let irqs = IPU4_ISYS_UNISPART_IRQ_CSI2 0 OR IPU4_ISYS_UNISPART_IRQ_CSI2 1 OR IPU4_ISYS_UNISPART_IRQ_CSI2 2
       OR IPU4_ISYS_UNISPART_IRQ_CSI2 3 OR IPU4_ISYS_UNISPART_IRQ_CSI2 4 OR IPU4_ISYS_UNISPART_IRQ_CSI2 5
       OR IPU4_ISYS_UNISPART_IRQ_SW;
     isys_writel env irqs IPU4_REG_ISYS_UNISPART_IRQ_EDGE;
     isys_writel env irqs IPU4_REG_ISYS_UNISPART_IRQ_LEVEL_NOT_PULSE;
     isys_writel env irqs IPU4_REG_ISYS_UNISPART_IRQ_CLEAR;
     isys_writel env irqs IPU4_REG_ISYS_UNISPART_IRQ_MASK;
     isys_writel env irqs IPU4_REG_ISYS_UNISPART_IRQ_ENABLE;
     isys_writel env 0 IPU4_REG_ISYS_UNISPART_SW_IRQ_REG;
     isys_writel env 0 IPU4_REG_ISYS_UNISPART_SW_IRQ_MUX_REG }"

section \<open>Receiver errors\<close>

definition ipu4_isys_register_errors :: "'d isys_env \<Rightarrow> nat \<Rightarrow> ('d ipu6_isys, unit) state" where
  "ipu4_isys_register_errors env port = do {
     status \<leftarrow> csi2_readl env port CSI2_REG_CSIRX_IRQ_STATUS;
     csi2_writel env port status CSI2_REG_CSIRX_IRQ_CLEAR;
     modify (\<lambda>s. s\<lparr>receiver_errors := (receiver_errors s)[port := receiver_errors s ! port OR status]\<rparr>) }"

text \<open>The messages for the bits of the status, and whether they are information only.\<close>

definition csi2_errors :: "(string \<times> bool) list" where
  "csi2_errors = [
     (''Single packet header error corrected'', True), (''Multiple packet header errors detected'', True),
     (''Payload checksum (CRC) error'', True), (''FIFO overflow'', False),
     (''Reserved short packet data type detected'', True), (''Reserved long packet data type detected'', True),
     (''Incomplete long packet detected'', False), (''Frame sync error'', False), (''Line sync error'', False),
     (''DPHY recoverable synchronization error'', True), (''DPHY non-recoverable synchronization error'', False),
     (''Escape mode error'', True), (''Escape mode trigger event'', True),
     (''Escape mode ultra-low power state for data lane(s)'', True),
     (''Escape mode ultra-low power state exit for clock lane'', True),
     (''Inter-frame short packet discarded'', True), (''Inter-frame long packet discarded'', True)]"

text \<open>The result is the list of messages that are logged.\<close>

definition ipu4_isys_csi2_error :: "'d isys_env \<Rightarrow> nat \<Rightarrow> ('d ipu6_isys, (string \<times> bool) list) state" where
  "ipu4_isys_csi2_error env port = do {
     ipu4_isys_register_errors env port;
     status \<leftarrow> gets (\<lambda>s. receiver_errors s ! port);
     modify (\<lambda>s. s\<lparr>receiver_errors := (receiver_errors s)[port := 0]\<rparr>);
     State_Monad.return (map (nth csi2_errors) (filter (bit status) [0..<length csi2_errors])) }"

text \<open>
  The interrupt of a receiver. The streams of the virtual channels are looked up and put
  back; the frame events come from the firmware.
\<close>

definition csi2_isr_vc :: "nat \<Rightarrow> u32 \<Rightarrow> u32 \<Rightarrow> nat \<Rightarrow> ('d ipu6_isys, unit) state" where
  "csi2_isr_vc port status flag vc =
     (if status AND flag = 0 then State_Monad.return ()
      else do {
        st \<leftarrow> ipu6_isys_query_stream_by_source (int port) (word_of_nat vc);
        case st of None \<Rightarrow> State_Monad.return () | Some i \<Rightarrow> ipu6_isys_put_stream i })"

fun csi2_isr_vcs :: "nat \<Rightarrow> u32 \<Rightarrow> nat list \<Rightarrow> ('d ipu6_isys, unit) state" where
  "csi2_isr_vcs port status [] = State_Monad.return ()"
| "csi2_isr_vcs port status (i # is) = do {
     csi2_isr_vc port status (IPU_CSI_RX_IRQ_FS_VC i) i;
     csi2_isr_vc port status (IPU_CSI_RX_IRQ_FE_VC i) i;
     csi2_isr_vcs port status is }"

definition ipu6_isys_csi2_isr :: "'d isys_env \<Rightarrow> nat \<Rightarrow> ('d ipu6_isys, unit) state" where
  "ipu6_isys_csi2_isr env port = do {
     status \<leftarrow> csi2_readl env port CSI2_REG_CSI2PART_IRQ_STATUS;
     csi2_writel env port status CSI2_REG_CSI2PART_IRQ_CLEAR;
     (if status AND CSI2_CSI2PART_IRQ_CSIRX \<noteq> 0 then ipu4_isys_register_errors env port else State_Monad.return ());
     csi2_isr_vcs port status [0..<NR_OF_CSI2_VC] }"

section \<open>Responses of the firmware\<close>

definition IPU6_FW_ISYS_RESP_TYPE_STREAM_OPEN_DONE :: u8 where [ipu4_consts]: "IPU6_FW_ISYS_RESP_TYPE_STREAM_OPEN_DONE = 0"
definition IPU6_FW_ISYS_RESP_TYPE_STREAM_START_ACK :: u8 where [ipu4_consts]: "IPU6_FW_ISYS_RESP_TYPE_STREAM_START_ACK = 1"
definition IPU6_FW_ISYS_RESP_TYPE_STREAM_START_AND_CAPTURE_ACK :: u8 where [ipu4_consts]: "IPU6_FW_ISYS_RESP_TYPE_STREAM_START_AND_CAPTURE_ACK = 2"
definition IPU6_FW_ISYS_RESP_TYPE_STREAM_CAPTURE_ACK :: u8 where [ipu4_consts]: "IPU6_FW_ISYS_RESP_TYPE_STREAM_CAPTURE_ACK = 3"
definition IPU6_FW_ISYS_RESP_TYPE_STREAM_STOP_ACK :: u8 where [ipu4_consts]: "IPU6_FW_ISYS_RESP_TYPE_STREAM_STOP_ACK = 4"
definition IPU6_FW_ISYS_RESP_TYPE_STREAM_FLUSH_ACK :: u8 where [ipu4_consts]: "IPU6_FW_ISYS_RESP_TYPE_STREAM_FLUSH_ACK = 5"
definition IPU6_FW_ISYS_RESP_TYPE_STREAM_CLOSE_ACK :: u8 where [ipu4_consts]: "IPU6_FW_ISYS_RESP_TYPE_STREAM_CLOSE_ACK = 6"
definition IPU6_FW_ISYS_RESP_TYPE_PIN_DATA_READY :: u8 where [ipu4_consts]: "IPU6_FW_ISYS_RESP_TYPE_PIN_DATA_READY = 7"
definition IPU6_FW_ISYS_RESP_TYPE_FRAME_SOF :: u8 where [ipu4_consts]: "IPU6_FW_ISYS_RESP_TYPE_FRAME_SOF = 9"
definition IPU6_FW_ISYS_ERROR_HW_REPORTED_STR2MMIO :: u32 where [ipu4_consts]: "IPU6_FW_ISYS_ERROR_HW_REPORTED_STR2MMIO = 8"

definition ipu6_isys_queue_buf_ready :: "'d isys_env \<Rightarrow> nat \<Rightarrow> nat \<Rightarrow> ipu6_fw_isys_resp_info_abi \<Rightarrow> ('d ipu6_isys, unit) state" where
  "ipu6_isys_queue_buf_ready env i q resp =
     ipu6_stream_buf_ready env i q (ri_pin_addr resp) (ri_timestamp resp)
       (ri_error resp = IPU6_FW_ISYS_ERROR_HW_REPORTED_STR2MMIO)"

text \<open>A start of frame: the event for applications, with the number before the increment.\<close>

definition ipu6_isys_csi2_sof_event_by_stream :: "nat \<Rightarrow> nat \<Rightarrow> ('d ipu6_isys, unit) state" where
  "ipu6_isys_csi2_sof_event_by_stream i port = modify (\<lambda>s.
     (upd_stream i (\<lambda>st. st\<lparr>st_sequence := st_sequence st + 1\<rparr>) s)
       \<lparr>frame_events := (port, st_sequence (streams s ! i)) # frame_events s\<rparr>)"

definition note_sof :: "u64 \<Rightarrow> ipu6_isys_stream \<Rightarrow> ipu6_isys_stream" where
  "note_sof ts st = st\<lparr>st_seq := (st_seq st)[seq_index st := \<lparr>si_sequence = st_sequence st - 1, si_timestamp = ts\<rparr>],
     seq_index := (seq_index st + 1) mod IPU6_ISYS_MAX_PARALLEL_SOF\<rparr>"

definition pin_data_ready :: "'d isys_env \<Rightarrow> nat \<Rightarrow> nat \<Rightarrow> ipu6_fw_isys_resp_info_abi \<Rightarrow> ('d ipu6_isys, unit) state" where
  "pin_data_ready env i port resp = do {
     q \<leftarrow> gets (\<lambda>s. if unat (ri_pin_id resp) < IPU6_ISYS_OUTPUT_PINS
                     then output_pins_queue (streams s ! i) ! unat (ri_pin_id resp) else None);
     (case q of None \<Rightarrow> State_Monad.return () | Some q \<Rightarrow> ipu6_isys_queue_buf_ready env i q resp);
     ipu4_isys_csi2_error env port;
     State_Monad.return () }"

text \<open>What a response does to its stream, whose receiver has the given port. The other types are only logged.\<close>

definition resp_event :: "'d isys_env \<Rightarrow> nat \<Rightarrow> nat \<Rightarrow> ipu6_fw_isys_resp_info_abi \<Rightarrow> ('d ipu6_isys, unit) state" where
  "resp_event env i port resp =
     (let t = ri_type resp in
      if t = IPU6_FW_ISYS_RESP_TYPE_STREAM_OPEN_DONE
      then modify (upd_stream i (\<lambda>st. st\<lparr>open_completion := complete (open_completion st)\<rparr>))
      else if t = IPU6_FW_ISYS_RESP_TYPE_STREAM_CLOSE_ACK
      then modify (upd_stream i (\<lambda>st. st\<lparr>close_completion := complete (close_completion st)\<rparr>))
      else if t = IPU6_FW_ISYS_RESP_TYPE_STREAM_START_ACK
      then modify (upd_stream i (\<lambda>st. st\<lparr>start_completion := complete (start_completion st)\<rparr>))
      else if t = IPU6_FW_ISYS_RESP_TYPE_STREAM_START_AND_CAPTURE_ACK
      then do {
        ipu6_put_fw_msg_buf (ri_buf_handle resp);
        modify (upd_stream i (\<lambda>st. st\<lparr>start_completion := complete (start_completion st)\<rparr>)) }
      else if t = IPU6_FW_ISYS_RESP_TYPE_STREAM_STOP_ACK \<or> t = IPU6_FW_ISYS_RESP_TYPE_STREAM_FLUSH_ACK
      then modify (upd_stream i (\<lambda>st. st\<lparr>stop_completion := complete (stop_completion st)\<rparr>))
      else if t = IPU6_FW_ISYS_RESP_TYPE_PIN_DATA_READY then pin_data_ready env i port resp
      else if t = IPU6_FW_ISYS_RESP_TYPE_STREAM_CAPTURE_ACK then ipu6_put_fw_msg_buf (ri_buf_handle resp)
      else if t = IPU6_FW_ISYS_RESP_TYPE_FRAME_SOF
      then do {
        ipu6_isys_csi2_sof_event_by_stream i port;
        modify (upd_stream i (note_sof (ri_timestamp resp))) }
      else State_Monad.return ())"

text \<open>The receiver is found from the stream's sub-device without a check that there is one.\<close>

definition handle_resp :: "'d isys_env \<Rightarrow> ipu6_fw_isys_resp_info_abi \<Rightarrow> ('d ipu6_isys, unit) state" where
  "handle_resp env resp =
     (if unat (ri_stream_handle resp) \<ge> IPU4_ISYS_MAX_STREAMS then State_Monad.return ()
      else do {
        st \<leftarrow> ipu6_isys_query_stream_by_handle (ri_stream_handle resp);
        case st of
          None \<Rightarrow> State_Monad.return ()
        | Some i \<Rightarrow> do {
            modify (upd_stream i (\<lambda>st. st\<lparr>st_error := ri_error resp\<rparr>));
            asd \<leftarrow> gets (\<lambda>s. st_asd (streams s ! i));
            (case asd of
               None \<Rightarrow> modify (\<lambda>s. s\<lparr>wild := True\<rparr>)
             | Some port \<Rightarrow> resp_event env i port resp);
            ipu6_isys_put_stream i } })"

text \<open>One response. The result is true when there was none.\<close>

definition isys_isr_one :: "'d isys_env \<Rightarrow> ('d ipu6_isys, bool) state" where
  "isys_isr_one env = do {
     c \<leftarrow> gets fwcom;
     case c of
       None \<Rightarrow> State_Monad.return True
     | Some ctx \<Rightarrow> do {
         r \<leftarrow> ipu6_fw_isys_get_resp env ctx IPU4_BASE_MSG_RECV_QUEUES;
         case r of
           None \<Rightarrow> State_Monad.return True
         | Some resp \<Rightarrow> do {
             handle_resp env resp;
             ipu6_fw_isys_put_resp env ctx IPU4_BASE_MSG_RECV_QUEUES;
             State_Monad.return False } } }"

section \<open>The interrupt handler\<close>

fun csi2_ports :: "'d isys_env \<Rightarrow> u32 \<Rightarrow> nat list \<Rightarrow> ('d ipu6_isys, unit) state" where
  "csi2_ports env status [] = State_Monad.return ()"
| "csi2_ports env status (i # is) = do {
     (if IPU4_ISYS_UNISPART_IRQ_CSI2 i AND status \<noteq> 0 then ipu6_isys_csi2_isr env i else State_Monad.return ());
     csi2_ports env status is }"

text \<open>The interrupts of a status are cleared and the receivers served.\<close>

definition isr_ack :: "'d isys_env \<Rightarrow> u32 \<Rightarrow> ('d ipu6_isys, unit) state" where
  "isr_ack env status = do {
     on_dev (isys_writel env status IPU4_REG_ISYS_UNISPART_IRQ_CLEAR);
     bits \<leftarrow> gets isr_csi2_bits;
     (if bits AND status \<noteq> 0 then csi2_ports env status [0..<nports env] else State_Monad.return ());
     on_dev (isys_writel env 0 IPU4_REG_ISYS_UNISPART_SW_IRQ_REG) }"

text \<open>One round, with the status for the next one.\<close>

definition isr_round :: "'d isys_env \<Rightarrow> u32 \<Rightarrow> ('d ipu6_isys, u32) state" where
  "isr_round env status = do {
     isr_ack env status;
     empty \<leftarrow> (if status AND IPU4_ISYS_UNISPART_IRQ_SW \<noteq> 0 then isys_isr_one env else State_Monad.return True);
     st \<leftarrow> on_dev (isys_readl env IPU4_REG_ISYS_UNISPART_IRQ_STATUS);
     State_Monad.return ((if empty then 0 else IPU4_ISYS_UNISPART_IRQ_SW) OR st) }"

fun isr_loop :: "'d isys_env \<Rightarrow> nat \<Rightarrow> u32 \<Rightarrow> ('d ipu6_isys, unit) state" where
  "isr_loop env 0 status = modify (\<lambda>s. s\<lparr>stuck := True\<rparr>)"
| "isr_loop env (Suc n) status = do {
     status \<leftarrow> isr_round env status;
     bits \<leftarrow> gets isr_csi2_bits;
     if status AND (bits OR IPU4_ISYS_UNISPART_IRQ_SW) \<noteq> 0 then isr_loop env n status else State_Monad.return () }"

definition ipu4_isys_isr :: "'d isys_env \<Rightarrow> ('d ipu6_isys, irqreturn) state" where
  "ipu4_isys_isr env = do {
     on \<leftarrow> gets i_power;
     if \<not> on then State_Monad.return IRQ_NONE
     else do {
       status \<leftarrow> on_dev (isys_readl env IPU4_REG_ISYS_UNISPART_IRQ_STATUS);
       isr_loop env (isr_rounds env) status;
       State_Monad.return IRQ_HANDLED } }"

section \<open>Waiting for the firmware\<close>

text \<open>Interrupts arrive while a completion of a stream is waited for; the wait ends with it, or after \<open>n\<close> interrupts.\<close>

fun stream_wait_loop :: "'d isys_env \<Rightarrow> nat \<Rightarrow> (ipu6_isys_stream \<Rightarrow> u32) \<Rightarrow> nat \<Rightarrow> ('d ipu6_isys, bool) state" where
  "stream_wait_loop env i c 0 = gets (\<lambda>s. c (streams s ! i) \<noteq> 0)"
| "stream_wait_loop env i c (Suc n) = do {
     t \<leftarrow> gets (\<lambda>s. c (streams s ! i) \<noteq> 0);
     if t then State_Monad.return True else do { ipu4_isys_isr env; stream_wait_loop env i c n } }"

definition wait_stream ::
  "'d isys_env \<Rightarrow> nat \<Rightarrow> (ipu6_isys_stream \<Rightarrow> u32) \<Rightarrow> ((u32 \<Rightarrow> u32) \<Rightarrow> ipu6_isys_stream \<Rightarrow> ipu6_isys_stream) \<Rightarrow>
   ('d ipu6_isys, bool) state" where
  "wait_stream env i c upd = do {
     n \<leftarrow> gets (\<lambda>s. stream_irqs env (hw (isp s)));
     t \<leftarrow> stream_wait_loop env i c n;
     (if t then modify (upd_stream i (upd take_completion)) else State_Monad.return ());
     State_Monad.return t }"

end
