(* ===== verification/Isys_Csi2.thy ===== *)
theory Isys_Csi2
  imports Isys_Isr "HOL-Library.Signed_Division"
begin

unbundle bit_operations_syntax

text \<open>
  The CSI-2 receivers, \<^verbatim>\<open>kernel/ipu4/ipu6-isys-csi2.c\<close>: the timing of the physical layer, switching a
  receiver on and off, and the description of the source's streams.
\<close>

section \<open>Timing\<close>

definition DIV_SHIFT :: nat where [ipu4_consts]: "DIV_SHIFT = 8"
definition CSI2_ACCINV :: int where [ipu4_consts]: "CSI2_ACCINV = 8"
definition CSI2_CSI_RX_DLY_CNT_TERMEN_CLANE_A :: int where [ipu4_consts]: "CSI2_CSI_RX_DLY_CNT_TERMEN_CLANE_A = 0"
definition CSI2_CSI_RX_DLY_CNT_TERMEN_CLANE_B :: int where [ipu4_consts]: "CSI2_CSI_RX_DLY_CNT_TERMEN_CLANE_B = 0"
definition CSI2_CSI_RX_DLY_CNT_SETTLE_CLANE_A :: int where [ipu4_consts]: "CSI2_CSI_RX_DLY_CNT_SETTLE_CLANE_A = 95"
definition CSI2_CSI_RX_DLY_CNT_SETTLE_CLANE_B :: int where [ipu4_consts]: "CSI2_CSI_RX_DLY_CNT_SETTLE_CLANE_B = -8"
definition CSI2_CSI_RX_DLY_CNT_TERMEN_DLANE_A :: int where [ipu4_consts]: "CSI2_CSI_RX_DLY_CNT_TERMEN_DLANE_A = 0"
definition CSI2_CSI_RX_DLY_CNT_TERMEN_DLANE_B :: int where [ipu4_consts]: "CSI2_CSI_RX_DLY_CNT_TERMEN_DLANE_B = 0"
definition CSI2_CSI_RX_DLY_CNT_SETTLE_DLANE_A :: int where [ipu4_consts]: "CSI2_CSI_RX_DLY_CNT_SETTLE_DLANE_A = 85"
definition CSI2_CSI_RX_DLY_CNT_SETTLE_DLANE_B :: int where [ipu4_consts]: "CSI2_CSI_RX_DLY_CNT_SETTLE_DLANE_B = -2"

text \<open>Signed 32-bit values are integers in range; the division truncates. \<open>None\<close> is the division by zero.\<close>

definition s32 :: "int \<Rightarrow> int" where
  "s32 x = signed_take_bit 31 x"

definition calc_timing :: "int \<Rightarrow> int \<Rightarrow> int \<Rightarrow> int \<Rightarrow> u32 option" where
  "calc_timing a b link_freq accinv =
     (let d = s32 (drop_bit DIV_SHIFT link_freq) in
      if d = 0 then None
      else Some (word_of_int (s32 (accinv * a) + s32 (s32 (accinv * b) * drop_bit DIV_SHIFT 500000000) sdiv d)))"

record ipu6_isys_csi2_timing =
  ctermen :: u32
  csettle :: u32
  dtermen :: u32
  dsettle :: u32

text \<open>The frequency of the link, or an error, is asked from the source's driver.\<close>

definition ipu6_isys_csi2_calc_timing :: "int res \<Rightarrow> int \<Rightarrow> ipu6_isys_csi2_timing res option" where
  "ipu6_isys_csi2_calc_timing freq accinv =
     (case freq of
        Inl e \<Rightarrow> Some (Inl e)
      | Inr link_freq \<Rightarrow>
          (case (calc_timing CSI2_CSI_RX_DLY_CNT_TERMEN_CLANE_A CSI2_CSI_RX_DLY_CNT_TERMEN_CLANE_B link_freq accinv,
                 calc_timing CSI2_CSI_RX_DLY_CNT_SETTLE_CLANE_A CSI2_CSI_RX_DLY_CNT_SETTLE_CLANE_B link_freq accinv,
                 calc_timing CSI2_CSI_RX_DLY_CNT_TERMEN_DLANE_A CSI2_CSI_RX_DLY_CNT_TERMEN_DLANE_B link_freq accinv,
                 calc_timing CSI2_CSI_RX_DLY_CNT_SETTLE_DLANE_A CSI2_CSI_RX_DLY_CNT_SETTLE_DLANE_B link_freq accinv)
           of (Some ct, Some cs, Some dt, Some ds) \<Rightarrow>
                Some (Inr \<lparr>ctermen = ct, csettle = cs, dtermen = dt, dsettle = ds\<rparr>)
            | _ \<Rightarrow> None))"

section \<open>Switching a receiver on and off\<close>

definition CSI2_REG_CSI_RX_ENABLE :: u64 where [ipu4_consts]: "CSI2_REG_CSI_RX_ENABLE = 0x00"
definition CSI2_CSI_RX_ENABLE_ENABLE :: u32 where [ipu4_consts]: "CSI2_CSI_RX_ENABLE_ENABLE = 0x01"
definition CSI2_REG_CSI_RX_NOF_ENABLED_LANES :: u64 where [ipu4_consts]: "CSI2_REG_CSI_RX_NOF_ENABLED_LANES = 0x04"
definition CSI2_REG_CSI_RX_CONFIG :: u64 where [ipu4_consts]: "CSI2_REG_CSI_RX_CONFIG = 0x08"
definition CSI2_CSI_RX_CONFIG_RELEASE_LP11 :: u32 where [ipu4_consts]: "CSI2_CSI_RX_CONFIG_RELEASE_LP11 = 0x1"
definition CSI2_CSI_RX_CONFIG_DISABLE_BYTE_CLK_GATING :: u32 where [ipu4_consts]: "CSI2_CSI_RX_CONFIG_DISABLE_BYTE_CLK_GATING = 0x2"
definition CSI2_REG_CSI_RX_DLY_CNT_TERMEN_CLANE :: u64 where [ipu4_consts]: "CSI2_REG_CSI_RX_DLY_CNT_TERMEN_CLANE = 0x2c"
definition CSI2_REG_CSI_RX_DLY_CNT_SETTLE_CLANE :: u64 where [ipu4_consts]: "CSI2_REG_CSI_RX_DLY_CNT_SETTLE_CLANE = 0x30"

definition CSI2_REG_CSI_RX_DLY_CNT_TERMEN_DLANE :: "nat \<Rightarrow> u64" where
  "CSI2_REG_CSI_RX_DLY_CNT_TERMEN_DLANE n = 0x34 + word_of_nat n * 8"

definition CSI2_REG_CSI_RX_DLY_CNT_SETTLE_DLANE :: "nat \<Rightarrow> u64" where
  "CSI2_REG_CSI_RX_DLY_CNT_SETTLE_DLANE n = 0x38 + word_of_nat n * 8"

definition csi2_off :: "'d isys_env \<Rightarrow> nat \<Rightarrow> ('d ipu6_isys, unit) state" where
  "csi2_off env port = do {
     ipu4_isys_csi2_error env port;
     val \<leftarrow> csi2_readl env port CSI2_REG_CSI_RX_CONFIG;
     csi2_writel env port (val AND NOT (CSI2_CSI_RX_CONFIG_DISABLE_BYTE_CLK_GATING OR CSI2_CSI_RX_CONFIG_RELEASE_LP11))
       CSI2_REG_CSI_RX_CONFIG;
     csi2_writel env port 0 CSI2_REG_CSI_RX_ENABLE;
     csi2_writel env port 0 CSI2_REG_CSI2S2M_IRQ_MASK;
     csi2_writel env port 0 CSI2_REG_CSI2S2M_IRQ_ENABLE;
     csi2_writel env port 0 CSI2_REG_CSI2PART_IRQ_MASK;
     csi2_writel env port 0 CSI2_REG_CSI2PART_IRQ_ENABLE }"

fun csi2_lanes :: "'d isys_env \<Rightarrow> nat \<Rightarrow> ipu6_isys_csi2_timing \<Rightarrow> nat list \<Rightarrow> ('d ipu6_isys, unit) state" where
  "csi2_lanes env port timing [] = State_Monad.return ()"
| "csi2_lanes env port timing (i # is) = do {
     csi2_writel env port (dtermen timing) (CSI2_REG_CSI_RX_DLY_CNT_TERMEN_DLANE i);
     csi2_writel env port (dsettle timing) (CSI2_REG_CSI_RX_DLY_CNT_SETTLE_DLANE i);
     csi2_lanes env port timing is }"

definition csi2part :: u32 where
  "csi2part = fold (\<lambda>i m. m OR (IPU_CSI_RX_IRQ_FS_VC i OR IPU_CSI_RX_IRQ_FE_VC i)) [0..<NR_OF_CSI2_VC] 0"

definition csi2csirx :: u32 where
  "csi2csirx = push_bit CSI2_CSIRX_NUM_ERRORS 1 - 1"

definition csi2_on :: "'d isys_env \<Rightarrow> nat \<Rightarrow> ipu6_isys_csi2_timing \<Rightarrow> nat \<Rightarrow> ('d ipu6_isys, unit) state" where
  "csi2_on env port timing nlanes = do {
     csi2_writel env port (ctermen timing) CSI2_REG_CSI_RX_DLY_CNT_TERMEN_CLANE;
     csi2_writel env port (csettle timing) CSI2_REG_CSI_RX_DLY_CNT_SETTLE_CLANE;
     csi2_lanes env port timing [0..<nlanes];
     val \<leftarrow> csi2_readl env port CSI2_REG_CSI_RX_CONFIG;
     csi2_writel env port (val OR CSI2_CSI_RX_CONFIG_DISABLE_BYTE_CLK_GATING OR CSI2_CSI_RX_CONFIG_RELEASE_LP11)
       CSI2_REG_CSI_RX_CONFIG;
     csi2_writel env port (word_of_nat nlanes) CSI2_REG_CSI_RX_NOF_ENABLED_LANES;
     csi2_writel env port CSI2_CSI_RX_ENABLE_ENABLE CSI2_REG_CSI_RX_ENABLE;
     csi2_writel env port csi2csirx CSI2_REG_CSIRX_IRQ_EDGE;
     csi2_writel env port 0 CSI2_REG_CSIRX_IRQ_LEVEL_NOT_PULSE;
     csi2_writel env port csi2csirx CSI2_REG_CSIRX_IRQ_CLEAR;
     csi2_writel env port csi2csirx CSI2_REG_CSIRX_IRQ_MASK;
     csi2_writel env port csi2csirx CSI2_REG_CSIRX_IRQ_ENABLE;
     csi2_writel env port csi2part CSI2_REG_CSI2PART_IRQ_EDGE;
     csi2_writel env port 0 CSI2_REG_CSI2PART_IRQ_LEVEL_NOT_PULSE;
     csi2_writel env port csi2part CSI2_REG_CSI2PART_IRQ_CLEAR;
     csi2_writel env port csi2part CSI2_REG_CSI2PART_IRQ_MASK;
     csi2_writel env port csi2part CSI2_REG_CSI2PART_IRQ_ENABLE }"

text \<open>A timing, with the number of lanes, switches on; none switches off.\<close>

definition ipu6_isys_csi2_set_stream ::
  "'d isys_env \<Rightarrow> nat \<Rightarrow> (ipu6_isys_csi2_timing \<times> nat) option \<Rightarrow> ('d ipu6_isys, unit) state" where
  "ipu6_isys_csi2_set_stream env port timing =
     (case timing of None \<Rightarrow> csi2_off env port | Some (t, nlanes) \<Rightarrow> csi2_on env port t nlanes)"

text \<open>
  The streams of a receiver. The frequency of the source's link, the number of lanes and the
  switching of the source are those of the receiver; there is no result after a division by zero.
\<close>

definition ipu6_isys_csi2_enable_streams ::
  "'d isys_env \<Rightarrow> int res \<Rightarrow> nat \<Rightarrow> ('d ipu6_isys, unit res) state \<Rightarrow> nat \<Rightarrow> ('d ipu6_isys, unit res option) state" where
  "ipu6_isys_csi2_enable_streams env link_freq nlanes enable_source port =
     (case ipu6_isys_csi2_calc_timing link_freq CSI2_ACCINV of
        None \<Rightarrow> State_Monad.return None
      | Some (Inl e) \<Rightarrow> State_Monad.return (Some (Inl e))
      | Some (Inr timing) \<Rightarrow> do {
          ipu6_isys_csi2_set_stream env port (Some (timing, nlanes));
          ret \<leftarrow> enable_source;
          (if ret \<noteq> ok then ipu6_isys_csi2_set_stream env port None else State_Monad.return ());
          State_Monad.return (Some ret) })"

definition ipu6_isys_csi2_disable_streams ::
  "'d isys_env \<Rightarrow> ('d ipu6_isys, unit res) state \<Rightarrow> nat \<Rightarrow> ('d ipu6_isys, unit res) state" where
  "ipu6_isys_csi2_disable_streams env disable_source port = do {
     ipu6_isys_csi2_set_stream env port None;
     disable_source;
     State_Monad.return ok }"

section \<open>The streams of the source\<close>

record v4l2_mbus_frame_desc_entry =
  fd_stream :: u32
  fd_vc :: u8
  fd_dt :: u8

text \<open>
  The descriptor is asked from the source: whether it is of the CSI-2 type, and its entries.
  There is no source when the sink pad of the receiver is not linked.
\<close>

definition ipu6_isys_csi2_get_remote_desc ::
  "u32 \<Rightarrow> (bool \<times> v4l2_mbus_frame_desc_entry list) res option \<Rightarrow> v4l2_mbus_frame_desc_entry res" where
  "ipu6_isys_csi2_get_remote_desc src desc =
     (case desc of
        None \<Rightarrow> Inl EPIPE
      | Some (Inl e) \<Rightarrow> Inl e
      | Some (Inr (csi2_type, es)) \<Rightarrow>
          if \<not> csi2_type then Inl EINVAL
          else (case List.find (\<lambda>e. fd_stream e = src) es of
                  None \<Rightarrow> Inl EINVAL
                | Some e \<Rightarrow> if unat (fd_vc e) \<ge> NR_OF_CSI2_VC then Inl EINVAL else Inr e))"

end
