(* ===== verification/Isys_Csi2_Props.thy ===== *)
theory Isys_Csi2_Props
  imports Isys_Csi2 Complex_Main
begin

text \<open>
  The timing values of the CSI-2 receivers, compared with the formula that the source
  documents for them.
\<close>

text \<open>
  The documented value of a register for the coefficients \<open>A\<close> and \<open>B\<close> and the bus frequency \<open>F\<close> in Hz:
  \<open>(A / 1e9 + B * UI) / COUNT_ACC\<close>, where \<open>UI = 1 / (2 * F)\<close> and \<open>COUNT_ACC\<close> is an eighth of a nanosecond.
\<close>

definition register_value :: "int \<Rightarrow> int \<Rightarrow> int \<Rightarrow> real" where
  "register_value A B F = (A / 10 ^ 9 + B * (1 / (2 * F))) / (1 / (8 * 10 ^ 9))"

lemma s32_id: "- (2 ^ 31) \<le> x \<Longrightarrow> x < 2 ^ 31 \<Longrightarrow> s32 x = x"
  by (simp add: s32_def signed_take_bit_int_eq_self)

lemma sdiv_nonneg: "0 < d \<Longrightarrow> 0 \<le> x \<Longrightarrow> x sdiv d = x div (d :: int)"
  by (simp add: signed_divide_int_def sgn_if)

text \<open>The computation without overflow, for a coefficient that is not positive.\<close>

lemma calc_timing_exact:
  assumes "256 \<le> F" "F < 2 ^ 39" "0 \<le> b" "b \<le> 8" "0 \<le> a" "a \<le> 300"
  shows "calc_timing a (- b) F CSI2_ACCINV = Some (word_of_int (8 * a - (b * 15625000) div (F div 256)))"
proof -
  define d where "d = F div 256"
  have d: "0 < d" "d < 2 ^ 31" using assms(1,2) by (auto simp: d_def)
  have "b * 15625000 \<le> 8 * 15625000" using assms(4) by (intro mult_right_mono) auto
  then have "s32 (s32 (8 * - b) * 1953125) = - (b * 15625000)"
    using assms(3,4) by (simp add: s32_id)
  moreover have "s32 (8 * a) = 8 * a" "s32 d = d" using assms(5,6) d by (simp_all add: s32_id)
  moreover have "drop_bit 8 F = d" "drop_bit 8 (500000000 :: int) = 1953125" by (simp_all add: drop_bit_eq_div d_def)
  ultimately show ?thesis
    using d assms(3) by (simp add: calc_timing_def Let_def ipu4_consts sdiv_nonneg d_def [symmetric])
qed

text \<open>Dropping the low bits of both operands and the rest of the division changes the value by less than one.\<close>

lemma settle_error:
  fixes b F :: int
  assumes "42050048 \<le> F" "0 \<le> b" "b \<le> 8"
  shows "\<bar>real_of_int ((b * 15625000) div (F div 256)) - b * 4000000000 / F\<bar> < 1"
proof -
  define d where "d = F div 256"
  have F: "256 * d \<le> F" "F \<le> 256 * d + 255" "164258 \<le> d"
    using assms(1) by (auto simp: d_def)
  let ?q = "(b * 15625000) div d"
  have q: "?q * d \<le> b * 15625000" "b * 15625000 < (?q + 1) * d"
    using div_mult_mod_eq [of "b * 15625000" d] pos_mod_bound [of d "b * 15625000"] pos_mod_sign [of d "b * 15625000"] F(3)
    unfolding distrib_right by linarith+
  have pos: "0 < real_of_int F" using assms(1) by simp
  have q0: "0 \<le> ?q" using F(3) assms(2) by (simp add: pos_imp_zdiv_nonneg_iff)
  have "?q * F \<le> ?q * (256 * d + 255)" using F(2) q0 by (intro mult_left_mono)
  also have "\<dots> = 256 * (?q * d) + 255 * ?q" by (simp add: algebra_simps)
  also have "\<dots> \<le> 256 * (b * 15625000) + 255 * ?q" using q(1) by linarith
  also have "\<dots> < b * 4000000000 + F"
  proof -
    have "?q * 164258 \<le> ?q * d" using F(3) q0 by (intro mult_left_mono)
    also have "\<dots> \<le> 125000000" using q(1) assms(3) by simp
    finally show ?thesis using assms(1) by simp
  qed
  finally have up: "?q * F < b * 4000000000 + F" .
  have "b * 4000000000 < 256 * ((?q + 1) * d)" using q(2) by linarith
  also have "\<dots> = (?q + 1) * (256 * d)" by simp
  also have "\<dots> \<le> (?q + 1) * F" using F(1) q0 by (intro mult_left_mono) auto
  finally have lo: "b * 4000000000 < ?q * F + F" by (simp add: algebra_simps)
  from up have up': "real_of_int ?q * F < b * 4000000000 + F"
    by (metis (no_types) of_int_add of_int_less_iff of_int_mult of_int_numeral)
  from lo have lo': "b * 4000000000 < real_of_int ?q * F + F"
    by (metis (no_types) of_int_add of_int_less_iff of_int_mult of_int_numeral)
  have "real_of_int ?q - b * 4000000000 / F = (?q * F - b * 4000000000) / F"
    using pos by (simp add: field_simps)
  then show ?thesis
    unfolding d_def [symmetric] using up' lo' pos by (simp add: abs_less_iff field_simps)
qed

lemma real_unat_word_of_int: "0 \<le> x \<Longrightarrow> x < 4294967296 \<Longrightarrow> real (unat (word_of_int x :: u32)) = real_of_int x"
  by (simp add: unat_eq_nat_uint uint_word_of_int_eq take_bit_int_eq_self)

lemma register_value_alt: "0 < F \<Longrightarrow> register_value a (- b) F = 8 * a - b * 4000000000 / F"
  by (simp add: register_value_def field_simps)

lemma calc_timing_close:
  assumes "42050048 \<le> F" "F < 2 ^ 39" "(a, b) \<in> {(95, 8), (85, 2)}"
  shows "\<exists>r. calc_timing a (- b) F CSI2_ACCINV = Some r \<and> \<bar>real (unat r) - register_value a (- b) F\<bar> < 1"
proof -
  have ab: "0 \<le> b" "b \<le> 8" "0 \<le> a" "a \<le> 95" using assms(3) by auto
  let ?q = "(b * 15625000) div (F div 256)"
  let ?x = "8 * a - ?q"
  have "calc_timing a (- b) F CSI2_ACCINV = Some (word_of_int ?x)"
    using assms(1,2) ab by (intro calc_timing_exact) auto
  moreover have "\<bar>real_of_int ?x - register_value a (- b) F\<bar> < 1"
  proof -
    have "register_value a (- b) F = 8 * a - b * 4000000000 / F"
      using assms(1) by (simp add: register_value_alt)
    moreover have "real_of_int ?x = 8 * a - real_of_int ?q" by simp
    ultimately show ?thesis
      using settle_error [OF assms(1) ab(1,2)] by linarith
  qed
  moreover have "0 \<le> ?q" using assms(1) ab(1) by (simp add: pos_imp_zdiv_nonneg_iff)
  moreover have "?q \<le> 8 * a"
  proof -
    have "?q \<le> (b * 15625000) div 164258"
      using assms(1) ab(1) by (intro zdiv_mono2) auto
    also have "\<dots> \<le> 8 * a" using assms(3) by auto
    finally show ?thesis .
  qed
  then have "real (unat (word_of_int ?x :: u32)) = real_of_int ?x"
    using calculation(3) ab(4) by (intro real_unat_word_of_int) linarith+
  ultimately show ?thesis by auto
qed

text \<open>Below 42,050,048 Hz the value for the clock lane is less than zero and wraps around.\<close>

lemma csettle_wraps:
  assumes "256 \<le> F" "F < 42050048"
  shows "\<exists>r. calc_timing 95 (- 8) F CSI2_ACCINV = Some r \<and> register_value 95 (- 8) F + 1 \<le> real (unat r)"
proof -
  define q where "q = (8 * 15625000) div (F div 256)"
  have d: "0 < F div 256" "F div 256 \<le> 164257" using assms by auto
  have "125000000 div 164257 \<le> q" using zdiv_mono2 [of 125000000 "F div 256" 164257] d by (simp add: q_def)
  then have q: "761 \<le> q" by simp
  have q': "q \<le> 125000000" using d zdiv_mono2 [of 125000000 1 "F div 256"] by (simp add: q_def)
  have r: "real (unat (word_of_int (760 - q + 4294967296) :: u32)) = real_of_int (760 - q + 4294967296)"
    using q q' by (intro real_unat_word_of_int) linarith+
  have w: "word_of_int (760 - q + 4294967296) = (word_of_int (760 - q) :: u32)"
    by (simp add: word_of_int_eq_iff take_bit_eq_mod)
  have "calc_timing 95 (- 8) F CSI2_ACCINV = Some (word_of_int (760 - q))"
    using calc_timing_exact [of F 8 95] assms by (simp add: q_def)
  moreover have "register_value 95 (- 8) F \<le> 760"
    using assms(1) by (simp add: register_value_alt)
  moreover have "761 \<le> real_of_int (760 - q + 4294967296)"
    using q' by linarith
  ultimately show ?thesis using r unfolding w by (intro exI [of _ "word_of_int (760 - q)"] conjI) linarith+
qed

text \<open>
  C31: For every frequency of the link from 256 Hz to 2^39 Hz the four timing values are defined, and
  those for the termination are 0 as documented. The settle value of the clock lane differs by less than one
  from the documented formula exactly from 42,050,048 Hz on; below, it wraps around. From this
  frequency on the settle value of the data lanes is as close.
\<close>

theorem csi2_timing_close:
  assumes "256 \<le> F" "F < 2 ^ 39"
  shows "\<exists>t. ipu6_isys_csi2_calc_timing (Inr F) CSI2_ACCINV = Some (Inr t) \<and>
    ctermen t = 0 \<and> dtermen t = 0 \<and>
    (\<bar>real (unat (csettle t)) - register_value 95 (- 8) F\<bar> < 1 \<longleftrightarrow> 42050048 \<le> F) \<and>
    (42050048 \<le> F \<longrightarrow> \<bar>real (unat (dsettle t)) - register_value 85 (- 2) F\<bar> < 1)"
proof -
  have "calc_timing 0 0 F CSI2_ACCINV = Some 0"
    using calc_timing_exact [of F 0 0] assms by simp
  moreover obtain cs where "calc_timing 95 (- 8) F CSI2_ACCINV = Some cs"
    "\<bar>real (unat cs) - register_value 95 (- 8) F\<bar> < 1 \<longleftrightarrow> 42050048 \<le> F"
    using calc_timing_close [of F 95 8] csettle_wraps [OF assms(1)] assms(2) by (cases "42050048 \<le> F") fastforce+
  moreover obtain ds where "calc_timing 85 (- 2) F CSI2_ACCINV = Some ds"
    "42050048 \<le> F \<longrightarrow> \<bar>real (unat ds) - register_value 85 (- 2) F\<bar> < 1"
    using calc_timing_close [of F 85 2] calc_timing_exact [of F 2 85] assms by (cases "42050048 \<le> F") fastforce+
  ultimately show ?thesis
    unfolding ipu6_isys_csi2_calc_timing_def CSI2_CSI_RX_DLY_CNT_TERMEN_CLANE_A_def CSI2_CSI_RX_DLY_CNT_TERMEN_CLANE_B_def
      CSI2_CSI_RX_DLY_CNT_SETTLE_CLANE_A_def CSI2_CSI_RX_DLY_CNT_SETTLE_CLANE_B_def
      CSI2_CSI_RX_DLY_CNT_TERMEN_DLANE_A_def CSI2_CSI_RX_DLY_CNT_TERMEN_DLANE_B_def
      CSI2_CSI_RX_DLY_CNT_SETTLE_DLANE_A_def CSI2_CSI_RX_DLY_CNT_SETTLE_DLANE_B_def
    by simp
qed

text \<open>A link at 400 MHz.\<close>

theorem csi2_timing_close_witness:
  "\<exists>t. ipu6_isys_csi2_calc_timing (Inr 400000000) CSI2_ACCINV = Some (Inr t) \<and>
     \<bar>real (unat (csettle t)) - register_value 95 (- 8) 400000000\<bar> < 1"
  using csi2_timing_close [of 400000000] by auto

end
