(* ===== verification/Isys_Video.thy ===== *)
theory Isys_Video
  imports Isys_Csi2
begin

unbundle bit_operations_syntax

text \<open>
  Streams of the video nodes, \<^verbatim>\<open>kernel/ipu4/ipu6-isys-video.c\<close>: the stream configuration for the firmware,
  starting and stopping a stream there, the use of the firmware, and finding the stream of
  a node; and the power management of the input system (\<^verbatim>\<open>ipu6-isys.c\<close>, \<^verbatim>\<open>ipu6-bus.c\<close>).
\<close>

section \<open>The surroundings of the video nodes\<close>

text \<open>
  What the media framework says: the pad of a receiver that a node is linked to (the port of the
  receiver and the number of the pad), the source linked to a receiver and its frame descriptor,
  the active formats and routes of the receivers, the formats of the nodes, the pipelines after
  a start or an end by a node, and switching the streams of a receiver's pad. Power
  management is the use count of the device. The MMU of the input system is switched by
  \<^verbatim>\<open>ipu6_mmu_hw_init\<close> and \<^verbatim>\<open>ipu6_mmu_hw_cleanup\<close>. The last field is the device address of the other
  sub-system's package directory.
\<close>

record 'd video_env =
  ienv :: "'d isys_env"
  remote_pad_unique :: "nat \<Rightarrow> (nat \<times> nat) res"
  remote_pad_first :: "nat \<Rightarrow> (nat \<times> nat) option"
  source_of :: "nat \<Rightarrow> nat option"
  frame_desc :: "nat \<Rightarrow> (bool \<times> v4l2_mbus_frame_desc_entry list) res option"
  sd_state :: "nat \<Rightarrow> v4l2_subdev_state"
  av_fmt :: "nat \<Rightarrow> video_fmt"
  pipeline_start :: "nat \<Rightarrow> (nat \<Rightarrow> nat option) \<Rightarrow> (nat \<Rightarrow> nat option) res"
  pipeline_stop :: "nat \<Rightarrow> (nat \<Rightarrow> nat option) \<Rightarrow> nat \<Rightarrow> nat option"
  subdev_enable :: "nat \<Rightarrow> nat \<Rightarrow> u64 \<Rightarrow> ('d ipu6_isys, unit res) state"
  subdev_disable :: "nat \<Rightarrow> nat \<Rightarrow> u64 \<Rightarrow> ('d ipu6_isys, unit res) state"
  pm_get :: "('d ipu6_isys, unit res) state"
  pm_put :: "bool \<Rightarrow> ('d ipu6_isys, unit) state"
  mmu_on :: "('d, unit res) state"
  mmu_off :: "('d, unit) state"
  psys_pkg_dir_dma_addr :: u64

text \<open>The stream of a node, which the code uses without a check.\<close>

definition with_stream :: "nat \<Rightarrow> 'a \<Rightarrow> (nat \<Rightarrow> ('d ipu6_isys, 'a) state) \<Rightarrow> ('d ipu6_isys, 'a) state" where
  "with_stream av a f = do {
     st \<leftarrow> gets (\<lambda>s. av_stream s av);
     case st of
       None \<Rightarrow> do { modify (\<lambda>s. s\<lparr>wild := True\<rparr>); State_Monad.return a }
     | Some i \<Rightarrow> f i }"

section \<open>The configuration of a stream\<close>

definition IPU4_MAX_IPINS :: nat where [ipu4_consts]: "IPU4_MAX_IPINS = 4"
definition IPU6_FW_ISYS_PIN_TYPE_MIPI :: u8 where [ipu4_consts]: "IPU6_FW_ISYS_PIN_TYPE_MIPI = 0"
definition IPU6_FW_ISYS_PIN_TYPE_RAW_SOC :: u8 where [ipu4_consts]: "IPU6_FW_ISYS_PIN_TYPE_RAW_SOC = 3"
definition IPU6_FW_ISYS_MIPI_STORE_MODE_NORMAL :: u8 where [ipu4_consts]: "IPU6_FW_ISYS_MIPI_STORE_MODE_NORMAL = 0"
definition IPU6_FW_ISYS_MIPI_STORE_MODE_DISCARD_LONG_HEADER :: u8 where [ipu4_consts]: "IPU6_FW_ISYS_MIPI_STORE_MODE_DISCARD_LONG_HEADER = 1"

record ipu4_fw_isys_input_pin_info_abi =
  ip_width :: u32
  ip_height :: u32
  ip_dt :: u8
  mipi_store_mode :: u8
  bits_per_pix :: u8
  mapped_dt :: u8

record ipu4_fw_isys_output_pin_info_abi =
  op_width :: u32
  op_height :: u32
  op_stride :: u32
  payload_buf_size :: u32
  send_irq :: u8
  input_pin_id :: u8
  op_pt :: u8
  op_ft :: u8

text \<open>The pins that are set, in order, with the other members that are.\<close>

record ipu4_fw_isys_stream_cfg_data_abi =
  cfg_input_pins :: "ipu4_fw_isys_input_pin_info_abi list"
  cfg_output_pins :: "ipu4_fw_isys_output_pin_info_abi list"
  cfg_src :: u8
  cfg_vc :: u8
  cfg_isl_use :: u8

definition encode_input_pin :: "ipu4_fw_isys_input_pin_info_abi \<Rightarrow> u8 list" where
  "encode_input_pin p = le_bytes 4 (unat (ip_width p)) @ le_bytes 4 (unat (ip_height p)) @
     [ip_dt p, mipi_store_mode p, bits_per_pix p, mapped_dt p]"

definition encode_output_pin :: "ipu4_fw_isys_output_pin_info_abi \<Rightarrow> u8 list" where
  "encode_output_pin p = le_bytes 4 (unat (op_width p)) @ le_bytes 4 (unat (op_height p)) @
     le_bytes 4 (unat (op_stride p)) @ le_bytes 4 0 @ le_bytes 4 (unat (payload_buf_size p)) @
     [send_irq p, input_pin_id p, op_pt p, op_ft p, 0, 0, 0, 0]"

text \<open>The bytes in the message: 84 bytes for scaling and cropping, the pins, and the rest, in memory that is zero before.\<close>

definition encode_stream_cfg :: "ipu4_fw_isys_stream_cfg_data_abi \<Rightarrow> u8 list" where
  "encode_stream_cfg c = replicate 84 0 @
     concat (map encode_input_pin (cfg_input_pins c)) @ replicate (12 * (IPU4_MAX_IPINS - length (cfg_input_pins c))) 0 @
     concat (map encode_output_pin (cfg_output_pins c)) @ replicate (28 * (IPU4_MAX_OPINS - length (cfg_output_pins c))) 0 @
     replicate 4 0 @ [word_of_nat (length (cfg_input_pins c)), word_of_nat (length (cfg_output_pins c)), 0, 0, 0, 0,
     cfg_src c, cfg_vc c, cfg_isl_use c, 0, 0, 0]"

definition input_pin_of :: "v4l2_mbus_framefmt \<Rightarrow> u8 \<Rightarrow> ipu6_isys_pixelformat \<Rightarrow> ipu4_fw_isys_input_pin_info_abi" where
  "input_pin_of f dt p = \<lparr>ip_width = ff_width f, ip_height = ff_height f, ip_dt = dt,
     mipi_store_mode = (if bpp p = bpp_packed p then IPU6_FW_ISYS_MIPI_STORE_MODE_DISCARD_LONG_HEADER
                        else IPU6_FW_ISYS_MIPI_STORE_MODE_NORMAL),
     bits_per_pix = ucast (bpp_packed p), mapped_dt = 0x40\<rparr>"

definition output_pin_of :: "video_fmt \<Rightarrow> nat \<Rightarrow> ipu6_isys_pixelformat \<Rightarrow> ipu4_fw_isys_output_pin_info_abi" where
  "output_pin_of v n p = \<lparr>op_width = ipu6_isys_get_frame_width v, op_height = ipu6_isys_get_frame_height v,
     op_stride = ipu6_isys_get_bytes_per_line v,
     payload_buf_size = ipu6_isys_get_bytes_per_line v * ipu6_isys_get_frame_height v,
     send_irq = 1, input_pin_id = word_of_nat n,
     op_pt = (if bpp p \<noteq> bpp_packed p then IPU6_FW_ISYS_PIN_TYPE_RAW_SOC else IPU6_FW_ISYS_PIN_TYPE_MIPI),
     op_ft = css_pixelformat p\<rparr>"

text \<open>
  One more input and output pin for a node. A node that is not linked, and more pins than
  there are, are not checked for.
\<close>

definition ipu6_isys_fw_pin_cfg ::
  "'d video_env \<Rightarrow> nat \<Rightarrow> nat \<Rightarrow> ipu4_fw_isys_stream_cfg_data_abi \<Rightarrow> ('d ipu6_isys, ipu4_fw_isys_stream_cfg_data_abi res) state" where
  "ipu6_isys_fw_pin_cfg env i q cfg =
     (case (remote_pad_first env q, ipu6_isys_get_isys_format (ipu6_isys_get_format (av_fmt env q)) None) of
        (Some (port, pad), Some p) \<Rightarrow>
          (let st = sd_state env port; src = ipu6_isys_get_src_stream_by_src_pad pad st in
           case ipu6_isys_get_stream_pad_fmt pad src st of
             Inl e \<Rightarrow> State_Monad.return (Inl e)
           | Inr f \<Rightarrow>
             (case ipu6_isys_get_stream_pad_crop pad src st of
                Inl e \<Rightarrow> State_Monad.return (Inl e)
              | Inr _ \<Rightarrow>
                if length (cfg_input_pins cfg) \<ge> IPU4_MAX_IPINS
                then do { modify (\<lambda>s. s\<lparr>wild := True\<rparr>); State_Monad.return (Inl EFAULT) }
                else do {
                  let n = length (cfg_output_pins cfg);
                  dt \<leftarrow> gets (\<lambda>s. av_dt s q);
                  modify (\<lambda>s. upd_stream i (\<lambda>st. st\<lparr>output_pins_queue := (output_pins_queue st)[n := Some q]\<rparr>)
                    (s\<lparr>ibufs := (ibufs s)\<lparr>q_fw_output := (q_fw_output (ibufs s))(q := n)\<rparr>\<rparr>));
                  State_Monad.return (Inr (cfg\<lparr>
                    cfg_output_pins := cfg_output_pins cfg @ [output_pin_of (av_fmt env q) (length (cfg_input_pins cfg)) p],
                    cfg_input_pins := cfg_input_pins cfg @ [input_pin_of f dt p]\<rparr>)) }))
      | _ \<Rightarrow> do { modify (\<lambda>s. s\<lparr>wild := True\<rparr>); State_Monad.return (Inl EFAULT) })"

fun pin_cfgs ::
  "'d video_env \<Rightarrow> nat \<Rightarrow> nat list \<Rightarrow> ipu4_fw_isys_stream_cfg_data_abi \<Rightarrow> ('d ipu6_isys, ipu4_fw_isys_stream_cfg_data_abi res) state" where
  "pin_cfgs env i [] cfg = State_Monad.return (Inr cfg)"
| "pin_cfgs env i (q # qs) cfg = do {
     r \<leftarrow> ipu6_isys_fw_pin_cfg env i q cfg;
     case r of Inl e \<Rightarrow> State_Monad.return (Inl e) | Inr cfg' \<Rightarrow> pin_cfgs env i qs cfg' }"

section \<open>Starting and stopping a stream of the firmware\<close>

definition get_stream_opened :: "('d ipu6_isys, unit) state" where
  "get_stream_opened = modify (\<lambda>s. s\<lparr>stream_opened := stream_opened s + 1\<rparr>)"

definition put_stream_opened :: "('d ipu6_isys, unit) state" where
  "put_stream_opened = modify (\<lambda>s. s\<lparr>stream_opened := stream_opened s - 1\<rparr>)"

text \<open>The result of a wait for an answer: a timeout, an error of the firmware, or success.\<close>

definition stream_result :: "nat \<Rightarrow> bool \<Rightarrow> ('d ipu6_isys, unit res) state" where
  "stream_result i tout = gets (\<lambda>s.
     if \<not> tout then Inl ETIMEDOUT else if st_error (streams s ! i) \<noteq> 0 then Inl EIO else ok)"

text \<open>A command without payload: whether it was sent, its answer being waited for.\<close>

definition cmd_and_wait ::
  "'d isys_env \<Rightarrow> nat \<Rightarrow> (ipu6_isys_stream \<Rightarrow> u32) \<Rightarrow> ((u32 \<Rightarrow> u32) \<Rightarrow> ipu6_isys_stream \<Rightarrow> ipu6_isys_stream) \<Rightarrow> u16 \<Rightarrow>
   ('d ipu6_isys, bool) state" where
  "cmd_and_wait env i c upd send_type = do {
     modify (upd_stream i (upd (\<lambda>_. 0)));
     h \<leftarrow> gets (\<lambda>s. st_handle (streams s ! i));
     ret \<leftarrow> ipu6_fw_isys_simple_cmd env h send_type;
     case ret of
       Inl _ \<Rightarrow> State_Monad.return False
     | Inr _ \<Rightarrow> do { wait_stream env i c upd; State_Monad.return True } }"

text \<open>Opening a stream; when it fails after the command, the count of open streams is taken back.\<close>

definition open_stream_firmware :: "'d video_env \<Rightarrow> nat \<Rightarrow> ('d ipu6_isys, unit res) state" where
  "open_stream_firmware env i = do {
     m \<leftarrow> ipu6_get_fw_msg_buf (ienv env);
     case m of
       None \<Rightarrow> State_Monad.return (Inl ENOMEM)
     | Some msg \<Rightarrow> do {
         st \<leftarrow> gets (\<lambda>s. streams s ! i);
         r \<leftarrow> pin_cfgs env i (st_queues st)
           \<lparr>cfg_input_pins = [], cfg_output_pins = [], cfg_src = word_of_int (stream_source st), cfg_vc = st_vc st, cfg_isl_use = 0\<rparr>;
         case r of
           Inl e \<Rightarrow> do { ipu6_put_fw_msg_buf (msg_addr msg); State_Monad.return (Inl e) }
         | Inr cfg \<Rightarrow> do {
             store_host (ienv env) (msg_addr msg) (encode_stream_cfg cfg);
             modify (upd_stream i (\<lambda>st. st\<lparr>nr_output_pins := length (cfg_output_pins cfg), open_completion := 0\<rparr>));
             ret \<leftarrow> ipu6_fw_isys_complex_cmd (ienv env) (st_handle st) (msg_addr msg) (msg_dma msg) IPU6_FW_ISYS_SEND_TYPE_STREAM_OPEN;
             case ret of
               Inl e \<Rightarrow> do { ipu6_put_fw_msg_buf (msg_addr msg); State_Monad.return (Inl e) }
             | Inr _ \<Rightarrow> do {
                 get_stream_opened;
                 tout \<leftarrow> wait_stream (ienv env) i open_completion open_completion_update;
                 ipu6_put_fw_msg_buf (msg_addr msg);
                 ret \<leftarrow> stream_result i tout;
                 (if ret \<noteq> ok then put_stream_opened else State_Monad.return ());
                 State_Monad.return ret } } } }"

text \<open>The buffers of the list become active before the firmware gets to know them.\<close>

definition frame_msg :: "'d isys_env \<Rightarrow> isys_fw_msgs \<Rightarrow> nat list \<Rightarrow> ('d ipu6_isys, unit) state" where
  "frame_msg env msg bl = do {
     bs \<leftarrow> gets ibufs;
     store_host env (msg_addr msg) (encode_frame (ipu6_isys_buf_to_fw_frame_buf env bs bl zero_frame_buff_set)) }"

definition activate :: "'d isys_env \<Rightarrow> nat list \<Rightarrow> ('d ipu6_isys, unit) state" where
  "activate env bl = modify (\<lambda>s. s\<lparr>ibufs :=
     ipu6_isys_buffer_list_queue env bl IPU6_ISYS_BUFFER_LIST_FL_ACTIVE VB2_BUF_STATE_QUEUED (ibufs s)\<rparr>)"

text \<open>
  The first buffers, if any, go with the start. The second component of a result is the list
  of the buffers that still belong to the caller.
\<close>

definition first_frame :: "'d isys_env \<Rightarrow> nat list option \<Rightarrow> ('d ipu6_isys, isys_fw_msgs option res) state" where
  "first_frame env bl =
     (case bl of
        None \<Rightarrow> State_Monad.return (Inr None)
      | Some l \<Rightarrow> do {
          m \<leftarrow> ipu6_get_fw_msg_buf env;
          case m of
            None \<Rightarrow> State_Monad.return (Inl ENOMEM)
          | Some msg \<Rightarrow> do { frame_msg env msg l; activate env l; State_Monad.return (Inr (Some msg)) } })"

definition start_cmd :: "'d isys_env \<Rightarrow> nat \<Rightarrow> isys_fw_msgs option \<Rightarrow> ('d ipu6_isys, unit res) state" where
  "start_cmd env i m = do {
     modify (upd_stream i (start_completion_update (\<lambda>_. 0)));
     h \<leftarrow> gets (\<lambda>s. st_handle (streams s ! i));
     ret \<leftarrow> (case m of
        Some msg \<Rightarrow> ipu6_fw_isys_complex_cmd env h (msg_addr msg) (msg_dma msg) IPU6_FW_ISYS_SEND_TYPE_STREAM_START_AND_CAPTURE
      | None \<Rightarrow> ipu6_fw_isys_simple_cmd env h IPU6_FW_ISYS_SEND_TYPE_STREAM_START);
     case ret of
       Inl e \<Rightarrow> State_Monad.return (Inl e)
     | Inr _ \<Rightarrow> do {
         tout \<leftarrow> wait_stream env i start_completion start_completion_update;
         stream_result i tout } }"

definition start_stream_firmware ::
  "'d video_env \<Rightarrow> nat \<Rightarrow> nat list option \<Rightarrow> ('d ipu6_isys, unit res \<times> nat list) state" where
  "start_stream_firmware env i bl = do {
     ret \<leftarrow> open_stream_firmware env i;
     case ret of
       Inl e \<Rightarrow> State_Monad.return (Inl e, case_option [] (\<lambda>l. l) bl)
     | Inr _ \<Rightarrow> do {
         m \<leftarrow> first_frame (ienv env) bl;
         case m of
           Inl e \<Rightarrow> do { put_stream_opened; State_Monad.return (Inl e, case_option [] (\<lambda>l. l) bl) }
         | Inr msg \<Rightarrow> do {
             ret \<leftarrow> start_cmd (ienv env) i msg;
             (if ret \<noteq> ok then do {
                cmd_and_wait (ienv env) i close_completion close_completion_update IPU6_FW_ISYS_SEND_TYPE_STREAM_CLOSE;
                put_stream_opened }
              else State_Monad.return ());
             State_Monad.return (ret, []) } } }"

definition stop_streaming_firmware :: "'d isys_env \<Rightarrow> nat \<Rightarrow> ('d ipu6_isys, unit) state" where
  "stop_streaming_firmware env i = do {
     cmd_and_wait env i stop_completion stop_completion_update IPU6_FW_ISYS_SEND_TYPE_STREAM_FLUSH;
     State_Monad.return () }"

definition close_streaming_firmware :: "'d isys_env \<Rightarrow> nat \<Rightarrow> ('d ipu6_isys, unit) state" where
  "close_streaming_firmware env i = do {
     sent \<leftarrow> cmd_and_wait env i close_completion close_completion_update IPU6_FW_ISYS_SEND_TYPE_STREAM_CLOSE;
     if sent then put_stream_opened else State_Monad.return () }"

section \<open>Streaming of a node\<close>

definition ipu6_isys_video_prepare_stream :: "nat \<Rightarrow> nat \<Rightarrow> int \<Rightarrow> ('d ipu6_isys, unit res) state" where
  "ipu6_isys_video_prepare_stream i ent nq = do {
     st \<leftarrow> gets (\<lambda>s. streams s ! i);
     if nr_streaming st \<noteq> 0 then State_Monad.return (Inl EINVAL)
     else do {
       modify (upd_stream i (\<lambda>st. st\<lparr>nr_queues := nq, st_sequence := 0, seq_index := 0,
         st_seq := replicate IPU6_ISYS_MAX_PARALLEL_SOF \<lparr>si_sequence = 0, si_timestamp = 0\<rparr>\<rparr>));
       if st_queues st \<noteq> [] then State_Monad.return (Inl EINVAL)
       else case st_asd st of
         None \<Rightarrow> do { modify (\<lambda>s. s\<lparr>wild := True\<rparr>); State_Monad.return (Inl EFAULT) }
       | Some port \<Rightarrow> do {
           modify (\<lambda>s. upd_stream i (\<lambda>st. st\<lparr>stream_source := int port, source_entity := Some ent\<rparr>)
             (s\<lparr>receiver_errors := (receiver_errors s)[port := 0]\<rparr>));
           State_Monad.return ok } } }"

definition get_stream_mask_by_pipeline :: "nat \<Rightarrow> 'd ipu6_isys \<Rightarrow> u64" where
  "get_stream_mask_by_pipeline av s =
     fold (\<lambda>j m. if av_pipeline s av = av_pipeline s j then m OR push_bit (unat (av_source_stream s j)) 1 else m)
       [0..<NR_OF_VIDEO_DEVICE] 0"

text \<open>The result, with the buffers of the list that still belong to the caller.\<close>

definition ipu6_isys_video_set_streaming ::
  "'d video_env \<Rightarrow> nat \<Rightarrow> bool \<Rightarrow> nat list option \<Rightarrow> ('d ipu6_isys, unit res \<times> nat list) state" where
  "ipu6_isys_video_set_streaming env av on bl = with_stream av (Inl EFAULT, []) (\<lambda>i. do {
     st \<leftarrow> gets (\<lambda>s. streams s ! i);
     case (source_entity st, st_asd st, remote_pad_first env av) of
       (None, _, _) \<Rightarrow> State_Monad.return (Inl ENODEV, case_option [] (\<lambda>l. l) bl)
     | (Some _, Some port, Some (_, pad)) \<Rightarrow>
         if opposite (sd_state env port) pad (ipu6_isys_get_src_stream_by_src_pad pad (sd_state env port)) = None
         then State_Monad.return (Inl EINVAL, case_option [] (\<lambda>l. l) bl)
         else do {
           mask \<leftarrow> gets (get_stream_mask_by_pipeline av);
           if \<not> on then do {
             stop_streaming_firmware (ienv env) i;
             ret \<leftarrow> subdev_disable env port pad mask;
             case ret of
               Inl e \<Rightarrow> State_Monad.return (Inl e, case_option [] (\<lambda>l. l) bl)
             | Inr _ \<Rightarrow> do {
                 close_streaming_firmware (ienv env) i;
                 modify (\<lambda>s. s\<lparr>av_streaming := (av_streaming s)(av := False)\<rparr>);
                 State_Monad.return (ok, case_option [] (\<lambda>l. l) bl) } }
           else do {
             r \<leftarrow> start_stream_firmware env i bl;
             case r of
               (Inl e, rest) \<Rightarrow> State_Monad.return (Inl e, rest)
             | (Inr _, rest) \<Rightarrow> do {
                 ret \<leftarrow> subdev_enable env port pad mask;
                 (if ret \<noteq> ok then stop_streaming_firmware (ienv env) i
                  else modify (\<lambda>s. s\<lparr>av_streaming := (av_streaming s)(av := True)\<rparr>));
                 State_Monad.return (ret, rest) } } }
     | _ \<Rightarrow> do { modify (\<lambda>s. s\<lparr>wild := True\<rparr>); State_Monad.return (Inl EFAULT, case_option [] (\<lambda>l. l) bl) } })"

section \<open>The use of the firmware\<close>

text \<open>A reset that goes on is one of another thread; it is never seen here.\<close>

definition wait_for_not_resetting :: "('d ipu6_isys, unit) state" where
  "wait_for_not_resetting = modify (\<lambda>s. if resetting s then s\<lparr>stuck := True\<rparr> else s)"

definition ipu6_isys_fw_get :: "'d video_env \<Rightarrow> ('d ipu6_isys, unit res) state" where
  "ipu6_isys_fw_get env = do {
     ret \<leftarrow> pm_get env;
     case ret of
       Inl e \<Rightarrow> State_Monad.return (Inl e)
     | Inr _ \<Rightarrow> do {
         wait_for_not_resetting;
         n \<leftarrow> gets isys_ref_count;
         modify (\<lambda>s. s\<lparr>isys_ref_count := n + 1\<rparr>);
         if n \<noteq> 0 then State_Monad.return ok
         else do {
           ret \<leftarrow> ipu6_fw_isys_open (ienv env);
           case ret of
             Inr _ \<Rightarrow> State_Monad.return ok
           | Inl e \<Rightarrow> do {
               modify (\<lambda>s. s\<lparr>isys_ref_count := isys_ref_count s - 1\<rparr>);
               pm_put env False;
               State_Monad.return (Inl e) } } } }"

definition ipu6_isys_fw_put :: "'d video_env \<Rightarrow> ('d ipu6_isys, unit) state" where
  "ipu6_isys_fw_put env = do {
     wait_for_not_resetting;
     modify (\<lambda>s. s\<lparr>isys_ref_count := isys_ref_count s - 1\<rparr>);
     n \<leftarrow> gets isys_ref_count;
     (if n = 0 then do {
        ipu6_fw_isys_close (ienv env);
        modify (\<lambda>s. if fwcom s \<noteq> None then s\<lparr>need_reset := True\<rparr> else s) }
      else State_Monad.return ());
     sync \<leftarrow> gets need_reset;
     pm_put env sync }"

section \<open>Finding the stream of a node\<close>

text \<open>The source entity and the number of queues of the stream.\<close>

definition ipu6_isys_setup_video :: "'d video_env \<Rightarrow> nat \<Rightarrow> ('d ipu6_isys, (nat \<times> int) res) state" where
  "ipu6_isys_setup_video env av =
     (case remote_pad_unique env av of
        Inl e \<Rightarrow> State_Monad.return (Inl e)
      | Inr (port, pad) \<Rightarrow>
        (case source_of env port of
           None \<Rightarrow> State_Monad.return (Inl ENODEV)
         | Some ent \<Rightarrow>
           (let active = filter route_active (routes (sd_state env port)) in
            case List.find (\<lambda>r. source_pad r = pad) (rev active) of
              None \<Rightarrow> State_Monad.return (Inl ENODEV)
            | Some route \<Rightarrow> do {
                modify (\<lambda>s. s\<lparr>av_source_stream := (av_source_stream s)(av := word_of_nat (sink_stream route))\<rparr>);
                let desc = ipu6_isys_csi2_get_remote_desc (word_of_nat (sink_stream route)) (frame_desc env port);
                let p = ipu6_isys_get_isys_format (ipu6_isys_get_format (av_fmt env av)) None;
                case (if desc = Inl ENOIOCTLCMD then Inr (0, case_option 0 (\<lambda>p. ipu6_isys_mbus_code_to_mipi (code p)) p)
                      else map_sum (\<lambda>e. e) (\<lambda>d. (fd_vc d, fd_dt d)) desc) of
                  Inl e \<Rightarrow> State_Monad.return (Inl e)
                | Inr (vc, dt) \<Rightarrow> do {
                    modify (\<lambda>s. s\<lparr>av_vc := (av_vc s)(av := vc), av_dt := (av_dt s)(av := dt)\<rparr>);
                    pl \<leftarrow> gets (\<lambda>s. pipeline_start env av (av_pipeline s));
                    case pl of
                      Inl e \<Rightarrow> State_Monad.return (Inl e)
                    | Inr pipes \<Rightarrow> do {
                        modify (\<lambda>s. s\<lparr>av_pipeline := pipes\<rparr>);
                        st \<leftarrow> ipu6_isys_get_stream vc port;
                        modify (\<lambda>s. s\<lparr>av_stream := (av_stream s)(av := st)\<rparr>);
                        if st = None then do {
                          modify (\<lambda>s. s\<lparr>av_pipeline := pipeline_stop env av (av_pipeline s)\<rparr>);
                          State_Monad.return (Inl EINVAL) }
                        else State_Monad.return (Inr (ent, int (length active))) } } })))"

section \<open>Power management\<close>

definition isys_runtime_pm_resume :: "'d video_env \<Rightarrow> ('d ipu6_isys, unit res) state" where
  "isys_runtime_pm_resume env = do {
     ret \<leftarrow> on_dev (mmu_on env);
     case ret of
       Inl e \<Rightarrow> State_Monad.return (Inl e)
     | Inr _ \<Rightarrow> do {
         ret \<leftarrow> on_isp (ipu6_buttress_start_tsc_sync (btrs (ienv env)));
         case ret of
           Inl e \<Rightarrow> State_Monad.return (Inl e)
         | Inr _ \<Rightarrow> do {
             modify (\<lambda>s. s\<lparr>i_power := True\<rparr>);
             on_dev (isys_setup_hw (ienv env));
             State_Monad.return ok } } }"

definition isys_runtime_pm_suspend :: "'d video_env \<Rightarrow> ('d ipu6_isys, unit res) state" where
  "isys_runtime_pm_suspend env = do {
     modify (\<lambda>s. s\<lparr>i_power := False, need_reset := False\<rparr>);
     on_dev (mmu_off env);
     State_Monad.return ok }"

definition isys_suspend :: "'d ipu6_isys \<Rightarrow> unit res" where
  "isys_suspend s = (if stream_opened s \<noteq> 0 then Inl EBUSY else ok)"

definition bus_pm_runtime_suspend :: "'d video_env \<Rightarrow> ('d ipu6_isys, unit res) state" where
  "bus_pm_runtime_suspend env = do {
     ret \<leftarrow> isys_runtime_pm_suspend env;
     case ret of
       Inl e \<Rightarrow> State_Monad.return (Inl e)
     | Inr _ \<Rightarrow> do {
         ret \<leftarrow> on_isp (ipu6_buttress_power (btrs (ienv env)) (Some ipu4_isys_buttress_ctrl) False);
         case ret of
           Inr _ \<Rightarrow> State_Monad.return ok
         | Inl _ \<Rightarrow> do {
             ret \<leftarrow> isys_runtime_pm_resume env;
             State_Monad.return (if ret = ok then Inl EBUSY else Inl EIO) } } }"

definition bus_pm_runtime_resume :: "'d video_env \<Rightarrow> ('d ipu6_isys, unit res) state" where
  "bus_pm_runtime_resume env = do {
     ret \<leftarrow> on_isp (ipu6_buttress_power (btrs (ienv env)) (Some ipu4_isys_buttress_ctrl) True);
     case ret of
       Inl e \<Rightarrow> State_Monad.return (Inl e)
     | Inr _ \<Rightarrow> do {
         ret \<leftarrow> isys_runtime_pm_resume env;
         case ret of
           Inr _ \<Rightarrow> State_Monad.return ok
         | Inl _ \<Rightarrow> do {
             on_isp (ipu6_buttress_power (btrs (ienv env)) (Some ipu4_isys_buttress_ctrl) False);
             State_Monad.return (Inl EBUSY) } } }"

definition ipu6_bus_reset_device :: "'d video_env \<Rightarrow> ('d ipu6_isys, unit res) state" where
  "ipu6_bus_reset_device env = do {
     ret \<leftarrow> bus_pm_runtime_suspend env;
     case ret of Inl e \<Rightarrow> State_Monad.return (Inl e) | Inr _ \<Rightarrow> bus_pm_runtime_resume env }"

end
