(* ===== verification/Isys_Streaming.thy ===== *)
theory Isys_Streaming
  imports Isys_Video
begin

unbundle bit_operations_syntax

text \<open>
  The handlers that videobuf2 calls (\<^verbatim>\<open>kernel/ipu4/ipu6-isys-queue.c\<close>): queueing a buffer, starting and
  stopping the streaming of a node, and the restart of streams when a node is opened after
  a failure (\<^verbatim>\<open>video_open\<close> in \<^verbatim>\<open>ipu6-isys-video.c\<close>).
\<close>

section \<open>Starting a stream\<close>

text \<open>Sending the buffers of a list: they become active, then the firmware gets the message.\<close>

definition send_capture :: "'d isys_env \<Rightarrow> nat \<Rightarrow> isys_fw_msgs \<Rightarrow> ('d ipu6_isys, unit res) state" where
  "send_capture env i msg = do {
     h \<leftarrow> gets (\<lambda>s. st_handle (streams s ! i));
     ipu6_fw_isys_complex_cmd env h (msg_addr msg) (msg_dma msg) IPU6_FW_ISYS_SEND_TYPE_STREAM_CAPTURE }"

definition take_list :: "'d isys_env \<Rightarrow> nat \<Rightarrow> ('d ipu6_isys, nat list res) state" where
  "take_list env i = do {
     r \<leftarrow> gets (\<lambda>s. buffer_list_get env (streams s ! i) (ibufs s));
     case r of (ret, bl, bs) \<Rightarrow> do {
       modify (\<lambda>s. s\<lparr>ibufs := bs\<rparr>);
       State_Monad.return (map_sum (\<lambda>e. e) (\<lambda>_. bl) ret) } }"

text \<open>
  All the buffers that are there are sent, until a queue has none or the firmware's queue is
  full. A round takes a buffer of each queue, so \<open>n\<close> is to be more than the number of buffers of one of them.
\<close>

fun capture_loop :: "'d isys_env \<Rightarrow> nat \<Rightarrow> nat \<Rightarrow> ('d ipu6_isys, unit res) state" where
  "capture_loop env i 0 = do { modify (\<lambda>s. s\<lparr>stuck := True\<rparr>); State_Monad.return ok }"
| "capture_loop env i (Suc n) = do {
     r \<leftarrow> take_list env i;
     case r of
       Inl _ \<Rightarrow> State_Monad.return ok
     | Inr bl \<Rightarrow> do {
         m \<leftarrow> ipu6_get_fw_msg_buf env;
         case m of
           None \<Rightarrow> State_Monad.return (Inl ENOMEM)
         | Some msg \<Rightarrow> do {
             frame_msg env msg bl;
             activate env bl;
             ret \<leftarrow> send_capture env i msg;
             if ret \<noteq> ok then State_Monad.return ok else capture_loop env i n } } }"

definition requeue :: "'d isys_env \<Rightarrow> nat list \<Rightarrow> bool \<Rightarrow> ('d ipu6_isys, unit) state" where
  "requeue env bl err = modify (\<lambda>s. s\<lparr>ibufs := ipu6_isys_buffer_list_queue env bl
     (IPU6_ISYS_BUFFER_LIST_FL_INCOMING OR (if err then IPU6_ISYS_BUFFER_LIST_FL_SET_STATE else 0))
     (if err then VB2_BUF_STATE_ERROR else VB2_BUF_STATE_QUEUED) (ibufs s)\<rparr>)"

definition ipu6_isys_stream_start :: "'d video_env \<Rightarrow> nat \<Rightarrow> nat list \<Rightarrow> bool \<Rightarrow> ('d ipu6_isys, unit res) state" where
  "ipu6_isys_stream_start env av bl err = with_stream av (Inl EFAULT) (\<lambda>i. do {
     r \<leftarrow> ipu6_isys_video_set_streaming env av True (Some bl);
     case r of
       (Inr _, _) \<Rightarrow> do {
         modify (upd_stream i (\<lambda>st. st\<lparr>st_streaming := True\<rparr>));
         n \<leftarrow> gets (\<lambda>s. length (q_incoming (ibufs s) av));
         capture_loop (ienv env) i (Suc n) }
     | (Inl e, rest) \<Rightarrow> do {
         (if rest \<noteq> [] then requeue (ienv env) rest err else State_Monad.return ());
         flush_firmware_streamon_fail i;
         State_Monad.return (Inl e) } })"

section \<open>Queueing a buffer\<close>

text \<open>\<open>started\<close> says whether videobuf2 has called the start of the streaming of the node.\<close>

definition buf_queue :: "'d video_env \<Rightarrow> bool \<Rightarrow> nat \<Rightarrow> ('d ipu6_isys, unit) state" where
  "buf_queue env started b = do {
     let av = vb_queue (ienv env) b;
     modify (\<lambda>s. s\<lparr>ibufs := enqueue_incoming (ienv env) b (ibufs s)\<rparr>);
     pipe \<leftarrow> gets (\<lambda>s. av_pipeline s av);
     if pipe = None \<or> \<not> started then State_Monad.return ()
     else with_stream av () (\<lambda>i. do {
       st \<leftarrow> gets (\<lambda>s. streams s ! i);
       if nr_streaming st \<noteq> nr_queues st then State_Monad.return ()
       else do {
         r \<leftarrow> take_list (ienv env) i;
         case r of
           Inl _ \<Rightarrow> State_Monad.return ()
         | Inr bl \<Rightarrow> do {
             m \<leftarrow> ipu6_get_fw_msg_buf (ienv env);
             case m of
               None \<Rightarrow> State_Monad.return ()
             | Some msg \<Rightarrow> do {
                 frame_msg (ienv env) msg bl;
                 if \<not> st_streaming st then do {
                   ipu6_isys_stream_start env av bl True;
                   State_Monad.return () }
                 else do {
                   activate (ienv env) bl;
                   send_capture (ienv env) i msg;
                   State_Monad.return () } } } } }) }"

section \<open>Starting and stopping a node\<close>

definition ipu6_isys_stream_cleanup :: "'d video_env \<Rightarrow> nat \<Rightarrow> ('d ipu6_isys, unit) state" where
  "ipu6_isys_stream_cleanup env av = do {
     modify (\<lambda>s. s\<lparr>av_pipeline := pipeline_stop env av (av_pipeline s)\<rparr>);
     st \<leftarrow> gets (\<lambda>s. av_stream s av);
     (case st of None \<Rightarrow> State_Monad.return () | Some i \<Rightarrow> ipu6_isys_put_stream i);
     modify (\<lambda>s. s\<lparr>av_stream := (av_stream s)(av := None)\<rparr>) }"

text \<open>The part that runs with the mutex of the stream: joining it, and starting it when all its nodes are there.\<close>

definition join_stream :: "'d video_env \<Rightarrow> nat \<Rightarrow> nat \<Rightarrow> nat \<Rightarrow> int \<Rightarrow> ('d ipu6_isys, unit res) state" where
  "join_stream env av i ent nq = do {
     n \<leftarrow> gets (\<lambda>s. nr_streaming (streams s ! i));
     ret \<leftarrow> (if n = 0 then ipu6_isys_video_prepare_stream i ent nq else State_Monad.return ok);
     case ret of
       Inl e \<Rightarrow> State_Monad.return (Inl e)
     | Inr _ \<Rightarrow> do {
         modify (upd_stream i (\<lambda>st. st\<lparr>nr_streaming := nr_streaming st + 1, st_queues := av # st_queues st\<rparr>));
         st \<leftarrow> gets (\<lambda>s. streams s ! i);
         if nr_streaming st \<noteq> nr_queues st then State_Monad.return ok
         else do {
           r \<leftarrow> take_list (ienv env) i;
           case r of
             Inl _ \<Rightarrow> State_Monad.return ok
           | Inr bl \<Rightarrow> do {
               ret \<leftarrow> ipu6_isys_stream_start env av bl False;
               (if ret \<noteq> ok
                then modify (upd_stream i (\<lambda>st. st\<lparr>st_queues := remove1 av (st_queues st), nr_streaming := nr_streaming st - 1\<rparr>))
                else State_Monad.return ());
               State_Monad.return ret } } } }"

definition start_streaming :: "'d video_env \<Rightarrow> nat \<Rightarrow> ('d ipu6_isys, unit res) state" where
  "start_streaming env av = do {
     r \<leftarrow> ipu6_isys_setup_video env av;
     case r of
       Inl e \<Rightarrow> do { return_buffers av VB2_BUF_STATE_QUEUED; State_Monad.return (Inl e) }
     | Inr (ent, nq) \<Rightarrow> do {
         ret \<leftarrow> (case remote_pad_first env av of
            None \<Rightarrow> State_Monad.return (Inl ENOTCONN)
          | Some (port, pad) \<Rightarrow> State_Monad.return (ipu6_isys_link_fmt_validate (Some pad) (sd_state env port) (av_fmt env av)));
         ret \<leftarrow> (if ret = ok then ipu6_isys_fw_get env else State_Monad.return ret);
         ret \<leftarrow> (if ret = ok then with_stream av (Inl EFAULT) (\<lambda>i. do {
            ret \<leftarrow> join_stream env av i ent nq;
            (if ret \<noteq> ok then ipu6_isys_fw_put env else State_Monad.return ());
            State_Monad.return ret })
          else State_Monad.return ret);
         (if ret \<noteq> ok then do {
            ipu6_isys_stream_cleanup env av;
            return_buffers av VB2_BUF_STATE_QUEUED }
          else State_Monad.return ());
         State_Monad.return ret } }"

definition stop_streaming :: "'d video_env \<Rightarrow> nat \<Rightarrow> ('d ipu6_isys, unit) state" where
  "stop_streaming env av = with_stream av () (\<lambda>i. do {
     st \<leftarrow> gets (\<lambda>s. streams s ! i);
     (if nr_streaming st = nr_queues st \<and> st_streaming st
      then do { ipu6_isys_video_set_streaming env av False None; State_Monad.return () }
      else State_Monad.return ());
     modify (upd_stream i (\<lambda>st. st\<lparr>nr_streaming := nr_streaming st - 1, st_queues := remove1 av (st_queues st),
       st_streaming := False\<rparr>));
     ipu6_isys_stream_cleanup env av;
     return_buffers av VB2_BUF_STATE_ERROR;
     ipu6_isys_fw_put env })"

section \<open>Restarting streams\<close>

text \<open>One interrupt may arrive with each of the \<open>n\<close> sleeps before the deadline.\<close>

fun no_active_loop :: "'d isys_env \<Rightarrow> nat \<Rightarrow> nat \<Rightarrow> ('d ipu6_isys, bool) state" where
  "no_active_loop env i 0 = State_Monad.return False"
| "no_active_loop env i (Suc n) = do {
     e \<leftarrow> gets (\<lambda>s. list_all (\<lambda>q. q_active (ibufs s) q = []) (st_queues (streams s ! i)));
     if e then State_Monad.return True else do { ipu4_isys_isr env; no_active_loop env i n } }"

definition wait_for_no_active_buffers :: "'d isys_env \<Rightarrow> nat \<Rightarrow> ('d ipu6_isys, bool) state" where
  "wait_for_no_active_buffers env i = do {
     n \<leftarrow> gets (\<lambda>s. stream_irqs env (hw (isp s)));
     no_active_loop env i (Suc n) }"

definition restart_stream :: "'d video_env \<Rightarrow> nat \<Rightarrow> ('d ipu6_isys, unit res) state" where
  "restart_stream env av = with_stream av (Inl EFAULT) (\<lambda>i. do {
     idle \<leftarrow> wait_for_no_active_buffers (ienv env) i;
     if \<not> idle then State_Monad.return (Inl EIO)
     else do {
       r \<leftarrow> ipu6_isys_video_set_streaming env av False None;
       if fst r \<noteq> ok then State_Monad.return (fst r)
       else do {
         ret \<leftarrow> ipu6_fw_isys_close (ienv env);
         if ret \<noteq> ok then State_Monad.return ret
         else do {
           ret \<leftarrow> ipu6_bus_reset_device env;
           if ret \<noteq> ok then State_Monad.return ret
           else do {
             ret \<leftarrow> ipu6_fw_isys_open (ienv env);
             if ret \<noteq> ok then State_Monad.return ret
             else do {
               bl \<leftarrow> take_list (ienv env) i;
               r \<leftarrow> ipu6_isys_video_set_streaming env av True (case bl of Inl _ \<Rightarrow> None | Inr l \<Rightarrow> Some l);
               State_Monad.return (fst r) } } } } } })"

text \<open>Only one stream is restarted; a second one that streams is left as it is.\<close>

fun restart_loop :: "'d video_env \<Rightarrow> nat \<Rightarrow> bool \<Rightarrow> nat list \<Rightarrow> ('d ipu6_isys, unit res) state" where
  "restart_loop env av restarted [] = State_Monad.return ok"
| "restart_loop env av restarted (j # js) = do {
     other \<leftarrow> gets (\<lambda>s. j \<noteq> av \<and> av_stream s j \<noteq> None);
     strm \<leftarrow> gets (\<lambda>s. av_streaming s j);
     if \<not> other \<or> \<not> strm then restart_loop env av restarted js
     else if restarted then restart_loop env av True js
     else do {
       ret \<leftarrow> restart_stream env j;
       if ret \<noteq> ok then State_Monad.return ret else restart_loop env av True js } }"

definition ipu6_isys_queue_restart_streams :: "'d video_env \<Rightarrow> nat \<Rightarrow> ('d ipu6_isys, unit res) state" where
  "ipu6_isys_queue_restart_streams env av = restart_loop env av False [0..<NR_OF_VIDEO_DEVICE]"

text \<open>
  Opening a node. The module parameters are arguments; the second component of the result is
  the parameter that forces a reset, which is used once. \<open>fh_open\<close> is the result of the V4L2 core.
\<close>

definition video_open ::
  "'d video_env \<Rightarrow> bool \<Rightarrow> unit res \<Rightarrow> bool \<Rightarrow> nat \<Rightarrow> ('d ipu6_isys, unit res \<times> bool) state" where
  "video_open env silent_reset_enable fh_open force_need_reset av = do {
     wait_for_not_resetting;
     nr \<leftarrow> gets need_reset;
     let needed = nr \<or> force_need_reset;
     ret \<leftarrow> (if needed \<and> silent_reset_enable then do {
        modify (\<lambda>s. s\<lparr>resetting := True\<rparr>);
        ret \<leftarrow> ipu6_isys_queue_restart_streams env av;
        modify (\<lambda>s. s\<lparr>resetting := False\<rparr>);
        State_Monad.return ret }
      else State_Monad.return ok);
     let force = force_need_reset \<and> \<not> (needed \<and> silent_reset_enable);
     if needed \<and> (ret \<noteq> ok \<or> \<not> silent_reset_enable) then State_Monad.return (Inl EIO, force)
     else do {
       ret \<leftarrow> on_isp (ipu6_buttress_authenticate (btrs (ienv env)) (psys_pkg_dir_dma_addr env));
       State_Monad.return (if ret \<noteq> ok then ret else fh_open, force) } }"

end
