(* ===== verification/Isys_Isr_Props.thy ===== *)
theory Isys_Isr_Props
  imports Isys_Video Isys_Queue_Props Syscom_Link "HOL-Library.Sublist"
begin

unbundle bit_operations_syntax

text \<open>
  Properties of the interrupt handling: the numbering of frames, and the end of the handler
  with all responses of the emulated device handled.
\<close>

section \<open>What a response does\<close>

text \<open>
  What the driver keeps about the firmware's work: the table of streams, the frame events, the
  buffers that the firmware has, and the messages.
\<close>

record isr_view =
  v_refs :: "int list"
  v_streams :: "ipu6_isys_stream list"
  v_events :: "(nat \<times> u32) list"
  v_active :: "nat \<Rightarrow> nat list"
  v_owned :: "nat \<Rightarrow> bool"
  v_free :: "isys_fw_msgs list"
  v_fw :: "isys_fw_msgs list"

definition view_of :: "'d ipu6_isys \<Rightarrow> isr_view" where
  "view_of s = \<lparr>v_refs = streams_ref_count s, v_streams = streams s, v_events = frame_events s, v_active = q_active (ibufs s),
     v_owned = vb_owned (ibufs s), v_free = framebuflist s, v_fw = framebuflist_fw s\<rparr>"

text \<open>The stream after a response: its error, the completions, the number of starts and the record of the last two.\<close>

definition answered :: "ipu6_fw_isys_resp_info_abi \<Rightarrow> ipu6_isys_stream \<Rightarrow> ipu6_isys_stream" where
  "answered r st =
     (let t = ri_type r; sof = (t = IPU6_FW_ISYS_RESP_TYPE_FRAME_SOF) in
      st\<lparr>st_error := ri_error r,
        open_completion := (if t = IPU6_FW_ISYS_RESP_TYPE_STREAM_OPEN_DONE then complete else id) (open_completion st),
        close_completion := (if t = IPU6_FW_ISYS_RESP_TYPE_STREAM_CLOSE_ACK then complete else id) (close_completion st),
        start_completion := (if t \<in> {IPU6_FW_ISYS_RESP_TYPE_STREAM_START_ACK, IPU6_FW_ISYS_RESP_TYPE_STREAM_START_AND_CAPTURE_ACK}
          then complete else id) (start_completion st),
        stop_completion := (if t \<in> {IPU6_FW_ISYS_RESP_TYPE_STREAM_STOP_ACK, IPU6_FW_ISYS_RESP_TYPE_STREAM_FLUSH_ACK}
          then complete else id) (stop_completion st),
        st_sequence := st_sequence st + (if sof then 1 else 0),
        st_seq := (if sof then (st_seq st)[seq_index st := \<lparr>si_sequence = st_sequence st, si_timestamp = ri_timestamp r\<rparr>] else st_seq st),
        seq_index := (if sof then (seq_index st + 1) mod 2 else seq_index st)\<rparr>)"

text \<open>A message that goes back to the free ones, and a buffer that leaves the active list of its queue.\<close>

definition msg_back :: "u64 \<Rightarrow> isr_view \<Rightarrow> isr_view" where
  "msg_back a v =
     (case List.find (\<lambda>m. msg_addr m = a) (v_free v @ v_fw v) of
        Some m \<Rightarrow> if a = 0 then v else v\<lparr>v_free := m # remove1 m (v_free v), v_fw := remove1 m (v_fw v)\<rparr>
      | None \<Rightarrow> v)"

definition frame_done :: "'d isys_env \<Rightarrow> ipu6_fw_isys_resp_info_abi \<Rightarrow> ipu6_isys_stream \<Rightarrow> isr_view \<Rightarrow> isr_view" where
  "frame_done env r st v =
     (case if unat (ri_pin_id r) < 11 then output_pins_queue st ! unat (ri_pin_id r) else None of
        None \<Rightarrow> v
      | Some q \<Rightarrow> (case find_ready env (ri_pin_addr r) (v_active v q) of
          None \<Rightarrow> v
        | Some b \<Rightarrow> v\<lparr>v_active := (v_active v)(q := remove1 b (v_active v q)), v_owned := (v_owned v)(b := False)\<rparr>))"

text \<open>A response for a stream that nobody uses has no effect, one for a stream without a receiver none but its error.\<close>

definition resp_effect :: "'d isys_env \<Rightarrow> ipu6_fw_isys_resp_info_abi \<Rightarrow> isr_view \<Rightarrow> isr_view" where
  "resp_effect env r v =
     (let i = unat (ri_stream_handle r); st = v_streams v ! i; t = ri_type r in
      if 8 \<le> i \<or> v_refs v ! i \<le> 0 then v
      else case st_asd st of
        None \<Rightarrow> v\<lparr>v_streams := (v_streams v)[i := st\<lparr>st_error := ri_error r\<rparr>]\<rparr>
      | Some port \<Rightarrow>
          (let v1 = v\<lparr>v_streams := (v_streams v)[i := answered r st],
                 v_events := (if t = IPU6_FW_ISYS_RESP_TYPE_FRAME_SOF then [(port, st_sequence st)] else []) @ v_events v\<rparr>
           in if t \<in> {IPU6_FW_ISYS_RESP_TYPE_STREAM_START_AND_CAPTURE_ACK, IPU6_FW_ISYS_RESP_TYPE_STREAM_CAPTURE_ACK}
              then msg_back (ri_buf_handle r) v1
              else if t = IPU6_FW_ISYS_RESP_TYPE_PIN_DATA_READY then frame_done env r st v1 else v1))"

lemma view_fields [simp]:
  "view_of (s\<lparr>isp := x1\<rparr>) = view_of s" "view_of (s\<lparr>receiver_errors := x2\<rparr>) = view_of s"
  "view_of (s\<lparr>wild := x3\<rparr>) = view_of s" "view_of (s\<lparr>stuck := x4\<rparr>) = view_of s"
  by (simp_all add: view_of_def)

lemma view_csi2_access [simp]:
  "view_of (snd (run_state (csi2_readl env p r) s)) = view_of s" "view_of (snd (run_state (csi2_writel env p v r) s)) = view_of s"
  by (simp_all add: csi2_readl_def csi2_writel_def)

lemma view_register_errors [simp]: "view_of (snd (run_state (ipu4_isys_register_errors env p) s)) = view_of s"
  by (simp add: ipu4_isys_register_errors_def case_prod_beta)

lemma view_csi2_error [simp]: "view_of (snd (run_state (ipu4_isys_csi2_error env p) s)) = view_of s"
  by (simp add: ipu4_isys_csi2_error_def case_prod_beta)

lemma view_put_msg: "view_of (snd (run_state (ipu6_put_fw_msg_buf a) s)) = msg_back a (view_of s)"
  by (simp add: ipu6_put_fw_msg_buf_def msg_back_def view_of_def split: option.split)

lemma buf_ready_others:
  fixes env i q addr time err s
  defines "s' \<equiv> snd (run_state (ipu6_stream_buf_ready env i q addr time err) s)"
  shows "streams_ref_count s' = streams_ref_count s" "streams s' = streams s" "frame_events s' = frame_events s"
    "framebuflist s' = framebuflist s" "framebuflist_fw s' = framebuflist_fw s"
  unfolding s'_def
  by (simp_all add: ipu6_stream_buf_ready_def ipu6_isys_buf_calc_sequence_time_def get_sof_ns_delta_def case_prod_beta
      split: option.split)

lemma view_buf_ready:
  "view_of (snd (run_state (ipu6_stream_buf_ready env i q addr time err) s)) =
   (case find_ready env addr (q_active (ibufs s) q) of
      None \<Rightarrow> view_of s
    | Some b \<Rightarrow> (view_of s)\<lparr>v_active := (q_active (ibufs s))(q := remove1 b (q_active (ibufs s) q)),
        v_owned := (vb_owned (ibufs s))(b := False)\<rparr>)"
  using buf_ready_lists [where env = env and i = i and q = q and addr = addr and time = time and err = err and s = s]
  by (simp add: view_of_def buf_ready_others split: option.splits)

lemma view_pin_ready:
  "view_of (snd (run_state (pin_data_ready env i port r) s)) = frame_done env r (streams s ! i) (view_of s)"
  by (simp add: pin_data_ready_def ipu6_isys_queue_buf_ready_def frame_done_def view_buf_ready case_prod_beta ipu4_consts
      split: option.split) (simp add: view_of_def)

lemma refs_restored:
  fixes l :: "int list"
  assumes "0 < l ! i"
  shows "(l[i := l ! i + 1])[i := l[i := l ! i + 1] ! i + - 1] = l" "0 < l[i := l ! i + 1] ! i"
  using assms by (cases "i < length l"; simp add: list_update_beyond)+

lemma view_upd_stream: "view_of (upd_stream i f s) = (view_of s)\<lparr>v_streams := (streams s)[i := f (streams s ! i)]\<rparr>"
  by (simp add: view_of_def upd_stream_def)

lemma view_of_sel [simp]:
  "v_refs (view_of s) = streams_ref_count s" "v_streams (view_of s) = streams s" "v_events (view_of s) = frame_events s"
  by (simp_all add: view_of_def)

lemma answered_same:
  assumes "ri_type r \<notin> {IPU6_FW_ISYS_RESP_TYPE_STREAM_OPEN_DONE, IPU6_FW_ISYS_RESP_TYPE_STREAM_CLOSE_ACK,
      IPU6_FW_ISYS_RESP_TYPE_STREAM_START_ACK, IPU6_FW_ISYS_RESP_TYPE_STREAM_START_AND_CAPTURE_ACK,
      IPU6_FW_ISYS_RESP_TYPE_STREAM_STOP_ACK, IPU6_FW_ISYS_RESP_TYPE_STREAM_FLUSH_ACK, IPU6_FW_ISYS_RESP_TYPE_FRAME_SOF}"
    and "st_error st = ri_error r"
  shows "answered r st = st"
  using assms by (cases st) (auto simp: answered_def Let_def)

lemma msg_back_fields [simp]:
  "msg_back a (v\<lparr>v_streams := x\<rparr>) = (msg_back a v)\<lparr>v_streams := x\<rparr>" "msg_back a (v\<lparr>v_events := y\<rparr>) = (msg_back a v)\<lparr>v_events := y\<rparr>"
  "v_streams (msg_back a v) = v_streams v" "v_events (msg_back a v) = v_events v" "v_refs (msg_back a v) = v_refs v"
  by (simp_all add: msg_back_def split: option.split)

lemma put_msg_fields [simp]:
  "streams (snd (run_state (ipu6_put_fw_msg_buf a) s)) = streams s" "frame_events (snd (run_state (ipu6_put_fw_msg_buf a) s)) = frame_events s"
  by (simp_all add: ipu6_put_fw_msg_buf_def split: option.split)

lemma view_same: "v_streams v = x \<Longrightarrow> v\<lparr>v_streams := x\<rparr> = v" "v_events v = y \<Longrightarrow> v\<lparr>v_events := y\<rparr> = v"
  by auto

lemma frame_done_fields [simp]:
  "frame_done env r st (v\<lparr>v_streams := x\<rparr>) = (frame_done env r st v)\<lparr>v_streams := x\<rparr>"
  "frame_done env r st (v\<lparr>v_events := y\<rparr>) = (frame_done env r st v)\<lparr>v_events := y\<rparr>"
  "v_streams (frame_done env r st v) = v_streams v" "v_events (frame_done env r st v) = v_events v"
  "v_refs (frame_done env r st v) = v_refs v"
  by (simp_all add: frame_done_def split: option.split)

lemma refs_aside:
  "msg_back a (v\<lparr>v_refs := x\<rparr>) = (msg_back a v)\<lparr>v_refs := x\<rparr>"
  "frame_done env r st (v\<lparr>v_refs := x\<rparr>) = (frame_done env r st v)\<lparr>v_refs := x\<rparr>"
  "frame_done env r (st\<lparr>st_error := e\<rparr>) v = frame_done env r st v"
  by (simp_all add: msg_back_def frame_done_def split: option.split)

lemma effect_refs [simp]: "v_refs (resp_effect env r v) = v_refs v"
  by (simp add: resp_effect_def Let_def split: option.split)

lemma view_put_stream:
  "view_of (snd (run_state (ipu6_isys_put_stream i) s)) =
   (if 0 < streams_ref_count s ! i then (view_of s)\<lparr>v_refs := (streams_ref_count s)[i := streams_ref_count s ! i + - 1]\<rparr> else view_of s)"
  by (simp add: ipu6_isys_put_stream_def add_ref_def view_of_def)

lemma view_resp_event:
  assumes "i < length (streams s)" "st_error (streams s ! i) = ri_error r"
  shows "view_of (snd (run_state (resp_event env i port r) s)) =
    (let t = ri_type r; st = streams s ! i;
         v1 = (view_of s)\<lparr>v_streams := (streams s)[i := answered r st],
           v_events := (if t = IPU6_FW_ISYS_RESP_TYPE_FRAME_SOF then [(port, st_sequence st)] else []) @ frame_events s\<rparr>
     in if t \<in> {IPU6_FW_ISYS_RESP_TYPE_STREAM_START_AND_CAPTURE_ACK, IPU6_FW_ISYS_RESP_TYPE_STREAM_CAPTURE_ACK}
        then msg_back (ri_buf_handle r) v1
        else if t = IPU6_FW_ISYS_RESP_TYPE_PIN_DATA_READY then frame_done env r st v1 else v1)"
proof -
  obtain st where st: "streams s ! i = st" "st_error st = ri_error r" using assms(2) by simp
  consider "ri_type r = IPU6_FW_ISYS_RESP_TYPE_STREAM_OPEN_DONE" | "ri_type r = IPU6_FW_ISYS_RESP_TYPE_STREAM_CLOSE_ACK"
    | "ri_type r = IPU6_FW_ISYS_RESP_TYPE_STREAM_START_ACK" | "ri_type r = IPU6_FW_ISYS_RESP_TYPE_STREAM_START_AND_CAPTURE_ACK"
    | "ri_type r = IPU6_FW_ISYS_RESP_TYPE_STREAM_STOP_ACK" | "ri_type r = IPU6_FW_ISYS_RESP_TYPE_STREAM_FLUSH_ACK"
    | "ri_type r = IPU6_FW_ISYS_RESP_TYPE_FRAME_SOF"
    | "ri_type r \<notin> {IPU6_FW_ISYS_RESP_TYPE_STREAM_OPEN_DONE, IPU6_FW_ISYS_RESP_TYPE_STREAM_CLOSE_ACK,
        IPU6_FW_ISYS_RESP_TYPE_STREAM_START_ACK, IPU6_FW_ISYS_RESP_TYPE_STREAM_START_AND_CAPTURE_ACK,
        IPU6_FW_ISYS_RESP_TYPE_STREAM_STOP_ACK, IPU6_FW_ISYS_RESP_TYPE_STREAM_FLUSH_ACK, IPU6_FW_ISYS_RESP_TYPE_FRAME_SOF}"
    by blast
  then show ?thesis
  proof cases
    case 7
    then show ?thesis
      using assms(1) st
      by (cases st) (simp add: resp_event_def ipu6_isys_csi2_sof_event_by_stream_def note_sof_def answered_def Let_def
          view_of_def upd_stream_def case_prod_beta ipu4_consts)
  next
    case 8
    from answered_same [OF 8 st(2)] have a: "(streams s)[i := answered r (streams s ! i)] = streams s"
      using st(1) by (metis list_update_id)
    show ?thesis
      using 8 unfolding Let_def a
      by (auto simp: resp_event_def Let_def view_same view_put_msg view_pin_ready ipu4_consts)
  qed (use assms(1) st in \<open>cases st; simp add: resp_event_def answered_def Let_def view_upd_stream view_put_msg
      view_same case_prod_beta ipu4_consts\<close>)+
qed

lemma handle_resp_effect:
  assumes "length (streams s) = 8"
  shows "view_of (snd (run_state (handle_resp env r) s)) = resp_effect env r (view_of s)"
proof (cases "unat (ri_stream_handle r) < 8 \<and> 0 < streams_ref_count s ! unat (ri_stream_handle r)")
  case False
  then show ?thesis
    by (auto simp: handle_resp_def ipu6_isys_query_stream_by_handle_def resp_effect_def Let_def ipu4_consts)
next
  case True
  let ?i = "unat (ri_stream_handle r)"
  let ?st = "streams s ! ?i"
  let ?s = "upd_stream ?i (\<lambda>st. st\<lparr>st_error := ri_error r\<rparr>) (add_ref ?i 1 s)"
  define s2 where "s2 = (case st_asd ?st of None \<Rightarrow> ?s\<lparr>wild := True\<rparr> | Some port \<Rightarrow> snd (run_state (resp_event env ?i port r) ?s))"
  have run: "snd (run_state (handle_resp env r) s) = snd (run_state (ipu6_isys_put_stream ?i) s2)"
    using True assms by (simp add: handle_resp_def ipu6_isys_query_stream_by_handle_def s2_def case_prod_beta ipu4_consts
        upd_stream_def add_ref_def split: option.split)
  have ans: "answered r (?st\<lparr>st_error := ri_error r\<rparr>) = answered r ?st"
    by (simp add: answered_def Let_def)
  have vs: "view_of ?s = (view_of s)\<lparr>v_refs := (streams_ref_count s)[?i := streams_ref_count s ! ?i + 1],
      v_streams := (streams s)[?i := ?st\<lparr>st_error := ri_error r\<rparr>]\<rparr>"
    using True assms by (simp add: view_of_def upd_stream_def add_ref_def)
  have sel: "streams ?s ! ?i = ?st\<lparr>st_error := ri_error r\<rparr>" "streams ?s = (streams s)[?i := ?st\<lparr>st_error := ri_error r\<rparr>]"
    "frame_events ?s = frame_events s" "?i < length (streams ?s)"
    using True assms by (simp_all add: upd_stream_def add_ref_def)
  have v2: "view_of s2 = (resp_effect env r (view_of s))\<lparr>v_refs := (streams_ref_count s)[?i := streams_ref_count s ! ?i + 1]\<rparr>"
  proof (cases "st_asd ?st")
    case None
    then show ?thesis
      using True by (simp add: s2_def vs resp_effect_def Let_def)
  next
    case (Some port)
    show ?thesis
      unfolding s2_def Some option.case using True Some sel(4)
      by (subst view_resp_event) (simp_all add: sel(1) vs sel(2,3) ans resp_effect_def Let_def refs_aside)
  qed
  have "streams_ref_count s2 = (streams_ref_count s)[?i := streams_ref_count s ! ?i + 1]"
    using arg_cong [OF v2, of v_refs] by simp
  moreover have "v_refs (resp_effect env r (view_of s)) = streams_ref_count s"
    by simp
  ultimately show ?thesis
    using True refs_restored [of "streams_ref_count s" ?i] unfolding run view_put_stream v2
    by auto
qed

section \<open>Numbering of frames\<close>

fun run_resps :: "'d isys_env \<Rightarrow> ipu6_fw_isys_resp_info_abi list \<Rightarrow> ('d ipu6_isys, unit) state" where
  "run_resps env [] = State_Monad.return ()"
| "run_resps env (r # rs) = do { handle_resp env r; run_resps env rs }"

lemma run_resps_snoc:
  "snd (run_state (run_resps env (rs @ [r])) s) = snd (run_state (handle_resp env r) (snd (run_state (run_resps env rs) s)))"
  by (induction rs arbitrary: s) (simp_all add: case_prod_beta)

definition slot :: "(nat \<Rightarrow> u64) \<Rightarrow> nat \<Rightarrow> nat \<Rightarrow> sequence_info" where
  "slot ts n j = (let ks = filter (\<lambda>k. k mod 2 = j) [0..<n] in
     if ks = [] then \<lparr>si_sequence = 0, si_timestamp = 0\<rparr>
     else \<lparr>si_sequence = word_of_nat (last ks), si_timestamp = ts (last ks)\<rparr>)"

definition numbered :: "(nat \<Rightarrow> u64) \<Rightarrow> nat \<Rightarrow> ipu6_isys_stream \<Rightarrow> bool" where
  "numbered ts n st \<longleftrightarrow> st_sequence st = word_of_nat n \<and> seq_index st = n mod 2 \<and> st_seq st = [slot ts n 0, slot ts n 1]"

lemma slot_Suc: "slot ts (Suc n) j =
    (if n mod 2 = j then \<lparr>si_sequence = word_of_nat n, si_timestamp = ts n\<rparr> else slot ts n j)"
  by (simp add: slot_def Let_def)

lemma slot_recent:
  assumes "k < n" "n \<le> k + 2"
  shows "slot ts n (k mod 2) = \<lparr>si_sequence = word_of_nat k, si_timestamp = ts k\<rparr>"
proof -
  have "n = Suc k \<or> n = Suc (Suc k)" using assms by auto
  then show ?thesis
    by (auto simp: slot_Suc) presburger+
qed

lemma numbered_sof:
  assumes "numbered ts n st" "ri_type r = IPU6_FW_ISYS_RESP_TYPE_FRAME_SOF" "ri_timestamp r = ts n"
  shows "numbered ts (Suc n) (answered r st)"
proof -
  have "Suc n mod 2 = (if even n then 1 else 0)" by presburger
  then show ?thesis
    using assms by (simp add: numbered_def answered_def Let_def slot_Suc mod2_eq_if ac_simps)
qed

lemma numbered_other:
  "ri_type r \<noteq> IPU6_FW_ISYS_RESP_TYPE_FRAME_SOF \<Longrightarrow> numbered ts n (answered r st) = numbered ts n st"
  by (simp add: numbered_def answered_def Let_def)

lemma numbered_start:
  "st_sequence st = 0 \<Longrightarrow> seq_index st = 0 \<Longrightarrow> st_seq st = replicate 2 \<lparr>si_sequence = 0, si_timestamp = 0\<rparr> \<Longrightarrow>
   numbered ts 0 st"
  by (simp add: numbered_def slot_def Let_def numeral_2_eq_2)

lemma numbered_recent:
  assumes "numbered ts n st" "k < n" "n \<le> k + 2" "ts k \<noteq> 0"
    and "\<And>j. j < n \<Longrightarrow> n \<le> j + 2 \<Longrightarrow> j \<noteq> k \<Longrightarrow> ts j \<noteq> ts k"
  shows "get_sof_sequence_by_timestamp st (ts k) = word_of_nat k"
proof (cases "even k")
  case True
  then show ?thesis
    using assms slot_recent [OF assms(2,3), of ts]
    by (simp add: numbered_def get_sof_sequence_by_timestamp_def ipu4_consts mod2_eq_if)
next
  case False
  define j where "j = (if n = Suc k then k - 1 else Suc k)"
  have j: "j < n" "n \<le> j + 2" "j \<noteq> k" "j mod 2 = 0"
    using False assms(2,3) unfolding j_def by (auto simp: odd_pos elim: oddE)
  have "ts j \<noteq> ts k" by (rule assms(5) [OF j(1-3)])
  then show ?thesis
    using assms(1,4) False slot_recent [OF assms(2,3), of ts] slot_recent [OF j(1,2), of ts, unfolded j(4)]
    by (simp add: numbered_def get_sof_sequence_by_timestamp_def ipu4_consts mod2_eq_if)
qed

abbreviation is_sof :: "nat \<Rightarrow> ipu6_fw_isys_resp_info_abi \<Rightarrow> bool" where
  "is_sof i r \<equiv> unat (ri_stream_handle r) = i \<and> ri_type r = IPU6_FW_ISYS_RESP_TYPE_FRAME_SOF"

lemma effect_streams [simp]: "length (v_streams (resp_effect env r v)) = length (v_streams v)"
  by (simp add: resp_effect_def Let_def split: option.split)

lemma answered_asd [simp]: "st_asd (answered r st) = st_asd st"
  by (simp add: answered_def Let_def)

text \<open>The effect on a stream in use that has a receiver: its starts are numbered, everything else leaves the numbers alone.\<close>

lemma effect_numbered:
  assumes "i < 8" "length (v_streams v) = 8" "0 < v_refs v ! i" "st_asd (v_streams v ! i) = Some port"
  shows "st_asd (v_streams (resp_effect env r v) ! i) = Some port"
    "is_sof i r \<Longrightarrow> v_streams (resp_effect env r v) ! i = answered r (v_streams v ! i) \<and>
       v_events (resp_effect env r v) = (port, st_sequence (v_streams v ! i)) # v_events v"
    "\<not> is_sof i r \<Longrightarrow> numbered ts n (v_streams (resp_effect env r v) ! i) = numbered ts n (v_streams v ! i)"
    "\<exists>es. v_events (resp_effect env r v) = es @ v_events v \<and> (ri_type r \<noteq> IPU6_FW_ISYS_RESP_TYPE_FRAME_SOF \<longrightarrow> es = [])"
  using assms answered_asd [of r]
  by (auto simp: resp_effect_def Let_def nth_list_update numbered_other ipu4_consts split: option.split)

lemma run_resps_numbered:
  assumes "i < 8" "length (streams s) = 8" "0 < streams_ref_count s ! i" "st_asd (streams s ! i) = Some port"
    and "numbered ts 0 (streams s ! i)" "\<And>k. k < length (filter (is_sof i) rs) \<Longrightarrow> ts k = ri_timestamp (filter (is_sof i) rs ! k)"
  shows "let v = view_of (snd (run_state (run_resps env rs) s)); n = length (filter (is_sof i) rs) in
    length (v_streams v) = 8 \<and> v_refs v = streams_ref_count s \<and> st_asd (v_streams v ! i) = Some port \<and>
    numbered ts n (v_streams v ! i) \<and>
    (\<exists>evs. v_events v = evs @ frame_events s \<and> subseq (rev (map (\<lambda>k. (port, word_of_nat k)) [0..<n])) evs \<and>
       ((\<forall>r \<in> set rs. ri_type r = IPU6_FW_ISYS_RESP_TYPE_FRAME_SOF \<longrightarrow> unat (ri_stream_handle r) = i) \<longrightarrow>
        evs = rev (map (\<lambda>k. (port, word_of_nat k)) [0..<n])))"
  using assms(6)
proof (induction rs rule: rev_induct)
  case Nil
  show ?case using assms by simp
next
  case (snoc r rs)
  let ?s = "snd (run_state (run_resps env rs) s)"
  let ?v = "view_of ?s" and ?n = "length (filter (is_sof i) rs)"
  let ?ks = "\<lambda>n. rev (map (\<lambda>k. (port, word_of_nat k)) [0..<n])"
  have ts: "ts k = ri_timestamp (filter (is_sof i) rs ! k)" if "k < ?n" for k
    using snoc.prems [of k] that by (cases "is_sof i r") (simp_all add: nth_append)
  obtain evs where IH: "length (v_streams ?v) = 8" "v_refs ?v = streams_ref_count s" "st_asd (v_streams ?v ! i) = Some port"
    "numbered ts ?n (v_streams ?v ! i)" "v_events ?v = evs @ frame_events s" "subseq (?ks ?n) evs"
    "(\<forall>r \<in> set rs. ri_type r = IPU6_FW_ISYS_RESP_TYPE_FRAME_SOF \<longrightarrow> unat (ri_stream_handle r) = i) \<Longrightarrow> evs = ?ks ?n"
    using snoc.IH [OF ts] by (auto simp: Let_def)
  have run: "view_of (snd (run_state (run_resps env (rs @ [r])) s)) = resp_effect env r ?v"
    using IH(1) by (simp add: run_resps_snoc handle_resp_effect)
  note e = effect_numbered [OF assms(1) IH(1) _ IH(3), where env = env and r = r]
  show ?case
  proof (cases "is_sof i r")
    case True
    have seq: "st_sequence (v_streams ?v ! i) = word_of_nat ?n" using IH(4) by (simp add: numbered_def)
    have "ri_timestamp r = ts ?n" using snoc.prems [of ?n] True by simp
    from numbered_sof [OF IH(4) _ this] True e(2) show ?thesis
      using e(1) IH assms(3) seq unfolding run Let_def
      by (auto intro!: exI [of _ "(port, word_of_nat ?n) # evs"])
  next
    case False
    obtain es where es: "v_events (resp_effect env r ?v) = es @ v_events ?v"
        "ri_type r \<noteq> IPU6_FW_ISYS_RESP_TYPE_FRAME_SOF \<longrightarrow> es = []"
      using e(4) IH(2) assms(3) by auto
    show ?thesis
      using False es e(1,3) IH assms(3) unfolding run Let_def
      by (auto intro!: exI [of _ "es @ evs"])
  qed
qed

lemma prepare_ok:
  assumes "run_state (ipu6_isys_video_prepare_stream i ent nq) s0 = (ok, s)" "i < length (streams s)"
  shows "numbered ts 0 (streams s ! i)"
  using assms
  by (intro numbered_start)
    (auto simp: ipu6_isys_video_prepare_stream_def upd_stream_def ipu4_consts split: if_splits option.splits)

text \<open>
  C29: The frames of a prepared stream that is in use are numbered from 0 in the order of their
  starts, whatever other responses and frames of other streams come in between. The events for
  applications carry these numbers, and there is no other event when no other stream has starts.
  A finished frame that is reported without a time stamp gets the number of the last start; one
  with a time stamp gets the number of its own start when this is the last one or the one before
  and their time stamps differ.
\<close>

theorem frames_numbered:
  assumes "run_state (ipu6_isys_video_prepare_stream i ent nq) s0 = (ok, s)" "i < 8" "length (streams s) = 8"
    and "0 < streams_ref_count s ! i" "st_asd (streams s ! i) = Some port"
    and "fs = filter (\<lambda>r. unat (ri_stream_handle r) = i \<and> ri_type r = IPU6_FW_ISYS_RESP_TYPE_FRAME_SOF) rs"
    and "s' = snd (run_state (run_resps env rs) s)"
    and "numbers = rev (map (\<lambda>k. (port, word_of_nat k)) [0..<length fs])"
  shows "(\<exists>evs. frame_events s' = evs @ frame_events s \<and> subseq numbers evs \<and>
      ((\<forall>r \<in> set rs. ri_type r = IPU6_FW_ISYS_RESP_TYPE_FRAME_SOF \<longrightarrow> unat (ri_stream_handle r) = i) \<longrightarrow> evs = numbers)) \<and>
    get_sof_sequence_by_timestamp (streams s' ! i) 0 = word_of_nat (length fs) - 1 \<and>
    (\<forall>k < length fs. length fs \<le> k + 2 \<longrightarrow> ri_timestamp (fs ! k) \<noteq> 0 \<longrightarrow>
      (\<forall>j < length fs. length fs \<le> j + 2 \<longrightarrow> j \<noteq> k \<longrightarrow> ri_timestamp (fs ! j) \<noteq> ri_timestamp (fs ! k)) \<longrightarrow>
      get_sof_sequence_by_timestamp (streams s' ! i) (ri_timestamp (fs ! k)) = word_of_nat k)"
proof -
  let ?ts = "\<lambda>k. ri_timestamp (fs ! k)"
  have "numbered ?ts 0 (streams s ! i)"
    using assms(2,3) by (intro prepare_ok [OF assms(1)]) simp
  note run = run_resps_numbered [OF assms(2-5) this, where env = env and rs = rs, folded assms(6,7), unfolded Let_def view_of_sel]
  have n: "numbered ?ts (length fs) (streams s' ! i)" using run by blast
  have "get_sof_sequence_by_timestamp (streams s' ! i) 0 = word_of_nat (length fs) - 1"
    using n by (simp add: numbered_def get_sof_sequence_by_timestamp_def)
  moreover have "get_sof_sequence_by_timestamp (streams s' ! i) (?ts k) = word_of_nat k"
    if "k < length fs" "length fs \<le> k + 2" "?ts k \<noteq> 0"
      "\<forall>j < length fs. length fs \<le> j + 2 \<longrightarrow> j \<noteq> k \<longrightarrow> ?ts j \<noteq> ?ts k" for k
    using numbered_recent [OF n that(1-3)] that(4) by blast
  ultimately show ?thesis
    using run unfolding assms(8) by blast
qed

text \<open>The two first frames of stream 0, which receives from port 1, with a capture acknowledged in between.\<close>

definition ex_sof :: "u64 \<Rightarrow> ipu6_fw_isys_resp_info_abi" where
  "ex_sof ts = \<lparr>ri_buf_handle = 0, ri_pin_addr = 0, ri_error = 0, ri_timestamp = ts, ri_stream_handle = 0,
     ri_type = IPU6_FW_ISYS_RESP_TYPE_FRAME_SOF, ri_pin_id = 0\<rparr>"

theorem frames_numbered_witness:
  "\<exists>s0 s. run_state (ipu6_isys_video_prepare_stream 0 7 1) s0 = (ok, s) \<and>
     get_sof_sequence_by_timestamp (streams (snd (run_state (run_resps ex_ienv
       [ex_sof 100, (ex_sof 0)\<lparr>ri_type := IPU6_FW_ISYS_RESP_TYPE_STREAM_CAPTURE_ACK\<rparr>, ex_sof 200]) s)) ! 0) 100 = 0"
proof -
  let ?s0 = "ex_isys\<lparr>streams_ref_count := 1 # replicate 7 0,
    streams := (streams ex_isys)[0 := (init_stream 0)\<lparr>st_vc := 0, st_asd := Some 1\<rparr>]\<rparr>"
  let ?s = "snd (run_state (ipu6_isys_video_prepare_stream 0 7 1) ?s0)"
  let ?rs = "[ex_sof 100, (ex_sof 0)\<lparr>ri_type := IPU6_FW_ISYS_RESP_TYPE_STREAM_CAPTURE_ACK\<rparr>, ex_sof 200]"
  have s: "run_state (ipu6_isys_video_prepare_stream 0 7 1) ?s0 = (ok, ?s)" "length (streams ?s) = 8"
    "0 < streams_ref_count ?s ! 0" "st_asd (streams ?s ! 0) = Some 1"
    by (simp_all add: ipu6_isys_video_prepare_stream_def upd_stream_def init_stream_def ex_isys_def
        stream_ids_def ipu4_consts)
  have fs: "[ex_sof 100, ex_sof 200] =
      filter (\<lambda>r. unat (ri_stream_handle r) = 0 \<and> ri_type r = IPU6_FW_ISYS_RESP_TYPE_FRAME_SOF) ?rs"
    by (simp add: ex_sof_def ipu4_consts)
  have "get_sof_sequence_by_timestamp (streams (snd (run_state (run_resps ex_ienv ?rs) ?s)) ! 0) (ri_timestamp ([ex_sof 100, ex_sof 200] ! 0)) = word_of_nat 0"
    using frames_numbered [OF s(1) _ s(2-4) fs refl refl, of ex_ienv]
    by (auto simp: ex_sof_def less_Suc_eq simp del: run_resps.simps)
  then show ?thesis
    using s(1) by (intro exI [of _ ?s0] exI [of _ ?s]) (simp add: ex_sof_def del: run_resps.simps)
qed

section \<open>The end of the interrupt handler\<close>

text \<open>
  What the handler relies on: a source with the tokens \<open>ts\<close> ready gives the first of them at a time,
  which has its \<open>effect\<close> on what is seen of the state, and none at the end; clearing interrupts clears
  them and is not seen, and nothing else raises any.
\<close>

locale response_source =
  fixes env :: "'d isys_env" and ready :: "'t list \<Rightarrow> u32 \<Rightarrow> 'd ipu6_isys \<Rightarrow> bool"
    and view :: "'d ipu6_isys \<Rightarrow> 'v" and effect :: "'t \<Rightarrow> 'v \<Rightarrow> 'v"
  assumes take_none: "ready [] irq s \<Longrightarrow> run_state (isys_isr_one env) s = (True, s)"
    and take_some: "ready (t # ts) irq s \<Longrightarrow>
      \<exists>s'. run_state (isys_isr_one env) s = (False, s') \<and> ready ts irq s' \<and> view s' = effect t (view s)"
    and ack: "ready ts irq s \<Longrightarrow> run_state (isr_ack env status) s = (u, s') \<Longrightarrow>
      ready ts (irq AND NOT status) s' \<and> view s' = view s"
    and irq_status: "ready ts irq s \<Longrightarrow> run_state (on_dev (isys_readl env IPU4_REG_ISYS_UNISPART_IRQ_STATUS)) s = (irq, s)"
    and not_stuck: "ready ts irq s \<Longrightarrow> \<not> stuck s"
begin

lemma one_round:
  assumes "ready ts irq s" "irq AND NOT status = 0" "status AND IPU4_ISYS_UNISPART_IRQ_SW \<noteq> 0 \<or> ts = []"
  shows "\<exists>s'. run_state (isr_round env status) s = (if ts = [] then 0 else IPU4_ISYS_UNISPART_IRQ_SW, s') \<and>
    ready (drop 1 ts) 0 s' \<and> view s' = fold effect (take 1 ts) (view s)"
proof -
  obtain u s1 where s1: "run_state (isr_ack env status) s = (u, s1)"
    by (cases "run_state (isr_ack env status) s") auto
  have r1: "ready ts 0 s1" "view s1 = view s" using ack [OF assms(1) s1] assms(2) by simp_all
  show ?thesis
  proof (cases ts)
    case Nil
    then show ?thesis
      using r1 s1 take_none [of 0 s1] irq_status [of "[]" 0] by (auto simp: isr_round_def)
  next
    case (Cons t ts')
    then obtain s2 where "run_state (isys_isr_one env) s1 = (False, s2)" "ready ts' 0 s2" "view s2 = effect t (view s1)"
      using take_some [of t ts' 0 s1] r1 by auto
    then show ?thesis
      using assms(3) s1 r1 Cons irq_status [of ts' 0] by (auto simp: isr_round_def)
  qed
qed

text \<open>With \<open>m\<close> rounds the first \<open>m\<close> tokens are taken, and the loop ends by itself when this is more than there are.\<close>

lemma loop_takes:
  assumes "ready ts irq s" "irq AND NOT status = 0" "status AND IPU4_ISYS_UNISPART_IRQ_SW \<noteq> 0 \<or> ts = []"
  shows "\<exists>s'. snd (run_state (isr_loop env m status) s) = s'\<lparr>stuck := m \<le> length ts\<rparr> \<and>
    ready (drop m ts) (if m = 0 then irq else 0) s' \<and> view s' = fold effect (take m ts) (view s)"
  using assms
proof (induction m arbitrary: ts irq s status)
  case 0
  then show ?case by auto
next
  case (Suc m)
  from one_round [OF Suc.prems] obtain s1
    where s1: "run_state (isr_round env status) s = (if ts = [] then 0 else IPU4_ISYS_UNISPART_IRQ_SW, s1)"
      "ready (drop 1 ts) 0 s1" "view s1 = fold effect (take 1 ts) (view s)"
    by blast
  show ?case
  proof (cases ts)
    case Nil
    then show ?thesis
      using s1 not_stuck [OF s1(2)] by (auto intro!: exI [of _ s1])
  next
    case (Cons t ts')
    have sw: "IPU4_ISYS_UNISPART_IRQ_SW AND (b OR IPU4_ISYS_UNISPART_IRQ_SW) = IPU4_ISYS_UNISPART_IRQ_SW" for b
      by (simp add: bit.conj_disj_distrib)
    have "\<exists>s'. snd (run_state (isr_loop env m IPU4_ISYS_UNISPART_IRQ_SW) s1) = s'\<lparr>stuck := m \<le> length (drop 1 ts)\<rparr> \<and>
      ready (drop m (drop 1 ts)) (if m = 0 then 0 else 0) s' \<and> view s' = fold effect (take m (drop 1 ts)) (view s1)"
      by (rule Suc.IH [OF s1(2)]) (auto simp: ipu4_consts)
    then show ?thesis
      using Cons s1 by (simp add: sw) (simp add: ipu4_consts)
  qed
qed

end

section \<open>Responses of the emulated device\<close>

text \<open>
  The driver on the emulated device, with the responses \<open>ts\<close> in the ring of the message queue and
  the given interrupts raised. The CPU reads the memory that the device writes: where the device's
  view of a slot has 64 bytes, the CPU loads these.
\<close>

definition qemu_ready ::
  "'m pci_env \<Rightarrow> u64 \<Rightarrow> (u64 \<Rightarrow> u64) \<Rightarrow> 'm dev ipu6_fw_com_context \<Rightarrow> 'm dev isys_env \<Rightarrow> u8 list list \<Rightarrow> u32 \<Rightarrow> 'm dev ipu6_isys \<Rightarrow> bool" where
  "qemu_ready penv bar v2p ctx env ts irq s \<longleftrightarrow>
     mmio (btrs env) = qemu_dev penv bar \<and> isp_base (btrs env) = bar \<and> ibase env = bar + 0x100000 \<and> nports env = 6 \<and>
     (\<forall>a d bs. host_view penv v2p (snd d) a = Some bs \<longrightarrow> host_load env a 64 d = bs) \<and>
     fwcom s = Some ctx \<and> length (output_queue ctx) = 2 \<and> \<not> stuck s \<and>
     length (streams s) = 8 \<and> (\<forall>st \<in> set (streams s). \<forall>p. st_asd st = Some p \<longrightarrow> p < 6) \<and>
     link_inv penv bar v2p ctx 1 (hw (isp s)) \<and> pending penv bar v2p ctx 1 (hw (isp s)) = map Some ts \<and>
     is_unispart_irq_status (fst (hw (isp s))) = irq"

abbreviation csi2_irq_regs :: "u64 set" where
  "csi2_irq_regs \<equiv> {CSI2_REG_CSI2PART_IRQ_STATUS, CSI2_REG_CSI2PART_IRQ_CLEAR, CSI2_REG_CSIRX_IRQ_STATUS, CSI2_REG_CSIRX_IRQ_CLEAR}"

lemma less_6: "p < (6 :: nat) \<longleftrightarrow> p = 0 \<or> p = 1 \<or> p = 2 \<or> p = 3 \<or> p = 4 \<or> p = 5"
  by auto

text \<open>The addresses outside of the windows that the device decodes on writes.\<close>

definition qemu_regs :: "u64 list" where
  "qemu_regs = [BTRS_REG_BTRS_CTRL, BTRS_REG_WDT, BTRS_REG_FW_RESET_CTL, BTRS_REG_IS_FREQ_CTL, BTRS_REG_PS_FREQ_CTL,
     BTRS_REG_FABRIC_CMD, BTRS_REG_FW_SOURCE_BASE_LO, BTRS_REG_FW_SOURCE_BASE_HI, BTRS_REG_FW_SOURCE_SIZE,
     BTRS_REG_ISR_ENABLE, BTRS_REG_ISR_CLEAR, BTRS_REG_SECURITY_CTL, BTRS_REG_IU2CSEDATA0, BTRS_REG_IU2CSEDB0,
     BTRS_REG_IU2CSECSR, BTRS_REG_CSE2IUCSR, BTRS_REG_CSE2IUDB0, BTRS_REG_PWR_STATE, IS_UNISPART_IRQ_EDGE, IS_UNISPART_IRQ_MASK,
     IS_UNISPART_IRQ_CLEAR, IS_UNISPART_IRQ_ENABLE, IS_UNISPART_IRQ_LEVEL_NOT_PULSE, IS_UNISPART_SW_IRQ,
     IS_UNISPART_SW_IRQ_MUX, IS_SPC_STATUS_CTRL, PS_SPC_STATUS_CTRL]"

lemma qemu_regs_outside: "\<forall>k \<in> set qemu_regs. \<not> (0x164000 \<le> k \<and> k < 0x16d000)"
  by (simp add: qemu_regs_def ipu4_consts)

lemma qemu_read_keeps:
  assumes "a \<noteq> BTRS_REG_FW_RESET_CTL" "a \<noteq> BTRS_REG_PWR_STATE"
  shows "snd (ipu4_mmio_read penv a d) = d"
  using assms by (cases d) (simp add: ipu4_mmio_read_def Let_def)

lemma qemu_csi2_read: "0x164000 \<le> a \<Longrightarrow> snd (ipu4_mmio_read penv a d) = d"
  by (rule qemu_read_keeps) (auto simp: ipu4_consts)

lemma qemu_csi2_write:
  assumes "0x164000 \<le> a" "a < 0x16d000"
  shows "\<exists>c. ipu4_mmio_write penv v a d = ((fst d)\<lparr>csi2 := c\<rparr>, snd d)"
proof -
  obtain s m where d: "d = (s, m)" by (cases d)
  have "a \<notin> set qemu_regs"
    using qemu_regs_outside assms by blast
  then have w: "ipu4_mmio_write penv v a d = window_write penv v a d"
    unfolding d by (simp add: qemu_regs_def ipu4_mmio_write_def)
  have "IS_DMEM_BASE + IS_DMEM_SIZE \<le> a"
    by (rule order.trans [OF _ assms(1)]) (simp add: ipu4_consts)
  moreover have "a < IS_MMU_BASE" "a < PS_MMU_BASE"
    by (rule less_le_trans [OF assms(2)], simp add: ipu4_consts)+
  ultimately have out: "\<not> a < IS_DMEM_BASE + IS_DMEM_SIZE" "\<not> IS_MMU_BASE \<le> a" "\<not> PS_MMU_BASE \<le> a"
    by (simp_all only: not_less not_le)
  have same: "\<exists>c. s = s\<lparr>csi2 := c\<rparr>"
    by (rule exI [of _ "csi2 s"]) simp
  show ?thesis
    using out unfolding w unfolding d window_write_def by (auto split: option.splits intro: same)
qed

lemma csi2_reg_range:
  assumes "p < 6" "r \<in> csi2_irq_regs"
  shows "0x164000 \<le> 0x100000 + (ipu4_csi_offsets ! p + r) \<and> 0x100000 + (ipu4_csi_offsets ! p + r) < 0x16d000"
  using assms unfolding less_6 by (auto simp: ipu4_csi_offsets_def ipu4_consts)

text \<open>Registers of a receiver do not matter for the ring.\<close>

lemma ready_device:
  assumes "qemu_ready penv bar v2p ctx env ts irq s" "wf_ipu4 st"
    and "is_recv_q_loaded st = is_recv_q_loaded (fst (hw (isp s)))" "is_recv_q st = is_recv_q (fst (hw (isp s)))"
    and "is_mmu_l1_pfn st = is_mmu_l1_pfn (fst (hw (isp s)))" "is_dmem st = is_dmem (fst (hw (isp s)))"
  shows "qemu_ready penv bar v2p ctx env ts (is_unispart_irq_status st) (s\<lparr>isp := (isp s)\<lparr>hw := (st, snd (hw (isp s)))\<rparr>\<rparr>)"
proof -
  let ?d = "hw (isp s)" and ?d' = "(st, snd (hw (isp s)))"
  have inv: "link_inv penv bar v2p ctx 1 ?d"
    using assms(1) by (simp add: qemu_ready_def)
  then have "recv_bound (fst ?d)"
    by (simp add: link_inv_def Let_def recv_linked_def)
  then have "recv_bound (fst ?d')"
    using assms(2-4) by (simp add: recv_bound_def)
  note c = link_cong [OF inv _ this]
  have "link_inv penv bar v2p ctx 1 ?d'" "pending penv bar v2p ctx 1 ?d' = pending penv bar v2p ctx 1 ?d"
    using assms by (intro c; simp)+
  then show ?thesis
    using assms(1) by (simp add: qemu_ready_def)
qed

lemma keeps_gets [keeps_rules]: "keeps P (gets f)"
  by (simp add: keeps_def hoare_def)

lemma keeps_modify: "(\<And>s. P s \<Longrightarrow> P (f s)) \<Longrightarrow> keeps P (modify f)"
  by (simp add: keeps_def hoare_def)

text \<open>Driver state that the ring does not depend on.\<close>

lemma ready_fields [simp]:
  "qemu_ready penv bar v2p ctx env ts irq (s\<lparr>streams_ref_count := x1\<rparr>) = qemu_ready penv bar v2p ctx env ts irq s"
  "qemu_ready penv bar v2p ctx env ts irq (s\<lparr>receiver_errors := x2\<rparr>) = qemu_ready penv bar v2p ctx env ts irq s"
  "qemu_ready penv bar v2p ctx env ts irq (s\<lparr>ibufs := x3\<rparr>) = qemu_ready penv bar v2p ctx env ts irq s"
  "qemu_ready penv bar v2p ctx env ts irq (s\<lparr>wild := x4\<rparr>) = qemu_ready penv bar v2p ctx env ts irq s"
  "qemu_ready penv bar v2p ctx env ts irq (s\<lparr>frame_events := x5\<rparr>) = qemu_ready penv bar v2p ctx env ts irq s"
  "qemu_ready penv bar v2p ctx env ts irq (s\<lparr>framebuflist := x6\<rparr>) = qemu_ready penv bar v2p ctx env ts irq s"
  "qemu_ready penv bar v2p ctx env ts irq (s\<lparr>framebuflist_fw := x7\<rparr>) = qemu_ready penv bar v2p ctx env ts irq s"
  by (simp_all add: qemu_ready_def)

lemma ready_upd_stream:
  assumes "qemu_ready penv bar v2p ctx env ts irq s" "i < 8" "\<And>st. st_asd (f st) = st_asd st"
  shows "qemu_ready penv bar v2p ctx env ts irq (upd_stream i f s)"
proof -
  have "\<forall>st \<in> set ((streams s)[i := f (streams s ! i)]). \<forall>p. st_asd st = Some p \<longrightarrow> p < 6"
  proof
    fix st assume "st \<in> set ((streams s)[i := f (streams s ! i)])"
    then consider "st = f (streams s ! i)" | "st \<in> set (streams s)"
      using set_update_subset_insert by fast
    then show "\<forall>p. st_asd st = Some p \<longrightarrow> p < 6"
      using assms by cases (auto simp: qemu_ready_def)
  qed
  then show ?thesis
    using assms(1) by (simp add: qemu_ready_def upd_stream_def)
qed

lemma ready_csi2_read [keeps_rules]:
  assumes "p < 6" "r \<in> csi2_irq_regs"
  shows "keeps (qemu_ready penv bar v2p ctx env ts irq) (csi2_readl env p r)"
proof (rule keepsI)
  fix s assume R: "qemu_ready penv bar v2p ctx env ts irq s"
  let ?a = "0x100000 + (ipu4_csi_offsets ! p + r)"
  have "snd (ipu4_mmio_read penv ?a (hw (isp s))) = hw (isp s)"
    using csi2_reg_range [OF assms] by (intro qemu_csi2_read) blast
  then show "qemu_ready penv bar v2p ctx env ts irq (snd (run_state (csi2_readl env p r) s))"
    using R by (simp add: csi2_readl_def isys_readl_def qemu_ready_def qemu_dev_def ac_simps)
qed

lemma ready_csi2_write [keeps_rules]:
  assumes "p < 6" "r \<in> csi2_irq_regs"
  shows "keeps (qemu_ready penv bar v2p ctx env ts irq) (csi2_writel env p v r)"
proof (rule keepsI)
  fix s assume R: "qemu_ready penv bar v2p ctx env ts irq s"
  let ?a = "0x100000 + (ipu4_csi_offsets ! p + r)"
  obtain c where c: "ipu4_mmio_write penv v ?a (hw (isp s)) = ((fst (hw (isp s)))\<lparr>csi2 := c\<rparr>, snd (hw (isp s)))"
    using qemu_csi2_write csi2_reg_range [OF assms] by blast
  have "wf_ipu4 (fst (hw (isp s)))"
    using R by (simp add: qemu_ready_def link_inv_def Let_def recv_linked_def recv_bound_def)
  then have wf: "wf_ipu4 ((fst (hw (isp s)))\<lparr>csi2 := c\<rparr>)"
    using wf_mmio_write [of "hw (isp s)" penv v ?a] by (simp add: c)
  have env: "mmio (btrs env) = qemu_dev penv bar" "ibase env = bar + 0x100000"
    and irq: "is_unispart_irq_status (fst (hw (isp s))) = irq"
    using R by (simp_all add: qemu_ready_def)
  have "qemu_ready penv bar v2p ctx env ts irq
      (s\<lparr>isp := (isp s)\<lparr>hw := ((fst (hw (isp s)))\<lparr>csi2 := c\<rparr>, snd (hw (isp s)))\<rparr>\<rparr>)"
    using ready_device [OF R wf] irq by simp
  then show "qemu_ready penv bar v2p ctx env ts irq (snd (run_state (csi2_writel env p v r) s))"
    using c by (simp add: csi2_writel_def isys_writel_def env qemu_dev_def ac_simps)
qed

lemma ready_register_errors [keeps_rules]:
  "p < 6 \<Longrightarrow> keeps (qemu_ready penv bar v2p ctx env ts irq) (ipu4_isys_register_errors env p)"
  unfolding ipu4_isys_register_errors_def
  by (intro keeps_rules keeps_modify) simp_all

lemma ready_csi2_error [keeps_rules]:
  "p < 6 \<Longrightarrow> keeps (qemu_ready penv bar v2p ctx env ts irq) (ipu4_isys_csi2_error env p)"
  unfolding ipu4_isys_csi2_error_def
  by (intro keeps_rules keeps_modify) simp_all

lemma ready_put_stream [keeps_rules]: "keeps (qemu_ready penv bar v2p ctx env ts irq) (ipu6_isys_put_stream i)"
  unfolding ipu6_isys_put_stream_def by (rule keeps_modify) (simp add: add_ref_def)

lemma ready_query_source [keeps_rules]:
  "keeps (qemu_ready penv bar v2p ctx env ts irq) (ipu6_isys_query_stream_by_source src vc)"
  by (rule keepsI) (simp add: ipu6_isys_query_stream_by_source_def add_ref_def split: option.splits)

lemma ready_put_msg [keeps_rules]: "keeps (qemu_ready penv bar v2p ctx env ts irq) (ipu6_put_fw_msg_buf a)"
  unfolding ipu6_put_fw_msg_buf_def by (rule keeps_modify) (simp split: option.splits)

lemma ready_vcs [keeps_rules]: "keeps (qemu_ready penv bar v2p ctx env ts irq) (csi2_isr_vcs p status is)"
  by (induction "is") (auto simp: csi2_isr_vc_def intro!: keeps_rules)

lemma ready_csi2_isr [keeps_rules]:
  "p < 6 \<Longrightarrow> keeps (qemu_ready penv bar v2p ctx env ts irq) (ipu6_isys_csi2_isr env p)"
  unfolding ipu6_isys_csi2_isr_def by (intro keeps_rules) simp_all

lemma ready_csi2_ports [keeps_rules]:
  "\<forall>p \<in> set ps. p < 6 \<Longrightarrow> keeps (qemu_ready penv bar v2p ctx env ts irq) (csi2_ports env status ps)"
  by (induction ps) (auto intro!: keeps_rules)

text \<open>Reading the time stamp counter leaves the device as it is.\<close>

lemma tsc_read_keeps:
  assumes "mmio benv = qemu_dev penv bar" "isp_base benv = bar"
  shows "snd (run_state (ipu6_buttress_tsc_read benv) p) = p"
proof -
  have "snd (ipu4_mmio_read penv (ucast BUTTRESS_REG_TSC_HI) d) = d" "snd (ipu4_mmio_read penv (ucast BUTTRESS_REG_TSC_LO) d) = d" for d
    by (rule qemu_read_keeps; simp add: ipu4_consts)+
  then show ?thesis
    using assms by (simp add: ipu6_buttress_tsc_read_def isp_read_def on_hw_def qemu_dev_def case_prod_beta)
qed

lemma ready_buf_ready [keeps_rules]:
  "keeps (qemu_ready penv bar v2p ctx env ts irq) (ipu6_stream_buf_ready env i q addr time err)"
proof -
  have tsc: "keeps (qemu_ready penv bar v2p ctx env ts irq) (get_sof_ns_delta env time)"
  proof (rule keepsI)
    fix s assume R: "qemu_ready penv bar v2p ctx env ts irq s"
    then have "snd (run_state (ipu6_buttress_tsc_read (btrs env)) (isp s)) = isp s"
      by (intro tsc_read_keeps) (simp_all add: qemu_ready_def)
    then show "qemu_ready penv bar v2p ctx env ts irq (snd (run_state (get_sof_ns_delta env time) s))"
      using R by (simp add: get_sof_ns_delta_def case_prod_beta)
  qed
  show ?thesis
    unfolding ipu6_stream_buf_ready_def ipu6_isys_buf_calc_sequence_time_def
    by (intro keeps_rules tsc keeps_modify) simp_all
qed

lemma ready_resp_event:
  assumes "port < 6" "i < 8"
  shows "keeps (qemu_ready penv bar v2p ctx env ts irq) (resp_event env i port resp)"
  using assms unfolding resp_event_def pin_data_ready_def ipu6_isys_queue_buf_ready_def ipu6_isys_csi2_sof_event_by_stream_def Let_def
  by (intro keeps_rules keeps_modify) (auto intro!: ready_upd_stream simp: note_sof_def)

lemma ready_handle_resp [keeps_rules]: "keeps (qemu_ready penv bar v2p ctx env ts irq) (handle_resp env resp)"
proof (rule keepsI)
  fix s assume R: "qemu_ready penv bar v2p ctx env ts irq s"
  let ?i = "unat (ri_stream_handle resp)"
  let ?s = "upd_stream ?i (\<lambda>st. st\<lparr>st_error := ri_error resp\<rparr>) (add_ref ?i 1 s)"
  show "qemu_ready penv bar v2p ctx env ts irq (snd (run_state (handle_resp env resp) s))"
  proof (cases "?i < 8 \<and> streams_ref_count s ! ?i > 0")
    case False
    then show ?thesis
      using R by (simp add: handle_resp_def ipu6_isys_query_stream_by_handle_def ipu4_consts)
  next
    case True
    have R1: "qemu_ready penv bar v2p ctx env ts irq ?s"
      using R True by (intro ready_upd_stream) (simp_all add: add_ref_def)
    have "streams ?s ! ?i \<in> set (streams ?s)"
      using True R1 by (simp add: qemu_ready_def)
    then have port: "port < 6" if "st_asd (streams ?s ! ?i) = Some port" for port
      using R1 that by (auto simp: qemu_ready_def)
    have "keeps (qemu_ready penv bar v2p ctx env ts irq)
      (do { (case st_asd (streams ?s ! ?i) of None \<Rightarrow> modify (\<lambda>s. s\<lparr>wild := True\<rparr>) | Some port \<Rightarrow> resp_event env ?i port resp);
            ipu6_isys_put_stream ?i })"
      using True port by (intro keeps_rules ready_resp_event keeps_modify) simp_all
    from keepsD [OF this R1] show ?thesis
      using True by (simp add: handle_resp_def ipu6_isys_query_stream_by_handle_def ipu4_consts case_prod_beta)
  qed
qed

lemma ready_env:
  assumes "qemu_ready penv bar v2p ctx env ts irq s"
  shows "mmio (btrs env) = qemu_dev penv bar" "ibase env = bar + 0x100000" "nports env = 6" "fwcom s = Some ctx"
    "length (output_queue ctx) = 2" "is_unispart_irq_status (fst (hw (isp s))) = irq" "\<not> stuck s"
    "link_inv penv bar v2p ctx 1 (hw (isp s))" "pending penv bar v2p ctx 1 (hw (isp s)) = map Some ts"
    "wf_ipu4 (fst (hw (isp s)))"
  using assms by (simp_all add: qemu_ready_def) (simp add: link_inv_def Let_def recv_linked_def recv_bound_def)

text \<open>The registers of the interrupts.\<close>

lemma ready_irq_status:
  "qemu_ready penv bar v2p ctx env ts irq s \<Longrightarrow>
   run_state (on_dev (isys_readl env IPU4_REG_ISYS_UNISPART_IRQ_STATUS)) s = (irq, s)"
  using ready_env [of penv bar v2p ctx env ts irq s]
  by (cases "hw (isp s)")
    (auto simp: isys_readl_def qemu_dev_def ipu4_mmio_read_def ipu4_consts)

lemma ready_irq_clear:
  assumes R: "qemu_ready penv bar v2p ctx env ts irq s"
  shows "qemu_ready penv bar v2p ctx env ts (irq AND NOT v)
    (snd (run_state (on_dev (isys_writel env v IPU4_REG_ISYS_UNISPART_IRQ_CLEAR)) s))"
proof -
  obtain st m where d: "hw (isp s) = (st, m)" by (cases "hw (isp s)")
  have "wf_ipu4 (st\<lparr>is_unispart_irq_status := irq AND NOT v\<rparr>)"
    using ready_env(10) [OF R] d by simp
  from ready_device [OF R this] show ?thesis
    using ready_env(1,2,6) [OF R] d
    by (simp add: isys_writel_def qemu_dev_def ipu4_mmio_write_def ipu4_consts)
qed

lemma ready_sw_irq:
  assumes R: "qemu_ready penv bar v2p ctx env ts irq s"
  shows "run_state (on_dev (isys_writel env v IPU4_REG_ISYS_UNISPART_SW_IRQ_REG)) s = ((), s)"
proof -
  obtain st m where d: "hw (isp s) = (st, m)" by (cases "hw (isp s)")
  show ?thesis
    using ready_env(1,2) [OF R] d
    by (simp add: isys_writel_def qemu_dev_def ipu4_mmio_write_def ipu4_consts)
qed

lemma ready_ack:
  assumes R: "qemu_ready penv bar v2p ctx env ts irq s"
  shows "qemu_ready penv bar v2p ctx env ts (irq AND NOT status) (snd (run_state (isr_ack env status) s))"
proof -
  let ?s = "snd (run_state (on_dev (isys_writel env status IPU4_REG_ISYS_UNISPART_IRQ_CLEAR)) s)"
  let ?m = "if isr_csi2_bits ?s AND status \<noteq> 0 then csi2_ports env status [0..<nports env] else State_Monad.return ()"
  note R1 = ready_irq_clear [OF R, of status]
  have "keeps (qemu_ready penv bar v2p ctx env ts (irq AND NOT status)) ?m"
    using ready_env(3) [OF R] by (intro keeps_rules) simp
  note R2 = keepsD [OF this R1]
  show ?thesis
    using R2 ready_sw_irq [OF R2, of 0] by (simp add: isr_ack_def case_prod_beta del: run_on_dev)
qed

text \<open>Freeing a slot of the ring.\<close>

lemma ring_put:
  assumes "link_inv penv bar v2p ctx k d" "pending penv bar v2p ctx k d \<noteq> []"
    and "run_state (ipu6_recv_put_token (qemu_dev penv bar) ctx k) d = (u, d')"
  shows "link_inv penv bar v2p ctx k d'" "pending penv bar v2p ctx k d' = tl (pending penv bar v2p ctx k d)"
    "is_unispart_irq_status (fst d') = is_unispart_irq_status (fst d)"
proof -
  obtain a where get: "run_state (ipu6_recv_get_token (qemu_dev penv bar) ctx k) d = (Some a, d)"
    using recv_get_token_complete [OF assms(1)] assms(2) by (auto split: list.splits)
  have put: "run_state (ipu6_recv_put_token (qemu_dev penv bar) ctx k) d = ((), d')"
    using assms(3) by simp
  note step = link_step_recv [OF assms(1) get put]
  show "link_inv penv bar v2p ctx k d'" by (rule step(2))
  show "pending penv bar v2p ctx k d' = tl (pending penv bar v2p ctx k d)"
    using step(3) by simp
  have "recv_linked bar ctx (output_queue ctx ! k) d"
    using assms(1) by (simp add: link_inv_def Let_def)
  from recv_put_frame [OF this put] show "is_unispart_irq_status (fst d') = is_unispart_irq_status (fst d)"
    by auto
qed

lemma ready_take_none:
  assumes R: "qemu_ready penv bar v2p ctx env [] irq s"
  shows "run_state (isys_isr_one env) s = (True, s)"
  using recv_get_token_complete [OF ready_env(8) [OF R]] ready_env(1,4,5,9) [OF R]
  by (simp add: isys_isr_one_def ipu6_fw_isys_get_resp_def ipu4_consts)

lemma ready_take_some:
  assumes R: "qemu_ready penv bar v2p ctx env (t # ts) irq s"
  shows "\<exists>s'. run_state (isys_isr_one env) s = (False, s') \<and> qemu_ready penv bar v2p ctx env ts irq s' \<and>
    view_of s' = resp_effect env (resp_info_at t) (view_of s)"
proof -
  note e = ready_env [OF R]
  obtain a where get: "run_state (ipu6_recv_get_token (qemu_dev penv bar) ctx 1) (hw (isp s)) = (Some a, hw (isp s))"
    and t: "host_view penv v2p (snd (hw (isp s))) a = Some t"
    using recv_get_token_complete [OF e(8)] e(9) by auto
  have load: "host_load env a 64 (hw (isp s)) = t" using R t by (simp add: qemu_ready_def del: split_paired_All)
  define s1 where "s1 = snd (run_state (handle_resp env (resp_info_at t)) s)"
  have R1: "qemu_ready penv bar v2p ctx env (t # ts) irq s1"
    unfolding s1_def by (rule keepsD [OF ready_handle_resp R])
  note e1 = ready_env [OF R1]
  obtain u d where put: "run_state (ipu6_recv_put_token (qemu_dev penv bar) ctx 1) (hw (isp s1)) = (u, d)"
    by (cases "run_state (ipu6_recv_put_token (qemu_dev penv bar) ctx 1) (hw (isp s1))") auto
  have "pending penv bar v2p ctx 1 (hw (isp s1)) \<noteq> []" using e1(9) by auto
  note p = ring_put [OF e1(8) this put]
  have "qemu_ready penv bar v2p ctx env ts irq (s1\<lparr>isp := (isp s1)\<lparr>hw := d\<rparr>\<rparr>)"
    using R1 p by (simp add: qemu_ready_def)
  moreover have "run_state (isys_isr_one env) s = (False, s1\<lparr>isp := (isp s1)\<lparr>hw := d\<rparr>\<rparr>)"
    using e(1,4,5) get put load unfolding s1_def
    by (simp add: isys_isr_one_def ipu6_fw_isys_get_resp_def ipu6_fw_isys_put_resp_def ipu4_consts case_prod_beta)
  moreover have "view_of s1 = resp_effect env (resp_info_at t) (view_of s)"
    using R unfolding s1_def by (intro handle_resp_effect) (simp add: qemu_ready_def)
  ultimately show ?thesis by auto
qed

text \<open>The interrupts of the receivers take and put back references of streams.\<close>

definition refs_ok :: "int list \<Rightarrow> bool" where
  "refs_ok l \<longleftrightarrow> length l = 8 \<and> (\<forall>n \<in> set l. 0 \<le> n)"

lemma view_vc:
  assumes "refs_ok (streams_ref_count s)"
  shows "view_of (snd (run_state (csi2_isr_vc p status flag vc) s)) = view_of s"
proof -
  have "view_of (snd (run_state (ipu6_isys_put_stream i) (add_ref i 1 s))) = view_of s" if "ref_live s i" "i \<in> set stream_ids" for i
  proof -
    have "streams_ref_count s ! i \<in> set (streams_ref_count s)"
      using that assms by (simp add: refs_ok_def stream_ids_def ipu4_consts)
    then have "0 < streams_ref_count s ! i" using that assms by (force simp: refs_ok_def ref_live_def)
    from refs_restored [OF this] show ?thesis
      by (simp add: view_put_stream add_ref_def) (simp add: view_of_def)
  qed
  then show ?thesis
    by (auto simp: csi2_isr_vc_def ipu6_isys_query_stream_by_source_def case_prod_beta split: option.split
        dest!: find_Some_iff [THEN iffD1] intro: nth_mem)
qed

lemma view_refs: "view_of s' = view_of s \<Longrightarrow> streams_ref_count s' = streams_ref_count s"
  by (drule arg_cong [where f = v_refs]) simp

lemma view_vcs: "refs_ok (streams_ref_count s) \<Longrightarrow> view_of (snd (run_state (csi2_isr_vcs p status is) s)) = view_of s"
  by (induction "is" arbitrary: s) (simp_all add: case_prod_beta view_vc view_refs [OF view_vc])

lemma view_csi2_isr:
  assumes "refs_ok (streams_ref_count s)"
  shows "view_of (snd (run_state (ipu6_isys_csi2_isr env p) s)) = view_of s"
proof -
  have vcs: "view_of (snd (run_state (csi2_isr_vcs p status is) s')) = view_of s" if "view_of s' = view_of s" for s' status "is"
    using view_vcs [of s' p status "is"] view_refs [OF that] that assms by simp
  show ?thesis
    by (simp add: ipu6_isys_csi2_isr_def case_prod_beta vcs)
qed

lemma view_csi2_ports: "refs_ok (streams_ref_count s) \<Longrightarrow> view_of (snd (run_state (csi2_ports env status ps) s)) = view_of s"
  by (induction ps arbitrary: s) (simp_all add: case_prod_beta view_csi2_isr view_refs [OF view_csi2_isr])

lemma view_ack:
  assumes "refs_ok (streams_ref_count s)"
  shows "view_of (snd (run_state (isr_ack env status) s)) = view_of s"
  using assms by (simp add: isr_ack_def case_prod_beta view_csi2_ports)

interpretation qemu_source: response_source env "\<lambda>ts irq s. qemu_ready penv bar v2p ctx env ts irq s \<and> refs_ok (streams_ref_count s)"
    view_of "\<lambda>t. resp_effect env (resp_info_at t)"
  for penv :: "'m pci_env" and bar v2p ctx env
proof
  show "run_state (isys_isr_one env) s = (True, s)"
    if "qemu_ready penv bar v2p ctx env [] irq s \<and> refs_ok (streams_ref_count s)" for irq s
    using that ready_take_none by blast
  show "\<exists>s'. run_state (isys_isr_one env) s = (False, s') \<and>
      (qemu_ready penv bar v2p ctx env ts irq s' \<and> refs_ok (streams_ref_count s')) \<and>
      view_of s' = resp_effect env (resp_info_at t) (view_of s)"
    if R: "qemu_ready penv bar v2p ctx env (t # ts) irq s \<and> refs_ok (streams_ref_count s)" for t ts irq s
  proof -
    obtain s' where s': "run_state (isys_isr_one env) s = (False, s')" "qemu_ready penv bar v2p ctx env ts irq s'"
      "view_of s' = resp_effect env (resp_info_at t) (view_of s)"
      using ready_take_some R by blast
    have "streams_ref_count s' = streams_ref_count s" using arg_cong [OF s'(3), of v_refs] by simp
    with s' R show ?thesis by auto
  qed
  show "(qemu_ready penv bar v2p ctx env ts (irq AND NOT status) s' \<and> refs_ok (streams_ref_count s')) \<and> view_of s' = view_of s"
    if "qemu_ready penv bar v2p ctx env ts irq s \<and> refs_ok (streams_ref_count s)" "run_state (isr_ack env status) s = (u, s')"
    for ts irq s status u s'
    using that ready_ack [of penv bar v2p ctx env ts irq s status] view_ack [of s env status]
      view_refs [OF view_ack, of s env status] by simp
  show "run_state (on_dev (isys_readl env IPU4_REG_ISYS_UNISPART_IRQ_STATUS)) s = (irq, s)"
    if "qemu_ready penv bar v2p ctx env ts irq s \<and> refs_ok (streams_ref_count s)" for ts irq s
    using that ready_irq_status by blast
  show "\<not> stuck s" if "qemu_ready penv bar v2p ctx env ts irq s \<and> refs_ok (streams_ref_count s)" for ts irq s
    using that ready_env(7) by blast
qed

text \<open>
  C28: On the emulated device, with responses pending and the interrupt of the firmware raised, or
  nothing pending, the interrupt handler takes one response in a round: within a given number of
  rounds it takes this many of the pending ones, each with its effect on the streams, the events, the
  buffers and the messages, in the order in which they were posted, and it ends by itself exactly
  when the rounds are more than the responses. Then the ring is empty; no interrupt of the input
  system is raised.
\<close>

theorem isr_handles_all:
  assumes "qemu_ready penv bar v2p ctx env ts irq s" "i_power s" "refs_ok (streams_ref_count s)" "0 < isr_rounds env"
    and "irq AND IPU4_ISYS_UNISPART_IRQ_SW \<noteq> 0 \<or> ts = []"
  shows "\<exists>s'. run_state (ipu4_isys_isr env) s = (IRQ_HANDLED, s') \<and>
    view_of s' = fold (\<lambda>t. resp_effect env (resp_info_at t)) (take (isr_rounds env) ts) (view_of s) \<and>
    pending penv bar v2p ctx 1 (hw (isp s')) = map Some (drop (isr_rounds env) ts) \<and>
    is_unispart_irq_status (fst (hw (isp s'))) = 0 \<and> (stuck s' \<longleftrightarrow> isr_rounds env \<le> length ts)"
proof -
  obtain s' where s': "snd (run_state (isr_loop env (isr_rounds env) irq) s) = s'\<lparr>stuck := isr_rounds env \<le> length ts\<rparr>"
    and r: "qemu_ready penv bar v2p ctx env (drop (isr_rounds env) ts) 0 s'"
    and v: "view_of s' = fold (\<lambda>t. resp_effect env (resp_info_at t)) (take (isr_rounds env) ts) (view_of s)"
    using qemu_source.loop_takes [of penv bar v2p ctx env ts irq s irq "isr_rounds env"] assms by auto
  have "run_state (ipu4_isys_isr env) s = (IRQ_HANDLED, s'\<lparr>stuck := isr_rounds env \<le> length ts\<rparr>)"
    using assms(2) ready_irq_status [OF assms(1)] s'
    by (simp add: ipu4_isys_isr_def case_prod_beta del: run_on_dev)
  then show ?thesis
    using ready_env(6,9) [OF r] v by simp
qed

text \<open>One response in the ring of messages of the example device.\<close>

definition ex_ctx2 :: "(nat \<Rightarrow> u8) dev ipu6_fw_com_context" where
  "ex_ctx2 = ex_ctx\<lparr>output_queue := [ex_queue, ex_queue]\<rparr>"

lemma ex_ctx2_linked: "recv_linked 0 ex_ctx2 ex_queue ex_dev"
  using ex_wf
  by (simp add: recv_linked_def recv_bound_def ex_ctx2_def ex_ctx_def ex_queue_def ex_dev_def recv_wr_reg_def)

lemma ex_ctx2_inv:
  "link_inv ram_env 0 (\<lambda>a. a) ex_ctx2 1 ex_dev" "pending ram_env 0 (\<lambda>a. a) ex_ctx2 1 ex_dev = []"
  "output_queue ex_ctx2 ! 1 = ex_queue" "q_wr (qemu_dev ram_env 0) ex_ctx2 ex_queue ex_dev = 0"
proof -
  show out: "output_queue ex_ctx2 ! 1 = ex_queue" by (simp add: ex_ctx2_def)
  have regs: "q_wr (qemu_dev ram_env 0) ex_ctx2 ex_queue ex_dev = 0" "q_rd (qemu_dev ram_env 0) ex_ctx2 ex_queue ex_dev = 0"
    by (simp_all add: recv_linked_regs [OF ex_ctx2_linked] ex_dmem recv_wr_reg_def recv_rd_reg_def)
  then show "q_wr (qemu_dev ram_env 0) ex_ctx2 ex_queue ex_dev = 0" by simp
  show "link_inv ram_env 0 (\<lambda>a. a) ex_ctx2 1 ex_dev"
    using ex_ctx2_linked ex_slots_mapped ex_tables_apart
    by (simp add: link_inv_def Let_def ring_inv_def out [simplified] regs ex_slots)
  show "pending ram_env 0 (\<lambda>a. a) ex_ctx2 1 ex_dev = []"
    by (simp add: pending_def ring_tokens_def out [simplified] regs ring_idxs_def ring_count_def)
qed

lemma ex_posted:
  assumes "d = ipu4_post_response_full ram_env zero_resp ex_dev"
  shows "link_inv ram_env 0 (\<lambda>a. a) ex_ctx2 1 d" "pending ram_env 0 (\<lambda>a. a) ex_ctx2 1 d = [Some (encode_resp zero_resp)]"
    "is_unispart_irq_status (fst d) = ISYS_UNISPART_IRQ_SW"
proof -
  note inv = ex_ctx2_inv [simplified One_nat_def]
  obtain m where m: "pci_dma_write ram_env (token_addr ex_queue 0) (encode_resp zero_resp) (snd ex_dev) = Some m"
    by simp
  note post = link_step_post [OF guest_ram_ram_env ex_ctx2_inv(1) _ _ assms]
  show "link_inv ram_env 0 (\<lambda>a. a) ex_ctx2 1 d" "pending ram_env 0 (\<lambda>a. a) ex_ctx2 1 d = [Some (encode_resp zero_resp)]"
    using post [of m] m by (simp_all add: inv ex_slots)
  have "is_dmem (fst ex_dev) ! recv_wr_reg = 0" by (simp add: ex_dmem recv_wr_reg_def)
  moreover have "is_unispart_irq_status (fst ex_dev) = 0" by (simp add: ex_dev_def ipu4_reset_def)
  ultimately show "is_unispart_irq_status (fst d) = ISYS_UNISPART_IRQ_SW"
    using m by (simp add: assms post_response_linked [OF ex_recv_linked _ ex_slots_mapped] ex_slots post_done_def)
qed

text \<open>Stream 0 waits for the answer to its open message, which is in the ring.\<close>

definition ex_opening :: "(nat \<Rightarrow> u8) dev \<Rightarrow> (nat \<Rightarrow> u8) dev ipu6_isys" where
  "ex_opening d = ex_isys\<lparr>isp := ex_isp d, fwcom := Some ex_ctx2, streams_ref_count := 1 # replicate 7 0,
     streams := (streams ex_isys)[0 := (init_stream 0)\<lparr>st_asd := Some 0\<rparr>]\<rparr>"

lemma ex_info: "unat (ri_stream_handle (resp_info_at (encode_resp zero_resp))) = 0"
  "ri_type (resp_info_at (encode_resp zero_resp)) = IPU6_FW_ISYS_RESP_TYPE_STREAM_OPEN_DONE"
  by (simp_all add: resp_info_at_def encode_resp_def zero_resp_def field_at_def ipu4_consts)

theorem isr_handles_all_witness:
  "\<exists>d s'. pending ram_env 0 (\<lambda>a. a) ex_ctx2 1 d = [Some (encode_resp zero_resp)] \<and>
     run_state (ipu4_isys_isr ex_ienv) (ex_opening d) = (IRQ_HANDLED, s') \<and>
     pending ram_env 0 (\<lambda>a. a) ex_ctx2 1 (hw (isp s')) = [] \<and> \<not> stuck s' \<and> open_completion (streams s' ! 0) = 1"
proof -
  let ?d = "ipu4_post_response_full ram_env zero_resp ex_dev"
  let ?ts = "[encode_resp zero_resp]"
  note p = ex_posted [OF refl]
  have R: "qemu_ready ram_env 0 (\<lambda>a. a) ex_ctx2 ex_ienv ?ts ISYS_UNISPART_IRQ_SW (ex_opening ?d)"
  proof -
    have "st_asd st = None \<or> st_asd st = Some 0" if "st \<in> set (streams (ex_opening ?d))" for st
      using that set_update_subset_insert [of "map init_stream stream_ids" 0 "(init_stream 0)\<lparr>st_asd := Some 0\<rparr>"]
      by (auto simp: ex_opening_def ex_isys_def init_stream_def)
    then have asd: "\<forall>st \<in> set (streams (ex_opening ?d)). \<forall>p. st_asd st = Some p \<longrightarrow> p < 6" by force
    show ?thesis
      unfolding qemu_ready_def using p asd
      by (simp add: ex_opening_def ex_ienv_def ex_btrs_def ex_isys_def ex_isp_def stream_ids_def host_view_def)
        (simp add: ex_ctx2_def IPU4_ISYS_MAX_STREAMS_def)
  qed
  have "\<exists>s'. run_state (ipu4_isys_isr ex_ienv) (ex_opening ?d) = (IRQ_HANDLED, s') \<and>
    view_of s' = fold (\<lambda>t. resp_effect ex_ienv (resp_info_at t)) (take (isr_rounds ex_ienv) ?ts) (view_of (ex_opening ?d)) \<and>
    pending ram_env 0 (\<lambda>a. a) ex_ctx2 1 (hw (isp s')) = map Some (drop (isr_rounds ex_ienv) ?ts) \<and>
    is_unispart_irq_status (fst (hw (isp s'))) = 0 \<and> (stuck s' \<longleftrightarrow> isr_rounds ex_ienv \<le> length ?ts)"
    by (rule isr_handles_all [OF R])
      (simp_all add: ex_opening_def ex_ienv_def ex_isys_def refs_ok_def ipu4_consts)
  then obtain s' where s': "run_state (ipu4_isys_isr ex_ienv) (ex_opening ?d) = (IRQ_HANDLED, s')"
    "view_of s' = resp_effect ex_ienv (resp_info_at (encode_resp zero_resp)) (view_of (ex_opening ?d))"
    "pending ram_env 0 (\<lambda>a. a) ex_ctx2 1 (hw (isp s')) = []" "\<not> stuck s'"
    by (auto simp: ex_ienv_def)
  have "streams s' = v_streams (resp_effect ex_ienv (resp_info_at (encode_resp zero_resp)) (view_of (ex_opening ?d)))"
    using arg_cong [OF s'(2), of v_streams] by simp
  also have "open_completion (\<dots> ! 0) = 1"
    by (simp add: resp_effect_def Let_def ex_info answered_def ex_opening_def ex_isys_def stream_ids_def init_stream_def ipu4_consts complete_def)
  finally show ?thesis
    using s' p(2) by blast
qed

end
