(* ===== verification/Isys_Stream_Props.thy ===== *)
theory Isys_Stream_Props
  imports Isys_Streaming Isys_Isr_Props
begin

unbundle bit_operations_syntax

text \<open>
  Properties of the start and the end of streams: what commands, waits and interrupts leave
  alone, the count of open streams, the way of a frame from the firmware to its buffer, and
  the end of the loop that sends the buffers that are there.
\<close>

section \<open>What interrupts and commands leave alone\<close>

text \<open>Sending a message changes the device, the pool of messages and nothing else of the driver.\<close>

locale msg_frame =
  fixes P :: "'d ipu6_isys \<Rightarrow> bool"
  assumes on_device [simp]: "P (s\<lparr>isp := x1\<rparr>) = P s"
    and on_pool [simp]: "P (s\<lparr>framebuflist := x5\<rparr>) = P s" "P (s\<lparr>framebuflist_fw := x6\<rparr>) = P s"
    and on_wild [simp]: "P (s\<lparr>wild := x7\<rparr>) = P s"
begin

lemma keeps_on_isp [keeps_rules]: "keeps P (on_isp m)"
  by (rule keepsI) simp

lemma keeps_on_dev [keeps_rules]: "keeps P (on_dev m)"
  by (rule keepsI) simp

lemma keeps_store_host [keeps_rules]: "keeps P (store_host env a bs)"
  unfolding store_host_def by (rule keeps_on_dev)

lemma keeps_complex_cmd [keeps_rules]: "keeps P (ipu6_fw_isys_complex_cmd env h cpu da t)"
  unfolding ipu6_fw_isys_complex_cmd_def with_fwcom_def by (intro keeps_rules keeps_modify) simp_all

lemma keeps_simple_cmd [keeps_rules]: "keeps P (ipu6_fw_isys_simple_cmd env h t)"
  unfolding ipu6_fw_isys_simple_cmd_def by (rule keeps_complex_cmd)

lemma keeps_alloc_loop [keeps_rules]: "keeps P (alloc_msgs_loop env n)"
  by (induction n) (auto intro!: keeps_rules keeps_modify)

lemma keeps_free_msgs [keeps_rules]: "keeps P (free_msgs env ms)"
  by (induction ms) (auto intro!: keeps_rules)

lemma keeps_get_msg [keeps_rules]: "keeps P (ipu6_get_fw_msg_buf env)"
  unfolding ipu6_get_fw_msg_buf_def alloc_fw_msg_bufs_def take_msg_def
  by (intro keeps_rules keeps_modify) simp_all

lemma keeps_frame_msg [keeps_rules]: "keeps P (frame_msg env msg bl)"
  unfolding frame_msg_def by (intro keeps_rules)

end

text \<open>The interrupts that arrive in a wait change more: what the responses of the firmware are about.\<close>

text \<open>Changes of a stream that keep its users, its receiver and its pins.\<close>

definition aside :: "(ipu6_isys_stream \<Rightarrow> ipu6_isys_stream) \<Rightarrow> bool" where
  "aside f \<longleftrightarrow> (\<forall>st. nr_streaming (f st) = nr_streaming st \<and> nr_queues (f st) = nr_queues st \<and>
     st_queues (f st) = st_queues st \<and> st_streaming (f st) = st_streaming st \<and> st_asd (f st) = st_asd st \<and>
     st_vc (f st) = st_vc st \<and> st_handle (f st) = st_handle st \<and> source_entity (f st) = source_entity st \<and>
     output_pins_queue (f st) = output_pins_queue st)"

locale isys_frame = msg_frame P for P :: "'d ipu6_isys \<Rightarrow> bool" +
  assumes on_refs [simp]: "P (s\<lparr>streams_ref_count := x2\<rparr>) = P s"
    and on_errors [simp]: "P (s\<lparr>receiver_errors := x3\<rparr>) = P s"
    and on_events [simp]: "P (s\<lparr>frame_events := x4\<rparr>) = P s"
    and on_stuck [simp]: "P (s\<lparr>stuck := x8\<rparr>) = P s"
    and on_bufs [simp]: "P (s\<lparr>ibufs := x9\<rparr>) = P s"
    and on_stream: "aside f \<Longrightarrow> P (upd_stream i f s) = P s"
begin

lemma keeps_upd: "aside f \<Longrightarrow> keeps P (modify (upd_stream i f))"
  by (rule keepsI) (simp add: on_stream)

lemma keeps_put_stream [keeps_rules]: "keeps P (ipu6_isys_put_stream i)"
  unfolding ipu6_isys_put_stream_def by (rule keeps_modify) (simp add: add_ref_def)

lemma keeps_query_source [keeps_rules]: "keeps P (ipu6_isys_query_stream_by_source src vc)"
  by (rule keepsI) (simp add: ipu6_isys_query_stream_by_source_def add_ref_def split: option.splits)

lemma keeps_query_handle [keeps_rules]: "keeps P (ipu6_isys_query_stream_by_handle h)"
  by (rule keepsI) (simp add: ipu6_isys_query_stream_by_handle_def add_ref_def)

lemma keeps_put_msg [keeps_rules]: "keeps P (ipu6_put_fw_msg_buf a)"
  unfolding ipu6_put_fw_msg_buf_def by (rule keeps_modify) (simp split: option.splits)

lemma keeps_csi2_access [keeps_rules]: "keeps P (csi2_readl env p r)" "keeps P (csi2_writel env p v r)"
  by (simp_all add: csi2_readl_def csi2_writel_def keeps_on_dev)

lemma keeps_register_errors [keeps_rules]: "keeps P (ipu4_isys_register_errors env p)"
  unfolding ipu4_isys_register_errors_def by (intro keeps_rules keeps_modify) simp_all

lemma keeps_csi2_error [keeps_rules]: "keeps P (ipu4_isys_csi2_error env p)"
  unfolding ipu4_isys_csi2_error_def by (intro keeps_rules keeps_modify) simp_all

lemma keeps_csi2_vcs [keeps_rules]: "keeps P (csi2_isr_vcs p status is)"
  by (induction "is") (auto simp: csi2_isr_vc_def intro!: keeps_rules)

lemma keeps_csi2_isr [keeps_rules]: "keeps P (ipu6_isys_csi2_isr env p)"
  unfolding ipu6_isys_csi2_isr_def by (intro keeps_rules)

lemma keeps_csi2_ports [keeps_rules]: "keeps P (csi2_ports env status ps)"
  by (induction ps) (auto intro!: keeps_rules)

lemma keeps_buf_ready [keeps_rules]: "keeps P (ipu6_stream_buf_ready env i q addr time err)"
  unfolding ipu6_stream_buf_ready_def ipu6_isys_buf_calc_sequence_time_def get_sof_ns_delta_def
  by (intro keeps_rules keeps_modify) simp_all

lemma keeps_resp_event [keeps_rules]: "keeps P (resp_event env i port resp)"
  unfolding resp_event_def pin_data_ready_def ipu6_isys_queue_buf_ready_def ipu6_isys_csi2_sof_event_by_stream_def Let_def
  by (intro keeps_rules keeps_modify; simp add: on_stream aside_def note_sof_def)

lemma keeps_handle_resp [keeps_rules]: "keeps P (handle_resp env resp)"
  unfolding handle_resp_def
  by (intro keeps_rules keeps_modify; simp add: on_stream aside_def)

lemma keeps_isr_one [keeps_rules]: "keeps P (isys_isr_one env)"
  unfolding isys_isr_one_def ipu6_fw_isys_get_resp_def ipu6_fw_isys_put_resp_def
  by (intro keeps_rules keeps_modify) simp_all

lemma keeps_isr_loop [keeps_rules]: "keeps P (isr_loop env n status)"
  by (induction n arbitrary: status)
    (auto simp: isr_round_def isr_ack_def intro!: keeps_rules keeps_modify)

lemma keeps_isr [keeps_rules]: "keeps P (ipu4_isys_isr env)"
  unfolding ipu4_isys_isr_def by (intro keeps_rules)

lemma keeps_stream_wait [keeps_rules]: "keeps P (stream_wait_loop env i c n)"
  by (induction n) (auto intro!: keeps_rules)

lemma keeps_wait_stream:
  "aside (upd take_completion) \<Longrightarrow> keeps P (wait_stream env i c upd)"
  unfolding wait_stream_def by (intro keeps_rules keeps_upd)

lemma keeps_activate [keeps_rules]: "keeps P (activate env bl)"
  unfolding activate_def by (rule keeps_modify) simp

lemma keeps_stream_result [keeps_rules]: "keeps P (stream_result i t)"
  unfolding stream_result_def by (rule keeps_gets)

lemma keeps_first_frame [keeps_rules]: "keeps P (first_frame env bl)"
  unfolding first_frame_def by (intro keeps_rules)

lemma keeps_cmd_and_wait:
  "aside (upd (\<lambda>_. 0)) \<Longrightarrow> aside (upd take_completion) \<Longrightarrow> keeps P (cmd_and_wait env i c upd t)"
  unfolding cmd_and_wait_def by (intro keeps_rules keeps_upd keeps_wait_stream)

lemma keeps_start_cmd [keeps_rules]: "keeps P (start_cmd env i m)"
  unfolding start_cmd_def by (intro keeps_rules keeps_upd keeps_wait_stream; simp add: aside_def)

lemma keeps_stop_firmware [keeps_rules]: "keeps P (stop_streaming_firmware env i)"
  unfolding stop_streaming_firmware_def
  by (intro keeps_rules keeps_cmd_and_wait; simp add: aside_def)

end

section \<open>The count of open streams\<close>

interpretation opened: isys_frame "\<lambda>s. stream_opened s = n" for n
  by unfold_locales (simp_all add: upd_stream_def)

lemma opened_kept: "keeps (\<lambda>s'. stream_opened s' = stream_opened s) m \<Longrightarrow> stream_opened (snd (run_state m s)) = stream_opened s"
  using keepsD by fastforce

lemma opened_upd [simp]: "stream_opened (upd_stream i f s) = stream_opened s"
  by (simp add: upd_stream_def)

lemma opened_wait:
  "aside (upd take_completion) \<Longrightarrow> stream_opened (snd (run_state (wait_stream env i c upd) s)) = stream_opened s"
  by (rule opened_kept) (rule opened.keeps_wait_stream)

lemma opened_cmd_and_wait:
  "aside (upd (\<lambda>_. 0)) \<Longrightarrow> aside (upd take_completion) \<Longrightarrow>
   stream_opened (snd (run_state (cmd_and_wait env i c upd t) s)) = stream_opened s"
  by (rule opened_kept) (rule opened.keeps_cmd_and_wait)

lemma opened_pin_cfg: "stream_opened (snd (run_state (ipu6_isys_fw_pin_cfg env i q cfg) s)) = stream_opened s"
  unfolding ipu6_isys_fw_pin_cfg_def
  by (auto simp: Let_def upd_stream_def split: option.splits prod.splits sum.splits)

lemma opened_pin_cfgs: "stream_opened (snd (run_state (pin_cfgs env i qs cfg) s)) = stream_opened s"
  by (induction qs arbitrary: cfg s) (simp_all add: case_prod_beta opened_pin_cfg split: sum.split)

lemmas opened_rules = opened_pin_cfgs opened_wait opened_cmd_and_wait
  opened.keeps_get_msg [THEN opened_kept] opened.keeps_put_msg [THEN opened_kept] opened.keeps_store_host [THEN opened_kept]
  opened.keeps_complex_cmd [THEN opened_kept] opened.keeps_stream_result [THEN opened_kept]
  opened.keeps_first_frame [THEN opened_kept] opened.keeps_start_cmd [THEN opened_kept]
  opened.keeps_stop_firmware [THEN opened_kept]

lemma open_counted:
  "stream_opened (snd (run_state (open_stream_firmware env i) s)) =
   stream_opened s + (if fst (run_state (open_stream_firmware env i) s) = ok then 1 else 0)"
  unfolding open_stream_firmware_def get_stream_opened_def put_stream_opened_def
  by (simp add: case_prod_beta opened_rules aside_def split: option.split sum.split)

lemma start_counted:
  "stream_opened (snd (run_state (start_stream_firmware env i bl) s)) =
   stream_opened s + (if fst (fst (run_state (start_stream_firmware env i bl) s)) = ok then 1 else 0)"
  unfolding start_stream_firmware_def put_stream_opened_def
  by (simp add: case_prod_beta opened_rules open_counted aside_def split: sum.split)

text \<open>
  C30: Starting a stream of the firmware counts it as open exactly when the start succeeds: after
  an error at any step the count is what it was, whatever device, interrupts and allocations do.
\<close>

theorem start_stream_firmware_counted:
  "case run_state (start_stream_firmware env i bl) s of
     ((r, rest), s') \<Rightarrow> stream_opened s' = stream_opened s + (if r = ok then 1 else 0)"
  using start_counted [of env i bl s] by (simp add: case_prod_beta)

section \<open>The loop that sends the buffers that are there\<close>

interpretation sending: msg_frame "\<lambda>s. streams s = x \<and> ibufs s = y \<and> stuck s = z" for x y z
  by unfold_locales simp_all

lemma sending_kept:
  assumes "\<And>x y z. keeps (\<lambda>s. streams s = x \<and> ibufs s = y \<and> stuck s = z) m"
  shows "streams (snd (run_state m s)) = streams s" "ibufs (snd (run_state m s)) = ibufs s" "stuck (snd (run_state m s)) = stuck s"
  using keepsD [OF assms [of "streams s" "ibufs s" "stuck s"], of s] by simp_all

lemmas sending_simps [simp] =
  sending_kept [OF sending.keeps_get_msg] sending_kept [OF sending.keeps_frame_msg] sending_kept [OF sending.keeps_complex_cmd]

lemma get_loop_shorter:
  "buffer_list_get_loop env qs bl bs = (ok, bl', bs') \<Longrightarrow>
   length (q_incoming bs' q) \<le> length (q_incoming bs q) \<and>
   (q \<in> set qs \<longrightarrow> length (q_incoming bs' q) < length (q_incoming bs q))"
proof (induction qs arbitrary: bl bs)
  case (Cons p qs)
  let ?bs = "bs\<lparr>q_incoming := (q_incoming bs)(p := butlast (q_incoming bs p))\<rparr>"
  from Cons.prems have ne: "q_incoming bs p \<noteq> []"
    and r: "buffer_list_get_loop env qs (last (q_incoming bs p) # bl) ?bs = (ok, bl', bs')" by (simp_all split: if_splits)
  from ne have "length (q_incoming ?bs q) \<le> length (q_incoming bs q)" "p = q \<longrightarrow> length (q_incoming ?bs q) < length (q_incoming bs q)"
    by auto
  with Cons.IH [OF r] show ?case by auto
qed simp

lemma active_incoming:
  "q_incoming (ipu6_isys_buffer_list_queue env bl IPU6_ISYS_BUFFER_LIST_FL_ACTIVE st bs) = q_incoming bs"
  by (induction bl arbitrary: bs) (simp_all add: ipu4_consts Let_def)

text \<open>
  A round takes a buffer of every queue of the stream: the loop ends by itself within as many
  rounds as one of the queues has buffers, and one more.
\<close>

lemma capture_loop_ends:
  assumes "q \<in> set (st_queues (streams s ! i))" "length (q_incoming (ibufs s) q) < n"
  shows "stuck (snd (run_state (capture_loop env i n) s)) = stuck s"
  using assms
proof (induction n arbitrary: s)
  case (Suc n)
  obtain r bl bs where g: "buffer_list_get env (streams s ! i) (ibufs s) = (r, bl, bs)" by (rule prod_cases3)
  show ?case
  proof (cases r)
    case (Inl e)
    then show ?thesis using g by (simp add: take_list_def)
  next
    case (Inr u)
    with g get_loop_shorter [of env _ "[]" _ bl bs q] Suc.prems
    have "length (q_incoming bs q) < n" by (fastforce simp: buffer_list_get_def)
    with Inr g Suc.prems Suc.IH show ?thesis
      by (auto simp: take_list_def activate_def send_capture_def active_incoming case_prod_beta split: option.splits)
  qed
qed simp

section \<open>The way of a frame\<close>

text \<open>The pins of a stream: the \<open>k\<close>-th queue of the stream has pin \<open>k\<close>, and pin \<open>k\<close> leads to it.\<close>

lemma pin_cfg_ok:
  assumes "run_state (ipu6_isys_fw_pin_cfg env i q cfg) s = (Inr cfg', s')" "i < length (streams s)"
  shows "length (cfg_output_pins cfg') = Suc (length (cfg_output_pins cfg))"
    "length (cfg_input_pins cfg') = Suc (length (cfg_input_pins cfg))" "length (cfg_input_pins cfg) < 4"
    "output_pins_queue (streams s' ! i) = (output_pins_queue (streams s ! i))[length (cfg_output_pins cfg) := Some q]"
    "q_fw_output (ibufs s') = (q_fw_output (ibufs s))(q := length (cfg_output_pins cfg))"
    "length (streams s') = length (streams s)"
  using assms unfolding ipu6_isys_fw_pin_cfg_def
  by (auto simp: Let_def upd_stream_def ipu4_consts split: option.splits prod.splits sum.splits if_splits)

lemma pin_cfgs_ok:
  assumes "run_state (pin_cfgs env i qs cfg) s = (Inr cfg', s')" "i < length (streams s)"
    and "length (cfg_input_pins cfg) = length (cfg_output_pins cfg)" "4 \<le> length (output_pins_queue (streams s ! i))"
    and "distinct qs"
  shows "(qs \<noteq> [] \<longrightarrow> length (cfg_output_pins cfg) + length qs \<le> 4) \<and>
    (\<forall>k < length qs. q_fw_output (ibufs s') (qs ! k) = length (cfg_output_pins cfg) + k \<and>
       output_pins_queue (streams s' ! i) ! (length (cfg_output_pins cfg) + k) = Some (qs ! k)) \<and>
    (\<forall>p. p \<notin> set qs \<longrightarrow> q_fw_output (ibufs s') p = q_fw_output (ibufs s) p) \<and>
    (\<forall>k < length (cfg_output_pins cfg). output_pins_queue (streams s' ! i) ! k = output_pins_queue (streams s ! i) ! k)"
  using assms
proof (induction qs arbitrary: cfg s)
  case (Cons q qs)
  let ?n = "length (cfg_output_pins cfg)"
  obtain r s1 where one: "run_state (ipu6_isys_fw_pin_cfg env i q cfg) s = (r, s1)"
    by (cases "run_state (ipu6_isys_fw_pin_cfg env i q cfg) s") auto
  obtain cfg1 where r: "r = Inr cfg1" "run_state (pin_cfgs env i qs cfg1) s1 = (Inr cfg', s')"
    using Cons.prems(1) one by (cases r) auto
  note ok1 = pin_cfg_ok [OF one [unfolded r(1)] Cons.prems(2)]
  have IH: "(qs \<noteq> [] \<longrightarrow> Suc ?n + length qs \<le> 4) \<and>
    (\<forall>k < length qs. q_fw_output (ibufs s') (qs ! k) = Suc ?n + k \<and>
       output_pins_queue (streams s' ! i) ! (Suc ?n + k) = Some (qs ! k)) \<and>
    (\<forall>p. p \<notin> set qs \<longrightarrow> q_fw_output (ibufs s') p = q_fw_output (ibufs s1) p) \<and>
    (\<forall>k < Suc ?n. output_pins_queue (streams s' ! i) ! k = output_pins_queue (streams s1 ! i) ! k)"
    using Cons.IH [OF r(2)] Cons.prems(2-5) ok1 by simp
  have "?n < length (output_pins_queue (streams s ! i))" using Cons.prems(3,4) ok1(3) by simp
  then show ?case
    using IH ok1 Cons.prems(3,5) by (auto simp: nth_Cons split: nat.splits)
qed auto

text \<open>The frame buffer set has the address of each buffer at the pin of its queue.\<close>

lemma frame_pin_other:
  "k \<notin> (\<lambda>b. q_fw_output bs (vb_queue env b)) ` set bl \<Longrightarrow>
   fb_output_pins (fold (ipu6_isys_buf_to_fw_frame_buf_pin env bs) bl f) ! k = fb_output_pins f ! k"
  by (induction bl arbitrary: f) (auto simp: ipu6_isys_buf_to_fw_frame_buf_pin_def Let_def)

lemma frame_pin_addr:
  assumes "b \<in> set bl" "inj_on (\<lambda>b. q_fw_output bs (vb_queue env b)) (set bl)" "distinct bl"
    and "q_fw_output bs (vb_queue env b) < length (fb_output_pins f)"
  shows "pl_addr (fb_output_pins (fold (ipu6_isys_buf_to_fw_frame_buf_pin env bs) bl f) ! q_fw_output bs (vb_queue env b)) =
    ucast (vb_dma_addr env b)"
  using assms
proof (induction bl arbitrary: f)
  case (Cons c bl)
  let ?pin = "\<lambda>b. q_fw_output bs (vb_queue env b)"
  let ?f = "ipu6_isys_buf_to_fw_frame_buf_pin env bs c f"
  have len: "length (fb_output_pins ?f) = length (fb_output_pins f)"
    by (simp add: ipu6_isys_buf_to_fw_frame_buf_pin_def Let_def)
  show ?case
  proof (cases "b = c")
    case True
    then have "?pin c \<notin> ?pin ` set bl"
      using Cons.prems(2,3) by auto
    then show ?thesis
      using True Cons.prems(4)
      by (simp add: frame_pin_other) (simp add: ipu6_isys_buf_to_fw_frame_buf_pin_def Let_def)
  next
    case False
    then show ?thesis
      using Cons.IH [of ?f] Cons.prems len by simp
  qed
qed simp

text \<open>A report of the firmware for the address of a buffer that is the only active one there completes this buffer.\<close>

lemma ucast_roundtrip: "a < 2 ^ 32 \<Longrightarrow> ucast (ucast (a :: u64) :: u32) = a"
  by (simp add: word_unat_eq_iff word_less_nat_alt unat_ucast_up unsigned_ucast_eq unsigned_take_bit_eq take_bit_nat_eq_self)

lemma find_SomeD: "List.find P xs = Some x \<Longrightarrow> x \<in> set xs \<and> P x"
  by (auto simp: find_Some_iff)

lemma find_ready_unique:
  assumes "b \<in> set act" "vb_dma_addr env b < 2 ^ 32" "inj_on (vb_dma_addr env) (set act)"
  shows "find_ready env (ucast (vb_dma_addr env b)) act = Some b"
proof -
  have a: "ucast (ucast (vb_dma_addr env b) :: u32) = vb_dma_addr env b"
    by (rule ucast_roundtrip [OF assms(2)])
  have "\<exists>c. find_ready env (ucast (vb_dma_addr env b)) act = Some c"
    using assms(1) a by (auto simp: find_ready_def find_None_iff simp flip: not_None_eq)
  then obtain c where c: "find_ready env (ucast (vb_dma_addr env b)) act = Some c" by blast
  then have "c \<in> set act" "vb_dma_addr env c = vb_dma_addr env b"
    using a by (auto simp: find_ready_def dest: find_SomeD)
  then show ?thesis
    using c assms(1,3) by (auto dest: inj_onD)
qed

lemma buf_ready_done:
  assumes "find_ready env addr (q_active (ibufs s) q) = Some b" "vb_owned (ibufs s) b" "\<not> str2mmio_flag (ibufs s) b"
    and "s' = snd (run_state (ipu6_stream_buf_ready env i q addr time False) s)"
  shows "vb_result (ibufs s') b = Some VB2_BUF_STATE_DONE" "\<not> vb_owned (ibufs s') b"
    "q_active (ibufs s') = (q_active (ibufs s))(q := remove1 b (q_active (ibufs s) q))"
    "vb_sequence (ibufs s') b = get_sof_sequence_by_timestamp (streams s ! i) time"
    "c \<noteq> b \<Longrightarrow> vb_result (ibufs s') c = vb_result (ibufs s) c"
  using assms(1-3) unfolding assms(4)
  by (simp_all add: ipu6_stream_buf_ready_def ipu6_isys_buf_calc_sequence_time_def get_sof_ns_delta_def
      ipu6_isys_queue_buf_done_def vb2_buffer_done_def case_prod_beta)

lemma handle_pin_ready:
  assumes "unat (ri_stream_handle resp) = i" "i < 8" "ri_type resp = IPU6_FW_ISYS_RESP_TYPE_PIN_DATA_READY"
    and "ri_error resp \<noteq> IPU6_FW_ISYS_ERROR_HW_REPORTED_STR2MMIO"
    and "length (streams s) = 8" "0 < streams_ref_count s ! i" "st_asd (streams s ! i) = Some port"
    and "unat (ri_pin_id resp) < 11" "output_pins_queue (streams s ! i) ! unat (ri_pin_id resp) = Some q"
  shows "ibufs (snd (run_state (handle_resp env resp) s)) =
    ibufs (snd (run_state (ipu6_stream_buf_ready env i q (ri_pin_addr resp) (ri_timestamp resp) False)
      (upd_stream i (\<lambda>st. st\<lparr>st_error := ri_error resp\<rparr>) (add_ref i 1 s))))"
  using assms
  by (simp add: handle_resp_def ipu6_isys_query_stream_by_handle_def ipu6_isys_put_stream_def add_ref_def upd_stream_def
      resp_event_def pin_data_ready_def ipu6_isys_queue_buf_ready_def ipu4_isys_csi2_error_def ipu4_isys_register_errors_def
      csi2_readl_def csi2_writel_def case_prod_beta ipu4_consts Let_def)

lemma frame_at_pin:
  assumes "b \<in> set bl" "distinct (map (vb_queue env) bl)" "\<forall>c \<in> set bl. vb_queue env c \<in> set qs"
    and "\<forall>k < length qs. q_fw_output bs (qs ! k) = k" "length qs \<le> 4"
  shows "pl_addr (fb_output_pins (ipu6_isys_buf_to_fw_frame_buf env bs bl zero_frame_buff_set) ! q_fw_output bs (vb_queue env b)) =
    ucast (vb_dma_addr env b)"
proof -
  have "inj_on (\<lambda>b. q_fw_output bs (vb_queue env b)) (set bl)"
  proof (rule inj_onI)
    fix c d assume cd: "c \<in> set bl" "d \<in> set bl" "q_fw_output bs (vb_queue env c) = q_fw_output bs (vb_queue env d)"
    then obtain k l where "k < length qs" "vb_queue env c = qs ! k" "l < length qs" "vb_queue env d = qs ! l"
      using assms(3) by (metis in_set_conv_nth)
    then have "vb_queue env c = vb_queue env d" using cd(3) assms(4) by simp
    then show "c = d" using cd(1,2) assms(2) by (auto simp: distinct_map dest: inj_onD)
  qed
  moreover obtain k where "k < length qs" "vb_queue env b = qs ! k"
    using assms(1,3) by (metis in_set_conv_nth)
  ultimately show ?thesis
    unfolding ipu6_isys_buf_to_fw_frame_buf_def using assms
    by (intro frame_pin_addr) (auto simp: zero_frame_buff_set_def ipu4_consts distinct_map)
qed

text \<open>
  C27: A frame reaches its buffer. When the pins of a stream are configured and a frame buffer
  set is made of a list of buffers, one for each queue, then a report of the firmware with the
  number of a pin and the address at this pin of the set completes exactly the buffer that is
  there: it leaves the active list of its queue and goes to videobuf2 as done, with the
  number of the frame; no other buffer is touched. The addresses of the active buffers of a
  queue are distinct 32-bit addresses.
\<close>

theorem frame_reaches_its_buffer:
  assumes pins: "run_state (pin_cfgs env i qs cfg) s0 = (Inr cfg', s1)" "cfg_input_pins cfg = []" "cfg_output_pins cfg = []"
      "distinct qs" "i < length (streams s0)" "4 \<le> length (output_pins_queue (streams s0 ! i))"
    and later: "output_pins_queue (streams s ! i) = output_pins_queue (streams s1 ! i)" "q_fw_output (ibufs s) = q_fw_output (ibufs s1)"
      "i < 8" "length (streams s) = 8" "0 < streams_ref_count s ! i" "st_asd (streams s ! i) = Some port"
    and list: "b \<in> set bl" "distinct (map (vb_queue (ienv env)) bl)" "\<forall>c \<in> set bl. vb_queue (ienv env) c \<in> set qs"
      "q = vb_queue (ienv env) b"
    and active: "b \<in> set (q_active (ibufs s) q)" "inj_on (vb_dma_addr (ienv env)) (set (q_active (ibufs s) q))"
      "vb_dma_addr (ienv env) b < 2 ^ 32" "vb_owned (ibufs s) b" "\<not> str2mmio_flag (ibufs s) b"
    and report: "unat (ri_stream_handle resp) = i" "ri_type resp = IPU6_FW_ISYS_RESP_TYPE_PIN_DATA_READY"
      "ri_error resp \<noteq> IPU6_FW_ISYS_ERROR_HW_REPORTED_STR2MMIO" "unat (ri_pin_id resp) = q_fw_output (ibufs s) q"
      "ri_pin_addr resp =
         pl_addr (fb_output_pins (ipu6_isys_buf_to_fw_frame_buf (ienv env) (ibufs s) bl zero_frame_buff_set) ! unat (ri_pin_id resp))"
    and "s' = snd (run_state (handle_resp (ienv env) resp) s)"
  shows "vb_result (ibufs s') b = Some VB2_BUF_STATE_DONE \<and> \<not> vb_owned (ibufs s') b \<and>
    q_active (ibufs s') = (q_active (ibufs s))(q := remove1 b (q_active (ibufs s) q)) \<and>
    vb_sequence (ibufs s') b = get_sof_sequence_by_timestamp (streams s ! i) (ri_timestamp resp) \<and>
    (\<forall>c. c \<noteq> b \<longrightarrow> vb_result (ibufs s') c = vb_result (ibufs s) c)"
proof -
  let ?t = "upd_stream i (\<lambda>st. st\<lparr>st_error := ri_error resp\<rparr>) (add_ref i 1 s)"
  have p: "qs \<noteq> [] \<longrightarrow> length qs \<le> 4" "\<forall>k < length qs. q_fw_output (ibufs s) (qs ! k) = k"
      "\<forall>k < length qs. output_pins_queue (streams s ! i) ! k = Some (qs ! k)"
    using pin_cfgs_ok [OF pins(1,5) _ pins(6,4)] pins(2,3) later(1,2) by simp_all
  obtain k where k: "k < length qs" "q = qs ! k"
    using list(1,3,4) by (metis in_set_conv_nth)
  have pin: "unat (ri_pin_id resp) = k" "k < 4" using p(1,2) k report(4) by auto
  have "ri_pin_addr resp = ucast (vb_dma_addr (ienv env) b)"
    using frame_at_pin [OF list(1-3) p(2)] p(1) k report(4,5) list(4) by auto
  then have "find_ready (ienv env) (ri_pin_addr resp) (q_active (ibufs ?t) q) = Some b"
    using find_ready_unique [OF active(1,3,2)] by (simp add: upd_stream_def add_ref_def)
  note d = buf_ready_done [OF this _ _ refl]
  have "ibufs s' = ibufs (snd (run_state (ipu6_stream_buf_ready (ienv env) i q (ri_pin_addr resp) (ri_timestamp resp) False) ?t))"
    unfolding assms(27) using p(3) k pin later report by (intro handle_pin_ready) simp_all
  then show ?thesis
    using d active(4,5) later(3,4)
    by (simp add: upd_stream_def add_ref_def get_sof_sequence_by_timestamp_def)
qed

text \<open>
  A video node that is linked to pad 1 of the receiver of port 0, in an environment where the
  sub-device does what is given.
\<close>

definition ex_subdev :: v4l2_subdev_state where
  "ex_subdev = \<lparr>routes = [\<lparr>sink_pad = 0, sink_stream = 0, source_pad = 1, source_stream = 0, route_active = True\<rparr>],
     opposite = (\<lambda>_ _. Some (0, 0)), sd_fmt = (\<lambda>_ _. Some \<lparr>ff_width = 64, ff_height = 64, ff_code = MEDIA_BUS_FMT_SBGGR12_1X12\<rparr>),
     sd_crop = (\<lambda>_ _. Some \<lparr>r_left = 0, r_top = 0, r_width = 64, r_height = 64\<rparr>)\<rparr>"

definition ex_venv :: "'d isys_env \<Rightarrow> ('d ipu6_isys, unit res) state \<Rightarrow> 'd video_env" where
  "ex_venv e en = \<lparr>ienv = e, remote_pad_unique = (\<lambda>_. Inr (0, 1)), remote_pad_first = (\<lambda>_. Some (0, 1)),
     source_of = (\<lambda>_. Some 7), frame_desc = (\<lambda>_. None), sd_state = (\<lambda>_. ex_subdev),
     av_fmt = (\<lambda>_. \<lparr>vbq_type = V4L2_BUF_TYPE_VIDEO_CAPTURE, vbq_busy = True,
       pix_fmt = \<lparr>pix_width = 64, pix_height = 64, pix_format = V4L2_PIX_FMT_SBGGR12, bytesperline = 128, sizeimage = 8192,
         pix_field = 0, colorspace = 0, ycbcr_enc = 0, quantization = 0, xfer_func = 0\<rparr>,
       meta_fmt = \<lparr>dataformat = OTHER_PIX_FMT 0, buffersize = 0, meta_width = 0, meta_height = 0, meta_bytesperline = 0\<rparr>\<rparr>),
     pipeline_start = (\<lambda>av p. Inr (p(av := Some 0))), pipeline_stop = (\<lambda>av p. p(av := None)),
     subdev_enable = (\<lambda>_ _ _. en), subdev_disable = (\<lambda>_ _ _. State_Monad.return ok),
     pm_get = State_Monad.return ok, pm_put = (\<lambda>_. State_Monad.return ()),
     mmu_on = State_Monad.return ok, mmu_off = State_Monad.return (), psys_pkg_dir_dma_addr = 0\<rparr>"

definition ex_cfg0 :: ipu4_fw_isys_stream_cfg_data_abi where
  "ex_cfg0 = \<lparr>cfg_input_pins = [], cfg_output_pins = [], cfg_src = 0, cfg_vc = 0, cfg_isl_use = 0\<rparr>"

definition ex_pfmt :: ipu6_isys_pixelformat where
  "ex_pfmt = \<lparr>pixelformat = V4L2_PIX_FMT_SBGGR12, bpp = 16, bpp_packed = 12, code = MEDIA_BUS_FMT_SBGGR12_1X12,
     css_pixelformat = 24, is_meta = False\<rparr>"

lemma ex_venv_simps [simp]:
  "ienv (ex_venv e en) = e" "remote_pad_first (ex_venv e en) q = Some (0, 1)" "sd_state (ex_venv e en) p = ex_subdev"
  "ipu6_isys_get_format (av_fmt (ex_venv e en) q) = V4L2_PIX_FMT_SBGGR12"
  "ipu6_isys_get_src_stream_by_src_pad 1 ex_subdev = 0"
  "ipu6_isys_get_stream_pad_fmt p n ex_subdev = Inr \<lparr>ff_width = 64, ff_height = 64, ff_code = MEDIA_BUS_FMT_SBGGR12_1X12\<rparr>"
  "ipu6_isys_get_stream_pad_crop p n ex_subdev = Inr \<lparr>r_left = 0, r_top = 0, r_width = 64, r_height = 64\<rparr>"
  by (simp_all add: ex_venv_def ipu6_isys_get_format_def ex_subdev_def ipu6_isys_get_src_stream_by_src_pad_def
      ipu6_isys_get_stream_pad_fmt_def ipu6_isys_get_stream_pad_crop_def)

lemma ex_format [simp]: "ipu6_isys_get_isys_format V4L2_PIX_FMT_SBGGR12 None = Some ex_pfmt"
proof -
  have l: "ipu6_isys_pfmts = ex_pfmt # tl ipu6_isys_pfmts"
    by (simp only: ipu6_isys_pfmts_def ex_pfmt_def list.sel)
  have "format_of_type None ex_pfmt" "pixelformat ex_pfmt = V4L2_PIX_FMT_SBGGR12"
    by (simp_all add: format_of_type_def ex_pfmt_def)
  then show ?thesis
    unfolding ipu6_isys_get_isys_format_def by (subst l) (simp add: Let_def)
qed

lemma ex_pin_cfg:
  "run_state (pin_cfgs (ex_venv e en) i [q] ex_cfg0) s =
   (Inr (ex_cfg0\<lparr>cfg_output_pins := [output_pin_of (av_fmt (ex_venv e en) q) 0 ex_pfmt],
      cfg_input_pins := [input_pin_of \<lparr>ff_width = 64, ff_height = 64, ff_code = MEDIA_BUS_FMT_SBGGR12_1X12\<rparr> (av_dt s q) ex_pfmt]\<rparr>),
    upd_stream i (\<lambda>st. st\<lparr>output_pins_queue := (output_pins_queue st)[0 := Some q]\<rparr>)
      (s\<lparr>ibufs := (ibufs s)\<lparr>q_fw_output := (q_fw_output (ibufs s))(q := 0)\<rparr>\<rparr>))"
  by (simp add: ex_cfg0_def ipu6_isys_fw_pin_cfg_def ipu4_consts)

text \<open>Stream 0 captures with queue 0, whose buffer 2 at the address 0x2000 is active; the firmware reports pin 0.\<close>

definition ex_capturing :: "(nat \<Rightarrow> u8) dev ipu6_isys" where
  "ex_capturing = ex_isys\<lparr>streams_ref_count := 1 # replicate 7 0,
     streams := (streams ex_isys)[0 := (init_stream 0)\<lparr>st_vc := 0, st_asd := Some 0, st_queues := [0]\<rparr>],
     ibufs := ex_ibufs\<lparr>q_active := (\<lambda>q. if q = 0 then [2] else []), vb_owned := (\<lambda>b. b = 2)\<rparr>\<rparr>"

definition ex_report :: ipu6_fw_isys_resp_info_abi where
  "ex_report = \<lparr>ri_buf_handle = 0, ri_pin_addr = 0x2000, ri_error = 0, ri_timestamp = 0, ri_stream_handle = 0,
     ri_type = IPU6_FW_ISYS_RESP_TYPE_PIN_DATA_READY, ri_pin_id = 0\<rparr>"

theorem frame_reaches_its_buffer_witness:
  "\<exists>cfg s1. run_state (pin_cfgs (ex_venv ex_ienv (State_Monad.return ok)) 0 [0] ex_cfg0) ex_capturing = (Inr cfg, s1) \<and>
     vb_result (ibufs (snd (run_state (handle_resp ex_ienv ex_report) s1))) 2 = Some VB2_BUF_STATE_DONE"
proof -
  let ?env = "ex_venv ex_ienv (State_Monad.return ok)"
  obtain cfg s1 where run: "run_state (pin_cfgs ?env 0 [0] ex_cfg0) ex_capturing = (Inr cfg, s1)"
    and s1: "s1 = upd_stream 0 (\<lambda>st. st\<lparr>output_pins_queue := (output_pins_queue st)[0 := Some 0]\<rparr>)
      (ex_capturing\<lparr>ibufs := (ibufs ex_capturing)\<lparr>q_fw_output := (q_fw_output (ibufs ex_capturing))(0 := 0)\<rparr>\<rparr>)"
    using ex_pin_cfg by blast
  have st: "length (streams ex_capturing) = 8" "length (output_pins_queue (streams ex_capturing ! 0)) = 11"
    "0 < streams_ref_count s1 ! 0" "length (streams s1) = 8" "st_asd (streams s1 ! 0) = Some 0"
    "q_active (ibufs s1) 0 = [2]" "vb_owned (ibufs s1) 2" "\<not> str2mmio_flag (ibufs s1) 2" "q_fw_output (ibufs s1) 0 = 0"
    by (simp_all add: s1 ex_capturing_def ex_isys_def upd_stream_def init_stream_def stream_ids_def ex_ibufs_def ipu4_consts)
  have fb: "pl_addr (fb_output_pins (ipu6_isys_buf_to_fw_frame_buf ex_ienv (ibufs s1) [2] zero_frame_buff_set) ! 0) = 0x2000"
    using st(9) by (simp add: ipu6_isys_buf_to_fw_frame_buf_def ipu6_isys_buf_to_fw_frame_buf_pin_def zero_frame_buff_set_def ipu4_consts)
  have "vb_result (ibufs (snd (run_state (handle_resp (ienv ?env) ex_report) s1))) 2 = Some VB2_BUF_STATE_DONE \<and> True"
    using frame_reaches_its_buffer [OF run, of s1 0 2 "[2]" 0 ex_report] st fb
    by (simp add: ex_cfg0_def ex_report_def ipu4_consts)
  then show ?thesis using run by auto
qed

section \<open>A start that fails\<close>

interpretation streams_of: msg_frame "\<lambda>s. av_stream s = x" for x
  by unfold_locales simp_all

lemma vb2_done_result:
  "vb_result (vb2_buffer_done c st bs) b = (if c = b \<and> vb_owned bs b then Some st else vb_result bs b)"
  by (auto simp: vb2_buffer_done_def)

lemma bounce_result: "vb_result (bounce env bl bs) b = (if b \<in> set bl \<and> vb_owned bs b then Some VB2_BUF_STATE_ERROR else vb_result bs b)"
  by (induction bl arbitrary: bs) (auto simp: Let_def ipu4_consts vb2_done_result)

text \<open>Flushing the active lists does nothing to a buffer that is videobuf2's, and takes none from an incoming list.\<close>

lemma flush_active_keeps:
  "set (q_incoming bs p) \<subseteq> set (q_incoming (flush_active strm q ibs bs) p) \<and>
   (\<not> vb_owned bs b \<longrightarrow> \<not> vb_owned (flush_active strm q ibs bs) b \<and> vb_result (flush_active strm q ibs bs) b = vb_result bs b)"
proof (induction ibs arbitrary: bs)
  case (Cons ib ibs)
  show ?case
    using Cons.IH [of "(\<lambda>bs1. if strm then bs1\<lparr>q_incoming := (q_incoming bs1)(q := ib # q_incoming bs1 q)\<rparr>
         else vb2_buffer_done ib VB2_BUF_STATE_QUEUED bs1) (bs\<lparr>q_active := (q_active bs)(q := remove1 ib (q_active bs q))\<rparr>)"]
    by (auto simp: Let_def vb2_done_result split: if_splits)
qed simp

lemma flush_queues_keeps:
  "set (q_incoming bs p) \<subseteq> set (q_incoming (flush_queues strm qs bs) p) \<and>
   (\<not> vb_owned bs b \<longrightarrow> \<not> vb_owned (flush_queues strm qs bs) b \<and> vb_result (flush_queues strm qs bs) b = vb_result bs b)"
proof (induction qs arbitrary: bs)
  case (Cons q qs)
  show ?case
    using Cons.IH [of "flush_active (strm q) q (q_active bs q) bs"] flush_active_keeps [of bs p "strm q" q "q_active bs q" b]
    by auto
qed simp

lemma stream_start_bounces:
  assumes "av_stream s av = Some i" "run_state (ipu6_isys_video_set_streaming env av True (Some bl)) s = ((Inl e, rest), s1)"
  shows "run_state (ipu6_isys_stream_start env av bl True) s = (Inl e,
    s1\<lparr>ibufs := flush_queues (av_streaming s1) (st_queues (streams s1 ! i)) (bounce (ienv env) rest (ibufs s1))\<rparr>)"
  using assms by (simp add: ipu6_isys_stream_start_def with_stream_def requeue_def flush_firmware_streamon_fail_def)

text \<open>
  C25: Queueing a buffer starts a stream whose nodes all stream and which is not started, when every
  queue then has a buffer and there is a message for it. When this start fails, each buffer taken for
  it that was not made active is given back to videobuf2 as failed and is on the incoming list of its
  queue as well, from where the driver will hand it to the firmware although it is not its own.
\<close>

theorem failed_start_keeps_returned_buffers:
  assumes "av = vb_queue (ienv env) b0" "av_pipeline s av \<noteq> None" "av_stream s av = Some i"
    and "nr_streaming (streams s ! i) = nr_queues (streams s ! i)" "\<not> st_streaming (streams s ! i)"
    and "run_state (take_list (ienv env) i) (s\<lparr>ibufs := enqueue_incoming (ienv env) b0 (ibufs s)\<rparr>) = (Inr bl, s1)"
    and "run_state (ipu6_get_fw_msg_buf (ienv env)) s1 = (Some msg, s2)"
    and "run_state (ipu6_isys_video_set_streaming env av True (Some bl)) (snd (run_state (frame_msg (ienv env) msg bl) s2)) =
      ((Inl e, rest), s3)"
    and "b \<in> set rest" "vb_owned (ibufs s3) b"
    and "s' = snd (run_state (buf_queue env True b0) s)"
  shows "\<not> vb_owned (ibufs s') b \<and> vb_result (ibufs s') b = Some VB2_BUF_STATE_ERROR \<and>
    b \<in> set (q_incoming (ibufs s') (vb_queue (ienv env) b))"
proof -
  let ?s2 = "snd (run_state (frame_msg (ienv env) msg bl) s2)"
  have "av_stream s1 = av_stream s"
    using arg_cong [OF assms(6), of snd] by (auto simp: take_list_def case_prod_beta)
  moreover have "av_stream ?s2 = av_stream s1"
    using keepsD [OF streams_of.keeps_get_msg [of "av_stream s1" "ienv env"], of s1] assms(7)
      keepsD [OF streams_of.keeps_frame_msg [of "av_stream s1" "ienv env" msg bl], of s2] by simp
  ultimately have "av_stream ?s2 av = Some i" using assms(3) by simp
  note start = stream_start_bounces [OF this assms(8)]
  have "ibufs s' = flush_queues (av_streaming s3) (st_queues (streams s3 ! i)) (bounce (ienv env) rest (ibufs s3))"
    using assms(1-7) start unfolding assms(11)
    by (auto simp: buf_queue_def Let_def with_stream_def case_prod_beta)
  then show ?thesis
    using flush_queues_keeps [of "bounce (ienv env) rest (ibufs s3)" "vb_queue (ienv env) b" "av_streaming s3"
        "st_queues (streams s3 ! i)" b] assms(9,10)
    by (auto simp: bounce_lists bounce_result)
qed

text \<open>
  The routing of the sub-device has no stream for the pad of the node, so that the start of stream 0
  by its only buffer fails.
\<close>

definition ex_unrouted :: "(nat \<Rightarrow> u8) dev video_env" where
  "ex_unrouted = (ex_venv ex_ienv (State_Monad.return ok))\<lparr>sd_state := (\<lambda>_. ex_subdev\<lparr>opposite := (\<lambda>_ _. None)\<rparr>)\<rparr>"

definition ex_starting :: "(nat \<Rightarrow> u8) dev ipu6_isys" where
  "ex_starting = ex_isys\<lparr>av_stream := (\<lambda>_. None)(0 := Some 0), av_pipeline := (\<lambda>_. None)(0 := Some 0),
     streams := [(init_stream 0)\<lparr>nr_streaming := 1, nr_queues := 1, st_queues := [0], st_asd := Some 0, source_entity := Some 7\<rparr>],
     framebuflist := [\<lparr>msg_addr = 0x10000, msg_dma = 0x10000\<rparr>], ibufs := ex_ibufs\<lparr>vb_owned := (\<lambda>b. b = 0)\<rparr>\<rparr>"

theorem failed_start_keeps_returned_buffers_witness:
  "let s' = snd (run_state (buf_queue ex_unrouted True 0) ex_starting) in
     vb_result (ibufs s') 0 = Some VB2_BUF_STATE_ERROR \<and> 0 \<in> set (q_incoming (ibufs s') 0)"
proof -
  let ?e = "ienv ex_unrouted" and ?msg = "\<lparr>msg_addr = 0x10000, msg_dma = 0x10000\<rparr>"
  let ?s = "ex_starting\<lparr>ibufs := enqueue_incoming ?e 0 (ibufs ex_starting)\<rparr>"
  let ?s1 = "snd (run_state (take_list ?e 0) ?s)"
  let ?s2 = "snd (run_state (ipu6_get_fw_msg_buf ?e) ?s1)"
  let ?s3 = "snd (run_state (frame_msg ?e ?msg [0]) ?s2)"
  have env: "ienv ex_unrouted = ex_ienv" "remote_pad_first ex_unrouted 0 = Some (0, 1)"
    "sd_state ex_unrouted = (\<lambda>_. ex_subdev\<lparr>opposite := (\<lambda>_ _. None)\<rparr>)"
    by (simp_all add: ex_unrouted_def)
  have t: "run_state (take_list ?e 0) ?s = (Inr [0], ?s1)" "?s1 = ex_starting"
    by (simp_all add: env take_list_def buffer_list_get_def enqueue_incoming_def ex_starting_def ex_ibufs_def fun_upd_idem)
  have m: "run_state (ipu6_get_fw_msg_buf ?e) ?s1 = (Some ?msg, ?s2)"
    unfolding t(2) by (simp add: env ipu6_get_fw_msg_buf_def take_msg_def ex_starting_def)
  have s2: "streams ?s2 = streams ex_starting" "ibufs ?s2 = ibufs ex_starting" "av_stream ?s2 = av_stream ex_starting"
    unfolding t(2) by (simp_all add: env ipu6_get_fw_msg_buf_def take_msg_def ex_starting_def)
  have s3: "streams ?s3 = streams ex_starting" "ibufs ?s3 = ibufs ex_starting" "av_stream ?s3 = av_stream ex_starting"
    using s2 by (simp_all add: t(2) frame_msg_def store_host_def)
  have "run_state (ipu6_isys_video_set_streaming ex_unrouted 0 True (Some [0])) x = ((Inl EINVAL, [0]), x)"
    if "streams x = streams ex_starting" "av_stream x = av_stream ex_starting" for x
    using that by (simp add: ipu6_isys_video_set_streaming_def with_stream_def env ex_starting_def)
  note set = this [OF s3(1,3)]
  have h: "0 = vb_queue ?e 0" "av_pipeline ex_starting 0 \<noteq> None" "av_stream ex_starting 0 = Some 0"
    "nr_streaming (streams ex_starting ! 0) = nr_queues (streams ex_starting ! 0)" "\<not> st_streaming (streams ex_starting ! 0)"
    "vb_owned (ibufs ex_starting) 0"
    by (simp_all add: env ex_starting_def init_stream_def)
  have "0 \<in> set [0 :: nat]" "vb_owned (ibufs ?s3) 0" using h(6) unfolding s3(2) by simp_all
  from failed_start_keeps_returned_buffers [OF h(1-5) t(1) m set this refl] show ?thesis
    by (simp add: env Let_def)
qed

end
