(* ===== verification/Kernel_Ledger.thy ===== *)
theory Kernel_Ledger
  imports State_Hoare
begin

text \<open>
  What a driver holds of the kernel while it registers itself. Every call of the kernel that may
  fail asks a script, which says for each such call, by its number, whether it fails and
  with which error: a theorem for all scripts is one about every combination of failures.
  The ledger counts for each resource how often it is held. Giving back what is not held, or using
  it, is recorded as a misuse.
\<close>

datatype subsys = Isys | Psys

text \<open>
  The resources: memory, software nodes, controls, the media entity and the registration of
  the virtual sensor; memory, nodes and I2C devices of the bridge; platform data, bus device, MMU,
  power reference, firmware image and package directory of a sub-system; the state of the
  buttress, the firmware file and the interrupt; and what the input system registers.
\<close>

datatype resource =
    VirtMem | VirtNodes | VirtCtrl | VirtEntity | VirtAsync
  | BridgeMem | IpuNode | SensorNodes nat | SensorI2c nat | Adapter nat
  | Pdata subsys | Adev subsys | MmuOf subsys | MmuOn subsys | PmRef subsys | FwImage subsys | PkgDir subsys
  | ButtressUp | FwFile | Irq
  | QosRequest | MsgBufs | MediaDev | MediaReg | V4l2Dev | VbQueue nat | NodeEntity nat | VideoNode nat
  | Csi2Set nat | SubdevEntity nat | SubdevState nat | SubdevReg nat | SensorReg
  | Endpoint nat | Connection nat | Notifier

record kern =
  calls :: nat
  held :: "resource \<Rightarrow> int"
  misuse :: bool

type_synonym script = "nat \<Rightarrow> errno option"

text \<open>A call that may fail; one that then holds a resource; and an allocation, which fails for lack of memory.\<close>

definition attempt :: "script \<Rightarrow> ('z kern_scheme, unit res) state" where
  "attempt fails = State (\<lambda>s.
     (case fails (calls s) of None \<Rightarrow> ok | Some e \<Rightarrow> Inl e, s\<lparr>calls := Suc (calls s)\<rparr>))"

definition hold :: "resource \<Rightarrow> ('z kern_scheme, unit) state" where
  "hold r = State (\<lambda>s. ((), s\<lparr>held := (held s)(r := held s r + 1)\<rparr>))"

definition acquire :: "script \<Rightarrow> resource \<Rightarrow> ('z kern_scheme, unit res) state" where
  "acquire fails r = do {
     ret \<leftarrow> attempt fails;
     (if ret = ok then hold r else State_Monad.return ());
     State_Monad.return ret }"

definition alloc :: "script \<Rightarrow> resource \<Rightarrow> ('z kern_scheme, unit res) state" where
  "alloc fails r = do {
     ret \<leftarrow> acquire fails r;
     State_Monad.return (if ret = ok then ok else Inl ENOMEM) }"

text \<open>Giving back what must be held, giving back what may be held, and using what must be held.\<close>

definition release :: "resource \<Rightarrow> ('z kern_scheme, unit) state" where
  "release r = State (\<lambda>s. ((),
     if held s r > 0 then s\<lparr>held := (held s)(r := held s r - 1)\<rparr> else s\<lparr>misuse := True\<rparr>))"

definition release_if :: "resource \<Rightarrow> ('z kern_scheme, unit) state" where
  "release_if r = State (\<lambda>s. ((),
     if held s r > 0 then s\<lparr>held := (held s)(r := held s r - 1)\<rparr> else s))"

definition wild_use :: "('z kern_scheme, unit) state" where
  "wild_use = State (\<lambda>s. ((), s\<lparr>misuse := True\<rparr>))"

definition kget :: "('s \<Rightarrow> 'a) \<Rightarrow> ('s, 'a) state" where
  "kget f = State (\<lambda>s. (f s, s))"

definition kmod :: "('s \<Rightarrow> 's) \<Rightarrow> ('s, unit) state" where
  "kmod f = State (\<lambda>s. ((), f s))"

lemma run_kget [simp]: "run_state (kget f) s = (f s, s)"
  by (simp add: kget_def)

lemma run_kmod [simp]: "run_state (kmod f) s = ((), f s)"
  by (simp add: kmod_def)

lemma run_attempt:
  "run_state (attempt fails) s = (case fails (calls s) of None \<Rightarrow> ok | Some e \<Rightarrow> Inl e, s\<lparr>calls := Suc (calls s)\<rparr>)"
  by (simp add: attempt_def)

lemma run_acquire:
  "run_state (acquire fails r) s = (case fails (calls s) of
     None \<Rightarrow> (ok, s\<lparr>calls := Suc (calls s), held := (held s)(r := held s r + 1)\<rparr>)
   | Some e \<Rightarrow> (Inl e, s\<lparr>calls := Suc (calls s)\<rparr>))"
  by (simp add: acquire_def run_attempt hold_def split: option.split)

lemma run_alloc:
  "run_state (alloc fails r) s = (case fails (calls s) of
     None \<Rightarrow> (ok, s\<lparr>calls := Suc (calls s), held := (held s)(r := held s r + 1)\<rparr>)
   | Some e \<Rightarrow> (Inl ENOMEM, s\<lparr>calls := Suc (calls s)\<rparr>))"
  by (simp add: alloc_def run_acquire split: option.split)

lemma run_release:
  "run_state (release r) s =
   ((), if held s r > 0 then s\<lparr>held := (held s)(r := held s r - 1)\<rparr> else s\<lparr>misuse := True\<rparr>)"
  by (simp add: release_def)

lemma run_release_if:
  "run_state (release_if r) s = ((), if held s r > 0 then s\<lparr>held := (held s)(r := held s r - 1)\<rparr> else s)"
  by (simp add: release_if_def)

lemma run_hold: "run_state (hold r) s = ((), s\<lparr>held := (held s)(r := held s r + 1)\<rparr>)"
  by (simp add: hold_def)

lemma run_wild_use [simp]: "run_state wild_use s = ((), s\<lparr>misuse := True\<rparr>)"
  by (simp add: wild_use_def)

lemmas ledger_runs = run_hold run_attempt run_acquire run_alloc run_release run_release_if

text \<open>Nothing is held and nothing was misused.\<close>

definition clean :: "'z kern_scheme \<Rightarrow> bool" where
  "clean s \<longleftrightarrow> held s = (\<lambda>_. 0) \<and> \<not> misuse s"

text \<open>A call that undid all it did: only the number of calls may differ.\<close>

definition undone :: "'z kern_scheme \<Rightarrow> 'z kern_scheme \<Rightarrow> bool" where
  "undone s s' \<longleftrightarrow> (\<exists>n. s' = s\<lparr>calls := n\<rparr>)"

text \<open>A call that holds the resources of a list in addition, each once.\<close>

definition gained :: "resource list \<Rightarrow> 'z kern_scheme \<Rightarrow> 'z kern_scheme \<Rightarrow> bool" where
  "gained rs s s' \<longleftrightarrow> (\<exists>n. s' = s\<lparr>calls := n, held := (\<lambda>r. held s r + of_bool (r \<in> set rs))\<rparr>)"

definition nonneg :: "'z kern_scheme \<Rightarrow> bool" where
  "nonneg s \<longleftrightarrow> (\<forall>r. 0 \<le> held s r)"

lemma calls_first [simp]: "s\<lparr>held := h, calls := n\<rparr> = s\<lparr>calls := n, held := h\<rparr>" for s :: "'z kern_scheme"
  by simp

lemma undone_refl [simp]: "undone s s"
  unfolding undone_def by (rule exI [of _ "calls s"]) simp

lemma undone_calls [simp]: "undone s (s\<lparr>calls := n\<rparr>)"
  unfolding undone_def by blast

text \<open>Both, of a state that is computed.\<close>

lemma gained_upd: "gained rs s (s\<lparr>calls := n, held := h\<rparr>) \<longleftrightarrow> (\<forall>r. h r = held s r + of_bool (r \<in> set rs))"
proof
  assume "gained rs s (s\<lparr>calls := n, held := h\<rparr>)"
  then obtain m where "s\<lparr>calls := n, held := h\<rparr> = s\<lparr>calls := m, held := (\<lambda>r. held s r + of_bool (r \<in> set rs))\<rparr>"
    by (auto simp: gained_def)
  from arg_cong [OF this, of held] show "\<forall>r. h r = held s r + of_bool (r \<in> set rs)" by simp
next
  assume "\<forall>r. h r = held s r + of_bool (r \<in> set rs)"
  then have "h = (\<lambda>r. held s r + of_bool (r \<in> set rs))" by auto
  then show "gained rs s (s\<lparr>calls := n, held := h\<rparr>)" unfolding gained_def by blast
qed

lemma undone_upd: "undone s (s\<lparr>calls := n, held := h\<rparr>) \<longleftrightarrow> (\<forall>r. h r = held s r)"
  using gained_upd [of "[]" s h n] by (simp add: gained_def undone_def)

lemma gainedI:
  assumes "s' = s\<lparr>calls := calls s', held := held s'\<rparr>" "\<And>r. held s' r = held s r + of_bool (r \<in> set rs)"
  shows "gained rs s s'"
  using assms(2) by (subst assms(1)) (simp add: gained_upd)

lemma undoneI:
  assumes "s' = s\<lparr>calls := calls s', held := held s'\<rparr>" "\<And>r. held s' r = held s r"
  shows "undone s s'"
  using assms(2) by (subst assms(1)) (simp add: undone_upd)

lemma gainedE:
  assumes "gained rs s s'"
  obtains n where "s' = s\<lparr>calls := n, held := (\<lambda>r. held s r + of_bool (r \<in> set rs))\<rparr>"
  using assms by (auto simp: gained_def)

lemmas ledger_upds = gained_upd undone_upd

lemma gained_nil: "gained [] s s' \<longleftrightarrow> undone s s'"
  by (simp add: gained_def undone_def)

lemma undone_trans: "undone s s' \<Longrightarrow> undone s' s'' \<Longrightarrow> undone s s''"
  by (auto simp: undone_def)

lemma gained_undone: "gained rs s s' \<Longrightarrow> undone s' s'' \<Longrightarrow> gained rs s s''"
  by (auto simp: undone_def gained_def)

lemma undone_gained: "undone s s' \<Longrightarrow> gained rs s' s'' \<Longrightarrow> gained rs s s''"
  by (auto simp: undone_def gained_def)

lemma gained_trans:
  "gained rs s s' \<Longrightarrow> gained qs s' s'' \<Longrightarrow> set rs \<inter> set qs = {} \<Longrightarrow> gained (rs @ qs) s s''"
  unfolding gained_def
proof (elim exE, intro exI)
  fix m n
  assume "s' = s\<lparr>calls := m, held := (\<lambda>r. held s r + of_bool (r \<in> set rs))\<rparr>"
    "s'' = s'\<lparr>calls := n, held := (\<lambda>r. held s' r + of_bool (r \<in> set qs))\<rparr>" "set rs \<inter> set qs = {}"
  moreover from this(3) have "(\<lambda>r. held s r + of_bool (r \<in> set rs) + of_bool (r \<in> set qs)) =
      (\<lambda>r. held s r + of_bool (r \<in> set (rs @ qs)))"
    by (auto simp: fun_eq_iff)
  ultimately show "s'' = s\<lparr>calls := n, held := (\<lambda>r. held s r + of_bool (r \<in> set (rs @ qs)))\<rparr>"
    by simp
qed

lemma nonneg_kept:
  "nonneg s \<Longrightarrow> undone s s' \<Longrightarrow> nonneg s'" "nonneg s \<Longrightarrow> gained rs s s' \<Longrightarrow> nonneg s'"
  by (auto simp: nonneg_def undone_def gained_def)

lemma clean_nonneg: "clean s \<Longrightarrow> nonneg s"
  by (simp add: clean_def nonneg_def)

lemma undone_clean: "undone s s' \<Longrightarrow> clean s \<Longrightarrow> clean s'"
  by (auto simp: undone_def clean_def)

text \<open>Giving back what was gained.\<close>

lemma run_release_gained:
  assumes "nonneg s" "gained (r # rs) s s'" "r \<notin> set rs"
  shows "gained rs s (snd (run_state (release r) s'))"
proof -
  obtain n where n: "s' = s\<lparr>calls := n, held := (\<lambda>q. held s q + of_bool (q \<in> set (r # rs)))\<rparr>"
    using assms(2) by (auto simp: gained_def)
  have "(held s')(r := held s' r - 1) = (\<lambda>q. held s q + of_bool (q \<in> set rs))"
    using assms(3) by (auto simp: n fun_eq_iff)
  moreover have "0 < held s' r" using assms(1) by (simp add: n nonneg_def)
  ultimately have "snd (run_state (release r) s') = s\<lparr>calls := n, held := (\<lambda>q. held s q + of_bool (q \<in> set rs))\<rparr>"
    by (simp add: run_release) (simp add: n)
  then show ?thesis unfolding gained_def by blast
qed

lemma acquire_cases:
  assumes "run_state (acquire fails r) s = (ret, s')"
  obtains (ok) "ret = ok" "gained [r] s s'" "fails (calls s) = None" | (error) e where "ret = Inl e" "undone s s'"
proof (cases "fails (calls s)")
  case None
  have "(held s)(r := held s r + 1) = (\<lambda>q. held s q + of_bool (q \<in> set [r]))" by auto
  with None show ?thesis
    using assms by (intro ok) (auto simp: run_acquire gained_def)
next
  case (Some e)
  then show ?thesis
    using assms by (intro error [of e]) (auto simp: run_acquire)
qed

section \<open>All or nothing\<close>

text \<open>
  The contract of a function that sets something up: from a state that does not hold the
  given resources it either succeeds and holds them, or fails and has undone all it did. The
  function that takes it down gives back the resources and touches nothing else.
\<close>

definition fresh :: "resource list \<Rightarrow> 'z kern_scheme \<Rightarrow> bool" where
  "fresh rs s \<longleftrightarrow> nonneg s \<and> (\<forall>r \<in> set rs. held s r = 0)"

definition all_or_nothing :: "('z kern_scheme, unit res) state \<Rightarrow> resource list \<Rightarrow> bool" where
  "all_or_nothing m rs \<longleftrightarrow> (\<forall>s. fresh rs s \<longrightarrow>
     (case run_state m s of (ret, s') \<Rightarrow> if ret = ok then gained rs s s' else undone s s'))"

definition gives_back :: "('z kern_scheme, unit) state \<Rightarrow> resource list \<Rightarrow> bool" where
  "gives_back m rs \<longleftrightarrow> (\<forall>s s' qs. fresh rs s \<longrightarrow> gained (rs @ qs) s s' \<longrightarrow> set rs \<inter> set qs = {} \<longrightarrow>
     gained qs s (snd (run_state m s')))"

lemma gives_backD:
  "gives_back m rs \<Longrightarrow> fresh rs s \<Longrightarrow> gained (rs @ qs) s s' \<Longrightarrow> set rs \<inter> set qs = {} \<Longrightarrow>
   gained qs s (snd (run_state m s'))"
  unfolding gives_back_def by blast

lemma gives_back_all: "gives_back m rs \<Longrightarrow> fresh rs s \<Longrightarrow> gained rs s s' \<Longrightarrow> undone s (snd (run_state m s'))"
  using gives_backD [of m rs s "[]" s'] by (simp add: gained_nil)

lemma all_or_nothingD:
  "all_or_nothing m rs \<Longrightarrow> fresh rs s \<Longrightarrow> run_state m s = (ret, s') \<Longrightarrow> if ret = ok then gained rs s s' else undone s s'"
  unfolding all_or_nothing_def by fastforce

lemma gained_cong: "set rs = set qs \<Longrightarrow> gained rs s s' = gained qs s s'"
  by (simp add: gained_def)

lemma fresh_gained: "fresh qs s \<Longrightarrow> gained rs s s' \<Longrightarrow> set rs \<inter> set qs = {} \<Longrightarrow> fresh qs s'"
  using nonneg_kept(2) by (fastforce simp: fresh_def gained_def)

lemma fresh_undone: "fresh qs s \<Longrightarrow> undone s s' \<Longrightarrow> fresh qs s'"
  using nonneg_kept(1) by (fastforce simp: fresh_def undone_def)

lemma fresh_append [simp]: "fresh (rs @ qs) s \<longleftrightarrow> fresh rs s \<and> fresh qs s"
  by (auto simp: fresh_def)

lemma all_or_nothing_acquire: "all_or_nothing (acquire fails r) [r]"
  unfolding all_or_nothing_def by (auto elim!: acquire_cases)

lemma all_or_nothing_alloc: "all_or_nothing (alloc fails r) [r]"
  unfolding all_or_nothing_def alloc_def by (auto elim!: acquire_cases split: prod.splits)

lemma all_or_nothing_attempt: "all_or_nothing (attempt fails) []"
  unfolding all_or_nothing_def by (auto simp: run_attempt gained_nil)

lemma gives_back_release: "gives_back (release r) [r]"
  unfolding gives_back_def fresh_def by (auto intro!: run_release_gained)

lemma gives_back_release_if: "gives_back (release_if r :: ('z kern_scheme, unit) state) [r]"
  unfolding gives_back_def
proof (intro allI impI)
  fix s s' :: "'z kern_scheme" and qs
  assume a: "fresh [r] s" "gained ([r] @ qs) s s'" "set [r] \<inter> set qs = {}"
  then have "0 < held s' r" by (auto simp: gained_def fresh_def)
  then have "run_state (release_if r) s' = run_state (release r) s'"
    by (simp add: run_release run_release_if)
  then show "gained qs s (snd (run_state (release_if r) s'))"
    using gives_backD [OF gives_back_release a] by simp
qed

lemma gives_back_return: "gives_back (State_Monad.return ()) []"
  by (simp add: gives_back_def)

lemma gives_back_seq:
  fixes m n :: "('z kern_scheme, unit) state"
  assumes "gives_back m rs" "gives_back n qs" "set rs \<inter> set qs = {}"
  shows "gives_back (State_Monad.bind m (\<lambda>_. n)) (rs @ qs)"
  unfolding gives_back_def
proof (intro allI impI)
  fix s s' :: "'z kern_scheme" and ps
  assume a: "fresh (rs @ qs) s" "gained ((rs @ qs) @ ps) s s'" "set (rs @ qs) \<inter> set ps = {}"
  have "gained (qs @ ps) s (snd (run_state m s'))"
    using a assms(3) by (intro gives_backD [OF assms(1)]) auto
  then have "gained ps s (snd (run_state n (snd (run_state m s'))))"
    using a by (intro gives_backD [OF assms(2)]) auto
  then show "gained ps s (snd (run_state (State_Monad.bind m (\<lambda>_. n)) s'))"
    by (simp add: case_prod_beta)
qed

text \<open>A computation that takes down what is there like another one.\<close>

lemma gives_back_like:
  fixes m n :: "('z kern_scheme, unit) state"
  assumes "gives_back m rs" "\<And>s. (\<And>r. r \<in> set rs \<Longrightarrow> held s r = 1) \<Longrightarrow> run_state n s = run_state m s"
  shows "gives_back n rs"
  unfolding gives_back_def
proof (intro allI impI)
  fix s s' :: "'z kern_scheme" and qs
  assume a: "fresh rs s" "gained (rs @ qs) s s'" "set rs \<inter> set qs = {}"
  then have "held s' r = 1" if "r \<in> set rs" for r using that by (auto simp: fresh_def gained_def)
  then have "run_state n s' = run_state m s'" by (rule assms(2))
  then show "gained qs s (snd (run_state n s'))" using gives_backD [OF assms(1) a] by simp
qed

text \<open>One step after another, where a failure of the second undoes the first.\<close>

definition then_or_undo ::
  "('z kern_scheme, unit res) state \<Rightarrow> ('z kern_scheme, unit res) state \<Rightarrow> ('z kern_scheme, unit) state \<Rightarrow>
   ('z kern_scheme, unit res) state" where
  "then_or_undo m n u = do {
     ret \<leftarrow> m;
     if ret \<noteq> ok then State_Monad.return ret
     else do {
       ret \<leftarrow> n;
       if ret \<noteq> ok then do { u; State_Monad.return ret } else State_Monad.return ok } }"

lemma all_or_nothing_then:
  fixes m n :: "('z kern_scheme, unit res) state"
  assumes "all_or_nothing m rs" "all_or_nothing n qs" "gives_back u rs" "set rs \<inter> set qs = {}"
  shows "all_or_nothing (then_or_undo m n u) (rs @ qs)"
  unfolding all_or_nothing_def
proof (intro allI impI)
  fix s :: "'z kern_scheme"
  assume f: "fresh (rs @ qs) s"
  obtain r1 s1 where 1: "run_state m s = (r1, s1)" by (rule prod.exhaust)
  obtain r2 s2 where 2: "run_state n s1 = (r2, s2)" by (rule prod.exhaust)
  have m: "if r1 = ok then gained rs s s1 else undone s s1"
    using all_or_nothingD [OF assms(1) _ 1] f by simp
  show "case run_state (then_or_undo m n u) s of (ret, s') \<Rightarrow> if ret = ok then gained (rs @ qs) s s' else undone s s'"
  proof (cases "r1 = ok")
    case False
    then show ?thesis using m 1 by (simp add: then_or_undo_def)
  next
    case True
    then have g: "gained rs s s1" using m by simp
    have n: "if r2 = ok then gained qs s1 s2 else undone s1 s2"
      using all_or_nothingD [OF assms(2) fresh_gained [OF _ g assms(4)] 2] f by simp
    show ?thesis
    proof (cases "r2 = ok")
      case True
      then show ?thesis
        using \<open>r1 = ok\<close> g n 1 2 assms(4) by (auto simp: then_or_undo_def intro: gained_trans)
    next
      case False
      then have "gained rs s s2" using g n gained_undone by auto
      then have "undone s (snd (run_state u s2))"
        using gives_back_all [OF assms(3)] f by simp
      then show ?thesis
        using \<open>r1 = ok\<close> False 1 2 by (simp add: then_or_undo_def case_prod_beta)
    qed
  qed
qed

lemma all_or_nothing_cong: "set rs = set qs \<Longrightarrow> all_or_nothing m rs = all_or_nothing m qs"
  by (simp add: all_or_nothing_def gained_def fresh_def)

lemma gives_back_cong: "set rs = set qs \<Longrightarrow> gives_back m rs = gives_back m qs"
  by (simp add: gives_back_def gained_def fresh_def)

section \<open>A ledger as a set\<close>

text \<open>
  A state in which the resources of a set are held, each once. On such states the operations
  compute with the set.
\<close>

definition with_held :: "resource set \<Rightarrow> 'z kern_scheme \<Rightarrow> 'z kern_scheme" where
  "with_held S s = s\<lparr>held := (\<lambda>r. of_bool (r \<in> S))\<rparr>"

named_theorems held_runs \<open>operations on a ledger that is a set\<close>

lemma with_held_sel [simp]:
  "calls (with_held S s) = calls s" "held (with_held S s) r = of_bool (r \<in> S)" "misuse (with_held S s) = misuse s"
  by (simp_all add: with_held_def)

lemma with_held_upd [simp]:
  "(with_held S s)\<lparr>calls := n\<rparr> = with_held S (s\<lparr>calls := n\<rparr>)"
  "(with_held S s)\<lparr>misuse := b\<rparr> = with_held S (s\<lparr>misuse := b\<rparr>)"
  "(with_held S s)\<lparr>held := h\<rparr> = s\<lparr>held := h\<rparr>"
  by (simp_all add: with_held_def)

lemma clean_with_held: "clean s \<longleftrightarrow> s = with_held {} s \<and> \<not> misuse s"
proof
  assume "clean s"
  then show "s = with_held {} s \<and> \<not> misuse s" by (simp add: clean_def with_held_def)
next
  assume a: "s = with_held {} s \<and> \<not> misuse s"
  have "held (with_held {} s) = (\<lambda>_. 0)" by (simp add: with_held_def)
  with a show "clean s" by (simp add: clean_def)
qed

lemma clean_with_held_iff: "clean (with_held S s) \<longleftrightarrow> S = {} \<and> \<not> misuse s"
proof -
  have "held (with_held S s) = (\<lambda>_. 0) \<longleftrightarrow> S = {}" by (auto simp: fun_eq_iff)
  then show ?thesis by (simp add: clean_def)
qed

lemma run_attempt_held [held_runs]:
  "run_state (attempt fails) (with_held S s) =
   (case fails (calls s) of None \<Rightarrow> ok | Some e \<Rightarrow> Inl e, with_held S (s\<lparr>calls := Suc (calls s)\<rparr>))"
  by (simp add: run_attempt)

lemma held_insert:
  "r \<notin> S \<Longrightarrow> s\<lparr>held := (held (with_held S s))(r := held (with_held S s) r + 1)\<rparr> = with_held (insert r S) s"
  unfolding with_held_def by (rule arg_cong [where f = "\<lambda>h. s\<lparr>held := h\<rparr>"]) auto

lemma held_remove:
  "r \<in> S \<Longrightarrow> s\<lparr>held := (held (with_held S s))(r := held (with_held S s) r - 1)\<rparr> = with_held (S - {r}) s"
  unfolding with_held_def by (rule arg_cong [where f = "\<lambda>h. s\<lparr>held := h\<rparr>"]) auto

lemma run_acquire_held [held_runs]:
  assumes "r \<notin> S"
  shows "run_state (acquire fails r) (with_held S s) =
   (case fails (calls s) of
      None \<Rightarrow> (ok, with_held (insert r S) (s\<lparr>calls := Suc (calls s)\<rparr>))
    | Some e \<Rightarrow> (Inl e, with_held S (s\<lparr>calls := Suc (calls s)\<rparr>)))"
  using held_insert [OF assms, of "s\<lparr>calls := Suc (calls s)\<rparr>"] assms
  by (simp add: run_acquire with_held_def split: option.split)

lemma run_alloc_held [held_runs]:
  assumes "r \<notin> S"
  shows "run_state (alloc fails r) (with_held S s) =
   (case fails (calls s) of
      None \<Rightarrow> (ok, with_held (insert r S) (s\<lparr>calls := Suc (calls s)\<rparr>))
    | Some e \<Rightarrow> (Inl ENOMEM, with_held S (s\<lparr>calls := Suc (calls s)\<rparr>)))"
  using run_acquire_held [OF assms, of fails s] by (simp add: alloc_def split: option.split)

lemma run_release_held [held_runs]:
  "run_state (release r) (with_held S s) =
   ((), if r \<in> S then with_held (S - {r}) s else with_held S (s\<lparr>misuse := True\<rparr>))"
  using held_remove [of r S s] by (simp add: run_release del: with_held_sel(2)) simp

lemma run_release_if_held [held_runs]:
  "run_state (release_if r) (with_held S s) = ((), with_held (S - {r}) s)"
  using held_remove [of r S s] by (simp add: run_release_if del: with_held_sel(2)) simp

lemma gained_with_held:
  assumes "gained rs (with_held S s) s'" "set rs \<inter> S = {}"
  obtains n where "s' = with_held (S \<union> set rs) (s\<lparr>calls := n\<rparr>)"
proof -
  from assms(1) obtain n where
    n: "s' = (with_held S s)\<lparr>calls := n, held := (\<lambda>r. held (with_held S s) r + of_bool (r \<in> set rs))\<rparr>" by (rule gainedE)
  have "(\<lambda>r. held (with_held S s) r + of_bool (r \<in> set rs)) = (\<lambda>r. of_bool (r \<in> S \<union> set rs))"
    using assms(2) by (auto simp: fun_eq_iff)
  then have "s' = with_held (S \<union> set rs) (s\<lparr>calls := n\<rparr>)"
    using n by (simp add: with_held_def)
  then show thesis by (rule that)
qed

lemma undone_with_held:
  assumes "undone (with_held S s) s'"
  obtains n where "s' = with_held S (s\<lparr>calls := n\<rparr>)"
  using assms by (auto simp: undone_def)

lemma fresh_with_held: "fresh rs (with_held S s) \<longleftrightarrow> set rs \<inter> S = {}"
  by (auto simp: fresh_def nonneg_def)

lemma run_hold_held [held_runs]:
  "r \<notin> S \<Longrightarrow> run_state (hold r) (with_held S s) = ((), with_held (insert r S) s)"
  using held_insert [of r S s] by (simp add: run_hold)

text \<open>The contracts, on such states.\<close>

lemma gives_back_held:
  assumes "gives_back m rs" "set rs \<inter> S = {}"
  shows "\<exists>n. snd (run_state m (with_held (S \<union> set rs) s)) = with_held S (s\<lparr>calls := n\<rparr>)"
proof -
  have "gained rs (with_held S s) (with_held (S \<union> set rs) s)"
    using assms(2) by (intro gainedI) (auto simp: with_held_def)
  then have "undone (with_held S s) (snd (run_state m (with_held (S \<union> set rs) s)))"
    using assms by (intro gives_back_all) (auto simp: fresh_with_held)
  then show ?thesis by (auto elim: undone_with_held)
qed

section \<open>Many of a kind\<close>

text \<open>The units of a list are set up one after the other; when one fails, those before are taken down.\<close>

fun cleanup_all :: "(nat \<Rightarrow> ('s, unit) state) \<Rightarrow> nat list \<Rightarrow> ('s, unit) state" where
  "cleanup_all cleanup [] = State_Monad.return ()"
| "cleanup_all cleanup (i # is) = do { cleanup i; cleanup_all cleanup is }"

fun register_loop ::
  "(nat \<Rightarrow> ('s, unit res) state) \<Rightarrow> (nat \<Rightarrow> ('s, unit) state) \<Rightarrow> (nat \<Rightarrow> 's \<Rightarrow> 's) \<Rightarrow> nat list \<Rightarrow> nat list \<Rightarrow>
   ('s, unit res) state" where
  "register_loop init cleanup note up [] = State_Monad.return ok"
| "register_loop init cleanup note up (i # is) = do {
     ret \<leftarrow> init i;
     if ret \<noteq> ok then do { cleanup_all cleanup up; State_Monad.return ret }
     else do { kmod (note i); register_loop init cleanup note (i # up) is } }"

text \<open>
  The contract of a kind of units: one is set up or not, can be taken down, and shares no
  resource with another. What the driver notes of a unit that is up is not part of the ledger.
\<close>

locale unit_family =
  fixes init :: "nat \<Rightarrow> ('z kern_scheme, unit res) state" and cleanup :: "nat \<Rightarrow> ('z kern_scheme, unit) state"
    and note_up :: "nat \<Rightarrow> 'z kern_scheme \<Rightarrow> 'z kern_scheme" and res_of :: "nat \<Rightarrow> resource list"
  assumes init_one: "all_or_nothing (init i) (res_of i)"
    and cleanup_one: "gives_back (cleanup i) (res_of i)"
    and apart: "i \<noteq> j \<Longrightarrow> set (res_of i) \<inter> set (res_of j) = {}"
    and note_gained: "gained rs s s' \<Longrightarrow> gained rs (note_up i s) (note_up i s')"
    and note_held: "held (note_up i s) = held s"
begin

definition res_all :: "nat list \<Rightarrow> resource list" where
  "res_all is = concat (map res_of is)"

lemma res_all_simps [simp]:
  "res_all [] = []" "res_all (i # is) = res_of i @ res_all is" "res_all (is @ js) = res_all is @ res_all js"
  by (simp_all add: res_all_def)

lemma note_fresh: "fresh rs (note_up i s) = fresh rs s"
  by (simp add: fresh_def nonneg_def note_held)

lemma fold_note_fresh: "fresh rs (fold note_up js s) = fresh rs s"
  by (induction js arbitrary: s) (simp_all add: note_fresh)

lemma res_all_apart: "i \<notin> set is \<Longrightarrow> set (res_of i) \<inter> set (res_all is) = {}"
proof (induction "is")
  case (Cons j "is")
  then show ?case using apart [of i j] by auto
qed simp

lemma cleanup_gives_back: "distinct is \<Longrightarrow> gives_back (cleanup_all cleanup is) (res_all is)"
proof (induction "is")
  case (Cons i "is")
  then have "gives_back (cleanup_all cleanup is) (res_all is)" "i \<notin> set is" by auto
  from gives_back_seq [OF cleanup_one this(1) res_all_apart [OF this(2)]] show ?case by simp
qed (simp add: gives_back_return)

lemma loop_run:
  assumes "distinct (up @ is)" "fresh (res_all (up @ is)) s0" "gained (res_all up) s0 s"
    and "run_state (register_loop init cleanup note_up up is) s = (ret, s')"
  shows "(ret = ok \<longrightarrow> gained (res_all (up @ is)) (fold note_up is s0) s') \<and>
    (ret \<noteq> ok \<longrightarrow> (\<exists>js rest. is = js @ rest \<and> undone (fold note_up js s0) s'))"
  using assms
proof (induction "is" arbitrary: up s s0)
  case Nil
  then show ?case by auto
next
  case (Cons i "is")
  obtain r s1 where 1: "run_state (init i) s = (r, s1)" by (rule prod.exhaust)
  have ap: "set (res_all up) \<inter> set (res_of i) = {}"
    using res_all_apart [of i up] Cons.prems(1) by auto
  have "fresh (res_of i) s"
    using fresh_gained [OF _ Cons.prems(3) ap] Cons.prems(2) by simp
  note one = all_or_nothingD [OF init_one this 1]
  show ?case
  proof (cases "r = ok")
    case True
    then have "gained (res_all up @ res_of i) s0 s1"
      using one gained_trans [OF Cons.prems(3) _ ap] by simp
    then have "gained (res_all (i # up)) s0 s1"
      by (subst (asm) gained_cong [of _ "res_all (i # up)"]) auto
    then have g: "gained (res_all (i # up)) (note_up i s0) (note_up i s1)" by (rule note_gained)
    have d: "distinct ((i # up) @ is)" and f: "fresh (res_all ((i # up) @ is)) (note_up i s0)"
      and r: "run_state (register_loop init cleanup note_up (i # up) is) (note_up i s1) = (ret, s')"
      using Cons.prems(1,2,4) True 1 by (auto simp: note_fresh)
    have "gained (res_all ((i # up) @ is)) t s' = gained (res_all (up @ i # is)) t s'" for t
      by (rule gained_cong) auto
    moreover have "\<exists>js' rest'. i # is = js' @ rest' \<and> undone (fold note_up js' s0) s'"
      if "is = js @ rest" "undone (fold note_up js (note_up i s0)) s'" for js rest
      using that by (intro exI [of _ "i # js"] exI [of _ rest]) simp
    ultimately show ?thesis
      using Cons.IH [OF d f g r] by (auto simp only: fold.simps o_apply)
  next
    case False
    then have "gained (res_all up) s0 s1" using one Cons.prems(3) gained_undone by auto
    then have "undone s0 (snd (run_state (cleanup_all cleanup up) s1))"
      using Cons.prems(1,2) by (intro gives_back_all [OF cleanup_gives_back]) auto
    then have "undone (fold note_up [] s0) s'" "ret \<noteq> ok"
      using Cons.prems(4) False 1 by (auto simp: case_prod_beta)
    moreover have "i # is = [] @ (i # is)" by simp
    ultimately show ?thesis by blast
  qed
qed

text \<open>All units of a kind: when one cannot be set up, none is.\<close>

lemma register_run:
  assumes "distinct is" "fresh (res_all is) s" "run_state (register_loop init cleanup note_up [] is) s = (ret, s')"
  shows "(ret = ok \<longrightarrow> gained (res_all is) (fold note_up is s) s') \<and>
    (ret \<noteq> ok \<longrightarrow> (\<exists>js rest. is = js @ rest \<and> undone (fold note_up js s) s'))"
  using loop_run [of "[]" "is" s s ret s'] assms by (simp add: gained_nil)

end

end
