(* ===== verification/Isys_Register.thy ===== *)
theory Isys_Register
  imports Kernel_Ledger Isys_Isr Isys_Formats
begin

text \<open>
  How the driver of the input system registers itself (\<^verbatim>\<open>kernel/ipu4/ipu6-isys.c\<close>, with \<^verbatim>\<open>ipu6-isys-video.c\<close>,
  \<^verbatim>\<open>ipu6-isys-csi2.c\<close>, \<^verbatim>\<open>ipu6-isys-subdev.c\<close>): the video nodes, the sub-devices of the receivers, the links
  between them, the notifier for the sensors, and around them the probe and the removal of the driver.
\<close>

text \<open>
  Beside the ledger: the interrupt bits of the registered receivers, the port and lanes of each
  connection that was added, and the lanes of the receivers that a sensor is bound to.
\<close>

record isys_reg = kern +
  isr_bits :: u32
  conns :: "(nat \<times> nat) list"
  port_nlanes :: "nat \<Rightarrow> nat"

section \<open>Video nodes\<close>

text \<open>Unregistering a node also releases its queue; a node that is not registered is left alone.\<close>

definition vb2_video_unregister_device :: "nat \<Rightarrow> ('z isys_reg_scheme, unit) state" where
  "vb2_video_unregister_device i = do {
     registered \<leftarrow> kget (\<lambda>s. held s (VideoNode i) > 0);
     if registered then do { release (VideoNode i); release (VbQueue i) } else State_Monad.return () }"

definition ipu6_isys_video_init :: "script \<Rightarrow> nat \<Rightarrow> ('z isys_reg_scheme, unit res) state" where
  "ipu6_isys_video_init fails i = do {
     ret \<leftarrow> acquire fails (VbQueue i);
     if ret \<noteq> ok then State_Monad.return ret
     else do {
       ret \<leftarrow> acquire fails (NodeEntity i);
       if ret \<noteq> ok then do { release (VbQueue i); State_Monad.return ret }
       else do {
         ret \<leftarrow> acquire fails (VideoNode i);
         if ret \<noteq> ok then do {
           vb2_video_unregister_device i;
           release (NodeEntity i);
           release (VbQueue i);
           State_Monad.return ret }
         else State_Monad.return ok } } }"

definition ipu6_isys_video_cleanup :: "nat \<Rightarrow> ('z isys_reg_scheme, unit) state" where
  "ipu6_isys_video_cleanup i = do { vb2_video_unregister_device i; release (NodeEntity i) }"

definition isys_register_video_devices :: "script \<Rightarrow> ('z isys_reg_scheme, unit res) state" where
  "isys_register_video_devices fails =
     register_loop (ipu6_isys_video_init fails) ipu6_isys_video_cleanup (\<lambda>_ s. s) [] [0..<NR_OF_VIDEO_DEVICE]"

definition isys_unregister_video_devices :: "('z isys_reg_scheme, unit) state" where
  "isys_unregister_video_devices = cleanup_all ipu6_isys_video_cleanup [0..<NR_OF_VIDEO_DEVICE]"

section \<open>Sub-devices of the receivers\<close>

text \<open>The pads are allocated with the device; there are no controls.\<close>

definition ipu6_isys_subdev_init :: "script \<Rightarrow> nat \<Rightarrow> ('z isys_reg_scheme, unit res) state" where
  "ipu6_isys_subdev_init fails i = do {
     pad \<leftarrow> attempt fails;
     if pad \<noteq> ok then State_Monad.return (Inl ENOMEM) else acquire fails (SubdevEntity i) }"

definition ipu6_isys_csi2_cleanup :: "nat \<Rightarrow> ('z isys_reg_scheme, unit) state" where
  "ipu6_isys_csi2_cleanup i = do {
     isys \<leftarrow> kget (\<lambda>s. held s (Csi2Set i) > 0);
     if \<not> isys then State_Monad.return ()
     else do {
       release_if (SubdevReg i);
       release_if (SubdevState i);
       release_if (SubdevEntity i);
       release (Csi2Set i) } }"

definition ipu6_isys_csi2_init :: "script \<Rightarrow> nat \<Rightarrow> ('z isys_reg_scheme, unit res) state" where
  "ipu6_isys_csi2_init fails i = do {
     hold (Csi2Set i);
     ret \<leftarrow> ipu6_isys_subdev_init fails i;
     if ret \<noteq> ok then do { ipu6_isys_csi2_cleanup i; State_Monad.return ret }
     else do {
       ret \<leftarrow> acquire fails (SubdevState i);
       if ret \<noteq> ok then do { ipu6_isys_csi2_cleanup i; State_Monad.return ret }
       else do {
         ret \<leftarrow> acquire fails (SubdevReg i);
         if ret \<noteq> ok then do { ipu6_isys_csi2_cleanup i; State_Monad.return ret }
         else State_Monad.return ok } } }"

definition note_irq :: "nat \<Rightarrow> 'z isys_reg_scheme \<Rightarrow> 'z isys_reg_scheme" where
  "note_irq i s = s\<lparr>isr_bits := isr_bits s OR IPU4_ISYS_UNISPART_IRQ_CSI2 i\<rparr>"

definition isys_csi2_register_subdevices :: "script \<Rightarrow> nat \<Rightarrow> ('z isys_reg_scheme, unit res) state" where
  "isys_csi2_register_subdevices fails np = do {
     cfg \<leftarrow> attempt fails;
     if cfg \<noteq> ok then State_Monad.return (Inl ENOMEM)
     else register_loop (ipu6_isys_csi2_init fails) ipu6_isys_csi2_cleanup note_irq [] [0..<np] }"

definition isys_csi2_unregister_subdevices :: "nat \<Rightarrow> ('z isys_reg_scheme, unit) state" where
  "isys_csi2_unregister_subdevices np = cleanup_all ipu6_isys_csi2_cleanup [0..<np]"

section \<open>Links\<close>

definition NR_OF_CSI2_PADS :: nat where [ipu4_consts]: "NR_OF_CSI2_PADS = 5"

fun create_links :: "script \<Rightarrow> (nat \<times> nat \<times> nat) list \<Rightarrow> ('z isys_reg_scheme, unit res) state" where
  "create_links fails [] = State_Monad.return ok"
| "create_links fails (l # ls) = do {
     ret \<leftarrow> attempt fails;
     if ret \<noteq> ok then State_Monad.return ret else create_links fails ls }"

text \<open>Every source pad of every receiver to every video node.\<close>

definition media_links :: "nat \<Rightarrow> (nat \<times> nat \<times> nat) list" where
  "media_links np = [(i, k, j). i \<leftarrow> [0..<np], j \<leftarrow> [0..<NR_OF_VIDEO_DEVICE], k \<leftarrow> [CSI2_PAD_SRC..<NR_OF_CSI2_PADS]]"

definition isys_csi2_create_media_links :: "script \<Rightarrow> nat \<Rightarrow> ('z isys_reg_scheme, unit res) state" where
  "isys_csi2_create_media_links fails np = create_links fails (media_links np)"

section \<open>The sensors\<close>

definition ISYS_MAX_PORTS :: nat where [ipu4_consts]: "ISYS_MAX_PORTS = 8"

text \<open>
  The endpoints of the graph: \<open>eps i\<close> are the lanes of the endpoint of port \<open>i\<close>, if there is one. The
  reference to an endpoint is held while it is parsed and its connection is added.
\<close>

fun notifier_ports :: "script \<Rightarrow> (nat \<Rightarrow> nat option) \<Rightarrow> nat list \<Rightarrow> ('z isys_reg_scheme, unit res) state" where
  "notifier_ports fails eps [] = State_Monad.return ok"
| "notifier_ports fails eps (i # is) = (case eps i of
     None \<Rightarrow> notifier_ports fails eps is
   | Some nlanes \<Rightarrow> do {
       hold (Endpoint i);
       ret \<leftarrow> attempt fails;
       if ret \<noteq> ok then do { release (Endpoint i); State_Monad.return ret }
       else do {
         ret \<leftarrow> acquire fails (Connection i);
         if ret \<noteq> ok then do { release (Endpoint i); State_Monad.return ret }
         else do {
           kmod (\<lambda>s. s\<lparr>conns := conns s @ [(i, nlanes)]\<rparr>);
           release (Endpoint i);
           notifier_ports fails eps is } } })"

definition v4l2_async_nf_cleanup :: "('z isys_reg_scheme, unit) state" where
  "v4l2_async_nf_cleanup = do {
     cleanup_all (\<lambda>i. release_if (Connection i)) [0..<ISYS_MAX_PORTS];
     kmod (\<lambda>s. s\<lparr>conns := []\<rparr>) }"

definition isys_notifier_init :: "script \<Rightarrow> (nat \<Rightarrow> nat option) \<Rightarrow> ('z isys_reg_scheme, unit res) state" where
  "isys_notifier_init fails eps = do {
     kmod (\<lambda>s. s\<lparr>conns := []\<rparr>);
     ret \<leftarrow> notifier_ports fails eps [0..<ISYS_MAX_PORTS];
     if ret \<noteq> ok then State_Monad.return ret
     else do {
       ret \<leftarrow> acquire fails Notifier;
       (if ret \<noteq> ok then v4l2_async_nf_cleanup else State_Monad.return ());
       State_Monad.return ret } }"

definition isys_notifier_cleanup :: "('z isys_reg_scheme, unit) state" where
  "isys_notifier_cleanup = do { release Notifier; v4l2_async_nf_cleanup }"

text \<open>
  A sensor was found for the connection of a port: it is linked by its first source pad, given
  the flags of its pads. When that fails, it is unregistered.
\<close>

definition isys_complete_ext_device_registration ::
  "script \<Rightarrow> bool list \<Rightarrow> nat \<times> nat \<Rightarrow> ('z isys_reg_scheme, unit res) state" where
  "isys_complete_ext_device_registration fails source_pads cfg =
     (if True \<notin> set source_pads then do { release SensorReg; State_Monad.return (Inl ENOENT) }
      else do {
        ret \<leftarrow> attempt fails;
        if ret \<noteq> ok then do { release SensorReg; State_Monad.return ret }
        else do {
          kmod (\<lambda>s. s\<lparr>port_nlanes := (port_nlanes s)(fst cfg := snd cfg)\<rparr>);
          State_Monad.return ok } })"

definition isys_notifier_bound ::
  "script \<Rightarrow> nat \<Rightarrow> bool list \<Rightarrow> nat \<times> nat \<Rightarrow> ('z isys_reg_scheme, unit res) state" where
  "isys_notifier_bound fails np source_pads cfg =
     (if fst cfg \<ge> np then State_Monad.return (Inl EINVAL)
      else do {
        ret \<leftarrow> isys_complete_ext_device_registration fails source_pads cfg;
        if ret \<noteq> ok then State_Monad.return ret else attempt fails })"

section \<open>Everything together\<close>

definition out_media_device_unregister :: "('z isys_reg_scheme, unit) state" where
  "out_media_device_unregister = do { release_if MediaReg; release MediaDev }"

definition out_v4l2_device_unregister :: "('z isys_reg_scheme, unit) state" where
  "out_v4l2_device_unregister = do { release V4l2Dev; out_media_device_unregister }"

definition out_isys_unregister_video_device :: "('z isys_reg_scheme, unit) state" where
  "out_isys_unregister_video_device = do { isys_unregister_video_devices; out_v4l2_device_unregister }"

definition out_isys_unregister_subdevices :: "nat \<Rightarrow> ('z isys_reg_scheme, unit) state" where
  "out_isys_unregister_subdevices np = do { isys_csi2_unregister_subdevices np; out_isys_unregister_video_device }"

definition isys_register_devices ::
  "script \<Rightarrow> nat \<Rightarrow> (nat \<Rightarrow> nat option) \<Rightarrow> ('z isys_reg_scheme, unit res) state" where
  "isys_register_devices fails np eps = do {
     hold MediaDev;
     ret \<leftarrow> acquire fails MediaReg;
     if ret \<noteq> ok then do { out_media_device_unregister; State_Monad.return ret } else do {
     ret \<leftarrow> acquire fails V4l2Dev;
     if ret \<noteq> ok then do { out_media_device_unregister; State_Monad.return ret } else do {
     ret \<leftarrow> isys_register_video_devices fails;
     if ret \<noteq> ok then do { out_v4l2_device_unregister; State_Monad.return ret } else do {
     ret \<leftarrow> isys_csi2_register_subdevices fails np;
     if ret \<noteq> ok then do { out_isys_unregister_video_device; State_Monad.return ret } else do {
     ret \<leftarrow> isys_csi2_create_media_links fails np;
     if ret \<noteq> ok then do { out_isys_unregister_subdevices np; State_Monad.return ret } else do {
     ret \<leftarrow> isys_notifier_init fails eps;
     if ret \<noteq> ok then do { out_isys_unregister_subdevices np; State_Monad.return ret }
     else State_Monad.return ok } } } } } }"

definition isys_unregister_devices :: "nat \<Rightarrow> ('z isys_reg_scheme, unit) state" where
  "isys_unregister_devices np = do {
     isys_unregister_video_devices;
     isys_csi2_unregister_subdevices np;
     release V4l2Dev;
     release_if MediaReg;
     release MediaDev }"

section \<open>Probe and removal\<close>

definition unless_secure :: "bool \<Rightarrow> ('s, unit) state \<Rightarrow> ('s, unit) state" where
  "unless_secure secure m = (if secure then State_Monad.return () else m)"

text \<open>The labels of the error paths, from the last to the first.\<close>

definition out_release_firmware :: "('z isys_reg_scheme, unit) state" where
  "out_release_firmware = release (MmuOn Isys)"

definition out_remove_shared_buffer :: "bool \<Rightarrow> ('z isys_reg_scheme, unit) state" where
  "out_remove_shared_buffer secure = do { unless_secure secure (release (FwImage Isys)); out_release_firmware }"

definition out_remove_pkg_dir_shared_buffer :: "bool \<Rightarrow> ('z isys_reg_scheme, unit) state" where
  "out_remove_pkg_dir_shared_buffer secure = do {
     release QosRequest;
     unless_secure secure (release (PkgDir Isys));
     out_remove_shared_buffer secure }"

definition out_free_fw_msg_bufs :: "bool \<Rightarrow> ('z isys_reg_scheme, unit) state" where
  "out_free_fw_msg_bufs secure = do { release MsgBufs; out_remove_pkg_dir_shared_buffer secure }"

text \<open>The second half of the probe: the buffers of the messages and the registration.\<close>

definition probe_register ::
  "script \<Rightarrow> bool \<Rightarrow> nat \<Rightarrow> (nat \<Rightarrow> nat option) \<Rightarrow> ('z isys_reg_scheme, unit res) state" where
  "probe_register fails secure np eps = do {
     hold QosRequest;
     ret \<leftarrow> alloc fails MsgBufs;
     if ret \<noteq> ok then do { out_remove_pkg_dir_shared_buffer secure; State_Monad.return ret } else do {
     ret \<leftarrow> isys_register_devices fails np eps;
     if ret \<noteq> ok then do { out_free_fw_msg_bufs secure; State_Monad.return ret }
     else do { release (MmuOn Isys); State_Monad.return ok } } }"

definition isys_probe ::
  "script \<Rightarrow> bool \<Rightarrow> bool \<Rightarrow> nat \<Rightarrow> (nat \<Rightarrow> nat option) \<Rightarrow> ('z isys_reg_scheme, unit res) state" where
  "isys_probe fails bus_ready secure np eps =
     (if \<not> bus_ready then State_Monad.return (Inl EPROBE_DEFER)
      else do {
        ret \<leftarrow> attempt fails;
        if ret \<noteq> ok then State_Monad.return (Inl ENOMEM) else do {
        kmod (\<lambda>s. s\<lparr>isr_bits := 0, conns := [], port_nlanes := (\<lambda>_. 0)\<rparr>);
        ret \<leftarrow> attempt fails;
        if ret \<noteq> ok then State_Monad.return (Inl ENOMEM) else do {
        ret \<leftarrow> acquire fails (MmuOn Isys);
        if ret \<noteq> ok then State_Monad.return ret
        else if secure then probe_register fails secure np eps
        else do {
          ret \<leftarrow> acquire fails (FwImage Isys);
          if ret \<noteq> ok then do { out_release_firmware; State_Monad.return ret } else do {
          ret \<leftarrow> acquire fails (PkgDir Isys);
          if ret \<noteq> ok then do { out_remove_shared_buffer secure; State_Monad.return ret }
          else probe_register fails secure np eps } } } } })"

definition isys_remove :: "bool \<Rightarrow> nat \<Rightarrow> ('z isys_reg_scheme, unit) state" where
  "isys_remove secure np = do {
     release MsgBufs;
     isys_unregister_devices np;
     isys_notifier_cleanup;
     release QosRequest;
     unless_secure secure (do { release (PkgDir Isys); release (FwImage Isys) }) }"

end
