(* ===== verification/Isys_Register_Props.thy ===== *)
theory Isys_Register_Props
  imports Isys_Register
begin

text \<open>
  The registration of the input system is all or nothing, but for the connections to sensors,
  and the removal gives back what the probe took.
\<close>

lemma with_held_reg [simp]:
  "isr_bits (with_held S s) = isr_bits s" "conns (with_held S s) = conns s"
  "(with_held S s)\<lparr>isr_bits := b\<rparr> = with_held S (s\<lparr>isr_bits := b\<rparr>)"
  "(with_held S s)\<lparr>conns := c\<rparr> = with_held S (s\<lparr>conns := c\<rparr>)"
  "(with_held S s)\<lparr>port_nlanes := l\<rparr> = with_held S (s\<lparr>port_nlanes := l\<rparr>)"
  by (simp_all add: with_held_def)

section \<open>One node and one receiver\<close>

abbreviation node_res :: "nat \<Rightarrow> resource list" where
  "node_res i \<equiv> [VbQueue i, NodeEntity i, VideoNode i]"

abbreviation port_res :: "nat \<Rightarrow> resource list" where
  "port_res i \<equiv> [Csi2Set i, SubdevEntity i, SubdevState i, SubdevReg i]"

lemma video_init_one: "all_or_nothing (ipu6_isys_video_init fails i) (node_res i)"
  unfolding all_or_nothing_def ipu6_isys_video_init_def vb2_video_unregister_device_def
  by (auto simp: ledger_runs ledger_upds fresh_def split: option.splits)

lemma video_cleanup_one: "gives_back (ipu6_isys_video_cleanup i) (node_res i)"
proof -
  let ?m = "do { release (VideoNode i); release (VbQueue i); release (NodeEntity i) }"
  have "gives_back ?m ([VideoNode i] @ [VbQueue i] @ [NodeEntity i])"
    by (intro gives_back_seq gives_back_release) simp_all
  then have "gives_back ?m (node_res i)"
    by (rule gives_back_cong [THEN iffD1, rotated]) auto
  then show ?thesis
    by (rule gives_back_like) (simp add: ipu6_isys_video_cleanup_def vb2_video_unregister_device_def case_prod_beta)
qed

lemma csi2_cleanup_one: "gives_back (ipu6_isys_csi2_cleanup i) (port_res i)"
proof -
  let ?m = "do { release_if (SubdevReg i); release_if (SubdevState i); release_if (SubdevEntity i); release (Csi2Set i) }"
  have "gives_back ?m ([SubdevReg i] @ [SubdevState i] @ [SubdevEntity i] @ [Csi2Set i])"
    by (intro gives_back_seq gives_back_release gives_back_release_if) simp_all
  then have "gives_back ?m (port_res i)"
    by (rule gives_back_cong [THEN iffD1, rotated]) auto
  then show ?thesis
    by (rule gives_back_like) (simp add: ipu6_isys_csi2_cleanup_def)
qed

lemma csi2_init_one: "all_or_nothing (ipu6_isys_csi2_init fails i) (port_res i)"
  unfolding all_or_nothing_def ipu6_isys_csi2_init_def ipu6_isys_subdev_init_def ipu6_isys_csi2_cleanup_def
  by (auto simp: ledger_runs ledger_upds fresh_def split: option.splits)

lemma note_irq_gained: "gained rs s s' \<Longrightarrow> gained rs (note_irq i s) (note_irq i s')"
  by (auto simp: gained_def note_irq_def intro!: exI [where x = "calls s'"])

interpretation nodes: unit_family "ipu6_isys_video_init fails" ipu6_isys_video_cleanup "\<lambda>_ s. s" node_res for fails
  by unfold_locales (auto intro: video_init_one video_cleanup_one)

interpretation ports: unit_family "ipu6_isys_csi2_init fails" ipu6_isys_csi2_cleanup note_irq port_res for fails
proof
  show "held (note_irq i s) = held s" for i and s :: "'a isys_reg_scheme" by (simp add: note_irq_def)
qed (auto intro: csi2_init_one csi2_cleanup_one note_irq_gained)

section \<open>All nodes, all receivers, all links\<close>

definition node_set :: "resource set" where
  "node_set = (\<Union>i \<in> {..<NR_OF_VIDEO_DEVICE}. set (node_res i))"

definition port_set :: "nat \<Rightarrow> resource set" where
  "port_set np = (\<Union>i \<in> {..<np}. set (port_res i))"

lemma res_all_sets:
  "set (nodes.res_all [0..<NR_OF_VIDEO_DEVICE]) = node_set" "set (ports.res_all [0..<np]) = port_set np"
  by (auto simp: nodes.res_all_def ports.res_all_def node_set_def port_set_def)

lemma fold_note_irq_held: "\<exists>b. fold note_irq js (with_held S s) = with_held S (s\<lparr>isr_bits := b\<rparr>)"
proof (induction js arbitrary: s)
  case Nil
  show ?case by (rule exI [of _ "isr_bits s"]) simp
next
  case (Cons j js)
  have "note_irq j (with_held S s) = with_held S (s\<lparr>isr_bits := isr_bits s OR IPU4_ISYS_UNISPART_IRQ_CSI2 j\<rparr>)"
    by (simp add: note_irq_def)
  then show ?case using Cons.IH [of "s\<lparr>isr_bits := isr_bits s OR IPU4_ISYS_UNISPART_IRQ_CSI2 j\<rparr>"] by simp
qed

lemma fold_same: "fold (\<lambda>_ s. s) js s = s"
  by (induction js) simp_all

lemma register_videos_run:
  assumes "node_set \<inter> S = {}" "run_state (isys_register_video_devices fails) (with_held S s) = (ret, s')"
  obtains n where "s' = with_held (if ret = ok then S \<union> node_set else S) (s\<lparr>calls := n\<rparr>)"
proof (cases "ret = ok")
  case True
  then have "gained (nodes.res_all [0..<NR_OF_VIDEO_DEVICE]) (with_held S s) s'"
    using nodes.register_run [OF _ _ assms(2) [unfolded isys_register_video_devices_def]] assms(1)
    by (simp add: fresh_with_held res_all_sets fold_same)
  then show thesis using that True assms(1) by (auto elim!: gained_with_held simp: res_all_sets)
next
  case False
  then have "undone (with_held S s) s'"
    using nodes.register_run [OF _ _ assms(2) [unfolded isys_register_video_devices_def]] assms(1)
    by (auto simp: fresh_with_held res_all_sets fold_same)
  then show thesis using that False by (auto elim!: undone_with_held)
qed

lemma register_subdevs_run:
  assumes "port_set np \<inter> S = {}" "run_state (isys_csi2_register_subdevices fails np) (with_held S s) = (ret, s')"
  obtains n b where "s' = with_held (if ret = ok then S \<union> port_set np else S) (s\<lparr>isr_bits := b, calls := n\<rparr>)"
proof (cases "fails (calls s)")
  case (Some e)
  then have "ret \<noteq> ok" "s' = with_held S (s\<lparr>isr_bits := isr_bits s, calls := Suc (calls s)\<rparr>)"
    using assms(2) by (auto simp: isys_csi2_register_subdevices_def held_runs)
  then show thesis using that [of "Suc (calls s)" "isr_bits s"] by simp
next
  case None
  let ?t = "s\<lparr>calls := Suc (calls s)\<rparr>"
  have r: "run_state (register_loop (ipu6_isys_csi2_init fails) ipu6_isys_csi2_cleanup note_irq [] [0..<np]) (with_held S ?t) = (ret, s')"
    using assms(2) None by (simp add: isys_csi2_register_subdevices_def held_runs)
  note reg = ports.register_run [OF _ _ r]
  show thesis
  proof (cases "ret = ok")
    case True
    obtain b where b: "fold note_irq [0..<np] (with_held S ?t) = with_held S (?t\<lparr>isr_bits := b\<rparr>)"
      using fold_note_irq_held by blast
    have "gained (ports.res_all [0..<np]) (with_held S (?t\<lparr>isr_bits := b\<rparr>)) s'"
      using reg True assms(1) b by (simp add: fresh_with_held res_all_sets)
    then obtain n where "s' = with_held (S \<union> port_set np) (?t\<lparr>isr_bits := b, calls := n\<rparr>)"
      using assms(1) by (auto elim!: gained_with_held simp: res_all_sets)
    then have "s' = with_held (S \<union> port_set np) (s\<lparr>isr_bits := b, calls := n\<rparr>)" by (simp add: with_held_def)
    then show thesis using that True by simp
  next
    case False
    then obtain js where "undone (fold note_irq js (with_held S ?t)) s'"
      using reg assms(1) by (auto simp: fresh_with_held res_all_sets)
    then obtain b where "undone (with_held S (?t\<lparr>isr_bits := b\<rparr>)) s'" using fold_note_irq_held by metis
    then obtain n where "s' = with_held S (?t\<lparr>isr_bits := b, calls := n\<rparr>)" by (rule undone_with_held)
    then have "s' = with_held S (s\<lparr>isr_bits := b, calls := n\<rparr>)" by (simp add: with_held_def)
    then show thesis using that False by simp
  qed
qed

lemma create_links_run:
  "run_state (create_links fails ls) (with_held S s) = (ret, s') \<Longrightarrow> \<exists>n. s' = with_held S (s\<lparr>calls := n\<rparr>)"
proof (induction ls arbitrary: s)
  case Nil
  then show ?case by (auto intro!: exI [of _ "calls s"])
next
  case (Cons l ls)
  then show ?case by (fastforce simp: held_runs split: option.splits if_splits)
qed

lemma unregister_run:
  "node_set \<inter> S = {} \<Longrightarrow> \<exists>n. snd (run_state isys_unregister_video_devices (with_held (S \<union> node_set) s)) = with_held S (s\<lparr>calls := n\<rparr>)"
  "port_set np \<inter> S = {} \<Longrightarrow>
   \<exists>n. snd (run_state (isys_csi2_unregister_subdevices np) (with_held (S \<union> port_set np) s)) = with_held S (s\<lparr>calls := n\<rparr>)"
  using gives_back_held [OF nodes.cleanup_gives_back [of "[0..<NR_OF_VIDEO_DEVICE]"], of S s]
    gives_back_held [OF ports.cleanup_gives_back [of "[0..<np]"], of S s]
  unfolding isys_unregister_video_devices_def isys_csi2_unregister_subdevices_def res_all_sets by auto

section \<open>The notifier\<close>

definition conn_set :: "(nat \<Rightarrow> nat option) \<Rightarrow> nat list \<Rightarrow> resource set" where
  "conn_set eps is = Connection ` {i \<in> set is. eps i \<noteq> None}"

lemma conn_set_simps [simp]:
  "conn_set eps [] = {}" "conn_set eps (i # is) = (if eps i = None then {} else {Connection i}) \<union> conn_set eps is"
  by (auto simp: conn_set_def)

lemma notifier_ports_run:
  assumes "distinct is" "\<And>i. i \<in> set is \<Longrightarrow> Endpoint i \<notin> S \<and> Connection i \<notin> S"
    and "run_state (notifier_ports fails eps is) (with_held S s) = (ret, s')"
  shows "\<exists>n c js rest. is = js @ rest \<and> s' = with_held (S \<union> conn_set eps js) (s\<lparr>conns := c, calls := n\<rparr>) \<and>
    (if ret = ok then rest = [] else \<exists>i \<in> set rest. eps i \<noteq> None)"
  using assms
proof (induction "is" arbitrary: S s)
  case Nil
  then show ?case by (auto intro!: exI [of _ "calls s"] exI [of _ "conns s"])
next
  case (Cons i "is")
  have extend: ?case
    if "\<exists>n c js rest. is = js @ rest \<and> s' = with_held (S \<union> conn_set eps (i # js)) (s\<lparr>conns := c, calls := n\<rparr>) \<and>
      (if ret = ok then rest = [] else \<exists>i \<in> set rest. eps i \<noteq> None)"
  proof -
    from that obtain n c js rest where "is = js @ rest" "s' = with_held (S \<union> conn_set eps (i # js)) (s\<lparr>conns := c, calls := n\<rparr>)"
      "if ret = ok then rest = [] else \<exists>i \<in> set rest. eps i \<noteq> None" by blast
    then show ?thesis by (intro exI [of _ n] exI [of _ c] exI [of _ "i # js"] exI [of _ rest]) auto
  qed
  show ?case
  proof (cases "eps i")
    case None
    then show ?thesis
      using Cons.IH [of S s] Cons.prems by (intro extend) simp
  next
    case (Some l)
    have "Endpoint i \<notin> S" "Connection i \<notin> S" using Cons.prems(2) by auto
    note sim = this Some Cons.prems(3)
    have stop: ?thesis if "ret \<noteq> ok" "s' = with_held S (s\<lparr>conns := conns s, calls := n\<rparr>)" for n
      using that Some by (intro exI [of _ n] exI [of _ "conns s"] exI [of _ "[]"] exI [of _ "i # is"]) simp
    show ?thesis
    proof (cases "fails (calls s) = None \<and> fails (Suc (calls s)) = None")
      case True
      let ?t = "s\<lparr>calls := Suc (Suc (calls s)), conns := conns s @ [(i, l)]\<rparr>"
      have r: "run_state (notifier_ports fails eps is) (with_held (insert (Connection i) S) ?t) = (ret, s')"
        using sim True
        by (simp add: held_runs insert_Diff_if)
      have "\<exists>n c js rest. is = js @ rest \<and>
          s' = with_held (insert (Connection i) S \<union> conn_set eps js) (?t\<lparr>conns := c, calls := n\<rparr>) \<and>
          (if ret = ok then rest = [] else \<exists>i \<in> set rest. eps i \<noteq> None)"
        using Cons.prems(1,2) by (intro Cons.IH [OF _ _ r]) auto
      moreover have "?t\<lparr>conns := c, calls := n\<rparr> = s\<lparr>conns := c, calls := n\<rparr>" for c n by simp
      ultimately show ?thesis using Some by (intro extend) (simp only: conn_set_simps option.simps if_False Un_insert_left Un_insert_right Un_empty_left)
    next
      case False
      then have "ret \<noteq> ok \<and> (s' = with_held S (s\<lparr>calls := Suc (calls s)\<rparr>) \<or> s' = with_held S (s\<lparr>calls := Suc (Suc (calls s))\<rparr>))"
        using sim by (auto simp: held_runs insert_Diff_if split: option.splits)
      then show ?thesis using stop by auto
    qed
  qed
qed

definition all_ports :: "nat list" where
  "all_ports = [0..<ISYS_MAX_PORTS]"

lemma nf_cleanup_run:
  "snd (run_state v4l2_async_nf_cleanup (with_held S s)) = with_held (S - Connection ` set all_ports) (s\<lparr>conns := []\<rparr>)"
proof -
  have "snd (run_state (cleanup_all (\<lambda>i. release_if (Connection i)) is) (with_held S s)) = with_held (S - Connection ` set is) s" for "is" S
  proof (induction "is" arbitrary: S)
    case (Cons i "is")
    have "S - {Connection i} - Connection ` set is = S - Connection ` set (i # is)" by auto
    then show ?case using Cons.IH by (simp add: held_runs)
  qed simp
  then show ?thesis by (simp add: v4l2_async_nf_cleanup_def all_ports_def case_prod_beta)
qed

text \<open>What a failed notifier leaves: connections of some ports, which are none when only one port has an endpoint.\<close>

definition leftover :: "(nat \<Rightarrow> nat option) \<Rightarrow> resource set \<Rightarrow> bool" where
  "leftover eps C \<longleftrightarrow> C \<subseteq> conn_set eps all_ports \<and>
     (C \<noteq> {} \<longrightarrow> (\<exists>i j. i < j \<and> j < ISYS_MAX_PORTS \<and> eps i \<noteq> None \<and> eps j \<noteq> None))"

lemma leftover_prefix:
  assumes "all_ports = js @ rest" "\<exists>i \<in> set rest. eps i \<noteq> None"
  shows "leftover eps (conn_set eps js)"
proof -
  have "i < j" if "i \<in> set js" "j \<in> set rest" for i j
    using sorted_wrt_upt [of 0 ISYS_MAX_PORTS] that unfolding all_ports_def [symmetric] assms(1) sorted_wrt_append by blast
  moreover have "j < ISYS_MAX_PORTS" if "j \<in> set rest" for j
    using that assms(1) unfolding all_ports_def by (metis Un_iff atLeastLessThan_iff set_append set_upt)
  moreover have "set js \<subseteq> set all_ports" unfolding assms(1) by auto
  ultimately show ?thesis
    using assms(2) unfolding leftover_def conn_set_def by blast
qed

lemma notifier_init_run:
  assumes "\<And>i. Endpoint i \<notin> S \<and> Connection i \<notin> S" "Notifier \<notin> S"
    and "run_state (isys_notifier_init fails eps) (with_held S s) = (ret, s')"
  shows "\<exists>C n c. s' = with_held (S \<union> C) (s\<lparr>conns := c, calls := n\<rparr>) \<and>
    (if ret = ok then C = insert Notifier (conn_set eps all_ports) else leftover eps C)"
proof -
  obtain r1 s1 where 1: "run_state (notifier_ports fails eps all_ports) (with_held S (s\<lparr>conns := []\<rparr>)) = (r1, s1)" by (rule prod.exhaust)
  have "distinct all_ports" by (simp add: all_ports_def)
  from notifier_ports_run [OF this _ 1] assms(1) obtain n c js rest where js: "all_ports = js @ rest"
    and s1: "s1 = with_held (S \<union> conn_set eps js) (s\<lparr>conns := c, calls := n\<rparr>)"
    and r: "if r1 = ok then rest = [] else \<exists>i \<in> set rest. eps i \<noteq> None" by auto
  show ?thesis
  proof (cases "r1 = ok")
    case False
    then have "ret = r1" "s' = s1" using assms(3) 1 by (auto simp: isys_notifier_init_def all_ports_def)
    then show ?thesis using leftover_prefix [OF js] r s1 False by auto
  next
    case True
    then have js: "js = all_ports" using js r by simp
    let ?U = "S \<union> conn_set eps all_ports"
    have N: "Notifier \<notin> ?U" "?U - Connection ` set all_ports = S" using assms(1,2) by (auto simp: conn_set_def)
    show ?thesis
    proof (cases "fails n")
      case None
      then have "ret = ok" "s' = with_held (insert Notifier ?U) (s\<lparr>conns := c, calls := Suc n\<rparr>)"
        using assms(3) 1 True s1 js N by (auto simp: isys_notifier_init_def all_ports_def [symmetric] held_runs)
      then show ?thesis
        by (intro exI [of _ "insert Notifier (conn_set eps all_ports)"] exI [of _ "Suc n"] exI [of _ c]) simp
    next
      case (Some e)
      then have "ret = Inl e" "s' = with_held S (s\<lparr>calls := Suc n, conns := []\<rparr>)"
        using assms(3) 1 True s1 js N nf_cleanup_run [of ?U "s\<lparr>conns := c, calls := Suc n\<rparr>"]
        by (auto simp: isys_notifier_init_def all_ports_def [symmetric] held_runs case_prod_beta)
      then show ?thesis
        by (intro exI [of _ "{}"] exI [of _ "Suc n"] exI [of _ "[]"]) (simp add: leftover_def with_held_def)
    qed
  qed
qed

section \<open>Registering all devices\<close>

abbreviation media_set :: "resource set" where
  "media_set \<equiv> {MediaDev, MediaReg, V4l2Dev}"

definition reg_set :: "nat \<Rightarrow> resource set" where
  "reg_set np = media_set \<union> node_set \<union> port_set np"

lemma sets_apart:
  "node_set \<inter> port_set np = {}" "node_set \<inter> media_set = {}" "port_set np \<inter> media_set = {}"
  by (auto simp: node_set_def port_set_def)

lemma out_v4l2_run:
  "media_set \<inter> T = {} \<Longrightarrow> snd (run_state out_v4l2_device_unregister (with_held (T \<union> media_set) s)) = with_held T s"
  by (simp add: out_v4l2_device_unregister_def out_media_device_unregister_def held_runs insert_Diff_if case_prod_beta)

lemma out_video_run:
  assumes "(media_set \<union> node_set) \<inter> T = {}"
  shows "\<exists>n. snd (run_state out_isys_unregister_video_device (with_held (T \<union> media_set \<union> node_set) s)) = with_held T (s\<lparr>calls := n\<rparr>)"
proof -
  have "node_set \<inter> (T \<union> media_set) = {}" using assms sets_apart(2) by auto
  from unregister_run(1) [OF this, of s] obtain n where
    "snd (run_state isys_unregister_video_devices (with_held (T \<union> media_set \<union> node_set) s)) = with_held (T \<union> media_set) (s\<lparr>calls := n\<rparr>)"
    by blast
  then show ?thesis
    using out_v4l2_run [of T "s\<lparr>calls := n\<rparr>"] assms
    by (auto simp: out_isys_unregister_video_device_def case_prod_beta Int_Un_distrib2)
qed

lemma out_subdevs_run:
  assumes "reg_set np \<inter> T = {}"
  shows "\<exists>n. snd (run_state (out_isys_unregister_subdevices np) (with_held (T \<union> reg_set np) s)) = with_held T (s\<lparr>calls := n\<rparr>)"
proof -
  have e: "T \<union> reg_set np = T \<union> media_set \<union> node_set \<union> port_set np" by (auto simp: reg_set_def)
  have "port_set np \<inter> (T \<union> media_set \<union> node_set) = {}" using assms sets_apart by (auto simp: reg_set_def)
  from unregister_run(2) [OF this, of s] obtain n where
    n: "snd (run_state (isys_csi2_unregister_subdevices np) (with_held (T \<union> reg_set np) s)) = with_held (T \<union> media_set \<union> node_set) (s\<lparr>calls := n\<rparr>)"
    unfolding e by blast
  have "(media_set \<union> node_set) \<inter> T = {}" using assms by (auto simp: reg_set_def)
  from out_video_run [OF this, of "s\<lparr>calls := n\<rparr>"] n show ?thesis
    by (auto simp: out_isys_unregister_subdevices_def case_prod_beta)
qed

text \<open>The registration from its end: receivers and links, before them the nodes, before them the media device.\<close>

definition register_ports :: "script \<Rightarrow> nat \<Rightarrow> ('z isys_reg_scheme, unit res) state" where
  "register_ports fails np = do {
     ret \<leftarrow> isys_csi2_register_subdevices fails np;
     if ret \<noteq> ok then do { out_isys_unregister_video_device; State_Monad.return ret } else do {
     ret \<leftarrow> isys_csi2_create_media_links fails np;
     if ret \<noteq> ok then do { out_isys_unregister_subdevices np; State_Monad.return ret }
     else State_Monad.return ok } }"

definition register_core :: "script \<Rightarrow> nat \<Rightarrow> ('z isys_reg_scheme, unit res) state" where
  "register_core fails np = do {
     ret \<leftarrow> isys_register_video_devices fails;
     if ret \<noteq> ok then do { out_v4l2_device_unregister; State_Monad.return ret } else register_ports fails np }"

lemma register_ports_run:
  assumes S: "reg_set np \<inter> S = {}" and run: "run_state (register_ports fails np) (with_held (S \<union> media_set \<union> node_set) s) = (ret, s')"
  shows "\<exists>b n. s' = with_held (if ret = ok then S \<union> reg_set np else S) (s\<lparr>isr_bits := b, calls := n\<rparr>)"
proof -
  let ?M = "S \<union> media_set \<union> node_set"
  have D: "port_set np \<inter> ?M = {}" "(media_set \<union> node_set) \<inter> S = {}"
    using S sets_apart by (auto simp: reg_set_def)
  have e: "?M \<union> port_set np = S \<union> reg_set np" by (auto simp: reg_set_def)
  obtain r4 s4 where 4: "run_state (isys_csi2_register_subdevices fails np) (with_held ?M s) = (r4, s4)" by (rule prod.exhaust)
  obtain n4 b where s4: "s4 = with_held (if r4 = ok then ?M \<union> port_set np else ?M) (s\<lparr>isr_bits := b, calls := n4\<rparr>)"
    by (rule register_subdevs_run [OF D(1) 4])
  let ?t = "s\<lparr>isr_bits := b, calls := n4\<rparr>"
  show ?thesis
  proof (cases "r4 = ok")
    case False
    then have "ret \<noteq> ok" "s' = snd (run_state out_isys_unregister_video_device (with_held ?M ?t))"
      using run 4 s4 by (auto simp: register_ports_def case_prod_beta)
    then show ?thesis using out_video_run [OF D(2), of ?t] by auto
  next
    case True
    obtain r5 s5 where 5: "run_state (isys_csi2_create_media_links fails np) (with_held (S \<union> reg_set np) ?t) = (r5, s5)" by (rule prod.exhaust)
    from create_links_run [OF this [unfolded isys_csi2_create_media_links_def]] obtain n5
      where s5: "s5 = with_held (S \<union> reg_set np) (?t\<lparr>calls := n5\<rparr>)" by blast
    have r: "run_state (register_ports fails np) (with_held ?M s) =
        (r5, if r5 = ok then s5 else snd (run_state (out_isys_unregister_subdevices np) s5))"
      using 4 5 True s4 e by (auto simp: register_ports_def case_prod_beta)
    then show ?thesis
      using run s5 out_subdevs_run [OF S, of "?t\<lparr>calls := n5\<rparr>"] by (cases "r5 = ok") auto
  qed
qed

lemma register_core_run:
  assumes S: "reg_set np \<inter> S = {}" and run: "run_state (register_core fails np) (with_held (S \<union> media_set) s) = (ret, s')"
  shows "\<exists>b n. s' = with_held (if ret = ok then S \<union> reg_set np else S) (s\<lparr>isr_bits := b, calls := n\<rparr>)"
proof -
  have D: "node_set \<inter> (S \<union> media_set) = {}" "media_set \<inter> S = {}"
    using S sets_apart by (auto simp: reg_set_def)
  obtain r3 s3 where 3: "run_state (isys_register_video_devices fails) (with_held (S \<union> media_set) s) = (r3, s3)" by (rule prod.exhaust)
  obtain n3 where s3: "s3 = with_held (if r3 = ok then S \<union> media_set \<union> node_set else S \<union> media_set) (s\<lparr>calls := n3\<rparr>)"
    by (rule register_videos_run [OF D(1) 3])
  show ?thesis
  proof (cases "r3 = ok")
    case False
    then have "ret \<noteq> ok" "s' = with_held S (s\<lparr>isr_bits := isr_bits s, calls := n3\<rparr>)"
      using run 3 s3 out_v4l2_run [OF D(2), of "s\<lparr>calls := n3\<rparr>"] by (auto simp: register_core_def case_prod_beta)
    then show ?thesis by (intro exI [of _ "isr_bits s"] exI [of _ n3]) simp
  next
    case True
    then have "run_state (register_ports fails np) (with_held (S \<union> media_set \<union> node_set) (s\<lparr>calls := n3\<rparr>)) = (ret, s')"
      using run 3 s3 by (simp add: register_core_def)
    from register_ports_run [OF S this] show ?thesis by auto
  qed
qed

lemma register_devices_halves:
  assumes "media_set \<inter> S = {}" "fails (calls s) = None" "fails (Suc (calls s)) = None"
  shows "run_state (isys_register_devices fails np eps) (with_held S s) =
    (case run_state (register_core fails np) (with_held (S \<union> media_set) (s\<lparr>calls := Suc (Suc (calls s))\<rparr>)) of (ret, s1) \<Rightarrow>
     if ret \<noteq> ok then (ret, s1)
     else case run_state (isys_notifier_init fails eps) s1 of (ret, s2) \<Rightarrow>
       (ret, if ret = ok then s2 else snd (run_state (out_isys_unregister_subdevices np) s2)))"
proof -
  have "insert V4l2Dev (insert MediaReg (insert MediaDev S)) = S \<union> media_set" by auto
  then show ?thesis
    using assms by (auto simp: isys_register_devices_def register_core_def register_ports_def held_runs split: prod.splits)
qed

definition sensor_slots :: "resource set" where
  "sensor_slots = insert Notifier (range Endpoint \<union> range Connection)"

text \<open>The second half: the notifier is set up with all devices registered, or they are taken back.\<close>

lemma notifier_or_undo:
  assumes S: "(reg_set np \<union> sensor_slots) \<inter> S = {}"
    and run: "run_state (isys_notifier_init fails eps) (with_held (S \<union> reg_set np) u) = (ret, s2)"
    and s': "s' = (if ret = ok then s2 else snd (run_state (out_isys_unregister_subdevices np) s2))"
  shows "\<exists>C t. s' = with_held (S \<union> C) t \<and> misuse t = misuse u \<and>
    (if ret = ok then C = reg_set np \<union> insert Notifier (conn_set eps all_ports) else leftover eps C)"
proof -
  have "Endpoint i \<notin> S \<union> reg_set np \<and> Connection i \<notin> S \<union> reg_set np" "Notifier \<notin> S \<union> reg_set np" for i
    using S by (auto simp: sensor_slots_def reg_set_def node_set_def port_set_def)
  from notifier_init_run [OF this run] obtain C m c where s2: "s2 = with_held (S \<union> reg_set np \<union> C) (u\<lparr>conns := c, calls := m\<rparr>)"
    and C: "if ret = ok then C = insert Notifier (conn_set eps all_ports) else leftover eps C" by blast
  show ?thesis
  proof (cases "ret = ok")
    case True
    then show ?thesis using s' s2 C by (intro exI [of _ "reg_set np \<union> C"] exI [of _ "u\<lparr>conns := c, calls := m\<rparr>"]) (simp add: Un_assoc)
  next
    case False
    then have l: "leftover eps C" using C by simp
    then have "C \<subseteq> sensor_slots" by (auto simp: leftover_def conn_set_def sensor_slots_def)
    then have "reg_set np \<inter> (S \<union> C) = {}" using S by (auto simp: sensor_slots_def reg_set_def node_set_def port_set_def)
    moreover have "S \<union> reg_set np \<union> C = S \<union> C \<union> reg_set np" by auto
    ultimately obtain k where "s' = with_held (S \<union> C) (u\<lparr>conns := c, calls := m, calls := k\<rparr>)"
      using out_subdevs_run [of np "S \<union> C" "u\<lparr>conns := c, calls := m\<rparr>"] s' s2 False by auto
    then show ?thesis using l False by (intro exI [of _ C] exI [of _ "u\<lparr>conns := c, calls := m, calls := k\<rparr>"]) simp
  qed
qed

lemma register_devices_run:
  assumes S: "(reg_set np \<union> sensor_slots) \<inter> S = {}"
    and run: "run_state (isys_register_devices fails np eps) (with_held S s) = (ret, s')"
  shows "\<exists>C t. s' = with_held (S \<union> C) t \<and> misuse t = misuse s \<and>
    (if ret = ok then C = reg_set np \<union> insert Notifier (conn_set eps all_ports) else leftover eps C)"
proof -
  have D: "MediaDev \<notin> S" "MediaReg \<notin> S" "V4l2Dev \<notin> S" "media_set \<inter> S = {}" "reg_set np \<inter> S = {}"
    using S by (auto simp: reg_set_def)
  show ?thesis
  proof (cases "fails (calls s) = None \<and> fails (Suc (calls s)) = None")
    case False
    then have "ret \<noteq> ok \<and> (\<exists>n. s' = with_held S (s\<lparr>calls := n\<rparr>))"
      using run D by (auto simp: isys_register_devices_def out_media_device_unregister_def held_runs insert_Diff_if split: option.splits)
    then show ?thesis by (intro exI [of _ "{}"]) (auto simp: leftover_def)
  next
    case True
    let ?t = "s\<lparr>calls := Suc (Suc (calls s))\<rparr>"
    obtain r1 s1 where 1: "run_state (register_core fails np) (with_held (S \<union> media_set) ?t) = (r1, s1)" by (rule prod.exhaust)
    from register_core_run [OF D(5) 1] obtain b n where s1: "s1 = with_held (if r1 = ok then S \<union> reg_set np else S) (?t\<lparr>isr_bits := b, calls := n\<rparr>)"
      by blast
    have h: "run_state (isys_register_devices fails np eps) (with_held S s) = (if r1 \<noteq> ok then (r1, s1)
       else case run_state (isys_notifier_init fails eps) s1 of (ret, s2) \<Rightarrow>
         (ret, if ret = ok then s2 else snd (run_state (out_isys_unregister_subdevices np) s2)))"
      using register_devices_halves [OF D(4), of fails s np eps] True 1 by simp
    show ?thesis
    proof (cases "r1 = ok")
      case False
      then show ?thesis using run h s1 by (intro exI [of _ "{}"]) (auto simp: leftover_def)
    next
      case ok1: True
      let ?u = "?t\<lparr>isr_bits := b, calls := n\<rparr>"
      obtain r2 s2 where 2: "run_state (isys_notifier_init fails eps) (with_held (S \<union> reg_set np) ?u) = (r2, s2)" by (rule prod.exhaust)
      have r: "ret = r2" "s' = (if r2 = ok then s2 else snd (run_state (out_isys_unregister_subdevices np) s2))"
        using run h ok1 s1 2 by auto
      from notifier_or_undo [OF S 2 r(2)] r(1) show ?thesis by simp
    qed
  qed
qed

section \<open>Probe and removal\<close>

definition fw_set :: "bool \<Rightarrow> resource set" where
  "fw_set secure = (if secure then {} else {FwImage Isys, PkgDir Isys})"

definition isys_set :: "bool \<Rightarrow> nat \<Rightarrow> (nat \<Rightarrow> nat option) \<Rightarrow> resource set" where
  "isys_set secure np eps = fw_set secure \<union> {QosRequest, MsgBufs} \<union> (reg_set np \<union> insert Notifier (conn_set eps all_ports))"

lemma out_free_run:
  assumes "({MsgBufs, QosRequest, MmuOn Isys} \<union> fw_set secure) \<inter> C = {}"
  shows "snd (run_state (out_free_fw_msg_bufs secure) (with_held ({MsgBufs, QosRequest, MmuOn Isys} \<union> fw_set secure \<union> C) s)) = with_held C s"
  using assms
  by (auto simp: out_free_fw_msg_bufs_def out_remove_pkg_dir_shared_buffer_def out_remove_shared_buffer_def out_release_firmware_def
      unless_secure_def fw_set_def held_runs insert_Diff_if case_prod_beta)

lemma probe_register_run:
  assumes run: "run_state (probe_register fails secure np eps) (with_held (insert (MmuOn Isys) (fw_set secure)) s) = (ret, s')"
  shows "\<exists>C t. s' = with_held C t \<and> misuse t = misuse s \<and> (if ret = ok then C = isys_set secure np eps else leftover eps C)"
proof (cases "fails (calls s)")
  case (Some e)
  then have "ret \<noteq> ok" "s' = with_held {} (s\<lparr>calls := Suc (calls s)\<rparr>)"
    using run by (auto simp: probe_register_def out_remove_pkg_dir_shared_buffer_def out_remove_shared_buffer_def out_release_firmware_def
        unless_secure_def fw_set_def held_runs insert_Diff_if split: if_splits)
  then show ?thesis by (intro exI [of _ "{}"] exI [of _ "s\<lparr>calls := Suc (calls s)\<rparr>"]) (simp add: leftover_def)
next
  case None
  let ?t = "s\<lparr>calls := Suc (calls s)\<rparr>" and ?B = "{MsgBufs, QosRequest, MmuOn Isys} \<union> fw_set secure"
  have B: "insert MsgBufs (insert QosRequest (insert (MmuOn Isys) (fw_set secure))) = ?B"
    "QosRequest \<notin> fw_set secure" "MsgBufs \<notin> fw_set secure" "(reg_set np \<union> sensor_slots) \<inter> ?B = {}"
    by (auto simp: fw_set_def reg_set_def sensor_slots_def node_set_def port_set_def)
  obtain r1 s1 where 1: "run_state (isys_register_devices fails np eps) (with_held ?B ?t) = (r1, s1)" by (rule prod.exhaust)
  from register_devices_run [OF B(4) 1] obtain C u where s1: "s1 = with_held (?B \<union> C) u" and u: "misuse u = misuse s"
    and C: "if r1 = ok then C = reg_set np \<union> insert Notifier (conn_set eps all_ports) else leftover eps C" by auto
  have r: "ret = r1" "s' = (if r1 = ok then snd (run_state (release (MmuOn Isys)) s1) else snd (run_state (out_free_fw_msg_bufs secure) s1))"
  proof -
    have "run_state (probe_register fails secure np eps) (with_held (insert (MmuOn Isys) (fw_set secure)) s) =
        (case run_state (isys_register_devices fails np eps) (with_held ?B ?t) of (r, s1) \<Rightarrow>
          (r, if r = ok then snd (run_state (release (MmuOn Isys)) s1) else snd (run_state (out_free_fw_msg_bufs secure) s1)))"
      using None B(2,3) by (simp add: probe_register_def held_runs split: prod.split)
    with run 1 show "ret = r1" "s' = (if r1 = ok then snd (run_state (release (MmuOn Isys)) s1) else snd (run_state (out_free_fw_msg_bufs secure) s1))"
      by auto
  qed
  show ?thesis
  proof (cases "r1 = ok")
    case True
    then have "MmuOn Isys \<notin> C" using C by (auto simp: reg_set_def node_set_def port_set_def conn_set_def)
    then have "s' = with_held (isys_set secure np eps) u"
      using r s1 C True by (auto simp: held_runs isys_set_def fw_set_def intro!: arg_cong2 [where f = with_held])
    then show ?thesis using u True r by auto
  next
    case False
    then have "C \<subseteq> sensor_slots" "leftover eps C" using C by (auto simp: leftover_def conn_set_def sensor_slots_def)
    moreover from this(1) have "?B \<inter> C = {}" using B(4) by blast
    ultimately show ?thesis using r s1 u False out_free_run [of secure C u] by auto
  qed
qed

lemma isys_remove_run:
  "\<exists>t. snd (run_state (isys_remove secure np) (with_held (isys_set secure np eps) s)) = with_held {} t \<and> misuse t = misuse s"
proof -
  let ?Q = "fw_set secure \<union> {QosRequest}" and ?N = "insert Notifier (conn_set eps all_ports)"
  have A: "isys_set secure np eps - {MsgBufs} = (?Q \<union> ?N) \<union> media_set \<union> port_set np \<union> node_set" "MsgBufs \<in> isys_set secure np eps"
    by (auto simp: isys_set_def fw_set_def reg_set_def node_set_def port_set_def conn_set_def)
  have D: "node_set \<inter> ((?Q \<union> ?N) \<union> media_set \<union> port_set np) = {}" "port_set np \<inter> ((?Q \<union> ?N) \<union> media_set) = {}"
    "media_set \<inter> (?Q \<union> ?N) = {}"
    by (auto simp: fw_set_def node_set_def port_set_def conn_set_def)
  obtain n1 where 1: "snd (run_state isys_unregister_video_devices (with_held ((?Q \<union> ?N) \<union> media_set \<union> port_set np \<union> node_set) s)) =
      with_held ((?Q \<union> ?N) \<union> media_set \<union> port_set np) (s\<lparr>calls := n1\<rparr>)" using unregister_run(1) [OF D(1)] by blast
  obtain n2 where 2: "snd (run_state (isys_csi2_unregister_subdevices np) (with_held ((?Q \<union> ?N) \<union> media_set \<union> port_set np) (s\<lparr>calls := n1\<rparr>))) =
      with_held ((?Q \<union> ?N) \<union> media_set) (s\<lparr>calls := n1, calls := n2\<rparr>)" using unregister_run(2) [OF D(2)] by blast
  have 3: "snd (run_state (do { release V4l2Dev; release_if MediaReg; release MediaDev }) (with_held ((?Q \<union> ?N) \<union> media_set) t)) = with_held (?Q \<union> ?N) t" for t :: "'a isys_reg_scheme"
    using out_v4l2_run [OF D(3), of t] by (simp add: out_v4l2_device_unregister_def out_media_device_unregister_def)
  have 4: "snd (run_state isys_notifier_cleanup (with_held (?Q \<union> ?N) t)) = with_held ?Q (t\<lparr>conns := []\<rparr>)" for t :: "'a isys_reg_scheme"
  proof -
    have "?Q \<union> ?N - {Notifier} - Connection ` set all_ports = ?Q" by (auto simp: fw_set_def conn_set_def)
    then show ?thesis by (simp add: isys_notifier_cleanup_def held_runs nf_cleanup_run)
  qed
  have 5: "snd (run_state (do { release QosRequest; unless_secure secure (do { release (PkgDir Isys); release (FwImage Isys) }) }) (with_held ?Q t)) = with_held {} t" for t :: "'a isys_reg_scheme"
    by (simp add: unless_secure_def fw_set_def held_runs insert_Diff_if)
  have "snd (run_state (isys_remove secure np) (with_held (isys_set secure np eps) s)) = with_held {} (s\<lparr>calls := n1, calls := n2, conns := []\<rparr>)"
    using 1 2 3 4 5 A
    by (simp add: isys_remove_def isys_unregister_devices_def run_release_held case_prod_beta)
  then show ?thesis by auto
qed

lemma isys_probe_run:
  fixes s :: "'z isys_reg_scheme"
  assumes c: "clean s" and run: "run_state (isys_probe fails ready secure np eps) s = (ret, s')"
  shows "\<exists>C t. s' = with_held C t \<and> \<not> misuse t \<and> (if ret = ok then C = isys_set secure np eps else leftover eps C)"
proof -
  have w: "run_state (isys_probe fails ready secure np eps) (with_held {} s) = (ret, s')" "\<not> misuse s"
    using c run clean_with_held [of s] by auto
  define m :: "('z isys_reg_scheme, unit res) state" where "m = probe_register fails secure np eps"
  have "(\<exists>t. ret \<noteq> ok \<and> s' = with_held {} t \<and> misuse t = misuse s) \<or>
    (\<exists>t. run_state m (with_held (insert (MmuOn Isys) (fw_set secure)) t) = (ret, s') \<and> misuse t = misuse s)"
    using w(1) unfolding isys_probe_def m_def [symmetric]
    by (auto simp: out_release_firmware_def out_remove_shared_buffer_def unless_secure_def fw_set_def held_runs insert_Diff_if
        insert_commute split: option.splits if_splits)
  then show ?thesis
  proof (elim disjE exE conjE)
    fix t assume "ret \<noteq> ok" "s' = with_held {} t" "misuse t = misuse s"
    then show ?thesis using w(2) by (intro exI [of _ "{}"] exI [of _ t]) (simp add: leftover_def)
  next
    fix t assume "run_state m (with_held (insert (MmuOn Isys) (fw_set secure)) t) = (ret, s')" "misuse t = misuse s"
    then show ?thesis using probe_register_run [of fails secure np eps t ret s'] w(2) by (auto simp: m_def)
  qed
qed

text \<open>C34: The probe of the input system driver, whatever call of the kernel fails and with which error: on success it holds what it
  registered, and the removal gives back all of it. After a failure nothing is held but connections to sensors, and those only when
  the graph has endpoints on two ports or more: a later endpoint that cannot be added leaves the earlier ones behind.\<close>
theorem isys_probe_all_or_connections:
  assumes "clean s" "run_state (isys_probe fails ready secure np eps) s = (ret, s')"
  shows "if ret = ok
    then held s' = (\<lambda>r. of_bool (r \<in> isys_set secure np eps)) \<and> clean (snd (run_state (isys_remove secure np) s'))
    else \<not> misuse s' \<and> (\<exists>C. leftover eps C \<and> held s' = (\<lambda>r. of_bool (r \<in> C)))"
proof -
  obtain C t where s': "s' = with_held C t" "\<not> misuse t" "if ret = ok then C = isys_set secure np eps else leftover eps C"
    using isys_probe_run [OF assms] by blast
  have h: "held (with_held C t) = (\<lambda>r. of_bool (r \<in> C))" by (simp add: with_held_def)
  show ?thesis
  proof (cases "ret = ok")
    case True
    obtain u where "snd (run_state (isys_remove secure np) s') = with_held {} u" "misuse u = misuse t"
      using isys_remove_run [of secure np eps t] s' True by auto
    then show ?thesis using s' True h by (simp add: clean_with_held_iff)
  next
    case False
    then show ?thesis using s' h by auto
  qed
qed

text \<open>When no call fails, the probe succeeds.\<close>

lemma register_loop_ok:
  "(\<And>i s. fst (run_state (init i) s) = ok) \<Longrightarrow> fst (run_state (register_loop init cleanup note_up up is) s) = ok"
  by (induction "is" arbitrary: up s) (simp_all add: case_prod_beta)

lemma create_links_ok: "fst (run_state (create_links (\<lambda>_. None) ls) s) = ok"
  by (induction ls arbitrary: s) (simp_all add: run_attempt)

lemma notifier_ports_ok: "fst (run_state (notifier_ports (\<lambda>_. None) eps is) s) = ok"
  by (induction "is" arbitrary: s) (simp_all add: ledger_runs split: option.split)

lemma isys_starts: "fst (run_state (isys_probe (\<lambda>_. None) True secure np eps) s) = ok"
proof -
  have v: "fst (run_state (isys_register_video_devices (\<lambda>_. None)) t) = ok" for t :: "'a isys_reg_scheme"
    unfolding isys_register_video_devices_def by (rule register_loop_ok) (simp add: ipu6_isys_video_init_def run_acquire)
  have c: "fst (run_state (isys_csi2_register_subdevices (\<lambda>_. None) np) t) = ok" for t :: "'a isys_reg_scheme"
    unfolding isys_csi2_register_subdevices_def
    by (simp add: run_attempt, rule register_loop_ok) (simp add: ipu6_isys_csi2_init_def ipu6_isys_subdev_init_def ledger_runs)
  have n: "fst (run_state (isys_notifier_init (\<lambda>_. None) eps) t) = ok" for t :: "'a isys_reg_scheme"
    by (simp add: isys_notifier_init_def notifier_ports_ok case_prod_beta run_acquire)
  have l: "fst (run_state (isys_csi2_create_media_links (\<lambda>_. None) np) t) = ok" for t :: "'a isys_reg_scheme"
    by (simp add: isys_csi2_create_media_links_def create_links_ok)
  have r: "fst (run_state (isys_register_devices (\<lambda>_. None) np eps) t) = ok" for t :: "'a isys_reg_scheme"
    by (simp add: isys_register_devices_def ledger_runs case_prod_beta v c n l)
  have "fst (run_state (probe_register (\<lambda>_. None) secure np eps) t) = ok" for t :: "'a isys_reg_scheme"
    by (simp add: probe_register_def run_hold run_alloc case_prod_beta r)
  then show ?thesis
    by (cases secure) (simp_all add: isys_probe_def run_attempt run_acquire)
qed

definition ex_reg :: isys_reg where
  "ex_reg = \<lparr>calls = 0, held = (\<lambda>_. 0), misuse = False, isr_bits = 0, conns = [], port_nlanes = (\<lambda>_. 0)\<rparr>"

text \<open>One sensor on port 0. With no failure the removal leaves nothing; with a failure at the end neither.\<close>

theorem isys_probe_all_or_connections_witness:
  "(\<exists>s'. run_state (isys_probe (\<lambda>_. None) True False 6 [0 \<mapsto> 2]) ex_reg = (ok, s') \<and> clean (snd (run_state (isys_remove False 6) s'))) \<and>
   clean (snd (run_state (isys_probe [4 \<mapsto> EINVAL] True False 6 [0 \<mapsto> 2]) ex_reg))"
proof
  have c: "clean ex_reg" by (simp add: ex_reg_def clean_def)
  obtain s' where r: "run_state (isys_probe (\<lambda>_. None) True False 6 [0 \<mapsto> 2]) ex_reg = (ok, s')"
    using isys_starts [of False 6 "[0 \<mapsto> 2]" ex_reg] by (metis prod.collapse)
  have "clean (snd (run_state (isys_remove False 6) s'))"
    using isys_probe_all_or_connections [OF c r] by simp
  with r show "\<exists>s'. run_state (isys_probe (\<lambda>_. None) True False 6 [0 \<mapsto> 2]) ex_reg = (ok, s') \<and> clean (snd (run_state (isys_remove False 6) s'))"
    by blast
  obtain ret s'' where e: "run_state (isys_probe [4 \<mapsto> EINVAL] True False 6 [0 \<mapsto> 2]) ex_reg = (ret, s'')" by (rule prod.exhaust)
  have "ret = Inl EINVAL"
    using e by (auto simp: isys_probe_def out_remove_shared_buffer_def out_release_firmware_def unless_secure_def ledger_runs ex_reg_def)
  then obtain C where C: "leftover [0 \<mapsto> 2] C" "held s'' = (\<lambda>r. of_bool (r \<in> C))" "\<not> misuse s''"
    using isys_probe_all_or_connections [OF c e] by auto
  then have "C = {}" by (auto simp: leftover_def split: if_splits)
  then show "clean (snd (run_state (isys_probe [4 \<mapsto> EINVAL] True False 6 [0 \<mapsto> 2]) ex_reg))"
    using C(2,3) e by (simp add: clean_def)
qed

end
