(* ===== verification/Bridge.thy ===== *)
theory Bridge
  imports Kernel_Ledger
begin

text \<open>
  The connection of the input system to its sensors: the bridge to the MIPI converters
  (\<^verbatim>\<open>kernel/ipu4/ambu-ipu-bridge.c\<close>) and the virtual sensor of the test harness (\<^verbatim>\<open>kernel/ipu4/virt-sensor.c\<close>).
  Both describe the links by software nodes and hang the node of the IPU on the firmware
  node of the PCI device.
\<close>

section \<open>Software nodes\<close>

datatype ipu_sensor_swnodes = SWNODE_SENSOR_HID | SWNODE_SENSOR_PORT | SWNODE_SENSOR_ENDPOINT | SWNODE_IPU_PORT | SWNODE_IPU_ENDPOINT

text \<open>A node is the one of the IPU, or one of a sensor, which has a number.\<close>

datatype swnode = IpuHid | SensorNode nat ipu_sensor_swnodes

datatype property_value = PropU32 u32 | PropU32s "u32 list" | PropU64s "u64 list" | PropRef swnode

record software_node =
  node_name :: string
  node_parent :: "swnode option"
  node_properties :: "(string \<times> property_value) list"

definition NODE_SENSOR :: "string \<Rightarrow> (string \<times> property_value) list \<Rightarrow> software_node" where
  "NODE_SENSOR name props = \<lparr>node_name = name, node_parent = None, node_properties = props\<rparr>"

definition NODE_PORT :: "string \<Rightarrow> swnode \<Rightarrow> software_node" where
  "NODE_PORT name parent = \<lparr>node_name = name, node_parent = Some parent, node_properties = []\<rparr>"

definition NODE_ENDPOINT :: "string \<Rightarrow> swnode \<Rightarrow> (string \<times> property_value) list \<Rightarrow> software_node" where
  "NODE_ENDPOINT name parent props = \<lparr>node_name = name, node_parent = Some parent, node_properties = props\<rparr>"

text \<open>A number in decimal digits, and \<^verbatim>\<open>snprintf\<close> into an array of \<open>n\<close> characters.\<close>

fun decimal :: "nat \<Rightarrow> string" where
  "decimal n = (if n < 10 then [char_of (48 + n)] else decimal (n div 10) @ [char_of (48 + n mod 10)])"

declare decimal.simps [simp del]

definition into_array :: "nat \<Rightarrow> string \<Rightarrow> string" where
  "into_array n t = take (n - 1) t"

text \<open>A firmware node: whether it has an endpoint, and its secondary node.\<close>

datatype fwnode = FwNull | FwErr | FwNode bool fwnode

fun ipu6_isys_check_fwnode_graph :: "fwnode \<Rightarrow> unit res" where
  "ipu6_isys_check_fwnode_graph FwNull = Inl EINVAL"
| "ipu6_isys_check_fwnode_graph FwErr = Inl EINVAL"
| "ipu6_isys_check_fwnode_graph (FwNode endpoint sec) = (if endpoint then ok else ipu6_isys_check_fwnode_graph sec)"

fun fw_secondary :: "fwnode \<Rightarrow> fwnode" where
  "fw_secondary (FwNode endpoint sec) = sec"
| "fw_secondary n = FwNull"

fun set_secondary :: "fwnode \<Rightarrow> fwnode \<Rightarrow> fwnode" where
  "set_secondary sec (FwNode endpoint _) = FwNode endpoint sec"
| "set_secondary sec n = n"

text \<open>
  The state: the firmware node of the device, the bridge's sensors when there is a bridge, and the
  virtual sensor, with the flag that its node is the secondary one of the device.
\<close>

record ipu_sensor =
  sensor_name :: string
  sensor_link :: nat
  sensor_lanes :: nat
  swnodes :: "ipu_sensor_swnodes \<Rightarrow> software_node"

record bridge_state = kern +
  dev_fwnode :: fwnode
  static_bridge :: "ipu_sensor list option"
  g_virt_sensor :: "bool option"

section \<open>The bridge\<close>

record mipi_bridge_config =
  mcsi_port :: nat
  csi2_device :: nat
  i2c_addr :: nat
  i2c_adapter :: nat
  compatible :: string
  link_freq :: u64

definition mipi_bridge_configs :: "mipi_bridge_config list" where
  "mipi_bridge_configs = [
     \<lparr>mcsi_port = 0, csi2_device = 0, i2c_addr = 0x0e, i2c_adapter = 0, compatible = ''ambu,tc358748'', link_freq = 317250000\<rparr>,
     \<lparr>mcsi_port = 1, csi2_device = 4, i2c_addr = 0x0e, i2c_adapter = 3, compatible = ''ambu,tc358748'', link_freq = 317250000\<rparr>]"

definition IPU_MAX_LANES :: nat where "IPU_MAX_LANES = 4"
definition IPU_MAX_PORTS :: nat where "IPU_MAX_PORTS = 4"
definition V4L2_FWNODE_BUS_TYPE_CSI2_DPHY :: u32 where "V4L2_FWNODE_BUS_TYPE_CSI2_DPHY = 4"

text \<open>The lanes are numbered from 1; a link uses the first ones.\<close>

definition lane_numbers :: "nat \<Rightarrow> u32 list" where
  "lane_numbers n = map (\<lambda>i. word_of_nat (i + 1)) [0..<n]"

text \<open>The properties of the sensor, of its endpoint and of the endpoint of the IPU, for sensor number \<open>k\<close>.\<close>

definition dev_properties :: "mipi_bridge_config \<Rightarrow> (string \<times> property_value) list" where
  "dev_properties cfg = [(''clock-frequency'', PropU32 (ucast (link_freq cfg)))]"

definition ep_properties :: "nat \<Rightarrow> mipi_bridge_config \<Rightarrow> nat \<Rightarrow> (string \<times> property_value) list" where
  "ep_properties k cfg lanes = [
     (''bus-type'', PropU32 V4L2_FWNODE_BUS_TYPE_CSI2_DPHY), (''data-lanes'', PropU32s (lane_numbers lanes)),
     (''remote-endpoint'', PropRef (SensorNode k SWNODE_IPU_ENDPOINT)), (''link-frequencies'', PropU64s [link_freq cfg])]"

definition ipu_properties :: "nat \<Rightarrow> nat \<Rightarrow> (string \<times> property_value) list" where
  "ipu_properties k lanes = [
     (''data-lanes'', PropU32s (lane_numbers lanes)), (''remote-endpoint'', PropRef (SensorNode k SWNODE_SENSOR_ENDPOINT))]"

definition ipu_bridge_create_connection_swnodes ::
  "nat \<Rightarrow> mipi_bridge_config \<Rightarrow> string \<Rightarrow> nat \<Rightarrow> nat \<Rightarrow> ipu_sensor_swnodes \<Rightarrow> software_node" where
  "ipu_bridge_create_connection_swnodes k cfg name link lanes n =
     (let remote_port = into_array 7 (''port@'' @ decimal link);
          port = into_array 7 (''port@'' @ decimal 0);
          endpoint = into_array 11 (''endpoint@'' @ decimal 0)
      in case n of
           SWNODE_SENSOR_HID \<Rightarrow> NODE_SENSOR name (dev_properties cfg)
         | SWNODE_SENSOR_PORT \<Rightarrow> NODE_PORT port (SensorNode k SWNODE_SENSOR_HID)
         | SWNODE_SENSOR_ENDPOINT \<Rightarrow> NODE_ENDPOINT endpoint (SensorNode k SWNODE_SENSOR_PORT) (ep_properties k cfg lanes)
         | SWNODE_IPU_PORT \<Rightarrow> NODE_PORT remote_port IpuHid
         | SWNODE_IPU_ENDPOINT \<Rightarrow> NODE_ENDPOINT endpoint (SensorNode k SWNODE_IPU_PORT) (ipu_properties k lanes))"

text \<open>The reference to the adapter is held only while the device is made.\<close>

definition ipu_bridge_init_i2c_dev ::
  "script \<Rightarrow> nat \<Rightarrow> mipi_bridge_config \<Rightarrow> ('z bridge_state_scheme, unit res) state" where
  "ipu_bridge_init_i2c_dev fails k cfg = do {
     ret \<leftarrow> acquire fails (Adapter (i2c_adapter cfg));
     if ret \<noteq> ok then State_Monad.return (Inl EINVAL)
     else do {
       client \<leftarrow> acquire fails (SensorI2c k);
       release (Adapter (i2c_adapter cfg));
       State_Monad.return client } }"

definition ipu_bridge_setup_mipi_bridge ::
  "script \<Rightarrow> mipi_bridge_config \<Rightarrow> ipu_sensor list \<Rightarrow> ('z bridge_state_scheme, unit res \<times> ipu_sensor list) state" where
  "ipu_bridge_setup_mipi_bridge fails cfg sensors =
     (let k = length sensors; lanes = 1; name = into_array 20 (compatible cfg @ ''-'' @ decimal (mcsi_port cfg)) in
      if k \<ge> IPU_MAX_PORTS then State_Monad.return (Inl EINVAL, sensors)
      else if lanes > IPU_MAX_LANES then State_Monad.return (Inl EINVAL, sensors)
      else do {
        ret \<leftarrow> acquire fails (SensorNodes k);
        if ret \<noteq> ok then State_Monad.return (ret, sensors)
        else do {
          ret \<leftarrow> ipu_bridge_init_i2c_dev fails k cfg;
          if ret \<noteq> ok then do { release (SensorNodes k); State_Monad.return (ret, sensors) }
          else State_Monad.return (ok, sensors @ [\<lparr>sensor_name = name, sensor_link = csi2_device cfg, sensor_lanes = lanes,
            swnodes = ipu_bridge_create_connection_swnodes k cfg name (csi2_device cfg) lanes\<rparr>]) } })"

fun unregister_sensors :: "nat list \<Rightarrow> ('z bridge_state_scheme, unit) state" where
  "unregister_sensors [] = State_Monad.return ()"
| "unregister_sensors (k # ks) = do {
     release (SensorI2c k);
     release (SensorNodes k);
     unregister_sensors ks }"

definition ipu_bridge_unregister_sensors :: "ipu_sensor list \<Rightarrow> ('z bridge_state_scheme, unit) state" where
  "ipu_bridge_unregister_sensors sensors = unregister_sensors [0..<length sensors]"

fun setup_mipi_bridges ::
  "script \<Rightarrow> mipi_bridge_config list \<Rightarrow> ipu_sensor list \<Rightarrow> ('z bridge_state_scheme, unit res \<times> ipu_sensor list) state" where
  "setup_mipi_bridges fails [] sensors = State_Monad.return (ok, sensors)"
| "setup_mipi_bridges fails (cfg # cfgs) sensors = do {
     (ret, sensors') \<leftarrow> ipu_bridge_setup_mipi_bridge fails cfg sensors;
     if ret \<noteq> ok then do {
       ipu_bridge_unregister_sensors sensors';
       State_Monad.return (ret, sensors') }
     else setup_mipi_bridges fails cfgs sensors' }"

definition ipu_bridge_setup_mipi_bridges ::
  "script \<Rightarrow> ('z bridge_state_scheme, unit res \<times> ipu_sensor list) state" where
  "ipu_bridge_setup_mipi_bridges fails = setup_mipi_bridges fails mipi_bridge_configs []"

text \<open>
  Starting the bridge. The node of the device is not checked for before its secondary one is
  set. With no sensor at all the result is success without a bridge.
\<close>

definition ambu_ipu_bridge_init :: "script \<Rightarrow> ('z bridge_state_scheme, unit res) state" where
  "ambu_ipu_bridge_init fails = do {
     ret \<leftarrow> alloc fails BridgeMem;
     if ret \<noteq> ok then do { kmod (\<lambda>s. s\<lparr>static_bridge := None\<rparr>); State_Monad.return ret }
     else do {
       kmod (\<lambda>s. s\<lparr>static_bridge := Some []\<rparr>);
       ret \<leftarrow> acquire fails IpuNode;
       if ret \<noteq> ok then do {
         release BridgeMem;
         kmod (\<lambda>s. s\<lparr>static_bridge := None\<rparr>);
         State_Monad.return ret }
       else do {
         (ret, sensors) \<leftarrow> ipu_bridge_setup_mipi_bridges fails;
         if ret \<noteq> ok \<or> sensors = [] then do {
           release IpuNode;
           release BridgeMem;
           kmod (\<lambda>s. s\<lparr>static_bridge := None\<rparr>);
           State_Monad.return ret }
         else do {
           found \<leftarrow> attempt fails;
           unused \<leftarrow> (if found = ok then attempt fails else State_Monad.return ok);
           if found \<noteq> ok \<or> unused \<noteq> ok then do {
             ipu_bridge_unregister_sensors sensors;
             release IpuNode;
             release BridgeMem;
             kmod (\<lambda>s. s\<lparr>static_bridge := None\<rparr>);
             State_Monad.return (Inl (if found \<noteq> ok then ENODEV else ENOTUNIQ)) }
           else do {
             dev \<leftarrow> kget dev_fwnode;
             (if dev = FwNull then wild_use else State_Monad.return ());
             kmod (\<lambda>s. s\<lparr>dev_fwnode := set_secondary (FwNode True FwNull) (dev_fwnode s), static_bridge := Some sensors\<rparr>);
             State_Monad.return ok } } } } }"

text \<open>Both the node of the device and the bridge are used without a check.\<close>

definition ambu_ipu_bridge_uninit :: "('z bridge_state_scheme, unit) state" where
  "ambu_ipu_bridge_uninit = do {
     dev \<leftarrow> kget dev_fwnode;
     (if dev = FwNull then wild_use else State_Monad.return ());
     kmod (\<lambda>s. s\<lparr>dev_fwnode := set_secondary FwNull (dev_fwnode s)\<rparr>);
     b \<leftarrow> kget static_bridge;
     case b of
       None \<Rightarrow> wild_use
     | Some sensors \<Rightarrow> do {
         ipu_bridge_unregister_sensors sensors;
         release IpuNode;
         release BridgeMem;
         kmod (\<lambda>s. s\<lparr>static_bridge := None\<rparr>) } }"

section \<open>The virtual sensor\<close>

definition VIRT_SENSOR_WIDTH :: u32 where "VIRT_SENSOR_WIDTH = 800"
definition VIRT_SENSOR_HEIGHT :: u32 where "VIRT_SENSOR_HEIGHT = 800"
definition VIRT_SENSOR_LANES :: nat where "VIRT_SENSOR_LANES = 4"
definition VIRT_SENSOR_LINK_FREQ :: u64 where "VIRT_SENSOR_LINK_FREQ = 450000000"

text \<open>The nodes of the IPU and of the sensor, numbered like those of sensor 0 of the bridge.\<close>

definition virt_sensor_build_swnodes :: "(swnode \<times> software_node) list" where
  "virt_sensor_build_swnodes = [
     (IpuHid, \<lparr>node_name = ''INT343E'', node_parent = None, node_properties = []\<rparr>),
     (SensorNode 0 SWNODE_IPU_PORT, NODE_PORT ''port@0'' IpuHid),
     (SensorNode 0 SWNODE_IPU_ENDPOINT, NODE_ENDPOINT ''endpoint@0'' (SensorNode 0 SWNODE_IPU_PORT)
        [(''data-lanes'', PropU32s (lane_numbers VIRT_SENSOR_LANES)),
         (''remote-endpoint'', PropRef (SensorNode 0 SWNODE_SENSOR_ENDPOINT))]),
     (SensorNode 0 SWNODE_SENSOR_HID, NODE_SENSOR ''ipu4-virt-sensor'' []),
     (SensorNode 0 SWNODE_SENSOR_PORT, NODE_PORT ''port@0'' (SensorNode 0 SWNODE_SENSOR_HID)),
     (SensorNode 0 SWNODE_SENSOR_ENDPOINT, NODE_ENDPOINT ''endpoint@0'' (SensorNode 0 SWNODE_SENSOR_PORT)
        [(''bus-type'', PropU32 V4L2_FWNODE_BUS_TYPE_CSI2_DPHY), (''data-lanes'', PropU32s (lane_numbers VIRT_SENSOR_LANES)),
         (''remote-endpoint'', PropRef (SensorNode 0 SWNODE_IPU_ENDPOINT)),
         (''link-frequencies'', PropU64s [VIRT_SENSOR_LINK_FREQ])])]"

text \<open>The one format, the bus code being the only one; the formats asked for and set are always it.\<close>

definition virt_sensor_enum_mbus_code :: "nat \<Rightarrow> unit res" where
  "virt_sensor_enum_mbus_code index = (if index \<noteq> 0 then Inl EINVAL else ok)"

definition virt_sensor_enum_frame_size :: "nat \<Rightarrow> bool \<Rightarrow> (u32 \<times> u32) res" where
  "virt_sensor_enum_frame_size index is_code =
     (if index \<noteq> 0 \<or> \<not> is_code then Inl EINVAL else Inr (VIRT_SENSOR_WIDTH, VIRT_SENSOR_HEIGHT))"

text \<open>
  The end of the installation, after the nodes are there: the control with the frequency of the
  link, the media entity and the registration, with the error paths as they are.
\<close>

definition virt_sensor_register :: "script \<Rightarrow> ('z bridge_state_scheme, unit res) state" where
  "virt_sensor_register fails = do {
     ret \<leftarrow> acquire fails VirtCtrl;
     if ret \<noteq> ok then State_Monad.return ret
     else do {
       ret \<leftarrow> attempt fails;
       if ret \<noteq> ok then do { release VirtCtrl; State_Monad.return ret }
       else do {
         ret \<leftarrow> acquire fails VirtEntity;
         if ret \<noteq> ok then State_Monad.return ret
         else do {
           ret \<leftarrow> acquire fails VirtAsync;
           (if ret \<noteq> ok then do { release VirtEntity; release VirtCtrl } else State_Monad.return ());
           State_Monad.return ret } } } }"

definition ipu4_virt_sensor_install :: "script \<Rightarrow> ('z bridge_state_scheme, unit res) state" where
  "ipu4_virt_sensor_install fails = do {
     g \<leftarrow> kget g_virt_sensor;
     dev \<leftarrow> kget dev_fwnode;
     if g \<noteq> None then State_Monad.return (Inl EEXIST)
     else if dev = FwNull then State_Monad.return (Inl ENODEV)
     else if fw_secondary dev \<noteq> FwNull \<and> fw_secondary dev \<noteq> FwErr then State_Monad.return (Inl EBUSY)
     else do {
       ret \<leftarrow> alloc fails VirtMem;
       if ret \<noteq> ok then State_Monad.return ret
       else do {
         ret \<leftarrow> acquire fails VirtNodes;
         if ret \<noteq> ok then do { release VirtMem; State_Monad.return ret }
         else do {
           found \<leftarrow> attempt fails;
           if found \<noteq> ok then do { release VirtNodes; release VirtMem; State_Monad.return (Inl ENODEV) }
           else do {
             kmod (\<lambda>s. s\<lparr>dev_fwnode := set_secondary (FwNode True FwNull) (dev_fwnode s)\<rparr>);
             ret \<leftarrow> virt_sensor_register fails;
             if ret \<noteq> ok then do {
               kmod (\<lambda>s. s\<lparr>dev_fwnode := set_secondary FwNull (dev_fwnode s)\<rparr>);
               release VirtNodes;
               release VirtMem;
               State_Monad.return ret }
             else do {
               kmod (\<lambda>s. s\<lparr>g_virt_sensor := Some True\<rparr>);
               State_Monad.return ok } } } } } }"

definition ipu4_virt_sensor_remove :: "('z bridge_state_scheme, unit) state" where
  "ipu4_virt_sensor_remove = do {
     g \<leftarrow> kget g_virt_sensor;
     case g of
       None \<Rightarrow> State_Monad.return ()
     | Some secondary_set \<Rightarrow> do {
         release VirtAsync;
         release VirtEntity;
         release VirtCtrl;
         (if secondary_set then kmod (\<lambda>s. s\<lparr>dev_fwnode := set_secondary FwNull (dev_fwnode s)\<rparr>) else State_Monad.return ());
         release VirtNodes;
         release VirtMem;
         kmod (\<lambda>s. s\<lparr>g_virt_sensor := None\<rparr>) } }"

end
