(* ===== verification/Pci_Driver.thy ===== *)
theory Pci_Driver
  imports Bridge
begin

text \<open>
  The PCI driver (\<^verbatim>\<open>kernel/ipu4/ipu6.c\<close>) and its bus (\<^verbatim>\<open>ipu6-bus.c\<close>) as users of the kernel: which resources
  the probe takes in which order, what its error paths give back, and what the removal gives back. Memory
  and mappings that the kernel frees by itself with the PCI device (\<^verbatim>\<open>devm_\<close>, \<^verbatim>\<open>pcim_\<close>) are calls that may
  fail and are not held. The registers that the probe writes are in \<open>Buttress\<close> and \<open>Pci_Pm\<close>; the
  reference of runtime power management that the PCI core holds for the driver is not part of the ledger.
\<close>

section \<open>The bus\<close>

text \<open>A pointer to a bus device: none, an error, or a device.\<close>

datatype adev_ptr = NullPtr | ErrPtr | Valid

record pci_state = bridge_state +
  isys_ptr :: adev_ptr
  psys_ptr :: adev_ptr
  bus_devices :: "subsys list"
  bus_ready_to_probe :: bool

text \<open>The last reference of a bus device is dropped.\<close>

definition ipu6_bus_release :: "subsys \<Rightarrow> ('z pci_state_scheme, unit) state" where
  "ipu6_bus_release k = do { release (Pdata k); release (Adev k) }"

definition ipu6_bus_initialize_device :: "script \<Rightarrow> subsys \<Rightarrow> ('z pci_state_scheme, unit res) state" where
  "ipu6_bus_initialize_device fails k = do {
     ret \<leftarrow> alloc fails (Adev k);
     if ret \<noteq> ok then State_Monad.return ret
     else do {
       ret \<leftarrow> attempt fails;
       if ret \<noteq> ok then do { release (Adev k); State_Monad.return ret } else State_Monad.return ok } }"

definition ipu6_bus_add_device :: "script \<Rightarrow> subsys \<Rightarrow> ('z pci_state_scheme, unit res) state" where
  "ipu6_bus_add_device fails k = do {
     ret \<leftarrow> attempt fails;
     if ret \<noteq> ok then do { ipu6_bus_release k; State_Monad.return ret }
     else do { kmod (\<lambda>s. s\<lparr>bus_devices := k # bus_devices s\<rparr>); State_Monad.return ok } }"

fun del_devices :: "subsys list \<Rightarrow> ('z pci_state_scheme, unit) state" where
  "del_devices [] = State_Monad.return ()"
| "del_devices (k # ks) = do {
     kmod (\<lambda>s. s\<lparr>bus_devices := ks\<rparr>);
     ipu6_bus_release k;
     del_devices ks }"

definition ipu6_bus_del_devices :: "('z pci_state_scheme, unit) state" where
  "ipu6_bus_del_devices = do { ks \<leftarrow> kget bus_devices; del_devices ks }"

section \<open>The devices of the sub-systems\<close>

text \<open>
  Making the device of a sub-system: its data, the device, its MMU, and adding it to the
  bus. When the MMU or the addition fails, the device is released with its data, and then the data are freed once more.
\<close>

definition ipu6_subsys_init :: "script \<Rightarrow> subsys \<Rightarrow> ('z pci_state_scheme, unit res) state" where
  "ipu6_subsys_init fails k = do {
     ret \<leftarrow> alloc fails (Pdata k);
     if ret \<noteq> ok then State_Monad.return ret
     else do {
       ret \<leftarrow> ipu6_bus_initialize_device fails k;
       if ret \<noteq> ok then do { release (Pdata k); State_Monad.return ret }
       else do {
         ret \<leftarrow> acquire fails (MmuOf k);
         if ret \<noteq> ok then do {
           ipu6_bus_release k;
           release (Pdata k);
           State_Monad.return ret }
         else do {
           ret \<leftarrow> ipu6_bus_add_device fails k;
           if ret \<noteq> ok then do { release (Pdata k); State_Monad.return ret } else State_Monad.return ok } } } }"

text \<open>
  The input system is connected to its sensors first: by the graph that is there, or by the virtual sensor
  or the bridge, whichever is built in.
\<close>

definition connect_sensors :: "bool \<Rightarrow> script \<Rightarrow> ('z pci_state_scheme, unit res) state" where
  "connect_sensors virt fails = do {
     fwnode \<leftarrow> kget dev_fwnode;
     if ipu6_isys_check_fwnode_graph fwnode = ok then State_Monad.return ok
     else if fwnode \<noteq> FwNull \<and> fw_secondary fwnode \<noteq> FwNull \<and> fw_secondary fwnode \<noteq> FwErr
     then State_Monad.return (Inl EINVAL)
     else if virt then ipu4_virt_sensor_install fails
     else ambu_ipu_bridge_init fails }"

definition disconnect_sensors :: "bool \<Rightarrow> ('z pci_state_scheme, unit) state" where
  "disconnect_sensors virt = (if virt then ipu4_virt_sensor_remove else ambu_ipu_bridge_uninit)"

definition ipu6_isys_init :: "bool \<Rightarrow> script \<Rightarrow> ('z pci_state_scheme, unit res) state" where
  "ipu6_isys_init virt fails = do {
     ret \<leftarrow> connect_sensors virt fails;
     if ret \<noteq> ok then State_Monad.return ret
     else ipu6_subsys_init fails Isys }"

definition ipu6_psys_init :: "script \<Rightarrow> ('z pci_state_scheme, unit res) state" where
  "ipu6_psys_init fails = ipu6_subsys_init fails Psys"

section \<open>Probe\<close>

datatype ipu6_version = IPU6_VER_6 | IPU6_VER_6SE | IPU6_VER_6EP | IPU6_VER_6EP_MTL | IPU4_VER_4

text \<open>
  What a device id stands for: the version, the name of the firmware file, whether the components
  of the metadata are the small ones of IPU6SE, and whether the interrupt status is the register of the enabled
  ones.
\<close>

definition probe_variant :: "nat \<Rightarrow> (ipu6_version \<times> string \<times> bool \<times> bool) option" where
  "probe_variant device =
     (if device = 0x9a19 then Some (IPU6_VER_6, ''intel/ipu/ipu6_fw.bin'', False, False)
      else if device = 0x4e19 then Some (IPU6_VER_6SE, ''intel/ipu/ipu6se_fw.bin'', True, False)
      else if device = 0x465d \<or> device = 0xa75d then Some (IPU6_VER_6EP, ''intel/ipu/ipu6ep_fw.bin'', False, False)
      else if device = 0x462e then Some (IPU6_VER_6EP, ''intel/ipu/ipu6epadln_fw.bin'', False, False)
      else if device = 0x7d19 then Some (IPU6_VER_6EP_MTL, ''intel/ipu/ipu6epmtl_fw.bin'', False, False)
      else if device = 0x5a88 then Some (IPU4_VER_4, ''ipu4_cpd_b0.bin'', True, True)
      else None)"

definition ipu6_pci_config_setup :: "script \<Rightarrow> ipu6_version \<Rightarrow> ('z pci_state_scheme, unit res) state" where
  "ipu6_pci_config_setup fails ver =
     (if ver = IPU6_VER_6EP \<or> ver = IPU6_VER_6EP_MTL then State_Monad.return ok else attempt fails)"

text \<open>The labels of the error paths, from the last to the first.\<close>

definition out_ipu6_bus_del_devices :: "('z pci_state_scheme, unit) state" where
  "out_ipu6_bus_del_devices = do {
     psys \<leftarrow> kget psys_ptr;
     isys \<leftarrow> kget isys_ptr;
     (case psys of
        NullPtr \<Rightarrow> State_Monad.return ()
      | ErrPtr \<Rightarrow> wild_use
      | Valid \<Rightarrow> do { release_if (PkgDir Psys); release (FwImage Psys) });
     (if psys = Valid then release (MmuOf Psys) else State_Monad.return ());
     (if isys = Valid then release (MmuOf Isys) else State_Monad.return ());
     ipu6_bus_del_devices;
     release FwFile;
     release ButtressUp }"

definition out_ipu_bridge_uninit :: "bool \<Rightarrow> ('z pci_state_scheme, unit) state" where
  "out_ipu_bridge_uninit virt = do { disconnect_sensors virt; out_ipu6_bus_del_devices }"

text \<open>The part of the probe that works on the power domain of the processing system.\<close>

definition probe_psys :: "script \<Rightarrow> ('z pci_state_scheme, unit res) state" where
  "probe_psys fails = do {
     ret \<leftarrow> acquire fails (PmRef Psys);
     if ret \<noteq> ok then State_Monad.return ret else do {
     ret \<leftarrow> acquire fails (MmuOn Psys);
     if ret \<noteq> ok then State_Monad.return ret else do {
     ret \<leftarrow> acquire fails (FwImage Psys);
     if ret \<noteq> ok then State_Monad.return ret else do {
     ret \<leftarrow> acquire fails (PkgDir Psys);
     if ret \<noteq> ok then State_Monad.return ret else do {
     ret \<leftarrow> acquire fails Irq;
     if ret \<noteq> ok then State_Monad.return ret else do {
     ret \<leftarrow> attempt fails;
     if ret \<noteq> ok then do { release Irq; State_Monad.return ret }
     else do {
       release (MmuOn Psys);
       release (PmRef Psys);
       kmod (\<lambda>s. s\<lparr>bus_ready_to_probe := True\<rparr>);
       State_Monad.return ok } } } } } } }"

definition probe_devices :: "bool \<Rightarrow> script \<Rightarrow> ('z pci_state_scheme, unit res) state" where
  "probe_devices virt fails = do {
     ret \<leftarrow> ipu6_isys_init virt fails;
     kmod (\<lambda>s. s\<lparr>isys_ptr := if ret = ok then Valid else ErrPtr\<rparr>);
     if ret \<noteq> ok then do { out_ipu6_bus_del_devices; State_Monad.return ret }
     else do {
       ret \<leftarrow> ipu6_psys_init fails;
       kmod (\<lambda>s. s\<lparr>psys_ptr := if ret = ok then Valid else ErrPtr\<rparr>);
       if ret \<noteq> ok then do { out_ipu_bridge_uninit virt; State_Monad.return ret }
       else do {
         ret \<leftarrow> probe_psys fails;
         if ret \<noteq> ok then do { out_ipu_bridge_uninit virt; State_Monad.return ret } else State_Monad.return ok } } }"

definition ipu6_pci_probe :: "bool \<Rightarrow> nat \<Rightarrow> script \<Rightarrow> ('z pci_state_scheme, unit res) state" where
  "ipu6_pci_probe virt device fails = do {
     ret \<leftarrow> attempt fails;
     if ret \<noteq> ok then State_Monad.return (Inl ENOMEM) else do {
     kmod (\<lambda>s. s\<lparr>isys_ptr := NullPtr, psys_ptr := NullPtr, bus_devices := [], bus_ready_to_probe := False\<rparr>);
     ret \<leftarrow> attempt fails;
     if ret \<noteq> ok then State_Monad.return ret else do {
     ret \<leftarrow> attempt fails;
     if ret \<noteq> ok then State_Monad.return ret else
     case probe_variant device of
       None \<Rightarrow> State_Monad.return (Inl ENODEV)
     | Some (ver, _) \<Rightarrow> do {
     ret \<leftarrow> attempt fails;
     if ret \<noteq> ok then State_Monad.return ret else do {
     ret \<leftarrow> ipu6_pci_config_setup fails ver;
     if ret \<noteq> ok then State_Monad.return ret else do {
     ret \<leftarrow> acquire fails ButtressUp;
     if ret \<noteq> ok then State_Monad.return ret else do {
     ret \<leftarrow> acquire fails FwFile;
     if ret \<noteq> ok then do { release ButtressUp; State_Monad.return ret } else do {
     ret \<leftarrow> attempt fails;
     if ret \<noteq> ok then do { out_ipu6_bus_del_devices; State_Monad.return ret }
     else probe_devices virt fails } } } } } } } }"

section \<open>Removal\<close>

definition ipu6_pci_remove :: "bool \<Rightarrow> ('z pci_state_scheme, unit) state" where
  "ipu6_pci_remove virt = do {
     release Irq;
     release_if (PkgDir Psys);
     release (FwImage Psys);
     release ButtressUp;
     ipu6_bus_del_devices;
     release FwFile;
     release (MmuOf Psys);
     release (MmuOf Isys);
     disconnect_sensors virt }"

end
