(* ===== verification/Bridge_Props.thy ===== *)
theory Bridge_Props
  imports Bridge
begin

text \<open>
  The bridge and the virtual sensor hold nothing after a failure, except for one path, and
  give back everything at the end; the graphs they describe link each sensor to its receiver.
\<close>

section \<open>The sensors of the bridge\<close>

lemma init_i2c_all_or_nothing: "all_or_nothing (ipu_bridge_init_i2c_dev fails k cfg) [SensorI2c k]"
  unfolding all_or_nothing_def ipu_bridge_init_i2c_dev_def
  by (auto simp: ledger_runs ledger_upds fresh_def nonneg_def add.commute add_pos_nonneg split: option.splits)

definition setup_sensor :: "script \<Rightarrow> mipi_bridge_config \<Rightarrow> nat \<Rightarrow> ('z bridge_state_scheme, unit res) state" where
  "setup_sensor fails cfg k =
     then_or_undo (acquire fails (SensorNodes k)) (ipu_bridge_init_i2c_dev fails k cfg) (release (SensorNodes k))"

definition drop_sensor :: "nat \<Rightarrow> ('z bridge_state_scheme, unit) state" where
  "drop_sensor k = do { release (SensorI2c k); release (SensorNodes k) }"

interpretation sensors: unit_family "setup_sensor fails cfg" drop_sensor "\<lambda>_ s. s" "\<lambda>k. [SensorNodes k, SensorI2c k]" for fails cfg
proof
  fix i j :: nat
  show "all_or_nothing (setup_sensor fails cfg i) [SensorNodes i, SensorI2c i]"
    unfolding setup_sensor_def
    using all_or_nothing_then [OF all_or_nothing_acquire init_i2c_all_or_nothing gives_back_release,
        of "SensorNodes i" i fails fails cfg] by simp
  have "gives_back (drop_sensor i) [SensorI2c i, SensorNodes i]"
    unfolding drop_sensor_def using gives_back_seq [OF gives_back_release gives_back_release, of "SensorI2c i" "SensorNodes i"] by simp
  then show "gives_back (drop_sensor i) [SensorNodes i, SensorI2c i]"
    by (rule gives_back_cong [THEN iffD1, rotated]) auto
  show "i \<noteq> j \<Longrightarrow> set [SensorNodes i, SensorI2c i] \<inter> set [SensorNodes j, SensorI2c j] = {}" by simp
qed simp_all

abbreviation sensor_res :: "nat \<Rightarrow> resource list" where
  "sensor_res n \<equiv> sensors.res_all [0..<n]"

lemma unregister_sensors_eq: "unregister_sensors ks = cleanup_all drop_sensor ks"
  by (induction ks) (simp_all add: drop_sensor_def)

lemma unregister_gives_back: "gives_back (ipu_bridge_unregister_sensors ss) (sensor_res (length ss))"
  unfolding ipu_bridge_unregister_sensors_def unregister_sensors_eq
  by (rule sensors.cleanup_gives_back) simp

text \<open>Setting up one sensor more, and all of them.\<close>

lemma setup_mipi_bridge_run:
  assumes "length ss < 4"
  shows "\<exists>x. run_state (ipu_bridge_setup_mipi_bridge fails cfg ss) s =
    (case run_state (setup_sensor fails cfg (length ss)) s of (ret, s') \<Rightarrow> ((ret, if ret = ok then ss @ [x] else ss), s'))"
  using assms
  by (auto simp: ipu_bridge_setup_mipi_bridge_def setup_sensor_def then_or_undo_def Let_def IPU_MAX_PORTS_def
      IPU_MAX_LANES_def split: prod.splits)

lemma sensor_res_Suc: "sensor_res (Suc n) = sensor_res n @ [SensorNodes n, SensorI2c n]"
  by simp

lemma sensor_res_set: "r \<in> set (sensor_res n) \<longleftrightarrow> (\<exists>k<n. r = SensorNodes k \<or> r = SensorI2c k)"
  by (induction n) (auto simp: less_Suc_eq)

lemma setup_bridges:
  assumes "length ss + length cfgs \<le> 4" "fresh (sensor_res (length ss + length cfgs)) s0"
    and "gained (sensor_res (length ss)) s0 s" "run_state (setup_mipi_bridges fails cfgs ss) s = ((ret, ss'), s')"
  shows "if ret = ok then length ss' = length ss + length cfgs \<and> gained (sensor_res (length ss')) s0 s' else undone s0 s'"
  using assms
proof (induction cfgs arbitrary: ss s)
  case Nil
  then show ?case by auto
next
  case (Cons cfg cfgs)
  let ?k = "length ss"
  obtain r s1 where 1: "run_state (setup_sensor fails cfg ?k) s = (r, s1)" by (rule prod.exhaust)
  obtain x where x: "run_state (ipu_bridge_setup_mipi_bridge fails cfg ss) s = ((r, if r = ok then ss @ [x] else ss), s1)"
    using setup_mipi_bridge_run [of ss fails cfg s] Cons.prems(1) 1 by auto
  have ap: "set (sensor_res ?k) \<inter> set [SensorNodes ?k, SensorI2c ?k] = {}"
    by (auto simp: sensor_res_set)
  have f: "fresh (sensor_res ?k) s0" "fresh [SensorNodes ?k, SensorI2c ?k] s0"
    using Cons.prems(2) by (auto simp: fresh_def sensor_res_set)
  note one = all_or_nothingD [OF sensors.init_one fresh_gained [OF f(2) Cons.prems(3) ap] 1]
  show ?case
  proof (cases "r = ok")
    case True
    then have g: "gained (sensor_res (length (ss @ [x]))) s0 s1"
      using one gained_trans [OF Cons.prems(3) _ ap] by (simp add: sensor_res_Suc)
    show ?thesis
      using Cons.IH [OF _ _ g] Cons.prems(1,2,4) True x by (auto split: if_splits)
  next
    case False
    then have "gained (sensor_res ?k) s0 s1" using one Cons.prems(3) gained_undone by auto
    then have "undone s0 (snd (run_state (ipu_bridge_unregister_sensors ss) s1))"
      by (intro gives_back_all [OF unregister_gives_back] f(1))
    then show ?thesis
      using Cons.prems(4) False x by (auto simp: case_prod_beta)
  qed
qed

section \<open>Starting and stopping the bridge\<close>

definition bridge_res :: "resource list" where
  "bridge_res = [IpuNode, BridgeMem] @ sensor_res 2"

lemma dev_fwnode_first [simp]:
  "s\<lparr>static_bridge := b, dev_fwnode := w\<rparr> = s\<lparr>dev_fwnode := w, static_bridge := b\<rparr>" for s :: "'z bridge_state_scheme"
  by simp

text \<open>Changing the pointers of the driver does not touch the ledger.\<close>

lemma static_bridge_moves:
  "gained rs s s' \<Longrightarrow> gained rs (s\<lparr>static_bridge := b\<rparr>) (s'\<lparr>static_bridge := b\<rparr>)"
  "undone s s' \<Longrightarrow> undone (s\<lparr>static_bridge := b\<rparr>) (s'\<lparr>static_bridge := b\<rparr>)"
  "gained rs s s' \<Longrightarrow> gained rs (s\<lparr>dev_fwnode := w\<rparr>) (s'\<lparr>dev_fwnode := w\<rparr>)"
  "undone s s' \<Longrightarrow> undone (s\<lparr>dev_fwnode := w\<rparr>) (s'\<lparr>dev_fwnode := w\<rparr>)"
  "undone s s' \<Longrightarrow> undone (s\<lparr>g_virt_sensor := v\<rparr>) (s'\<lparr>g_virt_sensor := v\<rparr>)"
  "fresh rs (s\<lparr>g_virt_sensor := v\<rparr>) = fresh rs s"
  "fresh rs (s\<lparr>static_bridge := b\<rparr>) = fresh rs s" "fresh rs (s\<lparr>dev_fwnode := w\<rparr>) = fresh rs s"
  by (auto simp: gained_def undone_def fresh_def nonneg_def intro!: exI [where x = "calls s'"])

lemma gained_same:
  "gained rs s s' \<Longrightarrow> dev_fwnode s' = dev_fwnode s \<and> static_bridge s' = static_bridge s \<and> g_virt_sensor s' = g_virt_sensor s"
  "undone s s' \<Longrightarrow> dev_fwnode s' = dev_fwnode s \<and> static_bridge s' = static_bridge s \<and> g_virt_sensor s' = g_virt_sensor s"
  by (auto simp: gained_def undone_def)

text \<open>Taking down what was set up, in the order of the error paths.\<close>

definition drop_bridge :: "ipu_sensor list \<Rightarrow> ('z bridge_state_scheme, unit) state" where
  "drop_bridge ss = do { ipu_bridge_unregister_sensors ss; release IpuNode; release BridgeMem }"

lemma drop_bridge_gives_back:
  assumes "length ss = 2"
  shows "gives_back (drop_bridge ss) bridge_res"
proof -
  have "gives_back (State_Monad.bind (release IpuNode) (\<lambda>_. release BridgeMem)) ([IpuNode] @ [BridgeMem])"
    by (rule gives_back_seq) (simp_all add: gives_back_release)
  moreover have "set (sensor_res (length ss)) \<inter> set ([IpuNode] @ [BridgeMem]) = {}"
    by (auto simp: sensor_res_set)
  ultimately have "gives_back (drop_bridge ss) (sensor_res (length ss) @ [IpuNode] @ [BridgeMem])"
    unfolding drop_bridge_def by (rule gives_back_seq [OF unregister_gives_back])
  then show ?thesis
    by (rule gives_back_cong [THEN iffD1, rotated]) (auto simp: bridge_res_def assms)
qed

text \<open>The start in two halves: the nodes and the sensors, and then the device they are hung on.\<close>

definition bridge_nodes :: "script \<Rightarrow> ('z bridge_state_scheme, unit res \<times> ipu_sensor list) state" where
  "bridge_nodes fails = do {
     ret \<leftarrow> acquire fails IpuNode;
     if ret \<noteq> ok then do { release BridgeMem; State_Monad.return (ret, []) }
     else do {
       (ret, sensors) \<leftarrow> ipu_bridge_setup_mipi_bridges fails;
       if ret \<noteq> ok \<or> sensors = [] then do { release IpuNode; release BridgeMem; State_Monad.return (ret, sensors) }
       else State_Monad.return (ret, sensors) } }"

lemma bridge_nodes_run:
  assumes f: "fresh bridge_res s0" and g: "gained [BridgeMem] s0 s" and run: "run_state (bridge_nodes fails) s = ((ret, ss), s')"
  shows "if ret = ok then length ss = 2 \<and> gained bridge_res s0 s' else undone s0 s'"
proof -
  obtain r1 s1 where 1: "run_state (acquire fails IpuNode) s = (r1, s1)" by (rule prod.exhaust)
  obtain r2 ss2 s2 where 2: "run_state (ipu_bridge_setup_mipi_bridges fails) s1 = ((r2, ss2), s2)"
    by (metis prod.exhaust)
  have f1: "fresh [BridgeMem] s0" "fresh [IpuNode] s0" "fresh (sensor_res 2) s0" "fresh [IpuNode, BridgeMem] s0"
    using f by (auto simp: bridge_res_def fresh_def)
  from 1 show ?thesis
  proof (cases rule: acquire_cases)
    case (error e)
    then have "undone s0 (snd (run_state (release BridgeMem) s1))"
      using gives_back_all [OF gives_back_release f1(1)] g gained_undone by blast
    then show ?thesis
      using run 1 error by (auto simp: bridge_nodes_def case_prod_beta)
  next
    case ok
    have g1: "gained [IpuNode, BridgeMem] s0 s1"
      using gained_trans [OF g ok(2)] gained_cong [of "[BridgeMem, IpuNode]" "[IpuNode, BridgeMem]"] by auto
    have ap: "set [IpuNode, BridgeMem] \<inter> set (sensor_res 2) = {}" by (auto simp: sensor_res_set)
    have n: "if r2 = ok then length ss2 = 2 \<and> gained (sensor_res 2) s1 s2 else undone s1 s2"
      using setup_bridges [of "[]" mipi_bridge_configs s1 s1 fails r2 ss2 s2] 2 fresh_gained [OF f1(3) g1 ap]
      by (auto simp: ipu_bridge_setup_mipi_bridges_def mipi_bridge_configs_def gained_nil numeral_2_eq_2 split: if_splits)
    show ?thesis
    proof (cases "r2 = ok")
      case True
      then show ?thesis
        using run 1 2 n ok gained_trans [OF g1 _ ap] by (auto simp: bridge_nodes_def bridge_res_def split: if_splits)
    next
      case False
      then have "gained ([IpuNode] @ [BridgeMem]) s0 s2" using g1 n gained_undone by auto
      then have "undone s0 (snd (run_state (State_Monad.bind (release IpuNode) (\<lambda>_. release BridgeMem)) s2))"
        using f1(4) by (intro gives_back_all [OF gives_back_seq [OF gives_back_release gives_back_release]]) auto
      then show ?thesis
        using run 1 2 False ok by (auto simp: bridge_nodes_def case_prod_beta)
    qed
  qed
qed

definition bridge_hang :: "script \<Rightarrow> ipu_sensor list \<Rightarrow> ('z bridge_state_scheme, unit res) state" where
  "bridge_hang fails sensors = do {
     found \<leftarrow> attempt fails;
     unused \<leftarrow> (if found = ok then attempt fails else State_Monad.return ok);
     if found \<noteq> ok \<or> unused \<noteq> ok then do {
       drop_bridge sensors;
       kmod (\<lambda>s. s\<lparr>static_bridge := None\<rparr>);
       State_Monad.return (Inl (if found \<noteq> ok then ENODEV else ENOTUNIQ)) }
     else do {
       dev \<leftarrow> kget dev_fwnode;
       (if dev = FwNull then wild_use else State_Monad.return ());
       kmod (\<lambda>s. s\<lparr>dev_fwnode := set_secondary (FwNode True FwNull) (dev_fwnode s), static_bridge := Some sensors\<rparr>);
       State_Monad.return ok } }"

lemma bridge_init_halves:
  "ambu_ipu_bridge_init fails = do {
     ret \<leftarrow> alloc fails BridgeMem;
     if ret \<noteq> ok then do { kmod (\<lambda>s. s\<lparr>static_bridge := None\<rparr>); State_Monad.return ret }
     else do {
       kmod (\<lambda>s. s\<lparr>static_bridge := Some []\<rparr>);
       (ret, sensors) \<leftarrow> bridge_nodes fails;
       if ret \<noteq> ok \<or> sensors = [] then do { kmod (\<lambda>s. s\<lparr>static_bridge := None\<rparr>); State_Monad.return ret }
       else bridge_hang fails sensors } }"
  unfolding ambu_ipu_bridge_init_def bridge_nodes_def drop_bridge_def bridge_hang_def
  by (rule state.expand) (auto simp: fun_eq_iff split: prod.splits)

lemma bridge_hang_run:
  assumes l: "length ss = 2" and f: "fresh bridge_res s0" and g: "gained bridge_res s0 s"
    and d: "dev_fwnode s0 \<noteq> FwNull" and run: "run_state (bridge_hang fails ss) s = (ret, s')"
  shows "if ret = ok then gained bridge_res
      (s0\<lparr>static_bridge := Some ss, dev_fwnode := set_secondary (FwNode True FwNull) (dev_fwnode s0)\<rparr>) s'
    else undone (s0\<lparr>static_bridge := None\<rparr>) s'"
proof -
  have c: "gained bridge_res s0 (s\<lparr>calls := m\<rparr>)" for m
    using g gained_undone undone_calls by blast
  have u: "undone (s0\<lparr>static_bridge := None\<rparr>) (snd (run_state (drop_bridge ss) (s\<lparr>calls := m\<rparr>))\<lparr>static_bridge := None\<rparr>)" for m
    by (intro static_bridge_moves(2) gives_back_all [OF drop_bridge_gives_back [OF l] f c])
  have k: "gained bridge_res
      (s0\<lparr>static_bridge := b, dev_fwnode := w\<rparr>) (s\<lparr>calls := m, dev_fwnode := w, static_bridge := b\<rparr>)" for m b w
    using static_bridge_moves(3) [OF static_bridge_moves(1) [OF c], of w b m] by simp
  show ?thesis
    using run u k d gained_same(1) [OF g]
    by (auto simp: bridge_hang_def run_attempt case_prod_beta split: option.splits if_splits)
qed

lemma run_alloc_cases:
  assumes "run_state (alloc fails r) s = (ret, s')"
  obtains (ok) "ret = ok" "gained [r] s s'" | (error) "ret = Inl ENOMEM" "undone s s'"
  using assms by (auto simp: alloc_def split: prod.splits elim!: acquire_cases)

lemma bridge_init_run:
  assumes f: "fresh bridge_res s" and d: "dev_fwnode s \<noteq> FwNull" and run: "run_state (ambu_ipu_bridge_init fails) s = (ret, s')"
  shows "if ret = ok then \<exists>ss. length ss = 2 \<and> gained bridge_res
      (s\<lparr>static_bridge := Some ss, dev_fwnode := set_secondary (FwNode True FwNull) (dev_fwnode s)\<rparr>) s'
    else undone (s\<lparr>static_bridge := None\<rparr>) s'"
proof -
  obtain r1 s1 where 1: "run_state (alloc fails BridgeMem) s = (r1, s1)" by (rule prod.exhaust)
  let ?b = "\<lambda>b s. s\<lparr>static_bridge := b\<rparr>"
  obtain r2 ss s2 where 2: "run_state (bridge_nodes fails) (?b (Some []) s1) = ((r2, ss), s2)" by (metis prod.exhaust)
  from 1 show ?thesis
  proof (cases rule: run_alloc_cases)
    case error
    then show ?thesis using run 1 static_bridge_moves(2) by (auto simp: bridge_init_halves)
  next
    case ok
    from ok(2) have g1: "gained [BridgeMem] (?b (Some []) s) (?b (Some []) s1)" by (rule static_bridge_moves(1))
    have f1: "fresh bridge_res (?b (Some []) s)" using f by (simp add: static_bridge_moves)
    note n = bridge_nodes_run [OF f1 g1 2]
    show ?thesis
    proof (cases "r2 = ok")
      case False
      then have "undone (?b None s) (?b None s2)" using n static_bridge_moves(2) [of "?b (Some []) s" s2 None] by simp
      then show ?thesis using run 1 2 ok False by (auto simp: bridge_init_halves)
    next
      case True
      then have l: "length ss = 2" and g: "gained bridge_res (?b (Some []) s) s2" using n by auto
      have "run_state (bridge_hang fails ss) s2 = (ret, s')"
        using run 1 2 ok True l by (auto simp: bridge_init_halves split: if_splits)
      from bridge_hang_run [OF l f1 g _ this] show ?thesis using l d by (auto split: if_splits)
    qed
  qed
qed

text \<open>Starting the bridge to the MIPI converters, whatever call of the kernel fails on the way and with
  which error, either succeeds, with two sensors and their nodes held and the node of the IPU
  made the secondary one of the device, or leaves nothing held; and stopping a started bridge gives back
  everything and clears the secondary node.\<close>
theorem bridge_all_or_nothing:
  assumes "fresh bridge_res s" "dev_fwnode s \<noteq> FwNull" "run_state (ambu_ipu_bridge_init fails) s = (ret, s')"
  shows "if ret = ok then
      (\<exists>ss. length ss = 2 \<and> gained bridge_res
        (s\<lparr>static_bridge := Some ss, dev_fwnode := set_secondary (FwNode True FwNull) (dev_fwnode s)\<rparr>) s') \<and>
      undone (s\<lparr>static_bridge := None, dev_fwnode := set_secondary FwNull (dev_fwnode s)\<rparr>)
        (snd (run_state ambu_ipu_bridge_uninit s'))
    else undone (s\<lparr>static_bridge := None\<rparr>) s'"
proof (cases "ret = ok")
  case False
  then show ?thesis using bridge_init_run [OF assms] by simp
next
  case True
  let ?w = "set_secondary (FwNode True FwNull) (dev_fwnode s)"
  obtain ss where l: "length ss = 2" and g: "gained bridge_res (s\<lparr>static_bridge := Some ss, dev_fwnode := ?w\<rparr>) s'"
    using bridge_init_run [OF assms] True by auto
  let ?s1 = "s\<lparr>static_bridge := Some ss, dev_fwnode := set_secondary FwNull ?w\<rparr>"
  have w: "?w \<noteq> FwNull" using assms(2) by (cases "dev_fwnode s") auto
  have "gained bridge_res ?s1 (s'\<lparr>dev_fwnode := set_secondary FwNull ?w\<rparr>)"
    using static_bridge_moves(3) [OF g, of "set_secondary FwNull ?w"] by simp
  then have "undone (?s1\<lparr>static_bridge := None\<rparr>)
      (snd (run_state (drop_bridge ss) (s'\<lparr>dev_fwnode := set_secondary FwNull ?w\<rparr>))\<lparr>static_bridge := None\<rparr>)"
    using assms(1) by (intro static_bridge_moves(2) gives_back_all [OF drop_bridge_gives_back [OF l]]) (simp_all add: static_bridge_moves)
  moreover have "snd (run_state ambu_ipu_bridge_uninit s') =
      snd (run_state (drop_bridge ss) (s'\<lparr>dev_fwnode := set_secondary FwNull ?w\<rparr>))\<lparr>static_bridge := None\<rparr>"
    using gained_same(1) [OF g] w by (simp add: ambu_ipu_bridge_uninit_def drop_bridge_def case_prod_beta)
  moreover have "set_secondary FwNull ?w = set_secondary FwNull (dev_fwnode s)" by (cases "dev_fwnode s") auto
  ultimately show ?thesis using True l g by auto
qed

definition ex_bridge :: bridge_state where
  "ex_bridge = \<lparr>calls = 0, held = (\<lambda>_. 0), misuse = False, dev_fwnode = FwNode False FwNull, static_bridge = None, g_virt_sensor = None\<rparr>"

lemma ex_bridge_fresh: "fresh rs ex_bridge"
  by (simp add: fresh_def nonneg_def ex_bridge_def)

text \<open>When no call fails, the bridge starts.\<close>

lemma setup_bridges_ok:
  "length ss + length cfgs \<le> 4 \<Longrightarrow>
   fst (fst (run_state (setup_mipi_bridges (\<lambda>_. None) cfgs ss) s)) = ok"
proof (induction cfgs arbitrary: ss s)
  case (Cons cfg cfgs)
  obtain s1 where 1: "run_state (setup_sensor (\<lambda>_. None) cfg (length ss)) s = (ok, s1)"
    by (simp add: setup_sensor_def then_or_undo_def ipu_bridge_init_i2c_dev_def ledger_runs)
  obtain x where "run_state (ipu_bridge_setup_mipi_bridge (\<lambda>_. None) cfg ss) s = ((ok, ss @ [x]), s1)"
    using setup_mipi_bridge_run [of ss "\<lambda>_. None" cfg s] Cons.prems 1 by auto
  then show ?case using Cons.IH [of "ss @ [x]" s1] Cons.prems by simp
qed simp

lemma bridge_starts: "fst (run_state (ambu_ipu_bridge_init (\<lambda>_. None)) s) = ok"
proof -
  have "fst (fst (run_state (ipu_bridge_setup_mipi_bridges (\<lambda>_. None)) s)) = ok" for s :: "'a bridge_state_scheme"
    using setup_bridges_ok [of "[]" mipi_bridge_configs s]
    by (simp add: ipu_bridge_setup_mipi_bridges_def mipi_bridge_configs_def)
  then have "fst (fst (run_state (bridge_nodes (\<lambda>_. None)) s)) = ok" for s :: "'a bridge_state_scheme"
    by (simp add: bridge_nodes_def run_acquire case_prod_beta)
  moreover have "fst (run_state (bridge_hang (\<lambda>_. None) ss) s) = ok" for ss and s :: "'a bridge_state_scheme"
    by (simp add: bridge_hang_def run_attempt case_prod_beta)
  ultimately show ?thesis
    by (simp add: bridge_init_halves run_alloc case_prod_beta)
qed

theorem bridge_all_or_nothing_witness:
  "fst (run_state (ambu_ipu_bridge_init (\<lambda>_. None)) ex_bridge) = ok \<and>
   undone ex_bridge (snd (run_state ambu_ipu_bridge_uninit (snd (run_state (ambu_ipu_bridge_init (\<lambda>_. None)) ex_bridge))))"
proof -
  obtain s' where r: "run_state (ambu_ipu_bridge_init (\<lambda>_. None)) ex_bridge = (ok, s')"
    using bridge_starts by (metis prod.collapse)
  show ?thesis
    using bridge_all_or_nothing [OF ex_bridge_fresh _ r] by (simp add: r) (simp add: ex_bridge_def)
qed

section \<open>The virtual sensor\<close>

definition virt_res :: "resource list" where
  "virt_res = [VirtMem, VirtNodes, VirtCtrl, VirtEntity, VirtAsync]"

lemma virt_register_run:
  assumes "fresh [VirtCtrl, VirtEntity, VirtAsync] s" "run_state (virt_sensor_register fails) s = (ret, s')"
  shows "if ret = ok then gained [VirtCtrl, VirtEntity, VirtAsync] s s' \<and> calls s' = calls s + 4
    else if calls s' = calls s + 3 then gained [VirtCtrl] s s' else undone s s' \<and> calls s < calls s'"
  using assms
  by (auto simp: virt_sensor_register_def ledger_runs ledger_upds fresh_def split: option.splits if_splits)

lemma set_secondary_twice [simp]: "set_secondary b (set_secondary a w) = set_secondary b w"
  by (cases w) simp_all

lemma virt_remove_run:
  assumes f: "fresh virt_res s" and g: "gained virt_res s s'" and v: "g_virt_sensor s = Some True"
  shows "undone (s\<lparr>dev_fwnode := set_secondary FwNull (dev_fwnode s), g_virt_sensor := None\<rparr>)
    (snd (run_state ipu4_virt_sensor_remove s'))"
proof -
  let ?m = "do { release VirtAsync; release VirtEntity; release VirtCtrl }"
  let ?n = "do { release VirtNodes; release VirtMem }"
  let ?w = "set_secondary FwNull (dev_fwnode s)"
  have m: "gives_back ?m ([VirtAsync] @ [VirtEntity] @ [VirtCtrl])"
    by (intro gives_back_seq gives_back_release) simp_all
  have n: "gives_back ?n ([VirtNodes] @ [VirtMem])"
    by (intro gives_back_seq gives_back_release) simp_all
  have "gained (([VirtAsync] @ [VirtEntity] @ [VirtCtrl]) @ [VirtNodes, VirtMem]) s s'"
    using g by (rule gained_cong [THEN iffD1, rotated]) (auto simp: virt_res_def)
  then have 2: "gained [VirtNodes, VirtMem] s (snd (run_state ?m s'))"
    using f by (intro gives_backD [OF m]) (auto simp: fresh_def virt_res_def)
  then have "gained ([VirtNodes] @ [VirtMem]) (s\<lparr>dev_fwnode := ?w\<rparr>) (snd (run_state ?m s')\<lparr>dev_fwnode := ?w\<rparr>)"
    using static_bridge_moves(3) by simp
  then have "undone (s\<lparr>dev_fwnode := ?w\<rparr>) (snd (run_state ?n (snd (run_state ?m s')\<lparr>dev_fwnode := ?w\<rparr>)))"
    using f by (intro gives_back_all [OF n]) (auto simp: fresh_def virt_res_def nonneg_def)
  then show ?thesis
    using static_bridge_moves(5) [of "s\<lparr>dev_fwnode := ?w\<rparr>" _ None] gained_same(1) [OF g] gained_same(1) [OF 2] v
    by (simp add: ipu4_virt_sensor_remove_def case_prod_beta)
qed

text \<open>What the registration starts from, and what happens around it.\<close>

definition with_nodes :: "'z bridge_state_scheme \<Rightarrow> 'z bridge_state_scheme" where
  "with_nodes s = s\<lparr>calls := Suc (Suc (Suc (calls s))), held := (held s)(VirtMem := 1, VirtNodes := 1),
     dev_fwnode := set_secondary (FwNode True FwNull) (dev_fwnode s)\<rparr>"

lemma virt_install_cases:
  assumes f: "fresh virt_res s" and run: "run_state (ipu4_virt_sensor_install fails) s = (ret, s')"
  obtains (early) "ret \<noteq> ok" "undone s s'" "calls s' \<le> calls s + 3"
  | (late) rr s1 where "run_state (virt_sensor_register fails) (with_nodes s) = (rr, s1)" "ret = rr" "g_virt_sensor s = None"
      "s' = (if rr = ok then s1\<lparr>g_virt_sensor := Some True\<rparr> else
         snd (run_state (do { release VirtNodes; release VirtMem }) (s1\<lparr>dev_fwnode := set_secondary FwNull (dev_fwnode s1)\<rparr>)))"
proof -
  have h: "held s VirtMem = 0" "held s VirtNodes = 0" using f by (auto simp: fresh_def virt_res_def)
  let ?n = "calls s"
  consider (guard) "g_virt_sensor s \<noteq> None \<or> dev_fwnode s = FwNull \<or> fw_secondary (dev_fwnode s) \<noteq> FwNull \<and> fw_secondary (dev_fwnode s) \<noteq> FwErr"
    | (fails) e where "g_virt_sensor s = None" "dev_fwnode s \<noteq> FwNull" "fw_secondary (dev_fwnode s) = FwNull \<or> fw_secondary (dev_fwnode s) = FwErr"
        "fails ?n = Some e \<or> fails ?n = None \<and> fails (Suc ?n) = Some e \<or>
         fails ?n = None \<and> fails (Suc ?n) = None \<and> fails (Suc (Suc ?n)) = Some e"
    | (ok) "g_virt_sensor s = None" "dev_fwnode s \<noteq> FwNull" "fw_secondary (dev_fwnode s) = FwNull \<or> fw_secondary (dev_fwnode s) = FwErr"
        "fails ?n = None" "fails (Suc ?n) = None" "fails (Suc (Suc ?n)) = None"
    by (cases "fails ?n"; cases "fails (Suc ?n)"; cases "fails (Suc (Suc ?n))"; blast)
  then show thesis
  proof cases
    case guard
    then show ?thesis using run by (intro early) (auto simp: ipu4_virt_sensor_install_def split: if_splits)
  next
    case (fails e)
    then show ?thesis using run h
      by (intro early) (auto simp: ipu4_virt_sensor_install_def ledger_runs undone_upd)
  next
    case ok
    obtain rr s1 where r: "run_state (virt_sensor_register fails) (with_nodes s) = (rr, s1)" by (rule prod.exhaust)
    have "run_state (ipu4_virt_sensor_install fails) s = run_state (do {
        ret \<leftarrow> virt_sensor_register fails;
        if ret \<noteq> ok then do {
          kmod (\<lambda>s. s\<lparr>dev_fwnode := set_secondary FwNull (dev_fwnode s)\<rparr>);
          release VirtNodes;
          release VirtMem;
          State_Monad.return ret }
        else do {
          kmod (\<lambda>s. s\<lparr>g_virt_sensor := Some True\<rparr>);
          State_Monad.return ok } }) (with_nodes s)"
      using ok h by (auto simp: ipu4_virt_sensor_install_def run_attempt run_acquire run_alloc with_nodes_def)
    then have "(ret, s') = (rr, if rr = ok then s1\<lparr>g_virt_sensor := Some True\<rparr> else
         snd (run_state (do { release VirtNodes; release VirtMem }) (s1\<lparr>dev_fwnode := set_secondary FwNull (dev_fwnode s1)\<rparr>)))"
      using run r by (auto simp: case_prod_beta)
    with r ok show ?thesis by (intro late) auto
  qed
qed

lemma virt_install_ok:
  assumes "fresh virt_res s" "run_state (ipu4_virt_sensor_install fails) s = (ok, s')"
  shows "g_virt_sensor s = None \<and>
    gained virt_res (s\<lparr>dev_fwnode := set_secondary (FwNode True FwNull) (dev_fwnode s), g_virt_sensor := Some True\<rparr>) s'"
  using assms
proof (cases rule: virt_install_cases)
  case (late rr s1)
  have f: "fresh [VirtCtrl, VirtEntity, VirtAsync] (with_nodes s)"
    using assms(1) by (auto simp: fresh_def nonneg_def virt_res_def with_nodes_def)
  have h: "held s VirtMem = 0" "held s VirtNodes = 0" using assms(1) by (auto simp: fresh_def virt_res_def)
  have "gained [VirtCtrl, VirtEntity, VirtAsync] (with_nodes s) s1"
    using virt_register_run [OF f late(1)] late(2) by auto
  then obtain n where n: "s1 = (with_nodes s)\<lparr>calls := n, held :=
      (\<lambda>r. held (with_nodes s) r + of_bool (r \<in> set [VirtCtrl, VirtEntity, VirtAsync]))\<rparr>" by (rule gainedE)
  have "gained virt_res (s\<lparr>dev_fwnode := set_secondary (FwNode True FwNull) (dev_fwnode s), g_virt_sensor := Some True\<rparr>) s'"
    using late by (intro gainedI) (auto simp: n with_nodes_def virt_res_def h)
  then show ?thesis using late(3) by simp
qed simp

text \<open>Installing the virtual sensor, whatever call of the kernel fails on the way and with which
  error: on success all its resources are held, the node of the IPU is the secondary one of the device, and removing
  the sensor gives everything back. After a failure nothing is held, except when the pads of the media entity cannot be
  set up, the sixth call: then the controls stay allocated.\<close>
theorem virt_sensor_leak_only_at_pads:
  fixes s :: "'z bridge_state_scheme"
  assumes "fresh virt_res s" "run_state (ipu4_virt_sensor_install fails) s = (ret, s')"
  shows "if ret = ok then
      gained virt_res (s\<lparr>dev_fwnode := set_secondary (FwNode True FwNull) (dev_fwnode s), g_virt_sensor := Some True\<rparr>) s' \<and>
      undone (s\<lparr>dev_fwnode := set_secondary FwNull (dev_fwnode s)\<rparr>) (snd (run_state ipu4_virt_sensor_remove s'))
    else if calls s' = calls s + 6 then gained [VirtCtrl] (s\<lparr>dev_fwnode := set_secondary FwNull (dev_fwnode s)\<rparr>) s'
    else \<exists>w. undone (s\<lparr>dev_fwnode := w\<rparr>) s'"
  using assms
proof (cases rule: virt_install_cases)
  case early
  then show ?thesis by (auto intro!: exI [where x = "dev_fwnode s"])
next
  case (late rr s1)
  have "fresh [VirtCtrl, VirtEntity, VirtAsync] (with_nodes s)"
    using assms(1) by (auto simp: fresh_def nonneg_def virt_res_def with_nodes_def)
  note g = virt_register_run [OF this late(1)]
  have h: "held s VirtMem = 0" "held s VirtNodes = 0" "held s VirtCtrl = 0" "held s VirtEntity = 0" "held s VirtAsync = 0"
    using assms(1) by (auto simp: fresh_def virt_res_def)
  consider (ok) "rr = ok" "gained [VirtCtrl, VirtEntity, VirtAsync] (with_nodes s) s1"
    | (pads) "rr \<noteq> ok" "calls s1 = calls s + 6" "gained [VirtCtrl] (with_nodes s) s1"
    | (error) "rr \<noteq> ok" "calls s1 \<noteq> calls s + 6" "undone (with_nodes s) s1"
    using g by (auto simp: with_nodes_def split: if_splits)
  then show ?thesis
  proof cases
    case ok
    have g: "gained virt_res (s\<lparr>dev_fwnode := set_secondary (FwNode True FwNull) (dev_fwnode s), g_virt_sensor := Some True\<rparr>) s'"
      using virt_install_ok [OF assms(1)] assms(2) late(2) ok(1) by simp
    moreover have e: "s\<lparr>dev_fwnode := w, g_virt_sensor := None\<rparr> = s\<lparr>dev_fwnode := w\<rparr>" for w using late(3) by simp
    ultimately have "undone (s\<lparr>dev_fwnode := set_secondary FwNull (dev_fwnode s)\<rparr>) (snd (run_state ipu4_virt_sensor_remove s'))"
      using virt_remove_run [of "s\<lparr>dev_fwnode := set_secondary (FwNode True FwNull) (dev_fwnode s), g_virt_sensor := Some True\<rparr>" s']
        assms(1) e by (simp add: static_bridge_moves)
    with g show ?thesis using late ok by simp
  next
    case pads
    from pads(3) obtain n where n: "s1 = (with_nodes s)\<lparr>calls := n, held :=
        (\<lambda>r. held (with_nodes s) r + of_bool (r \<in> set [VirtCtrl]))\<rparr>" by (rule gainedE)
    have "gained [VirtCtrl] (s\<lparr>dev_fwnode := set_secondary FwNull (dev_fwnode s)\<rparr>) s'"
      by (rule gainedI) (auto simp: late pads n run_release with_nodes_def h)
    moreover have "calls s' = calls s + 6"
      using pads(2) by (simp add: late pads n run_release with_nodes_def h)
    ultimately show ?thesis using late pads by simp
  next
    case error
    from error(3) obtain n where n: "s1 = (with_nodes s)\<lparr>calls := n\<rparr>" by (auto simp: undone_def)
    have "undone (s\<lparr>dev_fwnode := set_secondary FwNull (dev_fwnode s)\<rparr>) s'"
      by (rule undoneI) (auto simp: late error n run_release with_nodes_def h)
    moreover have "calls s' \<noteq> calls s + 6"
      using error(2) by (simp add: late error n run_release with_nodes_def h)
    ultimately show ?thesis using late error by auto
  qed
qed

theorem virt_sensor_leak_witness:
  "fst (run_state (ipu4_virt_sensor_install (\<lambda>_. None)) ex_bridge) = ok \<and>
   held (snd (run_state (ipu4_virt_sensor_install ((\<lambda>_. None)(5 \<mapsto> ENOMEM))) ex_bridge)) VirtCtrl = 1"
proof -
  let ?f = "(\<lambda>_. None)(5 \<mapsto> ENOMEM)"
  obtain ret s' where r: "run_state (ipu4_virt_sensor_install ?f) ex_bridge = (ret, s')" by (rule prod.exhaust)
  have "ret = Inl ENOMEM \<and> calls s' = 6"
    using r by (auto simp: ipu4_virt_sensor_install_def virt_sensor_register_def ledger_runs ex_bridge_def)
  then have "gained [VirtCtrl] ex_bridge s'"
    using virt_sensor_leak_only_at_pads [OF ex_bridge_fresh r] by (simp add: ex_bridge_def)
  then have "held s' VirtCtrl = 1" by (auto simp: gained_def ex_bridge_def)
  moreover have "fst (run_state (ipu4_virt_sensor_install (\<lambda>_. None)) ex_bridge) = ok"
    by (simp add: ipu4_virt_sensor_install_def virt_sensor_register_def ledger_runs ex_bridge_def)
  ultimately show ?thesis using r by simp
qed

end
