(* ===== verification/Pci_Props.thy ===== *)
theory Pci_Props
  imports Pci_Driver Bridge_Props
begin

text \<open>
  What the PCI driver holds after a probe that succeeded or failed, and after its removal.
\<close>

lemma with_held_fields [simp]:
  "dev_fwnode (with_held S s) = dev_fwnode s" "static_bridge (with_held S s) = static_bridge s"
  "g_virt_sensor (with_held S s) = g_virt_sensor s"
  "(with_held S s)\<lparr>dev_fwnode := w\<rparr> = with_held S (s\<lparr>dev_fwnode := w\<rparr>)"
  "(with_held S s)\<lparr>static_bridge := b\<rparr> = with_held S (s\<lparr>static_bridge := b\<rparr>)"
  "(with_held S s)\<lparr>g_virt_sensor := v\<rparr> = with_held S (s\<lparr>g_virt_sensor := v\<rparr>)"
  by (simp_all add: with_held_def)

lemma with_held_pci [simp]:
  "isys_ptr (with_held S s) = isys_ptr s" "psys_ptr (with_held S s) = psys_ptr s"
  "bus_devices (with_held S s) = bus_devices s"
  "(with_held S s)\<lparr>isys_ptr := p\<rparr> = with_held S (s\<lparr>isys_ptr := p\<rparr>)"
  "(with_held S s)\<lparr>psys_ptr := p\<rparr> = with_held S (s\<lparr>psys_ptr := p\<rparr>)"
  "(with_held S s)\<lparr>bus_devices := d\<rparr> = with_held S (s\<lparr>bus_devices := d\<rparr>)"
  "(with_held S s)\<lparr>bus_ready_to_probe := r\<rparr> = with_held S (s\<lparr>bus_ready_to_probe := r\<rparr>)"
  by (simp_all add: with_held_def)

section \<open>The device of a sub-system\<close>

abbreviation subsys_res :: "subsys \<Rightarrow> resource set" where
  "subsys_res k \<equiv> {Pdata k, Adev k, MmuOf k}"

lemma subsys_init_run:
  assumes "subsys_res k \<inter> S = {}" "run_state (ipu6_subsys_init fails k) (with_held S s) = (ret, s')"
  shows "if ret = ok then s' = with_held (S \<union> subsys_res k) (s\<lparr>calls := calls s + 5, bus_devices := k # bus_devices s\<rparr>)
    else if calls s' \<le> calls s + 3 then \<exists>n. s' = with_held S (s\<lparr>calls := n\<rparr>)
    else misuse s' \<and> (\<exists>n. s' = with_held (if calls s' = calls s + 4 then S else insert (MmuOf k) S) (s\<lparr>calls := n, misuse := True\<rparr>))"
  using assms
  by (auto simp: ipu6_subsys_init_def ipu6_bus_initialize_device_def ipu6_bus_add_device_def ipu6_bus_release_def
      held_runs insert_Diff_if insert_commute numeral_eq_Suc split: option.splits)

section \<open>What the error paths cannot repair\<close>

text \<open>A misuse is never forgotten, and a reference of the power management is only given back on success.\<close>

definition bad :: "'z kern_scheme \<Rightarrow> bool" where
  "bad s \<longleftrightarrow> misuse s \<or> held s (PmRef Psys) > 0"

lemma bad_keeps [keeps_rules]:
  "r \<noteq> PmRef Psys \<Longrightarrow> keeps bad (release r)" "r \<noteq> PmRef Psys \<Longrightarrow> keeps bad (release_if r)" "keeps bad wild_use"
  "keeps bad (kget g)" "(\<And>s. bad (f s) = bad s) \<Longrightarrow> keeps bad (kmod f)"
  by (auto intro!: keepsI simp: bad_def run_release run_release_if)

lemma bad_fields [simp]:
  "bad (s\<lparr>dev_fwnode := w\<rparr>) = bad s" "bad (s\<lparr>static_bridge := b\<rparr>) = bad s" "bad (s\<lparr>g_virt_sensor := v\<rparr>) = bad s"
  "bad (s'\<lparr>bus_devices := d\<rparr>) = bad s'"
  by (simp_all add: bad_def)

lemma bad_clean: "bad s \<Longrightarrow> \<not> clean s"
  by (auto simp: bad_def clean_def)

lemma bad_unregister [keeps_rules]: "keeps bad (unregister_sensors ks)"
  by (induction ks) (auto intro!: keeps_rules)

lemma bad_del_devices [keeps_rules]: "keeps bad (del_devices ks)"
  by (induction ks) (auto simp: ipu6_bus_release_def intro!: keeps_rules)

lemma bad_disconnect [keeps_rules]: "keeps bad (disconnect_sensors virt)"
  unfolding disconnect_sensors_def ambu_ipu_bridge_uninit_def ipu4_virt_sensor_remove_def ipu_bridge_unregister_sensors_def
  by (intro keeps_rules) auto

lemma bad_out [keeps_rules]: "keeps bad out_ipu6_bus_del_devices" "keeps bad (out_ipu_bridge_uninit virt)"
  unfolding out_ipu_bridge_uninit_def out_ipu6_bus_del_devices_def ipu6_bus_del_devices_def
  by (intro keeps_rules; auto split: adev_ptr.split intro!: keeps_rules)+

lemma probe_psys_run:
  assumes "{PmRef Psys, MmuOn Psys, FwImage Psys, PkgDir Psys, Irq} \<inter> S = {}"
    and "run_state (probe_psys fails) (with_held S s) = (ret, s')"
  shows "if ret = ok then s' = with_held (S \<union> {FwImage Psys, PkgDir Psys, Irq}) (s\<lparr>calls := calls s', bus_ready_to_probe := True\<rparr>)
    else s' = with_held S (s\<lparr>calls := calls s + 1\<rparr>) \<or> bad s'"
  using assms
  by (auto simp: probe_psys_def held_runs insert_Diff_if insert_commute bad_def split: option.splits)

section \<open>How many calls the bridge makes\<close>

lemma calls_keeps [keeps_rules]:
  "keeps (\<lambda>s. calls s = n) (release r)" "keeps (\<lambda>s. calls s = n) wild_use" "keeps (\<lambda>s. calls s = n) (kget g)"
  "(\<And>s. calls (f s) = calls s) \<Longrightarrow> keeps (\<lambda>s. calls s = n) (kmod f)"
  by (auto intro!: keepsI simp: run_release)

lemma calls_unregister [keeps_rules]: "keeps (\<lambda>s. calls s = n) (ipu_bridge_unregister_sensors ss)"
proof -
  have "keeps (\<lambda>s. calls s = n) (unregister_sensors ks)" for ks
    by (induction ks) (auto intro!: keeps_rules)
  then show ?thesis unfolding ipu_bridge_unregister_sensors_def .
qed

lemma calls_same: "keeps (\<lambda>s. calls s = calls s0) m \<Longrightarrow> calls (snd (run_state m s0)) = calls s0"
  by (rule keepsD) simp_all

lemma setup_sensor_calls:
  assumes "run_state (setup_sensor fails cfg k) s = (ret, s')"
  shows "calls s' \<le> calls s + 3 \<and> (ret = ok \<longrightarrow> calls s' = calls s + 3)"
  using assms
  by (auto simp: setup_sensor_def then_or_undo_def ipu_bridge_init_i2c_dev_def ledger_runs split: option.splits)

lemma setup_bridges_calls:
  assumes "length ss + length cfgs \<le> 4" "run_state (setup_mipi_bridges fails cfgs ss) s = ((ret, ss'), s')"
  shows "calls s' \<le> calls s + 3 * length cfgs \<and>
    (ret = ok \<longrightarrow> calls s' = calls s + 3 * length cfgs \<and> length ss' = length ss + length cfgs)"
  using assms
proof (induction cfgs arbitrary: ss s)
  case (Cons cfg cfgs)
  obtain r s1 where 1: "run_state (setup_sensor fails cfg (length ss)) s = (r, s1)" by (rule prod.exhaust)
  obtain x where x: "run_state (ipu_bridge_setup_mipi_bridge fails cfg ss) s = ((r, if r = ok then ss @ [x] else ss), s1)"
    using setup_mipi_bridge_run [of ss fails cfg s] Cons.prems(1) 1 by auto
  note c = setup_sensor_calls [OF 1]
  show ?case
  proof (cases "r = ok")
    case True
    then show ?thesis using Cons.IH [of "ss @ [x]" s1] Cons.prems x c by auto
  next
    case False
    have "calls (snd (run_state (ipu_bridge_unregister_sensors ss) s1)) = calls s1"
      by (intro calls_same keeps_rules)
    then show ?thesis using Cons.prems(2) x False c by (auto simp: case_prod_beta)
  qed
qed simp

lemma bridge_calls:
  assumes "run_state (ambu_ipu_bridge_init fails) s = (ret, s')"
  shows "calls s' \<le> calls s + 10 \<and> (ret = ok \<longrightarrow> calls s' = calls s + 10)"
proof -
  have n: "calls t' \<le> calls t + 7 \<and> (r = ok \<longrightarrow> calls t' = calls t + 7 \<and> ss \<noteq> [])"
    if "run_state (bridge_nodes fails) t = ((r, ss), t')" for r ss and t t' :: "'a bridge_state_scheme"
  proof -
    obtain r2 ss2 t2 where 2: "run_state (ipu_bridge_setup_mipi_bridges fails) (t\<lparr>calls := Suc (calls t), held := (held t)(IpuNode := held t IpuNode + 1)\<rparr>) = ((r2, ss2), t2)"
      by (metis prod.exhaust)
    with setup_bridges_calls [of "[]" mipi_bridge_configs fails _ r2 ss2 t2]
    have "calls t2 \<le> calls t + 7 \<and> (r2 = ok \<longrightarrow> calls t2 = calls t + 7 \<and> ss2 \<noteq> [])"
      by (fastforce simp: ipu_bridge_setup_mipi_bridges_def mipi_bridge_configs_def)
    then show ?thesis
      using that 2 by (auto simp: bridge_nodes_def run_acquire run_release split: option.splits if_splits)
  qed
  have h: "calls t' \<le> calls t + 2 \<and> (r = ok \<longrightarrow> calls t' = calls t + 2)"
    if "run_state (bridge_hang fails ss) t = (r, t')" for r ss and t t' :: "'a bridge_state_scheme"
  proof -
    have "calls (snd (run_state (drop_bridge ss) u)) = calls u" for u :: "'a bridge_state_scheme"
      unfolding drop_bridge_def by (intro calls_same keeps_rules)
    then show ?thesis
      using that by (auto simp: bridge_hang_def run_attempt case_prod_beta split: option.splits if_splits)
  qed
  show ?thesis
    using assms by (auto simp: bridge_init_halves run_alloc split: option.splits prod.splits if_splits dest!: n h)
qed

section \<open>Probe and removal\<close>

text \<open>The state with which the devices are made, and how the probe gets there.\<close>

definition probe_state :: "'z pci_state_scheme \<Rightarrow> 'z pci_state_scheme" where
  "probe_state s = s\<lparr>isys_ptr := NullPtr, psys_ptr := NullPtr, bus_devices := [], bus_ready_to_probe := False,
     calls := Suc (Suc (Suc (Suc (Suc (Suc (Suc (Suc (calls s)))))))) \<rparr>"

lemma probe_variant_ipu4: "probe_variant 0x5a88 = Some (IPU4_VER_4, ''ipu4_cpd_b0.bin'', True, True)"
  by (simp add: probe_variant_def)

lemma probe_cases:
  assumes c: "clean s" and run: "run_state (ipu6_pci_probe virt 0x5a88 fails) s = (ret, s')"
  obtains (early) "ret \<noteq> ok" "calls s' \<le> calls s + 8" "clean s'"
  | (devices) "run_state (probe_devices virt fails) (with_held {ButtressUp, FwFile} (probe_state s)) = (ret, s')"
proof -
  have w: "run_state (ipu6_pci_probe virt 0x5a88 fails) (with_held {} s) = (ret, s')" "\<not> misuse s"
    using c run clean_with_held [of s] by auto
  then have "ret \<noteq> ok \<and> calls s' \<le> calls s + 8 \<and> clean s' \<or>
      run_state (probe_devices virt fails) (with_held {ButtressUp, FwFile} (probe_state s)) = (ret, s')"
    by (auto simp: ipu6_pci_probe_def ipu6_pci_config_setup_def probe_variant_ipu4 out_ipu6_bus_del_devices_def
        ipu6_bus_del_devices_def held_runs insert_Diff_if insert_commute probe_state_def clean_with_held_iff
        split: option.splits)
  then show thesis using early devices by blast
qed

lemma disconnect_bridge:
  assumes l: "length ss = 2" and d: "dev_fwnode s \<noteq> FwNull" and b: "static_bridge s = Some ss" and S: "set bridge_res \<inter> S = {}"
  shows "\<exists>n. snd (run_state (disconnect_sensors False) (with_held (S \<union> set bridge_res) s)) =
    with_held S (s\<lparr>calls := n, dev_fwnode := set_secondary FwNull (dev_fwnode s), static_bridge := None\<rparr>)"
proof -
  let ?t = "s\<lparr>dev_fwnode := set_secondary FwNull (dev_fwnode s)\<rparr>"
  have g: "gained bridge_res (with_held S ?t) (with_held (S \<union> set bridge_res) ?t)"
    using S by (intro gainedI) (auto simp: with_held_def)
  have "undone (with_held S ?t) (snd (run_state (drop_bridge ss) (with_held (S \<union> set bridge_res) ?t)))"
    using gives_back_all [OF drop_bridge_gives_back [OF l] _ g] S by (simp add: fresh_with_held)
  then obtain n where "snd (run_state (drop_bridge ss) (with_held (S \<union> set bridge_res) ?t)) = with_held S (?t\<lparr>calls := n\<rparr>)"
    by (rule undone_with_held)
  then have "snd (run_state (disconnect_sensors False) (with_held (S \<union> set bridge_res) s)) =
      with_held S (?t\<lparr>calls := n, static_bridge := None\<rparr>)"
    using d b by (simp add: disconnect_sensors_def ambu_ipu_bridge_uninit_def drop_bridge_def case_prod_beta)
  moreover have "?t\<lparr>calls := n, static_bridge := None\<rparr> =
      s\<lparr>calls := n, dev_fwnode := set_secondary FwNull (dev_fwnode s), static_bridge := None\<rparr>" by simp
  ultimately show ?thesis by auto
qed

text \<open>A device whose firmware node has neither an endpoint nor a secondary node: the bridge is started.\<close>

definition no_graph :: "fwnode \<Rightarrow> bool" where
  "no_graph w \<longleftrightarrow> w \<noteq> FwNull \<and> ipu6_isys_check_fwnode_graph w \<noteq> ok \<and> (fw_secondary w = FwNull \<or> fw_secondary w = FwErr)"

lemma connect_bridge:
  assumes d: "no_graph (dev_fwnode s)" and S: "set bridge_res \<inter> S = {}"
    and run: "run_state (connect_sensors False fails) (with_held S s) = (ret, s')"
  shows "if ret = ok then calls s' = calls s + 10 \<and> (\<exists>ss. length ss = 2 \<and> s' = with_held (S \<union> set bridge_res)
      (s\<lparr>calls := calls s', dev_fwnode := set_secondary (FwNode True FwNull) (dev_fwnode s), static_bridge := Some ss\<rparr>))
    else calls s' \<le> calls s + 10 \<and> s' = with_held S (s\<lparr>calls := calls s', static_bridge := None\<rparr>)"
proof -
  have run: "run_state (ambu_ipu_bridge_init fails) (with_held S s) = (ret, s')"
    using run d by (auto simp: connect_sensors_def no_graph_def)
  note i = bridge_init_run [OF _ _ run] and c = bridge_calls [OF run]
  have pre: "fresh bridge_res (with_held S s)" "dev_fwnode (with_held S s) \<noteq> FwNull"
    using S d by (simp_all add: fresh_with_held no_graph_def)
  show ?thesis
  proof (cases "ret = ok")
    case True
    then obtain ss where l: "length ss = 2" and g: "gained bridge_res
        (with_held S (s\<lparr>dev_fwnode := set_secondary (FwNode True FwNull) (dev_fwnode s), static_bridge := Some ss\<rparr>)) s'"
      using i [OF pre] by auto
    from g S obtain n where n: "s' = with_held (S \<union> set bridge_res)
        (s\<lparr>dev_fwnode := set_secondary (FwNode True FwNull) (dev_fwnode s), static_bridge := Some ss, calls := n\<rparr>)"
      by (rule gained_with_held)
    then have "s' = with_held (S \<union> set bridge_res)
        (s\<lparr>calls := calls s', dev_fwnode := set_secondary (FwNode True FwNull) (dev_fwnode s), static_bridge := Some ss\<rparr>)"
      by (simp add: with_held_def)
    then show ?thesis using True l c by auto
  next
    case False
    then have "undone (with_held S (s\<lparr>static_bridge := None\<rparr>)) s'" using i [OF pre] by simp
    then obtain n where n: "s' = with_held S (s\<lparr>static_bridge := None, calls := n\<rparr>)" by (rule undone_with_held)
    then have "s' = with_held S (s\<lparr>calls := calls s', static_bridge := None\<rparr>)" by (simp add: with_held_def)
    then show ?thesis using False c by auto
  qed
qed

lemma bridge_res_set:
  "set bridge_res = {IpuNode, BridgeMem, SensorNodes 0, SensorI2c 0, SensorNodes 1, SensorI2c 1}"
  by (auto simp: bridge_res_def sensor_res_set less_2_cases_iff)

text \<open>The bridge stays when the device of the input system cannot be made.\<close>

definition bridge_left :: "'z kern_scheme \<Rightarrow> bool" where
  "bridge_left s \<longleftrightarrow> held s BridgeMem > 0"

lemma bridge_left_keeps [keeps_rules]:
  "r \<noteq> BridgeMem \<Longrightarrow> keeps bridge_left (release r)" "r \<noteq> BridgeMem \<Longrightarrow> keeps bridge_left (release_if r)"
  "keeps bridge_left wild_use" "keeps bridge_left (kget g)" "(\<And>s. bridge_left (f s) = bridge_left s) \<Longrightarrow> keeps bridge_left (kmod f)"
  by (auto intro!: keepsI simp: bridge_left_def run_release run_release_if)

lemma bridge_left_fields [simp]: "bridge_left (s\<lparr>bus_devices := d\<rparr>) = bridge_left s"
  by (simp add: bridge_left_def)

lemma bridge_left_del [keeps_rules]: "keeps bridge_left (del_devices ks)"
  by (induction ks) (auto simp: ipu6_bus_release_def intro!: keeps_rules)

lemma bridge_left_out [keeps_rules]: "keeps bridge_left out_ipu6_bus_del_devices"
  unfolding out_ipu6_bus_del_devices_def ipu6_bus_del_devices_def
  by (intro keeps_rules; auto split: adev_ptr.split intro!: keeps_rules)

lemma bridge_left_clean: "bridge_left s \<Longrightarrow> \<not> clean s"
  by (auto simp: bridge_left_def clean_def)

text \<open>Making the devices after the bridge was started.\<close>

lemma isys_failed_left:
  assumes "subsys_res Isys \<inter> S = {}" "BridgeMem \<in> S" "run_state (ipu6_subsys_init fails Isys) (with_held S s) = (ret, s')" "ret \<noteq> ok"
  shows "bridge_left s'"
proof -
  have "\<exists>T t. s' = with_held T t \<and> BridgeMem \<in> T"
    using subsys_init_run [OF assms(1,3)] assms(2,4) by (auto split: if_splits)
  then show ?thesis by (auto simp: bridge_left_def)
qed

lemma psys_ptr_bad:
  assumes "psys_ptr s = ErrPtr \<or> psys_ptr s = Valid \<and> held s (FwImage Psys) = 0"
  shows "bad (snd (run_state out_ipu6_bus_del_devices s))"
proof -
  let ?m = "do {
     (if psys_ptr s = Valid then release (MmuOf Psys) else State_Monad.return ());
     (if isys_ptr s = Valid then release (MmuOf Isys) else State_Monad.return ());
     ipu6_bus_del_devices;
     release FwFile;
     release ButtressUp }"
  have k: "keeps bad ?m"
    unfolding ipu6_bus_del_devices_def by (intro keeps_rules) auto
  have e: "snd (run_state out_ipu6_bus_del_devices s) = snd (run_state ?m t)"
    if "snd (run_state (case psys_ptr s of
        NullPtr \<Rightarrow> State_Monad.return ()
      | ErrPtr \<Rightarrow> wild_use
      | Valid \<Rightarrow> do { release_if (PkgDir Psys); release (FwImage Psys) }) s) = t" for t
    using that by (simp add: out_ipu6_bus_del_devices_def case_prod_beta)
  have "bad (snd (run_state (case psys_ptr s of
        NullPtr \<Rightarrow> State_Monad.return ()
      | ErrPtr \<Rightarrow> wild_use
      | Valid \<Rightarrow> do { release_if (PkgDir Psys); release (FwImage Psys) }) s))"
    using assms by (auto simp: bad_def run_release run_release_if)
  with k show ?thesis by (subst e [OF refl]) (rule keepsD)
qed

definition psys_is :: "adev_ptr \<Rightarrow> 'z pci_state_scheme \<Rightarrow> bool" where
  "psys_is p s \<longleftrightarrow> psys_ptr s = p \<and> held s (FwImage Psys) = 0"

lemma psys_is_keeps [keeps_rules]:
  "r \<noteq> FwImage Psys \<Longrightarrow> keeps (psys_is p) (release r)" "keeps (psys_is p) wild_use" "keeps (psys_is p) (kget g)"
  "(\<And>s. psys_is p (f s) = psys_is p s) \<Longrightarrow> keeps (psys_is p) (kmod f)"
  by (auto intro!: keepsI simp: psys_is_def run_release)

lemma psys_is_fields [simp]:
  "psys_is p (s\<lparr>dev_fwnode := w\<rparr>) = psys_is p s" "psys_is p (s\<lparr>static_bridge := b\<rparr>) = psys_is p s"
  "psys_is p (s\<lparr>g_virt_sensor := v\<rparr>) = psys_is p s"
  by (simp_all add: psys_is_def)

lemma psys_is_unregister [keeps_rules]: "keeps (psys_is p) (unregister_sensors ks)"
  by (induction ks) (auto intro!: keeps_rules)

lemma psys_is_disconnect: "keeps (psys_is p) (disconnect_sensors virt)"
  unfolding disconnect_sensors_def ambu_ipu_bridge_uninit_def ipu4_virt_sensor_remove_def ipu_bridge_unregister_sensors_def
  by (intro keeps_rules) auto

lemma unwind_bad:
  assumes "psys_ptr s = ErrPtr \<and> held s (FwImage Psys) = 0 \<or> psys_ptr s = Valid \<and> held s (FwImage Psys) = 0 \<or> bad s"
  shows "bad (snd (run_state (out_ipu_bridge_uninit virt) s))"
proof (cases "bad s")
  case True
  then show ?thesis by (rule keepsD [OF bad_out(2)])
next
  case False
  then obtain p where "psys_is p s" "p = ErrPtr \<or> p = Valid" using assms by (auto simp: psys_is_def)
  then have "bad (snd (run_state out_ipu6_bus_del_devices (snd (run_state (disconnect_sensors virt) s))))"
    using keepsD [OF psys_is_disconnect, of p s virt] by (intro psys_ptr_bad) (auto simp: psys_is_def)
  then show ?thesis by (simp add: out_ipu_bridge_uninit_def case_prod_beta)
qed

lemma later_keeps [keeps_rules]:
  "keeps (\<lambda>s. n < calls s) (release r)" "keeps (\<lambda>s. n < calls s) (release_if r)" "keeps (\<lambda>s. n < calls s) wild_use"
  "keeps (\<lambda>s. n < calls s) (kget g)" "(\<And>s. calls (f s) = calls s) \<Longrightarrow> keeps (\<lambda>s. n < calls s) (kmod f)"
  "keeps (\<lambda>s. n < calls s) (attempt fails)" "keeps (\<lambda>s. n < calls s) (acquire fails r)" "keeps (\<lambda>s. n < calls s) (alloc fails r)"
  by (auto intro!: keepsI simp: ledger_runs split: option.splits)

lemma later_unregister [keeps_rules]: "keeps (\<lambda>s. n < calls s) (unregister_sensors ks)"
  by (induction ks) (auto intro!: keeps_rules)

lemma later_del_devices [keeps_rules]: "keeps (\<lambda>s. n < calls s) (del_devices ks)"
  by (induction ks) (auto simp: ipu6_bus_release_def intro!: keeps_rules)

lemma later_out [keeps_rules]: "keeps (\<lambda>s. n < calls s) out_ipu6_bus_del_devices"
  unfolding out_ipu6_bus_del_devices_def ipu6_bus_del_devices_def
  by (intro keeps_rules; auto split: adev_ptr.split intro!: keeps_rules)

lemma later_unwind [keeps_rules]: "keeps (\<lambda>s. n < calls s) (out_ipu_bridge_uninit virt)"
  unfolding out_ipu_bridge_uninit_def disconnect_sensors_def ambu_ipu_bridge_uninit_def ipu4_virt_sensor_remove_def
    ipu_bridge_unregister_sensors_def
  by (intro keeps_rules) auto

lemma later_psys [keeps_rules]: "keeps (\<lambda>s. n < calls s) (ipu6_subsys_init fails k)" "keeps (\<lambda>s. n < calls s) (probe_psys fails)"
  unfolding ipu6_subsys_init_def ipu6_bus_initialize_device_def ipu6_bus_add_device_def ipu6_bus_release_def probe_psys_def
  by (intro keeps_rules; simp)+

lemma subsys_init_calls: "calls s < calls (snd (run_state (ipu6_subsys_init fails k) s))"
  unfolding ipu6_subsys_init_def ipu6_bus_initialize_device_def ipu6_bus_add_device_def ipu6_bus_release_def
  by (rule keeps_after, simp add: run_alloc split: option.split, intro keeps_rules, simp)

text \<open>The rest of the probe, once the sensors are connected.\<close>

definition probe_rest :: "bool \<Rightarrow> script \<Rightarrow> ('z pci_state_scheme, unit res) state" where
  "probe_rest virt fails = do {
     ret \<leftarrow> ipu6_subsys_init fails Isys;
     kmod (\<lambda>s. s\<lparr>isys_ptr := if ret = ok then Valid else ErrPtr\<rparr>);
     if ret \<noteq> ok then do { out_ipu6_bus_del_devices; State_Monad.return ret }
     else do {
       ret \<leftarrow> ipu6_psys_init fails;
       kmod (\<lambda>s. s\<lparr>psys_ptr := if ret = ok then Valid else ErrPtr\<rparr>);
       if ret \<noteq> ok then do { out_ipu_bridge_uninit virt; State_Monad.return ret }
       else do {
         ret \<leftarrow> probe_psys fails;
         if ret \<noteq> ok then do { out_ipu_bridge_uninit virt; State_Monad.return ret } else State_Monad.return ok } } }"

lemma probe_devices_halves:
  "run_state (probe_devices virt fails) s = (case run_state (connect_sensors virt fails) s of (ret, s1) \<Rightarrow>
     if ret = ok then run_state (probe_rest virt fails) s1
     else (ret, snd (run_state out_ipu6_bus_del_devices (s1\<lparr>isys_ptr := ErrPtr\<rparr>))))"
  by (simp add: probe_devices_def probe_rest_def ipu6_isys_init_def case_prod_beta)

lemma probe_rest_calls: "calls s < calls (snd (run_state (probe_rest virt fails) s))"
  unfolding probe_rest_def ipu6_psys_init_def
  by (rule keeps_after, rule subsys_init_calls, intro keeps_rules) simp_all

lemma probe_rest_fails:
  assumes S: "S = {ButtressUp, FwFile} \<union> set bridge_res" and run: "run_state (probe_rest virt fails) (with_held S s) = (ret, s')" and e: "ret \<noteq> ok"
  shows "\<not> clean s'"
proof -
  obtain r2 s2 where 2: "run_state (ipu6_subsys_init fails Isys) (with_held S s) = (r2, s2)" by (rule prod.exhaust)
  have S2: "subsys_res Isys \<inter> S = {}" "BridgeMem \<in> S" by (auto simp: S bridge_res_set)
  show ?thesis
  proof (cases "r2 = ok")
    case False
    then have "bridge_left (s2\<lparr>isys_ptr := ErrPtr\<rparr>)"
      using isys_failed_left [OF S2 2] by (simp add: bridge_left_def)
    then have "bridge_left s'"
      using run 2 False keepsD [OF bridge_left_out] by (auto simp: probe_rest_def case_prod_beta)
    then show ?thesis by (rule bridge_left_clean)
  next
    case True
    let ?T = "S \<union> subsys_res Isys"
    define t where "t = s\<lparr>calls := calls s + 5, bus_devices := Isys # bus_devices s, isys_ptr := Valid\<rparr>"
    have s2: "s2\<lparr>isys_ptr := Valid\<rparr> = with_held ?T t"
      using subsys_init_run [OF S2(1) 2] True by (simp add: t_def)
    obtain r3 s3 where 3: "run_state (ipu6_psys_init fails) (with_held ?T t) = (r3, s3)" by (rule prod.exhaust)
    have T: "subsys_res Psys \<inter> ?T = {}" by (auto simp: S bridge_res_set)
    have i: "if r3 = ok then \<exists>u. s3 = with_held (?T \<union> subsys_res Psys) u else held s3 (FwImage Psys) = 0"
      using subsys_init_run [OF T, of fails t r3 s3] 3 by (auto simp: ipu6_psys_init_def S bridge_res_set split: if_splits)
    have "bad s'"
    proof (cases "r3 = ok")
      case False
      then have "bad (snd (run_state (out_ipu_bridge_uninit virt) (s3\<lparr>psys_ptr := ErrPtr\<rparr>)))"
        using i by (intro unwind_bad) simp
      then show ?thesis using run 2 3 s2 True False by (auto simp: probe_rest_def case_prod_beta)
    next
      case ok3: True
      let ?U = "?T \<union> subsys_res Psys"
      obtain u where u: "s3\<lparr>psys_ptr := Valid\<rparr> = with_held ?U (u\<lparr>psys_ptr := Valid\<rparr>)" using i ok3 by auto
      obtain r4 s4 where 4: "run_state (probe_psys fails) (with_held ?U (u\<lparr>psys_ptr := Valid\<rparr>)) = (r4, s4)" by (rule prod.exhaust)
      have r4: "ret = r4" "s' = (if r4 = ok then s4 else snd (run_state (out_ipu_bridge_uninit virt) s4))"
        using run 2 3 4 s2 u True ok3 by (auto simp: probe_rest_def case_prod_beta split: if_splits)
      then have "psys_ptr s4 = Valid \<and> held s4 (FwImage Psys) = 0 \<or> bad s4"
        using probe_psys_run [OF _ 4] e by (auto simp: S bridge_res_set)
      then show ?thesis using r4 e unwind_bad [of s4 virt] by auto
    qed
    then show ?thesis by (rule bad_clean)
  qed
qed

lemma probe_devices_fails:
  assumes d: "no_graph (dev_fwnode s)" and m: "\<not> misuse s" and n: "psys_ptr s = NullPtr" "bus_devices s = []"
    and run: "run_state (probe_devices False fails) (with_held {ButtressUp, FwFile} s) = (ret, s')" and e: "ret \<noteq> ok"
  shows "clean s' \<longleftrightarrow> calls s' \<le> calls s + 10"
proof -
  let ?S = "{ButtressUp, FwFile}"
  obtain r1 s1 where 1: "run_state (connect_sensors False fails) (with_held ?S s) = (r1, s1)" by (rule prod.exhaust)
  have "set bridge_res \<inter> ?S = {}" by (auto simp: bridge_res_set)
  note c = connect_bridge [OF d this 1]
  show ?thesis
  proof (cases "r1 = ok")
    case False
    then obtain k where "k \<le> calls s + 10" "s1 = with_held ?S (s\<lparr>calls := k, static_bridge := None\<rparr>)"
      using c by auto
    then show ?thesis
      using run 1 False m n
      by (auto simp: probe_devices_halves out_ipu6_bus_del_devices_def ipu6_bus_del_devices_def held_runs insert_Diff_if clean_with_held_iff)
  next
    case True
    then have k: "calls s1 = calls s + 10" using c by simp
    have "\<exists>t. s1 = with_held (?S \<union> set bridge_res) t" using c True by (simp only: if_True simp_thms) blast
    then obtain t where s1: "s1 = with_held (?S \<union> set bridge_res) t" by blast
    have r: "run_state (probe_rest False fails) (with_held (?S \<union> set bridge_res) t) = (ret, s')"
      using run 1 True s1 by (simp add: probe_devices_halves)
    then have "calls s + 10 < calls s'"
      using probe_rest_calls [of s1 False fails] k s1 by simp
    then show ?thesis using probe_rest_fails [OF refl r e] by simp
  qed
qed

text \<open>C32: A failed probe. On a device without a graph the bridge to the converters is started on
  the way, after eight calls of the kernel that may fail and with ten more. A probe that fails by then, whatever
  fails and how, holds nothing and has misused nothing. A probe that fails later does not clean up: the
  bridge stays, or a reference of the power management, or memory is freed twice, or the error pointer of the processing
  system or its image that was never mapped is used.\<close>
theorem probe_failure_clean_iff:
  assumes "clean s" "no_graph (dev_fwnode s)" "run_state (ipu6_pci_probe False 0x5a88 fails) s = (ret, s')" "ret \<noteq> ok"
  shows "clean s' \<longleftrightarrow> calls s' \<le> calls s + 18"
  using assms(1,3)
proof (cases rule: probe_cases)
  case early
  then show ?thesis by auto
next
  case devices
  have "clean s' \<longleftrightarrow> calls s' \<le> calls (probe_state s) + 10"
    using assms by (intro probe_devices_fails [OF _ _ _ _ devices]) (auto simp: probe_state_def clean_def)
  then show ?thesis by (simp add: probe_state_def add.commute)
qed

definition ex_pci :: pci_state where
  "ex_pci = \<lparr>calls = 0, held = (\<lambda>_. 0), misuse = False, dev_fwnode = FwNode False FwNull, static_bridge = None,
     g_virt_sensor = None, isys_ptr = NullPtr, psys_ptr = NullPtr, bus_devices = [], bus_ready_to_probe = False\<rparr>"

theorem probe_failure_clean_iff_witness:
  "clean (snd (run_state (ipu6_pci_probe False 0x5a88 ((\<lambda>_. None)(7 \<mapsto> EINVAL))) ex_pci))"
proof -
  obtain ret s' where r: "run_state (ipu6_pci_probe False 0x5a88 ((\<lambda>_. None)(7 \<mapsto> EINVAL))) ex_pci = (ret, s')" by (rule prod.exhaust)
  have "ret = Inl EINVAL \<and> calls s' = 8"
    using r by (auto simp: ipu6_pci_probe_def ipu6_pci_config_setup_def probe_variant_ipu4 out_ipu6_bus_del_devices_def
        ipu6_bus_del_devices_def ledger_runs ex_pci_def)
  then show ?thesis
    using probe_failure_clean_iff [OF _ _ r] by (simp add: r) (simp add: ex_pci_def clean_def no_graph_def)
qed

section \<open>Probe, then removal\<close>

definition probe_res :: "resource set" where
  "probe_res = subsys_res Isys \<union> subsys_res Psys \<union> {FwImage Psys, PkgDir Psys, Irq, ButtressUp, FwFile}"

lemma probe_rest_steps:
  assumes "run_state (probe_rest virt fails) s = (ok, s')"
  obtains s2 s3 where "run_state (ipu6_subsys_init fails Isys) s = (ok, s2)"
    "run_state (ipu6_psys_init fails) (s2\<lparr>isys_ptr := Valid\<rparr>) = (ok, s3)"
    "run_state (probe_psys fails) (s3\<lparr>psys_ptr := Valid\<rparr>) = (ok, s')"
  using assms by (auto simp: probe_rest_def split: prod.splits if_splits)

lemma probe_rest_ok:
  assumes run: "run_state (probe_rest virt fails) (with_held S s) = (ok, s')"
    and S: "({PmRef Psys, MmuOn Psys} \<union> probe_res) \<inter> S = {ButtressUp, FwFile}" and n: "bus_devices s = []"
  shows "\<exists>u. s' = with_held (S \<union> probe_res) u \<and> bus_devices u = [Psys, Isys] \<and> dev_fwnode u = dev_fwnode s \<and>
    static_bridge u = static_bridge s \<and> g_virt_sensor u = g_virt_sensor s \<and> misuse u = misuse s"
proof -
  have S2: "subsys_res Isys \<inter> S = {}" "subsys_res Psys \<inter> (S \<union> subsys_res Isys) = {}"
    "{PmRef Psys, MmuOn Psys, FwImage Psys, PkgDir Psys, Irq} \<inter> (S \<union> subsys_res Isys \<union> subsys_res Psys) = {}"
    using S by (auto simp: probe_res_def)
  from run obtain s2 s3 where steps: "run_state (ipu6_subsys_init fails Isys) (with_held S s) = (ok, s2)"
    "run_state (ipu6_psys_init fails) (s2\<lparr>isys_ptr := Valid\<rparr>) = (ok, s3)"
    "run_state (probe_psys fails) (s3\<lparr>psys_ptr := Valid\<rparr>) = (ok, s')" by (rule probe_rest_steps)
  let ?t = "s\<lparr>calls := calls s + 5, bus_devices := Isys # bus_devices s, isys_ptr := Valid\<rparr>"
  have "s2\<lparr>isys_ptr := Valid\<rparr> = with_held (S \<union> subsys_res Isys) ?t"
    using subsys_init_run [OF S2(1) steps(1)] by simp
  then have "run_state (ipu6_subsys_init fails Psys) (with_held (S \<union> subsys_res Isys) ?t) = (ok, s3)"
    using steps(2) by (simp only: ipu6_psys_init_def)
  from subsys_init_run [OF S2(2) this] obtain u where u: "s3\<lparr>psys_ptr := Valid\<rparr> = with_held (S \<union> subsys_res Isys \<union> subsys_res Psys) u"
    "bus_devices u = [Psys, Isys]" "dev_fwnode u = dev_fwnode s" "static_bridge u = static_bridge s"
    "g_virt_sensor u = g_virt_sensor s" "misuse u = misuse s"
    using n by simp
  have "run_state (probe_psys fails) (with_held (S \<union> subsys_res Isys \<union> subsys_res Psys) u) = (ok, s')"
    using steps(3) u(1) by (simp only:)
  from probe_psys_run [OF S2(3) this]
  have "s' = with_held (S \<union> subsys_res Isys \<union> subsys_res Psys \<union> {FwImage Psys, PkgDir Psys, Irq})
      (u\<lparr>calls := calls s', bus_ready_to_probe := True\<rparr>)" by (simp only: if_True simp_thms)
  moreover have "S \<union> subsys_res Isys \<union> subsys_res Psys \<union> {FwImage Psys, PkgDir Psys, Irq} = S \<union> probe_res"
    using S by (auto simp: probe_res_def)
  ultimately have "s' = with_held (S \<union> probe_res) (u\<lparr>calls := calls s', bus_ready_to_probe := True\<rparr>)" by (simp only:)
  then show ?thesis using u(2-6) by (intro exI [of _ "u\<lparr>calls := calls s', bus_ready_to_probe := True\<rparr>"]) simp
qed

lemma remove_run:
  assumes n: "bus_devices u = [Psys, Isys]" and S: "probe_res \<inter> S = {}"
  shows "snd (run_state (ipu6_pci_remove virt) (with_held (S \<union> probe_res) u)) =
    snd (run_state (disconnect_sensors virt) (with_held S (u\<lparr>bus_devices := []\<rparr>)))"
proof -
  have "S \<union> probe_res = {Irq, PkgDir Psys, FwImage Psys, ButtressUp, Pdata Psys, Adev Psys, Pdata Isys, Adev Isys, FwFile, MmuOf Psys, MmuOf Isys} \<union> S"
    by (auto simp: probe_res_def)
  moreover have "x \<notin> S" if "x \<in> probe_res" for x using S that by auto
  ultimately show ?thesis
    using n by (simp add: ipu6_pci_remove_def ipu6_bus_del_devices_def ipu6_bus_release_def held_runs insert_Diff_if case_prod_beta probe_res_def)
qed

lemma disconnect_virt:
  assumes v: "g_virt_sensor s = Some True" and S: "set virt_res \<inter> S = {}"
  shows "\<exists>t. snd (run_state (disconnect_sensors True) (with_held (S \<union> set virt_res) s)) = with_held S t \<and> misuse t = misuse s"
proof -
  have g: "gained virt_res (with_held S s) (with_held (S \<union> set virt_res) s)"
    using S by (intro gainedI) (auto simp: with_held_def)
  have f: "fresh virt_res (with_held S s)" using S by (simp add: fresh_with_held)
  from virt_remove_run [OF f g] v obtain n where "snd (run_state ipu4_virt_sensor_remove (with_held (S \<union> set virt_res) s)) =
      with_held S (s\<lparr>dev_fwnode := set_secondary FwNull (dev_fwnode s), g_virt_sensor := None, calls := n\<rparr>)"
    by (auto elim: undone_with_held)
  then show ?thesis by (auto simp: disconnect_sensors_def)
qed

text \<open>The three ways to be connected, and what being disconnected does.\<close>

lemma connected:
  fixes s :: "'z pci_state_scheme"
  assumes d: "dev_fwnode s \<noteq> FwNull" and b: "static_bridge s = None" "g_virt_sensor s = None"
    and run: "run_state (connect_sensors virt fails) (with_held {ButtressUp, FwFile} s) = (ok, s')"
  shows "\<exists>R t. s' = with_held ({ButtressUp, FwFile} \<union> R) t \<and> R \<subseteq> set bridge_res \<union> set virt_res \<and>
    misuse t = misuse s \<and> bus_devices t = bus_devices s \<and>
    (\<forall>u :: 'z pci_state_scheme. dev_fwnode u = dev_fwnode t \<longrightarrow> static_bridge u = static_bridge t \<longrightarrow> g_virt_sensor u = g_virt_sensor t \<longrightarrow>
      (\<exists>w. snd (run_state (disconnect_sensors virt) (with_held R u)) = with_held {} w \<and>
        (misuse w \<longleftrightarrow> misuse u \<or> \<not> virt \<and> ipu6_isys_check_fwnode_graph (dev_fwnode s) = ok)))"
    (is "\<exists>R t. ?P R t")
proof -
  let ?S = "{ButtressUp, FwFile}" and ?w = "set_secondary (FwNode True FwNull) (dev_fwnode s)"
  consider (graph) "ipu6_isys_check_fwnode_graph (dev_fwnode s) = ok"
    | (virt) "ipu6_isys_check_fwnode_graph (dev_fwnode s) \<noteq> ok" "virt"
    | (bridge) "no_graph (dev_fwnode s)" "\<not> virt"
    using run d by (auto simp: connect_sensors_def no_graph_def split: if_splits)
  then show ?thesis
  proof cases
    case graph
    then have "s' = with_held ?S s" using run by (simp add: connect_sensors_def)
    moreover have "\<exists>w. snd (run_state (disconnect_sensors virt) (with_held {} u)) = with_held {} w \<and> (misuse w \<longleftrightarrow> misuse u \<or> \<not> virt)"
      if "dev_fwnode u = dev_fwnode s" "static_bridge u = static_bridge s" "g_virt_sensor u = g_virt_sensor s" for u :: "'z pci_state_scheme"
      using that b d by (auto simp: disconnect_sensors_def ambu_ipu_bridge_uninit_def ipu4_virt_sensor_remove_def)
    ultimately show ?thesis using graph by (intro exI [of _ "{}"] exI [of _ s]) auto
  next
    case virt
    have i: "run_state (ipu4_virt_sensor_install fails) (with_held ?S s) = (ok, s')"
      using run virt by (auto simp: connect_sensors_def split: if_splits)
    have V: "set virt_res \<inter> ?S = {}" by (auto simp: virt_res_def)
    have g: "gained virt_res (with_held ?S (s\<lparr>dev_fwnode := ?w, g_virt_sensor := Some True\<rparr>)) s'"
      using virt_install_ok [OF _ i] V by (simp add: fresh_with_held)
    obtain n where n: "s' = with_held (?S \<union> set virt_res) (s\<lparr>dev_fwnode := ?w, g_virt_sensor := Some True, calls := n\<rparr>)"
      by (rule gained_with_held [OF g V])
    show ?thesis
      using n virt disconnect_virt [of _ "{}"]
      by (intro exI [of _ "set virt_res"] exI [of _ "s\<lparr>dev_fwnode := ?w, g_virt_sensor := Some True, calls := n\<rparr>"]) auto
  next
    case bridge
    have B: "set bridge_res \<inter> ?S = {}" by (auto simp: bridge_res_set)
    have r: "run_state (connect_sensors False fails) (with_held ?S s) = (ok, s')" using run bridge(2) by simp
    have "\<exists>ss. length ss = 2 \<and> s' = with_held (?S \<union> set bridge_res) (s\<lparr>calls := calls s', dev_fwnode := ?w, static_bridge := Some ss\<rparr>)"
      using connect_bridge [OF bridge(1) B r] unfolding if_P [OF refl] by (rule conjunct2)
    then obtain ss where l: "length ss = 2" and s': "s' = with_held (?S \<union> set bridge_res)
        (s\<lparr>calls := calls s', dev_fwnode := ?w, static_bridge := Some ss\<rparr>)" by blast
    have w: "?w \<noteq> FwNull" using d by (cases "dev_fwnode s") auto
    have "\<exists>w. snd (run_state (disconnect_sensors virt) (with_held (set bridge_res) u)) = with_held {} w \<and> misuse w = misuse u"
      if "dev_fwnode u = ?w" "static_bridge u = Some ss" for u :: "'z pci_state_scheme"
      using disconnect_bridge [OF l, of u "{}"] that w bridge(2) by auto
    then show ?thesis
      using bridge s' by (intro exI [of _ "set bridge_res"] exI [of _ "s\<lparr>calls := calls s', dev_fwnode := ?w, static_bridge := Some ss\<rparr>"])
        (auto simp: no_graph_def)
  qed
qed

text \<open>C33: A successful probe of an IPU4 followed by the removal gives back everything the probe took, in the build with the virtual sensor
  and in the one with the bridge, whichever way the sensors were connected. In the build with the bridge, a device that came with its graph has no
  bridge, and the removal uses the one that is not there; in every other case nothing is misused.\<close>
theorem probe_remove_roundtrip:
  fixes s :: "'z pci_state_scheme"
  assumes "clean s" "dev_fwnode s \<noteq> FwNull" "static_bridge s = None" "g_virt_sensor s = None"
    and "run_state (ipu6_pci_probe virt 0x5a88 fails) s = (ok, s')"
  shows "\<not> misuse s' \<and> held (snd (run_state (ipu6_pci_remove virt) s')) = (\<lambda>_. 0) \<and>
    (misuse (snd (run_state (ipu6_pci_remove virt) s')) \<longleftrightarrow> \<not> virt \<and> ipu6_isys_check_fwnode_graph (dev_fwnode s) = ok)"
  using assms(1,5)
proof (cases rule: probe_cases)
  case early
  then show ?thesis by simp
next
  case devices
  let ?S = "{ButtressUp, FwFile}" and ?p = "probe_state s"
  have p: "dev_fwnode ?p = dev_fwnode s" "static_bridge ?p = None" "g_virt_sensor ?p = None" "bus_devices ?p = []" "\<not> misuse ?p"
    using assms by (simp_all add: probe_state_def clean_def)
  obtain s1 where 1: "run_state (connect_sensors virt fails) (with_held ?S ?p) = (ok, s1)"
    and 2: "run_state (probe_rest virt fails) s1 = (ok, s')"
    using devices by (auto simp: probe_devices_halves split: prod.splits if_splits)
  obtain R t where s1: "s1 = with_held (?S \<union> R) t" and R: "R \<subseteq> set bridge_res \<union> set virt_res"
    and t: "misuse t = misuse ?p" "bus_devices t = bus_devices ?p"
    and d: "\<And>u :: 'z pci_state_scheme. dev_fwnode u = dev_fwnode t \<Longrightarrow> static_bridge u = static_bridge t \<Longrightarrow> g_virt_sensor u = g_virt_sensor t \<Longrightarrow>
      \<exists>w. snd (run_state (disconnect_sensors virt) (with_held R u)) = with_held {} w \<and>
        (misuse w \<longleftrightarrow> misuse u \<or> \<not> virt \<and> ipu6_isys_check_fwnode_graph (dev_fwnode s) = ok)"
    using connected [OF _ p(2,3) 1] p(1) assms(2) by auto
  have "({PmRef Psys, MmuOn Psys} \<union> probe_res) \<inter> (?S \<union> R) = ?S" "probe_res \<inter> R = {}"
    using R by (auto simp: probe_res_def bridge_res_set virt_res_def)
  moreover from this(1) 2 t p obtain u where s': "s' = with_held (?S \<union> R \<union> probe_res) u" and u: "bus_devices u = [Psys, Isys]"
    "dev_fwnode u = dev_fwnode t" "static_bridge u = static_bridge t" "g_virt_sensor u = g_virt_sensor t" "misuse u = misuse t"
    using probe_rest_ok [of virt fails "?S \<union> R" t s'] by (auto simp: s1)
  moreover have "?S \<union> R \<union> probe_res = R \<union> probe_res" by (auto simp: probe_res_def)
  ultimately have "snd (run_state (ipu6_pci_remove virt) s') = snd (run_state (disconnect_sensors virt) (with_held R (u\<lparr>bus_devices := []\<rparr>)))"
    using remove_run [of u R virt] by (simp only:)
  then obtain w where "snd (run_state (ipu6_pci_remove virt) s') = with_held {} w"
    "misuse w \<longleftrightarrow> misuse u \<or> \<not> virt \<and> ipu6_isys_check_fwnode_graph (dev_fwnode s) = ok"
    using d [of "u\<lparr>bus_devices := []\<rparr>"] u(2-4) by auto
  then show ?thesis using s' t(1) u(5) p(5) by (auto simp: with_held_def)
qed

text \<open>When no call fails, the probe succeeds.\<close>

lemma probe_starts:
  assumes "no_graph (dev_fwnode s)"
  shows "fst (run_state (ipu6_pci_probe False 0x5a88 (\<lambda>_. None)) s) = ok"
proof -
  have k: "fst (run_state (ipu6_subsys_init (\<lambda>_. None) k) t) = ok" "fst (run_state (probe_psys (\<lambda>_. None)) t) = ok"
    for k and t :: "'a pci_state_scheme"
    by (simp_all add: ipu6_subsys_init_def ipu6_bus_initialize_device_def ipu6_bus_add_device_def probe_psys_def ledger_runs)
  have "fst (run_state (connect_sensors False (\<lambda>_. None)) t) = ok" if "dev_fwnode t = dev_fwnode s" for t :: "'a pci_state_scheme"
    using that assms bridge_starts [of t] by (auto simp: connect_sensors_def no_graph_def)
  then have "fst (run_state (probe_devices False (\<lambda>_. None)) t) = ok" if "dev_fwnode t = dev_fwnode s" for t :: "'a pci_state_scheme"
    using that by (simp add: probe_devices_halves probe_rest_def ipu6_psys_init_def case_prod_beta k)
  then show ?thesis
    by (simp add: ipu6_pci_probe_def ipu6_pci_config_setup_def probe_variant_ipu4 run_attempt run_acquire)
qed

theorem probe_remove_roundtrip_witness:
  "\<exists>s'. run_state (ipu6_pci_probe False 0x5a88 (\<lambda>_. None)) ex_pci = (ok, s') \<and> clean (snd (run_state (ipu6_pci_remove False) s'))"
proof -
  have g: "no_graph (dev_fwnode ex_pci)" by (simp add: no_graph_def ex_pci_def)
  obtain s' where r: "run_state (ipu6_pci_probe False 0x5a88 (\<lambda>_. None)) ex_pci = (ok, s')"
    using probe_starts [OF g] by (metis prod.collapse)
  have e: "clean ex_pci" "dev_fwnode ex_pci \<noteq> FwNull" "static_bridge ex_pci = None" "g_virt_sensor ex_pci = None"
    by (simp_all add: ex_pci_def clean_def)
  have "clean (snd (run_state (ipu6_pci_remove False) s'))"
    using probe_remove_roundtrip [OF e r] g by (simp add: clean_def no_graph_def)
  then show ?thesis using r by blast
qed

end
