(* ===== verification/Pci_Pm.thy ===== *)
theory Pci_Pm
  imports Buttress_Props
begin

text \<open>
  Power transitions and resets of the PCI device (\<^verbatim>\<open>kernel/ipu4/ipu6.c\<close>): what the driver restores in
  the buttress after the device was powered down or reset, on the model of the buttress.
\<close>

definition BUTTRESS_REG_BTRS_CTRL_STALL_MODE_VC0 :: u32 where [ipu4_consts]: "BUTTRESS_REG_BTRS_CTRL_STALL_MODE_VC0 = 0x1"
definition BUTTRESS_REG_BTRS_CTRL_STALL_MODE_VC1 :: u32 where [ipu4_consts]: "BUTTRESS_REG_BTRS_CTRL_STALL_MODE_VC1 = 0x2"
definition IPU6_BTRS_ARB_MODE_TYPE_REARB :: nat where [ipu4_consts]: "IPU6_BTRS_ARB_MODE_TYPE_REARB = 0"
definition IPU6_BTRS_ARB_MODE_TYPE_STALL :: nat where [ipu4_consts]: "IPU6_BTRS_ARB_MODE_TYPE_STALL = 1"
definition IPU6_BTRS_ARB_STALL_MODE_VC0 :: nat where [ipu4_consts]: "IPU6_BTRS_ARB_STALL_MODE_VC0 = IPU6_BTRS_ARB_MODE_TYPE_REARB"
definition IPU6_BTRS_ARB_STALL_MODE_VC1 :: nat where [ipu4_consts]: "IPU6_BTRS_ARB_STALL_MODE_VC1 = IPU6_BTRS_ARB_MODE_TYPE_REARB"

text \<open>The device, the flag that the channel is to be reset, and whether runtime power management is allowed.\<close>

record 'd pci_pm =
  isp_dev :: "'d ipu6_device"
  need_ipc_reset :: bool
  runtime_pm_allowed :: bool

definition on_isp :: "('d ipu6_device, 'a) state \<Rightarrow> ('d pci_pm, 'a) state" where
  "on_isp m = State (\<lambda>s. case run_state m (isp_dev s) of (a, d) \<Rightarrow> (a, s\<lparr>isp_dev := d\<rparr>))"

lemma run_on_isp_pci [simp]: "run_state (on_isp m) s = (fst (run_state m (isp_dev s)), s\<lparr>isp_dev := snd (run_state m (isp_dev s))\<rparr>)"
  by (simp add: on_isp_def case_prod_beta)

definition set_need_ipc_reset :: "bool \<Rightarrow> ('d pci_pm, unit) state" where
  "set_need_ipc_reset b = State (\<lambda>s. ((), s\<lparr>need_ipc_reset := b\<rparr>))"

definition set_runtime_pm :: "bool \<Rightarrow> ('d pci_pm, unit) state" where
  "set_runtime_pm b = State (\<lambda>s. ((), s\<lparr>runtime_pm_allowed := b\<rparr>))"

lemma run_pm_sets [simp]:
  "run_state (set_need_ipc_reset b) s = ((), s\<lparr>need_ipc_reset := b\<rparr>)"
  "run_state (set_runtime_pm b) s = ((), s\<lparr>runtime_pm_allowed := b\<rparr>)"
  by (simp_all add: set_need_ipc_reset_def set_runtime_pm_def)

definition ipu6_configure_vc_mechanism :: "'d btrs_env \<Rightarrow> ('d ipu6_device, unit) state" where
  "ipu6_configure_vc_mechanism env = do {
     val \<leftarrow> isp_read env BUTTRESS_REG_BTRS_CTRL;
     let val0 = (if IPU6_BTRS_ARB_STALL_MODE_VC0 = IPU6_BTRS_ARB_MODE_TYPE_STALL
                 then val OR BUTTRESS_REG_BTRS_CTRL_STALL_MODE_VC0
                 else val AND NOT BUTTRESS_REG_BTRS_CTRL_STALL_MODE_VC0);
     let val1 = (if IPU6_BTRS_ARB_STALL_MODE_VC1 = IPU6_BTRS_ARB_MODE_TYPE_STALL
                 then val0 OR BUTTRESS_REG_BTRS_CTRL_STALL_MODE_VC1
                 else val0 AND NOT BUTTRESS_REG_BTRS_CTRL_STALL_MODE_VC1);
     isp_write env val1 BUTTRESS_REG_BTRS_CTRL }"

definition ipu6_pci_reset_prepare :: "('d pci_pm, unit) state" where
  "ipu6_pci_reset_prepare = set_runtime_pm False"

definition ipu6_pci_reset_done :: "'d btrs_env \<Rightarrow> ('d pci_pm, unit) state" where
  "ipu6_pci_reset_done env = do {
     on_isp (ipu6_buttress_restore env);
     s \<leftarrow> State_Monad.get;
     (if secure_mode (isp_dev s) then do {
        _ \<leftarrow> on_isp (ipu6_buttress_reset_authentication env);
        State_Monad.return () }
      else State_Monad.return ());
     set_need_ipc_reset True;
     set_runtime_pm True }"

text \<open>Waking up from the sleep of the system: the errors are only logged.\<close>

definition ipu6_resume :: "'d btrs_env \<Rightarrow> u64 \<Rightarrow> ('d ipu6_device, unit res) state" where
  "ipu6_resume env pkg_dir_dma_addr = do {
     ipu6_configure_vc_mechanism env;
     sec \<leftarrow> ipu6_buttress_get_secure_mode env;
     s \<leftarrow> State_Monad.get;
     State_Monad.set (s\<lparr>secure_mode := sec\<rparr>);
     ipu6_buttress_restore env;
     _ \<leftarrow> ipu6_buttress_ipc_reset env;
     s \<leftarrow> State_Monad.get;
     case pm_resume env (hw s) of
       Inl _ \<Rightarrow> State_Monad.return ok
     | Inr _ \<Rightarrow> do {
         pm_add 1;
         _ \<leftarrow> ipu6_buttress_authenticate env pkg_dir_dma_addr;
         pm_add (- 1);
         State_Monad.return ok } }"

definition ipu6_runtime_resume :: "'d btrs_env \<Rightarrow> ('d pci_pm, unit res) state" where
  "ipu6_runtime_resume env = do {
     on_isp (ipu6_configure_vc_mechanism env);
     on_isp (ipu6_buttress_restore env);
     s \<leftarrow> State_Monad.get;
     (if need_ipc_reset s then do {
        set_need_ipc_reset False;
        _ \<leftarrow> on_isp (ipu6_buttress_ipc_reset env);
        State_Monad.return () }
      else State_Monad.return ());
     State_Monad.return ok }"

section \<open>On the emulated device\<close>

lemma qemu_pm_writes:
  "ipu4_mmio_write penv v (ucast BUTTRESS_REG_BTRS_CTRL) (q, m) = (q\<lparr>btrs_ctrl := v\<rparr>, m)"
  "ipu4_mmio_write penv v (ucast BUTTRESS_REG_WDT) (q, m) = (q, m)"
  by (simp_all add: ipu4_mmio_write_def ipu4_consts)

lemma qemu_fw_reset:
  "ipu4_mmio_write penv v (ucast BUTTRESS_REG_FW_RESET_CTL) (q, m) = (q\<lparr>fw_reset_ctl := v\<rparr>, m)"
  "ipu4_mmio_read penv (ucast BUTTRESS_REG_FW_RESET_CTL) (q\<lparr>fw_reset_ctl := BUTTRESS_FW_RESET_CTL_START\<rparr>, m) =
   (0x3, (q\<lparr>fw_reset_ctl := 0x3\<rparr>, m))"
  by (simp_all add: ipu4_mmio_write_def ipu4_mmio_read_def ipu4_consts Let_def)

text \<open>The authentication is reset: the device answers the first poll.\<close>

lemma reset_authentication_qemu:
  assumes "on_qemu penv env" "hw s = (q, m)"
  shows "run_state (ipu6_buttress_reset_authentication env) s =
    (ok, if secure_mode s then s\<lparr>hw := (q\<lparr>fw_reset_ctl := 0\<rparr>, m)\<rparr> else s)"
proof (cases "secure_mode s")
  case False
  then show ?thesis by (simp add: ipu6_buttress_reset_authentication_def)
next
  case True
  let ?s = "s\<lparr>hw := (q\<lparr>fw_reset_ctl := BUTTRESS_FW_RESET_CTL_START\<rparr>, m)\<rparr>"
  let ?cond = "\<lambda>v. v AND BUTTRESS_FW_RESET_CTL_DONE \<noteq> 0"
  have "run_state (poll_loop (on_hw (mmio env)) (isp_base env + ucast BUTTRESS_REG_FW_RESET_CTL) ?cond n) ?s =
      (0x3, s\<lparr>hw := (q\<lparr>fw_reset_ctl := 0x3\<rparr>, m)\<rparr>)" for n
    by (cases n) (simp_all add: on_hw_def qemu_read [OF assms(1)] qemu_fw_reset(2) BUTTRESS_FW_RESET_CTL_DONE_def)
  then show ?thesis
    using True assms(2)
    by (simp add: ipu6_buttress_reset_authentication_def readl_poll_timeout_def isp_write_def on_hw_def qemu_write [OF assms(1)]
        qemu_fw_reset(1) BUTTRESS_FW_RESET_CTL_DONE_def)
qed

lemma restore_qemu:
  assumes "on_qemu penv env" "hw s = (q, m)"
  shows "run_state (ipu6_buttress_restore env) s =
    ((), s\<lparr>hw := (q\<lparr>isr_status := isr_status q AND NOT BUTTRESS_IRQS, isr_enable := BUTTRESS_IRQS\<rparr>, m)\<rparr>)"
  using assms(2)
  by (simp add: ipu6_buttress_restore_def qemu_write [OF assms(1)] qemu_isr_writes qemu_pm_writes)

definition vc_mask :: u32 where
  "vc_mask = NOT (BUTTRESS_REG_BTRS_CTRL_STALL_MODE_VC0 OR BUTTRESS_REG_BTRS_CTRL_STALL_MODE_VC1)"

lemma configure_vc_qemu:
  assumes "on_qemu penv env" "hw s = (q, m)"
  shows "run_state (ipu6_configure_vc_mechanism env) s = ((), s\<lparr>hw := (q\<lparr>btrs_ctrl := btrs_ctrl q AND vc_mask\<rparr>, m)\<rparr>)"
proof -
  have "IPU6_BTRS_ARB_STALL_MODE_VC0 \<noteq> IPU6_BTRS_ARB_MODE_TYPE_STALL" "IPU6_BTRS_ARB_STALL_MODE_VC1 \<noteq> IPU6_BTRS_ARB_MODE_TYPE_STALL"
    by (simp_all add: IPU6_BTRS_ARB_STALL_MODE_VC0_def IPU6_BTRS_ARB_STALL_MODE_VC1_def IPU6_BTRS_ARB_MODE_TYPE_REARB_def
        IPU6_BTRS_ARB_MODE_TYPE_STALL_def)
  then show ?thesis
    using assms(2)
    by (simp add: ipu6_configure_vc_mechanism_def qemu_read [OF assms(1)] qemu_write [OF assms(1)] qemu_other_reads
        qemu_pm_writes vc_mask_def and.assoc bit.de_Morgan_disj)
qed

text \<open>C35: A reset of the PCI device, after which its registers may hold anything: the driver's handler and the next power-up
  together, on the emulated device, leave the interrupts acknowledged and enabled, the arbitration of both channels set to
  re-arbitration, runtime power management allowed, and in secure mode the channel to the security engine reset, which is then not asked for again.\<close>
theorem reset_then_runtime_resume:
  assumes "on_qemu penv env" "cse_regs (cse (isp_dev s))" "hw (isp_dev s) = (q, m)"
    and "run_state (do { ipu6_pci_reset_prepare; ipu6_pci_reset_done env; ipu6_runtime_resume env }) s = (ret, s')"
  shows "ret = ok \<and> \<not> need_ipc_reset s' \<and> runtime_pm_allowed s' \<and>
    (\<exists>q'. hw (isp_dev s') = (q', m) \<and> isr_enable q' = BUTTRESS_IRQS \<and> isr_status q' = isr_status q AND NOT BUTTRESS_IRQS \<and>
      btrs_ctrl q' = btrs_ctrl q AND vc_mask \<and> (secure_mode (isp_dev s) \<longrightarrow> cse2iu_csr q' = 0 \<and> iu2cse_csr q' = EXIT))"
  using assms(2-4)
  by (auto simp: ipu6_pci_reset_prepare_def ipu6_pci_reset_done_def ipu6_runtime_resume_def restore_qemu [OF assms(1)]
      configure_vc_qemu [OF assms(1)] reset_authentication_qemu [OF assms(1)] ipc_reset_qemu [OF assms(1)] and.assoc split: if_splits)

theorem reset_then_runtime_resume_witness:
  "cse2iu_csr (fst (hw (isp_dev (snd (run_state (do { ipu6_pci_reset_prepare; ipu6_pci_reset_done ex_btrs; ipu6_runtime_resume ex_btrs })
     \<lparr>isp_dev = (ex_isp (ipu4_reset, \<lambda>_. 0))\<lparr>cse := cse_init (cse (ex_isp ()))\<rparr>, need_ipc_reset = False, runtime_pm_allowed = True\<rparr>))))) = 0"
    (is "cse2iu_csr (fst (hw (isp_dev (snd (run_state ?m ?s))))) = 0")
proof -
  obtain ret s' where r: "run_state ?m ?s = (ret, s')" by (rule prod.exhaust)
  from reset_then_runtime_resume [OF ex_btrs_qemu _ _ r, of ipu4_reset "\<lambda>_. 0"] cse_regs_init
  have "cse2iu_csr (fst (hw (isp_dev s'))) = 0" by (auto simp: ex_isp_def)
  then show ?thesis by (simp only: r snd_conv)
qed

end
