(* ===== verification/Spec2Isabelle.thy ===== *)
theory Spec2Isabelle
  imports Qemu_Bounds Dma_Sg Cpd_Props Buttress_Props Isys_Formats_Props Isys_Queue_Props Isys_State_Props Fw_Isys_Props Isys_Csi2_Props Isys_Stream_Props Isys_Register_Props Pci_Props Pci_Pm
begin

text \<open>
  Verification of the Intel IPU4 camera driver (\<^verbatim>\<open>kernel/ipu4\<close>) and of the emulated device
  it is tested against (\<^verbatim>\<open>tools/qemu-patches/hw/misc/ipu4.c\<close>). All source paths are below \<^verbatim>\<open>src/\<close>.

  \<^bold>\<open>The program.\<close> The PCI driver (\<^verbatim>\<open>ipu6.c\<close>) maps the registers of the device, sets up the buttress
  (\<^verbatim>\<open>ipu6-buttress.c\<close>: power, interrupts, the channel to the security engine that authenticates
  the firmware), loads the firmware package (\<^verbatim>\<open>ipu6-cpd.c\<close>) and creates two devices on a bus of its
  own (\<^verbatim>\<open>ipu6-bus.c\<close>), the input system and the processing system. Each has an MMU (\<^verbatim>\<open>ipu6-mmu.c\<close>) whose
  page tables live in main memory; all buffers the device sees are mapped there (\<^verbatim>\<open>ipu6-dma.c\<close>).
  The input system (\<^verbatim>\<open>ipu6-isys*.c\<close>) exchanges messages with its firmware through token queues in
  such a buffer (\<^verbatim>\<open>ipu6-fw-com.c\<close>, \<^verbatim>\<open>ipu6-fw-isys.c\<close>), keeps a table of streams and lists of video buffers,
  programs the CSI-2 receivers and answers interrupts. Sensors are attached by a bridge
  (\<^verbatim>\<open>ambu-ipu-bridge.c\<close>) or by a virtual sensor (\<^verbatim>\<open>virt-sensor.c\<close>). The emulated device plays the hardware
  and the firmware: it decodes the queues, walks the page tables and posts responses.

  \<^bold>\<open>Common vocabulary.\<close> \<^verbatim>\<open>Ipu4_Prelude\<close>: C integers as words of their width, error numbers, results
  (\<open>Inl\<close> an error, \<open>Inr\<close> a value), and register access as a state monad over a record of read and write
  functions, so that a driver function runs on any device. \<^verbatim>\<open>State_Hoare\<close>: pre- and postconditions
  for that monad. \<^verbatim>\<open>Kernel_Ledger\<close>: the resources a registration path takes from the kernel and
  gives back. A script says for every call that may fail, by its number, whether it fails; a theorem
  for all scripts covers every combination of failures. Giving back or using what is not
  held is recorded as a misuse, so \<open>no misuse\<close> excludes double frees and use after free. The
  locale \<^verbatim>\<open>unit_family\<close> proves once that a loop that registers units and its unwinding cancel; the
  sensors of the bridge, the video nodes and the receivers are its interpretations.

  \<^bold>\<open>Message queues.\<close> \<^verbatim>\<open>Fw_Com\<close> models \<^verbatim>\<open>ipu6-fw-com.c\<close> function by function: the layout of the shared buffer,
  the handshake, and the queue operations, proved against an abstract ring in the locale \<^verbatim>\<open>regmem\<close> of
  devices whose index registers behave as memory. \<^verbatim>\<open>Qemu_Ipu4\<close> models \<^verbatim>\<open>ipu4.c\<close> of the emulator: register file,
  page-table walk, command parser, BAR handlers, reset and migration; it interprets \<^verbatim>\<open>regmem\<close>. \<^verbatim>\<open>Qemu_Bounds\<close>
  shows that in reachable states no access of the guest reads or writes beyond an array of the device, by
  comparing it with a device that has arbitrary memory behind its arrays. \<^verbatim>\<open>Syscom_Link\<close> puts the two ends together:
  whatever the interleaving, as long as no response is posted to a full ring, the driver receives the written
  responses in order; an open is answered, also when it is the message with which the device loads its
  queues; and a response posted to a full ring hides all others. \<^verbatim>\<open>Fw_Isys\<close> and \<^verbatim>\<open>Fw_Isys_Props\<close>: configuration,
  opening, closing and commands of \<^verbatim>\<open>ipu6-fw-isys.c\<close>, the start of the processor of \<^verbatim>\<open>ipu6.c\<close>, and the agreement
  of the driver and the device on the queue numbers.

  \<^bold>\<open>Memory.\<close> \<^verbatim>\<open>Mmu_Pagetable\<close>: \<^verbatim>\<open>ipu6_mmu_map\<close>, \<^verbatim>\<open>ipu6_mmu_unmap\<close> and their loops on 64-bit words, with the
  invariant of the tables, what each operation does to the entry of every page, and the
  behaviour on holes. \<^verbatim>\<open>Mmu_Hw\<close>: programming of the MMU blocks and the life cycle. \<^verbatim>\<open>Mmu_Link\<close>: the device's walk
  in guest memory agrees with the driver's tables. \<^verbatim>\<open>Page_Mapper\<close>: the laws \<^verbatim>\<open>page_mapper\<close> and \<^verbatim>\<open>page_translator\<close> that
  the clients rely on, interpreted on the page tables. \<^verbatim>\<open>Dma\<close>, \<^verbatim>\<open>Dma_Buffers\<close>, \<^verbatim>\<open>Dma_Props\<close>, \<^verbatim>\<open>Dma_Sg\<close>: coherent buffers
  and scatter lists, correct mapping, failure without leak (and where the code does leak),
  round trips. \<^verbatim>\<open>Cpd\<close>, \<^verbatim>\<open>Cpd_Props\<close>: validation of the package and the package directory, with every
  read and write within its buffer.

  \<^bold>\<open>Buttress.\<close> \<^verbatim>\<open>Buttress\<close>, \<^verbatim>\<open>Buttress_Props\<close>: channel reset, messages, power, authentication, time stamps, interrupt
  dispatch. Statements about termination and authentication hold for any device; the ones about
  completion are on the emulated device. \<^verbatim>\<open>Pci_Pm\<close>: reset and resume of the PCI device on this model.

  \<^bold>\<open>Input system.\<close> \<^verbatim>\<open>Isys_State\<close> (state, message pool, table of streams), \<^verbatim>\<open>Isys_Queue\<close> (buffer lists),
  \<^verbatim>\<open>Isys_Formats\<close> (formats, routing, cropping), \<^verbatim>\<open>Isys_Csi2\<close> (receivers), \<^verbatim>\<open>Isys_Isr\<close> (interrupts and responses),
  \<^verbatim>\<open>Isys_Video\<close> (streams, power management) and \<^verbatim>\<open>Isys_Streaming\<close> (the handlers videobuf2 calls) hold the
  definitions; the theories with suffix \<^verbatim>\<open>_Props\<close> hold the theorems: each buffer is in exactly one place unless
  a failed start has given it back, after which it may stay on the incoming list of its queue (\<^verbatim>\<open>Isys_Stream_Props\<close>),
  the table of streams stays well formed, frames are numbered in order and complete the buffer
  they were queued with, the interrupt handler takes one response in a round, with the effect that \<^verbatim>\<open>resp_effect\<close>
  specifies, and ends when none is left, a failed start is not
  counted as open, formats stay in bounds. \<^verbatim>\<open>Isys_Example\<close> is a concrete system for the witnesses.

  \<^bold>\<open>Registration.\<close> \<^verbatim>\<open>Bridge\<close>, \<^verbatim>\<open>Bridge_Props\<close>: software nodes and sensors of the bridge and the virtual sensor.
  \<^verbatim>\<open>Pci_Driver\<close>, \<^verbatim>\<open>Pci_Props\<close>: probe and removal of the PCI device and the bus devices. \<^verbatim>\<open>Isys_Register\<close>,
  \<^verbatim>\<open>Isys_Register_Props\<close>: probe and removal of the input system driver with its video nodes, receivers, links
  and notifier. The theorems say exactly which failures leave something behind: for the PCI probe
  without a graph, those after its eighteenth call, the last one of the bridge.

  \<^bold>\<open>Bounds and fuel.\<close> Loops of the code that are bounded by a counter or by data are structural or have
  a termination proof, with the bounds of the source: 1001 reads for a TLB invalidation, 2001 rounds of
  the channel reset, 100 interrupts in a row in the buttress, 2000 retries of opening and closing the firmware,
  1000 polls of a proxy request. Polling loops that end by the clock take the number of polls from a
  parameter, since the clock is not part of the program, and so is the number of interrupts that arrive
  during a wait; the theorems hold for all their values. The interrupt handler of the input system loops
  while the device raises an interrupt; it has fuel, and \<^verbatim>\<open>Isys_Isr_Props\<close> proves that on the emulated
  device it ends exactly with any fuel above the number of pending responses. The loop that sends the buffers that
  are there takes one from the queue in each round; its fuel is the length of that queue plus one, which
  \<^verbatim>\<open>capture_loop_ends\<close> in \<^verbatim>\<open>Isys_Stream_Props\<close> proves enough for a queue of the stream. Device addresses have 2^20 pages of 4 KB, physical
  frames 27 bits, and there are 8 streams, as in the source.

  \<^bold>\<open>Not modelled.\<close>
  \<^item> The D-PHYs of IPU6 (\<^verbatim>\<open>ipu6-isys-mcd-phy.c\<close>, \<^verbatim>\<open>ipu6-isys-dwc-phy.c\<close>, \<^verbatim>\<open>ipu6-isys-jsl-phy.c\<close>) are not in the
  \<^verbatim>\<open>Makefile\<close> of the driver, and code under \<^verbatim>\<open>#ifdef IPU6\<close> (iwake, watermarks, LTR) is not compiled.
  \<^item> Mutexes, spin locks and threads: there is one thread of the driver, with interrupts while it waits;
  the order of operations is explicit in the step relations of the queue and stream theories.
  \<^item> The kernel: the page allocator, the bus, vmap, videobuf2, the routing and link validation of V4L2
  are parameters with the documented behaviour as hypotheses; software nodes, I2C and registrations are
  resources of the ledger. Resources that the kernel frees with the device (\<^verbatim>\<open>devm_\<close>, \<^verbatim>\<open>pcim_\<close>)
  are calls that may fail and are not held. The references of runtime power management that the PCI core
  holds for the driver are not part of the ledger, nor are register writes of the probe, which
  are in the models of the components it calls.
  \<^item> Functions without effect on the state of the driver: dumps to the debug log, statistics in debugfs, the
  ioctls for capabilities and inputs, and those operations of the virtual sensor that do nothing.
  Routing of the virtual sensor (\<^verbatim>\<open>isys_install_virt_sensor_route\<close>) is left out as well.
  \<^item> Type registration and logging of the emulator.
\<close>

end
